(* ===== verification/Mukei_Prelude.thy ===== *)
theory Mukei_Prelude
  imports Main "HOL-Library.Word" "HOL-Library.AList"
begin

text \<open>
  Shared vocabulary of the development: the machine integers of the Rust sources, the parts of
  Rust's standard library they rely on (saturating arithmetic, UTF-8 strings as byte lists,
  \<open>str::trim\<close>, character boundaries, decimal formatting, \<open>Duration\<close> formatting, hash maps), and the
  lemma collections every component theory draws on.

  Strings. A Rust \<open>String\<close> is a sequence of UTF-8 bytes; \<open>len()\<close>, indexing and slicing count bytes.
  A \<^typ>\<open>string\<close> here is exactly that byte list. ASCII characters never occur inside a multi-byte
  UTF-8 sequence, so a per-character loop that only inspects ASCII characters is the same loop
  over bytes.

  Hash maps. A \<open>HashMap\<close> is an association list read with \<^const>\<open>map_of\<close> and changed with
  \<^const>\<open>AList.update\<close> and \<^const>\<open>AList.delete\<close>; no modelled operation depends on its order.

  Sizes. \<open>usize\<close> values that only count elements or bytes in memory are \<^typ>\<open>nat\<close>; where the source
  saturates, the saturation bound of the 64-bit Android targets is written out.
\<close>

unbundle bit_operations_syntax

type_synonym u8 = "8 word"
type_synonym u16 = "16 word"
type_synonym u32 = "32 word"
type_synonym u64 = "64 word"

text \<open>A \<open>std::time::Duration\<close>, as its number of nanoseconds.\<close>
type_synonym duration = nat

type_synonym ('k, 'v) hashmap = "('k \<times> 'v) list"

text \<open>
  Collections: \<open>no_markup\<close> gathers facts that a rendered fragment holds no markup character,
  \<open>step_defs\<close> the definitions of atomic steps of the state machines, and \<open>rust_std\<close> the
  characterisations of the standard-library functions below.
\<close>
named_theorems no_markup
named_theorems step_defs
named_theorems rust_std

section \<open>Integers\<close>

definition saturating_sub :: "'a::len word \<Rightarrow> 'a word \<Rightarrow> 'a word" where
  "saturating_sub a b = (if a < b then 0 else a - b)"

definition saturating_add :: "'a::len word \<Rightarrow> 'a word \<Rightarrow> 'a word" where
  "saturating_add a b = (if unat a + unat b < 2 ^ LENGTH('a) then a + b else - 1)"

definition usize_max :: nat where
  "usize_max = 2 ^ 64 - 1"

definition usize_sat_add :: "nat \<Rightarrow> nat \<Rightarrow> nat" where
  "usize_sat_add a b = min (a + b) usize_max"

definition usize_sat_mul :: "nat \<Rightarrow> nat \<Rightarrow> nat" where
  "usize_sat_mul a b = min (a * b) usize_max"

section \<open>Strings\<close>

definition code :: "char \<Rightarrow> nat" where
  "code c = of_char c"

definition em_dash :: string where
  "em_dash = [CHR 0xE2, CHR 0x80, CHR 0x94]"

definition apos :: string where
  "apos = [CHR 0x27]"

definition replacement_char :: string where
  "replacement_char = [CHR 0xEF, CHR 0xBF, CHR 0xBD]"

definition starts_with :: "string \<Rightarrow> string \<Rightarrow> bool" where
  "starts_with p s \<longleftrightarrow> take (length p) s = p"

fun str_contains :: "string \<Rightarrow> string \<Rightarrow> bool" where
  "str_contains p [] = (p = [])"
| "str_contains p (c # s) = (starts_with p (c # s) \<or> str_contains p s)"

text \<open>\<open>str::find(char)\<close>: the suffix from the first occurrence on.\<close>
fun find_from :: "char \<Rightarrow> string \<Rightarrow> string option" where
  "find_from x [] = None"
| "find_from x (c # s) = (if c = x then Some (c # s) else find_from x s)"

definition is_cont_byte :: "char \<Rightarrow> bool" where
  "is_cont_byte c \<longleftrightarrow> 0x80 \<le> code c \<and> code c < 0xC0"

definition is_char_boundary :: "string \<Rightarrow> nat \<Rightarrow> bool" where
  "is_char_boundary s i \<longleftrightarrow>
     i = 0 \<or> i = length s \<or> (i < length s \<and> \<not> is_cont_byte (s ! i))"

text \<open>The loop \<open>while end > 0 && !s.is_char_boundary(end) { end -= 1 }\<close>.\<close>
fun floor_char_boundary :: "string \<Rightarrow> nat \<Rightarrow> nat" where
  "floor_char_boundary s 0 = 0"
| "floor_char_boundary s (Suc n) =
     (if is_char_boundary s (Suc n) then Suc n else floor_char_boundary s n)"

text \<open>
  \<open>str::trim\<close> strips the characters with the Unicode property \<open>White_Space\<close>. \<open>ws_len\<close> gives the
  byte length of the whitespace character a string starts with (0 when it starts with none), and
  \<open>ws_len_rev\<close> the same for the end of a string, read backwards.
\<close>
definition ascii_ws :: "char \<Rightarrow> bool" where
  "ascii_ws c \<longleftrightarrow> (9 \<le> code c \<and> code c \<le> 13) \<or> code c = 32"

definition ws2 :: "char \<Rightarrow> char \<Rightarrow> bool" where
  "ws2 a b \<longleftrightarrow> code a = 0xC2 \<and> (code b = 0x85 \<or> code b = 0xA0)"

definition ws3 :: "char \<Rightarrow> char \<Rightarrow> char \<Rightarrow> bool" where
  "ws3 a b c \<longleftrightarrow>
     (code a = 0xE1 \<and> code b = 0x9A \<and> code c = 0x80) \<or>
     (code a = 0xE2 \<and> code b = 0x80 \<and>
        ((0x80 \<le> code c \<and> code c \<le> 0x8A) \<or> code c = 0xA8 \<or> code c = 0xA9 \<or> code c = 0xAF)) \<or>
     (code a = 0xE2 \<and> code b = 0x81 \<and> code c = 0x9F) \<or>
     (code a = 0xE3 \<and> code b = 0x80 \<and> code c = 0x80)"

fun ws_len :: "string \<Rightarrow> nat" where
  "ws_len [] = 0"
| "ws_len [a] = (if ascii_ws a then 1 else 0)"
| "ws_len [a, b] = (if ascii_ws a then 1 else if ws2 a b then 2 else 0)"
| "ws_len (a # b # c # r) =
     (if ascii_ws a then 1 else if ws2 a b then 2 else if ws3 a b c then 3 else 0)"

fun ws_len_rev :: "string \<Rightarrow> nat" where
  "ws_len_rev [] = 0"
| "ws_len_rev [a] = (if ascii_ws a then 1 else 0)"
| "ws_len_rev [b, a] = (if ascii_ws b then 1 else if ws2 a b then 2 else 0)"
| "ws_len_rev (c # b # a # r) =
     (if ascii_ws c then 1 else if ws2 b c then 2 else if ws3 a b c then 3 else 0)"

lemma ws_len_le: "ws_len s \<le> length s"
  by (induction s rule: ws_len.induct) auto

lemma ws_len_rev_le: "ws_len_rev s \<le> length s"
  by (induction s rule: ws_len_rev.induct) auto

function trim_start :: "string \<Rightarrow> string" where
  "trim_start s = (if ws_len s = 0 then s else trim_start (drop (ws_len s) s))"
  by pat_completeness auto
termination
proof (relation "measure length")
  show "wf (measure length)" by simp
next
  fix s :: string
  assume "ws_len s \<noteq> 0"
  moreover have "ws_len s \<le> length s" by (rule ws_len_le)
  ultimately show "(drop (ws_len s) s, s) \<in> measure length" by auto
qed

function trim_start_rev :: "string \<Rightarrow> string" where
  "trim_start_rev s = (if ws_len_rev s = 0 then s else trim_start_rev (drop (ws_len_rev s) s))"
  by pat_completeness auto
termination
proof (relation "measure length")
  show "wf (measure length)" by simp
next
  fix s :: string
  assume "ws_len_rev s \<noteq> 0"
  moreover have "ws_len_rev s \<le> length s" by (rule ws_len_rev_le)
  ultimately show "(drop (ws_len_rev s) s, s) \<in> measure length" by auto
qed

declare trim_start.simps [simp del] trim_start_rev.simps [simp del]

definition trim :: "string \<Rightarrow> string" where
  "trim s = rev (trim_start_rev (rev (trim_start s)))"

text \<open>\<open>str::to_ascii_lowercase\<close>, \<open>u8::is_ascii_alphanumeric\<close> and \<open>char::is_ascii_control\<close>.\<close>
definition to_ascii_lowercase :: "string \<Rightarrow> string" where
  "to_ascii_lowercase s =
     map (\<lambda>c. if 65 \<le> code c \<and> code c \<le> 90 then char_of (code c + 32) else c) s"

definition is_ascii_alphanumeric :: "char \<Rightarrow> bool" where
  "is_ascii_alphanumeric c \<longleftrightarrow>
     (48 \<le> code c \<and> code c \<le> 57) \<or> (65 \<le> code c \<and> code c \<le> 90) \<or> (97 \<le> code c \<and> code c \<le> 122)"

definition is_ascii_control :: "char \<Rightarrow> bool" where
  "is_ascii_control c \<longleftrightarrow> code c < 32 \<or> code c = 127"

section \<open>Formatting\<close>

definition digit :: "nat \<Rightarrow> char" where
  "digit d = char_of (48 + d)"

fun show_nat :: "nat \<Rightarrow> string" where
  "show_nat n = (if n < 10 then [digit n] else show_nat (n div 10) @ [digit (n mod 10)])"

declare show_nat.simps [simp del]

definition show_int :: "int \<Rightarrow> string" where
  "show_int i = (if i < 0 then CHR ''-'' # show_nat (nat (- i)) else show_nat (nat i))"

definition show_word :: "'a::len word \<Rightarrow> string" where
  "show_word w = show_nat (unat w)"

fun join_with :: "string \<Rightarrow> string list \<Rightarrow> string" where
  "join_with sep [] = []"
| "join_with sep [x] = x"
| "join_with sep (x # y # ys) = x @ sep @ join_with sep (y # ys)"

text \<open>\<open>{:?}\<close> of a \<open>Vec<u32>\<close>.\<close>
definition debug_words :: "u32 list \<Rightarrow> string" where
  "debug_words ws = ''['' @ join_with '', '' (map show_word ws) @ '']''"

text \<open>
  \<open>{:?}\<close> of a \<open>Duration\<close>: the integer part, a fraction with its trailing zeros dropped, and the
  largest of the units s, ms, \<open>\<mu>\<close>s, ns whose integer part is positive. \<open>pad_frac k f\<close> writes
  \<open>f\<close> with \<open>k\<close> digits.
\<close>
fun pad_frac :: "nat \<Rightarrow> nat \<Rightarrow> string" where
  "pad_frac 0 f = []"
| "pad_frac (Suc k) f = digit ((f div 10 ^ k) mod 10) # pad_frac k f"

definition trim_zeros :: "string \<Rightarrow> string" where
  "trim_zeros s = rev (dropWhile (\<lambda>c. c = CHR ''0'') (rev s))"

definition fmt_decimal :: "nat \<Rightarrow> nat \<Rightarrow> nat \<Rightarrow> string" where
  "fmt_decimal whole frac k =
     (let t = trim_zeros (pad_frac k frac)
      in show_nat whole @ (if t = [] then [] else CHR ''.'' # t))"

definition debug_duration :: "duration \<Rightarrow> string" where
  "debug_duration ns =
     (if ns \<ge> 10 ^ 9 then fmt_decimal (ns div 10 ^ 9) (ns mod 10 ^ 9) 9 @ ''s''
      else if ns \<ge> 10 ^ 6 then fmt_decimal (ns div 10 ^ 6) (ns mod 10 ^ 6) 6 @ ''ms''
      else if ns \<ge> 10 ^ 3 then fmt_decimal (ns div 10 ^ 3) (ns mod 10 ^ 3) 3
             @ [CHR 0xC2, CHR 0xB5] @ ''s''
      else show_nat ns @ ''ns'')"

definition debug_duration_opt :: "duration option \<Rightarrow> string" where
  "debug_duration_opt d =
     (case d of None \<Rightarrow> ''None'' | Some t \<Rightarrow> ''Some('' @ debug_duration t @ '')'')"

section \<open>Lemmas on integers\<close>

lemma unat_saturating_sub [rust_std]:
  "unat (saturating_sub a b) = unat a - unat b"
  by (auto simp: saturating_sub_def word_less_nat_alt unat_sub word_le_nat_alt not_less)

lemma unat_saturating_add [rust_std]:
  fixes a b :: "'a::len word"
  shows "unat (saturating_add a b) = min (unat a + unat b) (2 ^ LENGTH('a) - 1)"
proof (cases "unat a + unat b < 2 ^ LENGTH('a)")
  case True
  then show ?thesis by (simp add: saturating_add_def unat_word_ariths)
next
  case False
  then show ?thesis by (simp add: saturating_add_def unsigned_minus_1_eq_mask mask_eq_exp_minus_1)
qed

lemma saturating_sub_eq_0_iff [rust_std]: "saturating_sub a b = 0 \<longleftrightarrow> a \<le> b"
  by (auto simp: saturating_sub_def)

lemma usize_sat_add_le: "usize_sat_add a b \<le> a + b"
  by (simp add: usize_sat_add_def)

lemma usize_sat_add_eq: "a + b \<le> usize_max \<Longrightarrow> usize_sat_add a b = a + b"
  by (simp add: usize_sat_add_def)

section \<open>Lemmas on strings\<close>

lemma floor_char_boundary_le [simp]: "floor_char_boundary s n \<le> n"
  by (induction s n rule: floor_char_boundary.induct) auto

lemma floor_char_boundary_is_boundary [simp]: "is_char_boundary s (floor_char_boundary s n)"
  by (induction s n rule: floor_char_boundary.induct) (auto simp: is_char_boundary_def)

lemma floor_char_boundary_id: "is_char_boundary s n \<Longrightarrow> floor_char_boundary s n = n"
  by (cases n) auto

text \<open>The loop finds the last boundary at or before its start.\<close>
lemma floor_char_boundary_max:
  "is_char_boundary s m \<Longrightarrow> m \<le> n \<Longrightarrow> m \<le> floor_char_boundary s n"
proof (induction s n rule: floor_char_boundary.induct)
  case (2 s n)
  then show ?case by (cases "m = Suc n") auto
qed simp

lemma starts_with_append [simp]: "starts_with p (p @ s)"
  by (simp add: starts_with_def)

lemma starts_with_iff: "starts_with p s \<longleftrightarrow> (\<exists>r. s = p @ r)"
proof
  assume "starts_with p s"
  then have "s = p @ drop (length p) s" by (metis append_take_drop_id starts_with_def)
  then show "\<exists>r. s = p @ r" by blast
qed (auto simp: starts_with_def)

text \<open>
  A graphic ASCII byte is never stripped by \<open>trim\<close>: it is neither ASCII whitespace nor part of a
  multi-byte whitespace character.
\<close>
definition graphic :: "char \<Rightarrow> bool" where
  "graphic c \<longleftrightarrow> 32 < code c \<and> code c < 128"

lemma ws_len_not_graphic: "c \<in> set (take (ws_len s) s) \<Longrightarrow> \<not> graphic c"
  by (cases s rule: ws_len.cases) (auto simp: graphic_def ascii_ws_def ws2_def ws3_def split: if_splits)

lemma ws_len_rev_not_graphic: "c \<in> set (take (ws_len_rev s) s) \<Longrightarrow> \<not> graphic c"
  by (cases s rule: ws_len_rev.cases) (auto simp: graphic_def ascii_ws_def ws2_def ws3_def split: if_splits)

lemma in_take_or_drop: "c \<in> set s \<Longrightarrow> c \<in> set (take n s) \<or> c \<in> set (drop n s)"
  by (metis UnE append_take_drop_id set_append)

lemma trim_start_graphic: "graphic c \<Longrightarrow> c \<in> set s \<Longrightarrow> c \<in> set (trim_start s)"
proof (induction s rule: trim_start.induct)
  case (1 s)
  have "c \<in> set (drop (ws_len s) s)"
    using in_take_or_drop [of c s "ws_len s"] ws_len_not_graphic [of c s] "1.prems" by blast
  with "1.IH" "1.prems" show ?case
    by (cases "ws_len s = 0") (simp_all add: trim_start.simps [of s])
qed

lemma trim_start_rev_graphic: "graphic c \<Longrightarrow> c \<in> set s \<Longrightarrow> c \<in> set (trim_start_rev s)"
proof (induction s rule: trim_start_rev.induct)
  case (1 s)
  have "c \<in> set (drop (ws_len_rev s) s)"
    using in_take_or_drop [of c s "ws_len_rev s"] ws_len_rev_not_graphic [of c s] "1.prems" by blast
  with "1.IH" "1.prems" show ?case
    by (cases "ws_len_rev s = 0") (simp_all add: trim_start_rev.simps [of s])
qed

lemma trim_not_Nil: "c \<in> set s \<Longrightarrow> graphic c \<Longrightarrow> trim s \<noteq> []"
  using trim_start_rev_graphic [of c "rev (trim_start s)"] trim_start_graphic [of c s]
  by (auto simp: trim_def)

lemma trim_Nil [simp]: "trim [] = []"
  by (simp add: trim_def trim_start.simps trim_start_rev.simps)

lemma alphanumeric_graphic: "is_ascii_alphanumeric c \<Longrightarrow> graphic c"
  by (auto simp: is_ascii_alphanumeric_def graphic_def)

lemma trim_graphic_ends: "graphic a \<Longrightarrow> graphic b \<Longrightarrow> trim (a # s @ [b]) = a # s @ [b]"
proof -
  have st: "trim_start (c # r) = c # r" if "graphic c" for c r
    using that by (subst trim_start.simps, cases "c # r" rule: ws_len.cases)
      (auto simp: graphic_def ascii_ws_def ws2_def ws3_def)
  have en: "trim_start_rev (c # r) = c # r" if "graphic c" for c r
    using that by (subst trim_start_rev.simps, cases "c # r" rule: ws_len_rev.cases)
      (auto simp: graphic_def ascii_ws_def ws2_def ws3_def)
  assume "graphic a" "graphic b"
  then show ?thesis by (simp add: trim_def st en)
qed

lemma digit_range: "d < 10 \<Longrightarrow> code (digit d) = 48 + d"
  by (simp add: code_def digit_def of_char_of)

lemma show_nat_chars: "c \<in> set (show_nat n) \<Longrightarrow> 48 \<le> code c \<and> code c \<le> 57"
proof (induction n rule: show_nat.induct)
  case (1 n)
  show ?case
  proof (cases "n < 10")
    case True
    with "1.prems" show ?thesis by (subst (asm) show_nat.simps) (simp add: digit_range)
  next
    case False
    with "1.prems" have "c \<in> set (show_nat (n div 10)) \<or> c = digit (n mod 10)"
      by (subst (asm) show_nat.simps) auto
    with False "1.IH" show ?thesis by (auto simp: digit_range)
  qed
qed

lemma show_nat_not_Nil [simp]: "show_nat n \<noteq> []"
  by (subst show_nat.simps) simp

lemma set_show_word: "c \<in> set (show_word w) \<Longrightarrow> 48 \<le> code c \<and> code c \<le> 57"
  by (simp add: show_word_def show_nat_chars)

section \<open>Lemmas on lists and association lists\<close>

lemma map_of_update [simp]: "map_of (AList.update k v al) = (map_of al)(k \<mapsto> v)"
  by (rule update_conv')

lemma map_of_delete [simp]: "map_of (AList.delete k al) = (map_of al)(k := None)"
  by (rule delete_conv')

text \<open>A list with exactly two marks can only be split at one of the two.\<close>
lemma split_at_two_marks:
  assumes "p @ x # r = x # a @ x # b" and "x \<notin> set a" and "x \<notin> set b"
  shows "p = [] \<and> r = a @ x # b \<or> p = x # a \<and> r = b"
proof (cases p)
  case Nil
  with assms(1) show ?thesis by simp
next
  case (Cons y p')
  with assms(1) have "y = x" and "a @ x # b = p' @ x # r" by auto
  with assms(2,3) Cons show ?thesis by (simp add: append_Cons_eq_iff)
qed

lemma filter_count_compl: "length (filter P xs) + length (filter (\<lambda>x. \<not> P x) xs) = length xs"
  by (induction xs) auto

end
