(* ===== verification/Mukei_Errors.thy ===== *)
theory Mukei_Errors
  imports Mukei_Prelude
begin

text \<open>
  The workspace-wide error type (\<^verbatim>\<open>error.rs\<close>): the enum \<open>MukeiError\<close> with its payloads, the
  \<open>Display\<close> text every variant carries in its \<^verbatim>\<open>#[error(...)]\<close> attribute, the stable machine code
  \<open>error_code\<close>, and the coarse \<open>classification\<close> that the diagnostics layer uses. Named payload
  fields are constructor arguments in declaration order.
\<close>

section \<open>Error classes\<close>

datatype ErrorClass =
    Resource | Device | Inference | Storage | Config | Agent | Permission | Network
  | Security | Unknown

primrec error_class_display :: "ErrorClass \<Rightarrow> string" where
  "error_class_display Resource = ''resource''"
| "error_class_display Device = ''device''"
| "error_class_display Inference = ''inference''"
| "error_class_display Storage = ''storage''"
| "error_class_display Config = ''config''"
| "error_class_display Agent = ''agent''"
| "error_class_display Permission = ''permission''"
| "error_class_display Network = ''network''"
| "error_class_display Security = ''security''"
| "error_class_display Unknown = ''unknown''"

section \<open>The error enum\<close>

datatype (plugins only: code) MukeiError =
    FFIPanic
  | CallbackGuardExpired
  | BlockingJoinFailed string
  | BridgeBusy
  | DownloadBusy string
  | OOM
  | MemoryPreflightRejected string
  | ThermalThrottle
  | ModelLoadFailed string
  | ModelCorrupted
  | ContextCreationFailed string
  | ContextOverflow nat
  | GrammarLoadFailed string
  | DatabaseInitFailed string
  | DatabaseCorruption
  | MigrationFailed u32 string
  | MigrationOrderConflict u32 "u32 list"
  | MigrationChecksumMismatch u32 string string
  | MigrationLocked
  | SchemaTooNew u32 u32
  | AuditLogTampered int
  | DatabaseEncryptionUnavailable
  | DatabaseEncryptionMigrationRequired
  | DatabaseEncryptionInvalidKey
  | DatabaseEncryptionCorrupted
  | ConfigMissingField string
  | ConfigInvalid string string
  | ConfigUnknownField string
  | SafeStorageUnavailable string
  | WrappedKeyMalformed string
  | UnwrapFailed
  | SecretLeaked nat
  | ToolLoopDetected nat
  | ToolTimeout "duration option"
  | UnknownTool string
  | ToolArgsRejected string string
  | ToolAbuseBlocked string
  | ToolPermanentlyDisabled string
  | RemoteFeatureDisabled string string
  | ToolParseFailed string
  | ToolArgumentInvalid string string
  | ToolExecutionFailed string
  | WebSearchFailed string
  | HttpClientFailed string
  | FileReadFailed string
  | BinaryFile
  | SandboxViolation
  | PermissionDenied
  | SafRevoked
  | SafRequired
  | NetworkError string
  | NetworkTimeout string
  | NetworkUnavailable string
  | NetworkTls string
  | NetworkInvalidResponse string
  | NetworkRateLimited string
  | NetworkServerError u16 string
  | Io string
  | DownloadHashMismatch
  | DownloadSizeMissing
  | DownloadTooLarge u64 u64
  | StorageQuotaExceeded u64 u64 u64
  | PromptLeakage
  | WatchdogExceeded string
  | CrashLoopDetected string
  | Cancelled
  | Invariant string
  | Internal string
  | UsageIdempotencyConflict string string
  | SaasRevisionConflict string u64

text \<open>\<open>type Result<T> = std::result::Result<T, MukeiError>\<close>\<close>
type_synonym 'a result = "MukeiError + 'a"

text \<open>The \<open>Display\<close> implementation derived from the \<^verbatim>\<open>#[error(...)]\<close> attributes.\<close>
primrec to_string :: "MukeiError \<Rightarrow> string" where
  "to_string FFIPanic = ''FFI panic at bridge boundary''"
| "to_string CallbackGuardExpired =
     ''callback guard generation mismatch '' @ em_dash @ '' QObject was destroyed''"
| "to_string (BlockingJoinFailed a) = ''spawn_blocking task join failed: '' @ a"
| "to_string BridgeBusy =
     ''bridge entry point is busy '' @ em_dash @ '' another send_message is still streaming''"
| "to_string (DownloadBusy dest) = ''download already in flight for destination '' @ dest"
| "to_string OOM = ''out of memory during inference''"
| "to_string (MemoryPreflightRejected a) = ''memory preflight refused model load: '' @ a"
| "to_string ThermalThrottle =
     ''thermal throttling triggered '' @ em_dash @ '' generation suspended''"
| "to_string (ModelLoadFailed a) = ''model load failed: '' @ a"
| "to_string ModelCorrupted =
     ''SHA256 mismatch '' @ em_dash @ '' model file corrupt or replaced''"
| "to_string (ContextCreationFailed a) = ''context creation failed: '' @ a"
| "to_string (ContextOverflow a) =
     ''context window overflow ('' @ show_nat a @ '' tokens > limit)''"
| "to_string (GrammarLoadFailed a) = ''grammar (GBNF) load failed: '' @ a"
| "to_string (DatabaseInitFailed a) = ''database initialisation failed: '' @ a"
| "to_string DatabaseCorruption = ''database corruption detected''"
| "to_string (MigrationFailed a b) = ''migration failed at version '' @ show_word a @ '': '' @ b"
| "to_string (MigrationOrderConflict expected applied) =
     ''migration order conflict: expected '' @ show_word expected @ '', applied '' @ debug_words applied"
| "to_string (MigrationChecksumMismatch version applied bundled) =
     ''migration checksum mismatch at version '' @ show_word version @ '': applied '' @ applied @ '', bundled '' @ bundled"
| "to_string MigrationLocked = ''database migration is already running''"
| "to_string (SchemaTooNew found supported) =
     ''database schema version '' @ show_word found @ '' is newer than this build supports ('' @ show_word supported @ '')''"
| "to_string (AuditLogTampered row_id) = ''audit log tamper detected at row '' @ show_int row_id"
| "to_string DatabaseEncryptionUnavailable = ''database encryption is unavailable in this build''"
| "to_string DatabaseEncryptionMigrationRequired =
     ''unencrypted database requires explicit secure migration''"
| "to_string DatabaseEncryptionInvalidKey = ''database encryption key is invalid''"
| "to_string DatabaseEncryptionCorrupted = ''encrypted database appears corrupted''"
| "to_string (ConfigMissingField a) = ''config.toml missing required field: '' @ a"
| "to_string (ConfigInvalid field reason) =
     ''config.toml field '' @ apos @ field @ apos @ '' has invalid value: '' @ reason"
| "to_string (ConfigUnknownField a) = ''config.toml contains unknown field: '' @ a"
| "to_string (SafeStorageUnavailable a) = ''safe-storage (Keystore) unavailable: '' @ a"
| "to_string (WrappedKeyMalformed a) = ''wrapped-key envelope malformed: '' @ a"
| "to_string UnwrapFailed =
     ''wrapping key could not unwrap '' @ em_dash @ '' Android Keystore failure''"
| "to_string (SecretLeaked a) =
     ''plaintext secret would have crossed this boundary (redacted, '' @ show_nat a @ '' bytes)''"
| "to_string (ToolLoopDetected a) =
     ''tool loop detected '' @ em_dash @ '' aborted after '' @ show_nat a @ '' iterations''"
| "to_string (ToolTimeout a) = ''tool execution timeout after '' @ debug_duration_opt a"
| "to_string (UnknownTool tool_name) =
     ''tool '' @ apos @ tool_name @ apos @ '' is not in the allowed registry''"
| "to_string (ToolArgsRejected tool_name reason) =
     ''tool '' @ apos @ tool_name @ apos @ '' validator rejected payload: '' @ reason"
| "to_string (ToolAbuseBlocked tool_name) =
     ''tool '' @ apos @ tool_name @ apos @ '' blocked '' @ em_dash @ '' fingerprint abuse limit reached''"
| "to_string (ToolPermanentlyDisabled tool_name) =
     ''tool '' @ apos @ tool_name @ apos @ '' is permanently disabled for this session''"
| "to_string (RemoteFeatureDisabled feature policy) =
     ''remote feature '' @ apos @ feature @ apos @ '' blocked by policy '' @ policy"
| "to_string (ToolParseFailed a) = ''tool payload could not be parsed: '' @ a"
| "to_string (ToolArgumentInvalid field reason) =
     ''tool argument '' @ apos @ field @ apos @ '' invalid: '' @ reason"
| "to_string (ToolExecutionFailed a) = ''tool execution failed: '' @ a"
| "to_string (WebSearchFailed a) = ''web search failed: '' @ a"
| "to_string (HttpClientFailed a) = ''http client construction failed: '' @ a"
| "to_string (FileReadFailed a) = ''file read failed: '' @ a"
| "to_string BinaryFile = ''binary file rejected by text-only reader''"
| "to_string SandboxViolation = ''sandbox violation''"
| "to_string PermissionDenied = ''permission denied by user or OS''"
| "to_string SafRevoked = ''SAF URI grant revoked mid-operation''"
| "to_string SafRequired = ''anon-FS path rejected '' @ em_dash @ '' SAF picker is mandatory''"
| "to_string (NetworkError a) = ''network request failed: '' @ a"
| "to_string (NetworkTimeout operation) = ''network request timed out during '' @ operation"
| "to_string (NetworkUnavailable operation) = ''network unavailable during '' @ operation"
| "to_string (NetworkTls operation) = ''TLS validation failed during '' @ operation"
| "to_string (NetworkInvalidResponse operation) =
     ''invalid network response during '' @ operation"
| "to_string (NetworkRateLimited operation) =
     ''network request rate-limited during '' @ operation"
| "to_string (NetworkServerError status operation) =
     ''server error '' @ show_word status @ '' during '' @ operation"
| "to_string (Io a) = ''io failure: '' @ a"
| "to_string DownloadHashMismatch = ''resumable download hash mismatch on truncated resume''"
| "to_string DownloadSizeMissing = ''download response is missing Content-Length''"
| "to_string (DownloadTooLarge max_bytes actual_bytes) =
     ''download too large ('' @ show_word actual_bytes @ '' bytes > '' @ show_word max_bytes @ '' bytes)''"
| "to_string (StorageQuotaExceeded max_bytes requested_bytes used_bytes) =
     ''storage quota exceeded ('' @ show_word used_bytes @ '' used + '' @ show_word requested_bytes @ '' requested > '' @ show_word max_bytes @ '' max)''"
| "to_string PromptLeakage =
     ''system prompt leakage detected '' @ em_dash @ '' aborting generation''"
| "to_string (WatchdogExceeded kind) = ''watchdog exceeded '' @ kind @ '' budget''"
| "to_string (CrashLoopDetected fingerprint) =
     ''FMEA fingerprint hit '' @ em_dash @ '' operation previously crashed with this fingerprint''"
| "to_string Cancelled = ''operation cancelled by user / OS''"
| "to_string (Invariant a) = ''invariant violated: '' @ a"
| "to_string (Internal a) = ''internal error: '' @ a"
| "to_string (UsageIdempotencyConflict tenant_id dimension) =
     ''usage idempotency conflict for tenant '' @ tenant_id @ '' dimension '' @ dimension"
| "to_string (SaasRevisionConflict entity revision) =
     ''SaaS snapshot revision conflict for '' @ entity @ '' at revision '' @ show_word revision"

section \<open>Codes and classes\<close>

primrec error_code :: "MukeiError \<Rightarrow> string" where
  "error_code FFIPanic = ''ERR_FFI_PANIC''"
| "error_code CallbackGuardExpired = ''ERR_CALLBACK_GUARD_EXPIRED''"
| "error_code (BlockingJoinFailed a) = ''ERR_BLOCKING_JOIN''"
| "error_code BridgeBusy = ''ERR_BRIDGE_BUSY''"
| "error_code (DownloadBusy a) = ''ERR_DOWNLOAD_BUSY''"
| "error_code OOM = ''ERR_OOM''"
| "error_code (MemoryPreflightRejected a) = ''ERR_MEM_PREFLIGHT''"
| "error_code ThermalThrottle = ''ERR_THERMAL''"
| "error_code (ModelLoadFailed a) = ''ERR_MODEL_LOAD''"
| "error_code ModelCorrupted = ''ERR_MODEL_CORRUPTED''"
| "error_code (ContextCreationFailed a) = ''ERR_CONTEXT_CREATE''"
| "error_code (ContextOverflow a) = ''ERR_CONTEXT_OVERFLOW''"
| "error_code (GrammarLoadFailed a) = ''ERR_GRAMMAR_LOAD''"
| "error_code (DatabaseInitFailed a) = ''ERR_DB_INIT''"
| "error_code DatabaseCorruption = ''ERR_DB_CORRUPTION''"
| "error_code (MigrationFailed a b) = ''ERR_MIGRATION''"
| "error_code (MigrationOrderConflict a b) = ''ERR_MIGRATION_ORDER''"
| "error_code (MigrationChecksumMismatch a b c) = ''ERR_MIGRATION_CHECKSUM''"
| "error_code MigrationLocked = ''ERR_MIGRATION_LOCKED''"
| "error_code (SchemaTooNew a b) = ''ERR_SCHEMA_TOO_NEW''"
| "error_code (AuditLogTampered a) = ''ERR_AUDIT_TAMPERED''"
| "error_code DatabaseEncryptionUnavailable = ''ERR_DB_ENCRYPTION_UNAVAILABLE''"
| "error_code DatabaseEncryptionMigrationRequired = ''ERR_DB_ENCRYPTION_MIGRATION_REQUIRED''"
| "error_code DatabaseEncryptionInvalidKey = ''ERR_DB_ENCRYPTION_INVALID_KEY''"
| "error_code DatabaseEncryptionCorrupted = ''ERR_DB_ENCRYPTION_CORRUPTED''"
| "error_code (ConfigMissingField a) = ''ERR_CONFIG_MISSING''"
| "error_code (ConfigInvalid a b) = ''ERR_CONFIG_INVALID''"
| "error_code (ConfigUnknownField a) = ''ERR_CONFIG_UNKNOWN''"
| "error_code (SafeStorageUnavailable a) = ''ERR_SAFE_STORAGE''"
| "error_code (WrappedKeyMalformed a) = ''ERR_WRAPPED_KEY''"
| "error_code UnwrapFailed = ''ERR_UNWRAP_FAILED''"
| "error_code (SecretLeaked a) = ''ERR_SECRET_LEAKED''"
| "error_code (ToolLoopDetected a) = ''ERR_TOOL_LOOP''"
| "error_code (ToolTimeout a) = ''ERR_TOOL_TIMEOUT''"
| "error_code (UnknownTool a) = ''ERR_TOOL_UNKNOWN''"
| "error_code (ToolArgsRejected a b) = ''ERR_TOOL_ARGS''"
| "error_code (ToolAbuseBlocked a) = ''ERR_TOOL_ABUSE''"
| "error_code (ToolPermanentlyDisabled a) = ''ERR_TOOL_DISABLED''"
| "error_code (RemoteFeatureDisabled a b) = ''ERR_REMOTE_DISABLED''"
| "error_code (ToolParseFailed a) = ''ERR_TOOL_PARSE''"
| "error_code (ToolArgumentInvalid a b) = ''ERR_TOOL_ARGUMENT''"
| "error_code (ToolExecutionFailed a) = ''ERR_TOOL_EXEC''"
| "error_code (WebSearchFailed a) = ''ERR_WEB_SEARCH''"
| "error_code (HttpClientFailed a) = ''ERR_HTTP_CLIENT''"
| "error_code (FileReadFailed a) = ''ERR_FILE_READ''"
| "error_code BinaryFile = ''ERR_BINARY_FILE''"
| "error_code SandboxViolation = ''ERR_SANDBOX''"
| "error_code PermissionDenied = ''ERR_PERMISSION_DENIED''"
| "error_code SafRevoked = ''ERR_SAF_REVOKED''"
| "error_code SafRequired = ''ERR_SAF_REQUIRED''"
| "error_code (NetworkError a) = ''ERR_NETWORK''"
| "error_code (NetworkTimeout a) = ''ERR_NETWORK_TIMEOUT''"
| "error_code (NetworkUnavailable a) = ''ERR_NETWORK_UNAVAILABLE''"
| "error_code (NetworkTls a) = ''ERR_NETWORK_TLS''"
| "error_code (NetworkInvalidResponse a) = ''ERR_NETWORK_INVALID_RESPONSE''"
| "error_code (NetworkRateLimited a) = ''ERR_NETWORK_RATE_LIMITED''"
| "error_code (NetworkServerError a b) = ''ERR_NETWORK_SERVER''"
| "error_code (Io a) = ''ERR_IO''"
| "error_code DownloadHashMismatch = ''ERR_DOWNLOAD_HASH''"
| "error_code DownloadSizeMissing = ''ERR_DOWNLOAD_SIZE_MISSING''"
| "error_code (DownloadTooLarge a b) = ''ERR_DOWNLOAD_TOO_LARGE''"
| "error_code (StorageQuotaExceeded a b c) = ''ERR_STORAGE_QUOTA''"
| "error_code PromptLeakage = ''ERR_PROMPT_LEAKAGE''"
| "error_code (WatchdogExceeded a) = ''ERR_WATCHDOG''"
| "error_code (CrashLoopDetected a) = ''ERR_CRASH_LOOP''"
| "error_code Cancelled = ''ERR_CANCELLED''"
| "error_code (Invariant a) = ''ERR_INVARIANT''"
| "error_code (Internal a) = ''ERR_INTERNAL''"
| "error_code (UsageIdempotencyConflict a b) = ''ERR_USAGE_IDEMPOTENCY_CONFLICT''"
| "error_code (SaasRevisionConflict a b) = ''ERR_SAAS_REVISION_CONFLICT''"

primrec classification :: "MukeiError \<Rightarrow> ErrorClass" where
  "classification FFIPanic = ErrorClass.Resource"
| "classification CallbackGuardExpired = ErrorClass.Resource"
| "classification (BlockingJoinFailed a) = ErrorClass.Resource"
| "classification BridgeBusy = ErrorClass.Agent"
| "classification (DownloadBusy a) = ErrorClass.Agent"
| "classification OOM = ErrorClass.Resource"
| "classification (MemoryPreflightRejected a) = ErrorClass.Resource"
| "classification ThermalThrottle = ErrorClass.Device"
| "classification (ModelLoadFailed a) = ErrorClass.Inference"
| "classification ModelCorrupted = ErrorClass.Inference"
| "classification (ContextCreationFailed a) = ErrorClass.Inference"
| "classification (ContextOverflow a) = ErrorClass.Inference"
| "classification (GrammarLoadFailed a) = ErrorClass.Inference"
| "classification (DatabaseInitFailed a) = ErrorClass.Storage"
| "classification DatabaseCorruption = ErrorClass.Storage"
| "classification (MigrationFailed a b) = ErrorClass.Storage"
| "classification (MigrationOrderConflict a b) = ErrorClass.Storage"
| "classification (MigrationChecksumMismatch a b c) = ErrorClass.Storage"
| "classification MigrationLocked = ErrorClass.Storage"
| "classification (SchemaTooNew a b) = ErrorClass.Storage"
| "classification (AuditLogTampered a) = ErrorClass.Storage"
| "classification DatabaseEncryptionUnavailable = ErrorClass.Storage"
| "classification DatabaseEncryptionMigrationRequired = ErrorClass.Storage"
| "classification DatabaseEncryptionInvalidKey = ErrorClass.Storage"
| "classification DatabaseEncryptionCorrupted = ErrorClass.Storage"
| "classification (ConfigMissingField a) = ErrorClass.Config"
| "classification (ConfigInvalid a b) = ErrorClass.Config"
| "classification (ConfigUnknownField a) = ErrorClass.Config"
| "classification (SafeStorageUnavailable a) = ErrorClass.Security"
| "classification (WrappedKeyMalformed a) = ErrorClass.Security"
| "classification UnwrapFailed = ErrorClass.Security"
| "classification (SecretLeaked a) = ErrorClass.Security"
| "classification (ToolLoopDetected a) = ErrorClass.Agent"
| "classification (ToolTimeout a) = ErrorClass.Agent"
| "classification (UnknownTool a) = ErrorClass.Agent"
| "classification (ToolArgsRejected a b) = ErrorClass.Agent"
| "classification (ToolAbuseBlocked a) = ErrorClass.Agent"
| "classification (ToolPermanentlyDisabled a) = ErrorClass.Agent"
| "classification (RemoteFeatureDisabled a b) = ErrorClass.Permission"
| "classification (ToolParseFailed a) = ErrorClass.Agent"
| "classification (ToolArgumentInvalid a b) = ErrorClass.Agent"
| "classification (ToolExecutionFailed a) = ErrorClass.Agent"
| "classification (WebSearchFailed a) = ErrorClass.Agent"
| "classification (HttpClientFailed a) = ErrorClass.Agent"
| "classification (FileReadFailed a) = ErrorClass.Agent"
| "classification BinaryFile = ErrorClass.Agent"
| "classification SandboxViolation = ErrorClass.Agent"
| "classification PermissionDenied = ErrorClass.Permission"
| "classification SafRevoked = ErrorClass.Permission"
| "classification SafRequired = ErrorClass.Permission"
| "classification (NetworkError a) = ErrorClass.Network"
| "classification (NetworkTimeout a) = ErrorClass.Network"
| "classification (NetworkUnavailable a) = ErrorClass.Network"
| "classification (NetworkTls a) = ErrorClass.Network"
| "classification (NetworkInvalidResponse a) = ErrorClass.Network"
| "classification (NetworkRateLimited a) = ErrorClass.Network"
| "classification (NetworkServerError a b) = ErrorClass.Network"
| "classification (Io a) = ErrorClass.Network"
| "classification DownloadHashMismatch = ErrorClass.Network"
| "classification DownloadSizeMissing = ErrorClass.Network"
| "classification (DownloadTooLarge a b) = ErrorClass.Resource"
| "classification (StorageQuotaExceeded a b c) = ErrorClass.Resource"
| "classification PromptLeakage = ErrorClass.Security"
| "classification (WatchdogExceeded a) = ErrorClass.Device"
| "classification (CrashLoopDetected a) = ErrorClass.Device"
| "classification Cancelled = ErrorClass.Unknown"
| "classification (Invariant a) = ErrorClass.Unknown"
| "classification (Internal a) = ErrorClass.Unknown"
| "classification (UsageIdempotencyConflict a b) = ErrorClass.Storage"
| "classification (SaasRevisionConflict a b) = ErrorClass.Storage"

text \<open>
  The tripwire constructor: the plaintext is zeroised and dropped, only its byte length remains.
\<close>
definition secret_leaked :: "string \<Rightarrow> MukeiError" where
  "secret_leaked plaintext = SecretLeaked (length plaintext)"

section \<open>The code is a complete, unambiguous key\<close>

text \<open>The table of codes and classes, in the order of the enum.\<close>
definition class_table :: "(string \<times> ErrorClass) list" where
  "class_table =
    [(''ERR_FFI_PANIC'', ErrorClass.Resource),
     (''ERR_CALLBACK_GUARD_EXPIRED'', ErrorClass.Resource),
     (''ERR_BLOCKING_JOIN'', ErrorClass.Resource),
     (''ERR_BRIDGE_BUSY'', ErrorClass.Agent),
     (''ERR_DOWNLOAD_BUSY'', ErrorClass.Agent),
     (''ERR_OOM'', ErrorClass.Resource),
     (''ERR_MEM_PREFLIGHT'', ErrorClass.Resource),
     (''ERR_THERMAL'', ErrorClass.Device),
     (''ERR_MODEL_LOAD'', ErrorClass.Inference),
     (''ERR_MODEL_CORRUPTED'', ErrorClass.Inference),
     (''ERR_CONTEXT_CREATE'', ErrorClass.Inference),
     (''ERR_CONTEXT_OVERFLOW'', ErrorClass.Inference),
     (''ERR_GRAMMAR_LOAD'', ErrorClass.Inference),
     (''ERR_DB_INIT'', ErrorClass.Storage),
     (''ERR_DB_CORRUPTION'', ErrorClass.Storage),
     (''ERR_MIGRATION'', ErrorClass.Storage),
     (''ERR_MIGRATION_ORDER'', ErrorClass.Storage),
     (''ERR_MIGRATION_CHECKSUM'', ErrorClass.Storage),
     (''ERR_MIGRATION_LOCKED'', ErrorClass.Storage),
     (''ERR_SCHEMA_TOO_NEW'', ErrorClass.Storage),
     (''ERR_AUDIT_TAMPERED'', ErrorClass.Storage),
     (''ERR_DB_ENCRYPTION_UNAVAILABLE'', ErrorClass.Storage),
     (''ERR_DB_ENCRYPTION_MIGRATION_REQUIRED'', ErrorClass.Storage),
     (''ERR_DB_ENCRYPTION_INVALID_KEY'', ErrorClass.Storage),
     (''ERR_DB_ENCRYPTION_CORRUPTED'', ErrorClass.Storage),
     (''ERR_CONFIG_MISSING'', ErrorClass.Config),
     (''ERR_CONFIG_INVALID'', ErrorClass.Config),
     (''ERR_CONFIG_UNKNOWN'', ErrorClass.Config),
     (''ERR_SAFE_STORAGE'', ErrorClass.Security),
     (''ERR_WRAPPED_KEY'', ErrorClass.Security),
     (''ERR_UNWRAP_FAILED'', ErrorClass.Security),
     (''ERR_SECRET_LEAKED'', ErrorClass.Security),
     (''ERR_TOOL_LOOP'', ErrorClass.Agent),
     (''ERR_TOOL_TIMEOUT'', ErrorClass.Agent),
     (''ERR_TOOL_UNKNOWN'', ErrorClass.Agent),
     (''ERR_TOOL_ARGS'', ErrorClass.Agent),
     (''ERR_TOOL_ABUSE'', ErrorClass.Agent),
     (''ERR_TOOL_DISABLED'', ErrorClass.Agent),
     (''ERR_REMOTE_DISABLED'', ErrorClass.Permission),
     (''ERR_TOOL_PARSE'', ErrorClass.Agent),
     (''ERR_TOOL_ARGUMENT'', ErrorClass.Agent),
     (''ERR_TOOL_EXEC'', ErrorClass.Agent),
     (''ERR_WEB_SEARCH'', ErrorClass.Agent),
     (''ERR_HTTP_CLIENT'', ErrorClass.Agent),
     (''ERR_FILE_READ'', ErrorClass.Agent),
     (''ERR_BINARY_FILE'', ErrorClass.Agent),
     (''ERR_SANDBOX'', ErrorClass.Agent),
     (''ERR_PERMISSION_DENIED'', ErrorClass.Permission),
     (''ERR_SAF_REVOKED'', ErrorClass.Permission),
     (''ERR_SAF_REQUIRED'', ErrorClass.Permission),
     (''ERR_NETWORK'', ErrorClass.Network),
     (''ERR_NETWORK_TIMEOUT'', ErrorClass.Network),
     (''ERR_NETWORK_UNAVAILABLE'', ErrorClass.Network),
     (''ERR_NETWORK_TLS'', ErrorClass.Network),
     (''ERR_NETWORK_INVALID_RESPONSE'', ErrorClass.Network),
     (''ERR_NETWORK_RATE_LIMITED'', ErrorClass.Network),
     (''ERR_NETWORK_SERVER'', ErrorClass.Network),
     (''ERR_IO'', ErrorClass.Network),
     (''ERR_DOWNLOAD_HASH'', ErrorClass.Network),
     (''ERR_DOWNLOAD_SIZE_MISSING'', ErrorClass.Network),
     (''ERR_DOWNLOAD_TOO_LARGE'', ErrorClass.Resource),
     (''ERR_STORAGE_QUOTA'', ErrorClass.Resource),
     (''ERR_PROMPT_LEAKAGE'', ErrorClass.Security),
     (''ERR_WATCHDOG'', ErrorClass.Device),
     (''ERR_CRASH_LOOP'', ErrorClass.Device),
     (''ERR_CANCELLED'', ErrorClass.Unknown),
     (''ERR_INVARIANT'', ErrorClass.Unknown),
     (''ERR_INTERNAL'', ErrorClass.Unknown),
     (''ERR_USAGE_IDEMPOTENCY_CONFLICT'', ErrorClass.Storage),
     (''ERR_SAAS_REVISION_CONFLICT'', ErrorClass.Storage)]"

definition code_char :: "char \<Rightarrow> bool" where
  "code_char c \<longleftrightarrow> c = CHR ''_'' \<or> (65 \<le> code c \<and> code c \<le> 90)"

lemma error_code_chars: "list_all code_char (error_code e)"
  by (cases e) (simp_all add: code_char_def code_def)

lemma error_code_prefix: "starts_with ''ERR_'' (error_code e)"
  by (cases e) (simp_all add: starts_with_def)

lemma class_table_lookup: "map_of class_table (error_code e) = Some (classification e)"
  by (cases e; simp only: error_code.simps classification.simps; code_simp)

end
