(* ===== verification/Tool_Policy.thy ===== *)
theory Tool_Policy
  imports Mukei_Errors Prompt_Sentinel
begin

text \<open>
  Failure classification and the execution policy (\<^verbatim>\<open>agent/tools/policy.rs\<close>, with the \<open>[agent]\<close>
  section of \<^verbatim>\<open>config/mod.rs\<close>). \<open>FailureKind\<close> decides whether a failed tool call advances the
  per-fingerprint counter, blocks at once, or neither.
\<close>

section \<open>Failure kinds\<close>

datatype FailureKind = Transient | Validation | Cancelled | Timeout | Permanent | Abuse

definition classify :: "MukeiError \<Rightarrow> FailureKind" where
  "classify err =
     (case err of
        MukeiError.Cancelled \<Rightarrow> FailureKind.Cancelled
      | ToolTimeout _ \<Rightarrow> Timeout
      | SandboxViolation \<Rightarrow> Permanent
      | ToolPermanentlyDisabled _ \<Rightarrow> Permanent
      | UnknownTool _ \<Rightarrow> Permanent
      | PermissionDenied \<Rightarrow> Permanent
      | SafRevoked \<Rightarrow> Permanent
      | SafRequired \<Rightarrow> Permanent
      | ToolAbuseBlocked _ \<Rightarrow> Abuse
      | ToolArgumentInvalid _ _ \<Rightarrow> Validation
      | ToolArgsRejected _ _ \<Rightarrow> Validation
      | ToolParseFailed _ \<Rightarrow> Validation
      | BinaryFile \<Rightarrow> Validation
      | _ \<Rightarrow> Transient)"

definition counts_toward_threshold :: "FailureKind \<Rightarrow> bool" where
  "counts_toward_threshold k \<longleftrightarrow>
     \<not> (case k of FailureKind.Cancelled \<Rightarrow> True | Abuse \<Rightarrow> True | Permanent \<Rightarrow> True | _ \<Rightarrow> False)"

definition is_instant_block :: "FailureKind \<Rightarrow> bool" where
  "is_instant_block k \<longleftrightarrow> (case k of Permanent \<Rightarrow> True | Abuse \<Rightarrow> True | _ \<Rightarrow> False)"

definition is_permanent :: "FailureKind \<Rightarrow> bool" where
  "is_permanent k \<longleftrightarrow> (case k of Permanent \<Rightarrow> True | _ \<Rightarrow> False)"

primrec as_tag :: "FailureKind \<Rightarrow> string" where
  "as_tag Transient = ''transient''"
| "as_tag Validation = ''validation''"
| "as_tag Cancelled = ''cancelled''"
| "as_tag Timeout = ''timeout''"
| "as_tag Permanent = ''permanent''"
| "as_tag Abuse = ''abuse''"

primrec remediation_hint :: "FailureKind \<Rightarrow> string" where
  "remediation_hint Transient =
     ''The tool failed transiently (network / external service). Retrying with the SAME arguments is allowed, but consider whether different arguments would also satisfy the user.''"
| "remediation_hint Validation =
     ''The tool rejected the arguments as semantically invalid. Do NOT retry with the same arguments ''
     @ em_dash @ '' reformulate the call or pick a different tool.''"
| "remediation_hint Cancelled =
     ''The tool was cancelled before completing. Treat the result as indeterminate; do not infer anything from the lack of output.''"
| "remediation_hint Timeout =
     ''The tool exceeded its per-call timeout. If you retry, simplify the request (shorter query, smaller file, narrower expression).''"
| "remediation_hint Permanent =
     ''This tool is now permanently disabled for the rest of the conversation. Produce a final answer using ONLY the context already gathered ''
     @ em_dash @ '' do not call this tool again.''"
| "remediation_hint Abuse =
     ''This tool was called repeatedly with the same arguments and returned no progress. It is now blocked for the rest of this turn. Produce a final answer from the context already gathered, OR pick a different tool.''"

section \<open>The execution policy\<close>

record ToolExecutionPolicy =
  max_failures_per_tool :: u32
  repeat_output_window :: nat
  repeat_output_backoff :: duration
  max_concurrent_tools :: nat

definition DEFAULT_MAX_FAILURES :: u32 where
  "DEFAULT_MAX_FAILURES = 5"

definition default_policy :: ToolExecutionPolicy where
  "default_policy =
     \<lparr> max_failures_per_tool = DEFAULT_MAX_FAILURES,
       repeat_output_window = 2,
       repeat_output_backoff = 10 * 10 ^ 9,
       max_concurrent_tools = 4 \<rparr>"

record AgentCfg =
  cfg_max_failures_per_tool :: u32
  cfg_recovered_history_window :: u32
  cfg_repeat_output_window :: u32
  cfg_repeat_output_backoff_secs :: u32
  cfg_max_concurrent_tools :: u32

definition policy_of_cfg :: "AgentCfg \<Rightarrow> ToolExecutionPolicy" where
  "policy_of_cfg cfg =
     \<lparr> max_failures_per_tool = cfg_max_failures_per_tool cfg,
       repeat_output_window = unat (cfg_repeat_output_window cfg),
       repeat_output_backoff = unat (cfg_repeat_output_backoff_secs cfg) * 10 ^ 9,
       max_concurrent_tools = unat (cfg_max_concurrent_tools cfg) \<rparr>"

section \<open>Lemmas\<close>

lemma kind_trichotomy:
  "counts_toward_threshold k \<longleftrightarrow> \<not> is_instant_block k \<and> k \<noteq> FailureKind.Cancelled"
  by (cases k) (simp_all add: counts_toward_threshold_def is_instant_block_def)

lemma counts_simps [simp]:
  "counts_toward_threshold Transient" "counts_toward_threshold Validation"
  "counts_toward_threshold Timeout" "\<not> counts_toward_threshold FailureKind.Cancelled"
  "\<not> counts_toward_threshold Permanent" "\<not> counts_toward_threshold Abuse"
  by (simp_all add: counts_toward_threshold_def)

lemma instant_block_simps [simp]:
  "is_instant_block Permanent" "is_instant_block Abuse"
  "\<not> is_instant_block Transient" "\<not> is_instant_block Validation"
  "\<not> is_instant_block Timeout" "\<not> is_instant_block FailureKind.Cancelled"
  by (simp_all add: is_instant_block_def)

lemma counts_not_instant: "counts_toward_threshold k \<Longrightarrow> \<not> is_instant_block k"
  by (simp add: kind_trichotomy)

lemma tag_free_as_tag [simp, no_markup]: "tag_free (as_tag k)"
  by (cases k) (simp_all add: tag_char_def)

lemma tag_free_remediation_hint [simp, no_markup]: "tag_free (remediation_hint k)"
  by (cases k) (simp_all add: tag_char_def)

lemma code_char_plain:
  "\<not> code_char (CHR ''<'')" "\<not> code_char (CHR ''>'')" "\<not> code_char (CHR 0x22)"
  by (simp_all add: code_char_def code_def)

lemma code_char_error_code: "c \<in> set (error_code e) \<Longrightarrow> code_char c"
  using error_code_chars [of e] by (simp only: list_all_iff)

lemma tag_free_error_code [simp, no_markup]: "tag_free (error_code e)"
  by (rule tag_freeI) (metis code_char_error_code code_char_plain(1,2) tag_char_def)

lemma quote_free_error_code: "CHR 0x22 \<notin> set (error_code e)"
  using code_char_error_code code_char_plain(3) by blast

section \<open>Properties\<close>

text \<open>
  The wire code of an error determines its class. Two errors with the same \<open>error_code\<close> always
  fall into the same \<open>ErrorClass\<close>, and the code is a non-empty upper-case identifier with the
  \<open>ERR_\<close> prefix, so a consumer can route on the code alone.
\<close>
theorem error_code_determines_class:
  "(if error_code e = error_code e' then classification e = classification e' else True) \<and>
   starts_with ''ERR_'' (error_code e) \<and> list_all code_char (error_code e)"
proof -
  have "classification e = classification e'" if "error_code e = error_code e'"
  proof -
    have "Some (classification e) = map_of class_table (error_code e)"
      by (rule class_table_lookup [symmetric])
    also have "\<dots> = map_of class_table (error_code e')" by (simp only: that)
    also have "\<dots> = Some (classification e')" by (rule class_table_lookup)
    finally show ?thesis by simp
  qed
  then show ?thesis using error_code_prefix [of e] error_code_chars [of e] by simp
qed

end
