(* ===== verification/Json_Model.thy ===== *)
theory Json_Model
  imports Mukei_Prelude "HOL-Library.List_Lexorder" "HOL-Library.Char_ord" "HOL-Library.Multiset"
begin

text \<open>
  JSON values as \<^verbatim>\<open>serde_json\<close> holds them, the key-canonical form the tool fingerprint and the audit
  log share, and the hexadecimal digest rendering of \<^verbatim>\<open>diagnostics/crash_logger.rs\<close>. An object is
  its list of entries with distinct keys; a number is kept as its literal, since no modelled code
  looks inside it. Serialisation (\<^verbatim>\<open>serde_json::to_vec\<close>) and SHA-256 are code outside the repository
  and appear as parameters of the definitions that call them.
\<close>

datatype json =
    Null
  | Bool bool
  | Number string
  | String string
  | Array "json list"
  | Object "(string \<times> json) list"

definition as_object :: "json \<Rightarrow> (string \<times> json) list option" where
  "as_object v = (case v of Object m \<Rightarrow> Some m | _ \<Rightarrow> None)"

definition as_str :: "json \<Rightarrow> string option" where
  "as_str v = (case v of String s \<Rightarrow> Some s | _ \<Rightarrow> None)"

text \<open>\<open>Value::get(field)\<close>\<close>
definition json_get :: "json \<Rightarrow> string \<Rightarrow> json option" where
  "json_get v field = (case v of Object m \<Rightarrow> map_of m field | _ \<Rightarrow> None)"

text \<open>
  The canonicalisation loop shared by \<open>FailureTracker::fingerprint\<close> and
  \<open>AuditEntry::canonical_args\<close>: the keys sorted (Rust orders strings bytewise), each looked up and
  inserted into a fresh map; a value that is no object becomes the empty object.
\<close>
definition canonical_object :: "json \<Rightarrow> json" where
  "canonical_object args =
     (case args of
        Object m \<Rightarrow> Object (map (\<lambda>k. (k, the (map_of m k))) (sort (map fst m)))
      | _ \<Rightarrow> Object [])"

definition hex_digit :: "nat \<Rightarrow> char" where
  "hex_digit d = ''0123456789abcdef'' ! d"

text \<open>\<open>hex_lower\<close>, called through \<open>hex_helper\<close>.\<close>
fun hex_lower :: "string \<Rightarrow> string" where
  "hex_lower [] = []"
| "hex_lower (b # bs) =
     hex_digit (code b div 16) # hex_digit (code b mod 16) # hex_lower bs"

section \<open>Canonical form\<close>

lemma map_of_perm:
  assumes "distinct (map fst m)" and "mset m = mset m'"
  shows "map_of m = map_of m'"
proof -
  from assms(2) have "distinct (map fst m')"
    using assms(1) by (metis distinct_count_atmost_1 mset_map set_map set_mset_mset)
  with assms show ?thesis
    by (metis map_of_eqI map_of_inject_set set_mset_mset)
qed

lemma canonical_object_perm:
  assumes "distinct (map fst m)" and "mset m = mset m'"
  shows "canonical_object (Object m) = canonical_object (Object m')"
proof -
  from assms(2) have "mset (map fst m) = mset (map fst m')" by simp
  then have "sort (map fst m) = sort (map fst m')"
    by (metis properties_for_sort sort_key_simps sorted_sort mset_sort)
  with map_of_perm [OF assms] show ?thesis by (simp add: canonical_object_def)
qed

section \<open>Hexadecimal rendering\<close>

lemma hex_digit_inj: "i < 16 \<Longrightarrow> j < 16 \<Longrightarrow> hex_digit i = hex_digit j \<Longrightarrow> i = j"
proof -
  assume "i < 16" "j < 16" "hex_digit i = hex_digit j"
  moreover have "distinct ''0123456789abcdef''" by simp
  ultimately show "i = j"
    unfolding hex_digit_def by (subst (asm) nth_eq_iff_index_eq) simp_all
qed

lemma code_lt: "code c < 256"
  by (simp add: code_def)

lemma code_inject: "code c = code d \<Longrightarrow> c = d"
  by (simp add: code_def)

lemma hex_byte_inj:
  assumes "hex_digit (code a div 16) = hex_digit (code b div 16)"
    and "hex_digit (code a mod 16) = hex_digit (code b mod 16)"
  shows "a = b"
proof -
  have "code a div 16 < 16" "code b div 16 < 16"
    using code_lt [of a] code_lt [of b] by auto
  then have "code a div 16 = code b div 16" using assms(1) by (rule hex_digit_inj)
  moreover have "code a mod 16 = code b mod 16"
    using assms(2) by (auto intro: hex_digit_inj)
  ultimately show ?thesis by (metis code_inject div_mult_mod_eq)
qed

lemma hex_lower_inj: "hex_lower s = hex_lower t \<Longrightarrow> s = t"
proof (induction s arbitrary: t)
  case Nil
  then show ?case by (cases t) auto
next
  case (Cons a s)
  then obtain b u where t: "t = b # u" by (cases t) auto
  with Cons.prems have "a = b" by (auto intro: hex_byte_inj)
  with Cons t show ?case by simp
qed

lemma length_hex_lower [simp]: "length (hex_lower s) = 2 * length s"
  by (induction s) auto

end
