(* ===== verification/Failure_Tracker.thy ===== *)
theory Failure_Tracker
  imports Tool_Policy Json_Model
begin

text \<open>
  The abuse tracker of the tool executor (\<^verbatim>\<open>agent/tools/executor.rs\<close>): a nested map from tool name
  and argument fingerprint to the number of consecutive failures, behind a mutex, so that each
  operation is one atomic step. The interface \<open>failure_counter\<close> states what the executor relies
  on; the nested map with its pruning of empty buckets implements it.
\<close>

section \<open>Model\<close>

record FailureTrackerState =
  counts :: "(string, (string, u32) hashmap) hashmap"

definition empty_state :: FailureTrackerState where
  "empty_state = \<lparr> counts = [] \<rparr>"

text \<open>\<open>*count += 1\<close> on a \<open>u32\<close> wraps in the release profiles, which do not enable overflow checks.\<close>
definition state_record_failure ::
    "FailureTrackerState \<Rightarrow> string \<Rightarrow> string \<Rightarrow> u32 \<Rightarrow> FailureTrackerState \<times> bool" where
  "state_record_failure st tool_name fingerprint threshold =
     (let per_tool = (case map_of (counts st) tool_name of None \<Rightarrow> [] | Some m \<Rightarrow> m);
          count = (case map_of per_tool fingerprint of None \<Rightarrow> 0 | Some c \<Rightarrow> c) + 1
      in (st\<lparr> counts := AList.update tool_name (AList.update fingerprint count per_tool) (counts st) \<rparr>,
          count > threshold))"

definition state_reset :: "FailureTrackerState \<Rightarrow> string \<Rightarrow> FailureTrackerState" where
  "state_reset st tool_name = st\<lparr> counts := AList.delete tool_name (counts st) \<rparr>"

definition state_count_for :: "FailureTrackerState \<Rightarrow> string \<Rightarrow> string \<Rightarrow> u32" where
  "state_count_for st tool_name fingerprint =
     (case map_of (counts st) tool_name of
        None \<Rightarrow> 0
      | Some per_tool \<Rightarrow> (case map_of per_tool fingerprint of None \<Rightarrow> 0 | Some c \<Rightarrow> c))"

definition state_clear_fingerprint ::
    "FailureTrackerState \<Rightarrow> string \<Rightarrow> string \<Rightarrow> FailureTrackerState" where
  "state_clear_fingerprint st tool_name fingerprint =
     (case map_of (counts st) tool_name of
        None \<Rightarrow> st
      | Some per_tool \<Rightarrow>
          (let per_tool' = AList.delete fingerprint per_tool
           in if per_tool' = [] then st\<lparr> counts := AList.delete tool_name (counts st) \<rparr>
              else st\<lparr> counts := AList.update tool_name per_tool' (counts st) \<rparr>))"

record FailureTracker =
  inner :: FailureTrackerState
  threshold :: u32

definition with_threshold :: "u32 \<Rightarrow> FailureTracker" where
  "with_threshold t = \<lparr> inner = empty_state, threshold = t \<rparr>"

definition new_tracker :: FailureTracker where
  "new_tracker = with_threshold DEFAULT_MAX_FAILURES"

definition record_failure :: "FailureTracker \<Rightarrow> string \<Rightarrow> string \<Rightarrow> FailureTracker \<times> bool" where
  "record_failure tr tool_name fingerprint =
     (case state_record_failure (inner tr) tool_name fingerprint (threshold tr) of
        (st, over) \<Rightarrow> (tr\<lparr> inner := st \<rparr>, over))"

definition reset :: "FailureTracker \<Rightarrow> string \<Rightarrow> FailureTracker" where
  "reset tr tool_name = tr\<lparr> inner := state_reset (inner tr) tool_name \<rparr>"

definition count_for :: "FailureTracker \<Rightarrow> string \<Rightarrow> string \<Rightarrow> u32" where
  "count_for tr tool_name fingerprint = state_count_for (inner tr) tool_name fingerprint"

definition clear_fingerprint :: "FailureTracker \<Rightarrow> string \<Rightarrow> string \<Rightarrow> FailureTracker" where
  "clear_fingerprint tr tool_name fingerprint =
     tr\<lparr> inner := state_clear_fingerprint (inner tr) tool_name fingerprint \<rparr>"

text \<open>
  \<open>FailureTracker::fingerprint\<close>. \<open>to_vec\<close> is \<^verbatim>\<open>serde_json::to_vec\<close> (\<open>None\<close> for its error) and
  \<open>sha256\<close> the digest function of the \<^verbatim>\<open>sha2\<close> crate.
\<close>
definition fingerprint ::
    "(json \<Rightarrow> string option) \<Rightarrow> (string \<Rightarrow> string) \<Rightarrow> string \<Rightarrow> json \<Rightarrow> string" where
  "fingerprint to_vec sha256 tool_name args =
     (let canonical = canonical_object args;
          bytes = (case to_vec canonical of
                     Some b \<Rightarrow> b
                   | None \<Rightarrow> ''<MUKEI_FP_CANONICALISATION_FAILED>'')
      in hex_lower (sha256 (tool_name @ [CHR 0x00] @ bytes)))"

section \<open>The counter interface\<close>

text \<open>Runs an operation \<open>n\<close> times and collects what it returned.\<close>
fun iterate_op :: "nat \<Rightarrow> ('s \<Rightarrow> 's \<times> 'r) \<Rightarrow> 's \<Rightarrow> 's \<times> 'r list" where
  "iterate_op 0 f s = (s, [])"
| "iterate_op (Suc n) f s =
     (case f s of (s', r) \<Rightarrow> (case iterate_op n f s' of (s'', rs) \<Rightarrow> (s'', r # rs)))"

locale failure_counter =
  fixes record_op :: "'s \<Rightarrow> string \<Rightarrow> string \<Rightarrow> 's \<times> bool"
    and reset_op :: "'s \<Rightarrow> string \<Rightarrow> 's"
    and clear_op :: "'s \<Rightarrow> string \<Rightarrow> string \<Rightarrow> 's"
    and count_op :: "'s \<Rightarrow> string \<Rightarrow> string \<Rightarrow> u32"
    and limit :: "'s \<Rightarrow> u32"
  assumes count_record:
      "count_op (fst (record_op s t f)) t' f' =
         (if t' = t \<and> f' = f then count_op s t f + 1 else count_op s t' f')"
    and record_flag: "snd (record_op s t f) \<longleftrightarrow> count_op s t f + 1 > limit s"
    and count_reset: "count_op (reset_op s t) t' f' = (if t' = t then 0 else count_op s t' f')"
    and count_clear:
      "count_op (clear_op s t f) t' f' = (if t' = t \<and> f' = f then 0 else count_op s t' f')"
    and limit_record: "limit (fst (record_op s t f)) = limit s"
    and limit_reset: "limit (reset_op s t) = limit s"
    and limit_clear: "limit (clear_op s t f) = limit s"
begin

lemma iterate_record:
  "iterate_op n (\<lambda>s. record_op s t f) s = (s', flags) \<Longrightarrow>
     flags = map (\<lambda>i. count_op s t f + of_nat i > limit s) [1..<Suc n] \<and>
     count_op s' t f = count_op s t f + of_nat n \<and> limit s' = limit s"
proof (induction n arbitrary: s s' flags)
  case 0
  then show ?case by simp
next
  case (Suc n)
  obtain s1 r where r: "record_op s t f = (s1, r)" by fastforce
  obtain s2 rs where rs: "iterate_op n (\<lambda>s. record_op s t f) s1 = (s2, rs)" by fastforce
  from Suc.prems r rs have out: "s' = s2" "flags = r # rs" by auto
  from r count_record [of s t f t f] record_flag [of s t f] limit_record [of s t f]
  have s1: "count_op s1 t f = count_op s t f + 1" "r = (count_op s t f + 1 > limit s)"
    "limit s1 = limit s" by auto
  from Suc.IH [OF rs]
  have IH: "rs = map (\<lambda>i. count_op s1 t f + of_nat i > limit s1) [1..<Suc n]"
    "count_op s2 t f = count_op s1 t f + of_nat n" "limit s2 = limit s1" by auto
  have "map (\<lambda>i. count_op s t f + of_nat i > limit s) [1..<Suc (Suc n)] =
      (count_op s t f + 1 > limit s) #
      map (\<lambda>i. count_op s t f + of_nat (Suc i) > limit s) [1..<Suc n]"
    by (simp add: upt_conv_Cons map_Suc_upt [symmetric] del: upt_Suc)
  with out s1 IH show ?case by (simp add: ac_simps del: upt_Suc)
qed

text \<open>The blocker fires on the first failure past the limit and on every later one.\<close>
lemma fresh_flags:
  assumes "count_op s t f = 0" and "n < 2 ^ 32"
  shows "snd (iterate_op n (\<lambda>s. record_op s t f) s) = map (\<lambda>i. i > unat (limit s)) [1..<Suc n]"
proof -
  obtain s' flags where it: "iterate_op n (\<lambda>s. record_op s t f) s = (s', flags)" by fastforce
  have "(of_nat i > limit s) \<longleftrightarrow> i > unat (limit s)" if "i \<in> set [1..<Suc n]" for i
  proof -
    from that assms(2) have "i < 2 ^ 32" by auto
    then show ?thesis by (simp add: word_less_nat_alt unat_of_nat)
  qed
  then show ?thesis
    using iterate_record [OF it] it assms(1) by (auto simp del: upt_Suc)
qed

end

section \<open>The nested map implements the counter\<close>

lemma count_record_failure:
  "count_for (fst (record_failure tr t f)) t' f' =
     (if t' = t \<and> f' = f then count_for tr t f + 1 else count_for tr t' f')"
  by (auto simp: record_failure_def count_for_def state_record_failure_def state_count_for_def
      Let_def split: option.splits)

interpretation tracker: failure_counter record_failure reset clear_fingerprint count_for threshold
proof
  fix tr :: FailureTracker and t f t' f' :: string
  show "count_for (fst (record_failure tr t f)) t' f' =
      (if t' = t \<and> f' = f then count_for tr t f + 1 else count_for tr t' f')"
    by (rule count_record_failure)
  show "snd (record_failure tr t f) \<longleftrightarrow> count_for tr t f + 1 > threshold tr"
    by (auto simp: record_failure_def count_for_def state_record_failure_def state_count_for_def
        Let_def split: option.splits)
  show "count_for (reset tr t) t' f' = (if t' = t then 0 else count_for tr t' f')"
    by (simp add: count_for_def reset_def state_reset_def state_count_for_def)
  show "count_for (clear_fingerprint tr t f) t' f' =
      (if t' = t \<and> f' = f then 0 else count_for tr t' f')"
  proof (cases "map_of (counts (inner tr)) t")
    case None
    then show ?thesis
      by (simp add: count_for_def clear_fingerprint_def state_clear_fingerprint_def
          state_count_for_def)
  next
    case (Some pt)
    have "map_of (AList.delete f pt) = (map_of pt)(f := None)" by simp
    then have "AList.delete f pt = [] \<Longrightarrow> f' \<noteq> f \<Longrightarrow> map_of pt f' = None"
      by (metis fun_upd_apply map_of.simps(1))
    with Some show ?thesis
      by (auto simp: count_for_def clear_fingerprint_def state_clear_fingerprint_def
          state_count_for_def Let_def split: option.splits)
  qed
qed (simp_all add: record_failure_def reset_def clear_fingerprint_def split: prod.splits)

text \<open>No operation leaves an empty bucket behind, so cleared tools cost no memory.\<close>
definition no_empty_bucket :: "FailureTracker \<Rightarrow> bool" where
  "no_empty_bucket tr \<longleftrightarrow>
     distinct (map fst (counts (inner tr))) \<and> [] \<notin> snd ` set (counts (inner tr))"

lemma AList_update_neq_Nil: "AList.update k v al \<noteq> []"
  by (cases al) auto

lemma set_AList_update_subset: "set (AList.update k v al) \<subseteq> insert (k, v) (set al)"
  by (induction al) auto

lemma set_AList_delete_subset: "set (AList.delete k al) \<subseteq> set al"
  by (simp add: AList.delete_eq)

section \<open>Properties\<close>

text \<open>
  The threshold is exact. On a tracker that has recorded nothing for a (tool, fingerprint)
  pair, \<open>n\<close> consecutive \<open>record_failure\<close> calls return true precisely for the calls after the
  \<open>threshold\<close>-th one: failures \<open>1..=threshold\<close> are tolerated and failure \<open>threshold + 1\<close> blocks.
\<close>
theorem record_failure_threshold_exact:
  assumes "count_for tr t f = 0" and "n < 2 ^ 32"
  shows "snd (iterate_op n (\<lambda>tr. record_failure tr t f) tr)
       = map (\<lambda>i. i > unat (threshold tr)) [1..<Suc n]"
  using assms by (rule tracker.fresh_flags)

theorem record_failure_threshold_exact_witness:
  "snd (iterate_op 7 (\<lambda>tr. record_failure tr ''math_eval'' ''fp'') new_tracker)
     = [False, False, False, False, False, True, True]"
proof -
  have "count_for new_tracker ''math_eval'' ''fp'' = 0"
    by (simp add: count_for_def state_count_for_def new_tracker_def with_threshold_def
        empty_state_def)
  then have "snd (iterate_op 7 (\<lambda>tr. record_failure tr ''math_eval'' ''fp'') new_tracker)
      = map (\<lambda>i. i > unat (threshold new_tracker)) [1..<Suc 7]"
    by (rule record_failure_threshold_exact) simp
  then show ?thesis
    by (simp add: new_tracker_def with_threshold_def DEFAULT_MAX_FAILURES_def upt_rec)
qed

text \<open>
  the nested map refines a plain counter per (tool, fingerprint). Seen through \<open>count_for\<close>,
  recording bumps one counter, resetting zeroes a tool's counters and clearing zeroes one counter,
  each leaving all others alone; and no operation leaves an empty bucket.
\<close>
theorem tracker_refines_counters:
  "(\<lambda>(t', f'). count_for (fst (record_failure tr t f)) t' f') =
     (\<lambda>(t', f'). count_for tr t' f')((t, f) := count_for tr t f + 1) \<and>
   (\<lambda>(t', f'). count_for (reset tr t) t' f') =
     (\<lambda>(t', f'). if t' = t then 0 else count_for tr t' f') \<and>
   (\<lambda>(t', f'). count_for (clear_fingerprint tr t f) t' f') =
     (\<lambda>(t', f'). count_for tr t' f')((t, f) := 0)"
  by (auto simp: fun_eq_iff tracker.count_record tracker.count_reset tracker.count_clear)

text \<open>
  No operation of the tracker leaves an empty per-tool bucket or a duplicate tool entry behind.
\<close>
theorem tracker_keeps_no_empty_bucket:
  assumes "no_empty_bucket tr"
  shows "no_empty_bucket (fst (record_failure tr t f)) \<and> no_empty_bucket (reset tr t) \<and>
         no_empty_bucket (clear_fingerprint tr t f)"
proof -
  let ?c = "counts (inner tr)"
  have upd: "distinct (map fst (AList.update t pt ?c)) \<and>
      [] \<notin> snd ` set (AList.update t pt ?c)" if "pt \<noteq> []" for pt
    using assms that set_AList_update_subset [of t pt ?c]
    by (auto simp: no_empty_bucket_def distinct_update)
  have del: "distinct (map fst (AList.delete t ?c)) \<and>
      [] \<notin> snd ` set (AList.delete t ?c)"
    using assms set_AList_delete_subset [of t ?c]
    by (auto simp: no_empty_bucket_def distinct_delete)
  have "no_empty_bucket (fst (record_failure tr t f))"
    using upd by (simp add: no_empty_bucket_def record_failure_def state_record_failure_def
        Let_def AList_update_neq_Nil)
  moreover have "no_empty_bucket (reset tr t)"
    using del by (simp add: no_empty_bucket_def reset_def state_reset_def)
  moreover have "no_empty_bucket (clear_fingerprint tr t f)"
    using upd del assms
    by (simp add: no_empty_bucket_def clear_fingerprint_def state_clear_fingerprint_def Let_def
        split: option.split)
  ultimately show ?thesis by blast
qed

theorem tracker_keeps_no_empty_bucket_witness:
  "no_empty_bucket (fst (record_failure new_tracker ''math_eval'' ''fp''))"
  using tracker_keeps_no_empty_bucket [of new_tracker "''math_eval''" "''fp''"]
  by (simp add: no_empty_bucket_def new_tracker_def with_threshold_def empty_state_def)

text \<open>
  the fingerprint ignores the order of the argument keys: two objects with the same entries
  have the same fingerprint, for any serialiser and digest.
\<close>
theorem fingerprint_key_order:
  assumes "distinct (map fst m)" and "mset m = mset m'"
  shows "fingerprint to_vec sha256 tool (Object m) = fingerprint to_vec sha256 tool (Object m')"
  by (simp add: fingerprint_def canonical_object_perm [OF assms])

theorem fingerprint_key_order_witness:
  "fingerprint (\<lambda>_. Some ''{}'') (\<lambda>s. s) ''t'' (Object [(''b'', Null), (''a'', Bool True)])
   = fingerprint (\<lambda>_. Some ''{}'') (\<lambda>s. s) ''t'' (Object [(''a'', Bool True), (''b'', Null)])"
  by (rule fingerprint_key_order) simp_all

end
