(* ===== verification/Repeat_Tracker.thy ===== *)
theory Repeat_Tracker
  imports Json_Model
begin

text \<open>
  The no-progress detector (\<^verbatim>\<open>agent/tools/watchdog.rs\<close>): per (tool, fingerprint) a ring of the
  digests of the most recent outputs. It fires when the ring is full and all its entries agree.
  The abstract view is the whole history of digests of a pair; the ring is its last \<open>window\<close>
  entries.
\<close>

section \<open>Model\<close>

record OutputRepeatTracker =
  history :: "(string \<times> string, string list) hashmap"

definition new_repeats :: OutputRepeatTracker where
  "new_repeats = \<lparr> history = [] \<rparr>"

definition output_digest :: "(string \<Rightarrow> string) \<Rightarrow> string \<Rightarrow> string" where
  "output_digest sha256 out = hex_lower (sha256 out)"

text \<open>\<open>while ring.len() > window { ring.pop_front(); }\<close>\<close>
fun trim_ring :: "nat \<Rightarrow> 'a list \<Rightarrow> 'a list" where
  "trim_ring window [] = []"
| "trim_ring window (x # xs) =
     (if length (x # xs) > window then trim_ring window xs else x # xs)"

definition record_and_check ::
    "(string \<Rightarrow> string) \<Rightarrow> OutputRepeatTracker \<Rightarrow> string \<Rightarrow> string \<Rightarrow> string \<Rightarrow> nat
     \<Rightarrow> OutputRepeatTracker \<times> bool" where
  "record_and_check sha256 tr tool fp out window =
     (if window = 0 then (tr, False)
      else let hash = output_digest sha256 out;
               ring = (case map_of (history tr) (tool, fp) of None \<Rightarrow> [] | Some r \<Rightarrow> r);
               ring' = trim_ring window (ring @ [hash])
           in (tr\<lparr> history := AList.update (tool, fp) ring' (history tr) \<rparr>,
               length ring' = window \<and> list_all (\<lambda>h. h = hash) ring'))"

definition forget :: "OutputRepeatTracker \<Rightarrow> string \<Rightarrow> string \<Rightarrow> OutputRepeatTracker" where
  "forget tr tool fp = tr\<lparr> history := AList.delete (tool, fp) (history tr) \<rparr>"

definition clear_repeats :: "OutputRepeatTracker \<Rightarrow> OutputRepeatTracker" where
  "clear_repeats tr = tr\<lparr> history := [] \<rparr>"

section \<open>The ring as the last entries of a history\<close>

definition ring_of :: "OutputRepeatTracker \<Rightarrow> string \<Rightarrow> string \<Rightarrow> string list" where
  "ring_of tr tool fp = (case map_of (history tr) (tool, fp) of None \<Rightarrow> [] | Some r \<Rightarrow> r)"

definition last_n :: "nat \<Rightarrow> 'a list \<Rightarrow> 'a list" where
  "last_n n xs = drop (length xs - n) xs"

lemma trim_ring_last_n: "trim_ring w xs = last_n w xs"
  by (induction xs) (auto simp: last_n_def Suc_diff_le not_less)

lemma last_n_append_one: "last_n w (last_n w xs @ [x]) = last_n w (xs @ [x])"
  by (cases "length xs \<le> w") (auto simp: last_n_def Suc_diff_le not_le)

lemma last_n_map: "last_n w (map f xs) = map f (last_n w xs)"
  by (simp add: last_n_def drop_map)

lemma length_last_n: "length (last_n w xs) = min w (length xs)"
  by (auto simp: last_n_def)

lemma ring_of_record:
  assumes "0 < w"
  shows "ring_of (fst (record_and_check sha tr t f out w)) t' f' =
    (if t' = t \<and> f' = f then last_n w (ring_of tr t f @ [output_digest sha out])
     else ring_of tr t' f')"
  using assms by (simp add: record_and_check_def ring_of_def trim_ring_last_n Let_def)

lemma record_flag_ring:
  assumes "0 < w"
  shows "snd (record_and_check sha tr t f out w) \<longleftrightarrow>
     w \<le> length (ring_of tr t f) + 1 \<and>
     list_all (\<lambda>h. h = output_digest sha out) (last_n w (ring_of tr t f @ [output_digest sha out]))"
  using assms
  by (auto simp: record_and_check_def ring_of_def trim_ring_last_n Let_def length_last_n)

text \<open>Feeding a sequence of outputs of one pair to the detector.\<close>
fun record_outputs ::
    "(string \<Rightarrow> string) \<Rightarrow> nat \<Rightarrow> string \<Rightarrow> string \<Rightarrow> OutputRepeatTracker \<Rightarrow> string list
     \<Rightarrow> OutputRepeatTracker" where
  "record_outputs sha256 w t f tr [] = tr"
| "record_outputs sha256 w t f tr (out # outs) =
     record_outputs sha256 w t f (fst (record_and_check sha256 tr t f out w)) outs"

lemma record_outputs_snoc:
  "record_outputs sha w t f tr (outs @ [out]) =
     fst (record_and_check sha (record_outputs sha w t f tr outs) t f out w)"
  by (induction outs arbitrary: tr) auto

lemma ring_of_record_outputs:
  assumes "0 < w" and "ring_of tr t f = []"
  shows "ring_of (record_outputs sha w t f tr outs) t f = last_n w (map (output_digest sha) outs)"
proof (induction outs rule: rev_induct)
  case Nil
  with assms(2) show ?case by (simp add: last_n_def)
next
  case (snoc out outs)
  then show ?case
    using assms(1) by (simp add: record_outputs_snoc ring_of_record last_n_append_one)
qed

lemma ring_of_forget [simp]: "ring_of (forget tr t f) t f = []"
  by (simp add: ring_of_def forget_def)

lemma ring_of_clear [simp]: "ring_of (clear_repeats tr) t f = []"
  by (simp add: ring_of_def clear_repeats_def)

lemma ring_of_new [simp]: "ring_of new_repeats t f = []"
  by (simp add: ring_of_def new_repeats_def)

section \<open>Properties\<close>

text \<open>
  The no-progress detector is exact. After any sequence of outputs of a pair whose ring was
  empty, recording one more output fires precisely when at least \<open>window\<close> outputs have been seen
  and the last \<open>window\<close> of them all have the digest of the new one.
\<close>
theorem repeat_detector_exact:
  assumes "0 < w" and "ring_of tr t f = []"
  shows "snd (record_and_check sha (record_outputs sha w t f tr outs) t f out w) \<longleftrightarrow>
     w \<le> length outs + 1 \<and>
     (\<forall>o' \<in> set (last_n w (outs @ [out])). output_digest sha o' = output_digest sha out)"
proof -
  let ?d = "output_digest sha"
  have ring: "ring_of (record_outputs sha w t f tr outs) t f = last_n w (map ?d outs)"
    by (rule ring_of_record_outputs [OF assms])
  have last: "last_n w (last_n w (map ?d outs) @ [?d out]) = map ?d (last_n w (outs @ [out]))"
    unfolding last_n_append_one last_n_map [symmetric] by simp
  show ?thesis
    unfolding record_flag_ring [OF assms(1)] ring last
    by (auto simp: length_last_n list_all_iff)
qed

theorem repeat_detector_exact_witness:
  "snd (record_and_check (\<lambda>s. s)
     (record_outputs (\<lambda>s. s) 2 ''t'' ''f'' new_repeats [''a'', ''b'']) ''t'' ''f'' ''b'' 2) \<and>
   \<not> snd (record_and_check (\<lambda>s. s)
     (record_outputs (\<lambda>s. s) 2 ''t'' ''f'' new_repeats [''a'', ''b'']) ''t'' ''f'' ''a'' 2)"
proof -
  let ?tr = "record_outputs (\<lambda>s. s) 2 ''t'' ''f'' new_repeats [''a'', ''b'']"
  have "output_digest (\<lambda>s. s) ''a'' \<noteq> output_digest (\<lambda>s. s) ''b''"
    by (simp add: output_digest_def code_def hex_digit_def)
  then show ?thesis
    using repeat_detector_exact [of 2 new_repeats "''t''" "''f''" "\<lambda>s. s" "[''a'', ''b'']" "''b''"]
      repeat_detector_exact [of 2 new_repeats "''t''" "''f''" "\<lambda>s. s" "[''a'', ''b'']" "''a''"]
    by (simp add: last_n_def)
qed

end
