(* ===== verification/Audit_Log.thy ===== *)
theory Audit_Log
  imports Json_Model Mukei_Errors
begin

text \<open>
  The hash-chained tool audit log (\<^verbatim>\<open>storage/audit_log.rs\<close>): the writer with its rolling previous
  hash, the insertion of a row, hydration at boot and the boot-time chain verifier. The table is
  its list of rows in rowid order. SQLite is outside the repository: the outcome of an \<open>INSERT\<close>
  (an error, or the new rowid, in which case the row is last in rowid order) is an argument of the
  step; SHA-256 and the JSON serialiser are arguments too.
\<close>

section \<open>Model\<close>

record AuditEntry =
  ae_conversation_id :: "int option"
  ae_message_id :: "int option"
  ae_tool_call_id :: string
  ae_tool_name :: string
  ae_args_json :: string
  ae_result_preview :: string
  ae_success :: bool
  ae_duration_ms :: u64
  ae_error_code :: "string option"
  ae_fingerprint_sha256 :: string

definition canonical_args :: "(json \<Rightarrow> string option) \<Rightarrow> json \<Rightarrow> string" where
  "canonical_args to_str args =
     (case to_str (canonical_object args) of None \<Rightarrow> ''{}'' | Some s \<Rightarrow> s)"

text \<open>A row of \<open>tool_audit_log\<close>; \<open>success\<close> and \<open>duration_ms\<close> are \<open>i64\<close> columns, kept as 64 bits.\<close>
record AuditRow =
  row_id :: int
  conversation_id :: "int option"
  message_id :: "int option"
  tool_call_id :: string
  tool_name :: string
  args_json :: string
  result_preview :: string
  success :: u64
  duration_ms :: u64
  row_error_code :: "string option"
  fingerprint_sha256 :: string
  previous_hash :: "string option"
  entry_hash :: string

text \<open>\<open>u64::to_be_bytes\<close>\<close>
fun be_bytes :: "nat \<Rightarrow> nat \<Rightarrow> string" where
  "be_bytes 0 n = []"
| "be_bytes (Suc k) n = be_bytes k (n div 256) @ [char_of (n mod 256)]"

definition NUL :: char where
  "NUL = CHR 0x00"

definition unwrap_or_default :: "string option \<Rightarrow> string" where
  "unwrap_or_default s = (case s of None \<Rightarrow> [] | Some x \<Rightarrow> x)"

text \<open>The bytes fed to the digest; the writer and the verifier feed the same fields in one order.\<close>
definition hash_input ::
    "string \<Rightarrow> string \<Rightarrow> string \<Rightarrow> string \<Rightarrow> string \<Rightarrow> bool \<Rightarrow> u64 \<Rightarrow> string option \<Rightarrow> string" where
  "hash_input prev call_id name args fp ok ms err_code =
     prev @ [NUL] @ call_id @ [NUL] @ name @ [NUL] @ args @ [NUL] @ fp @ [NUL] @
     (if ok then ''1'' else ''0'') @ [NUL] @ be_bytes 8 (unat ms) @ [NUL] @
     unwrap_or_default err_code"

definition compute_entry_hash :: "(string \<Rightarrow> string) \<Rightarrow> string \<Rightarrow> AuditEntry \<Rightarrow> string" where
  "compute_entry_hash sha256 prev e =
     hex_lower (sha256 (hash_input prev (ae_tool_call_id e) (ae_tool_name e) (ae_args_json e)
       (ae_fingerprint_sha256 e) (ae_success e) (ae_duration_ms e) (ae_error_code e)))"

definition PREVIEW_MAX :: nat where
  "PREVIEW_MAX = 256"

text \<open>\<open>s.chars().take(n).collect()\<close> on UTF-8 bytes.\<close>
fun take_chars :: "nat \<Rightarrow> string \<Rightarrow> string" where
  "take_chars n [] = []"
| "take_chars n (c # s) =
     (if is_cont_byte c then c # take_chars n s
      else case n of 0 \<Rightarrow> [] | Suc m \<Rightarrow> c # take_chars m s)"

definition truncation_mark :: string where
  "truncation_mark = '' '' @ [CHR 0xE2, CHR 0x80, CHR 0xA6] @ '' [truncated]''"

definition truncate_preview :: "string \<Rightarrow> string" where
  "truncate_preview s =
     (if length s \<le> PREVIEW_MAX then s else take_chars PREVIEW_MAX s @ truncation_mark)"

record AuditLogWriter =
  w_previous_hash :: "string option"

definition new_writer :: AuditLogWriter where
  "new_writer = \<lparr> w_previous_hash = None \<rparr>"

definition hydrate_from_pool :: "AuditRow list \<Rightarrow> AuditLogWriter \<Rightarrow> AuditLogWriter" where
  "hydrate_from_pool table w =
     w\<lparr> w_previous_hash := (if table = [] then None else Some (entry_hash (last table))) \<rparr>"

definition row_of_entry :: "int \<Rightarrow> AuditEntry \<Rightarrow> string option \<Rightarrow> string \<Rightarrow> AuditRow" where
  "row_of_entry rid e prev h =
     \<lparr> row_id = rid, conversation_id = ae_conversation_id e, message_id = ae_message_id e,
       tool_call_id = ae_tool_call_id e, tool_name = ae_tool_name e, args_json = ae_args_json e,
       result_preview = truncate_preview (ae_result_preview e),
       success = (if ae_success e then 1 else 0), duration_ms = ae_duration_ms e,
       row_error_code = ae_error_code e, fingerprint_sha256 = ae_fingerprint_sha256 e,
       previous_hash = prev, entry_hash = h \<rparr>"

text \<open>The insert happens under the writer's mutex; a failing insert leaves the tip alone.\<close>
definition record_with_id ::
    "(string \<Rightarrow> string) \<Rightarrow> int result \<Rightarrow> AuditLogWriter \<times> AuditRow list \<Rightarrow> AuditEntry
     \<Rightarrow> (AuditLogWriter \<times> AuditRow list) \<times> int result" where
  "record_with_id sha256 insert_outcome st e =
     (let w = fst st; table = snd st;
          previous = w_previous_hash w;
          h = compute_entry_hash sha256 (unwrap_or_default previous) e
      in case insert_outcome of
           Inl err \<Rightarrow> (st, Inl err)
         | Inr rid \<Rightarrow> ((w\<lparr> w_previous_hash := Some h \<rparr>, table @ [row_of_entry rid e previous h]),
                      Inr rid))"

datatype AuditChainStatus =
    ChainOk (rows_checked: u64) (tip: "string option")
  | Tampered (t_row_id: int) (expected: string) (found: string)

definition row_hash :: "(string \<Rightarrow> string) \<Rightarrow> string option \<Rightarrow> AuditRow \<Rightarrow> string" where
  "row_hash sha256 prev r =
     hex_lower (sha256 (hash_input (unwrap_or_default prev) (tool_call_id r) (tool_name r)
       (args_json r) (fingerprint_sha256 r) (success r \<noteq> 0) (duration_ms r) (row_error_code r)))"

fun verify_rows ::
    "(string \<Rightarrow> string) \<Rightarrow> string option \<Rightarrow> u64 \<Rightarrow> AuditRow list \<Rightarrow> AuditChainStatus" where
  "verify_rows sha256 running_prev checked [] = ChainOk checked running_prev"
| "verify_rows sha256 running_prev checked (r # rs) =
     (if previous_hash r \<noteq> running_prev
      then Tampered (row_id r) (unwrap_or_default running_prev)
             (unwrap_or_default (previous_hash r))
      else if row_hash sha256 running_prev r \<noteq> entry_hash r
      then Tampered (row_id r) (row_hash sha256 running_prev r) (entry_hash r)
      else verify_rows sha256 (Some (entry_hash r)) (checked + 1) rs)"

definition verify_chain :: "(string \<Rightarrow> string) \<Rightarrow> AuditRow list \<Rightarrow> AuditChainStatus" where
  "verify_chain sha256 table = verify_rows sha256 None 0 table"

section \<open>The chain as a predicate\<close>

text \<open>The hash a row must link to: the entry hash before it, or none at the start.\<close>
definition tip_of :: "string option \<Rightarrow> AuditRow list \<Rightarrow> string option" where
  "tip_of start rows = (if rows = [] then start else Some (entry_hash (last rows)))"

definition linked :: "(string \<Rightarrow> string) \<Rightarrow> string option \<Rightarrow> AuditRow \<Rightarrow> bool" where
  "linked sha256 prev r \<longleftrightarrow> previous_hash r = prev \<and> entry_hash r = row_hash sha256 prev r"

fun chain :: "(string \<Rightarrow> string) \<Rightarrow> string option \<Rightarrow> AuditRow list \<Rightarrow> bool" where
  "chain sha256 prev [] = True"
| "chain sha256 prev (r # rs) = (linked sha256 prev r \<and> chain sha256 (Some (entry_hash r)) rs)"

lemma tip_of_simps [simp]:
  "tip_of s [] = s" "tip_of s (rs @ [r]) = Some (entry_hash r)"
  "tip_of s (r # rs) = tip_of (Some (entry_hash r)) rs"
  by (auto simp: tip_of_def)

lemma chain_append: "chain sha p (xs @ ys) \<longleftrightarrow> chain sha p xs \<and> chain sha (tip_of p xs) ys"
  by (induction xs arbitrary: p) auto

lemma verify_rows_chain:
  "chain sha p rs \<Longrightarrow> verify_rows sha p n rs = ChainOk (n + of_nat (length rs)) (tip_of p rs)"
  by (induction rs arbitrary: p n) (auto simp: linked_def)

lemma verify_rows_Ok_iff: "(\<exists>n' t. verify_rows sha p n rs = ChainOk n' t) \<longleftrightarrow> chain sha p rs"
  by (induction rs arbitrary: p n) (auto simp: linked_def)

lemma verify_rows_skip:
  "chain sha p xs \<Longrightarrow>
     verify_rows sha p n (xs @ ys) = verify_rows sha (tip_of p xs) (n + of_nat (length xs)) ys"
  by (induction xs arbitrary: p n) (auto simp: linked_def ac_simps)

lemma chain_prefix_break:
  "\<not> chain sha p rs \<Longrightarrow>
     \<exists>xs r ys. rs = xs @ r # ys \<and> chain sha p xs \<and> \<not> linked sha (tip_of p xs) r"
proof (induction rs arbitrary: p)
  case (Cons r rs)
  show ?case
  proof (cases "linked sha p r")
    case True
    with Cons.prems have "\<not> chain sha (Some (entry_hash r)) rs" by simp
    from Cons.IH [OF this] obtain xs r' ys where
      "rs = xs @ r' # ys" "chain sha (Some (entry_hash r)) xs"
      "\<not> linked sha (tip_of (Some (entry_hash r)) xs) r'" by blast
    with True show ?thesis by (intro exI [of _ "r # xs"] exI [of _ r'] exI [of _ ys]) auto
  next
    case False
    then show ?thesis by (intro exI [of _ "[]"]) auto
  qed
qed simp

section \<open>The writer keeps the chain\<close>

fun record_entries ::
    "(string \<Rightarrow> string) \<Rightarrow> AuditLogWriter \<times> AuditRow list \<Rightarrow> (int result \<times> AuditEntry) list
     \<Rightarrow> AuditLogWriter \<times> AuditRow list" where
  "record_entries sha256 st [] = st"
| "record_entries sha256 st ((db, e) # es) =
     record_entries sha256 (fst (record_with_id sha256 db st e)) es"

definition writer_in_sync ::
    "(string \<Rightarrow> string) \<Rightarrow> AuditLogWriter \<times> AuditRow list \<Rightarrow> bool" where
  "writer_in_sync sha256 st \<longleftrightarrow>
     chain sha256 None (snd st) \<and> w_previous_hash (fst st) = tip_of None (snd st)"

lemma linked_row_of_entry:
  "linked sha prev (row_of_entry rid e prev (compute_entry_hash sha (unwrap_or_default prev) e))"
  by (simp add: linked_def row_of_entry_def row_hash_def compute_entry_hash_def)

lemma entry_hash_row_of_entry [simp]: "entry_hash (row_of_entry rid e prev h) = h"
  by (simp add: row_of_entry_def)

lemma record_with_id_in_sync:
  "writer_in_sync sha st \<Longrightarrow> writer_in_sync sha (fst (record_with_id sha db st e))"
  by (cases db)
    (auto simp: writer_in_sync_def record_with_id_def Let_def chain_append linked_row_of_entry)

lemma record_entries_in_sync:
  "writer_in_sync sha st \<Longrightarrow> writer_in_sync sha (record_entries sha st es)"
  by (induction sha st es rule: record_entries.induct) (auto simp: record_with_id_in_sync)

lemma writer_in_sync_hydrate:
  "writer_in_sync sha st \<Longrightarrow> hydrate_from_pool (snd st) w = w\<lparr> w_previous_hash := w_previous_hash (fst st) \<rparr>"
  by (auto simp: writer_in_sync_def hydrate_from_pool_def tip_of_def)

lemma length_record_entries:
  "length (snd (record_entries sha st es)) =
     length (snd st) + length (filter (\<lambda>(db, e). \<not> isl db) es)"
  by (induction sha st es rule: record_entries.induct)
    (auto simp: record_with_id_def Let_def split: sum.splits)

section \<open>The digest input determines its fields\<close>

lemma be_bytes_length [simp]: "length (be_bytes k n) = k"
  by (induction k arbitrary: n) auto

lemma be_bytes_inj: "n < 256 ^ k \<Longrightarrow> m < 256 ^ k \<Longrightarrow> be_bytes k n = be_bytes k m \<Longrightarrow> n = m"
proof (induction k arbitrary: n m)
  case (Suc k)
  from Suc.prems(3) have hi: "be_bytes k (n div 256) = be_bytes k (m div 256)"
    and lo: "(char_of (n mod 256) :: char) = char_of (m mod 256)" by auto
  from Suc.prems have "n div 256 < 256 ^ k" "m div 256 < 256 ^ k"
    by (simp_all add: div_less_iff_less_mult mult.commute)
  with hi have "n div 256 = m div 256" by (intro Suc.IH)
  moreover have "n mod 256 = m mod 256"
    using arg_cong [OF lo, of "of_char :: char \<Rightarrow> nat"] by (simp add: of_char_of)
  ultimately show ?case by (metis div_mult_mod_eq)
qed simp

lemma unat_u64_lt: "unat (w :: u64) < 256 ^ 8"
  using unsigned_less [of w, where 'a = nat] by simp

lemma split_NUL:
  "NUL \<notin> set a \<Longrightarrow> NUL \<notin> set b \<Longrightarrow> a @ NUL # r = b @ NUL # s \<longleftrightarrow> a = b \<and> r = s"
proof (induction a arbitrary: b)
  case Nil
  then show ?case by (cases b) auto
next
  case (Cons c a)
  then show ?case by (cases b) auto
qed

definition nul_free_row :: "AuditRow \<Rightarrow> bool" where
  "nul_free_row r \<longleftrightarrow> NUL \<notin> set (tool_call_id r) \<and> NUL \<notin> set (tool_name r) \<and>
     NUL \<notin> set (args_json r) \<and> NUL \<notin> set (fingerprint_sha256 r)"

text \<open>The part of a row the chain protects.\<close>
definition hashed_fields ::
    "AuditRow \<Rightarrow> string \<times> string \<times> string \<times> string \<times> bool \<times> u64 \<times> string" where
  "hashed_fields r = (tool_call_id r, tool_name r, args_json r, fingerprint_sha256 r,
     success r \<noteq> 0, duration_ms r, unwrap_or_default (row_error_code r))"

definition row_input :: "string option \<Rightarrow> AuditRow \<Rightarrow> string" where
  "row_input prev r = hash_input (unwrap_or_default prev) (tool_call_id r) (tool_name r)
     (args_json r) (fingerprint_sha256 r) (success r \<noteq> 0) (duration_ms r) (row_error_code r)"

lemma row_hash_input: "row_hash sha p r = hex_lower (sha (row_input p r))"
  by (simp add: row_hash_def row_input_def)

lemma row_input_inj:
  assumes "row_input p r = row_input q s" and "nul_free_row r" and "nul_free_row s"
    and "NUL \<notin> set (unwrap_or_default p)" and "NUL \<notin> set (unwrap_or_default q)"
  shows "unwrap_or_default p = unwrap_or_default q \<and> hashed_fields r = hashed_fields s"
proof -
  let ?t = "\<lambda>r. (if success r \<noteq> 0 then ''1'' else ''0'') @ NUL # be_bytes 8 (unat (duration_ms r)) @
     NUL # unwrap_or_default (row_error_code r)"
  from assms have pre: "unwrap_or_default p = unwrap_or_default q"
      "tool_call_id r = tool_call_id s" "tool_name r = tool_name s"
      "args_json r = args_json s" "fingerprint_sha256 r = fingerprint_sha256 s"
    and t: "?t r = ?t s"
    unfolding row_input_def hash_input_def nul_free_row_def
    by (simp_all add: split_NUL del: be_bytes.simps)
  from t have ok: "(success r \<noteq> 0) = (success s \<noteq> 0)"
    and ms: "be_bytes 8 (unat (duration_ms r)) = be_bytes 8 (unat (duration_ms s))"
    and err: "unwrap_or_default (row_error_code r) = unwrap_or_default (row_error_code s)"
    by (auto simp del: be_bytes.simps split: if_splits)
  have "unat (duration_ms r) = unat (duration_ms s)"
    by (rule be_bytes_inj [OF unat_u64_lt unat_u64_lt ms])
  with pre ok err show ?thesis by (simp add: hashed_fields_def word_unat_eq_iff)
qed

lemma hex_lower_no_NUL: "NUL \<notin> set (hex_lower s)"
proof -
  have "hex_digit d \<noteq> NUL" if "d < 16" for d
  proof -
    have "hex_digit d \<in> set ''0123456789abcdef''"
      using that unfolding hex_digit_def by (intro nth_mem) simp
    then show ?thesis by (auto simp: NUL_def)
  qed
  then have "hex_digit (code c div 16) \<noteq> NUL \<and> hex_digit (code c mod 16) \<noteq> NUL" for c
    using code_lt [of c] by auto
  then show ?thesis by (induction s) (simp_all, metis)
qed

text \<open>Two different texts that occur as digest inputs of the two logs and have one digest.\<close>
definition digest_collision ::
    "(string \<Rightarrow> string) \<Rightarrow> AuditRow list \<Rightarrow> AuditRow list \<Rightarrow> bool" where
  "digest_collision sha256 rows rows' \<longleftrightarrow>
     (\<exists>r \<in> set rows. \<exists>s \<in> set rows'.
        row_input (previous_hash r) r \<noteq> row_input (previous_hash s) s \<and>
        sha256 (row_input (previous_hash r) r) = sha256 (row_input (previous_hash s) s))"


lemma digest_collision_mono:
  "digest_collision sha xs ys \<Longrightarrow> set xs \<subseteq> set xs' \<Longrightarrow> set ys \<subseteq> set ys' \<Longrightarrow>
     digest_collision sha xs' ys'"
  unfolding digest_collision_def by blast

lemma chain_tip_text:
  assumes "chain sha None xs" and "\<And>x. sha x \<noteq> []"
  shows "NUL \<notin> set (unwrap_or_default (tip_of None xs)) \<and>
    (unwrap_or_default (tip_of None xs) = [] \<longleftrightarrow> xs = [])"
proof (cases xs rule: rev_cases)
  case Nil
  then show ?thesis by (simp add: unwrap_or_default_def)
next
  case (snoc ys r)
  with assms(1) have "entry_hash r = hex_lower (sha (row_input (tip_of None ys) r))"
    by (simp add: chain_append linked_def row_hash_input)
  moreover have "hex_lower h \<noteq> []" if "h \<noteq> []" for h
    using that by (cases h) auto
  ultimately show ?thesis
    using snoc assms(2) hex_lower_no_NUL by (simp add: unwrap_or_default_def)
qed

lemma tip_of_eqI:
  assumes "chain sha None xs" and "chain sha None ys" and "\<And>x. sha x \<noteq> []"
    and "unwrap_or_default (tip_of None xs) = unwrap_or_default (tip_of None ys)"
  shows "tip_of None xs = tip_of None ys"
proof (cases "xs = []")
  case True
  with assms chain_tip_text [of sha ys] show ?thesis by (simp add: unwrap_or_default_def)
next
  case False
  with assms chain_tip_text [of sha xs] chain_tip_text [of sha ys] have "ys \<noteq> []" by simp
  with False assms(4) show ?thesis by (simp add: tip_of_def unwrap_or_default_def)
qed

lemma chains_with_one_tip:
  assumes "chain sha None rows" and "chain sha None rows'" and "tip_of None rows = tip_of None rows'"
    and "\<forall>r \<in> set rows \<union> set rows'. nul_free_row r" and "\<And>x. sha x \<noteq> []"
    and "\<not> digest_collision sha rows rows'"
  shows "map hashed_fields rows = map hashed_fields rows'"
  using assms
proof (induction rows arbitrary: rows' rule: rev_induct)
  case Nil
  then show ?case by (simp add: tip_of_def split: if_splits)
next
  case (snoc r xs)
  then obtain ys s where rows': "rows' = ys @ [s]"
    by (cases rows' rule: rev_cases) auto
  from snoc.prems rows' have r: "chain sha None xs" "linked sha (tip_of None xs) r"
    and s: "chain sha None ys" "linked sha (tip_of None ys) s"
    and hash: "entry_hash r = entry_hash s"
    by (auto simp: chain_append)
  let ?i = "row_input (tip_of None xs) r" and ?j = "row_input (tip_of None ys) s"
  from r(2) s(2) hash have "sha ?i = sha ?j"
    by (auto simp: linked_def row_hash_input intro: hex_lower_inj)
  moreover have "previous_hash r = tip_of None xs" "previous_hash s = tip_of None ys"
    using r(2) s(2) by (simp_all add: linked_def)
  ultimately have "?i = ?j"
    using snoc.prems(6) rows' by (auto simp: digest_collision_def)
  moreover have "NUL \<notin> set (unwrap_or_default (tip_of None xs))"
    "NUL \<notin> set (unwrap_or_default (tip_of None ys))"
    using chain_tip_text [OF r(1) snoc.prems(5)] chain_tip_text [OF s(1) snoc.prems(5)] by auto
  ultimately have same: "unwrap_or_default (tip_of None xs) = unwrap_or_default (tip_of None ys)"
    "hashed_fields r = hashed_fields s"
    using row_input_inj [of _ r _ s] snoc.prems(4) rows' by auto
  have "map hashed_fields xs = map hashed_fields ys"
  proof (rule snoc.IH [OF r(1) s(1) tip_of_eqI [OF r(1) s(1) snoc.prems(5) same(1)]])
    show "\<forall>r \<in> set xs \<union> set ys. nul_free_row r" using snoc.prems(4) rows' by auto
    show "\<not> digest_collision sha xs ys"
      using snoc.prems(6) rows' digest_collision_mono [of sha xs ys "xs @ [r]" rows'] by auto
  qed (rule snoc.prems(5))
  with same(2) rows' show ?case by simp
qed

lemma verify_chain_OkD:
  "verify_chain sha rows = ChainOk n t \<Longrightarrow> chain sha None rows \<and> t = tip_of None rows"
  unfolding verify_chain_def
  by (metis AuditChainStatus.inject(1) verify_rows_Ok_iff verify_rows_chain)

text \<open>The columns the digest does not cover.\<close>
definition edit_unhashed ::
    "(AuditRow \<Rightarrow> string) \<Rightarrow> (AuditRow \<Rightarrow> int option) \<Rightarrow> (AuditRow \<Rightarrow> int option) \<Rightarrow> AuditRow \<Rightarrow> AuditRow" where
  "edit_unhashed p c m r = r\<lparr> result_preview := p r, conversation_id := c r, message_id := m r \<rparr>"

lemma verify_rows_edit_unhashed:
  "verify_rows sha prev n (map (edit_unhashed p c m) rows) = verify_rows sha prev n rows"
  by (induction rows arbitrary: prev n) (auto simp: edit_unhashed_def row_hash_def)

section \<open>Properties\<close>

text \<open>
  The log the writer produces verifies. From a fresh writer and an empty table, after any
  sequence of \<open>record\<close> calls, each of which the database may refuse, the verifier accepts the table
  with one row per successful insert and with the writer's rolling hash as its tip; a writer
  hydrated from the table at the next boot continues from the same hash.
\<close>
theorem written_log_verifies:
  "let st = record_entries sha (new_writer, []) es in
     verify_chain sha (snd st) =
       ChainOk (of_nat (length (filter (\<lambda>(db, e). \<not> isl db) es))) (w_previous_hash (fst st)) \<and>
     hydrate_from_pool (snd st) new_writer = fst st"
proof -
  let ?st = "record_entries sha (new_writer, []) es"
  have "writer_in_sync sha (new_writer, [])" by (simp add: writer_in_sync_def new_writer_def)
  then have sync: "writer_in_sync sha ?st" by (rule record_entries_in_sync)
  then have "verify_chain sha (snd ?st) =
      ChainOk (of_nat (length (snd ?st))) (w_previous_hash (fst ?st))"
    by (simp add: verify_chain_def verify_rows_chain writer_in_sync_def)
  with writer_in_sync_hydrate [OF sync, of new_writer] show ?thesis
    by (simp add: length_record_entries Let_def)
qed

text \<open>
  C8: the verifier is exact. It answers \<open>Ok\<close>, with the number of rows and the last hash, only for
  a table in which every row links to the hash before it and carries its own recomputed hash;
  otherwise it answers \<open>Tampered\<close> with the rowid of the first row that does not.
\<close>
theorem verify_chain_exact:
  "case verify_chain sha rows of
     ChainOk n t \<Rightarrow> chain sha None rows \<and> n = of_nat (length rows) \<and> t = tip_of None rows
   | Tampered i e f \<Rightarrow>
       (\<exists>xs r ys. rows = xs @ r # ys \<and> chain sha None xs \<and> \<not> linked sha (tip_of None xs) r \<and>
          i = row_id r)"
proof (cases "chain sha None rows")
  case True
  then show ?thesis by (simp add: verify_chain_def verify_rows_chain)
next
  case False
  from chain_prefix_break [OF this] obtain xs r ys where
    b: "rows = xs @ r # ys" "chain sha None xs" "\<not> linked sha (tip_of None xs) r" by blast
  then have "verify_chain sha rows =
      verify_rows sha (tip_of None xs) (of_nat (length xs)) (r # ys)"
    by (simp add: verify_chain_def verify_rows_skip del: verify_rows.simps)
  moreover have "\<exists>e f. verify_rows sha (tip_of None xs) (of_nat (length xs)) (r # ys) =
      Tampered (row_id r) e f"
    using b(3) by (auto simp: linked_def)
  ultimately obtain e f where "verify_chain sha rows = Tampered (row_id r) e f" by auto
  with b show ?thesis by auto
qed

text \<open>
  C40: the chain tip commits to the whole log. Two tables that both verify with the same tip agree,
  row by row and in their number of rows, on every hashed field, or they exhibit two different
  digest inputs with one SHA-256 value. The digest is assumed to return a non-empty string, and
  the text fields that precede the fixed-width ones to hold no NUL byte.
\<close>
theorem audit_tip_commits_to_log:
  assumes "verify_chain sha rows = ChainOk n t" and "verify_chain sha rows' = ChainOk n' t"
    and "\<forall>r \<in> set rows \<union> set rows'. nul_free_row r" and "\<And>x. sha x \<noteq> []"
  shows "map hashed_fields rows = map hashed_fields rows' \<or> digest_collision sha rows rows'"
  using chains_with_one_tip [of sha rows rows'] verify_chain_OkD [OF assms(1)]
    verify_chain_OkD [OF assms(2)] assms(3,4) by auto

text \<open>A one-row log, its conversation id edited; the stand-in digest is injective.\<close>
definition sample_entry :: AuditEntry where
  "sample_entry = \<lparr> ae_conversation_id = None, ae_message_id = None, ae_tool_call_id = ''c1'',
     ae_tool_name = ''math_eval'', ae_args_json = ''{}'', ae_result_preview = ''4'',
     ae_success = True, ae_duration_ms = 7, ae_error_code = None, ae_fingerprint_sha256 = ''ab'' \<rparr>"

definition sample_row :: AuditRow where
  "sample_row = row_of_entry 1 sample_entry None
     (compute_entry_hash (\<lambda>s. CHR ''h'' # s) [] sample_entry)"

lemma sample_row_verifies:
  "verify_chain (\<lambda>s. CHR ''h'' # s) [sample_row\<lparr> conversation_id := c \<rparr>] =
     ChainOk 1 (Some (entry_hash sample_row))"
  by (simp add: verify_chain_def sample_row_def row_of_entry_def row_hash_def
      compute_entry_hash_def sample_entry_def unwrap_or_default_def)

theorem audit_tip_commits_to_log_witness:
  "map hashed_fields [sample_row\<lparr> conversation_id := Some 3 \<rparr>] =
     map hashed_fields [sample_row\<lparr> conversation_id := None \<rparr>] \<or>
   digest_collision (\<lambda>s. CHR ''h'' # s) [sample_row\<lparr> conversation_id := Some 3 \<rparr>]
     [sample_row\<lparr> conversation_id := None \<rparr>]"
  by (rule audit_tip_commits_to_log [OF sample_row_verifies sample_row_verifies])
    (simp_all add: nul_free_row_def sample_row_def row_of_entry_def sample_entry_def NUL_def)

text \<open>
  what the verifier cannot see. Rewriting the result preview, the conversation id and the
  message id of any rows leaves the verdict unchanged, and a written log cut after any number of
  rows still verifies.
\<close>
theorem audit_chain_blind_spots:
  "verify_chain sha (map (edit_unhashed p c m) rows) = verify_chain sha rows \<and>
   (let table = take k (snd (record_entries sha (new_writer, []) es)) in
      verify_chain sha table = ChainOk (of_nat (length table)) (tip_of None table))"
proof -
  have "writer_in_sync sha (new_writer, [])" by (simp add: writer_in_sync_def new_writer_def)
  then have "chain sha None (snd (record_entries sha (new_writer, []) es))"
    using record_entries_in_sync by (simp add: writer_in_sync_def)
  then have "chain sha None (take k (snd (record_entries sha (new_writer, []) es)))"
    by (metis append_take_drop_id chain_append)
  then show ?thesis
    by (simp add: verify_chain_def verify_rows_edit_unhashed verify_rows_chain Let_def)
qed

end
