(* ===== verification/Tool_Validator.thy ===== *)
theory Tool_Validator
  imports Json_Model Mukei_Errors
begin

text \<open>
  The tool registry and remote policy (\<^verbatim>\<open>tools/mod.rs\<close>, \<^verbatim>\<open>tools/remote_policy.rs\<close>) and the post-parse
  tool-call validator (\<^verbatim>\<open>tools/validator.rs\<close>). The JSON parser and printer of \<^verbatim>\<open>serde_json\<close> and the
  random identifiers of the \<^verbatim>\<open>uuid\<close> crate are arguments: \<open>from_str\<close> the deserialiser of a list of
  raw calls, \<open>show_json\<close> the rendering of a value, \<open>uuid i\<close> the \<open>i\<close>-th identifier minted.
\<close>

section \<open>Registry\<close>

definition ALLOWED_TOOLS :: "string list" where
  "ALLOWED_TOOLS = [''web_search'', ''read_file'', ''get_hardware_info'', ''math_eval'']"

record 'tool ToolRegistry =
  registry :: "(string, 'tool) hashmap"

definition register :: "string \<Rightarrow> 'tool \<Rightarrow> 'tool ToolRegistry \<Rightarrow> 'tool ToolRegistry" where
  "register name tool r = r\<lparr> registry := AList.update name tool (registry r) \<rparr>"

definition local_only :: "'tool \<Rightarrow> 'tool \<Rightarrow> 'tool \<Rightarrow> 'tool ToolRegistry" where
  "local_only file hardware math =
     register ''math_eval'' math
       (register ''get_hardware_info'' hardware
         (register ''read_file'' file \<lparr> registry = [] \<rparr>))"

definition temporary_chat :: "'tool \<Rightarrow> 'tool \<Rightarrow> 'tool ToolRegistry" where
  "temporary_chat hardware math =
     register ''math_eval'' math (register ''get_hardware_info'' hardware \<lparr> registry = [] \<rparr>)"

definition with_file_tool :: "'tool \<Rightarrow> 'tool \<Rightarrow> 'tool \<Rightarrow> 'tool \<Rightarrow> 'tool ToolRegistry" where
  "with_file_tool file_tool file hardware math =
     register ''read_file'' file_tool (local_only file hardware math)"

definition with_web_search ::
    "'tool \<Rightarrow> 'tool \<Rightarrow> 'tool \<Rightarrow> 'tool \<Rightarrow> 'tool ToolRegistry" where
  "with_web_search web file hardware math =
     register ''web_search'' web (local_only file hardware math)"

definition registry_get :: "'tool ToolRegistry \<Rightarrow> string \<Rightarrow> 'tool option" where
  "registry_get r name = map_of (registry r) name"

definition registry_require :: "'tool ToolRegistry \<Rightarrow> string \<Rightarrow> 'tool result" where
  "registry_require r name =
     (case registry_get r name of None \<Rightarrow> Inl (UnknownTool name) | Some t \<Rightarrow> Inr t)"

definition registry_names :: "'tool ToolRegistry \<Rightarrow> string list" where
  "registry_names r = sort (map fst (registry r))"

section \<open>Remote policy\<close>

datatype RemoteFeaturePolicy = LocalOnly | AskBeforeRemote | RemoteAllowed | EnterpriseDisabled

primrec policy_as_str :: "RemoteFeaturePolicy \<Rightarrow> string" where
  "policy_as_str LocalOnly = ''local_only''"
| "policy_as_str AskBeforeRemote = ''ask_before_remote''"
| "policy_as_str RemoteAllowed = ''remote_allowed''"
| "policy_as_str EnterpriseDisabled = ''enterprise_disabled''"

definition ensure_remote_allowed :: "RemoteFeaturePolicy \<Rightarrow> string \<Rightarrow> unit result" where
  "ensure_remote_allowed p feature =
     (if p = RemoteAllowed then Inr () else Inl (RemoteFeatureDisabled feature (policy_as_str p)))"

definition policy_from_str :: "string \<Rightarrow> RemoteFeaturePolicy result" where
  "policy_from_str value =
     (let v = to_ascii_lowercase (trim value) in
      if v \<in> {''local_only'', ''local-only'', ''local''} then Inr LocalOnly
      else if v \<in> {''ask_before_remote'', ''ask-before-remote'', ''ask''} then Inr AskBeforeRemote
      else if v \<in> {''remote_allowed'', ''remote-allowed'', ''remote'', ''allowed''}
      then Inr RemoteAllowed
      else if v \<in> {''enterprise_disabled'', ''enterprise-disabled'', ''disabled''}
      then Inr EnterpriseDisabled
      else Inl (ConfigInvalid ''remote_feature_policy''
        ''expected local_only, ask_before_remote, remote_allowed, or enterprise_disabled''))"

section \<open>Validator\<close>

record RawToolCall =
  raw_name :: string
  raw_arguments :: json

record TypedToolCall =
  call_id :: string
  call_name :: string
  call_arguments :: json

datatype ValidationError =
    MismatchedArgs string json
  | UnknownToolName string
  | MissingRequiredField string string
  | WrongFieldType string string string string
  | ConstraintViolation string string

definition ALLOWED_FIELDS_PER_TOOL :: "(string \<times> string list) list" where
  "ALLOWED_FIELDS_PER_TOOL =
     [(''web_search'', [''query'']), (''read_file'', [''path'']),
      (''get_hardware_info'', []), (''math_eval'', [''expression''])]"

definition parse_gbnf_output ::
    "(string \<Rightarrow> string + RawToolCall list) \<Rightarrow> string \<Rightarrow> RawToolCall list result" where
  "parse_gbnf_output from_str response =
     (let trimmed = trim response in
      if trimmed = [] then Inr []
      else case from_str trimmed of Inl e \<Rightarrow> Inl (ToolParseFailed e) | Inr cs \<Rightarrow> Inr cs)"

definition get_required_string ::
    "(json \<Rightarrow> string) \<Rightarrow> string \<Rightarrow> json \<Rightarrow> string \<Rightarrow> ValidationError + string" where
  "get_required_string show_json tool value field =
     (case json_get value field of
        Some v \<Rightarrow> (case as_str v of
            Some s \<Rightarrow> Inr s
          | None \<Rightarrow> Inl (WrongFieldType tool field ''string'' (show_json v)))
      | None \<Rightarrow> Inl (MissingRequiredField tool field))"

text \<open>The per-tool branches of the final match.\<close>
definition validate_web_search ::
    "(json \<Rightarrow> string) \<Rightarrow> string \<Rightarrow> RawToolCall \<Rightarrow> ValidationError + TypedToolCall" where
  "validate_web_search show_json uid call =
     (case get_required_string show_json (raw_name call) (raw_arguments call) ''query'' of
        Inl e \<Rightarrow> Inl e
      | Inr query \<Rightarrow>
          if trim query = []
          then Inl (ConstraintViolation (raw_name call) ''query must be non-empty'')
          else Inr \<lparr> call_id = uid, call_name = ''web_search'',
                     call_arguments = Object [(''query'', String (trim query))] \<rparr>)"

definition validate_read_file ::
    "(json \<Rightarrow> string) \<Rightarrow> string \<Rightarrow> RawToolCall \<Rightarrow> ValidationError + TypedToolCall" where
  "validate_read_file show_json uid call =
     (case get_required_string show_json (raw_name call) (raw_arguments call) ''path'' of
        Inl e \<Rightarrow> Inl e
      | Inr path \<Rightarrow>
          if \<not> starts_with ''saf://'' path
          then Inl (ConstraintViolation (raw_name call) ''path must begin with saf://'')
          else if length path > 256
          then Inl (ConstraintViolation ''read_file'' ''path exceeds 256 bytes'')
          else Inr \<lparr> call_id = uid, call_name = ''read_file'',
                     call_arguments = Object [(''path'', String path)] \<rparr>)"

definition validate_math_eval ::
    "(json \<Rightarrow> string) \<Rightarrow> string \<Rightarrow> RawToolCall \<Rightarrow> ValidationError + TypedToolCall" where
  "validate_math_eval show_json uid call =
     (case get_required_string show_json (raw_name call) (raw_arguments call) ''expression'' of
        Inl e \<Rightarrow> Inl e
      | Inr expression \<Rightarrow>
          if trim expression = []
          then Inl (ConstraintViolation (raw_name call) ''expression must be non-empty'')
          else if length expression > 1024
          then Inl (ConstraintViolation ''math_eval'' ''expression exceeds 1024 bytes'')
          else Inr \<lparr> call_id = uid, call_name = ''math_eval'',
                     call_arguments = Object [(''expression'', String expression)] \<rparr>)"

definition validate_one ::
    "(json \<Rightarrow> string) \<Rightarrow> string \<Rightarrow> RawToolCall \<Rightarrow> ValidationError + TypedToolCall" where
  "validate_one show_json uid call =
     (case map_of ALLOWED_FIELDS_PER_TOOL (raw_name call) of
        None \<Rightarrow> Inl (UnknownToolName (raw_name call))
      | Some allowed \<Rightarrow>
          (case as_object (raw_arguments call) of
             None \<Rightarrow> Inl (WrongFieldType (raw_name call) ''arguments'' ''object''
                            (show_json (raw_arguments call)))
           | Some obj \<Rightarrow>
               if filter (\<lambda>key. key \<notin> set allowed) (map fst obj) \<noteq> []
               then Inl (MismatchedArgs (raw_name call) (raw_arguments call))
               else if raw_name call = ''web_search'' then validate_web_search show_json uid call
               else if raw_name call = ''read_file'' then validate_read_file show_json uid call
               else if raw_name call = ''get_hardware_info''
               then Inr \<lparr> call_id = uid, call_name = ''get_hardware_info'',
                          call_arguments = Object [] \<rparr>
               else if raw_name call = ''math_eval'' then validate_math_eval show_json uid call
               else Inl (UnknownToolName (raw_name call))))"

fun validate_loop ::
    "(json \<Rightarrow> string) \<Rightarrow> (nat \<Rightarrow> string) \<Rightarrow> TypedToolCall list \<Rightarrow> ValidationError list
     \<Rightarrow> RawToolCall list \<Rightarrow> TypedToolCall list \<times> ValidationError list" where
  "validate_loop show_json uuid accepted rejected [] = (accepted, rejected)"
| "validate_loop show_json uuid accepted rejected (call # calls) =
     (case validate_one show_json (uuid (length accepted)) call of
        Inr c \<Rightarrow> validate_loop show_json uuid (accepted @ [c]) rejected calls
      | Inl e \<Rightarrow> validate_loop show_json uuid accepted (rejected @ [e]) calls)"

definition validate ::
    "(json \<Rightarrow> string) \<Rightarrow> (nat \<Rightarrow> string) \<Rightarrow> RawToolCall list
     \<Rightarrow> TypedToolCall list \<times> ValidationError list" where
  "validate show_json uuid raw_calls = validate_loop show_json uuid [] [] raw_calls"

definition quoted :: "string \<Rightarrow> string" where
  "quoted s = apos @ s @ apos"

fun format_error :: "(json \<Rightarrow> string) \<Rightarrow> ValidationError \<Rightarrow> string" where
  "format_error show_json (UnknownToolName tool) =
     ''- Unknown tool '' @ quoted tool @
     ''. Allowed: web_search, read_file, get_hardware_info, math_eval.\<newline>''"
| "format_error show_json (MismatchedArgs tool observed) =
     ''- Tool '' @ quoted tool @ '' had unexpected argument fields: '' @ show_json observed @
     ''.\<newline>''"
| "format_error show_json (MissingRequiredField tool field) =
     ''- Tool '' @ quoted tool @ '' is missing required field '' @ quoted field @ ''.\<newline>''"
| "format_error show_json (WrongFieldType tool field expected actual) =
     ''- Tool '' @ quoted tool @ '' field '' @ quoted field @ '' must be '' @ expected @
     ''; got '' @ actual @ ''.\<newline>''"
| "format_error show_json (ConstraintViolation tool detail) =
     ''- Tool '' @ quoted tool @ '' violated a semantic constraint: '' @ detail @ ''.\<newline>''"

definition format_for_llm :: "(json \<Rightarrow> string) \<Rightarrow> ValidationError list \<Rightarrow> string" where
  "format_for_llm show_json errors =
     ''Tool-call validation failed:\<newline>'' @ concat (map (format_error show_json) errors) @
     ''Re-emit ONLY valid JSON tool calls that match the documented schemas.''"

definition validate_tool_calls ::
    "(json \<Rightarrow> string) \<Rightarrow> (nat \<Rightarrow> string) \<Rightarrow> RawToolCall list \<Rightarrow> TypedToolCall list result" where
  "validate_tool_calls show_json uuid raw_calls =
     (case validate show_json uuid raw_calls of
        (accepted, errors) \<Rightarrow>
          if errors = [] then Inr accepted
          else Inl (ToolArgsRejected ''validator'' (format_for_llm show_json errors)))"


section \<open>Trimming\<close>

lemma ws_len_prefix: "ws_len u \<noteq> 0 \<Longrightarrow> ws_len (u @ v) \<noteq> 0"
proof (induction u rule: ws_len.induct)
  case (2 a)
  then show ?case
    by (cases v rule: ws_len.cases) (auto split: if_splits)
next
  case (3 a b)
  then show ?case by (cases v) (auto split: if_splits)
qed (auto split: if_splits)

lemma ws_len_trim_start [simp]: "ws_len (trim_start s) = 0"
  by (induction s rule: trim_start.induct) (subst trim_start.simps, simp)

lemma ws_len_rev_trim_start_rev [simp]: "ws_len_rev (trim_start_rev s) = 0"
  by (induction s rule: trim_start_rev.induct) (subst trim_start_rev.simps, simp)

lemma trim_start_id: "ws_len s = 0 \<Longrightarrow> trim_start s = s"
  by (subst trim_start.simps) simp

lemma trim_start_rev_id: "ws_len_rev s = 0 \<Longrightarrow> trim_start_rev s = s"
  by (subst trim_start_rev.simps) simp

lemma trim_start_rev_suffix: "\<exists>p. s = p @ trim_start_rev s"
proof (induction s rule: trim_start_rev.induct)
  case (1 s)
  show ?case
  proof (cases "ws_len_rev s = 0")
    case True
    then show ?thesis by (simp add: trim_start_rev_id)
  next
    case False
    with 1 obtain p where "drop (ws_len_rev s) s = p @ trim_start_rev (drop (ws_len_rev s) s)"
      by blast
    moreover have "trim_start_rev s = trim_start_rev (drop (ws_len_rev s) s)"
      using False by (subst trim_start_rev.simps) simp
    ultimately have "s = (take (ws_len_rev s) s @ p) @ trim_start_rev s"
      by (metis append.assoc append_take_drop_id)
    then show ?thesis by blast
  qed
qed

lemma trim_idem [simp]: "trim (trim s) = trim s"
proof -
  obtain p where p: "rev (trim_start s) = p @ trim_start_rev (rev (trim_start s))"
    using trim_start_rev_suffix by blast
  then have "trim_start s = trim s @ rev p"
    by (metis rev_append rev_rev_ident trim_def)
  then have "ws_len (trim s) = 0"
    using ws_len_prefix [of "trim s" "rev p"] ws_len_trim_start [of s] by auto
  then have "trim_start (trim s) = trim s" by (rule trim_start_id)
  moreover have "trim_start_rev (rev (trim s)) = rev (trim s)"
    by (rule trim_start_rev_id) (simp add: trim_def)
  ultimately show ?thesis by (metis rev_rev_ident trim_def)
qed

section \<open>Lemmas on the validator\<close>

text \<open>What an accepted call looks like.\<close>
definition well_formed_call :: "TypedToolCall \<Rightarrow> bool" where
  "well_formed_call c \<longleftrightarrow>
     call_name c = ''get_hardware_info'' \<and> call_arguments c = Object [] \<or>
     (\<exists>v. call_name c = ''web_search'' \<and> call_arguments c = Object [(''query'', String v)] \<and>
          v \<noteq> [] \<and> trim v = v) \<or>
     (\<exists>v. call_name c = ''read_file'' \<and> call_arguments c = Object [(''path'', String v)] \<and>
          starts_with ''saf://'' v \<and> length v \<le> 256) \<or>
     (\<exists>v. call_name c = ''math_eval'' \<and> call_arguments c = Object [(''expression'', String v)] \<and>
          trim v \<noteq> [] \<and> length v \<le> 1024)"

lemmas validate_branch_defs =
  validate_web_search_def validate_read_file_def validate_math_eval_def

lemma validate_one_well_formed: "validate_one sj uid call = Inr c \<Longrightarrow> well_formed_call c \<and> call_id c = uid"
  by (auto simp: validate_one_def validate_branch_defs well_formed_call_def
      split: option.splits if_splits sum.splits)

definition raw_of :: "TypedToolCall \<Rightarrow> RawToolCall" where
  "raw_of c = \<lparr> raw_name = call_name c, raw_arguments = call_arguments c \<rparr>"

lemma validate_one_raw_of:
  assumes "well_formed_call c"
  shows "validate_one sj uid (raw_of c) = Inr (c\<lparr> call_id := uid \<rparr>)"
  using assms unfolding well_formed_call_def
  by (auto simp: validate_one_def validate_branch_defs raw_of_def ALLOWED_FIELDS_PER_TOOL_def
      as_object_def as_str_def json_get_def get_required_string_def)

definition set_id :: "string \<Rightarrow> TypedToolCall \<Rightarrow> TypedToolCall" where
  "set_id uid c = c\<lparr> call_id := uid \<rparr>"

lemma validate_branch_uid:
  "validate_web_search sj uid call = map_sum id (set_id uid) (validate_web_search sj uid' call)"
  "validate_read_file sj uid call = map_sum id (set_id uid) (validate_read_file sj uid' call)"
  "validate_math_eval sj uid call = map_sum id (set_id uid) (validate_math_eval sj uid' call)"
  by (simp_all add: validate_branch_defs set_id_def split: sum.split)

lemma validate_one_uid:
  "validate_one sj uid call = map_sum id (set_id uid) (validate_one sj uid' call)"
proof (cases "map_of ALLOWED_FIELDS_PER_TOOL (raw_name call)")
  case None
  then show ?thesis by (simp add: validate_one_def)
next
  case (Some allowed)
  show ?thesis
  proof (cases "as_object (raw_arguments call)")
    case None
    with Some show ?thesis by (simp add: validate_one_def)
  next
    case obj: (Some obj)
    show ?thesis
      unfolding validate_one_def Some obj option.case validate_branch_uid [of sj uid call uid']
      by (simp only: if_distrib [of "map_sum id (set_id uid)"] map_sum.simps id_apply set_id_def)
        (simp cong: if_cong)
  qed
qed

text \<open>The two output lists, call by call.\<close>
definition accepted_of :: "(json \<Rightarrow> string) \<Rightarrow> RawToolCall list \<Rightarrow> TypedToolCall list" where
  "accepted_of sj calls = [c. Inr c \<leftarrow> map (validate_one sj []) calls]"

definition rejected_of :: "(json \<Rightarrow> string) \<Rightarrow> RawToolCall list \<Rightarrow> ValidationError list" where
  "rejected_of sj calls = [e. Inl e \<leftarrow> map (validate_one sj []) calls]"

definition number_ids :: "(nat \<Rightarrow> string) \<Rightarrow> nat \<Rightarrow> TypedToolCall list \<Rightarrow> TypedToolCall list" where
  "number_ids uuid n cs = map2 (\<lambda>i c. set_id (uuid i) c) [n..<n + length cs] cs"

lemma number_ids_Cons [simp]:
  "number_ids uuid n [] = []"
  "number_ids uuid n (c # cs) = set_id (uuid n) c # number_ids uuid (Suc n) cs"
  by (simp_all add: number_ids_def upt_conv_Cons del: upt_Suc)

lemma validate_loop_eq:
  "validate_loop sj uuid acc rej calls =
     (acc @ number_ids uuid (length acc) (accepted_of sj calls), rej @ rejected_of sj calls)"
proof (induction calls arbitrary: acc rej)
  case Nil
  then show ?case by (simp add: accepted_of_def rejected_of_def)
next
  case (Cons call calls)
  have one: "validate_one sj (uuid (length acc)) call =
      map_sum id (set_id (uuid (length acc))) (validate_one sj [] call)"
    by (rule validate_one_uid)
  show ?case
    by (cases "validate_one sj [] call") (simp_all add: one Cons accepted_of_def rejected_of_def)
qed

lemma validate_accepts_well_formed:
  "list_all well_formed_call (fst (validate sj uuid calls))"
proof -
  have "list_all well_formed_call (accepted_of sj calls)"
    by (auto simp: accepted_of_def list_all_iff split: sum.splits
        dest!: validate_one_well_formed [OF sym])
  moreover have "well_formed_call (set_id uid c) = well_formed_call c" for uid c
    by (simp add: well_formed_call_def set_id_def)
  then have "list_all well_formed_call cs \<Longrightarrow> list_all well_formed_call (number_ids uuid n cs)" for n cs
    by (induction cs arbitrary: n) auto
  ultimately have "list_all well_formed_call (number_ids uuid 0 (accepted_of sj calls))" by blast
  then show ?thesis by (simp add: validate_def validate_loop_eq)
qed

section \<open>Properties\<close>

text \<open>
  C33: every call the validator lets through is well formed: it names one of the four tools and its
  arguments are the one object that tool's schema allows, with a trimmed non-empty query, a path
  of at most 256 bytes under \<^verbatim>\<open>saf://\<close>, or a non-blank expression of at most 1024 bytes.
\<close>
theorem accepted_calls_well_formed:
  "list_all well_formed_call (fst (validate sj uuid calls))"
  by (rule validate_accepts_well_formed)

text \<open>
  the validator partitions its input. The accepted list holds, in order and with fresh
  identifiers numbered in order, the calls that validate on their own, the error list the errors
  of the others, and together they account for every call.
\<close>
theorem validate_partition:
  "validate sj uuid calls = (number_ids uuid 0 (accepted_of sj calls), rejected_of sj calls) \<and>
   length (fst (validate sj uuid calls)) + length (snd (validate sj uuid calls)) = length calls"
proof -
  have "length (accepted_of sj calls) + length (rejected_of sj calls) = length calls"
    by (induction calls) (auto simp: accepted_of_def rejected_of_def split: sum.splits)
  then show ?thesis by (simp add: validate_def validate_loop_eq number_ids_def)
qed

text \<open>
  Validation is idempotent: validating the accepted calls again accepts all of them, with
  arguments unchanged.
\<close>
theorem validate_idempotent:
  "validate_tool_calls sj uuid' (map raw_of (fst (validate sj uuid calls))) =
     Inr (number_ids uuid' 0 (fst (validate sj uuid calls)))"
proof -
  have again: "accepted_of sj (map raw_of cs) = map (set_id []) cs \<and> rejected_of sj (map raw_of cs) = []"
    if "list_all well_formed_call cs" for cs
    using that by (induction cs)
      (auto simp: accepted_of_def rejected_of_def validate_one_raw_of set_id_def)
  have ids: "number_ids uuid' n (map (set_id []) cs) = number_ids uuid' n cs" for n cs
    by (induction cs arbitrary: n) (simp_all add: set_id_def)
  have "list_all well_formed_call (fst (validate sj uuid calls))"
    by (rule validate_accepts_well_formed)
  from again [OF this] ids show ?thesis
    by (simp add: validate_tool_calls_def validate_def validate_loop_eq)
qed

text \<open>
  The registries. Temporary Chat exposes neither file reading nor remote search, the local
  registry no remote search, and a lookup after registering a tool returns it.
\<close>
theorem registry_boundaries:
  "registry_names (temporary_chat h m) = [''get_hardware_info'', ''math_eval''] \<and>
   registry_names (local_only f h m) = [''get_hardware_info'', ''math_eval'', ''read_file''] \<and>
   set (registry_names (with_web_search w f h m)) = set ALLOWED_TOOLS \<and>
   registry_require (register n t r) n' =
     (if n' = n then Inr t else registry_require r n')"
  by (simp add: registry_names_def temporary_chat_def local_only_def with_web_search_def
      register_def registry_require_def registry_get_def ALLOWED_TOOLS_def insert_commute)

end
