(* ===== verification/Tool_Executor.thy ===== *)
theory Tool_Executor
  imports Failure_Tracker Repeat_Tracker Tool_Feedback Audit_Log Tool_Validator
begin

text \<open>
  The parallel tool executor (\<^verbatim>\<open>agent/tools/executor.rs\<close>). Its two loops run one after the other on
  the caller's task: the first decides, call by call, whether a task is spawned; the second awaits
  the spawned tasks in order and does all the bookkeeping. The spawned tasks touch neither the
  trackers nor the audit log, so everything the runtime and the tools contribute to a batch is what
  each task hands back when it is joined. That is the argument \<open>env_task\<close>, a function of the call
  (calls carry unique identifiers, so two calls may behave differently); \<open>env_db\<close> gives the outcome
  of each audit \<open>INSERT\<close> in the same way.
\<close>

section \<open>Model\<close>

record ToolResult =
  res_call_id :: string
  res_name :: string
  res_output :: string
  res_ok :: bool
  res_took :: duration
  res_trust :: string

record ToolOutcome =
  oc_result :: ToolResult
  oc_failure_kind :: "FailureKind option"
  oc_repeat_output_notice :: "string option"
  oc_attempt :: u32

record 'tool ToolExecutor =
  ex_registry :: "'tool ToolRegistry"
  ex_tracker :: FailureTracker
  ex_repeats :: OutputRepeatTracker
  ex_policy :: ToolExecutionPolicy
  ex_spawn_permits :: nat
  ex_audit :: "(AuditLogWriter \<times> AuditRow list) option"

definition with_policy ::
    "'tool ToolRegistry \<Rightarrow> FailureTracker \<Rightarrow> ToolExecutionPolicy \<Rightarrow> 'tool ToolExecutor" where
  "with_policy reg tr pol =
     \<lparr> ex_registry = reg, ex_tracker = tr, ex_repeats = new_repeats, ex_policy = pol,
       ex_spawn_permits = max (max_concurrent_tools pol) 1, ex_audit = None \<rparr>"

definition with_policy_and_audit ::
    "'tool ToolRegistry \<Rightarrow> FailureTracker \<Rightarrow> ToolExecutionPolicy \<Rightarrow> AuditRow list
     \<Rightarrow> AuditLogWriter \<Rightarrow> 'tool ToolExecutor" where
  "with_policy_and_audit reg tr pol pool writer =
     \<lparr> ex_registry = reg, ex_tracker = tr, ex_repeats = new_repeats, ex_policy = pol,
       ex_spawn_permits = max (max_concurrent_tools pol) 1, ex_audit = Some (writer, pool) \<rparr>"

text \<open>
  How a spawned task ends: the join fails, the semaphore is closed, or the \<open>select!\<close> yields the
  tool's own result (\<open>Some\<close>) or the cancellation branch (\<open>None\<close>) after some time.
\<close>
datatype TaskEvent =
    JoinFailed string
  | GateClosed string
  | TaskRan duration "string result option"

record exec_env =
  env_to_vec :: "json \<Rightarrow> string option"
  env_to_string :: "json \<Rightarrow> string option"
  env_sha256 :: "string \<Rightarrow> string"
  env_task :: "TypedToolCall \<Rightarrow> TaskEvent"
  env_db :: "AuditEntry \<Rightarrow> int result"

definition as_millis_u64 :: "duration \<Rightarrow> u64" where
  "as_millis_u64 took = of_nat (min (took div 10 ^ 6) (2 ^ 64 - 1))"

definition audit_entry ::
    "exec_env \<Rightarrow> TypedToolCall \<Rightarrow> string \<Rightarrow> string \<Rightarrow> bool \<Rightarrow> duration \<Rightarrow> string option \<Rightarrow> AuditEntry" where
  "audit_entry env call fp out ok took err_code =
     \<lparr> ae_conversation_id = None, ae_message_id = None, ae_tool_call_id = call_id call,
       ae_tool_name = call_name call,
       ae_args_json = canonical_args (env_to_string env) (call_arguments call),
       ae_result_preview = out, ae_success = ok, ae_duration_ms = as_millis_u64 took,
       ae_error_code = err_code, ae_fingerprint_sha256 = fp \<rparr>"

text \<open>The result of the write is only logged by the callers.\<close>
definition audit_outcome ::
    "exec_env \<Rightarrow> TypedToolCall \<Rightarrow> string \<Rightarrow> string \<Rightarrow> bool \<Rightarrow> duration \<Rightarrow> string option
     \<Rightarrow> 'tool ToolExecutor \<Rightarrow> 'tool ToolExecutor" where
  "audit_outcome env call fp out ok took err_code ex =
     (case ex_audit ex of
        None \<Rightarrow> ex
      | Some st \<Rightarrow>
          (let e = audit_entry env call fp out ok took err_code
           in ex\<lparr> ex_audit := Some (fst (record_with_id (env_sha256 env) (env_db env e) st e)) \<rparr>))"

definition reset_for_new_turn :: "'tool ToolExecutor \<Rightarrow> 'tool ToolExecutor" where
  "reset_for_new_turn ex =
     ex\<lparr> ex_tracker := foldl reset (ex_tracker ex) (registry_names (ex_registry ex)),
         ex_repeats := clear_repeats (ex_repeats ex) \<rparr>"

text \<open>\<open>Option::get_or_insert_with\<close>\<close>
definition get_or_insert :: "'a option \<Rightarrow> 'a \<Rightarrow> 'a option" where
  "get_or_insert slot x = (case slot of None \<Rightarrow> Some x | Some _ \<Rightarrow> slot)"

definition failed_outcome ::
    "TypedToolCall \<Rightarrow> string \<Rightarrow> duration \<Rightarrow> FailureKind \<Rightarrow> u32 \<Rightarrow> ToolOutcome" where
  "failed_outcome call envelope took kind attempt =
     \<lparr> oc_result = \<lparr> res_call_id = call_id call, res_name = call_name call, res_output = envelope,
                     res_ok = False, res_took = took, res_trust = ''system'' \<rparr>,
       oc_failure_kind = Some kind, oc_repeat_output_notice = None, oc_attempt = attempt \<rparr>"

definition call_fp :: "exec_env \<Rightarrow> TypedToolCall \<Rightarrow> string" where
  "call_fp env call =
     fingerprint (env_to_vec env) (env_sha256 env) (call_name call) (call_arguments call)"

type_synonym 'tool dispatch_state =
  "'tool ToolExecutor \<times> ToolOutcome list \<times> MukeiError option \<times> (TypedToolCall \<times> string) list"

text \<open>A call that is refused before a task is spawned for it.\<close>
definition refuse ::
    "exec_env \<Rightarrow> TypedToolCall \<Rightarrow> string \<Rightarrow> MukeiError \<Rightarrow> FailureKind \<Rightarrow> u32
     \<Rightarrow> 'tool dispatch_state \<Rightarrow> 'tool dispatch_state" where
  "refuse env call fp err kind pre_count st =
     (case st of (ex, outcomes, blocked, handles) \<Rightarrow>
        let envelope = render_tool_error_envelope (call_name call) err kind pre_count
              (threshold (ex_tracker ex))
        in (audit_outcome env call fp envelope False 0 (Some (error_code err)) ex,
            outcomes @ [failed_outcome call envelope 0 kind pre_count],
            get_or_insert blocked err,
            handles))"

definition dispatch_one ::
    "exec_env \<Rightarrow> 'tool dispatch_state \<Rightarrow> TypedToolCall \<Rightarrow> 'tool dispatch_state" where
  "dispatch_one env st call =
     (case st of (ex, outcomes, blocked, handles) \<Rightarrow>
        let fp = call_fp env call;
            pre_count = count_for (ex_tracker ex) (call_name call) fp
        in if pre_count > threshold (ex_tracker ex)
           then refuse env call fp (ToolAbuseBlocked (call_name call)) Abuse pre_count st
           else if registry_get (ex_registry ex) (call_name call) = None
           then refuse env call fp (UnknownTool (call_name call)) Permanent pre_count st
           else (ex, outcomes, blocked, handles @ [(call, fp)]))"

text \<open>What \<open>h.await\<close> yields: the outer sum is the join result, the inner one the task's own.\<close>
definition await_task ::
    "exec_env \<Rightarrow> 'tool ToolRegistry \<Rightarrow> TypedToolCall \<Rightarrow> string + (duration \<times> string result) result" where
  "await_task env reg call =
     (case env_task env call of
        JoinFailed e \<Rightarrow> Inl e
      | GateClosed e \<Rightarrow> Inr (Inl (BlockingJoinFailed (''tool spawn gate closed: '' @ e)))
      | TaskRan took selected \<Rightarrow>
          (case registry_get reg (call_name call) of
             None \<Rightarrow> Inr (Inl (UnknownTool (call_name call)))
           | Some _ \<Rightarrow> Inr (Inr (took, case selected of Some r \<Rightarrow> r | None \<Rightarrow> Inl MukeiError.Cancelled))))"

type_synonym 'tool collect_state = "'tool ToolExecutor \<times> ToolOutcome list \<times> MukeiError option"

definition on_success ::
    "exec_env \<Rightarrow> 'tool collect_state \<Rightarrow> TypedToolCall \<Rightarrow> string \<Rightarrow> duration \<Rightarrow> string
     \<Rightarrow> 'tool collect_state" where
  "on_success env st call fp took out =
     (case st of (ex, outcomes, blocked) \<Rightarrow>
        let tool = call_name call;
            (repeats, no_progress) = record_and_check (env_sha256 env) (ex_repeats ex) tool fp out
              (repeat_output_window (ex_policy ex));
            blocked' = (if no_progress then get_or_insert blocked (ToolAbuseBlocked tool)
                        else blocked);
            repeats' = (if no_progress then forget repeats tool fp else repeats);
            notice = (if no_progress
                      then Some (render_repeat_output_envelope tool
                             (repeat_output_backoff (ex_policy ex)))
                      else None);
            ex' = ex\<lparr> ex_repeats := repeats',
                      ex_tracker := clear_fingerprint (ex_tracker ex) tool fp \<rparr>
        in (audit_outcome env call fp out True took None ex',
            outcomes @ [\<lparr> oc_result = \<lparr> res_call_id = call_id call, res_name = tool,
                            res_output = out, res_ok = True, res_took = took,
                            res_trust = ''computed'' \<rparr>,
                          oc_failure_kind = (if no_progress then Some Abuse else None),
                          oc_repeat_output_notice = notice, oc_attempt = 0 \<rparr>],
            blocked'))"

definition on_failure ::
    "exec_env \<Rightarrow> 'tool collect_state \<Rightarrow> TypedToolCall \<Rightarrow> string \<Rightarrow> duration \<Rightarrow> MukeiError
     \<Rightarrow> 'tool collect_state" where
  "on_failure env st call fp took err =
     (case st of (ex, outcomes, blocked) \<Rightarrow>
        let tool = call_name call;
            kind = classify err;
            (tracker', bumped) =
              (if counts_toward_threshold kind then record_failure (ex_tracker ex) tool fp
               else (ex_tracker ex, False));
            attempt = count_for tracker' tool fp;
            repeats' = (if bumped then forget (ex_repeats ex) tool fp else ex_repeats ex);
            blocked1 = (if bumped then get_or_insert blocked (ToolAbuseBlocked tool) else blocked);
            blocked2 = (if is_instant_block kind
                        then get_or_insert blocked1 (ToolAbuseBlocked tool) else blocked1);
            envelope = render_tool_error_envelope tool err kind attempt (threshold tracker');
            ex' = ex\<lparr> ex_tracker := tracker', ex_repeats := repeats' \<rparr>
        in (audit_outcome env call fp envelope False took (Some (error_code err)) ex',
            outcomes @ [failed_outcome call envelope took kind attempt],
            blocked2))"

fun collect ::
    "exec_env \<Rightarrow> 'tool collect_state \<Rightarrow> (TypedToolCall \<times> string) list
     \<Rightarrow> 'tool ToolExecutor \<times> (ToolOutcome list \<times> MukeiError option) result" where
  "collect env (ex, outcomes, blocked) [] = (ex, Inr (outcomes, blocked))"
| "collect env (ex, outcomes, blocked) ((call, fp) # handles) =
     (case await_task env (ex_registry ex) call of
        Inr (Inr (took, Inr out)) \<Rightarrow>
          collect env (on_success env (ex, outcomes, blocked) call fp took out) handles
      | Inr (Inr (took, Inl err)) \<Rightarrow>
          collect env (on_failure env (ex, outcomes, blocked) call fp took err) handles
      | Inr (Inl e) \<Rightarrow> (ex, Inl e)
      | Inl e \<Rightarrow> (ex, Inl (BlockingJoinFailed e)))"

definition execute_parallel ::
    "exec_env \<Rightarrow> 'tool ToolExecutor \<Rightarrow> TypedToolCall list
     \<Rightarrow> 'tool ToolExecutor \<times> (ToolOutcome list \<times> MukeiError option) result" where
  "execute_parallel env ex calls =
     (case foldl (dispatch_one env) (ex, [], None, []) calls of
        (ex', outcomes, blocked, handles) \<Rightarrow> collect env (ex', outcomes, blocked) handles)"


section \<open>The first loop\<close>

definition refused :: "exec_env \<Rightarrow> 'tool ToolExecutor \<Rightarrow> TypedToolCall \<Rightarrow> bool" where
  "refused env ex call \<longleftrightarrow>
     count_for (ex_tracker ex) (call_name call) (call_fp env call) > threshold (ex_tracker ex) \<or>
     registry_get (ex_registry ex) (call_name call) = None"

text \<open>The audit log after a list of entries, each written or refused by the database.\<close>
definition audit_all ::
    "exec_env \<Rightarrow> AuditEntry list \<Rightarrow> 'tool ToolExecutor \<Rightarrow> 'tool ToolExecutor" where
  "audit_all env es ex =
     ex\<lparr> ex_audit := map_option (\<lambda>st. record_entries (env_sha256 env) st
                       (map (\<lambda>e. (env_db env e, e)) es)) (ex_audit ex) \<rparr>"

lemma record_entries_append:
  "record_entries sha st (xs @ ys) = record_entries sha (record_entries sha st xs) ys"
  by (induction sha st xs rule: record_entries.induct) auto

lemma audit_all_Nil [simp]: "audit_all env [] ex = ex"
  by (cases "ex_audit ex") (simp_all add: audit_all_def)

lemma audit_all_append: "audit_all env (xs @ ys) ex = audit_all env ys (audit_all env xs ex)"
  by (simp add: audit_all_def record_entries_append option.map_comp comp_def)

lemma audit_outcome_all:
  "audit_outcome env call fp out ok took c ex = audit_all env [audit_entry env call fp out ok took c] ex"
  by (cases "ex_audit ex") (simp_all add: audit_outcome_def audit_all_def Let_def)

lemma audit_all_fields [simp]:
  "ex_registry (audit_all env es ex) = ex_registry ex"
  "ex_tracker (audit_all env es ex) = ex_tracker ex"
  "ex_repeats (audit_all env es ex) = ex_repeats ex"
  "ex_policy (audit_all env es ex) = ex_policy ex"
  "refused env (audit_all env es ex) = refused env ex"
  by (simp_all add: audit_all_def refused_def fun_eq_iff)

text \<open>What an outcome and the audit entry written for it have in common.\<close>
definition audited :: "AuditEntry \<Rightarrow> ToolOutcome \<Rightarrow> bool" where
  "audited e oc \<longleftrightarrow>
     ae_tool_call_id e = res_call_id (oc_result oc) \<and> ae_tool_name e = res_name (oc_result oc) \<and>
     ae_result_preview e = res_output (oc_result oc) \<and> ae_success e = res_ok (oc_result oc)"

text \<open>The outcomes that make the executor report the batch as blocked.\<close>
definition outcome_blocks :: "u32 \<Rightarrow> ToolOutcome \<Rightarrow> bool" where
  "outcome_blocks limit oc \<longleftrightarrow>
     (case oc_failure_kind oc of
        None \<Rightarrow> False
      | Some k \<Rightarrow> is_instant_block k \<or> counts_toward_threshold k \<and> oc_attempt oc > limit)"

definition outcome_id :: "ToolOutcome \<Rightarrow> string" where
  "outcome_id oc = res_call_id (oc_result oc)"

lemma get_or_insert_simps [simp]:
  "get_or_insert b x \<noteq> None" "get_or_insert b x = None \<longleftrightarrow> False"
  by (auto simp: get_or_insert_def split: option.splits)

lemma refuse_spec:
  assumes "is_instant_block kind"
  shows "\<exists>e oc b'. refuse env call fp err kind n (ex, os, b, hs) = (audit_all env [e] ex, os @ [oc], b', hs) \<and>
     audited e oc \<and> outcome_id oc = call_id call \<and> outcome_blocks (threshold (ex_tracker ex)) oc \<and>
     b' \<noteq> None"
proof -
  let ?out = "render_tool_error_envelope (call_name call) err kind n (threshold (ex_tracker ex))"
  let ?e = "audit_entry env call fp ?out False 0 (Some (error_code err))"
  let ?oc = "failed_outcome call ?out 0 kind n"
  have "refuse env call fp err kind n (ex, os, b, hs) =
      (audit_all env [?e] ex, os @ [?oc], get_or_insert b err, hs)"
    by (simp add: refuse_def audit_outcome_all Let_def)
  moreover have "audited ?e ?oc" by (simp add: audited_def audit_entry_def failed_outcome_def)
  moreover have "outcome_id ?oc = call_id call" "outcome_blocks (threshold (ex_tracker ex)) ?oc"
    using assms by (simp_all add: outcome_id_def outcome_blocks_def failed_outcome_def)
  ultimately show ?thesis using get_or_insert_simps(1) by metis
qed

lemma refuse_one:
  assumes "refused env ex call"
  shows "\<exists>e oc b'. dispatch_one env (ex, os, b, hs) call = (audit_all env [e] ex, os @ [oc], b', hs) \<and>
     audited e oc \<and> outcome_id oc = call_id call \<and> outcome_blocks (threshold (ex_tracker ex)) oc \<and>
     b' \<noteq> None"
proof -
  let ?n = "count_for (ex_tracker ex) (call_name call) (call_fp env call)"
  show ?thesis
  proof (cases "?n > threshold (ex_tracker ex)")
    case True
    then have eq: "dispatch_one env (ex, os, b, hs) call = refuse env call (call_fp env call)
        (ToolAbuseBlocked (call_name call)) Abuse ?n (ex, os, b, hs)"
      by (simp add: dispatch_one_def Let_def)
    show ?thesis unfolding eq by (rule refuse_spec) (simp add: is_instant_block_def)
  next
    case False
    with assms have eq: "dispatch_one env (ex, os, b, hs) call = refuse env call (call_fp env call)
        (UnknownTool (call_name call)) Permanent ?n (ex, os, b, hs)"
      by (simp add: dispatch_one_def Let_def refused_def)
    show ?thesis unfolding eq by (rule refuse_spec) (simp add: is_instant_block_def)
  qed
qed

lemma spawn_one:
  "\<not> refused env ex call \<Longrightarrow>
     dispatch_one env (ex, os, b, hs) call = (ex, os, b, hs @ [(call, call_fp env call)])"
  by (auto simp: dispatch_one_def refused_def Let_def)

definition handles_of :: "exec_env \<Rightarrow> 'tool ToolExecutor \<Rightarrow> TypedToolCall list \<Rightarrow> (TypedToolCall \<times> string) list" where
  "handles_of env ex calls = map (\<lambda>c. (c, call_fp env c)) (filter (\<lambda>c. \<not> refused env ex c) calls)"

lemma dispatch_all:
  "\<exists>es os' b'. foldl (dispatch_one env) (ex, os, b, hs) calls =
       (audit_all env es ex, os @ os', b', hs @ handles_of env ex calls) \<and>
     list_all2 audited es os' \<and> map outcome_id os' = map call_id (filter (refused env ex) calls) \<and>
     list_all (outcome_blocks (threshold (ex_tracker ex))) os' \<and>
     (b' = None \<longleftrightarrow> b = None \<and> os' = [])"
proof (induction calls arbitrary: ex os b hs)
  case Nil
  show ?case by (intro exI [of _ "[]"] exI [of _ b]) (simp add: handles_of_def)
next
  case (Cons call calls)
  show ?case
  proof (cases "refused env ex call")
    case True
    from refuse_one [OF True] obtain e oc b1 where one:
      "dispatch_one env (ex, os, b, hs) call = (audit_all env [e] ex, os @ [oc], b1, hs)"
      "audited e oc" "outcome_id oc = call_id call"
      "outcome_blocks (threshold (ex_tracker ex)) oc" "b1 \<noteq> None" by blast
    from Cons.IH [of "audit_all env [e] ex" "os @ [oc]" b1 hs] obtain es os' b' where
      "foldl (dispatch_one env) (audit_all env [e] ex, os @ [oc], b1, hs) calls =
         (audit_all env es (audit_all env [e] ex), (os @ [oc]) @ os', b', hs @ handles_of env ex calls)"
      "list_all2 audited es os'" "map outcome_id os' = map call_id (filter (refused env ex) calls)"
      "list_all (outcome_blocks (threshold (ex_tracker ex))) os'" "b' = None \<longleftrightarrow> b1 = None \<and> os' = []"
      by (auto simp: handles_of_def)
    with one True show ?thesis
      by (intro exI [of _ "e # es"] exI [of _ "oc # os'"] exI [of _ b'])
        (simp add: handles_of_def audit_all_append [of env "[e]" es ex, simplified])
  next
    case False
    from Cons.IH [of ex os b "hs @ [(call, call_fp env call)]"] False spawn_one [OF False]
    show ?thesis by (auto simp: handles_of_def)
  qed
qed

section \<open>The second loop\<close>

definition counters :: "FailureTracker \<Rightarrow> string \<times> string \<Rightarrow> u32" where
  "counters tr = (\<lambda>(t, f). count_for tr t f)"

lemma counters_record: "counters (fst (record_failure tr t f)) = (counters tr)((t, f) := counters tr (t, f) + 1)"
  by (auto simp: counters_def tracker.count_record)

lemma counters_clear: "counters (clear_fingerprint tr t f) = (counters tr)((t, f) := 0)"
  by (auto simp: counters_def tracker.count_clear)

text \<open>The effect of one joined task on a plain table of counters.\<close>
definition settle_counter ::
    "(string \<times> string \<Rightarrow> u32) \<Rightarrow> string \<times> string \<Rightarrow> string result \<Rightarrow> (string \<times> string \<Rightarrow> u32)" where
  "settle_counter c p r =
     (case r of
        Inr out \<Rightarrow> c(p := 0)
      | Inl err \<Rightarrow> if counts_toward_threshold (classify err) then c(p := c p + 1) else c)"

fun tally ::
    "exec_env \<Rightarrow> 'tool ToolRegistry \<Rightarrow> (TypedToolCall \<times> string) list \<Rightarrow> (string \<times> string \<Rightarrow> u32)
     \<Rightarrow> (string \<times> string \<Rightarrow> u32)" where
  "tally env reg [] c = c"
| "tally env reg ((call, fp) # hs) c =
     (case await_task env reg call of
        Inr (Inr (took, r)) \<Rightarrow> tally env reg hs (settle_counter c (call_name call, fp) r)
      | _ \<Rightarrow> c)"

definition settle ::
    "exec_env \<Rightarrow> 'tool collect_state \<Rightarrow> TypedToolCall \<Rightarrow> string \<Rightarrow> duration \<Rightarrow> string result
     \<Rightarrow> 'tool collect_state" where
  "settle env st call fp took r =
     (case r of Inr out \<Rightarrow> on_success env st call fp took out
      | Inl err \<Rightarrow> on_failure env st call fp took err)"

text \<open>What one settled task does to the state, whatever its result.\<close>
definition settled ::
    "exec_env \<Rightarrow> 'tool collect_state \<Rightarrow> TypedToolCall \<Rightarrow> string \<Rightarrow> string result
     \<Rightarrow> 'tool collect_state \<Rightarrow> bool" where
  "settled env st call fp r st' \<longleftrightarrow>
     (case st of (ex, os, b) \<Rightarrow> case st' of (ex', os', b') \<Rightarrow>
       (\<exists>oc e. os' = os @ [oc] \<and> outcome_id oc = call_id call \<and> audited e oc \<and>
          (b' = None \<longleftrightarrow> b = None \<and> \<not> outcome_blocks (threshold (ex_tracker ex)) oc) \<and>
          ex_audit ex' = ex_audit (audit_all env [e] ex) \<and>
          ex_registry ex' = ex_registry ex \<and> ex_policy ex' = ex_policy ex \<and>
          threshold (ex_tracker ex') = threshold (ex_tracker ex) \<and>
          counters (ex_tracker ex') = settle_counter (counters (ex_tracker ex)) (call_name call, fp) r))"

lemma settledI:
  assumes "st' = (audit_outcome env call fp out ok took c ex1, os @ [oc], b')"
    and "ex_audit ex1 = ex_audit ex" and "ex_registry ex1 = ex_registry ex"
    and "ex_policy ex1 = ex_policy ex"
    and "threshold (ex_tracker ex1) = threshold (ex_tracker ex)"
    and "counters (ex_tracker ex1) = settle_counter (counters (ex_tracker ex)) (call_name call, fp) r"
    and "outcome_id oc = call_id call" and "res_name (oc_result oc) = call_name call"
    and "res_output (oc_result oc) = out" and "res_ok (oc_result oc) = ok"
    and "b' = None \<longleftrightarrow> b = None \<and> \<not> outcome_blocks (threshold (ex_tracker ex)) oc"
  shows "settled env (ex, os, b) call fp r st'"
proof -
  let ?e = "audit_entry env call fp out ok took c"
  have "audited ?e oc"
    using assms(7-10) by (simp add: audited_def audit_entry_def outcome_id_def)
  moreover have "ex_audit (audit_all env [?e] ex1) = ex_audit (audit_all env [?e] ex)"
    using assms(2) by (simp add: audit_all_def)
  ultimately show ?thesis
    using assms unfolding settled_def audit_outcome_all by simp blast
qed

lemma on_success_settled:
  "settled env (ex, os, b) call fp (Inr out) (on_success env (ex, os, b) call fp took out)"
proof -
  obtain rp stuck where rep: "record_and_check (env_sha256 env) (ex_repeats ex) (call_name call) fp out
      (repeat_output_window (ex_policy ex)) = (rp, stuck)" by fastforce
  show ?thesis
    unfolding on_success_def rep Let_def prod.case
    by (rule settledI, rule refl)
      (simp_all add: outcome_id_def outcome_blocks_def is_instant_block_def settle_counter_def
        counters_clear tracker.limit_clear)
qed

lemma on_failure_settled:
  "settled env (ex, os, b) call fp (Inl err) (on_failure env (ex, os, b) call fp took err)"
proof -
  let ?k = "classify err"
  obtain tr' bumped where rec: "(if counts_toward_threshold ?k
      then record_failure (ex_tracker ex) (call_name call) fp else (ex_tracker ex, False)) = (tr', bumped)"
    by fastforce
  have limit: "threshold tr' = threshold (ex_tracker ex)"
    using tracker.limit_record [of "ex_tracker ex" "call_name call" fp] rec
    by (auto split: if_splits)
  have over: "bumped \<longleftrightarrow> counts_toward_threshold ?k \<and>
      count_for tr' (call_name call) fp > threshold (ex_tracker ex)"
    using tracker.record_flag [of "ex_tracker ex" "call_name call" fp]
      tracker.count_record [of "ex_tracker ex" "call_name call" fp "call_name call" fp] rec
    by (auto split: if_splits)
  have tally: "counters tr' = settle_counter (counters (ex_tracker ex)) (call_name call, fp) (Inl err)"
    using counters_record [of "ex_tracker ex" "call_name call" fp] rec
    by (auto simp: settle_counter_def split: if_splits)
  show ?thesis
    unfolding on_failure_def rec Let_def prod.case
    by (rule settledI, rule refl)
      (use over in \<open>auto simp: limit tally outcome_id_def outcome_blocks_def failed_outcome_def\<close>)
qed

lemma settle_settled: "settled env (ex, os, b) call fp r (settle env (ex, os, b) call fp took r)"
  by (cases r) (simp_all add: settle_def on_success_settled on_failure_settled)

lemma collect_Cons:
  "collect env (ex, os, b) ((call, fp) # hs) =
     (case await_task env (ex_registry ex) call of
        Inr (Inr (took, r)) \<Rightarrow> collect env (settle env (ex, os, b) call fp took r) hs
      | Inr (Inl e) \<Rightarrow> (ex, Inl e)
      | Inl e \<Rightarrow> (ex, Inl (BlockingJoinFailed e)))"
  by (auto simp: settle_def split: sum.split)

lemma await_task_registered:
  "registry_get reg (call_name call) \<noteq> None \<Longrightarrow>
     (\<exists>e. await_task env reg call = Inl e) \<or> (\<exists>e. await_task env reg call = Inr (Inl (BlockingJoinFailed e))) \<or>
     (\<exists>took r. await_task env reg call = Inr (Inr (took, r)))"
  by (auto simp: await_task_def split: TaskEvent.split)


lemma collect_contract:
  "\<exists>es os'. ex_audit (fst (collect env (ex, os, b) hs)) = ex_audit (audit_all env es ex) \<and>
     ex_registry (fst (collect env (ex, os, b) hs)) = ex_registry ex \<and>
     counters (ex_tracker (fst (collect env (ex, os, b) hs))) =
       tally env (ex_registry ex) hs (counters (ex_tracker ex)) \<and>
     (case snd (collect env (ex, os, b) hs) of
        Inl e \<Rightarrow> list_all (\<lambda>(c, f). registry_get (ex_registry ex) (call_name c) \<noteq> None) hs \<longrightarrow>
                  (\<exists>m. e = BlockingJoinFailed m)
      | Inr (os1, b1) \<Rightarrow>
          os1 = os @ os' \<and> list_all2 audited es os' \<and>
          map outcome_id os' = map (\<lambda>(c, f). call_id c) hs \<and>
          (b1 = None \<longleftrightarrow> b = None \<and> \<not> list_ex (outcome_blocks (threshold (ex_tracker ex))) os'))"
  (is "\<exists>es os'. ?P ex os b hs es os'")
proof (induction hs arbitrary: ex os b)
  case Nil
  show ?case by (intro exI [of _ "[]"]) simp
next
  case (Cons h hs)
  obtain call fp where h: "h = (call, fp)" by fastforce
  show ?case
  proof (cases "\<exists>took r. await_task env (ex_registry ex) call = Inr (Inr (took, r))")
    case True
    then obtain took r where aw: "await_task env (ex_registry ex) call = Inr (Inr (took, r))" by blast
    obtain ex1 os1 b1 where st: "settle env (ex, os, b) call fp took r = (ex1, os1, b1)"
      by (metis prod_cases3)
    from settle_settled [of env ex os b call fp r took] st obtain oc e where
      s: "os1 = os @ [oc]" "outcome_id oc = call_id call" "audited e oc"
         "b1 = None \<longleftrightarrow> b = None \<and> \<not> outcome_blocks (threshold (ex_tracker ex)) oc"
         "ex_audit ex1 = ex_audit (audit_all env [e] ex)" "ex_registry ex1 = ex_registry ex"
         "threshold (ex_tracker ex1) = threshold (ex_tracker ex)"
         "counters (ex_tracker ex1) = settle_counter (counters (ex_tracker ex)) (call_name call, fp) r"
      unfolding settled_def by auto
    have step: "collect env (ex, os, b) (h # hs) = collect env (ex1, os1, b1) hs"
      unfolding h collect_Cons aw by (simp add: st)
    from Cons.IH [of ex1 os1 b1] obtain es os' where IH: "?P ex1 os1 b1 hs es os'" by blast
    have "ex_audit (audit_all env es ex1) = ex_audit (audit_all env (e # es) ex)"
      using s(5) audit_all_append [of env "[e]" es ex] by (simp add: audit_all_def)
    moreover have "tally env (ex_registry ex) (h # hs) (counters (ex_tracker ex)) =
        tally env (ex_registry ex1) hs (counters (ex_tracker ex1))"
      by (simp add: h aw s(6,8))
    moreover have "list_all2 audited (e # es) (oc # os') = list_all2 audited es os'"
      "map (\<lambda>(c, f). call_id c) (h # hs) = outcome_id oc # map (\<lambda>(c, f). call_id c) hs"
      using s(2,3) by (simp_all add: h)
    ultimately have "?P ex os b (h # hs) (e # es) (oc # os')"
      unfolding step using IH s(1,4,6,7)
      by (cases "snd (collect env (ex1, os1, b1) hs)") (auto simp del: tally.simps)
    then show ?thesis by blast
  next
    case False
    with await_task_registered [of "ex_registry ex" call env]
    have "?P ex os b (h # hs) [] []"
      unfolding h collect_Cons by (auto split: sum.splits prod.splits)
    then show ?thesis by blast
  qed
qed

lemma execute_parallel_contract:
  "\<exists>es. ex_audit (fst (execute_parallel env ex calls)) = ex_audit (audit_all env es ex) \<and>
     ex_registry (fst (execute_parallel env ex calls)) = ex_registry ex \<and>
     counters (ex_tracker (fst (execute_parallel env ex calls))) =
       tally env (ex_registry ex) (handles_of env ex calls) (counters (ex_tracker ex)) \<and>
     (case snd (execute_parallel env ex calls) of
        Inl e \<Rightarrow> \<exists>m. e = BlockingJoinFailed m
      | Inr (os, b) \<Rightarrow>
          list_all2 audited es os \<and>
          map outcome_id os = map call_id (filter (refused env ex) calls @
                                filter (\<lambda>c. \<not> refused env ex c) calls) \<and>
          (b \<noteq> None \<longleftrightarrow> list_ex (outcome_blocks (threshold (ex_tracker ex))) os))"
proof -
  from dispatch_all [of env ex "[]" None "[]" calls] obtain es os b where
    d: "foldl (dispatch_one env) (ex, [], None, []) calls =
         (audit_all env es ex, os, b, handles_of env ex calls)"
       "list_all2 audited es os" "map outcome_id os = map call_id (filter (refused env ex) calls)"
       "list_all (outcome_blocks (threshold (ex_tracker ex))) os" "b = None \<longleftrightarrow> os = []"
    by auto
  let ?ex1 = "audit_all env es ex" and ?hs = "handles_of env ex calls"
  have exec: "execute_parallel env ex calls = collect env (?ex1, os, b) ?hs"
    by (simp add: execute_parallel_def d)
  have reg: "list_all (\<lambda>(c, f). registry_get (ex_registry ex) (call_name c) \<noteq> None) ?hs"
    by (auto simp: handles_of_def list_all_iff refused_def)
  have ids: "map (\<lambda>(c, f). call_id c) ?hs = map call_id (filter (\<lambda>c. \<not> refused env ex c) calls)"
    by (simp add: handles_of_def)
  have blocks: "list_ex (outcome_blocks (threshold (ex_tracker ex))) os \<longleftrightarrow> os \<noteq> []"
    using d(4) by (cases os) auto
  from collect_contract [of env ?ex1 os b ?hs] obtain es2 os2 where
    c: "ex_audit (fst (collect env (?ex1, os, b) ?hs)) = ex_audit (audit_all env es2 ?ex1)"
       "ex_registry (fst (collect env (?ex1, os, b) ?hs)) = ex_registry ex"
       "counters (ex_tracker (fst (collect env (?ex1, os, b) ?hs))) =
          tally env (ex_registry ex) ?hs (counters (ex_tracker ex))"
       "case snd (collect env (?ex1, os, b) ?hs) of
          Inl e \<Rightarrow> list_all (\<lambda>(c, f). registry_get (ex_registry ex) (call_name c) \<noteq> None) ?hs \<longrightarrow>
                    (\<exists>m. e = BlockingJoinFailed m)
        | Inr (os1, b1) \<Rightarrow>
            os1 = os @ os2 \<and> list_all2 audited es2 os2 \<and>
            map outcome_id os2 = map (\<lambda>(c, f). call_id c) ?hs \<and>
            (b1 = None \<longleftrightarrow> b = None \<and> \<not> list_ex (outcome_blocks (threshold (ex_tracker ex))) os2)"
    unfolding audit_all_fields by blast
  show ?thesis
    unfolding exec
    by (rule exI [of _ "es @ es2"])
      (use c d(2,3,5) reg ids blocks in \<open>auto simp: audit_all_append list_all2_appendI
        split: sum.splits prod.splits\<close>)
qed


section \<open>Independence\<close>

text \<open>Two states that agree on everything the executor reads besides the audit log.\<close>
definition same_but_audit :: "'tool ToolExecutor \<Rightarrow> 'tool ToolExecutor \<Rightarrow> bool" where
  "same_but_audit ex ex' \<longleftrightarrow>
     ex_registry ex' = ex_registry ex \<and> ex_tracker ex' = ex_tracker ex \<and>
     ex_repeats ex' = ex_repeats ex \<and> ex_policy ex' = ex_policy ex"

lemma settle_db:
  assumes "same_but_audit ex ex'"
  shows "same_but_audit (fst (settle env (ex, os, b) call fp took r))
      (fst (settle (env\<lparr> env_db := d \<rparr>) (ex', os, b) call fp took r)) \<and>
    snd (settle (env\<lparr> env_db := d \<rparr>) (ex', os, b) call fp took r) =
      snd (settle env (ex, os, b) call fp took r)"
  using assms
  by (cases r) (simp_all add: same_but_audit_def settle_def on_success_def on_failure_def Let_def
      audit_outcome_all split: prod.split)

lemma collect_db:
  "same_but_audit ex ex' \<Longrightarrow>
     snd (collect (env\<lparr> env_db := d \<rparr>) (ex', os, b) hs) = snd (collect env (ex, os, b) hs)"
proof (induction hs arbitrary: ex ex' os b)
  case (Cons h hs)
  obtain call fp where h: "h = (call, fp)" by fastforce
  have aw: "await_task (env\<lparr> env_db := d \<rparr>) (ex_registry ex') call = await_task env (ex_registry ex) call"
    using Cons.prems by (simp add: await_task_def same_but_audit_def)
  have "snd (collect (env\<lparr> env_db := d \<rparr>) (settle (env\<lparr> env_db := d \<rparr>) (ex', os, b) call fp took r) hs) =
      snd (collect env (settle env (ex, os, b) call fp took r) hs)" for took r
    using settle_db [OF Cons.prems, of env os b call fp took r d] Cons.IH by (metis prod.collapse)
  then show ?case unfolding h collect_Cons aw by (simp split: sum.split)
qed simp

lemma dispatch_db:
  assumes "same_but_audit ex ex'"
  shows "same_but_audit (fst (dispatch_one env (ex, os, b, hs) call))
      (fst (dispatch_one (env\<lparr> env_db := d \<rparr>) (ex', os, b, hs) call)) \<and>
    snd (dispatch_one (env\<lparr> env_db := d \<rparr>) (ex', os, b, hs) call) =
      snd (dispatch_one env (ex, os, b, hs) call)"
  using assms
  by (simp add: same_but_audit_def dispatch_one_def refuse_def call_fp_def Let_def audit_outcome_all)

lemma dispatch_all_db:
  "same_but_audit ex ex' \<Longrightarrow>
     same_but_audit (fst (foldl (dispatch_one env) (ex, s) calls))
       (fst (foldl (dispatch_one (env\<lparr> env_db := d \<rparr>)) (ex', s) calls)) \<and>
     snd (foldl (dispatch_one (env\<lparr> env_db := d \<rparr>)) (ex', s) calls) =
       snd (foldl (dispatch_one env) (ex, s) calls)"
proof (induction calls arbitrary: ex ex' s)
  case (Cons call calls)
  obtain os b hs where s: "s = (os, b, hs)" by (metis prod_cases3)
  show ?case
    using dispatch_db [OF Cons.prems, of env os b hs call d] Cons.IH unfolding s
    by (simp, metis prod.collapse)
qed simp

lemma audit_entry_task [simp]: "audit_entry (env\<lparr> env_task := t \<rparr>) = audit_entry env"
  by (simp add: fun_eq_iff audit_entry_def)

lemma env_task_update [simp]:
  "audit_outcome (env\<lparr> env_task := t \<rparr>) = audit_outcome env"
  "call_fp (env\<lparr> env_task := t \<rparr>) = call_fp env"
  by (simp_all add: fun_eq_iff audit_outcome_def call_fp_def Let_def split: option.split)

lemma refuse_task [simp]: "refuse (env\<lparr> env_task := t \<rparr>) = refuse env"
  by (simp add: fun_eq_iff refuse_def)

lemma collect_task_cong:
  "\<forall>c \<in> fst ` set hs. t c = env_task env c \<Longrightarrow>
     collect (env\<lparr> env_task := t \<rparr>) st hs = collect env st hs"
proof (induction hs arbitrary: st)
  case Nil
  show ?case by (metis collect.simps(1) prod_cases3)
next
  case (Cons h hs)
  obtain call fp where h: "h = (call, fp)" by fastforce
  obtain ex os b where st: "st = (ex, os, b)" by (metis prod_cases3)
  have aw: "await_task (env\<lparr> env_task := t \<rparr>) (ex_registry ex) call = await_task env (ex_registry ex) call"
    using Cons.prems h by (simp add: await_task_def)
  have se: "settle (env\<lparr> env_task := t \<rparr>) (ex, os, b) call fp took r = settle env (ex, os, b) call fp took r" for took r
    by (cases r) (simp_all add: settle_def on_success_def on_failure_def)
  from Cons.prems have "\<forall>c \<in> fst ` set hs. t c = env_task env c" by simp
  note IH = Cons.IH [OF this]
  show ?case unfolding h st collect_Cons aw se IH ..
qed

lemma dispatch_one_task: "dispatch_one (env\<lparr> env_task := t \<rparr>) = dispatch_one env"
  by (simp add: fun_eq_iff dispatch_one_def Let_def)


section \<open>Properties\<close>

text \<open>
  One outcome per call. A batch that completes returns exactly one outcome for every call: the
  refused calls first, in order, then the dispatched ones in order; and the only way a batch does
  not complete is that a spawned task could not be joined.
\<close>
theorem exec_one_outcome_per_call:
  "case snd (execute_parallel env ex calls) of
     Inl e \<Rightarrow> \<exists>m. e = BlockingJoinFailed m
   | Inr (outs, b) \<Rightarrow>
       map outcome_id outs =
         map call_id (filter (refused env ex) calls @ filter (\<lambda>c. \<not> refused env ex c) calls)"
  using execute_parallel_contract [of env ex calls] by (auto split: sum.splits prod.splits)

text \<open>
  C6: the blocked flag is exact. A completed batch reports a block precisely when one of its
  outcomes is a permanent or abuse failure (refused calls and no-progress successes included), or
  a counted failure whose attempt number exceeds the threshold; cancellations never block.
\<close>
theorem exec_blocked_exactly:
  "case snd (execute_parallel env ex calls) of
     Inl e \<Rightarrow> True
   | Inr (outs, b) \<Rightarrow>
       b \<noteq> None \<longleftrightarrow> list_ex (outcome_blocks (threshold (ex_tracker ex))) outs"
  using execute_parallel_contract [of env ex calls] by (auto split: sum.splits prod.splits)

text \<open>
  A refused call never runs. The result and the final state do not depend on what the task of
  a call would have done when that call is over its failure threshold or names no registered tool.
\<close>
theorem exec_refused_calls_never_run:
  "execute_parallel (env\<lparr> env_task := (\<lambda>c. if refused env ex c then t c else env_task env c) \<rparr>) ex calls
   = execute_parallel env ex calls"
proof -
  let ?t = "\<lambda>c. if refused env ex c then t c else env_task env c"
  from dispatch_all [of env ex "[]" None "[]" calls] obtain es os b where
    d: "foldl (dispatch_one env) (ex, [], None, []) calls =
         (audit_all env es ex, os, b, handles_of env ex calls)" by auto
  have "collect (env\<lparr> env_task := ?t \<rparr>) st (handles_of env ex calls) = collect env st (handles_of env ex calls)" for st
    by (rule collect_task_cong) (auto simp: handles_of_def)
  then show ?thesis by (simp add: execute_parallel_def dispatch_one_task d)
qed

text \<open>
  C38: the failure accounting of a batch. Seen as one counter per (tool, fingerprint), the tracker
  ends as if the joined tasks had been applied in order to a plain table: a success zeroes its
  pair, a transient, validation or timeout failure increments it, and a cancellation, permanent or
  abuse failure leaves every counter as it was.
\<close>
theorem exec_tracker_refines_tally:
  "counters (ex_tracker (fst (execute_parallel env ex calls))) =
     tally env (ex_registry ex) (handles_of env ex calls) (counters (ex_tracker ex))"
  using execute_parallel_contract [of env ex calls] by blast

text \<open>
  every outcome is audited. The audit log after a completed batch is the log before it with
  one entry recorded per outcome, in the same order and with that outcome's call id, tool name,
  output and success flag (each entry present unless the database refused it).
\<close>
theorem exec_every_outcome_audited:
  "case snd (execute_parallel env ex calls) of
     Inl e \<Rightarrow> True
   | Inr (outs, b) \<Rightarrow>
       (\<exists>es. list_all2 audited es outs \<and>
          ex_audit (fst (execute_parallel env ex calls)) =
            map_option (\<lambda>st. record_entries (env_sha256 env) st (map (\<lambda>e. (env_db env e, e)) es))
              (ex_audit ex))"
  using execute_parallel_contract [of env ex calls]
  by (cases "snd (execute_parallel env ex calls)") (auto simp: audit_all_def)

text \<open>
  audit failures never reach the user. The outcomes and the block of a batch are the same
  whatever the database answers to the audit writes, and whatever audit log is attached.
\<close>
theorem exec_independent_of_audit:
  "snd (execute_parallel (env\<lparr> env_db := d \<rparr>) (ex\<lparr> ex_audit := a \<rparr>) calls) =
   snd (execute_parallel env ex calls)"
proof -
  have "same_but_audit ex (ex\<lparr> ex_audit := a \<rparr>)" by (simp add: same_but_audit_def)
  from dispatch_all_db [OF this, of env "([], None, [])" calls d] show ?thesis
    by (auto simp: execute_parallel_def collect_db split: prod.splits)
qed

text \<open>No counter is kept for a tool outside the registry.\<close>
definition tracks_registered :: "'tool ToolExecutor \<Rightarrow> bool" where
  "tracks_registered ex \<longleftrightarrow>
     (\<forall>t f. registry_get (ex_registry ex) t = None \<longrightarrow> count_for (ex_tracker ex) t f = 0)"

lemma tally_unregistered:
  assumes "registry_get reg t = None"
  shows "tally env reg hs c (t, f) = c (t, f)"
proof (induction hs arbitrary: c)
  case (Cons h hs)
  obtain call fp where h: "h = (call, fp)" by fastforce
  have "settle_counter c (call_name call, fp) r (t, f) = c (t, f)"
    if "await_task env reg call = Inr (Inr (took, r))" for took r
    using that assms
    by (auto simp: settle_counter_def await_task_def split: TaskEvent.splits option.splits sum.splits)
  with Cons.IH show ?case by (auto simp: h split: sum.split)
qed simp

lemma count_foldl_reset:
  "count_for (foldl reset tr names) t f = (if t \<in> set names then 0 else count_for tr t f)"
  by (induction names arbitrary: tr) (auto simp: tracker.count_reset)

text \<open>
  nothing leaks into the next turn. Batches only ever count failures of registered tools, so
  \<open>reset_for_new_turn\<close>, which walks the registry, leaves every failure counter at zero and every
  repeat ring empty.
\<close>
theorem exec_turn_reset_complete:
  assumes "tracks_registered ex"
  shows "tracks_registered (fst (execute_parallel env ex calls)) \<and>
    (\<forall>t f. count_for (ex_tracker (reset_for_new_turn (fst (execute_parallel env ex calls)))) t f = 0 \<and>
           ring_of (ex_repeats (reset_for_new_turn (fst (execute_parallel env ex calls)))) t f = [])"
proof -
  let ?ex' = "fst (execute_parallel env ex calls)"
  from execute_parallel_contract [of env ex calls] have
    "ex_registry ?ex' = ex_registry ex" and
    cnt: "counters (ex_tracker ?ex') = tally env (ex_registry ex) (handles_of env ex calls) (counters (ex_tracker ex))"
    by blast+
  moreover have "count_for (ex_tracker ?ex') t f = 0" if "registry_get (ex_registry ex) t = None" for t f
    using fun_cong [OF cnt, of "(t, f)"] tally_unregistered [OF that] assms that
    by (simp add: counters_def tracks_registered_def)
  ultimately have keep: "tracks_registered ?ex'" by (simp add: tracks_registered_def)
  moreover have "t \<notin> set (registry_names r) \<longleftrightarrow> registry_get r t = None" for r :: "'a ToolRegistry" and t
    by (simp add: registry_names_def registry_get_def map_of_eq_None_iff)
  ultimately show ?thesis
    by (simp add: reset_for_new_turn_def count_foldl_reset tracks_registered_def)
qed

theorem exec_turn_reset_complete_witness:
  "count_for (ex_tracker (reset_for_new_turn (fst (execute_parallel
     \<lparr> env_to_vec = (\<lambda>_. None), env_to_string = (\<lambda>_. None), env_sha256 = (\<lambda>s. s),
       env_task = (\<lambda>_. JoinFailed []), env_db = (\<lambda>_. Inr 0) \<rparr>
     (with_policy (temporary_chat () ()) new_tracker default_policy) [])))) ''math_eval'' ''fp'' = 0"
proof -
  have "tracks_registered (with_policy (temporary_chat () ()) new_tracker default_policy)"
    by (simp add: tracks_registered_def with_policy_def new_tracker_def with_threshold_def
        count_for_def state_count_for_def empty_state_def)
  from exec_turn_reset_complete [OF this] show ?thesis by blast
qed

end
