(* ===== verification/Inference_Backend.thy ===== *)
theory Inference_Backend
  imports Tool_Validator
begin

text \<open>
  The inference-backend interface of \<^verbatim>\<open>engine/llama_wrapper.rs\<close> (identities, stop reasons, the default
  bounded run, the unavailable backend, tool-call detection) and the per-turn watchdog of
  \<^verbatim>\<open>agent/watchdog.rs\<close>. An \<open>Instant\<close> is the number of nanoseconds on the monotonic clock; readings of
  the clock are arguments.
\<close>

section \<open>Backends\<close>

text \<open>The classes of \<^verbatim>\<open>diagnostics/observability/event.rs\<close>.\<close>
datatype OutcomeClass =
    OcSuccess | OcCancelled | OcRejected | OcTimeout | OcUnavailable | OcInvalidInput
  | OcRateLimited | OcConflict | OcInternalFailure | OcDegradedFallback

datatype BackendKind = Production | DevelopmentMock | Unavailable

primrec kind_as_tag :: "BackendKind \<Rightarrow> string" where
  "kind_as_tag Production = ''production''"
| "kind_as_tag DevelopmentMock = ''development_mock''"
| "kind_as_tag Unavailable = ''unavailable''"

datatype BackendUnavailableReason =
    Unspecified | NotInjected | NoModelSelected | ModelMissing | ModelVerifying
  | ModelVerifiedNotActivated | ActivationInProgress | ActivationFailed | Deactivating

primrec reason_as_tag :: "BackendUnavailableReason \<Rightarrow> string" where
  "reason_as_tag Unspecified = ''unspecified''"
| "reason_as_tag NotInjected = ''not_injected''"
| "reason_as_tag NoModelSelected = ''no_model_selected''"
| "reason_as_tag ModelMissing = ''model_missing''"
| "reason_as_tag ModelVerifying = ''model_verifying''"
| "reason_as_tag ModelVerifiedNotActivated = ''model_verified_not_activated''"
| "reason_as_tag ActivationInProgress = ''activation_in_progress''"
| "reason_as_tag ActivationFailed = ''activation_failed''"
| "reason_as_tag Deactivating = ''deactivating''"

record BackendIdentity =
  id_kind :: BackendKind
  id_implementation :: string
  id_unavailable_reason :: "BackendUnavailableReason option"

definition production_identity :: "string \<Rightarrow> BackendIdentity" where
  "production_identity impl =
     \<lparr> id_kind = Production, id_implementation = impl, id_unavailable_reason = None \<rparr>"

definition mock_identity :: "string \<Rightarrow> BackendIdentity" where
  "mock_identity impl =
     \<lparr> id_kind = DevelopmentMock, id_implementation = impl, id_unavailable_reason = None \<rparr>"

definition unavailable_with_reason :: "string \<Rightarrow> BackendUnavailableReason \<Rightarrow> BackendIdentity" where
  "unavailable_with_reason impl reason =
     \<lparr> id_kind = Unavailable, id_implementation = impl, id_unavailable_reason = Some reason \<rparr>"

definition unavailable_identity :: "string \<Rightarrow> BackendIdentity" where
  "unavailable_identity impl = unavailable_with_reason impl Unspecified"

datatype StopReason = Completed | UserStopped | ThermalKill | OutOfMemory | WatchdogTripped

primrec stop_as_tag :: "StopReason \<Rightarrow> string" where
  "stop_as_tag Completed = ''completed''"
| "stop_as_tag UserStopped = ''user_stopped''"
| "stop_as_tag ThermalKill = ''thermal_kill''"
| "stop_as_tag OutOfMemory = ''oom''"
| "stop_as_tag WatchdogTripped = ''watchdog''"

record InferenceOutcome =
  assistant_text :: string
  used_tokens :: u64
  stop_reason :: StopReason

text \<open>The default \<open>run_bounded\<close>, over the outcome of the backend's own \<open>run\<close>.\<close>
definition run_bounded :: "InferenceOutcome result \<Rightarrow> u64 \<Rightarrow> InferenceOutcome result" where
  "run_bounded run max_tokens =
     (if max_tokens = 0 then Inl (WatchdogExceeded ''tokens'')
      else case run of
             Inl e \<Rightarrow> Inl e
           | Inr outcome \<Rightarrow>
               if used_tokens outcome > max_tokens then Inl (WatchdogExceeded ''tokens'')
               else Inr outcome)"

definition unavailable_run :: "InferenceOutcome result" where
  "unavailable_run = Inl (ModelLoadFailed
     ''inference backend is unavailable until model activation succeeds'')"

definition contains_tool_call :: "(string \<Rightarrow> string + RawToolCall list) \<Rightarrow> string \<Rightarrow> bool" where
  "contains_tool_call from_str assistant_so_far =
     (let trimmed = trim assistant_so_far in
      if \<not> starts_with ''['' trimmed then False
      else case parse_gbnf_output from_str trimmed of
             Inr parsed \<Rightarrow> parsed \<noteq> [] \<and> list_all (\<lambda>c. raw_name c \<noteq> []) parsed
           | Inl e \<Rightarrow>
               (case find_from (CHR ''{'') (drop 1 trimmed) of
                  Some rest \<Rightarrow> str_contains ([CHR 0x22] @ ''name'' @ [CHR 0x22]) rest
                | None \<Rightarrow> False))"

definition has_tool_call :: "(string \<Rightarrow> string + RawToolCall list) \<Rightarrow> string \<Rightarrow> bool" where
  "has_tool_call from_str text = contains_tool_call from_str text"

section \<open>Watchdog\<close>

record Watchdog =
  wd_start :: duration
  wd_max_iterations :: nat
  wd_max_tokens :: u64
  wd_max_wall :: duration

definition watchdog_new :: "duration \<Rightarrow> nat \<Rightarrow> u64 \<Rightarrow> duration \<Rightarrow> Watchdog" where
  "watchdog_new now max_iterations max_tokens max_wall =
     \<lparr> wd_start = now, wd_max_iterations = max_iterations, wd_max_tokens = max_tokens,
       wd_max_wall = max_wall \<rparr>"

definition watchdog_check :: "Watchdog \<Rightarrow> duration \<Rightarrow> nat \<Rightarrow> u64 \<Rightarrow> unit result" where
  "watchdog_check w now iteration tokens_so_far =
     (if iteration \<ge> wd_max_iterations w then Inl (WatchdogExceeded ''iterations'')
      else if tokens_so_far \<ge> wd_max_tokens w then Inl (WatchdogExceeded ''tokens'')
      else if now - wd_start w \<ge> wd_max_wall w then Inl (WatchdogExceeded ''seconds'')
      else Inr ())"

definition rearm :: "duration \<Rightarrow> Watchdog \<Rightarrow> Watchdog" where
  "rearm now w = w\<lparr> wd_start := now \<rparr>"

definition remaining_wall_clock :: "Watchdog \<Rightarrow> duration \<Rightarrow> duration" where
  "remaining_wall_clock w now = wd_max_wall w - (now - wd_start w)"

definition remaining_token_budget :: "Watchdog \<Rightarrow> u64 \<Rightarrow> u64" where
  "remaining_token_budget w tokens_so_far = saturating_sub (wd_max_tokens w) tokens_so_far"

section \<open>Lemmas\<close>

lemma watchdog_check_ok_iff:
  "watchdog_check w now i tok = Inr () \<longleftrightarrow>
     i < wd_max_iterations w \<and> tok < wd_max_tokens w \<and> now - wd_start w < wd_max_wall w"
  by (auto simp: watchdog_check_def)

lemma watchdog_check_error:
  "watchdog_check w now i tok = Inl e \<Longrightarrow> \<exists>k. e = WatchdogExceeded k"
  by (auto simp: watchdog_check_def split: if_splits)

lemma rearm_fields [simp]:
  "wd_max_iterations (rearm now w) = wd_max_iterations w"
  "wd_max_tokens (rearm now w) = wd_max_tokens w"
  "wd_max_wall (rearm now w) = wd_max_wall w" "wd_start (rearm now w) = now"
  by (simp_all add: rearm_def)

section \<open>Properties\<close>

text \<open>
  the three watchdog budgets. A check passes precisely while the iteration and token counts are
  below their limits and the wall clock is inside the budget counted from the last rearm; after a
  passing check the remaining token and wall budgets handed to the inference are positive, and
  spending at most the remaining tokens never exceeds the turn's token limit.
\<close>
theorem watchdog_budgets:
  "(watchdog_check w now i tok = Inr () \<longleftrightarrow>
      i < wd_max_iterations w \<and> tok < wd_max_tokens w \<and> now - wd_start w < wd_max_wall w) \<and>
   (watchdog_check w now i tok = Inr () \<longrightarrow>
      0 < remaining_token_budget w tok \<and> 0 < remaining_wall_clock w now \<and>
      (\<forall>used \<le> remaining_token_budget w tok.
         unat (saturating_add tok used) = unat tok + unat used \<and>
         saturating_add tok used \<le> wd_max_tokens w))"
proof -
  have "unat (saturating_add tok used) = unat tok + unat used \<and>
      saturating_add tok used \<le> wd_max_tokens w"
    if "tok < wd_max_tokens w" and "used \<le> remaining_token_budget w tok" for used
  proof -
    from that have "unat used \<le> unat (wd_max_tokens w) - unat tok"
      by (simp add: remaining_token_budget_def word_le_nat_alt unat_saturating_sub)
    with that(1) have le: "unat tok + unat used \<le> unat (wd_max_tokens w)"
      by (simp add: word_less_nat_alt)
    moreover have "unat (wd_max_tokens w) < 2 ^ 64"
      using unsigned_less [of "wd_max_tokens w", where 'a = nat] by simp
    ultimately show ?thesis
      by (simp add: word_le_nat_alt unat_saturating_add)
  qed
  moreover have "0 < remaining_token_budget w tok" if "tok < wd_max_tokens w"
    using that
    by (simp add: remaining_token_budget_def word_less_nat_alt unat_saturating_sub)
  ultimately show ?thesis
    by (simp add: watchdog_check_ok_iff remaining_wall_clock_def)
qed

theorem watchdog_budgets_witness:
  "watchdog_check (watchdog_new 0 8 100 60) 5 2 40 = Inr () \<and>
   0 < remaining_token_budget (watchdog_new 0 8 100 60) 40"
  using watchdog_budgets [of "watchdog_new 0 8 100 60" 5 2 40] by (simp add: watchdog_new_def)

end
