(* ===== verification/Chat_Types.thy ===== *)
theory Chat_Types
  imports Mukei_Prelude
begin

text \<open>
  The messages of a conversation (\<^verbatim>\<open>types/mod.rs\<close>), shared by the agent loop and the application
  runtime. Identifiers and time stamps are text.
\<close>

datatype Role = System | User | Assistant | Tool | RedTeam

record ChatMessage =
  msg_id :: string
  msg_role :: Role
  msg_branch :: string
  msg_is_active :: bool
  msg_created_at :: string
  msg_content :: string
  msg_parent :: "string option"
  msg_token_count :: "u32 option"

definition user_with_id :: "string \<Rightarrow> string \<Rightarrow> string \<Rightarrow> string \<Rightarrow> ChatMessage" where
  "user_with_id utc_now mid branch content =
     \<lparr> msg_id = mid, msg_role = User, msg_branch = branch, msg_is_active = True,
       msg_created_at = utc_now, msg_content = content, msg_parent = None,
       msg_token_count = None \<rparr>"

text \<open>The newest message of a role, and a list without it.\<close>
definition last_with_role :: "Role \<Rightarrow> ChatMessage list \<Rightarrow> ChatMessage option" where
  "last_with_role r ms = find (\<lambda>m. msg_role m = r) (rev ms)"

fun drop_first_with_role :: "Role \<Rightarrow> ChatMessage list \<Rightarrow> ChatMessage list" where
  "drop_first_with_role r [] = []"
| "drop_first_with_role r (m # ms) = (if msg_role m = r then ms else m # drop_first_with_role r ms)"

definition drop_last_with_role :: "Role \<Rightarrow> ChatMessage list \<Rightarrow> ChatMessage list" where
  "drop_last_with_role r ms = rev (drop_first_with_role r (rev ms))"

lemma last_with_role_Nil [simp]: "last_with_role r [] = None"
  by (simp add: last_with_role_def)

lemma drop_first_with_role_split:
  assumes "\<exists>m \<in> set ms. msg_role m = r"
  shows "\<exists>xs m ys. ms = xs @ m # ys \<and> msg_role m = r \<and> (\<forall>x \<in> set xs. msg_role x \<noteq> r) \<and> drop_first_with_role r ms = xs @ ys"
  using assms
proof (induction ms)
  case (Cons a ms)
  show ?case
  proof (cases "msg_role a = r")
    case True
    then show ?thesis by (intro exI [of _ "[]"]) simp
  next
    case False
    then obtain xs m ys where "ms = xs @ m # ys" "msg_role m = r" "\<forall>x \<in> set xs. msg_role x \<noteq> r"
        "drop_first_with_role r ms = xs @ ys"
      using Cons by auto
    with False show ?thesis by (intro exI [of _ "a # xs"]) auto
  qed
qed simp

text \<open>Exactly the newest message of the role is removed.\<close>
lemma drop_last_with_role_split:
  assumes "\<exists>m \<in> set ms. msg_role m = r"
  shows "\<exists>xs m ys. ms = xs @ m # ys \<and> msg_role m = r \<and> (\<forall>y \<in> set ys. msg_role y \<noteq> r)
    \<and> last_with_role r ms = Some m \<and> drop_last_with_role r ms = xs @ ys"
proof -
  obtain xs m ys where s: "rev ms = xs @ m # ys" "msg_role m = r" "\<forall>x \<in> set xs. msg_role x \<noteq> r"
      "drop_first_with_role r (rev ms) = xs @ ys"
    using drop_first_with_role_split [of "rev ms" r] assms by auto
  have "ms = rev ys @ m # rev xs" using s(1) by (metis append.assoc append_Cons append_Nil rev.simps(2) rev_append rev_rev_ident)
  moreover have "find (\<lambda>m. msg_role m = r) (rev ms) = Some m"
    unfolding s(1) using s(2,3) by (induction xs) auto
  ultimately show ?thesis
    using s by (intro exI [of _ "rev ys"] exI [of _ m] exI [of _ "rev xs"]) (simp add: last_with_role_def drop_last_with_role_def)
qed

end
