(* ===== verification/Agent_Loop.thy ===== *)
theory Agent_Loop
  imports Tool_Executor Inference_Backend Chat_Types
begin

text \<open>
  The ReAct loop (\<^verbatim>\<open>agent/loop_.rs\<close>): supervision of one inference attempt with its terminal latch, the
  loop body with its tool-dispatch path, the per-turn reset, and the generation guard of
  \<open>run_seeded\<close>. Everything the loop observes of its surroundings is in the record \<open>loop_env\<close>: clock
  readings, cancellation polls, the assembled context, the branch of the \<open>select!\<close> that fires for
  an inference attempt, minted identifiers and timestamps, the environment of the tool executor and
  the answers of the persistence sink. Observations are indexed by the iteration (or the history
  length for identifiers), so they are free to change over the turn.
\<close>

section \<open>Supervised inference\<close>

datatype InferenceFailureCategory =
    Cancellation | BackendUnavailable | ModelActivationFailure | ExecutionFailure
  | InternalPanic | TimeoutFailure

primrec category_as_tag :: "InferenceFailureCategory \<Rightarrow> string" where
  "category_as_tag Cancellation = ''cancellation''"
| "category_as_tag BackendUnavailable = ''backend_unavailable''"
| "category_as_tag ModelActivationFailure = ''model_activation_failure''"
| "category_as_tag ExecutionFailure = ''inference_execution_failure''"
| "category_as_tag InternalPanic = ''internal_panic''"
| "category_as_tag TimeoutFailure = ''timeout''"

datatype InferenceTerminalOutcome = TermSucceeded | TermCancelled | TermFailed

primrec terminal_code :: "InferenceTerminalOutcome \<Rightarrow> u8" where
  "terminal_code TermSucceeded = 1"
| "terminal_code TermCancelled = 2"
| "terminal_code TermFailed = 3"

record InferenceTerminalGuard =
  latch :: u8

definition new_guard :: InferenceTerminalGuard where
  "new_guard = \<lparr> latch = 0 \<rparr>"

text \<open>\<open>compare_exchange(0, outcome)\<close>\<close>
definition try_finish ::
    "InferenceTerminalGuard \<Rightarrow> InferenceTerminalOutcome \<Rightarrow> InferenceTerminalGuard \<times> bool" where
  "try_finish g outcome =
     (if latch g = 0 then (g\<lparr> latch := terminal_code outcome \<rparr>, True) else (g, False))"

text \<open>A lifecycle event as \<open>record_inference_terminal\<close> records it.\<close>
type_synonym lifecycle_event = "string \<times> OutcomeClass \<times> InferenceFailureCategory option"

definition finish_with ::
    "InferenceTerminalGuard \<Rightarrow> InferenceTerminalOutcome \<Rightarrow> OutcomeClass
     \<Rightarrow> InferenceFailureCategory option \<Rightarrow> lifecycle_event list \<Rightarrow> lifecycle_event list" where
  "finish_with g outcome cls cat evs =
     (if snd (try_finish g outcome) then evs @ [(''inference.terminal'', cls, cat)] else evs)"

datatype SupervisedInferenceResult = SupOutcome InferenceOutcome | SupCancelled

text \<open>The branch of the biased \<open>select!\<close> that fires.\<close>
datatype InferenceEvent =
    CancelFired
  | SleepElapsed
  | BackendPanicked
  | BackendReturned "InferenceOutcome result"

definition failure_category :: "BackendIdentity \<Rightarrow> MukeiError \<Rightarrow> InferenceFailureCategory" where
  "failure_category identity err =
     (case err of
        ModelLoadFailed s \<Rightarrow>
          (case (id_kind identity, id_unavailable_reason identity) of
             (Unavailable, Some ActivationFailed) \<Rightarrow> ModelActivationFailure
           | (Unavailable, _) \<Rightarrow> BackendUnavailable
           | _ \<Rightarrow> ExecutionFailure)
      | ModelCorrupted \<Rightarrow>
          (case (id_kind identity, id_unavailable_reason identity) of
             (Unavailable, Some ActivationFailed) \<Rightarrow> ModelActivationFailure
           | (Unavailable, _) \<Rightarrow> BackendUnavailable
           | _ \<Rightarrow> ExecutionFailure)
      | WatchdogExceeded k \<Rightarrow> TimeoutFailure
      | _ \<Rightarrow> ExecutionFailure)"

definition failure_class :: "InferenceFailureCategory \<Rightarrow> OutcomeClass" where
  "failure_class cat =
     (if cat = TimeoutFailure then OcTimeout
      else if cat \<in> {BackendUnavailable, ModelActivationFailure} then OcUnavailable
      else OcInternalFailure)"

text \<open>The branch for an outcome the backend returned in time.\<close>
definition on_backend_outcome ::
    "InferenceTerminalGuard \<Rightarrow> lifecycle_event list \<Rightarrow> u64 \<Rightarrow> InferenceOutcome
     \<Rightarrow> lifecycle_event list \<times> SupervisedInferenceResult result" where
  "on_backend_outcome g evs max_tokens outcome =
     (if used_tokens outcome > max_tokens
      then (finish_with g TermFailed OcTimeout (Some TimeoutFailure) evs,
            Inl (WatchdogExceeded ''tokens''))
      else case stop_reason outcome of
        Completed \<Rightarrow> (finish_with g TermSucceeded OcSuccess None evs, Inr (SupOutcome outcome))
      | UserStopped \<Rightarrow>
          (finish_with g TermCancelled OcCancelled (Some Cancellation) evs, Inr SupCancelled)
      | ThermalKill \<Rightarrow>
          (finish_with g TermFailed OcUnavailable (Some ExecutionFailure) evs, Inl ThermalThrottle)
      | OutOfMemory \<Rightarrow>
          (finish_with g TermFailed OcUnavailable (Some ExecutionFailure) evs, Inl OOM)
      | WatchdogTripped \<Rightarrow>
          (finish_with g TermFailed OcTimeout (Some TimeoutFailure) evs,
           Inl (WatchdogExceeded ''seconds'')))"

definition run_inference_supervised ::
    "BackendIdentity \<Rightarrow> InferenceEvent \<Rightarrow> duration \<Rightarrow> u64
     \<Rightarrow> lifecycle_event list \<times> SupervisedInferenceResult result" where
  "run_inference_supervised identity fired remaining max_tokens =
     (let g = new_guard;
          started = [(''inference.start'', OcSuccess, None)]
      in if remaining = 0 \<or> max_tokens = 0
         then (started @ [(''inference.terminal'', OcTimeout, Some TimeoutFailure)],
               Inl (WatchdogExceeded (if remaining = 0 then ''seconds'' else ''tokens'')))
         else case fired of
           CancelFired \<Rightarrow>
             (finish_with g TermCancelled OcCancelled (Some Cancellation) started, Inr SupCancelled)
         | SleepElapsed \<Rightarrow>
             (finish_with g TermFailed OcTimeout (Some TimeoutFailure) started,
              Inl (WatchdogExceeded ''seconds''))
         | BackendPanicked \<Rightarrow>
             (finish_with g TermFailed OcInternalFailure (Some InternalPanic) started,
              Inl (Internal ''inference execution failed because the backend panicked''))
         | BackendReturned (Inl err) \<Rightarrow>
             (let cat = failure_category identity err
              in (finish_with g TermFailed (failure_class cat) (Some cat) started, Inl err))
         | BackendReturned (Inr outcome) \<Rightarrow> on_backend_outcome g started max_tokens outcome)"

section \<open>The loop\<close>

record AgentRunOutcome =
  final_parent :: string
  final_token_count :: "u32 option"
  final_content :: "string option"
  cancelled :: bool

record loop_env =
  le_rearm_at :: duration
  le_check_at :: "nat \<Rightarrow> duration"
  le_infer_at :: "nat \<Rightarrow> duration"
  le_cancelled :: "nat \<Rightarrow> bool"
  le_build_for :: "nat \<Rightarrow> string \<Rightarrow> string \<Rightarrow> ChatMessage list \<Rightarrow> string result"
  le_infer :: "nat \<Rightarrow> string \<Rightarrow> u64 \<Rightarrow> InferenceEvent"
  le_identity :: "nat \<Rightarrow> BackendIdentity"
  le_from_str :: "string \<Rightarrow> string + RawToolCall list"
  le_show_json :: "json \<Rightarrow> string"
  le_tool_uuid :: "nat \<Rightarrow> nat \<Rightarrow> string"
  le_message_id :: "nat \<Rightarrow> string"
  le_utc_now :: "nat \<Rightarrow> string"
  le_exec :: "nat \<Rightarrow> exec_env"
  le_sink :: "(ChatMessage \<Rightarrow> unit result) option"

text \<open>
  The loop's local variables and the components it mutates. \<open>ls_persisted\<close> is what the sink has
  acknowledged, \<open>ls_events\<close> the recorded lifecycle events and \<open>ls_calls\<close> the prompt and the token
  budget of every supervised inference attempt.
\<close>
record 'tool LoopState =
  ls_tools :: "'tool ToolExecutor"
  ls_watchdog :: Watchdog
  ls_history :: "ChatMessage list"
  ls_last_id :: string
  ls_iteration :: nat
  ls_tokens :: u64
  ls_persisted :: "ChatMessage list"
  ls_events :: "lifecycle_event list"
  ls_calls :: "(string \<times> u64) list"

definition persist_intermediate ::
    "loop_env \<Rightarrow> ChatMessage \<Rightarrow> 'tool LoopState \<Rightarrow> 'tool LoopState \<times> unit result" where
  "persist_intermediate env m st =
     (case le_sink env of
        None \<Rightarrow> (st, Inr ())
      | Some sink \<Rightarrow>
          (case sink m of
             Inl e \<Rightarrow> (st, Inl e)
           | Inr u \<Rightarrow> (st\<lparr> ls_persisted := ls_persisted st @ [m] \<rparr>, Inr ())))"

text \<open>Mint an id, build the message with its parent, persist it, push it, advance \<open>last_id\<close>.\<close>
definition append_message ::
    "loop_env \<Rightarrow> string \<Rightarrow> Role \<Rightarrow> u32 option \<Rightarrow> string \<Rightarrow> 'tool LoopState
     \<Rightarrow> 'tool LoopState \<times> unit result" where
  "append_message env branch role tokens content st =
     (let n = length (ls_history st);
          m = \<lparr> msg_id = le_message_id env n, msg_role = role, msg_branch = branch,
                msg_is_active = True, msg_created_at = le_utc_now env n, msg_content = content,
                msg_parent = Some (ls_last_id st), msg_token_count = tokens \<rparr>
      in case persist_intermediate env m st of
           (st', Inl e) \<Rightarrow> (st', Inl e)
         | (st', Inr u) \<Rightarrow>
             (st'\<lparr> ls_history := ls_history st' @ [m], ls_last_id := msg_id m \<rparr>, Inr ()))"

fun append_all ::
    "loop_env \<Rightarrow> string \<Rightarrow> string list \<Rightarrow> 'tool LoopState \<Rightarrow> 'tool LoopState \<times> unit result" where
  "append_all env branch [] st = (st, Inr ())"
| "append_all env branch (c # cs) st =
     (case append_message env branch Tool None c st of
        (st', Inl e) \<Rightarrow> (st', Inl e)
      | (st', Inr u) \<Rightarrow> append_all env branch cs st')"

definition validator_envelope :: "MukeiError \<Rightarrow> string" where
  "validator_envelope err =
     render_tool_error_envelope ''validator'' err Validation 1 DEFAULT_MAX_FAILURES"

definition rejection_envelope :: "(json \<Rightarrow> string) \<Rightarrow> ValidationError \<Rightarrow> string" where
  "rejection_envelope show_json verr =
     validator_envelope (ToolArgsRejected ''validator'' (format_for_llm show_json [verr]))"

text \<open>The messages of one outcome: its output and, when present, the repeat notice.\<close>
definition outcome_contents :: "ToolOutcome \<Rightarrow> string list" where
  "outcome_contents oc =
     res_output (oc_result oc) #
     (case oc_repeat_output_notice oc of None \<Rightarrow> [] | Some notice \<Rightarrow> [notice])"

definition blocked_tool_name :: "MukeiError \<Rightarrow> string" where
  "blocked_tool_name err =
     (case err of
        ToolAbuseBlocked t \<Rightarrow> t
      | ToolPermanentlyDisabled t \<Rightarrow> t
      | UnknownTool t \<Rightarrow> t
      | _ \<Rightarrow> ''<unknown>'')"

definition supervisor_contents :: "MukeiError option \<Rightarrow> string list" where
  "supervisor_contents blocked =
     (case blocked of
        None \<Rightarrow> []
      | Some err \<Rightarrow> [render_supervisor_directive (blocked_tool_name err) (error_code err)])"

definition next_iteration :: "'tool LoopState \<Rightarrow> 'tool LoopState" where
  "next_iteration st = st\<lparr> ls_iteration := ls_iteration st + 1 \<rparr>"

text \<open>\<open>continue\<close> is \<open>None\<close>; a return from the loop is \<open>Some\<close>.\<close>
type_synonym 'tool loop_step = "'tool LoopState \<times> AgentRunOutcome result option"

definition append_then_continue ::
    "'tool LoopState \<times> unit result \<Rightarrow> 'tool loop_step" where
  "append_then_continue r =
     (case r of (st, Inl e) \<Rightarrow> (st, Some (Inl e)) | (st, Inr u) \<Rightarrow> (next_iteration st, None))"

text \<open>Dispatch of the accepted calls and the messages that report on it.\<close>
definition dispatch_tools ::
    "loop_env \<Rightarrow> string \<Rightarrow> TypedToolCall list \<Rightarrow> 'tool LoopState \<Rightarrow> 'tool loop_step" where
  "dispatch_tools env branch validated st =
     (case execute_parallel (le_exec env (ls_iteration st)) (ls_tools st) validated of
        (ex, Inl e) \<Rightarrow> (st\<lparr> ls_tools := ex \<rparr>, Some (Inl e))
      | (ex, Inr (outs, blocked)) \<Rightarrow>
          append_then_continue
            (append_all env branch (concat (map outcome_contents outs) @ supervisor_contents blocked)
               (st\<lparr> ls_tools := ex \<rparr>)))"

definition tool_turn ::
    "loop_env \<Rightarrow> string \<Rightarrow> InferenceOutcome \<Rightarrow> 'tool LoopState \<Rightarrow> 'tool loop_step" where
  "tool_turn env branch outcome st =
     (case append_message env branch Assistant (Some (ucast (used_tokens outcome)))
             (assistant_text outcome) st of
        (st1, Inl e) \<Rightarrow> (st1, Some (Inl e))
      | (st1, Inr u) \<Rightarrow>
          (case parse_gbnf_output (le_from_str env) (assistant_text outcome) of
             Inl parse_err \<Rightarrow>
               append_then_continue (append_all env branch [validator_envelope parse_err] st1)
           | Inr raw_calls \<Rightarrow>
               (case validate (le_show_json env) (le_tool_uuid env (ls_iteration st)) raw_calls of
                  (validated, errs) \<Rightarrow>
                    (case append_all env branch
                            (map (rejection_envelope (le_show_json env)) errs) st1 of
                       (st2, Inl e) \<Rightarrow> (st2, Some (Inl e))
                     | (st2, Inr u) \<Rightarrow>
                         if validated = [] then (next_iteration st2, None)
                         else dispatch_tools env branch validated st2))))"

definition cancelled_outcome :: "'tool LoopState \<Rightarrow> AgentRunOutcome" where
  "cancelled_outcome st =
     \<lparr> final_parent = ls_last_id st, final_token_count = None, final_content = None,
       cancelled = True \<rparr>"

text \<open>One supervised inference on the assembled context, and what follows from its outcome.\<close>
definition infer_step ::
    "loop_env \<Rightarrow> string \<Rightarrow> string \<Rightarrow> 'tool LoopState \<Rightarrow> 'tool loop_step" where
  "infer_step env branch context_text st =
     (let i = ls_iteration st; w = ls_watchdog st;
          remaining = remaining_wall_clock w (le_infer_at env i);
          budget = remaining_token_budget w (ls_tokens st);
          (evs, res) = run_inference_supervised (le_identity env i)
            (le_infer env i context_text budget) remaining budget;
          st1 = st\<lparr> ls_events := ls_events st @ evs,
                    ls_calls := ls_calls st @ [(context_text, budget)] \<rparr>
      in case res of
           Inl e \<Rightarrow> (st1, Some (Inl e))
         | Inr SupCancelled \<Rightarrow> (st1, Some (Inr (cancelled_outcome st1)))
         | Inr (SupOutcome outcome) \<Rightarrow>
             (let st2 = st1\<lparr> ls_tokens := saturating_add (ls_tokens st1) (used_tokens outcome) \<rparr>
              in if has_tool_call (le_from_str env) (assistant_text outcome)
                 then tool_turn env branch outcome st2
                 else (st2, Some (Inr
                        \<lparr> final_parent = ls_last_id st2,
                          final_token_count = Some (ucast (used_tokens outcome)),
                          final_content = Some (assistant_text outcome),
                          cancelled = False \<rparr>))))"

definition loop_body ::
    "loop_env \<Rightarrow> string \<Rightarrow> string \<Rightarrow> 'tool LoopState \<Rightarrow> 'tool loop_step" where
  "loop_body env conversation branch st =
     (let i = ls_iteration st in
      case watchdog_check (ls_watchdog st) (le_check_at env i) i (ls_tokens st) of
        Inl e \<Rightarrow> (st, Some (Inl e))
      | Inr u \<Rightarrow>
          if le_cancelled env i then (st, Some (Inr (cancelled_outcome st)))
          else case le_build_for env i conversation branch (ls_history st) of
            Inl e \<Rightarrow> (st, Some (Inl e))
          | Inr context_text \<Rightarrow> infer_step env branch context_text st)"

section \<open>How the history grows\<close>

fun linked_messages :: "loop_env \<Rightarrow> string \<Rightarrow> nat \<Rightarrow> string \<Rightarrow> ChatMessage list \<Rightarrow> bool" where
  "linked_messages env branch n parent [] = True"
| "linked_messages env branch n parent (m # ms) =
     (msg_id m = le_message_id env n \<and> msg_branch m = branch \<and> msg_parent m = Some parent \<and>
      msg_is_active m \<and> msg_role m \<in> {Assistant, Tool} \<and>
      linked_messages env branch (Suc n) (msg_id m) ms)"

definition tip_id :: "string \<Rightarrow> ChatMessage list \<Rightarrow> string" where
  "tip_id start ms = (if ms = [] then start else msg_id (last ms))"

lemma tip_id_simps [simp]:
  "tip_id s [] = s" "tip_id s (ms @ [m]) = msg_id m" "tip_id s (m # ms) = tip_id (msg_id m) ms"
  "tip_id s (ms @ ms') = tip_id (tip_id s ms) ms'"
  by (auto simp: tip_id_def)

lemma linked_messages_append:
  "linked_messages env br n p (xs @ ys) \<longleftrightarrow>
     linked_messages env br n p xs \<and> linked_messages env br (n + length xs) (tip_id p xs) ys"
  by (induction xs arbitrary: n p) auto

text \<open>From one state to a later one, \<open>new\<close> messages were appended, linked and made durable.\<close>
definition grows_by ::
    "loop_env \<Rightarrow> string \<Rightarrow> 'tool LoopState \<Rightarrow> 'tool LoopState \<Rightarrow> ChatMessage list \<Rightarrow> bool" where
  "grows_by env branch st st' new \<longleftrightarrow>
     ls_history st' = ls_history st @ new \<and>
     linked_messages env branch (length (ls_history st)) (ls_last_id st) new \<and>
     ls_last_id st' = tip_id (ls_last_id st) new \<and>
     ls_persisted st' = ls_persisted st @ (if le_sink env = None then [] else new)"

definition grows :: "loop_env \<Rightarrow> string \<Rightarrow> 'tool LoopState \<Rightarrow> 'tool LoopState \<Rightarrow> bool" where
  "grows env branch st st' \<longleftrightarrow> (\<exists>new. grows_by env branch st st' new)"

text \<open>The counters and logs that only the loop body itself changes.\<close>
definition meters ::
    "'tool LoopState \<Rightarrow> Watchdog \<times> u64 \<times> lifecycle_event list \<times> (string \<times> u64) list" where
  "meters st = (ls_watchdog st, ls_tokens st, ls_events st, ls_calls st)"

lemma grows_by_trans:
  "grows_by env br s1 s2 xs \<Longrightarrow> grows_by env br s2 s3 ys \<Longrightarrow> grows_by env br s1 s3 (xs @ ys)"
  by (auto simp: grows_by_def linked_messages_append)

lemma grows_trans [trans]: "grows env br s1 s2 \<Longrightarrow> grows env br s2 s3 \<Longrightarrow> grows env br s1 s3"
  unfolding grows_def using grows_by_trans by blast

lemma grows_refl:
  "ls_history st' = ls_history st \<Longrightarrow> ls_last_id st' = ls_last_id st \<Longrightarrow>
     ls_persisted st' = ls_persisted st \<Longrightarrow> grows env br st st'"
  unfolding grows_def grows_by_def by (intro exI [of _ "[]"]) simp

definition persist_errors :: "loop_env \<Rightarrow> MukeiError set" where
  "persist_errors env =
     (case le_sink env of None \<Rightarrow> {} | Some sink \<Rightarrow> {e. \<exists>m. sink m = Inl e})"

text \<open>What appending messages does to the state.\<close>
definition appended ::
    "loop_env \<Rightarrow> string \<Rightarrow> 'tool LoopState \<Rightarrow> 'tool LoopState \<times> unit result \<Rightarrow> bool" where
  "appended env branch st r \<longleftrightarrow>
     (case r of (st', res) \<Rightarrow>
        grows env branch st st' \<and> meters st' = meters st \<and> ls_iteration st' = ls_iteration st \<and>
        ls_tools st' = ls_tools st \<and>
        (case res of Inl e \<Rightarrow> e \<in> persist_errors env | Inr u \<Rightarrow> True))"

lemma appended_append_message:
  assumes "role \<in> {Assistant, Tool}"
  shows "appended env br st (append_message env br role tok c st)"
proof -
  let ?n = "length (ls_history st)"
  let ?m = "\<lparr> msg_id = le_message_id env ?n, msg_role = role, msg_branch = br,
      msg_is_active = True, msg_created_at = le_utc_now env ?n, msg_content = c,
      msg_parent = Some (ls_last_id st), msg_token_count = tok \<rparr>"
  obtain st1 r where p: "persist_intermediate env ?m st = (st1, r)" by fastforce
  show ?thesis
  proof (cases r)
    case (Inl e)
    with p have "st1 = st" "e \<in> persist_errors env"
      by (auto simp: persist_intermediate_def persist_errors_def split: option.splits sum.splits)
    with p Inl show ?thesis
      by (simp add: append_message_def appended_def Let_def grows_refl)
  next
    case (Inr u)
    with p have st1: "st1 = st\<lparr> ls_persisted := ls_persisted st @ (if le_sink env = None then [] else [?m]) \<rparr>"
      by (auto simp: persist_intermediate_def split: option.splits sum.splits)
    let ?st2 = "st1\<lparr> ls_history := ls_history st1 @ [?m], ls_last_id := msg_id ?m \<rparr>"
    have "grows_by env br st ?st2 [?m]"
      using assms by (simp add: grows_by_def st1)
    moreover have "append_message env br role tok c st = (?st2, Inr ())"
      by (simp add: append_message_def Let_def p Inr)
    ultimately show ?thesis
      by (auto simp: appended_def grows_def meters_def st1)
  qed
qed

lemma appended_trans:
  "appended env br s1 (s2, Inr u) \<Longrightarrow> appended env br s2 r \<Longrightarrow> appended env br s1 r"
  unfolding appended_def by (auto split: prod.splits intro: grows_trans)

lemma appended_append_all: "appended env br st (append_all env br cs st)"
proof (induction cs arbitrary: st)
  case Nil
  show ?case by (simp add: appended_def grows_refl)
next
  case (Cons c cs)
  obtain st1 r where m: "append_message env br Tool None c st = (st1, r)" by fastforce
  have "appended env br st (st1, r)"
    using appended_append_message [of Tool env br st None c] m by simp
  then show ?case
    using Cons.IH [of st1] by (cases r) (auto simp: m intro: appended_trans)
qed

text \<open>What one pass over the tool path does: it continues, or it ends with one of \<open>errs\<close>.\<close>
definition progresses ::
    "loop_env \<Rightarrow> string \<Rightarrow> MukeiError set \<Rightarrow> 'tool LoopState \<Rightarrow> 'tool loop_step \<Rightarrow> bool" where
  "progresses env branch errs st r \<longleftrightarrow>
     (case r of (st', ret) \<Rightarrow>
        grows env branch st st' \<and> meters st' = meters st \<and>
        (case ret of
           None \<Rightarrow> ls_iteration st' = Suc (ls_iteration st)
         | Some (Inl e) \<Rightarrow> e \<in> errs
         | Some (Inr oc) \<Rightarrow> False))"

definition tool_errors :: "loop_env \<Rightarrow> MukeiError set" where
  "tool_errors env = persist_errors env \<union> {e. \<exists>m. e = BlockingJoinFailed m}"

lemma progresses_continue:
  assumes "appended env br st r"
  shows "progresses env br (tool_errors env) st (append_then_continue r)"
proof -
  obtain st' res where "r = (st', res)" by fastforce
  with assms show ?thesis
    by (cases res) (auto simp: appended_def progresses_def append_then_continue_def tool_errors_def
        next_iteration_def meters_def grows_def grows_by_def)
qed

lemma progresses_trans:
  "appended env br s1 (s2, Inr u) \<Longrightarrow> progresses env br errs s2 r \<Longrightarrow> progresses env br errs s1 r"
  unfolding appended_def progresses_def by (auto split: prod.splits option.splits sum.splits intro: grows_trans)

lemma dispatch_tools_progresses: "progresses env br (tool_errors env) st (dispatch_tools env br calls st)"
proof -
  let ?env = "le_exec env (ls_iteration st)"
  obtain ex r where x: "execute_parallel ?env (ls_tools st) calls = (ex, r)" by fastforce
  let ?st = "st\<lparr> ls_tools := ex \<rparr>"
  have same: "grows env br st ?st" "meters ?st = meters st" "ls_iteration ?st = ls_iteration st"
    by (simp_all add: grows_refl meters_def)
  show ?thesis
  proof (cases r)
    case (Inl e)
    then have "\<exists>m. e = BlockingJoinFailed m"
      using execute_parallel_contract [of ?env "ls_tools st" calls] x by auto
    with same Inl show ?thesis by (simp add: dispatch_tools_def x progresses_def tool_errors_def)
  next
    case (Inr p)
    obtain outs b where p: "p = (outs, b)" by fastforce
    let ?cs = "concat (map outcome_contents outs) @ supervisor_contents b"
    have "progresses env br (tool_errors env) ?st (append_then_continue (append_all env br ?cs ?st))"
      by (intro progresses_continue appended_append_all)
    with same show ?thesis
      by (auto simp: dispatch_tools_def x Inr p progresses_def
          split: prod.splits option.splits sum.splits intro: grows_trans)
  qed
qed

lemma tool_turn_progresses: "progresses env br (tool_errors env) st (tool_turn env br oc st)"
proof -
  obtain st1 r1 where m: "append_message env br Assistant (Some (ucast (used_tokens oc)))
      (assistant_text oc) st = (st1, r1)" by fastforce
  have a1: "appended env br st (st1, r1)"
    using appended_append_message [of Assistant env br st _ "assistant_text oc"] m by (metis insertI1)
  show ?thesis
  proof (cases r1)
    case (Inl e)
    with a1 show ?thesis by (simp add: tool_turn_def m appended_def progresses_def tool_errors_def)
  next
    case (Inr u)
    note a1' = a1 [unfolded Inr]
    show ?thesis
    proof (cases "parse_gbnf_output (le_from_str env) (assistant_text oc)")
      case perr: (Inl e)
      show ?thesis
        unfolding tool_turn_def m perr Inr prod.case sum.case
        by (intro progresses_trans [OF a1'] progresses_continue appended_append_all)
    next
      case raw: (Inr raw)
      obtain validated errs where v: "validate (le_show_json env)
          (le_tool_uuid env (ls_iteration st)) raw = (validated, errs)" by fastforce
      let ?cs = "map (rejection_envelope (le_show_json env)) errs"
      obtain st2 r2 where al: "append_all env br ?cs st1 = (st2, r2)" by fastforce
      have a2: "appended env br st (st2, r2)"
        using appended_trans [OF a1' appended_append_all [of env br st1 ?cs]] al by simp
      show ?thesis
      proof (cases r2)
        case (Inl e)
        with a2 show ?thesis
          by (simp add: tool_turn_def m Inr raw v al appended_def progresses_def tool_errors_def)
      next
        case r2: (Inr u2)
        have "progresses env br (tool_errors env) st (append_then_continue (st2, Inr u2))"
          using progresses_continue [OF a2] r2 by simp
        moreover have "progresses env br (tool_errors env) st (dispatch_tools env br validated st2)"
          using progresses_trans [OF a2 [unfolded r2] dispatch_tools_progresses] .
        ultimately show ?thesis
          by (simp add: tool_turn_def m Inr raw v al r2 append_then_continue_def)
      qed
    qed
  qed
qed


section \<open>One pass through the loop\<close>

text \<open>The events of one supervised attempt: its start and exactly one terminal event.\<close>
definition attempt :: "lifecycle_event list \<Rightarrow> bool" where
  "attempt evs \<longleftrightarrow>
     (\<exists>cls cat. evs = [(''inference.start'', OcSuccess, None), (''inference.terminal'', cls, cat)])"

definition loop_errors :: "loop_env \<Rightarrow> MukeiError set" where
  "loop_errors env = tool_errors env \<union> {e. \<exists>k. e = WatchdogExceeded k} \<union>
     {ThermalThrottle, OOM, Internal ''inference execution failed because the backend panicked''} \<union>
     {e. \<exists>i c b h. le_build_for env i c b h = Inl e} \<union>
     {e. \<exists>i c t. le_infer env i c t = BackendReturned (Inl e)}"

lemma supervised_attempt: "attempt (fst (run_inference_supervised identity fired remaining budget))"
  by (simp add: run_inference_supervised_def on_backend_outcome_def attempt_def finish_with_def
      try_finish_def new_guard_def Let_def split: InferenceEvent.split sum.split StopReason.split)

lemma supervised_outcome:
  "snd (run_inference_supervised identity fired remaining budget) = Inr (SupOutcome oc) \<Longrightarrow>
     used_tokens oc \<le> budget \<and> stop_reason oc = Completed"
  by (auto simp: run_inference_supervised_def on_backend_outcome_def Let_def not_less
      split: InferenceEvent.splits sum.splits StopReason.splits if_splits)

lemma supervised_error:
  "snd (run_inference_supervised identity (le_infer env i c budget) remaining budget) = Inl e \<Longrightarrow>
     e \<in> loop_errors env"
  unfolding loop_errors_def
  by (auto simp: run_inference_supervised_def on_backend_outcome_def Let_def
      split: InferenceEvent.splits sum.splits StopReason.splits if_splits)

text \<open>A prompt the context builder produced for the branch.\<close>
definition prompt_built :: "loop_env \<Rightarrow> string \<Rightarrow> string \<times> u64 \<Rightarrow> bool" where
  "prompt_built env branch c \<longleftrightarrow> (\<exists>i conv hist. le_build_for env i conv branch hist = Inr (fst c))"

text \<open>
  From one state to a later one, the loop made \<open>k\<close> inference attempts, each on a prompt of the
  context builder.
\<close>
definition ran :: "loop_env \<Rightarrow> string \<Rightarrow> nat \<Rightarrow> 'tool LoopState \<Rightarrow> 'tool LoopState \<Rightarrow> bool" where
  "ran env branch k st st' \<longleftrightarrow>
     grows env branch st st' \<and> ls_watchdog st' = ls_watchdog st \<and>
     (ls_tokens st \<le> wd_max_tokens (ls_watchdog st) \<longrightarrow>
        ls_tokens st' \<le> wd_max_tokens (ls_watchdog st)) \<and>
     (\<exists>atts calls. ls_events st' = ls_events st @ concat atts \<and> list_all attempt atts \<and>
        length atts = k \<and> ls_calls st' = ls_calls st @ calls \<and> length calls = k \<and>
        list_all (prompt_built env branch) calls)"

lemma ran_trans:
  assumes 1: "ran env br j s1 s2" and 2: "ran env br k s2 s3"
  shows "ran env br (j + k) s1 s3"
proof -
  from 1 obtain a1 c1 where "ls_events s2 = ls_events s1 @ concat a1" "list_all attempt a1"
    "length a1 = j" "ls_calls s2 = ls_calls s1 @ c1" "length c1 = j"
    "list_all (prompt_built env br) c1" unfolding ran_def by blast
  moreover from 2 obtain a2 c2 where "ls_events s3 = ls_events s2 @ concat a2" "list_all attempt a2"
    "length a2 = k" "ls_calls s3 = ls_calls s2 @ c2" "length c2 = k"
    "list_all (prompt_built env br) c2" unfolding ran_def by blast
  ultimately have "\<exists>atts calls. ls_events s3 = ls_events s1 @ concat atts \<and> list_all attempt atts \<and>
        length atts = j + k \<and> ls_calls s3 = ls_calls s1 @ calls \<and> length calls = j + k \<and>
        list_all (prompt_built env br) calls"
    by (intro exI [of _ "a1 @ a2"] exI [of _ "c1 @ c2"]) simp
  moreover have "grows env br s1 s3"
    using 1 2 unfolding ran_def by (blast intro: grows_trans)
  moreover have "ls_watchdog s3 = ls_watchdog s1"
    "ls_tokens s1 \<le> wd_max_tokens (ls_watchdog s1) \<longrightarrow> ls_tokens s3 \<le> wd_max_tokens (ls_watchdog s1)"
    using 1 2 unfolding ran_def by auto
  ultimately show ?thesis unfolding ran_def by blast
qed

lemma ran_refl: "ran env br 0 st st"
  by (simp add: ran_def grows_refl)

lemma token_budget_step:
  assumes "tok < wd_max_tokens w" and "used \<le> remaining_token_budget w tok"
  shows "saturating_add tok used \<le> wd_max_tokens w"
proof -
  from assms have "unat used \<le> unat (wd_max_tokens w) - unat tok"
    by (simp add: remaining_token_budget_def word_le_nat_alt unat_saturating_sub)
  with assms(1) have "unat tok + unat used \<le> unat (wd_max_tokens w)"
    by (simp add: word_less_nat_alt)
  then show ?thesis by (simp add: word_le_nat_alt unat_saturating_add)
qed

text \<open>How a pass may end: what is returned, and with which parent.\<close>
definition returns_ok :: "loop_env \<Rightarrow> 'tool LoopState \<Rightarrow> AgentRunOutcome result \<Rightarrow> bool" where
  "returns_ok env st' ret \<longleftrightarrow>
     (case ret of
        Inl e \<Rightarrow> e \<in> loop_errors env
      | Inr oc \<Rightarrow> final_parent oc = ls_last_id st' \<and>
          (cancelled oc \<longleftrightarrow> final_content oc = None) \<and>
          (case final_content oc of None \<Rightarrow> final_token_count oc = None
           | Some text \<Rightarrow> \<not> has_tool_call (le_from_str env) text \<and> final_token_count oc \<noteq> None))"

lemma ran_one:
  assumes "grows env br st st'" and "ls_watchdog st' = ls_watchdog st"
    and "ls_tokens st' \<le> wd_max_tokens (ls_watchdog st)"
    and "ls_events st' = ls_events st @ evs" and "attempt evs" and "ls_calls st' = ls_calls st @ [c]"
    and "prompt_built env br c"
  shows "ran env br 1 st st'"
proof -
  have "\<exists>atts calls. ls_events st' = ls_events st @ concat atts \<and> list_all attempt atts \<and>
      length atts = 1 \<and> ls_calls st' = ls_calls st @ calls \<and> length calls = 1 \<and>
      list_all (prompt_built env br) calls"
    using assms(4-7) by (intro exI [of _ "[evs]"] exI [of _ "[c]"]) simp
  with assms(1-3) show ?thesis unfolding ran_def by blast
qed

lemma infer_step_facts:
  assumes "infer_step env br ctx st = (st', ret)" and "ls_tokens st < wd_max_tokens (ls_watchdog st)"
    and built: "\<exists>i conv hist. le_build_for env i conv br hist = Inr ctx"
  shows "ran env br 1 st st' \<and>
     (case ret of None \<Rightarrow> ls_iteration st' = Suc (ls_iteration st) | Some r \<Rightarrow> returns_ok env st' r)"
proof -
  let ?i = "ls_iteration st" and ?w = "ls_watchdog st"
  let ?budget = "remaining_token_budget ?w (ls_tokens st)"
  obtain evs res where sup: "run_inference_supervised (le_identity env ?i)
      (le_infer env ?i ctx ?budget) (remaining_wall_clock ?w (le_infer_at env ?i)) ?budget = (evs, res)"
    by fastforce
  have att: "attempt evs" using supervised_attempt sup by (metis fst_conv)
  let ?st1 = "st\<lparr> ls_events := ls_events st @ evs, ls_calls := ls_calls st @ [(ctx, ?budget)] \<rparr>"
  have pb: "prompt_built env br (ctx, ?budget)" using built by (simp add: prompt_built_def)
  have ran1: "ran env br 1 st s" if "grows env br ?st1 s" "ls_watchdog s = ?w"
      "ls_tokens s \<le> wd_max_tokens ?w" "ls_events s = ls_events ?st1" "ls_calls s = ls_calls ?st1" for s
  proof (rule ran_one)
    have "grows env br st ?st1" by (rule grows_refl) simp_all
    then show "grows env br st s" using that(1) by (rule grows_trans)
  qed (use that att pb in simp_all)
  have here: "ran env br 1 st ?st1" by (rule ran1) (use assms(2) in \<open>simp_all add: grows_refl\<close>)
  show ?thesis
  proof (cases res)
    case (Inl e)
    with sup have "e \<in> loop_errors env" using supervised_error by (metis snd_conv)
    with here assms(1) sup Inl show ?thesis
      by (auto simp: infer_step_def Let_def returns_ok_def)
  next
    case (Inr r)
    show ?thesis
    proof (cases r)
      case SupCancelled
      with here assms(1) sup Inr show ?thesis
        by (auto simp: infer_step_def Let_def returns_ok_def cancelled_outcome_def)
    next
      case (SupOutcome oc)
      let ?st2 = "?st1\<lparr> ls_tokens := saturating_add (ls_tokens st) (used_tokens oc) \<rparr>"
      from sup Inr SupOutcome have "used_tokens oc \<le> ?budget"
        using supervised_outcome by (metis snd_conv)
      with assms(2) have tok: "ls_tokens ?st2 \<le> wd_max_tokens ?w"
        by (simp add: token_budget_step)
      have "grows env br ?st1 ?st2" by (rule grows_refl) simp_all
      then have ran2: "ran env br 1 st s" if "grows env br ?st2 s" "meters s = meters ?st2" for s
        using that tok by (intro ran1) (auto simp: meters_def intro: grows_trans)
      have "progresses env br (tool_errors env) ?st2 (tool_turn env br oc ?st2)"
        by (rule tool_turn_progresses)
      with ran2 have tool: "ran env br 1 st s \<and>
          (case r of None \<Rightarrow> ls_iteration s = Suc ?i | Some r \<Rightarrow> returns_ok env s r)"
        if "tool_turn env br oc ?st2 = (s, r)" for s r
        using that by (auto simp: progresses_def returns_ok_def loop_errors_def
            split: option.splits sum.splits)
      moreover have "ran env br 1 st ?st2" by (rule ran2) (simp_all add: grows_refl)
      ultimately show ?thesis
        using assms(1) sup Inr SupOutcome
        by (auto simp: infer_step_def Let_def returns_ok_def split: if_splits)
    qed
  qed
qed

lemma loop_body_facts:
  assumes "loop_body env conv br st = (st', ret)"
  shows "\<exists>k. ran env br k st st' \<and> k \<le> 1 \<and> k \<le> wd_max_iterations (ls_watchdog st) - ls_iteration st \<and>
     (case ret of
        None \<Rightarrow> ls_iteration st' = Suc (ls_iteration st) \<and>
          ls_iteration st < wd_max_iterations (ls_watchdog st)
      | Some r \<Rightarrow> returns_ok env st' r)"
proof -
  let ?i = "ls_iteration st"
  let ?check = "watchdog_check (ls_watchdog st) (le_check_at env ?i) ?i (ls_tokens st)"
  consider (trip) e where "?check = Inl e" | (cancel) "?check = Inr ()" "le_cancelled env ?i"
    | (build) e where "?check = Inr ()" "\<not> le_cancelled env ?i"
        "le_build_for env ?i conv br (ls_history st) = Inl e"
    | (infer) ctx where "?check = Inr ()" "\<not> le_cancelled env ?i"
        "le_build_for env ?i conv br (ls_history st) = Inr ctx"
    by (metis old.sum.exhaust old.unit.exhaust)
  then show ?thesis
  proof cases
    case trip
    with assms watchdog_check_error [OF trip] show ?thesis
      by (intro exI [of _ 0]) (auto simp: loop_body_def Let_def ran_refl returns_ok_def loop_errors_def)
  next
    case cancel
    with assms show ?thesis
      by (intro exI [of _ 0])
        (auto simp: loop_body_def Let_def ran_refl returns_ok_def cancelled_outcome_def)
  next
    case build
    then have "e \<in> loop_errors env" unfolding loop_errors_def by blast
    with build assms show ?thesis
      by (intro exI [of _ 0]) (auto simp: loop_body_def Let_def ran_refl returns_ok_def)
  next
    case infer
    then have "?i < wd_max_iterations (ls_watchdog st)" "ls_tokens st < wd_max_tokens (ls_watchdog st)"
      by (simp_all add: watchdog_check_ok_iff)
    moreover from infer assms have "infer_step env br ctx st = (st', ret)"
      by (simp add: loop_body_def Let_def)
    moreover have "\<exists>i conv hist. le_build_for env i conv br hist = Inr ctx" using infer(3) by blast
    ultimately show ?thesis
      using infer_step_facts [of env br ctx st st' ret]
      by (intro exI [of _ 1]) (auto split: option.splits)
  qed
qed

section \<open>The loop terminates\<close>

function run_loop ::
    "loop_env \<Rightarrow> string \<Rightarrow> string \<Rightarrow> 'tool LoopState \<Rightarrow> 'tool LoopState \<times> AgentRunOutcome result" where
  "run_loop env conversation branch st =
     (case loop_body env conversation branch st of
        (st', Some r) \<Rightarrow> (st', r)
      | (st', None) \<Rightarrow> run_loop env conversation branch st')"
  by pat_completeness auto
termination
  by (relation "measure (\<lambda>(env, conv, br, st). wd_max_iterations (ls_watchdog st) - ls_iteration st)")
    (auto simp: ran_def dest!: loop_body_facts [OF sym])

declare run_loop.simps [simp del]

lemma run_loop_facts:
  "run_loop env conv br st = (st', r) \<Longrightarrow>
     \<exists>k. ran env br k st st' \<and> k \<le> wd_max_iterations (ls_watchdog st) - ls_iteration st \<and>
         returns_ok env st' r"
proof (induction env conv br st arbitrary: st' r rule: run_loop.induct)
  case (1 env conv br st)
  obtain st1 ret where body: "loop_body env conv br st = (st1, ret)" by fastforce
  from loop_body_facts [OF body] obtain j where
    j: "ran env br j st st1" "j \<le> 1" "j \<le> wd_max_iterations (ls_watchdog st) - ls_iteration st"
    and ret: "case ret of
        None \<Rightarrow> ls_iteration st1 = Suc (ls_iteration st) \<and>
          ls_iteration st < wd_max_iterations (ls_watchdog st)
      | Some r \<Rightarrow> returns_ok env st1 r" by blast
  show ?case
  proof (cases ret)
    case (Some r')
    have "run_loop env conv br st = (st1, r')"
      by (subst run_loop.simps) (simp add: body Some)
    with "1.prems" have "st' = st1" "r = r'" by simp_all
    with j ret Some show ?thesis by auto
  next
    case None
    have "run_loop env conv br st = run_loop env conv br st1"
      by (subst run_loop.simps) (simp add: body None)
    with "1.prems" have "run_loop env conv br st1 = (st', r)" by simp
    from "1.IH" [OF body [symmetric] None this] obtain k where
      k: "ran env br k st1 st'" "k \<le> wd_max_iterations (ls_watchdog st1) - ls_iteration st1"
        "returns_ok env st' r" by blast
    have "ran env br (j + k) st st'" using j(1) k(1) by (rule ran_trans)
    moreover have "ls_watchdog st1 = ls_watchdog st" using j(1) by (simp add: ran_def)
    ultimately show ?thesis using j ret None k by (intro exI [of _ "j + k"]) auto
  qed
qed


section \<open>Turns and runs\<close>

text \<open>The turn counter and cache of \<^verbatim>\<open>tools/hardware.rs\<close>.\<close>
record HardwareCache =
  hw_turn_generation :: u64
  hw_cached_payload :: "(u64 \<times> string) option"

definition begin_turn :: "HardwareCache \<Rightarrow> HardwareCache" where
  "begin_turn hw = \<lparr> hw_turn_generation = hw_turn_generation hw + 1, hw_cached_payload = None \<rparr>"

record RunSlots =
  next_run_generation :: u64
  active_run_generation :: u64

record 'tool AgentLoop =
  al_tools :: "'tool ToolExecutor"
  al_watchdog :: Watchdog
  al_hardware :: HardwareCache
  al_slots :: RunSlots

text \<open>The locals of the loop at the start of a turn, after the per-turn resets.\<close>
definition turn_state :: "loop_env \<Rightarrow> 'tool AgentLoop \<Rightarrow> ChatMessage list \<Rightarrow> 'tool LoopState" where
  "turn_state env al seed =
     \<lparr> ls_tools = reset_for_new_turn (al_tools al), ls_watchdog = rearm (le_rearm_at env) (al_watchdog al),
       ls_history = seed, ls_last_id = tip_id [] seed, ls_iteration = 0, ls_tokens = 0,
       ls_persisted = [], ls_events = [], ls_calls = [] \<rparr>"

definition run_seeded_inner ::
    "loop_env \<Rightarrow> string \<Rightarrow> string \<Rightarrow> 'tool AgentLoop \<Rightarrow> ChatMessage list
     \<Rightarrow> 'tool AgentLoop \<times> 'tool LoopState \<times> AgentRunOutcome result" where
  "run_seeded_inner env conversation branch al seed =
     (let st0 = turn_state env al seed;
          al1 = al\<lparr> al_tools := ls_tools st0, al_watchdog := ls_watchdog st0,
                    al_hardware := begin_turn (al_hardware al) \<rparr>
      in if seed = []
         then (al1, st0, Inl (Invariant ''agent run requires at least one durable seed message''))
         else if list_ex (\<lambda>m. msg_branch m \<noteq> branch) seed
         then (al1, st0, Inl (Invariant ''agent recovery seed spans multiple branches''))
         else case run_loop env conversation branch st0 of
                (st, r) \<Rightarrow> (al1\<lparr> al_tools := ls_tools st \<rparr>, st, r))"

definition begin_run :: "RunSlots \<Rightarrow> RunSlots \<times> u64" where
  "begin_run s =
     (let generation = saturating_add (next_run_generation s) 1
      in (\<lparr> next_run_generation = next_run_generation s + 1,
            active_run_generation = max (active_run_generation s) generation \<rparr>, generation))"

definition completion_stale :: "RunSlots \<Rightarrow> u64 \<Rightarrow> bool" where
  "completion_stale s generation \<longleftrightarrow>
     next_run_generation s \<noteq> generation \<or> active_run_generation s \<noteq> generation"

text \<open>\<open>ActiveRunGuard::drop\<close>\<close>
definition end_run :: "RunSlots \<Rightarrow> u64 \<Rightarrow> RunSlots" where
  "end_run s generation =
     (if active_run_generation s = generation then s\<lparr> active_run_generation := 0 \<rparr> else s)"

text \<open>
  \<open>run_seeded\<close>: \<open>panicked\<close> tells whether the inner future unwound; \<open>slots\<close> is the state of the
  two counters when the run completes, other runs having started and ended in between.
\<close>
definition settle_run ::
    "RunSlots \<Rightarrow> u64 \<Rightarrow> bool \<Rightarrow> AgentRunOutcome result \<Rightarrow> RunSlots \<times> AgentRunOutcome result" where
  "settle_run slots generation panicked r =
     (let result = (if panicked
             then Inl (Internal ''agent execution failed because an internal operation panicked'')
             else r)
      in (end_run slots generation,
          if completion_stale slots generation then Inl (Internal ''stale agent completion ignored'')
          else result))"

definition run_seeded ::
    "loop_env \<Rightarrow> (RunSlots \<Rightarrow> RunSlots) \<Rightarrow> bool \<Rightarrow> string \<Rightarrow> string \<Rightarrow> 'tool AgentLoop
     \<Rightarrow> ChatMessage list \<Rightarrow> 'tool AgentLoop \<times> AgentRunOutcome result" where
  "run_seeded env others panicked conversation branch al seed =
     (case begin_run (al_slots al) of
        (slots, generation) \<Rightarrow>
          (case run_seeded_inner env conversation branch (al\<lparr> al_slots := slots \<rparr>) seed of
             (al1, st, r) \<Rightarrow>
               (case settle_run (others (al_slots al1)) generation panicked r of
                  (slots', result) \<Rightarrow> (al1\<lparr> al_slots := slots' \<rparr>, result))))"

definition run_request ::
    "loop_env \<Rightarrow> (RunSlots \<Rightarrow> RunSlots) \<Rightarrow> bool \<Rightarrow> string \<Rightarrow> string \<Rightarrow> string \<Rightarrow> string \<Rightarrow> string
     \<Rightarrow> 'tool AgentLoop \<Rightarrow> 'tool AgentLoop \<times> AgentRunOutcome result" where
  "run_request env others panicked utc_now user_message_id user_input conversation branch al =
     run_seeded env others panicked conversation branch al
       [user_with_id utc_now user_message_id branch user_input]"

section \<open>Concurrent runs\<close>

text \<open>Runs of one loop begin and end in any order; \<open>n\<close> counts the runs begun so far.\<close>
inductive runs :: "nat \<Rightarrow> RunSlots \<Rightarrow> u64 set \<Rightarrow> bool" where
  runs_init: "runs 0 \<lparr> next_run_generation = 0, active_run_generation = 0 \<rparr> {}"
| runs_begin: "runs n s live \<Longrightarrow> begin_run s = (s', g) \<Longrightarrow> runs (Suc n) s' (insert g live)"
| runs_end: "runs n s live \<Longrightarrow> g \<in> live \<Longrightarrow> runs n (end_run s g) (live - {g})"

definition slots_inv :: "nat \<Rightarrow> RunSlots \<Rightarrow> u64 set \<Rightarrow> bool" where
  "slots_inv n s live \<longleftrightarrow>
     unat (next_run_generation s) = n \<and> unat (active_run_generation s) \<le> n \<and>
     (\<forall>g \<in> live. 0 < unat g \<and> unat g \<le> n) \<and>
     (next_run_generation s \<in> live \<longrightarrow> active_run_generation s = next_run_generation s)"

lemma runs_inv: "runs n s live \<Longrightarrow> n < 2 ^ 64 - 1 \<Longrightarrow> slots_inv n s live"
proof (induction rule: runs.induct)
  case runs_init
  then show ?case by (simp add: slots_inv_def)
next
  case (runs_begin n s live s' g)
  then have inv: "slots_inv n s live" by simp
  from runs_begin have g: "unat g = Suc n" "unat (next_run_generation s') = Suc n"
      "active_run_generation s' = max (active_run_generation s) g"
    using inv by (auto simp: begin_run_def Let_def slots_inv_def unat_saturating_add unat_word_ariths)
  moreover have "active_run_generation s \<le> g"
    using inv g(1) by (simp add: slots_inv_def word_le_nat_alt)
  moreover have "next_run_generation s' = g" using g by (simp add: word_unat_eq_iff)
  ultimately show ?case using inv by (auto simp: slots_inv_def max_def)
next
  case (runs_end n s live g)
  then show ?case by (auto simp: slots_inv_def end_run_def)
qed

lemma run_seeded_inner_facts:
  assumes "run_seeded_inner env conv br al seed = (al', st, r)"
  shows "(\<exists>k. ran env br k (turn_state env al seed) st \<and> k \<le> wd_max_iterations (al_watchdog al)) \<and>
     (case r of Inl e \<Rightarrow> e \<in> loop_errors env \<or> (seed = [] \<or> list_ex (\<lambda>m. msg_branch m \<noteq> br) seed) \<and>
                            (\<exists>s. e = Invariant s)
      | Inr oc \<Rightarrow> returns_ok env st (Inr oc))"
proof (cases "seed = [] \<or> list_ex (\<lambda>m. msg_branch m \<noteq> br) seed")
  case True
  with assms have "st = turn_state env al seed" "\<exists>s. r = Inl (Invariant s)"
    by (auto simp: run_seeded_inner_def Let_def split: if_splits)
  with True show ?thesis using ran_refl by auto
next
  case False
  then have "run_loop env conv br (turn_state env al seed) = (st, r)"
    using assms by (auto simp: run_seeded_inner_def Let_def split: prod.splits if_splits)
  from run_loop_facts [OF this] show ?thesis
    by (auto simp: turn_state_def returns_ok_def split: sum.splits)
qed

section \<open>The interface to the context builder\<close>

text \<open>
  What the loop relies on: a builder of prompts, all of which satisfy the builder's promise
  \<open>good\<close>. The loop then only ever submits good prompts.
\<close>
locale prompt_source =
  fixes build :: "nat \<Rightarrow> string \<Rightarrow> string \<Rightarrow> ChatMessage list \<Rightarrow> string result"
    and good :: "string \<Rightarrow> string \<Rightarrow> bool"
  assumes build_good: "build i conv br hist = Inr prompt \<Longrightarrow> good br prompt"
begin

lemma built_is_good: "prompt_built (env\<lparr> le_build_for := build \<rparr>) br c \<Longrightarrow> good br (fst c)"
  using build_good by (auto simp: prompt_built_def)

lemma submitted_prompts_good:
  assumes "run_seeded_inner (env\<lparr> le_build_for := build \<rparr>) conv br al seed = (al', st, r)"
  shows "list_all (\<lambda>c. good br (fst c)) (ls_calls st)"
proof -
  have "list_all (prompt_built (env\<lparr> le_build_for := build \<rparr>) br) (ls_calls st)"
    using run_seeded_inner_facts [OF assms] by (auto simp: ran_def turn_state_def)
  then show ?thesis by (auto simp: list_all_iff dest: built_is_good)
qed

end

section \<open>Properties\<close>

text \<open>
  C1: every turn terminates within its budgets. Whatever the model, the tools and the clock do, a
  turn makes at most \<open>max_iterations\<close> inference attempts, never accounts more than \<open>max_tokens\<close>
  tokens, and records for each attempt its start and exactly one terminal event.
\<close>
theorem agent_turn_bounded:
  "case run_seeded_inner env conversation branch al seed of
     (al', st, r) \<Rightarrow>
       length (ls_calls st) \<le> wd_max_iterations (al_watchdog al) \<and>
       ls_tokens st \<le> wd_max_tokens (al_watchdog al) \<and>
       (\<exists>atts. ls_events st = concat atts \<and> list_all attempt atts \<and> length atts = length (ls_calls st))"
proof -
  obtain al' st r where run: "run_seeded_inner env conversation branch al seed = (al', st, r)"
    by (metis prod_cases3)
  from run_seeded_inner_facts [OF run] obtain k where
    k: "ran env branch k (turn_state env al seed) st" "k \<le> wd_max_iterations (al_watchdog al)" by blast
  then have "ls_tokens st \<le> wd_max_tokens (al_watchdog al)"
    by (simp add: ran_def turn_state_def)
  with k run show ?thesis by (auto simp: ran_def turn_state_def)
qed

text \<open>
  C36: the history stays one durable branch. A turn only appends to the seed history; every
  appended message is active, on the turn's branch, and points to the message before it (the first
  one to the last seed message), and with a sink attached exactly the appended messages have been
  persisted, in order.
\<close>
theorem agent_history_linked:
  "case run_seeded_inner env conversation branch al seed of
     (al', st, r) \<Rightarrow>
       (\<exists>new. ls_history st = seed @ new \<and>
          linked_messages env branch (length seed) (tip_id [] seed) new \<and>
          ls_last_id st = tip_id [] (seed @ new) \<and>
          ls_persisted st = (if le_sink env = None then [] else new))"
proof -
  obtain al' st r where run: "run_seeded_inner env conversation branch al seed = (al', st, r)"
    by (metis prod_cases3)
  from run_seeded_inner_facts [OF run] show ?thesis
    by (auto simp: run ran_def grows_def grows_by_def turn_state_def)
qed

text \<open>
  C37: what a turn returns. A turn that succeeds names the last message of the history as the
  parent of the final answer; it is either cancelled, with no content, or carries the text of a
  completed inference that is not a tool call. A turn that fails reports a watchdog budget, an
  inference failure, an error of the context builder or of the persistence sink, a task that could
  not be joined, or an ill-formed seed: a tool that fails, is blocked, is unknown or was called
  with invalid arguments never ends the turn.
\<close>
theorem agent_turn_result:
  "case run_seeded_inner env conversation branch al seed of
     (al', st, Inr oc) \<Rightarrow>
       final_parent oc = tip_id [] (ls_history st) \<and>
       (cancelled oc \<longleftrightarrow> final_content oc = None) \<and>
       (case final_content oc of
          None \<Rightarrow> final_token_count oc = None
        | Some text \<Rightarrow> \<not> has_tool_call (le_from_str env) text \<and> final_token_count oc \<noteq> None)
   | (al', st, Inl e) \<Rightarrow>
       e \<in> loop_errors env \<or>
       (seed = [] \<or> list_ex (\<lambda>m. msg_branch m \<noteq> branch) seed) \<and> (\<exists>s. e = Invariant s)"
proof -
  obtain al' st r where run: "run_seeded_inner env conversation branch al seed = (al', st, r)"
    by (metis prod_cases3)
  note f = run_seeded_inner_facts [OF run]
  then have "ls_last_id st = tip_id [] (ls_history st)"
    by (auto simp: ran_def grows_def grows_by_def turn_state_def)
  with f run show ?thesis by (cases r) (auto simp: returns_ok_def)
qed

text \<open>
  C34: the latest run wins. Runs of one loop may overlap in any order; a completing run is reported
  (not discarded as stale) precisely when it is the most recently started one. The bound excludes
  the wrap-around of the 64-bit run counter.
\<close>
theorem agent_latest_run_wins:
  assumes "runs n s live" and "g \<in> live" and "n < 2 ^ 64 - 1"
  shows "snd (settle_run s g False r) =
     (if unat g = n then r else Inl (Internal ''stale agent completion ignored''))"
proof -
  from runs_inv [OF assms(1,3)] have inv: "slots_inv n s live" .
  have "completion_stale s g \<longleftrightarrow> unat g \<noteq> n"
  proof (cases "unat g = n")
    case True
    with inv have "next_run_generation s = g" by (simp add: slots_inv_def word_unat_eq_iff)
    with inv assms(2) True show ?thesis by (auto simp: completion_stale_def slots_inv_def)
  next
    case False
    with inv show ?thesis by (auto simp: completion_stale_def slots_inv_def)
  qed
  then show ?thesis by (simp add: settle_run_def Let_def)
qed

theorem agent_latest_run_wins_witness:
  "snd (settle_run \<lparr> next_run_generation = 2, active_run_generation = 2 \<rparr> 1 False
      (Inr \<lparr> final_parent = ''m'', final_token_count = None, final_content = None, cancelled = True \<rparr>)) =
     Inl (Internal ''stale agent completion ignored'')"
proof -
  have b1: "begin_run \<lparr> next_run_generation = 0, active_run_generation = 0 \<rparr> =
      (\<lparr> next_run_generation = 1, active_run_generation = 1 \<rparr>, 1)"
    and b2: "begin_run \<lparr> next_run_generation = 1, active_run_generation = 1 \<rparr> =
      (\<lparr> next_run_generation = 2, active_run_generation = 2 \<rparr>, 2)"
    by (simp_all add: begin_run_def saturating_add_def Let_def)
  have "runs (Suc (Suc 0)) \<lparr> next_run_generation = 2, active_run_generation = 2 \<rparr> {2, 1}"
    using runs_begin [OF runs_begin [OF runs_init b1] b2] by simp
  from agent_latest_run_wins [OF this, of 1] show ?thesis by simp
qed

end
