(* ===== verification/Model_Activation.thy ===== *)
theory Model_Activation
  imports Inference_Backend
begin

text \<open>
  The model activation service (\<^verbatim>\<open>engine/activation.rs\<close>): the authoritative lifecycle state, the
  selected and verified candidate, the backend that serves inference, and the generation counter
  that guards every commit. Each critical section of the source is one function here; activation
  and deactivation, which release the lock in the middle, are a \<open>begin\<close> and a \<open>finish\<close> step, and the
  relation \<open>activation_reach\<close> interleaves all of them freely. Backends are values of a type \<open>'be\<close>
  with a stable identity given by the argument \<open>ident\<close>; what a factory returns is an argument of
  the finishing step.
\<close>

section \<open>Model\<close>

datatype ActivationFailureCategory =
    AfcBackendUnavailable | AfcVerificationMismatch | AfcModelLoad | AfcBackendRejected | AfcInternal

primrec afc_as_tag :: "ActivationFailureCategory \<Rightarrow> string" where
  "afc_as_tag AfcBackendUnavailable = ''backend_unavailable''"
| "afc_as_tag AfcVerificationMismatch = ''verification_mismatch''"
| "afc_as_tag AfcModelLoad = ''model_load''"
| "afc_as_tag AfcBackendRejected = ''backend_rejected''"
| "afc_as_tag AfcInternal = ''internal''"

record VerifiedModelArtifact =
  artifact_id :: string
  local_path :: string

definition new_artifact :: "string \<Rightarrow> string \<Rightarrow> VerifiedModelArtifact result" where
  "new_artifact aid path =
     (if trim aid = []
      then Inl (Invariant ''verified model artifact requires a stable artifact id'')
      else Inr \<lparr> artifact_id = aid, local_path = path \<rparr>)"

record VerifiedModelDescriptor =
  model_id :: string
  revision :: string
  artifact :: VerifiedModelArtifact

definition new_descriptor ::
    "string \<Rightarrow> string \<Rightarrow> VerifiedModelArtifact \<Rightarrow> VerifiedModelDescriptor result" where
  "new_descriptor mid rv art =
     (if trim mid = [] \<or> trim rv = []
      then Inl (Invariant ''verified model descriptor requires model id and revision'')
      else Inr \<lparr> model_id = mid, revision = rv, artifact = art \<rparr>)"

definition same_model :: "VerifiedModelDescriptor \<Rightarrow> string \<Rightarrow> string \<Rightarrow> bool" where
  "same_model d mid rv \<longleftrightarrow> model_id d = mid \<and> revision d = rv"

definition desc_artifact_id :: "VerifiedModelDescriptor \<Rightarrow> string" where
  "desc_artifact_id d = artifact_id (artifact d)"

datatype ModelActivationState =
    NoModel
  | Missing string string u64
  | Verifying string string u64
  | Verified string string string u64
  | Activating string string string u64
  | Ready string string string u64 BackendKind
  | Failed string string string u64 ActivationFailureCategory
  | DeactivatingModel string string string u64

definition is_activation_in_progress :: "ModelActivationState \<Rightarrow> bool" where
  "is_activation_in_progress s =
     (case s of Verifying _ _ _ \<Rightarrow> True | Activating _ _ _ _ \<Rightarrow> True
      | DeactivatingModel _ _ _ _ \<Rightarrow> True | _ \<Rightarrow> False)"

definition is_verified :: "ModelActivationState \<Rightarrow> bool" where
  "is_verified s =
     (case s of Verified _ _ _ _ \<Rightarrow> True | Activating _ _ _ _ \<Rightarrow> True | Ready _ _ _ _ _ \<Rightarrow> True
      | DeactivatingModel _ _ _ _ \<Rightarrow> True | _ \<Rightarrow> False)"

record 'be ActiveBackend =
  ab_model_id :: string
  ab_revision :: string
  ab_artifact_id :: string
  ab_backend :: 'be

type_synonym activation_event =
  "string \<times> OutcomeClass \<times> u64 \<times> ActivationFailureCategory option \<times> BackendKind option"

record 'be ModelActivationService =
  sv_selected :: "(string \<times> string) option"
  sv_verified :: "VerifiedModelDescriptor option"
  sv_state :: ModelActivationState
  sv_active :: "'be ActiveBackend option"
  sv_generation :: u64
  sv_real_backend_available :: bool
  sv_events :: "activation_event list"

definition new_service :: "bool \<Rightarrow> 'be ModelActivationService" where
  "new_service real =
     \<lparr> sv_selected = None, sv_verified = None, sv_state = NoModel, sv_active = None,
       sv_generation = 0, sv_real_backend_available = real, sv_events = [] \<rparr>"

text \<open>\<open>fetch_add(1)\<close> wraps; the returned value saturates.\<close>
definition next_generation ::
    "'be ModelActivationService \<Rightarrow> 'be ModelActivationService \<times> u64" where
  "next_generation sv =
     (sv\<lparr> sv_generation := sv_generation sv + 1 \<rparr>, saturating_add (sv_generation sv) 1)"

definition set_real_backend_implementation_available ::
    "bool \<Rightarrow> 'be ModelActivationService \<Rightarrow> 'be ModelActivationService" where
  "set_real_backend_implementation_available available sv =
     sv\<lparr> sv_real_backend_available := available \<rparr>"

definition mark_model_missing ::
    "string \<Rightarrow> string \<Rightarrow> 'be ModelActivationService \<Rightarrow> 'be ModelActivationService \<times> u64" where
  "mark_model_missing mid rv sv =
     (case next_generation sv of (sv1, g) \<Rightarrow>
        (sv1\<lparr> sv_selected := Some (mid, rv), sv_verified := None,
              sv_state := Missing mid rv g \<rparr>, g))"

definition begin_verification ::
    "string \<Rightarrow> string \<Rightarrow> 'be ModelActivationService \<Rightarrow> 'be ModelActivationService \<times> u64" where
  "begin_verification mid rv sv =
     (case next_generation sv of (sv1, g) \<Rightarrow>
        (sv1\<lparr> sv_selected := Some (mid, rv), sv_verified := None,
              sv_state := Verifying mid rv g \<rparr>, g))"

definition mark_verification_failed ::
    "u64 \<Rightarrow> string \<Rightarrow> string \<Rightarrow> string \<Rightarrow> ActivationFailureCategory
     \<Rightarrow> 'be ModelActivationService \<Rightarrow> 'be ModelActivationService \<times> bool" where
  "mark_verification_failed g mid rv aid category sv =
     (if sv_generation sv \<noteq> g then (sv, False)
      else let selected_matches = (sv_selected sv = Some (mid, rv));
               verifying_matches = (sv_state sv = Verifying mid rv g)
           in if \<not> selected_matches \<or> \<not> verifying_matches then (sv, False)
              else (sv\<lparr> sv_verified := None, sv_state := Failed mid rv aid g category \<rparr>, True))"

definition selected_is :: "'be ModelActivationService \<Rightarrow> VerifiedModelDescriptor \<Rightarrow> bool" where
  "selected_is sv d =
     (case sv_selected sv of None \<Rightarrow> False | Some (mid, rv) \<Rightarrow> same_model d mid rv)"

definition verified_is :: "'be ModelActivationService \<Rightarrow> VerifiedModelDescriptor \<Rightarrow> bool" where
  "verified_is sv d =
     (case sv_verified sv of
        None \<Rightarrow> False
      | Some v \<Rightarrow> same_model v (model_id d) (revision d) \<and> desc_artifact_id v = desc_artifact_id d)"

definition mark_verified ::
    "u64 \<Rightarrow> VerifiedModelDescriptor \<Rightarrow> 'be ModelActivationService
     \<Rightarrow> 'be ModelActivationService \<times> bool" where
  "mark_verified g d sv =
     (if sv_generation sv \<noteq> g then (sv, False)
      else if \<not> selected_is sv d then (sv, False)
      else (sv\<lparr> sv_verified := Some d,
                sv_state := Verified (model_id d) (revision d) (desc_artifact_id d) g \<rparr>, True))"

datatype ActivationCommit =
    CommitReady
  | CommitFailed ActivationFailureCategory
  | StaleIgnored

definition record_activation_event ::
    "activation_event \<Rightarrow> 'be ModelActivationService \<Rightarrow> 'be ModelActivationService" where
  "record_activation_event e sv = sv\<lparr> sv_events := sv_events sv @ [e] \<rparr>"

text \<open>The first critical section of \<open>activate_verified\<close>: a commit (\<open>Inl\<close>) or the pending operation.\<close>
definition begin_activation ::
    "'be ModelActivationService
     \<Rightarrow> 'be ModelActivationService \<times> (ActivationCommit + VerifiedModelDescriptor \<times> u64)" where
  "begin_activation sv =
     (case sv_verified sv of
        None \<Rightarrow> (sv, Inl (CommitFailed AfcVerificationMismatch))
      | Some d \<Rightarrow>
          if \<not> selected_is sv d \<or> \<not> verified_is sv d then (sv, Inl StaleIgnored)
          else case next_generation sv of (sv1, op) \<Rightarrow>
            (record_activation_event (''model.activation.start'', OcSuccess, op, None, None)
               (sv1\<lparr> sv_state := Activating (model_id d) (revision d) (desc_artifact_id d) op \<rparr>),
             Inr (d, op)))"

definition commit_activation_failure ::
    "u64 \<Rightarrow> VerifiedModelDescriptor \<Rightarrow> ActivationFailureCategory \<Rightarrow> 'be ModelActivationService
     \<Rightarrow> 'be ModelActivationService \<times> bool" where
  "commit_activation_failure op d category sv =
     (if sv_generation sv \<noteq> op then (sv, False)
      else if \<not> selected_is sv d then (sv, False)
      else (sv\<lparr> sv_state := Failed (model_id d) (revision d) (desc_artifact_id d) op category \<rparr>, True))"

definition classify_activation_error :: "MukeiError \<Rightarrow> ActivationFailureCategory" where
  "classify_activation_error err =
     (case err of
        ModelCorrupted \<Rightarrow> AfcVerificationMismatch
      | ModelLoadFailed s \<Rightarrow> AfcModelLoad
      | ContextCreationFailed s \<Rightarrow> AfcModelLoad
      | MemoryPreflightRejected s \<Rightarrow> AfcModelLoad
      | OOM \<Rightarrow> AfcModelLoad
      | _ \<Rightarrow> AfcInternal)"

text \<open>How \<open>factory.activate(..)\<close> ends: a result, or a caught panic.\<close>
datatype 'be FactoryEvent = FactoryReturned "'be result" | FactoryPanicked

text \<open>A failure branch: commit it, record it, or report that the operation is stale.\<close>
definition fail_activation ::
    "u64 \<Rightarrow> VerifiedModelDescriptor \<Rightarrow> ActivationFailureCategory \<Rightarrow> OutcomeClass
     \<Rightarrow> BackendKind option \<Rightarrow> 'be ModelActivationService
     \<Rightarrow> 'be ModelActivationService \<times> ActivationCommit" where
  "fail_activation op d category cls kind sv =
     (case commit_activation_failure op d category sv of
        (sv1, False) \<Rightarrow> (sv1, StaleIgnored)
      | (sv1, True) \<Rightarrow>
          (record_activation_event (''model.activation.failure'', cls, op, Some category, kind) sv1,
           CommitFailed category))"

text \<open>The final swap, in one critical section.\<close>
definition commit_backend ::
    "('be \<Rightarrow> BackendIdentity) \<Rightarrow> u64 \<Rightarrow> VerifiedModelDescriptor \<Rightarrow> 'be
     \<Rightarrow> 'be ModelActivationService \<Rightarrow> 'be ModelActivationService \<times> ActivationCommit" where
  "commit_backend ident op d backend sv =
     (if sv_generation sv \<noteq> op then (sv, StaleIgnored)
      else if \<not> selected_is sv d \<or> \<not> verified_is sv d then (sv, StaleIgnored)
      else (record_activation_event
              (''model.activation.success'', OcSuccess, op, None, Some (id_kind (ident backend)))
              (sv\<lparr> sv_active := Some \<lparr> ab_model_id = model_id d, ab_revision = revision d,
                                       ab_artifact_id = desc_artifact_id d, ab_backend = backend \<rparr>,
                   sv_state := Ready (model_id d) (revision d) (desc_artifact_id d) op
                                 (id_kind (ident backend)) \<rparr>),
            CommitReady))"

text \<open>Everything after \<open>factory.activate(..).await\<close>.\<close>
definition finish_activation ::
    "('be \<Rightarrow> BackendIdentity) \<Rightarrow> u64 \<Rightarrow> VerifiedModelDescriptor \<Rightarrow> 'be FactoryEvent
     \<Rightarrow> 'be ModelActivationService \<Rightarrow> 'be ModelActivationService \<times> ActivationCommit" where
  "finish_activation ident op d ev sv =
     (case ev of
        FactoryReturned (Inl err) \<Rightarrow>
          fail_activation op d (classify_activation_error err) OcUnavailable None sv
      | FactoryPanicked \<Rightarrow> fail_activation op d AfcInternal OcInternalFailure None sv
      | FactoryReturned (Inr backend) \<Rightarrow>
          if id_kind (ident backend) = Unavailable
          then fail_activation op d AfcBackendUnavailable OcUnavailable
                 (Some (id_kind (ident backend))) sv
          else commit_backend ident op d backend sv)"

text \<open>\<open>activate_verified\<close> run without interference.\<close>
definition activate_verified ::
    "('be \<Rightarrow> BackendIdentity) \<Rightarrow> (VerifiedModelDescriptor \<Rightarrow> 'be FactoryEvent)
     \<Rightarrow> 'be ModelActivationService \<Rightarrow> 'be ModelActivationService \<times> ActivationCommit" where
  "activate_verified ident factory sv =
     (case begin_activation sv of
        (sv1, Inl c) \<Rightarrow> (sv1, c)
      | (sv1, Inr (d, op)) \<Rightarrow> finish_activation ident op d (factory d) sv1)"

type_synonym deactivation =
  "u64 \<times> (string \<times> string) option \<times> VerifiedModelDescriptor option"

text \<open>The first critical section of \<open>deactivate\<close>.\<close>
definition begin_deactivation ::
    "'be ModelActivationService \<Rightarrow> 'be ModelActivationService \<times> deactivation" where
  "begin_deactivation sv =
     (case next_generation sv of (sv1, op) \<Rightarrow>
        (sv1\<lparr> sv_state := (case sv_active sv of
                Some a \<Rightarrow> DeactivatingModel (ab_model_id a) (ab_revision a) (ab_artifact_id a) op
              | None \<Rightarrow> NoModel),
              sv_active := None \<rparr>,
         (op, sv_selected sv, sv_verified sv)))"

definition finish_deactivation ::
    "deactivation \<Rightarrow> 'be ModelActivationService \<Rightarrow> 'be ModelActivationService \<times> u64" where
  "finish_deactivation p sv =
     (case p of (op, selected, verified) \<Rightarrow>
        if sv_generation sv \<noteq> op then (sv, op)
        else (sv\<lparr> sv_state :=
                (case (selected, verified) of
                   (Some (mid, rv), Some d) \<Rightarrow>
                     if same_model d mid rv then Verified mid rv (desc_artifact_id d) op else NoModel
                 | (Some (mid, rv), None) \<Rightarrow> Missing mid rv op
                 | _ \<Rightarrow> NoModel) \<rparr>, op))"

definition deactivate :: "'be ModelActivationService \<Rightarrow> 'be ModelActivationService \<times> u64" where
  "deactivate sv = (case begin_deactivation sv of (sv1, p) \<Rightarrow> finish_deactivation p sv1)"

record ActiveModelSnapshot =
  am_model_id :: string
  am_revision :: string
  am_artifact_id :: string
  am_backend :: BackendIdentity

definition active_model_snapshot ::
    "('be \<Rightarrow> BackendIdentity) \<Rightarrow> 'be ModelActivationService \<Rightarrow> ActiveModelSnapshot option" where
  "active_model_snapshot ident sv =
     map_option (\<lambda>a. \<lparr> am_model_id = ab_model_id a, am_revision = ab_revision a,
                       am_artifact_id = ab_artifact_id a, am_backend = ident (ab_backend a) \<rparr>)
       (sv_active sv)"

record InferenceReadinessSnapshot =
  inference_interface_exists :: bool
  real_backend_implementation_available :: bool
  selected_model_exists :: bool
  selected_model_verified :: bool
  activation_in_progress :: bool
  active_backend_ready :: bool
  development_mock_active :: bool
  activation_failed :: bool
  product_ready :: bool
  snapshot_state :: ModelActivationState

definition readiness_snapshot ::
    "('be \<Rightarrow> BackendIdentity) \<Rightarrow> 'be ModelActivationService \<Rightarrow> InferenceReadinessSnapshot" where
  "readiness_snapshot ident sv =
     (let active_kind = map_option (\<lambda>a. id_kind (ident (ab_backend a))) (sv_active sv);
          ready = (active_kind \<noteq> None \<and> active_kind \<noteq> Some Unavailable);
          mock = (ready \<and> active_kind = Some DevelopmentMock);
          product = (sv_real_backend_available sv \<and> ready \<and> active_kind = Some Production)
      in \<lparr> inference_interface_exists = True,
           real_backend_implementation_available = sv_real_backend_available sv,
           selected_model_exists = (sv_selected sv \<noteq> None \<and>
             (case sv_state sv of Missing _ _ _ \<Rightarrow> False | _ \<Rightarrow> True)),
           selected_model_verified = is_verified (sv_state sv),
           activation_in_progress = is_activation_in_progress (sv_state sv),
           active_backend_ready = ready, development_mock_active = mock,
           activation_failed = (case sv_state sv of Failed _ _ _ _ _ \<Rightarrow> True | _ \<Rightarrow> False),
           product_ready = product, snapshot_state = sv_state sv \<rparr>)"

definition idle_reason :: "ModelActivationState \<Rightarrow> BackendUnavailableReason" where
  "idle_reason s =
     (case s of NoModel \<Rightarrow> NoModelSelected | Missing _ _ _ \<Rightarrow> ModelMissing
      | Verifying _ _ _ \<Rightarrow> ModelVerifying | Verified _ _ _ _ \<Rightarrow> ModelVerifiedNotActivated
      | Activating _ _ _ _ \<Rightarrow> ActivationInProgress | Failed _ _ _ _ _ \<Rightarrow> ActivationFailed
      | DeactivatingModel _ _ _ _ \<Rightarrow> Deactivating | Ready _ _ _ _ _ \<Rightarrow> Unspecified)"

definition service_identity ::
    "('be \<Rightarrow> BackendIdentity) \<Rightarrow> 'be ModelActivationService \<Rightarrow> BackendIdentity" where
  "service_identity ident sv =
     (case sv_active sv of
        Some a \<Rightarrow> ident (ab_backend a)
      | None \<Rightarrow> unavailable_with_reason ''activation_service'' (idle_reason (sv_state sv)))"

text \<open>\<open>run\<close> and \<open>run_bounded\<close>: the active backend is cloned out of the lock, then run.\<close>
definition service_run ::
    "('be \<Rightarrow> InferenceOutcome result) \<Rightarrow> 'be ModelActivationService \<Rightarrow> InferenceOutcome result" where
  "service_run run sv =
     (case sv_active sv of
        None \<Rightarrow> Inl (ModelLoadFailed ''active inference backend is not ready'')
      | Some a \<Rightarrow> run (ab_backend a))"

definition service_run_bounded ::
    "('be \<Rightarrow> u64 \<Rightarrow> InferenceOutcome result) \<Rightarrow> u64 \<Rightarrow> 'be ModelActivationService
     \<Rightarrow> InferenceOutcome result" where
  "service_run_bounded run max_tokens sv =
     (case sv_active sv of
        None \<Rightarrow> Inl (ModelLoadFailed ''active inference backend is not ready'')
      | Some a \<Rightarrow> run (ab_backend a) max_tokens)"


section \<open>Interleaved operation\<close>

text \<open>
  A configuration: the number of generations minted, the service, the generations that callers
  have been given, and the activations and deactivations that have begun and not finished.
\<close>
record 'be config =
  cf_minted :: nat
  cf_service :: "'be ModelActivationService"
  cf_issued :: "u64 set"
  cf_activations :: "(VerifiedModelDescriptor \<times> u64) set"
  cf_deactivations :: "deactivation set"

inductive activation_step ::
    "('be \<Rightarrow> BackendIdentity) \<Rightarrow> 'be config \<Rightarrow> 'be config \<Rightarrow> bool" for ident where
  step_available: "activation_step ident c
     (c\<lparr> cf_service := set_real_backend_implementation_available a (cf_service c) \<rparr>)"
| step_missing: "mark_model_missing m r (cf_service c) = (sv, g) \<Longrightarrow>
     activation_step ident c (c\<lparr> cf_minted := Suc (cf_minted c), cf_service := sv,
       cf_issued := insert g (cf_issued c) \<rparr>)"
| step_verifying: "begin_verification m r (cf_service c) = (sv, g) \<Longrightarrow>
     activation_step ident c (c\<lparr> cf_minted := Suc (cf_minted c), cf_service := sv,
       cf_issued := insert g (cf_issued c) \<rparr>)"
| step_verify_failed: "g \<in> cf_issued c \<Longrightarrow>
     activation_step ident c
       (c\<lparr> cf_service := fst (mark_verification_failed g m r a cat (cf_service c)) \<rparr>)"
| step_verified: "g \<in> cf_issued c \<Longrightarrow>
     activation_step ident c (c\<lparr> cf_service := fst (mark_verified g d (cf_service c)) \<rparr>)"
| step_activation_refused: "begin_activation (cf_service c) = (sv, Inl cm) \<Longrightarrow>
     activation_step ident c (c\<lparr> cf_service := sv \<rparr>)"
| step_activation_begin: "begin_activation (cf_service c) = (sv, Inr (d, op)) \<Longrightarrow>
     activation_step ident c (c\<lparr> cf_minted := Suc (cf_minted c), cf_service := sv,
       cf_activations := insert (d, op) (cf_activations c) \<rparr>)"
| step_activation_finish: "(d, op) \<in> cf_activations c \<Longrightarrow>
     activation_step ident c
       (c\<lparr> cf_service := fst (finish_activation ident op d ev (cf_service c)),
           cf_activations := cf_activations c - {(d, op)} \<rparr>)"
| step_deactivation_begin: "begin_deactivation (cf_service c) = (sv, p) \<Longrightarrow>
     activation_step ident c (c\<lparr> cf_minted := Suc (cf_minted c), cf_service := sv,
       cf_deactivations := insert p (cf_deactivations c) \<rparr>)"
| step_deactivation_finish: "p \<in> cf_deactivations c \<Longrightarrow>
     activation_step ident c
       (c\<lparr> cf_service := fst (finish_deactivation p (cf_service c)),
           cf_issued := insert (fst p) (cf_issued c),
           cf_deactivations := cf_deactivations c - {p} \<rparr>)"

inductive activation_reach :: "('be \<Rightarrow> BackendIdentity) \<Rightarrow> 'be config \<Rightarrow> bool" for ident where
  reach_init: "activation_reach ident
     \<lparr> cf_minted = 0, cf_service = new_service real, cf_issued = {}, cf_activations = {},
       cf_deactivations = {} \<rparr>"
| reach_step: "activation_reach ident c \<Longrightarrow> activation_step ident c c' \<Longrightarrow> activation_reach ident c'"

text \<open>The lifecycle state is backed by the candidate, the active backend and the generation.\<close>
definition verified_with ::
    "'be ModelActivationService \<Rightarrow> string \<Rightarrow> string \<Rightarrow> string \<Rightarrow> bool" where
  "verified_with sv m r a \<longleftrightarrow>
     (\<exists>d. sv_verified sv = Some d \<and> model_id d = m \<and> revision d = r \<and> desc_artifact_id d = a)"

definition state_backed :: "('be \<Rightarrow> BackendIdentity) \<Rightarrow> 'be ModelActivationService \<Rightarrow> bool" where
  "state_backed ident sv \<longleftrightarrow>
     (case sv_state sv of
        NoModel \<Rightarrow> True
      | Missing m r g \<Rightarrow> g = sv_generation sv \<and> sv_selected sv = Some (m, r) \<and> sv_verified sv = None
      | Verifying m r g \<Rightarrow> g = sv_generation sv \<and> sv_selected sv = Some (m, r) \<and> sv_verified sv = None
      | Verified m r a g \<Rightarrow> g = sv_generation sv \<and> verified_with sv m r a
      | Activating m r a g \<Rightarrow> g = sv_generation sv \<and> verified_with sv m r a
      | Ready m r a g k \<Rightarrow> g = sv_generation sv \<and> verified_with sv m r a \<and> k \<noteq> Unavailable \<and>
          (\<exists>b. sv_active sv = Some b \<and> ab_model_id b = m \<and> ab_revision b = r \<and>
               ab_artifact_id b = a \<and> id_kind (ident (ab_backend b)) = k)
      | Failed m r a g c \<Rightarrow> g = sv_generation sv \<and> sv_selected sv = Some (m, r)
      | DeactivatingModel m r a g \<Rightarrow> g = sv_generation sv \<and> sv_active sv = None)"

definition service_inv :: "('be \<Rightarrow> BackendIdentity) \<Rightarrow> 'be ModelActivationService \<Rightarrow> bool" where
  "service_inv ident sv \<longleftrightarrow>
     state_backed ident sv \<and>
     (case sv_verified sv of None \<Rightarrow> True | Some d \<Rightarrow> sv_selected sv = Some (model_id d, revision d)) \<and>
     (case sv_active sv of None \<Rightarrow> True | Some b \<Rightarrow> id_kind (ident (ab_backend b)) \<noteq> Unavailable)"

text \<open>A pending deactivation that is still current has captured the candidate as it is.\<close>
definition deactivation_ok :: "'be config \<Rightarrow> deactivation \<Rightarrow> bool" where
  "deactivation_ok c p \<longleftrightarrow>
     unat (fst p) \<le> cf_minted c \<and> fst p \<notin> cf_issued c \<and> (\<forall>a \<in> cf_activations c. snd a \<noteq> fst p) \<and>
     (fst p = sv_generation (cf_service c) \<longrightarrow>
        snd p = (sv_selected (cf_service c), sv_verified (cf_service c)) \<and>
        sv_active (cf_service c) = None)"

definition config_inv :: "('be \<Rightarrow> BackendIdentity) \<Rightarrow> 'be config \<Rightarrow> bool" where
  "config_inv ident c \<longleftrightarrow>
     service_inv ident (cf_service c) \<and> unat (sv_generation (cf_service c)) = cf_minted c \<and>
     (\<forall>g \<in> cf_issued c. unat g \<le> cf_minted c) \<and>
     (\<forall>a \<in> cf_activations c. unat (snd a) \<le> cf_minted c \<and> snd a \<notin> cf_issued c) \<and>
     (\<forall>p \<in> cf_deactivations c. deactivation_ok c p) \<and>
     inj_on fst (cf_deactivations c)"

lemma next_generation_minted:
  assumes "unat (sv_generation sv) = n" and "Suc n < 2 ^ 64" and "next_generation sv = (sv1, g)"
  shows "sv1 = sv\<lparr> sv_generation := g \<rparr>" and "unat g = Suc n"
proof -
  from assms have g: "g = saturating_add (sv_generation sv) 1" and sv1: "sv1 = sv\<lparr> sv_generation := sv_generation sv + 1 \<rparr>"
    by (simp_all add: next_generation_def)
  from g assms show u: "unat g = Suc n" by (simp add: unat_saturating_add)
  have "unat (sv_generation sv + 1) = Suc n" using assms by (simp add: unat_word_ariths)
  with u have "sv_generation sv + 1 = g" by (simp add: word_unat_eq_iff)
  with sv1 show "sv1 = sv\<lparr> sv_generation := g \<rparr>" by simp
qed

section \<open>Each operation keeps the service invariant\<close>

lemmas service_inv_defs = service_inv_def state_backed_def verified_with_def selected_is_def
  verified_is_def same_model_def desc_artifact_id_def

lemma service_inv_missing:
  assumes "service_inv ident sv"
  shows "service_inv ident (sv\<lparr> sv_generation := g, sv_selected := Some (m, r), sv_verified := None, sv_state := Missing m r g \<rparr>)"
    "service_inv ident (sv\<lparr> sv_generation := g, sv_selected := Some (m, r), sv_verified := None, sv_state := Verifying m r g \<rparr>)"
  using assms by (auto simp: service_inv_defs split: option.splits)

lemma service_inv_verify_failed:
  assumes "service_inv ident sv"
  shows "service_inv ident (fst (mark_verification_failed g m r a cat sv))"
proof (cases "sv_generation sv = g \<and> sv_selected sv = Some (m, r) \<and> sv_state sv = Verifying m r g")
  case True
  with assms show ?thesis
    by (auto simp: mark_verification_failed_def service_inv_defs split: option.splits)
next
  case False
  then have "fst (mark_verification_failed g m r a cat sv) = sv"
    by (auto simp: mark_verification_failed_def Let_def)
  with assms show ?thesis by simp
qed

lemma service_inv_verified:
  assumes "service_inv ident sv"
  shows "service_inv ident (fst (mark_verified g d sv))"
proof (cases "sv_generation sv = g \<and> selected_is sv d")
  case True
  with assms show ?thesis by (auto simp: mark_verified_def service_inv_defs split: option.splits)
next
  case False
  then have "fst (mark_verified g d sv) = sv" by (auto simp: mark_verified_def)
  with assms show ?thesis by simp
qed

lemma service_inv_event [simp]:
  "service_inv ident (record_activation_event e sv) = service_inv ident sv"
  by (simp add: record_activation_event_def service_inv_def state_backed_def verified_with_def
      cong: ModelActivationState.case_cong option.case_cong)

lemma service_inv_fail:
  assumes "service_inv ident sv"
  shows "service_inv ident (fst (fail_activation op d cat cls k sv))"
proof (cases "sv_generation sv = op \<and> selected_is sv d")
  case True
  with assms show ?thesis
    by (simp add: fail_activation_def commit_activation_failure_def)
      (auto simp: service_inv_defs split: option.splits)
next
  case False
  then have "fst (fail_activation op d cat cls k sv) = sv"
    by (auto simp: fail_activation_def commit_activation_failure_def)
  with assms show ?thesis by simp
qed

lemma service_inv_commit:
  assumes "service_inv ident sv" and "id_kind (ident b) \<noteq> Unavailable"
  shows "service_inv ident (fst (commit_backend ident op d b sv))"
proof (cases "sv_generation sv = op \<and> selected_is sv d \<and> verified_is sv d")
  case True
  with assms show ?thesis
    by (simp add: commit_backend_def) (auto simp: service_inv_defs split: option.splits)
next
  case False
  then have "fst (commit_backend ident op d b sv) = sv" by (auto simp: commit_backend_def)
  with assms show ?thesis by simp
qed

lemma service_inv_finish:
  "service_inv ident sv \<Longrightarrow> service_inv ident (fst (finish_activation ident op d ev sv))"
  by (auto simp: finish_activation_def service_inv_fail service_inv_commit
      split: FactoryEvent.split sum.split)

text \<open>Finishing steps never touch the candidate or the generation.\<close>
lemma finish_activation_frame [simp]:
  "sv_generation (fst (finish_activation ident op d ev sv)) = sv_generation sv"
  "sv_selected (fst (finish_activation ident op d ev sv)) = sv_selected sv"
  "sv_verified (fst (finish_activation ident op d ev sv)) = sv_verified sv"
  by (simp_all add: finish_activation_def fail_activation_def commit_activation_failure_def
      commit_backend_def record_activation_event_def split: FactoryEvent.split sum.split)

lemma finish_activation_stale:
  "sv_generation sv \<noteq> op \<Longrightarrow> finish_activation ident op d ev sv = (sv, StaleIgnored)"
  by (simp add: finish_activation_def fail_activation_def commit_activation_failure_def
      commit_backend_def split: FactoryEvent.split sum.split)

lemma finish_deactivation_frame [simp]:
  "sv_generation (fst (finish_deactivation p sv)) = sv_generation sv"
  "sv_selected (fst (finish_deactivation p sv)) = sv_selected sv"
  "sv_verified (fst (finish_deactivation p sv)) = sv_verified sv"
  "sv_active (fst (finish_deactivation p sv)) = sv_active sv"
  by (simp_all add: finish_deactivation_def split: prod.split)

lemma mark_frame [simp]:
  "sv_generation (fst (mark_verified g d sv)) = sv_generation sv"
  "sv_selected (fst (mark_verified g d sv)) = sv_selected sv"
  "sv_active (fst (mark_verified g d sv)) = sv_active sv"
  "sv_generation (fst (mark_verification_failed g m r a cat sv)) = sv_generation sv"
  "sv_selected (fst (mark_verification_failed g m r a cat sv)) = sv_selected sv"
  "sv_active (fst (mark_verification_failed g m r a cat sv)) = sv_active sv"
  by (simp_all add: mark_verified_def mark_verification_failed_def Let_def)


lemma service_inv_deactivation:
  assumes "service_inv ident sv"
  shows "service_inv ident (sv\<lparr> sv_generation := g,
      sv_state := (case sv_active sv of
        Some a \<Rightarrow> DeactivatingModel (ab_model_id a) (ab_revision a) (ab_artifact_id a) g
      | None \<Rightarrow> NoModel), sv_active := None \<rparr>)"
  using assms by (auto simp: service_inv_defs split: option.splits)

lemma service_inv_activating:
  assumes "service_inv ident sv" and "sv_verified sv = Some d"
  shows "service_inv ident (sv\<lparr> sv_generation := g,
      sv_state := Activating (model_id d) (revision d) (desc_artifact_id d) g \<rparr>)"
  using assms by (auto simp: service_inv_defs split: option.splits)

lemma service_inv_finish_deactivation:
  assumes "service_inv ident sv" and "op = sv_generation sv \<longrightarrow> sel = sv_selected sv \<and> ver = sv_verified sv"
  shows "service_inv ident (fst (finish_deactivation (op, sel, ver) sv))"
proof (cases "sv_generation sv = op")
  case True
  with assms show ?thesis
    by (auto simp: finish_deactivation_def service_inv_defs split: option.splits prod.splits)
next
  case False
  then have "fst (finish_deactivation (op, sel, ver) sv) = sv" by (simp add: finish_deactivation_def)
  with assms show ?thesis by simp
qed

section \<open>The configuration invariant\<close>

lemma config_inv_parts:
  assumes "config_inv ident c"
  shows "service_inv ident (cf_service c)" "unat (sv_generation (cf_service c)) = cf_minted c"
  using assms by (simp_all add: config_inv_def)

text \<open>A freshly minted generation is none of the generations in circulation.\<close>
lemma minted_fresh:
  assumes "config_inv ident c" and "unat g = Suc (cf_minted c)"
  shows "g \<notin> cf_issued c" "g \<notin> snd ` cf_activations c" "g \<notin> fst ` cf_deactivations c"
proof -
  have "unat x \<le> cf_minted c" if "x \<in> cf_issued c \<union> snd ` cf_activations c \<union> fst ` cf_deactivations c" for x
    using that assms(1) by (auto simp: config_inv_def deactivation_ok_def)
  with assms(2) show "g \<notin> cf_issued c" "g \<notin> snd ` cf_activations c" "g \<notin> fst ` cf_deactivations c"
    by fastforce+
qed

text \<open>Minting a generation for a caller, an activation or a deactivation.\<close>
lemma config_inv_mint_issue:
  assumes "config_inv ident c" and "unat g = Suc (cf_minted c)"
    and "service_inv ident sv" and "sv_generation sv = g"
  shows "config_inv ident (c\<lparr> cf_minted := Suc (cf_minted c), cf_service := sv,
      cf_issued := insert g (cf_issued c) \<rparr>)"
  using assms minted_fresh [OF assms(1,2)]
  by (auto simp: config_inv_def deactivation_ok_def le_SucI)

lemma config_inv_mint_activation:
  assumes "config_inv ident c" and "unat g = Suc (cf_minted c)"
    and "service_inv ident sv" and "sv_generation sv = g"
  shows "config_inv ident (c\<lparr> cf_minted := Suc (cf_minted c), cf_service := sv,
      cf_activations := insert (d, g) (cf_activations c) \<rparr>)"
  using assms minted_fresh [OF assms(1,2)]
  by (auto simp: config_inv_def deactivation_ok_def le_SucI)

lemma config_inv_mint_deactivation:
  assumes "config_inv ident c" and "unat g = Suc (cf_minted c)"
    and "service_inv ident sv" and "sv_generation sv = g" and "sv_active sv = None"
  shows "config_inv ident (c\<lparr> cf_minted := Suc (cf_minted c), cf_service := sv,
      cf_deactivations := insert (g, sv_selected sv, sv_verified sv) (cf_deactivations c) \<rparr>)"
  using assms minted_fresh [OF assms(1,2)]
  by (auto simp: config_inv_def deactivation_ok_def le_SucI)

text \<open>A step that mints nothing and leaves the candidate alone unless its caller held the current generation.\<close>
lemma config_inv_update:
  assumes "config_inv ident c" and "service_inv ident sv"
    and "sv_generation sv = sv_generation (cf_service c)"
    and "sv_selected sv = sv_selected (cf_service c)"
    and "sv_generation (cf_service c) \<in> cf_issued c \<or>
         (\<exists>a \<in> cf_activations c. snd a = sv_generation (cf_service c)) \<or>
         sv_verified sv = sv_verified (cf_service c) \<and> sv_active sv = sv_active (cf_service c)"
  shows "config_inv ident (c\<lparr> cf_service := sv \<rparr>)"
proof -
  have "deactivation_ok (c\<lparr> cf_service := sv \<rparr>) p" if "p \<in> cf_deactivations c" for p
  proof -
    have "deactivation_ok c p" using assms(1) that by (simp add: config_inv_def)
    with assms(3-5) show ?thesis unfolding deactivation_ok_def by auto
  qed
  with assms(1-3) show ?thesis by (simp add: config_inv_def)
qed

lemma config_inv_drop_activation:
  "config_inv ident c \<Longrightarrow> config_inv ident (c\<lparr> cf_activations := cf_activations c - A \<rparr>)"
  unfolding config_inv_def deactivation_ok_def by simp

lemma config_inv_end_deactivation:
  assumes "config_inv ident c" and "p \<in> cf_deactivations c"
  shows "config_inv ident (c\<lparr> cf_issued := insert (fst p) (cf_issued c),
      cf_deactivations := cf_deactivations c - {p} \<rparr>)" (is "config_inv ident ?c")
proof -
  have inj: "inj_on fst (cf_deactivations c)" and p: "deactivation_ok c p"
    using assms by (simp_all add: config_inv_def)
  have "deactivation_ok ?c q" if "q \<in> cf_deactivations c - {p}" for q
  proof -
    have "fst q \<noteq> fst p" using inj assms(2) that by (auto dest: inj_onD)
    moreover have "deactivation_ok c q" using assms(1) that by (simp add: config_inv_def)
    ultimately show ?thesis by (simp add: deactivation_ok_def)
  qed
  moreover have "\<forall>a \<in> cf_activations c. snd a \<noteq> fst p" "unat (fst p) \<le> cf_minted c"
    using p by (simp_all add: deactivation_ok_def)
  ultimately show ?thesis
    using assms(1) inj by (simp add: config_inv_def inj_on_diff)
qed


text \<open>The minting steps, one by one.\<close>
lemma mint_selection:
  assumes inv: "config_inv ident c" and "Suc (cf_minted c) < 2 ^ 64"
    and "mark_model_missing m r (cf_service c) = (sv, g) \<or> begin_verification m r (cf_service c) = (sv, g)"
  shows "config_inv ident (c\<lparr> cf_minted := Suc (cf_minted c), cf_service := sv,
      cf_issued := insert g (cf_issued c) \<rparr>)"
proof -
  obtain sv1 h where n: "next_generation (cf_service c) = (sv1, h)" by fastforce
  note g = next_generation_minted [OF config_inv_parts(2) [OF inv] assms(2) n]
  from assms(3) n have h: "h = g"
    by (auto simp: mark_model_missing_def begin_verification_def)
  have "service_inv ident sv" "sv_generation sv = g"
    using assms(3) n g h service_inv_missing [OF config_inv_parts(1) [OF inv]]
    by (auto simp: mark_model_missing_def begin_verification_def)
  with g h show ?thesis by (intro config_inv_mint_issue [OF inv]) simp_all
qed

lemma mint_activation:
  assumes inv: "config_inv ident c" and "Suc (cf_minted c) < 2 ^ 64"
    and "begin_activation (cf_service c) = (sv, Inr (d, op))"
  shows "config_inv ident (c\<lparr> cf_minted := Suc (cf_minted c), cf_service := sv,
      cf_activations := insert (d, op) (cf_activations c) \<rparr>)"
proof -
  let ?e = "(''model.activation.start'', OcSuccess, op, None, None)"
  obtain sv1 where ver: "sv_verified (cf_service c) = Some d" and n: "next_generation (cf_service c) = (sv1, op)"
    and sv: "sv = record_activation_event ?e
        (sv1\<lparr> sv_state := Activating (model_id d) (revision d) (desc_artifact_id d) op \<rparr>)"
    using assms(3) by (auto simp: begin_activation_def split: option.splits if_splits prod.splits)
  note g = next_generation_minted [OF config_inv_parts(2) [OF inv] assms(2) n]
  have "service_inv ident sv"
    unfolding sv service_inv_event using g service_inv_activating [OF config_inv_parts(1) [OF inv] ver]
    by simp
  moreover have "sv_generation sv = op" by (simp add: sv g record_activation_event_def)
  ultimately show ?thesis using g by (intro config_inv_mint_activation [OF inv])
qed

lemma mint_deactivation:
  assumes inv: "config_inv ident c" and "Suc (cf_minted c) < 2 ^ 64"
    and "begin_deactivation (cf_service c) = (sv, p)"
  shows "config_inv ident (c\<lparr> cf_minted := Suc (cf_minted c), cf_service := sv,
      cf_deactivations := insert p (cf_deactivations c) \<rparr>)"
proof -
  obtain sv1 op where n: "next_generation (cf_service c) = (sv1, op)" by fastforce
  note g = next_generation_minted [OF config_inv_parts(2) [OF inv] assms(2) n]
  have "service_inv ident sv" "sv_generation sv = op" "sv_active sv = None"
    "p = (op, sv_selected sv, sv_verified sv)"
    using assms(3) n g service_inv_deactivation [OF config_inv_parts(1) [OF inv], of op]
    by (auto simp: begin_deactivation_def)
  with g show ?thesis using config_inv_mint_deactivation [OF inv, of op sv] by simp
qed

text \<open>The steps that mint nothing.\<close>
lemma update_available:
  assumes inv: "config_inv ident c"
  shows "config_inv ident (c\<lparr> cf_service := set_real_backend_implementation_available a (cf_service c) \<rparr>)"
proof -
  have "service_inv ident (set_real_backend_implementation_available a (cf_service c))"
    using config_inv_parts(1) [OF inv]
    by (simp add: set_real_backend_implementation_available_def service_inv_def state_backed_def
        verified_with_def cong: ModelActivationState.case_cong option.case_cong)
  then show ?thesis
    by (intro config_inv_update [OF inv]) (simp_all add: set_real_backend_implementation_available_def)
qed

lemma update_mark:
  assumes inv: "config_inv ident c" and "g \<in> cf_issued c"
  shows "config_inv ident (c\<lparr> cf_service := fst (mark_verification_failed g m r a cat (cf_service c)) \<rparr>)"
    and "config_inv ident (c\<lparr> cf_service := fst (mark_verified g d (cf_service c)) \<rparr>)"
proof -
  have "sv_generation (cf_service c) \<in> cf_issued c \<or>
      sv_verified (fst (mark_verification_failed g m r a cat (cf_service c))) = sv_verified (cf_service c)"
    using assms(2) by (auto simp: mark_verification_failed_def Let_def)
  then show "config_inv ident (c\<lparr> cf_service := fst (mark_verification_failed g m r a cat (cf_service c)) \<rparr>)"
    by (intro config_inv_update [OF inv])
      (auto simp: service_inv_verify_failed [OF config_inv_parts(1) [OF inv]])
  have "sv_generation (cf_service c) \<in> cf_issued c \<or>
      sv_verified (fst (mark_verified g d (cf_service c))) = sv_verified (cf_service c)"
    using assms(2) by (auto simp: mark_verified_def)
  then show "config_inv ident (c\<lparr> cf_service := fst (mark_verified g d (cf_service c)) \<rparr>)"
    by (intro config_inv_update [OF inv])
      (auto simp: service_inv_verified [OF config_inv_parts(1) [OF inv]])
qed

lemma update_finish_activation:
  assumes inv: "config_inv ident c" and "(d, op) \<in> cf_activations c"
  shows "config_inv ident (c\<lparr> cf_service := fst (finish_activation ident op d ev (cf_service c)),
      cf_activations := cf_activations c - {(d, op)} \<rparr>)"
proof -
  let ?sv = "fst (finish_activation ident op d ev (cf_service c))"
  have "op = sv_generation (cf_service c) \<or> ?sv = cf_service c"
    using finish_activation_stale [of "cf_service c" op ident d ev]
    by (cases "op = sv_generation (cf_service c)") auto
  moreover have "\<exists>a \<in> cf_activations c. snd a = op" using assms(2) by force
  ultimately have "config_inv ident (c\<lparr> cf_service := ?sv \<rparr>)"
    by (intro config_inv_update [OF inv])
      (auto simp: service_inv_finish [OF config_inv_parts(1) [OF inv]])
  from config_inv_drop_activation [OF this, of "{(d, op)}"] show ?thesis by simp
qed

lemma update_finish_deactivation:
  assumes inv: "config_inv ident c" and "p \<in> cf_deactivations c"
  shows "config_inv ident (c\<lparr> cf_service := fst (finish_deactivation p (cf_service c)),
      cf_issued := insert (fst p) (cf_issued c), cf_deactivations := cf_deactivations c - {p} \<rparr>)"
proof -
  obtain op sel ver where p: "p = (op, sel, ver)" by (metis prod_cases3)
  have "deactivation_ok c p" using inv assms(2) by (simp add: config_inv_def)
  then have "op = sv_generation (cf_service c) \<longrightarrow> sel = sv_selected (cf_service c) \<and> ver = sv_verified (cf_service c)"
    by (simp add: deactivation_ok_def p)
  from service_inv_finish_deactivation [OF config_inv_parts(1) [OF inv] this]
  have "config_inv ident (c\<lparr> cf_service := fst (finish_deactivation p (cf_service c)) \<rparr>)"
    unfolding p by (intro config_inv_update [OF inv]) auto
  from config_inv_end_deactivation [OF this] assms(2) show ?thesis by simp
qed

lemma activation_step_inv:
  assumes "activation_step ident c c'" and inv: "config_inv ident c" and "cf_minted c' < 2 ^ 64"
  shows "config_inv ident c'"
  using assms(1)
proof cases
  case (step_activation_refused sv cm)
  then have "sv = cf_service c"
    by (auto simp: begin_activation_def split: option.splits if_splits prod.splits)
  with step_activation_refused inv show ?thesis by simp
qed (use assms(3) in \<open>auto intro: mint_selection [OF inv] mint_activation [OF inv]
    mint_deactivation [OF inv] update_available [OF inv] update_mark [OF inv]
    update_finish_activation [OF inv] update_finish_deactivation [OF inv]\<close>)

lemma activation_step_minted: "activation_step ident c c' \<Longrightarrow> cf_minted c \<le> cf_minted c'"
  by (induction rule: activation_step.induct) auto

lemma activation_reach_inv:
  "activation_reach ident c \<Longrightarrow> cf_minted c < 2 ^ 64 \<Longrightarrow> config_inv ident c"
proof (induction rule: activation_reach.induct)
  case (reach_init real)
  show ?case
    by (simp add: config_inv_def service_inv_def state_backed_def new_service_def)
next
  case (reach_step c c')
  from activation_step_minted [OF reach_step(2)] reach_step show ?case
    by (intro activation_step_inv [OF reach_step(2)]) auto
qed


section \<open>Properties\<close>

text \<open>
  C7: the lifecycle state is truthful. In every state reached by any interleaving of selections,
  verifications, activations and deactivations, a state that carries a generation carries the
  current one; a verified or activating state is backed by the verified descriptor it names;
  \<open>Ready\<close> is backed by an active backend for exactly that model, revision and artifact, whose kind
  is the reported one and is not \<open>Unavailable\<close>; and the verified descriptor is always the selected
  model's. The bound excludes the wrap-around of the 64-bit generation counter.
\<close>
theorem activation_state_truthful:
  assumes "activation_reach ident c" and "cf_minted c < 2 ^ 64"
  shows "service_inv ident (cf_service c)"
  using activation_reach_inv [OF assms] by (rule config_inv_parts(1))

definition sample_descriptor :: VerifiedModelDescriptor where
  "sample_descriptor = \<lparr> model_id = ''m'', revision = ''1'',
     artifact = \<lparr> artifact_id = ''a'', local_path = ''p'' \<rparr> \<rparr>"

definition sample_config :: "BackendKind config" where
  "sample_config = \<lparr> cf_minted = 1,
     cf_service = fst (begin_verification ''m'' ''1'' (new_service True)), cf_issued = {1},
     cf_activations = {}, cf_deactivations = {} \<rparr>"

lemma sample_config_reach: "activation_reach ident sample_config"
proof -
  let ?c = "\<lparr> cf_minted = 0, cf_service = new_service True, cf_issued = {}, cf_activations = {},
     cf_deactivations = {} \<rparr> :: BackendKind config"
  have "activation_step ident ?c (?c\<lparr> cf_minted := Suc (cf_minted ?c),
      cf_service := fst (begin_verification ''m'' ''1'' (new_service True)), cf_issued := insert 1 (cf_issued ?c) \<rparr>)"
    by (rule step_verifying [of "''m''" "''1''"])
      (simp add: begin_verification_def next_generation_def new_service_def saturating_add_def)
  from reach_step [OF reach_init this] show ?thesis by (simp add: sample_config_def)
qed

theorem activation_state_truthful_witness:
  "service_inv (\<lambda>k. \<lparr> id_kind = k, id_implementation = ''x'', id_unavailable_reason = None \<rparr>)
     (cf_service sample_config)"
  by (rule activation_state_truthful [OF sample_config_reach]) (simp add: sample_config_def)

text \<open>
  Stale activations never commit. An activation that another generation has overtaken is
  ignored when its backend arrives, whatever the factory returned: the service, its events and its
  serving backend are exactly as they were.
\<close>
theorem activation_overtaken_is_ignored:
  assumes "activation_reach ident c" and "cf_minted c < 2 ^ 64"
    and "(d, op) \<in> cf_activations c" and "unat op \<noteq> cf_minted c"
  shows "finish_activation ident op d ev (cf_service c) = (cf_service c, StaleIgnored)"
proof (rule finish_activation_stale)
  show "sv_generation (cf_service c) \<noteq> op"
    using config_inv_parts(2) [OF activation_reach_inv [OF assms(1,2)]] assms(4) by auto
qed

theorem activation_overtaken_is_ignored_witness:
  "let ident = (\<lambda>k. \<lparr> id_kind = k, id_implementation = ''x'', id_unavailable_reason = None \<rparr>);
       c = sample_config\<lparr> cf_service := fst (mark_verified 1 sample_descriptor (cf_service sample_config)) \<rparr>;
       (sv, p) = begin_activation (cf_service c);
       (sv', g) = begin_verification ''m2'' ''1'' sv
   in finish_activation ident 2 sample_descriptor (FactoryReturned (Inr Production)) sv' = (sv', StaleIgnored)"
proof -
  let ?ident = "\<lambda>k. \<lparr> id_kind = k, id_implementation = ''x'', id_unavailable_reason = None \<rparr>"
  let ?c1 = "sample_config\<lparr> cf_service := fst (mark_verified 1 sample_descriptor (cf_service sample_config)) \<rparr>"
  obtain sv r where act: "begin_activation (cf_service ?c1) = (sv, r)" by fastforce
  have "sv_generation (cf_service ?c1) = 1" "r = Inr (sample_descriptor, 2)"
    using act by (auto simp: sample_config_def begin_verification_def next_generation_def new_service_def
        saturating_add_def mark_verified_def selected_is_def verified_is_def same_model_def
        sample_descriptor_def begin_activation_def)
  obtain sv' g where ver: "begin_verification ''m2'' ''1'' sv = (sv', g)" by fastforce
  let ?c2 = "?c1\<lparr> cf_minted := Suc (cf_minted ?c1), cf_service := sv,
      cf_activations := insert (sample_descriptor, 2) (cf_activations ?c1) \<rparr>"
  let ?c3 = "?c2\<lparr> cf_minted := Suc (cf_minted ?c2), cf_service := sv', cf_issued := insert g (cf_issued ?c2) \<rparr>"
  have "activation_reach ?ident ?c1"
    by (rule reach_step [OF sample_config_reach step_verified]) (simp add: sample_config_def)
  then have "activation_reach ?ident ?c2"
    by (rule reach_step) (rule step_activation_begin, use act \<open>r = _\<close> in simp)
  then have reach: "activation_reach ?ident ?c3"
    by (rule reach_step) (rule step_verifying, use ver in simp)
  have "finish_activation ?ident 2 sample_descriptor (FactoryReturned (Inr Production)) (cf_service ?c3) =
      (cf_service ?c3, StaleIgnored)"
    by (rule activation_overtaken_is_ignored [OF reach]) (simp_all add: sample_config_def)
  then show ?thesis using act ver by (simp add: Let_def)
qed

text \<open>
  A failing candidate cannot take down a healthy session. Selecting, verifying, failing or
  starting to activate a candidate never changes the serving backend, and finishing an activation
  replaces it exactly when the commit succeeds, with a backend for the activated descriptor; only
  deactivation removes it.
\<close>
theorem activation_failure_isolated:
  "sv_active (fst (mark_model_missing m r sv)) = sv_active sv \<and>
   sv_active (fst (begin_verification m r sv)) = sv_active sv \<and>
   sv_active (fst (mark_verification_failed g m r a cat sv)) = sv_active sv \<and>
   sv_active (fst (mark_verified g d sv)) = sv_active sv \<and>
   sv_active (fst (begin_activation sv)) = sv_active sv \<and>
   (case finish_activation ident op d ev sv of
      (sv', CommitReady) \<Rightarrow>
        (\<exists>b. ev = FactoryReturned (Inr b) \<and> id_kind (ident b) \<noteq> Unavailable \<and>
             sv_generation sv = op \<and> selected_is sv d \<and> verified_is sv d \<and>
             sv_active sv' = Some \<lparr> ab_model_id = model_id d, ab_revision = revision d,
               ab_artifact_id = desc_artifact_id d, ab_backend = b \<rparr>)
    | (sv', _) \<Rightarrow> sv_active sv' = sv_active sv) \<and>
   sv_active (fst (deactivate sv)) = None"
proof -
  have "sv_active (fst (begin_activation sv)) = sv_active sv"
    by (simp add: begin_activation_def next_generation_def record_activation_event_def split: option.split)
  moreover have "case finish_activation ident op d ev sv of
      (sv', CommitReady) \<Rightarrow>
        (\<exists>b. ev = FactoryReturned (Inr b) \<and> id_kind (ident b) \<noteq> Unavailable \<and>
             sv_generation sv = op \<and> selected_is sv d \<and> verified_is sv d \<and>
             sv_active sv' = Some \<lparr> ab_model_id = model_id d, ab_revision = revision d,
               ab_artifact_id = desc_artifact_id d, ab_backend = b \<rparr>)
    | (sv', _) \<Rightarrow> sv_active sv' = sv_active sv"
    by (cases ev) (auto simp: finish_activation_def fail_activation_def commit_activation_failure_def
        commit_backend_def record_activation_event_def split: sum.split)
  ultimately show ?thesis
    by (simp add: mark_model_missing_def begin_verification_def next_generation_def deactivate_def
        begin_deactivation_def)
qed

text \<open>
  Readiness is not overstated. In every reachable state the snapshot reports a ready backend
  exactly when one is active, product readiness exactly when that backend is a production one and
  a real implementation is registered, never for a mock; the \<open>Ready\<close> state implies a ready backend;
  and inference is refused exactly when the service identifies itself as unavailable.
\<close>
theorem readiness_not_overstated:
  assumes "activation_reach ident c" and "cf_minted c < 2 ^ 64"
  shows "let sv = cf_service c; s = readiness_snapshot ident sv in
     (active_backend_ready s \<longleftrightarrow> sv_active sv \<noteq> None) \<and>
     (product_ready s \<longleftrightarrow> sv_real_backend_available sv \<and> id_kind (service_identity ident sv) = Production) \<and>
     (development_mock_active s \<longleftrightarrow> id_kind (service_identity ident sv) = DevelopmentMock) \<and>
     \<not> (product_ready s \<and> development_mock_active s) \<and>
     (case sv_state sv of Ready _ _ _ _ _ \<Rightarrow> active_backend_ready s | _ \<Rightarrow> True) \<and>
     (id_kind (service_identity ident sv) = Unavailable \<longleftrightarrow> sv_active sv = None)"
proof -
  have inv: "service_inv ident (cf_service c)"
    using activation_reach_inv [OF assms] by (rule config_inv_parts(1))
  then have kind: "id_kind (ident (ab_backend b)) \<noteq> Unavailable" if "sv_active (cf_service c) = Some b" for b
    using that by (simp add: service_inv_def)
  have "case sv_state (cf_service c) of Ready _ _ _ _ _ \<Rightarrow> sv_active (cf_service c) \<noteq> None | _ \<Rightarrow> True"
    using inv by (auto simp: service_inv_def state_backed_def split: ModelActivationState.splits)
  with kind show ?thesis
    by (cases "sv_active (cf_service c)")
      (auto simp: Let_def readiness_snapshot_def service_identity_def unavailable_with_reason_def
        split: ModelActivationState.splits)
qed

theorem readiness_not_overstated_witness:
  "\<not> product_ready (readiness_snapshot
      (\<lambda>k. \<lparr> id_kind = k, id_implementation = ''x'', id_unavailable_reason = None \<rparr>)
      (cf_service sample_config))"
  using readiness_not_overstated [OF sample_config_reach, of
      "\<lambda>k. \<lparr> id_kind = k, id_implementation = ''x'', id_unavailable_reason = None \<rparr>"]
  by (auto simp: Let_def sample_config_def begin_verification_def next_generation_def new_service_def
      service_identity_def unavailable_with_reason_def)

text \<open>
  \<open>mark_verified\<close> accepts any current generation. Its documentation ties it to the current
  verification generation, but the generation returned by \<open>mark_model_missing\<close> works as well: a
  model just reported missing becomes verified and can be activated.
\<close>
theorem missing_generation_verifies:
  assumes "mark_model_missing (model_id d) (revision d) sv = (sv1, g)"
    and "unat (sv_generation sv) < 2 ^ 64 - 1"
  shows "snd (mark_verified g d sv1) \<and>
     sv_state (fst (mark_verified g d sv1)) = Verified (model_id d) (revision d) (desc_artifact_id d) g"
proof -
  obtain sv2 h where n: "next_generation sv = (sv2, h)" by fastforce
  with assms(2) have "sv2 = sv\<lparr> sv_generation := h \<rparr>"
    by (intro next_generation_minted(1) [OF refl]) simp_all
  with assms(1) n show ?thesis
    by (auto simp: mark_model_missing_def mark_verified_def selected_is_def same_model_def)
qed

theorem missing_generation_verifies_witness:
  "snd (mark_verified 1 sample_descriptor
     (fst (mark_model_missing ''m'' ''1'' (new_service True :: BackendKind ModelActivationService))))"
proof -
  have "mark_model_missing (model_id sample_descriptor) (revision sample_descriptor)
      (new_service True :: BackendKind ModelActivationService) =
      (fst (mark_model_missing ''m'' ''1'' (new_service True)), 1)"
    by (simp add: sample_descriptor_def mark_model_missing_def next_generation_def new_service_def
        saturating_add_def)
  from missing_generation_verifies [OF this] show ?thesis by (simp add: new_service_def)
qed

end
