(* ===== verification/Rag_Retriever.thy ===== *)
theory Rag_Retriever
  imports Mukei_Errors "HOL-Library.List_Lexorder" "HOL-Library.Char_ord"
    "HOL-Library.Product_Lexorder" "HOL-Library.Option_ord" "HOL-Library.Sublist"
begin

text \<open>
  Retrieval requests, results and the normalisation and budget pass of \<^verbatim>\<open>rag/retriever.rs\<close>, the last
  gate every retrieved passage goes through before it can enter a prompt. A score is an \<open>f32\<close>, kept
  as its 32-bit pattern: finiteness, \<open>total_cmp\<close> and \<open>clamp\<close> are exact on the bits. The BLAKE3 digest
  used for content deduplication is an argument.
\<close>

section \<open>IEEE 754 single precision on its bits\<close>

type_synonym f32 = u32

definition is_finite :: "f32 \<Rightarrow> bool" where
  "is_finite x \<longleftrightarrow> x AND 0x7F800000 \<noteq> 0x7F800000"

definition sign_negative :: "f32 \<Rightarrow> bool" where
  "sign_negative x \<longleftrightarrow> x AND 0x80000000 \<noteq> 0"

text \<open>The integer \<open>total_cmp\<close> compares: the sign-magnitude bits turned into two's complement order.\<close>
definition total_key :: "f32 \<Rightarrow> int" where
  "total_key x = (if sign_negative x then - int (unat (x AND 0x7FFFFFFF)) - 1 else int (unat x))"

text \<open>\<open>x.clamp(0.0, 1.0)\<close> for a finite \<open>x\<close>; negative zero is not below zero and stays.\<close>
definition clamp01 :: "f32 \<Rightarrow> f32" where
  "clamp01 x =
     (if sign_negative x then (if x = 0x80000000 then x else 0)
      else if x > 0x3F800000 then 0x3F800000 else x)"

section \<open>Requests and results\<close>

definition DEFAULT_RETRIEVAL_TOP_K :: nat where
  "DEFAULT_RETRIEVAL_TOP_K = 8"

definition DEFAULT_MAX_CHUNK_BYTES :: nat where
  "DEFAULT_MAX_CHUNK_BYTES = 4096"

definition CONTENT_HASH_DEDUPE_MIN_BYTES :: nat where
  "CONTENT_HASH_DEDUPE_MIN_BYTES = 32"

record RetrievalScope =
  tenant_id :: string
  workspace_id :: string
  actor_id :: "string option"
  authorization_marker :: "string option"

definition scope_new :: "string \<Rightarrow> string \<Rightarrow> RetrievalScope" where
  "scope_new tenant workspace =
     \<lparr> tenant_id = tenant, workspace_id = workspace, actor_id = None,
       authorization_marker = None \<rparr>"

definition scope_local :: RetrievalScope where
  "scope_local = scope_new ''local-tenant'' ''local-workspace''"

definition with_actor_id :: "string \<Rightarrow> RetrievalScope \<Rightarrow> RetrievalScope" where
  "with_actor_id a s = s\<lparr> actor_id := Some a \<rparr>"

definition with_authorization_marker :: "string \<Rightarrow> RetrievalScope \<Rightarrow> RetrievalScope" where
  "with_authorization_marker m s = s\<lparr> authorization_marker := Some m \<rparr>"

datatype RetrieverError =
    RetrieverUnavailableErr | EmbedderUnavailableErr | EmptyQuery | NonFiniteMinimumScore
  | MinimumScoreOutOfRange | ScopeInvalidErr | IndexUnavailableErr | IncompatibleIndex
  | RetrievalCancelled | RetrievalTimeout | Dependency MukeiError

definition is_blank_opt :: "string option \<Rightarrow> bool" where
  "is_blank_opt v = (case v of None \<Rightarrow> False | Some s \<Rightarrow> trim s = [])"

definition scope_validate :: "RetrievalScope \<Rightarrow> RetrieverError + unit" where
  "scope_validate s =
     (if trim (tenant_id s) = [] \<or> trim (workspace_id s) = [] \<or> is_blank_opt (actor_id s) \<or>
         is_blank_opt (authorization_marker s)
      then Inl ScopeInvalidErr else Inr ())"

record SourceFilters =
  source_ids :: "string list"
  document_ids :: "string list"

definition allows_values :: "SourceFilters \<Rightarrow> string option \<Rightarrow> string option \<Rightarrow> bool" where
  "allows_values f src doc =
     ((source_ids f = [] \<or> (case src of None \<Rightarrow> False | Some x \<Rightarrow> x \<in> set (source_ids f))) \<and>
      (document_ids f = [] \<or> (case doc of None \<Rightarrow> False | Some x \<Rightarrow> x \<in> set (document_ids f))))"

record RetrievalBudget =
  max_results :: nat
  max_total_bytes :: nat
  max_chunk_bytes :: nat
  reserved_context_tokens :: u32
  per_document_cap :: "nat option"

definition default_budget :: RetrievalBudget where
  "default_budget =
     \<lparr> max_results = DEFAULT_RETRIEVAL_TOP_K, max_total_bytes = DEFAULT_MAX_CHUNK_BYTES * 4,
       max_chunk_bytes = DEFAULT_MAX_CHUNK_BYTES, reserved_context_tokens = 512,
       per_document_cap = Some 3 \<rparr>"

record IndexMetadata =
  format_version :: u32
  embedder_id :: string
  embedding_dim :: u32

type_synonym IndexCompatibilityRequirement = IndexMetadata

record RetrievalRequest =
  rq_query :: string
  rq_scope :: RetrievalScope
  rq_top_k :: nat
  rq_min_score :: "f32 option"
  rq_context_budget :: RetrievalBudget
  rq_source_filters :: SourceFilters
  rq_required_index :: "IndexCompatibilityRequirement option"

definition request_new_scoped :: "string \<Rightarrow> RetrievalScope \<Rightarrow> RetrievalRequest" where
  "request_new_scoped query scope =
     \<lparr> rq_query = query, rq_scope = scope, rq_top_k = DEFAULT_RETRIEVAL_TOP_K, rq_min_score = None,
       rq_context_budget = default_budget,
       rq_source_filters = \<lparr> source_ids = [], document_ids = [] \<rparr>, rq_required_index = None \<rparr>"

definition with_top_k :: "nat \<Rightarrow> RetrievalRequest \<Rightarrow> RetrievalRequest" where
  "with_top_k k r =
     r\<lparr> rq_top_k := k,
        rq_context_budget := (rq_context_budget r)\<lparr>
          max_results := min (max_results (rq_context_budget r)) k \<rparr> \<rparr>"

definition with_context_budget :: "RetrievalBudget \<Rightarrow> RetrievalRequest \<Rightarrow> RetrievalRequest" where
  "with_context_budget b r = r\<lparr> rq_context_budget := b \<rparr>"

record RetrievedChunk =
  ck_chunk_id :: u64
  ck_document_id :: "string option"
  ck_score :: f32
  ck_content :: string
  ck_source_id :: "string option"
  ck_conversation_id :: "int option"
  ck_message_id :: "int option"
  ck_ordinal :: "u32 option"
  ck_scope :: RetrievalScope
  ck_authorization_marker :: "string option"
  ck_index_metadata :: "IndexMetadata option"
  ck_truncated :: bool

record RetrievalDiagnostics =
  candidate_count :: nat
  scope_mismatch_rejections :: nat
  source_filter_rejections :: nat
  deduplicated_count :: nat
  non_finite_score_rejections :: nat
  incompatible_index_rejections :: nat
  budget_skipped_count :: nat
  truncated_count :: nat
  diversity_skipped_count :: nat

definition no_diagnostics :: RetrievalDiagnostics where
  "no_diagnostics =
     \<lparr> candidate_count = 0, scope_mismatch_rejections = 0, source_filter_rejections = 0,
       deduplicated_count = 0, non_finite_score_rejections = 0, incompatible_index_rejections = 0,
       budget_skipped_count = 0, truncated_count = 0, diversity_skipped_count = 0 \<rparr>"

datatype RetrievalDegradedReason = LegacyUnscopedAdapter | ScopeMismatchRejected | PartialValidation

datatype RetrievalUnavailableReason =
    RetrieverUnavailable | IndexUnavailable | EmbedderUnavailable | BackendError | ScopeInvalid
  | CancelledByCaller | TimedOut

datatype RetrievalStatus =
    RsReady | RsEmpty | RsDegraded RetrievalDegradedReason | RsRebuilding
  | RsUnavailable RetrievalUnavailableReason

datatype IndexCompatibilityState =
    IdxCompatible | IdxScopeMetadataIncomplete | IdxMissing | IdxRebuildRequired | IdxUnknown

record RagCapabilitySnapshot =
  code_present :: bool
  index_available :: bool
  embedding_backend_available :: bool
  index_compatibility :: IndexCompatibilityState
  retrieval_state :: RetrievalStatus

definition legacy_degraded :: RagCapabilitySnapshot where
  "legacy_degraded =
     \<lparr> code_present = True, index_available = False, embedding_backend_available = False,
       index_compatibility = IdxUnknown, retrieval_state = RsDegraded LegacyUnscopedAdapter \<rparr>"

record RetrievalResponse =
  rsp_results :: "RetrievedChunk list"
  rsp_status :: RetrievalStatus
  rsp_capability :: RagCapabilitySnapshot
  rsp_diagnostics :: RetrievalDiagnostics

definition empty_response :: "RagCapabilitySnapshot \<Rightarrow> RetrievalResponse" where
  "empty_response cap =
     \<lparr> rsp_results = [], rsp_status = RsEmpty, rsp_capability = cap,
       rsp_diagnostics = no_diagnostics \<rparr>"

section \<open>Normalisation and budget\<close>

text \<open>The verdict of the \<open>retain_mut\<close> closure on one result.\<close>
datatype Screening = Keep | RejectScope | RejectSource | RejectIndex | RejectScore

definition screen :: "RetrievalRequest \<Rightarrow> RetrievedChunk \<Rightarrow> Screening" where
  "screen rq r =
     (if ck_scope r \<noteq> rq_scope rq then RejectScope
      else if \<not> allows_values (rq_source_filters rq) (ck_source_id r) (ck_document_id r)
      then RejectSource
      else if (case authorization_marker (rq_scope rq) of
                 None \<Rightarrow> False | Some m \<Rightarrow> ck_authorization_marker r \<noteq> Some m)
      then RejectScope
      else if (case rq_required_index rq of
                 None \<Rightarrow> False | Some req \<Rightarrow> ck_index_metadata r \<noteq> Some req)
      then RejectIndex
      else if \<not> is_finite (ck_score r) then RejectScore
      else Keep)"

definition count_screening :: "Screening \<Rightarrow> RetrievalDiagnostics \<Rightarrow> RetrievalDiagnostics" where
  "count_screening v d =
     (case v of
        Keep \<Rightarrow> d
      | RejectScope \<Rightarrow> d\<lparr> scope_mismatch_rejections := scope_mismatch_rejections d + 1 \<rparr>
      | RejectSource \<Rightarrow> d\<lparr> source_filter_rejections := source_filter_rejections d + 1 \<rparr>
      | RejectIndex \<Rightarrow> d\<lparr> incompatible_index_rejections := incompatible_index_rejections d + 1 \<rparr>
      | RejectScore \<Rightarrow> d\<lparr> non_finite_score_rejections := non_finite_score_rejections d + 1 \<rparr>)"

fun screen_all ::
    "RetrievalRequest \<Rightarrow> RetrievalDiagnostics \<Rightarrow> RetrievedChunk list
     \<Rightarrow> RetrievedChunk list \<times> RetrievalDiagnostics" where
  "screen_all rq d [] = ([], d)"
| "screen_all rq d (r # rs) =
     (case screen_all rq (count_screening (screen rq r) d) rs of
        (kept, d') \<Rightarrow>
          (if screen rq r = Keep then r\<lparr> ck_score := clamp01 (ck_score r) \<rparr> # kept else kept, d'))"

text \<open>The comparison key of \<open>sort_by\<close>, which is stable.\<close>
definition rank ::
    "RetrievedChunk \<Rightarrow> int \<times> string option \<times> string option \<times> nat option \<times> nat" where
  "rank r = (- total_key (ck_score r), ck_document_id r, ck_source_id r,
     map_option unat (ck_ordinal r), unat (ck_chunk_id r))"

text \<open>\<open>split_whitespace().collect().join(\" \")\<close>\<close>
function split_words :: "string \<Rightarrow> string \<Rightarrow> string list" where
  "split_words cur s =
     (if s = [] then (if cur = [] then [] else [cur])
      else if ws_len s = 0 then split_words (cur @ [hd s]) (tl s)
      else (if cur = [] then [] else [cur]) @ split_words [] (drop (ws_len s) s))"
  by pat_completeness auto
termination
  by (relation "measure (\<lambda>(cur, s). length s)") (auto simp: length_greater_0_conv [symmetric]
      simp del: length_greater_0_conv)

declare split_words.simps [simp del]

definition normalize_content_for_hash :: "string \<Rightarrow> string" where
  "normalize_content_for_hash content = join_with '' '' (split_words [] content)"

fun dedupe ::
    "(string \<Rightarrow> string) \<Rightarrow> u64 list \<Rightarrow> string list \<Rightarrow> RetrievalDiagnostics \<Rightarrow> RetrievedChunk list
     \<Rightarrow> RetrievedChunk list \<times> RetrievalDiagnostics" where
  "dedupe hash ids contents d [] = ([], d)"
| "dedupe hash ids contents d (r # rs) =
     (if ck_chunk_id r \<in> set ids
      then dedupe hash ids contents (d\<lparr> deduplicated_count := deduplicated_count d + 1 \<rparr>) rs
      else let ids' = ck_chunk_id r # ids;
               normalized = normalize_content_for_hash (ck_content r)
           in if length normalized \<ge> CONTENT_HASH_DEDUPE_MIN_BYTES
              then if hash normalized \<in> set contents
                   then dedupe hash ids' contents
                          (d\<lparr> deduplicated_count := deduplicated_count d + 1 \<rparr>) rs
                   else (case dedupe hash ids' (hash normalized # contents) d rs of
                           (kept, d') \<Rightarrow> (r # kept, d'))
              else (case dedupe hash ids' contents d rs of (kept, d') \<Rightarrow> (r # kept, d')))"

definition document_identity :: "RetrievedChunk \<Rightarrow> string" where
  "document_identity r =
     (case ck_document_id r of
        Some v \<Rightarrow> ''document:'' @ v
      | None \<Rightarrow> (case ck_source_id r of
            Some v \<Rightarrow> ''source:'' @ v
          | None \<Rightarrow> ''chunk:'' @ show_word (ck_chunk_id r)))"

text \<open>The diversity pass; \<open>seen\<close> lists the identities admitted so far.\<close>
fun diversify ::
    "nat \<Rightarrow> string list \<Rightarrow> RetrievalDiagnostics \<Rightarrow> RetrievedChunk list
     \<Rightarrow> RetrievedChunk list \<times> RetrievalDiagnostics" where
  "diversify cap seen d [] = ([], d)"
| "diversify cap seen d (r # rs) =
     (if length (filter (\<lambda>i. i = document_identity r) seen) \<ge> cap
      then diversify cap seen (d\<lparr> diversity_skipped_count := diversity_skipped_count d + 1 \<rparr>) rs
      else (case diversify cap (document_identity r # seen) d rs of (kept, d') \<Rightarrow> (r # kept, d')))"

definition truncate_to_byte_boundary :: "string \<Rightarrow> nat \<Rightarrow> string" where
  "truncate_to_byte_boundary v cap =
     (if length v \<le> cap then v else take (floor_char_boundary v cap) v)"

text \<open>The body of the admission loop for one result, given the bytes left.\<close>
definition fit_chunk :: "nat \<Rightarrow> RetrievedChunk \<Rightarrow> RetrievedChunk" where
  "fit_chunk cap r =
     (if length (ck_content r) > cap
      then r\<lparr> ck_content := truncate_to_byte_boundary (ck_content r) cap, ck_truncated := True \<rparr>
      else r)"

fun admit ::
    "RetrievalBudget \<Rightarrow> nat \<Rightarrow> RetrievalDiagnostics \<Rightarrow> RetrievedChunk list
     \<Rightarrow> RetrievedChunk list \<times> RetrievalDiagnostics" where
  "admit b bytes d [] = ([], d)"
| "admit b bytes d (r # rs) =
     (let skip = d\<lparr> budget_skipped_count := budget_skipped_count d + 1 \<rparr> in
      if bytes \<ge> max_total_bytes b then admit b bytes skip rs
      else let cap = min (max_chunk_bytes b) (max_total_bytes b - bytes) in
        if cap = 0 then admit b bytes skip rs
        else let r' = fit_chunk cap r;
                 d1 = (if length (ck_content r) > cap
                       then d\<lparr> truncated_count := truncated_count d + 1 \<rparr> else d)
             in if ck_content r' = []
                then admit b bytes (d1\<lparr> budget_skipped_count := budget_skipped_count d1 + 1 \<rparr>) rs
                else (case admit b (usize_sat_add bytes (length (ck_content r'))) d1 rs of
                        (kept, d') \<Rightarrow> (r' # kept, d')))"

definition apply_diversity ::
    "nat option \<Rightarrow> RetrievedChunk list \<times> RetrievalDiagnostics
     \<Rightarrow> RetrievedChunk list \<times> RetrievalDiagnostics" where
  "apply_diversity cap_opt p =
     (case p of (rs, d) \<Rightarrow>
        (case cap_opt of
           None \<Rightarrow> (rs, d)
         | Some cap \<Rightarrow>
             if cap = 0
             then ([], d\<lparr> diversity_skipped_count := diversity_skipped_count d + length rs \<rparr>)
             else diversify cap [] d rs))"

definition cap_results ::
    "nat \<Rightarrow> RetrievedChunk list \<times> RetrievalDiagnostics
     \<Rightarrow> RetrievedChunk list \<times> RetrievalDiagnostics" where
  "cap_results cap p =
     (case p of (rs, d) \<Rightarrow>
        if length rs > cap
        then (take cap rs, d\<lparr> budget_skipped_count := budget_skipped_count d + (length rs - cap) \<rparr>)
        else (rs, d))"

definition normalize_and_budget_results ::
    "(string \<Rightarrow> string) \<Rightarrow> RetrievalRequest \<Rightarrow> RetrievedChunk list
     \<Rightarrow> RetrievedChunk list \<times> RetrievalDiagnostics" where
  "normalize_and_budget_results hash rq results =
     (case screen_all rq (no_diagnostics\<lparr> candidate_count := length results \<rparr>) results of
        (kept, d1) \<Rightarrow>
          (case cap_results (min (rq_top_k rq) (max_results (rq_context_budget rq)))
                  (apply_diversity (per_document_cap (rq_context_budget rq))
                    (dedupe hash [] [] d1 (sort_key rank kept))) of
             (rs, d2) \<Rightarrow> admit (rq_context_budget rq) 0 d2 rs))"

definition merge_diagnostics ::
    "RetrievalDiagnostics \<Rightarrow> RetrievalDiagnostics \<Rightarrow> RetrievalDiagnostics" where
  "merge_diagnostics t e =
     t\<lparr> scope_mismatch_rejections := scope_mismatch_rejections t + scope_mismatch_rejections e,
        source_filter_rejections := source_filter_rejections t + source_filter_rejections e,
        deduplicated_count := deduplicated_count t + deduplicated_count e,
        non_finite_score_rejections := non_finite_score_rejections t + non_finite_score_rejections e,
        incompatible_index_rejections := incompatible_index_rejections t + incompatible_index_rejections e,
        budget_skipped_count := budget_skipped_count t + budget_skipped_count e,
        truncated_count := truncated_count t + truncated_count e,
        diversity_skipped_count := diversity_skipped_count t + diversity_skipped_count e \<rparr>"

definition classify_dependency_error :: "MukeiError \<Rightarrow> RetrieverError" where
  "classify_dependency_error err =
     (case err of
        MukeiError.Cancelled \<Rightarrow> RetrievalCancelled
      | ToolTimeout d \<Rightarrow> RetrievalTimeout
      | NetworkTimeout d \<Rightarrow> RetrievalTimeout
      | _ \<Rightarrow> Dependency err)"


section \<open>Lemmas on the passes\<close>

lemma subseq_set: "subseq xs ys \<Longrightarrow> set xs \<subseteq> set ys"
  by (metis set_nths_subset subseq_conv_nths)

lemma sorted_wrt_subseq: "subseq xs ys \<Longrightarrow> sorted_wrt P ys \<Longrightarrow> sorted_wrt P xs"
proof (induction xs ys rule: list_emb.induct)
  case (list_emb_Cons2 x y xs ys)
  then show ?case using subseq_set [of xs ys] by auto
qed auto

lemma subseq_skip [simp]: "subseq xs ys \<Longrightarrow> subseq xs (y # ys)"
  by (rule list_emb_Cons)

lemma take_subseq: "subseq (take n xs) xs"
  by (metis append_take_drop_id list_emb_prefix subseq_order.order_refl)

lemma subseq_filter_length: "subseq xs ys \<Longrightarrow> length (filter P xs) \<le> length (filter P ys)"
  by (induction xs ys rule: list_emb.induct) auto

text \<open>A score in the unit interval, as bits: between the patterns of 0 and 1, or negative zero.\<close>
definition unit_score :: "f32 \<Rightarrow> bool" where
  "unit_score x \<longleftrightarrow> x \<le> 0x3F800000 \<or> x = 0x80000000"

lemma unit_clamp01: "unit_score (clamp01 x)"
  by (auto simp: unit_score_def clamp01_def)

lemma finite_clamp01: "is_finite x \<Longrightarrow> is_finite (clamp01 x)"
  by (auto simp: clamp01_def is_finite_def)

text \<open>Results lost so far, over all the reasons a result can be dropped.\<close>
definition dropped :: "RetrievalDiagnostics \<Rightarrow> nat" where
  "dropped d = scope_mismatch_rejections d + source_filter_rejections d + deduplicated_count d +
     non_finite_score_rejections d + incompatible_index_rejections d + budget_skipped_count d +
     diversity_skipped_count d"

lemma dropped_updates [simp]:
  "dropped (d\<lparr> deduplicated_count := deduplicated_count d + n \<rparr>) = dropped d + n"
  "dropped (d\<lparr> diversity_skipped_count := diversity_skipped_count d + n \<rparr>) = dropped d + n"
  "dropped (d\<lparr> budget_skipped_count := budget_skipped_count d + n \<rparr>) = dropped d + n"
  "dropped (d\<lparr> deduplicated_count := Suc (deduplicated_count d) \<rparr>) = Suc (dropped d)"
  "dropped (d\<lparr> diversity_skipped_count := Suc (diversity_skipped_count d) \<rparr>) = Suc (dropped d)"
  "dropped (d\<lparr> budget_skipped_count := Suc (budget_skipped_count d) \<rparr>) = Suc (dropped d)"
  "dropped (d\<lparr> truncated_count := n \<rparr>) = dropped d"
  "dropped (d\<lparr> truncated_count := n, budget_skipped_count := Suc (budget_skipped_count d) \<rparr>) = Suc (dropped d)"
  by (simp_all add: dropped_def)

lemma screen_all_kept:
  "fst (screen_all rq d rs) =
     map (\<lambda>r. r\<lparr> ck_score := clamp01 (ck_score r) \<rparr>) (filter (\<lambda>r. screen rq r = Keep) rs)"
  by (induction rs arbitrary: d) (simp_all add: case_prod_beta)

lemma dropped_count_screening: "dropped (count_screening v d) = dropped d + (if v = Keep then 0 else 1)"
  by (cases v) (simp_all add: count_screening_def dropped_def)

lemma screen_all_dropped:
  "length (fst (screen_all rq d rs)) + dropped (snd (screen_all rq d rs)) = length rs + dropped d"
  by (induction rs arbitrary: d) (simp_all add: case_prod_beta dropped_count_screening)

lemma dedupe_subseq: "subseq (fst (dedupe hash ids cs d rs)) rs"
  by (induction rs arbitrary: ids cs d) (auto simp: case_prod_beta Let_def)

lemma dedupe_ids:
  "distinct (map ck_chunk_id (fst (dedupe hash ids cs d rs))) \<and>
   set ids \<inter> ck_chunk_id ` set (fst (dedupe hash ids cs d rs)) = {}"
proof (induction rs arbitrary: ids cs d)
  case (Cons r rs)
  show ?case
    using Cons.IH [of ids cs "d\<lparr> deduplicated_count := deduplicated_count d + 1 \<rparr>"]
      Cons.IH [of "ck_chunk_id r # ids"]
    by (simp add: case_prod_beta Let_def)
qed simp

lemma dedupe_dropped:
  "length (fst (dedupe hash ids cs d rs)) + dropped (snd (dedupe hash ids cs d rs)) = length rs + dropped d"
  by (induction rs arbitrary: ids cs d) (simp_all add: case_prod_beta Let_def)

lemma diversify_subseq: "subseq (fst (diversify cap seen d rs)) rs"
  by (induction rs arbitrary: seen d) (simp_all add: case_prod_beta)

lemma diversify_dropped:
  "length (fst (diversify cap seen d rs)) + dropped (snd (diversify cap seen d rs)) = length rs + dropped d"
  by (induction rs arbitrary: seen d) (simp_all add: case_prod_beta)

lemma diversify_cap:
  "length (filter (\<lambda>j. j = i) seen) \<le> cap \<Longrightarrow>
   length (filter (\<lambda>r. document_identity r = i) (fst (diversify cap seen d rs))) +
     length (filter (\<lambda>j. j = i) seen) \<le> cap"
proof (induction rs arbitrary: seen d)
  case (Cons r rs)
  show ?case
    using Cons.IH [of seen] Cons.IH [of "document_identity r # seen" d] Cons.prems
    by (auto simp: case_prod_beta)
qed simp

lemma apply_diversity_cap:
  "length (filter (\<lambda>r. document_identity r = i) (fst (apply_diversity (Some cap) (rs, d)))) \<le> cap"
  using diversify_cap [of i "[]" cap d rs] by (simp add: apply_diversity_def)

lemma cap_results_length: "length (fst (cap_results n (rs, d))) \<le> n"
  by (simp add: cap_results_def)

text \<open>No pass touches the candidate count.\<close>

lemma candidate_count_screen_all: "candidate_count (snd (screen_all rq d rs)) = candidate_count d"
proof (induction rs arbitrary: d)
  case (Cons r rs)
  then show ?case by (simp add: case_prod_beta count_screening_def split: Screening.split)
qed simp

lemma candidate_count_dedupe: "candidate_count (snd (dedupe hash ids cs d rs)) = candidate_count d"
  by (induction rs arbitrary: ids cs d) (simp_all add: case_prod_beta Let_def)

lemma candidate_count_diversify: "candidate_count (snd (diversify cap seen d rs)) = candidate_count d"
  by (induction rs arbitrary: seen d) (simp_all add: case_prod_beta)

lemma candidate_count_admit: "candidate_count (snd (admit b n d rs)) = candidate_count d"
  by (induction rs arbitrary: n d) (simp_all add: case_prod_beta Let_def)

section \<open>Passes that only drop results\<close>

text \<open>
  The contract deduplication, the diversity cap and the result cap share: a pass keeps a
  subsequence, counts every result it drops under exactly one reason, and leaves the candidate
  count alone. Passes in sequence keep the contract.
\<close>
locale drop_pass =
  fixes pass :: "RetrievedChunk list \<times> RetrievalDiagnostics \<Rightarrow> RetrievedChunk list \<times> RetrievalDiagnostics"
  assumes pass_subseq: "subseq (fst (pass p)) (fst p)"
    and pass_accounts: "length (fst (pass p)) + dropped (snd (pass p)) = length (fst p) + dropped (snd p)"
    and pass_candidates: "candidate_count (snd (pass p)) = candidate_count (snd p)"
begin

lemma pass_set: "set (fst (pass p)) \<subseteq> set (fst p)"
  by (rule subseq_set [OF pass_subseq])

lemma pass_sorted: "sorted (map f (fst p)) \<Longrightarrow> sorted (map f (fst (pass p)))"
  by (rule sorted_wrt_subseq [OF subseq_map [OF pass_subseq]])

lemma pass_distinct: "distinct (map f (fst p)) \<Longrightarrow> distinct (map f (fst (pass p)))"
  using subseq_map [OF pass_subseq, of f p] by (metis distinct_nthsI subseq_conv_nths)

lemma pass_filter: "length (filter P (fst (pass p))) \<le> length (filter P (fst p))"
  by (rule subseq_filter_length [OF pass_subseq])

end

locale drop_pass_seq = first: drop_pass pass1 + second: drop_pass pass2 for pass1 pass2

sublocale drop_pass_seq \<subseteq> both: drop_pass "pass2 \<circ> pass1"
proof
  fix p
  show "subseq (fst ((pass2 \<circ> pass1) p)) (fst p)"
    using subseq_order.order_trans [OF second.pass_subseq first.pass_subseq] by simp
qed (simp_all add: first.pass_accounts second.pass_accounts first.pass_candidates second.pass_candidates)

interpretation dedupe_pass: drop_pass "\<lambda>p. dedupe hash [] [] (snd p) (fst p)" for hash
  by unfold_locales (rule dedupe_subseq dedupe_dropped candidate_count_dedupe)+

interpretation diversity_pass: drop_pass "apply_diversity cap" for cap
  by unfold_locales (simp_all add: apply_diversity_def case_prod_beta diversify_subseq
      diversify_dropped candidate_count_diversify split: option.split)

interpretation cap_pass: drop_pass "cap_results n" for n
  by unfold_locales (simp_all add: cap_results_def case_prod_beta take_subseq dropped_def)

interpretation narrowing: drop_pass_seq "apply_diversity cap" "cap_results n" for cap n ..

interpretation selection:
  drop_pass_seq "\<lambda>p. dedupe hash [] [] (snd p) (fst p)" "cap_results n \<circ> apply_diversity cap" for hash n cap
  ..

section \<open>Admission\<close>

text \<open>The part of a result the admission pass leaves alone.\<close>
definition strip :: "RetrievedChunk \<Rightarrow> RetrievedChunk" where
  "strip r = r\<lparr> ck_content := [], ck_truncated := False \<rparr>"

lemma strip_fields [simp]:
  "ck_chunk_id (strip r) = ck_chunk_id r" "ck_score (strip r) = ck_score r"
  "ck_scope (strip r) = ck_scope r" "document_identity (strip r) = document_identity r"
  "ck_source_id (strip r) = ck_source_id r" "ck_document_id (strip r) = ck_document_id r"
  "ck_authorization_marker (strip r) = ck_authorization_marker r"
  "ck_index_metadata (strip r) = ck_index_metadata r" "rank (strip r) = rank r"
  by (simp_all add: strip_def document_identity_def rank_def cong: option.case_cong)

lemma score_fit [simp]: "ck_score (fit_chunk cap r) = ck_score r"
  by (simp add: fit_chunk_def)

lemma strip_fit [simp]: "strip (fit_chunk cap r) = strip r"
  by (simp add: strip_def fit_chunk_def)

lemma admit_subseq: "subseq (map strip (fst (admit b n d rs))) (map strip rs)"
  by (induction rs arbitrary: n d) (auto simp: case_prod_beta Let_def)

lemma admit_dropped:
  "length (fst (admit b n d rs)) + dropped (snd (admit b n d rs)) = length rs + dropped d"
  by (induction rs arbitrary: n d) (simp_all add: case_prod_beta Let_def)

lemma length_truncate_to_byte_boundary: "length (truncate_to_byte_boundary v cap) \<le> cap"
  by (simp add: truncate_to_byte_boundary_def min.coboundedI2 floor_char_boundary_le)

lemma length_fit_chunk: "length (ck_content (fit_chunk cap r)) \<le> cap"
  by (simp add: fit_chunk_def length_truncate_to_byte_boundary)

lemma fit_chunk_cut:
  "\<exists>n \<le> length (ck_content r). is_char_boundary (ck_content r) n \<and>
     fit_chunk cap r = r\<lparr> ck_content := take n (ck_content r),
       ck_truncated := (ck_truncated r \<or> n < length (ck_content r)) \<rparr>"
proof (cases "length (ck_content r) > cap")
  case True
  then have "floor_char_boundary (ck_content r) cap < length (ck_content r)"
    using floor_char_boundary_le [of "ck_content r" cap] by linarith
  with True show ?thesis
    by (intro exI [of _ "floor_char_boundary (ck_content r) cap"])
      (simp add: fit_chunk_def truncate_to_byte_boundary_def)
next
  case False
  then show ?thesis
    by (intro exI [of _ "length (ck_content r)"]) (simp add: fit_chunk_def is_char_boundary_def)
qed

text \<open>An admitted result is a candidate, cut to some capacity.\<close>
lemma admit_origin:
  "r \<in> set (fst (admit b n d rs)) \<Longrightarrow>
   \<exists>r0 cap. r0 \<in> set rs \<and> cap \<le> max_chunk_bytes b \<and> r = fit_chunk cap r0 \<and> ck_content r \<noteq> []"
proof (induction rs arbitrary: n d)
  case (Cons r0 rs)
  define cap where "cap = min (max_chunk_bytes b) (max_total_bytes b - n)"
  show ?case
  proof (cases "r = fit_chunk cap r0 \<and> ck_content r \<noteq> []")
    case True
    then show ?thesis
      by (intro exI [of _ r0] exI [of _ cap]) (auto simp: cap_def)
  next
    case False
    then have "\<exists>n' d'. r \<in> set (fst (admit b n' d' rs))"
      using Cons.prems by (auto simp: case_prod_beta Let_def cap_def [symmetric] split: if_splits)
    then show ?thesis using Cons.IH by fastforce
  qed
qed simp

lemma admit_total:
  "max_total_bytes b \<le> usize_max \<Longrightarrow> n \<le> max_total_bytes b \<Longrightarrow>
   (\<Sum>r\<leftarrow>fst (admit b n d rs). length (ck_content r)) + n \<le> max_total_bytes b"
proof (induction rs arbitrary: n d)
  case (Cons r rs)
  define cap where "cap = min (max_chunk_bytes b) (max_total_bytes b - n)"
  define m where "m = length (ck_content (fit_chunk cap r))"
  have "m \<le> max_total_bytes b - n"
    using length_fit_chunk [of cap r] by (simp add: cap_def m_def)
  then have sat: "usize_sat_add n m = n + m" and le: "n + m \<le> max_total_bytes b"
    using Cons.prems by (auto simp: usize_sat_add_def)
  have IH: "(\<Sum>r\<leftarrow>fst (admit b k d' rs). length (ck_content r)) + k \<le> max_total_bytes b"
    if "k \<le> max_total_bytes b" for k d'
    using Cons.IH Cons.prems(1) that by blast
  show ?case
    using IH [OF Cons.prems(2)] IH [OF le]
    by (simp add: case_prod_beta Let_def cap_def [symmetric] m_def [symmetric] sat algebra_simps)
qed simp

section \<open>The pass as a whole\<close>

text \<open>What a result must satisfy to be visible to a request.\<close>
definition admissible :: "RetrievalRequest \<Rightarrow> RetrievedChunk \<Rightarrow> bool" where
  "admissible rq r \<longleftrightarrow>
     ck_scope r = rq_scope rq \<and>
     allows_values (rq_source_filters rq) (ck_source_id r) (ck_document_id r) \<and>
     authorization_marker (rq_scope rq) \<in> {None, ck_authorization_marker r} \<and>
     rq_required_index rq \<in> {None, ck_index_metadata r}"

lemma screen_Keep_iff: "screen rq r = Keep \<longleftrightarrow> admissible rq r \<and> is_finite (ck_score r)"
  by (auto simp: screen_def admissible_def split: option.splits)

lemma admissible_fit [simp]: "admissible rq (fit_chunk cap r) = admissible rq r"
  by (simp add: admissible_def fit_chunk_def)

lemma admissible_score [simp]: "admissible rq (r\<lparr> ck_score := x \<rparr>) = admissible rq r"
  by (simp add: admissible_def)

text \<open>The list the admission loop runs over.\<close>
definition ranked_candidates ::
    "(string \<Rightarrow> string) \<Rightarrow> RetrievalRequest \<Rightarrow> RetrievedChunk list
     \<Rightarrow> RetrievedChunk list \<times> RetrievalDiagnostics" where
  "ranked_candidates hash rq results =
     (case screen_all rq (no_diagnostics\<lparr> candidate_count := length results \<rparr>) results of
        (kept, d1) \<Rightarrow>
          cap_results (min (rq_top_k rq) (max_results (rq_context_budget rq)))
            (apply_diversity (per_document_cap (rq_context_budget rq))
              (dedupe hash [] [] d1 (sort_key rank kept))))"

lemma normalize_eq_admit:
  "normalize_and_budget_results hash rq results =
     admit (rq_context_budget rq) 0 (snd (ranked_candidates hash rq results))
       (fst (ranked_candidates hash rq results))"
  by (simp add: normalize_and_budget_results_def ranked_candidates_def case_prod_beta)

definition kept_results :: "RetrievalRequest \<Rightarrow> RetrievedChunk list \<Rightarrow> RetrievedChunk list" where
  "kept_results rq results =
     fst (screen_all rq (no_diagnostics\<lparr> candidate_count := length results \<rparr>) results)"

text \<open>The three dropping passes, on the sorted results that survive the screening.\<close>
lemma ranked_eq:
  "ranked_candidates hash rq results =
     ((cap_results (min (rq_top_k rq) (max_results (rq_context_budget rq)))
         \<circ> apply_diversity (per_document_cap (rq_context_budget rq)))
       \<circ> (\<lambda>p. dedupe hash [] [] (snd p) (fst p)))
     (sort_key rank (kept_results rq results),
      snd (screen_all rq (no_diagnostics\<lparr> candidate_count := length results \<rparr>) results))"
  by (simp add: ranked_candidates_def kept_results_def case_prod_beta)

lemma ranked_set: "set (fst (ranked_candidates hash rq results)) \<subseteq> set (kept_results rq results)"
  unfolding ranked_eq using selection.both.pass_set by fastforce

lemma ranked_sorted: "sorted (map rank (fst (ranked_candidates hash rq results)))"
  unfolding ranked_eq by (rule selection.both.pass_sorted) (simp add: sorted_sort_key)

lemma ranked_distinct: "distinct (map ck_chunk_id (fst (ranked_candidates hash rq results)))"
  unfolding ranked_eq comp_apply [of _ "\<lambda>p. dedupe hash [] [] (snd p) (fst p)"]
  by (rule narrowing.both.pass_distinct) (use dedupe_ids [of hash "[]" "[]"] in simp)

lemma ranked_per_document:
  assumes "per_document_cap (rq_context_budget rq) = Some cap"
  shows "length (filter (\<lambda>r. document_identity r = i) (fst (ranked_candidates hash rq results))) \<le> cap"
  unfolding ranked_eq comp_apply assms
  by (rule le_trans [OF cap_pass.pass_filter]) (metis apply_diversity_cap prod.collapse)

lemma ranked_origin:
  "r \<in> set (fst (ranked_candidates hash rq results)) \<Longrightarrow>
   \<exists>r0 \<in> set results. screen rq r0 = Keep \<and> r = r0\<lparr> ck_score := clamp01 (ck_score r0) \<rparr>"
  using ranked_set by (fastforce simp: kept_results_def screen_all_kept)

lemma normalize_subseq:
  "subseq (map strip (fst (normalize_and_budget_results hash rq results)))
     (map strip (fst (ranked_candidates hash rq results)))"
  by (simp add: normalize_eq_admit admit_subseq)

lemma normalize_origin:
  "r \<in> set (fst (normalize_and_budget_results hash rq results)) \<Longrightarrow>
   \<exists>r0 cap. r0 \<in> set results \<and> screen rq r0 = Keep \<and>
     cap \<le> max_chunk_bytes (rq_context_budget rq) \<and>
     r = fit_chunk cap (r0\<lparr> ck_score := clamp01 (ck_score r0) \<rparr>) \<and> ck_content r \<noteq> []"
  unfolding normalize_eq_admit using ranked_origin by (fastforce dest!: admit_origin)

lemma strip_map_transfer:
  "subseq (map strip xs) (map strip ys) \<Longrightarrow> (\<And>r. f (strip r) = f r) \<Longrightarrow> subseq (map f xs) (map f ys)"
  using subseq_map [of "map strip xs" "map strip ys" f] by (simp add: comp_def)

lemma normalize_order:
  "sorted (map rank (fst (normalize_and_budget_results hash rq results)))"
proof -
  have "subseq (map rank (fst (normalize_and_budget_results hash rq results)))
      (map rank (fst (ranked_candidates hash rq results)))"
    by (rule strip_map_transfer [OF normalize_subseq]) simp
  then show ?thesis using ranked_sorted by (rule sorted_wrt_subseq)
qed

lemma normalize_distinct:
  "distinct (map ck_chunk_id (fst (normalize_and_budget_results hash rq results)))"
proof -
  have "subseq (map ck_chunk_id (fst (normalize_and_budget_results hash rq results)))
      (map ck_chunk_id (fst (ranked_candidates hash rq results)))"
    by (rule strip_map_transfer [OF normalize_subseq]) simp
  then show ?thesis using ranked_distinct by (metis distinct_nthsI subseq_conv_nths)
qed

lemma normalize_length:
  "length (fst (normalize_and_budget_results hash rq results)) \<le>
     min (rq_top_k rq) (max_results (rq_context_budget rq))"
proof -
  have "length (fst (ranked_candidates hash rq results)) \<le>
      min (rq_top_k rq) (max_results (rq_context_budget rq))"
    using cap_results_length by (metis (no_types, lifting) case_prod_beta prod.collapse ranked_candidates_def)
  then show ?thesis using list_emb_length [OF normalize_subseq [of hash rq results]] by simp
qed

lemma normalize_per_document:
  "per_document_cap (rq_context_budget rq) = Some cap \<Longrightarrow>
   length (filter (\<lambda>r. document_identity r = i) (fst (normalize_and_budget_results hash rq results))) \<le> cap"
proof -
  assume cap: "per_document_cap (rq_context_budget rq) = Some cap"
  let ?same = "\<lambda>r. document_identity r = i"
  have "length (filter ?same (fst (normalize_and_budget_results hash rq results)))
      = length (filter ?same (map strip (fst (normalize_and_budget_results hash rq results))))"
    by (simp add: filter_map comp_def)
  also have "\<dots> \<le> length (filter ?same (map strip (fst (ranked_candidates hash rq results))))"
    by (rule subseq_filter_length [OF normalize_subseq])
  also have "\<dots> = length (filter ?same (fst (ranked_candidates hash rq results)))"
    by (simp add: filter_map comp_def)
  also have "\<dots> \<le> cap"
    by (rule ranked_per_document [OF cap])
  finally show ?thesis .
qed

lemma no_diagnostics_dropped: "dropped (no_diagnostics\<lparr> candidate_count := n \<rparr>) = 0"
  by (simp add: dropped_def no_diagnostics_def)

lemma ranked_dropped:
  "length (fst (ranked_candidates hash rq results)) + dropped (snd (ranked_candidates hash rq results)) =
   length results"
  unfolding ranked_eq selection.both.pass_accounts
  using screen_all_dropped [of rq "no_diagnostics\<lparr> candidate_count := length results \<rparr>" results]
  by (simp add: no_diagnostics_dropped kept_results_def)

lemma ranked_candidate_count:
  "candidate_count (snd (ranked_candidates hash rq results)) = length results"
  unfolding ranked_eq selection.both.pass_candidates by (simp add: candidate_count_screen_all)

lemma normalize_admissible:
  "list_all (\<lambda>r. admissible rq r \<and> is_finite (ck_score r) \<and> unit_score (ck_score r) \<and>
       ck_content r \<noteq> [] \<and> length (ck_content r) \<le> max_chunk_bytes (rq_context_budget rq))
     (fst (normalize_and_budget_results hash rq results))"
  unfolding list_all_iff
proof
  fix r
  assume "r \<in> set (fst (normalize_and_budget_results hash rq results))"
  from normalize_origin [OF this] obtain r0 cap
    where "screen rq r0 = Keep" "cap \<le> max_chunk_bytes (rq_context_budget rq)" "ck_content r \<noteq> []"
      and r: "r = fit_chunk cap (r0\<lparr> ck_score := clamp01 (ck_score r0) \<rparr>)" by blast
  then show "admissible rq r \<and> is_finite (ck_score r) \<and> unit_score (ck_score r) \<and>
      ck_content r \<noteq> [] \<and> length (ck_content r) \<le> max_chunk_bytes (rq_context_budget rq)"
    using length_fit_chunk [of cap "r0\<lparr> ck_score := clamp01 (ck_score r0) \<rparr>"]
    by (auto simp: screen_Keep_iff unit_clamp01 finite_clamp01)
qed

section \<open>Properties\<close>

text \<open>
  C10: whatever a backend returns, every result the normalisation pass lets through is visible to
  the request (same scope, allowed by the source filters, carrying the scope's authorization marker
  and the required index metadata) and scores finitely within [0, 1]; the results carry distinct
  chunk ids, are ordered by the documented ranking, number at most \<open>min(top_k, max_results)\<close>, respect
  the per-document cap, and are non-empty, at most \<open>max_chunk_bytes\<close> long each and
  \<open>max_total_bytes\<close> long together. The hypothesis is that the byte budget is a \<open>usize\<close>.
\<close>
theorem normalize_results_safe:
  assumes "max_total_bytes (rq_context_budget rq) \<le> usize_max"
  shows "list_all (\<lambda>r. admissible rq r \<and> is_finite (ck_score r) \<and> unit_score (ck_score r) \<and>
           ck_content r \<noteq> [] \<and> length (ck_content r) \<le> max_chunk_bytes (rq_context_budget rq))
         (fst (normalize_and_budget_results hash rq results)) \<and>
       distinct (map ck_chunk_id (fst (normalize_and_budget_results hash rq results))) \<and>
       sorted (map rank (fst (normalize_and_budget_results hash rq results))) \<and>
       length (fst (normalize_and_budget_results hash rq results)) \<le>
         min (rq_top_k rq) (max_results (rq_context_budget rq)) \<and>
       (case per_document_cap (rq_context_budget rq) of
          None \<Rightarrow> True
        | Some cap \<Rightarrow> length (filter (\<lambda>r. document_identity r = i)
            (fst (normalize_and_budget_results hash rq results))) \<le> cap) \<and>
       (\<Sum>r\<leftarrow>fst (normalize_and_budget_results hash rq results). length (ck_content r)) \<le>
         max_total_bytes (rq_context_budget rq)"
proof (intro conjI)
  show "list_all (\<lambda>r. admissible rq r \<and> is_finite (ck_score r) \<and> unit_score (ck_score r) \<and>
           ck_content r \<noteq> [] \<and> length (ck_content r) \<le> max_chunk_bytes (rq_context_budget rq))
         (fst (normalize_and_budget_results hash rq results))"
    by (rule normalize_admissible)
  show "(\<Sum>r\<leftarrow>fst (normalize_and_budget_results hash rq results). length (ck_content r)) \<le>
      max_total_bytes (rq_context_budget rq)"
    using admit_total [OF assms, of 0] by (simp add: normalize_eq_admit)
  show "length (fst (normalize_and_budget_results hash rq results)) \<le>
      min (rq_top_k rq) (max_results (rq_context_budget rq))"
    by (rule normalize_length)
qed (simp_all add: normalize_distinct normalize_order normalize_per_document split: option.split)

text \<open>
  Two candidates, one of another tenant: one result, within the budget of a default request.
\<close>
definition sample_chunk :: "u64 \<Rightarrow> RetrievalScope \<Rightarrow> RetrievedChunk" where
  "sample_chunk n s =
     \<lparr> ck_chunk_id = n, ck_document_id = Some ''d'', ck_score = 0x3F000000, ck_content = ''text'',
       ck_source_id = None, ck_conversation_id = None, ck_message_id = None, ck_ordinal = None,
       ck_scope = s, ck_authorization_marker = None, ck_index_metadata = None, ck_truncated = False \<rparr>"

lemmas request_defs =
  request_new_scoped_def default_budget_def DEFAULT_RETRIEVAL_TOP_K_def DEFAULT_MAX_CHUNK_BYTES_def
  scope_local_def scope_new_def

lemma sample_pass:
  "normalize_and_budget_results id (request_new_scoped ''q'' scope_local)
      [sample_chunk 1 scope_local, sample_chunk 2 (scope_new ''t'' ''w'')] =
   ([sample_chunk 1 scope_local],
    no_diagnostics\<lparr> candidate_count := 2, scope_mismatch_rejections := 1 \<rparr>)"
  by (simp add: normalize_and_budget_results_def request_defs sample_chunk_def screen_def
      count_screening_def allows_values_def is_finite_def clamp01_def sign_negative_def Let_def
      normalize_content_for_hash_def split_words.simps ascii_ws_def ws2_def ws3_def code_def
      CONTENT_HASH_DEDUPE_MIN_BYTES_def apply_diversity_def cap_results_def fit_chunk_def
      no_diagnostics_def)

theorem normalize_results_safe_witness:
  "max_total_bytes (rq_context_budget (request_new_scoped ''q'' scope_local)) \<le> usize_max \<and>
   fst (normalize_and_budget_results id (request_new_scoped ''q'' scope_local)
      [sample_chunk 1 scope_local, sample_chunk 2 (scope_new ''t'' ''w'')]) =
     [sample_chunk 1 scope_local] \<and>
   sorted (map rank (fst (normalize_and_budget_results id (request_new_scoped ''q'' scope_local)
      [sample_chunk 1 scope_local, sample_chunk 2 (scope_new ''t'' ''w'')])))"
proof -
  have "max_total_bytes (rq_context_budget (request_new_scoped ''q'' scope_local)) \<le> usize_max"
    by (simp add: request_defs usize_max_def)
  moreover have "fst (normalize_and_budget_results id (request_new_scoped ''q'' scope_local)
      [sample_chunk 1 scope_local, sample_chunk 2 (scope_new ''t'' ''w'')]) =
     [sample_chunk 1 scope_local]"
    by (simp add: sample_pass)
  ultimately show ?thesis
    using normalize_results_safe [of "request_new_scoped ''q'' scope_local" id
        "[sample_chunk 1 scope_local, sample_chunk 2 (scope_new ''t'' ''w'')]"] by blast
qed

text \<open>
  no candidate is lost silently. The results delivered and the diagnostics' seven rejection
  counters add up to the number of candidates the backend offered.
\<close>
theorem normalize_accounts_for_candidates:
  "candidate_count (snd (normalize_and_budget_results hash rq results)) = length results \<and>
   length (fst (normalize_and_budget_results hash rq results)) +
     dropped (snd (normalize_and_budget_results hash rq results)) = length results"
  by (simp add: normalize_eq_admit admit_dropped ranked_dropped candidate_count_admit
      ranked_candidate_count)

text \<open>
  a delivered result is one of the backend's own, unaltered but for a score clamped to the unit
  interval and a content that may be cut to a prefix ending on a character boundary; the
  \<open>truncated\<close> flag is set exactly when bytes were cut off, here or by the backend.
\<close>
theorem normalize_keeps_provenance:
  "list_all (\<lambda>r. \<exists>r0 \<in> set results. \<exists>n \<le> length (ck_content r0).
       is_char_boundary (ck_content r0) n \<and> screen rq r0 = Keep \<and>
       r = r0\<lparr> ck_score := clamp01 (ck_score r0), ck_content := take n (ck_content r0),
               ck_truncated := (ck_truncated r0 \<or> n < length (ck_content r0)) \<rparr>)
     (fst (normalize_and_budget_results hash rq results))"
  unfolding list_all_iff
proof
  fix r
  assume "r \<in> set (fst (normalize_and_budget_results hash rq results))"
  from normalize_origin [OF this] obtain r0 cap
    where r0: "r0 \<in> set results" "screen rq r0 = Keep"
      and r: "r = fit_chunk cap (r0\<lparr> ck_score := clamp01 (ck_score r0) \<rparr>)" by blast
  from fit_chunk_cut [of "r0\<lparr> ck_score := clamp01 (ck_score r0) \<rparr>" cap] r
  obtain n where "n \<le> length (ck_content r0)" "is_char_boundary (ck_content r0) n"
    "r = r0\<lparr> ck_score := clamp01 (ck_score r0), ck_content := take n (ck_content r0),
               ck_truncated := (ck_truncated r0 \<or> n < length (ck_content r0)) \<rparr>" by auto
  with r0 show "\<exists>r0 \<in> set results. \<exists>n \<le> length (ck_content r0).
       is_char_boundary (ck_content r0) n \<and> screen rq r0 = Keep \<and>
       r = r0\<lparr> ck_score := clamp01 (ck_score r0), ck_content := take n (ck_content r0),
               ck_truncated := (ck_truncated r0 \<or> n < length (ck_content r0)) \<rparr>" by blast
qed

end
