(* ===== verification/Sql_Model.thy ===== *)
theory Sql_Model
  imports Mukei_Errors
begin

text \<open>
  What the repositories share: the database error and its conversion (\<open>storage/pool.rs\<close>), times,
  and the SQLite features their statements rely on.

  A \<open>DateTime<Utc>\<close> is the integer that counts its nanoseconds from the epoch.
\<close>

type_synonym time = int

definition i64_max :: nat where
  "i64_max = 2 ^ 63 - 1"

section \<open>Errors\<close>

datatype (plugins only: code) DbError =
    PoolTimeout duration
  | Sqlite string
  | Manager string
  | Domain MukeiError

type_synonym 'a db_result = "DbError + 'a"

primrec db_error_to_mukei :: "DbError \<Rightarrow> MukeiError" where
  "db_error_to_mukei (PoolTimeout d) =
     DatabaseInitFailed (''r2d2 pool timed out after '' @ debug_duration d)"
| "db_error_to_mukei (Sqlite msg) = DatabaseInitFailed (''rusqlite error: '' @ msg)"
| "db_error_to_mukei (Manager msg) = DatabaseInitFailed (''connection manager error: '' @ msg)"
| "db_error_to_mukei (Domain e) = e"

text \<open>Rust's \<open>?\<close> operator, and \<open>Option::transpose\<close> after \<open>map\<close>.\<close>
definition and_then :: "'e + 'a \<Rightarrow> ('a \<Rightarrow> 'e + 'b) \<Rightarrow> 'e + 'b" where
  "and_then x f = (case x of Inl e \<Rightarrow> Inl e | Inr v \<Rightarrow> f v)"

definition map_transpose :: "('a \<Rightarrow> 'e + 'b) \<Rightarrow> 'a option \<Rightarrow> 'e + 'b option" where
  "map_transpose f x =
     (case x of None \<Rightarrow> Inr None | Some v \<Rightarrow> and_then (f v) (\<lambda>w. Inr (Some w)))"

lemma and_then_simps [simp]: "and_then (Inl e) f = Inl e" "and_then (Inr v) f = f v"
  by (simp_all add: and_then_def)

lemma and_then_Inr_iff: "and_then x f = Inr y \<longleftrightarrow> (\<exists>v. x = Inr v \<and> f v = Inr y)"
  by (cases x) auto

lemma map_transpose_simps [simp]:
  "map_transpose f None = Inr None"
  "map_transpose f (Some v) = and_then (f v) (\<lambda>w. Inr (Some w))"
  by (simp_all add: map_transpose_def)

text \<open>The error of a database operation, as the pool reports it.\<close>
definition from_db :: "'a db_result \<Rightarrow> 'a result" where
  "from_db x = (case x of Inl e \<Rightarrow> Inl (db_error_to_mukei e) | Inr v \<Rightarrow> Inr v)"

section \<open>SQLite\<close>

datatype Violation = CheckFailed | UniqueFailed | ForeignKeyFailed

text \<open>\<open>COALESCE(SUM(...), 0)\<close> over integers: SQLite fails as soon as a partial sum leaves \<open>i64\<close>.\<close>
fun sql_sum :: "int \<Rightarrow> int list \<Rightarrow> int db_result" where
  "sql_sum acc [] = Inr acc"
| "sql_sum acc (x # xs) =
     (if acc + x < - (2 ^ 63) \<or> acc + x > int i64_max then Inl (Sqlite ''integer overflow'')
      else sql_sum (acc + x) xs)"

lemma sql_sum_nonneg:
  assumes "\<forall>x \<in> set xs. 0 \<le> x" and "0 \<le> acc" and "acc \<le> int i64_max"
  shows "sql_sum acc xs =
     (if acc + sum_list xs \<le> int i64_max then Inr (acc + sum_list xs) else Inl (Sqlite ''integer overflow''))"
  using assms
proof (induction xs arbitrary: acc)
  case (Cons x xs)
  moreover have "0 \<le> sum_list xs" using Cons.prems(1) by (simp add: sum_list_nonneg)
  ultimately show ?case by (auto simp: add.assoc)
qed simp

lemma sql_sum_error: "sql_sum acc xs = Inl x \<Longrightarrow> \<exists>m. x = Sqlite m"
  by (induction acc xs rule: sql_sum.induct) (auto split: if_splits)

end
