(* ===== verification/Saas_Domain.thy ===== *)
theory Saas_Domain
  imports Sql_Model Json_Model
begin

text \<open>
  The SaaS domain (\<open>saas/mod.rs\<close>): opaque identifiers and machine keys, the tenancy records, the
  deterministic installation-local scope, subscription and entitlement decisions, usage events with
  their bounded metadata, usage windows, and the quota decision.

  A \<open>DateTime<Utc>\<close> and a chrono \<open>Duration\<close> are integers counting nanoseconds (from the epoch). The
  calendar functions of the chrono crate are a parameter (\<open>chrono\<close>), as are SHA-256 and the JSON
  printer. A panic of chrono is the value \<^const>\<open>None\<close> of the outcome. A \<open>BTreeMap\<close> is the association
  list of its entries in key order.

  The record fields carry a prefix per record, and the constructors of the status enums the name of
  their enum where several enums share a variant name.
\<close>

type_synonym RemoteRevision = u64

section \<open>Limits and errors\<close>

definition MAX_USAGE_METADATA_ENTRIES :: nat where
  "MAX_USAGE_METADATA_ENTRIES = 16"

definition MAX_USAGE_METADATA_KEY_BYTES :: nat where
  "MAX_USAGE_METADATA_KEY_BYTES = 64"

definition MAX_USAGE_METADATA_STRING_BYTES :: nat where
  "MAX_USAGE_METADATA_STRING_BYTES = 256"

definition MAX_USAGE_METADATA_JSON_BYTES :: nat where
  "MAX_USAGE_METADATA_JSON_BYTES = 4096"

datatype SaasDomainError =
    EmptyIdentifier string
  | InvalidMachineKey string string
  | InvalidUsageWindow string
  | UsageUnderflow
  | UsageOverflow
  | UnsafeUsageMetadata string

primrec domain_error_display :: "SaasDomainError \<Rightarrow> string" where
  "domain_error_display (EmptyIdentifier kind) = kind @ '' must not be empty or whitespace-only''"
| "domain_error_display (InvalidMachineKey kind reason) = kind @ '' is invalid: '' @ reason"
| "domain_error_display (InvalidUsageWindow w) = ''invalid usage window: '' @ w"
| "domain_error_display UsageUnderflow = ''usage credits exceed consumed usage''"
| "domain_error_display UsageOverflow = ''usage arithmetic overflow''"
| "domain_error_display (UnsafeUsageMetadata w) = ''usage metadata rejected: '' @ w"

type_synonym 'a domain_result = "SaasDomainError + 'a"

section \<open>Opaque identifiers\<close>

definition opaque_id_new :: "string \<Rightarrow> string \<Rightarrow> string domain_result" where
  "opaque_id_new kind value = (if trim value = [] then Inl (EmptyIdentifier kind) else Inr value)"

definition TenantId_new :: "string \<Rightarrow> string domain_result" where
  "TenantId_new = opaque_id_new ''tenant_id''"

definition WorkspaceId_new :: "string \<Rightarrow> string domain_result" where
  "WorkspaceId_new = opaque_id_new ''workspace_id''"

definition ActorId_new :: "string \<Rightarrow> string domain_result" where
  "ActorId_new = opaque_id_new ''actor_id''"

definition MembershipId_new :: "string \<Rightarrow> string domain_result" where
  "MembershipId_new = opaque_id_new ''membership_id''"

definition EntitlementSnapshotId_new :: "string \<Rightarrow> string domain_result" where
  "EntitlementSnapshotId_new = opaque_id_new ''entitlement_snapshot_id''"

definition UsageEventId_new :: "string \<Rightarrow> string domain_result" where
  "UsageEventId_new = opaque_id_new ''usage_event_id''"

definition SubscriptionSnapshotId_new :: "string \<Rightarrow> string domain_result" where
  "SubscriptionSnapshotId_new = opaque_id_new ''subscription_snapshot_id''"

definition QuotaPolicyId_new :: "string \<Rightarrow> string domain_result" where
  "QuotaPolicyId_new = opaque_id_new ''quota_policy_id''"

definition RequestId_new :: "string \<Rightarrow> string domain_result" where
  "RequestId_new = opaque_id_new ''request_id''"

definition OperationId_new :: "string \<Rightarrow> string domain_result" where
  "OperationId_new = opaque_id_new ''operation_id''"

definition CorrelationId_new :: "string \<Rightarrow> string domain_result" where
  "CorrelationId_new = opaque_id_new ''correlation_id''"

definition IdempotencyKey_new :: "string \<Rightarrow> string domain_result" where
  "IdempotencyKey_new = opaque_id_new ''idempotency_key''"

section \<open>Tenancy records\<close>

datatype SourceOfTruth = SourceLocal | SourceRemote

primrec source_of_truth_as_str :: "SourceOfTruth \<Rightarrow> string" where
  "source_of_truth_as_str SourceLocal = ''local''"
| "source_of_truth_as_str SourceRemote = ''remote''"

datatype TenantStatus = TenantActive | TenantSuspended | TenantClosed

primrec tenant_status_as_str :: "TenantStatus \<Rightarrow> string" where
  "tenant_status_as_str TenantActive = ''active''"
| "tenant_status_as_str TenantSuspended = ''suspended''"
| "tenant_status_as_str TenantClosed = ''closed''"

record Tenant =
  tn_tenant_id :: string
  tn_display_name :: string
  tn_status :: TenantStatus
  tn_source_of_truth :: SourceOfTruth
  tn_created_at :: time
  tn_updated_at :: time
  tn_remote_revision :: "RemoteRevision option"
  tn_suspension_reason :: "string option"

datatype WorkspaceStatus = WorkspaceActive | WorkspaceSuspended | WorkspaceDisabled

primrec workspace_status_as_str :: "WorkspaceStatus \<Rightarrow> string" where
  "workspace_status_as_str WorkspaceActive = ''active''"
| "workspace_status_as_str WorkspaceSuspended = ''suspended''"
| "workspace_status_as_str WorkspaceDisabled = ''disabled''"

datatype WorkspaceManagement = ManagementLocalOnly | ManagementRemoteManaged

primrec management_as_str :: "WorkspaceManagement \<Rightarrow> string" where
  "management_as_str ManagementLocalOnly = ''local_only''"
| "management_as_str ManagementRemoteManaged = ''remote_managed''"

record Workspace =
  ws_workspace_id :: string
  ws_tenant_id :: string
  ws_display_name :: string
  ws_status :: WorkspaceStatus
  ws_created_at :: time
  ws_updated_at :: time
  ws_remote_revision :: "RemoteRevision option"
  ws_management :: WorkspaceManagement

datatype ActorKind = ActorLocal | ActorHuman | ActorService

primrec actor_kind_as_str :: "ActorKind \<Rightarrow> string" where
  "actor_kind_as_str ActorLocal = ''local''"
| "actor_kind_as_str ActorHuman = ''human''"
| "actor_kind_as_str ActorService = ''service''"

datatype ActorStatus = ActorActive | ActorSuspended | ActorDisabled

primrec actor_status_as_str :: "ActorStatus \<Rightarrow> string" where
  "actor_status_as_str ActorActive = ''active''"
| "actor_status_as_str ActorSuspended = ''suspended''"
| "actor_status_as_str ActorDisabled = ''disabled''"

record Actor =
  ac_actor_id :: string
  ac_display_name :: "string option"
  ac_kind :: ActorKind
  ac_status :: ActorStatus
  ac_source_of_truth :: SourceOfTruth
  ac_created_at :: time
  ac_updated_at :: time
  ac_remote_revision :: "RemoteRevision option"

datatype MembershipRole = ReadOnly | Member | Admin | Owner

text \<open>The derived \<open>Ord\<close>: roles ordered by increasing privilege, in declaration order.\<close>
primrec role_rank :: "MembershipRole \<Rightarrow> nat" where
  "role_rank ReadOnly = 0"
| "role_rank Member = 1"
| "role_rank Admin = 2"
| "role_rank Owner = 3"

lemma role_rank_inject: "role_rank a = role_rank b \<Longrightarrow> a = b"
  by (cases a; cases b) simp_all

instantiation MembershipRole :: linorder
begin

definition less_eq_MembershipRole :: "MembershipRole \<Rightarrow> MembershipRole \<Rightarrow> bool" where
  "less_eq_MembershipRole a b \<longleftrightarrow> role_rank a \<le> role_rank b"

definition less_MembershipRole :: "MembershipRole \<Rightarrow> MembershipRole \<Rightarrow> bool" where
  "less_MembershipRole a b \<longleftrightarrow> role_rank a < role_rank b"

instance
  by standard (auto simp: less_eq_MembershipRole_def less_MembershipRole_def dest: role_rank_inject)

end

primrec role_as_str :: "MembershipRole \<Rightarrow> string" where
  "role_as_str ReadOnly = ''read_only''"
| "role_as_str Member = ''member''"
| "role_as_str Admin = ''admin''"
| "role_as_str Owner = ''owner''"

datatype MembershipStatus = MembershipActive | MembershipSuspended | MembershipRevoked

primrec membership_status_as_str :: "MembershipStatus \<Rightarrow> string" where
  "membership_status_as_str MembershipActive = ''active''"
| "membership_status_as_str MembershipSuspended = ''suspended''"
| "membership_status_as_str MembershipRevoked = ''revoked''"

record WorkspaceMembership =
  mb_membership_id :: string
  mb_tenant_id :: string
  mb_workspace_id :: string
  mb_actor_id :: string
  mb_role :: MembershipRole
  mb_status :: MembershipStatus
  mb_created_at :: time
  mb_updated_at :: time
  mb_remote_revision :: "RemoteRevision option"

section \<open>The installation-local scope\<close>

record LocalScope =
  ls_tenant_id :: string
  ls_workspace_id :: string
  ls_actor_id :: string
  ls_membership_id :: string

text \<open>\<open>local_preimage\<close> is the byte sequence fed to the hasher.\<close>
definition local_preimage :: "string \<Rightarrow> string \<Rightarrow> string" where
  "local_preimage namespace installation_id =
     ''mukei-local-scope-v1'' @ [CHR 0x00] @ namespace @ [CHR 0x00] @ installation_id"

definition derive_local_identifier :: "(string \<Rightarrow> string) \<Rightarrow> string \<Rightarrow> string \<Rightarrow> string" where
  "derive_local_identifier sha256 namespace installation_id =
     ''local:'' @ namespace @ '':'' @ hex_lower (sha256 (local_preimage namespace installation_id))"

definition for_installation :: "(string \<Rightarrow> string) \<Rightarrow> string \<Rightarrow> LocalScope domain_result" where
  "for_installation sha256 installation_id =
     (if trim installation_id = [] then Inl (EmptyIdentifier ''installation_id'')
      else case TenantId_new (derive_local_identifier sha256 ''tenant'' installation_id) of
        Inl e \<Rightarrow> Inl e
      | Inr t \<Rightarrow> (case WorkspaceId_new (derive_local_identifier sha256 ''workspace'' installation_id) of
          Inl e \<Rightarrow> Inl e
        | Inr w \<Rightarrow> (case ActorId_new (derive_local_identifier sha256 ''actor'' installation_id) of
            Inl e \<Rightarrow> Inl e
          | Inr a \<Rightarrow> (case MembershipId_new (derive_local_identifier sha256 ''membership'' installation_id) of
              Inl e \<Rightarrow> Inl e
            | Inr m \<Rightarrow> Inr \<lparr>ls_tenant_id = t, ls_workspace_id = w, ls_actor_id = a,
                            ls_membership_id = m\<rparr>))))"

definition scope_tenant :: "LocalScope \<Rightarrow> time \<Rightarrow> Tenant" where
  "scope_tenant s now =
     \<lparr>tn_tenant_id = ls_tenant_id s, tn_display_name = ''Local installation'',
      tn_status = TenantActive, tn_source_of_truth = SourceLocal, tn_created_at = now,
      tn_updated_at = now, tn_remote_revision = None, tn_suspension_reason = None\<rparr>"

definition scope_workspace :: "LocalScope \<Rightarrow> time \<Rightarrow> Workspace" where
  "scope_workspace s now =
     \<lparr>ws_workspace_id = ls_workspace_id s, ws_tenant_id = ls_tenant_id s,
      ws_display_name = ''Local workspace'', ws_status = WorkspaceActive, ws_created_at = now,
      ws_updated_at = now, ws_remote_revision = None, ws_management = ManagementLocalOnly\<rparr>"

definition scope_actor :: "LocalScope \<Rightarrow> time \<Rightarrow> Actor" where
  "scope_actor s now =
     \<lparr>ac_actor_id = ls_actor_id s, ac_display_name = Some ''Local actor'', ac_kind = ActorLocal,
      ac_status = ActorActive, ac_source_of_truth = SourceLocal, ac_created_at = now,
      ac_updated_at = now, ac_remote_revision = None\<rparr>"

definition scope_membership :: "LocalScope \<Rightarrow> time \<Rightarrow> WorkspaceMembership" where
  "scope_membership s now =
     \<lparr>mb_membership_id = ls_membership_id s, mb_tenant_id = ls_tenant_id s,
      mb_workspace_id = ls_workspace_id s, mb_actor_id = ls_actor_id s, mb_role = Owner,
      mb_status = MembershipActive, mb_created_at = now, mb_updated_at = now,
      mb_remote_revision = None\<rparr>"

section \<open>Subscriptions\<close>

datatype SubscriptionStatus =
    SubActive | SubTrial | SubGracePeriod | SubPastDueRestricted | SubCancelledEffective
  | SubExpired | SubUnknownStale

primrec subscription_status_as_str :: "SubscriptionStatus \<Rightarrow> string" where
  "subscription_status_as_str SubActive = ''active''"
| "subscription_status_as_str SubTrial = ''trial''"
| "subscription_status_as_str SubGracePeriod = ''grace_period''"
| "subscription_status_as_str SubPastDueRestricted = ''past_due_restricted''"
| "subscription_status_as_str SubCancelledEffective = ''cancelled_effective''"
| "subscription_status_as_str SubExpired = ''expired''"
| "subscription_status_as_str SubUnknownStale = ''unknown_stale''"

datatype SnapshotAuthority = Authoritative | LocalProvisional

primrec authority_as_str :: "SnapshotAuthority \<Rightarrow> string" where
  "authority_as_str Authoritative = ''authoritative''"
| "authority_as_str LocalProvisional = ''local_provisional''"

datatype SubscriptionAccessState = AccessAllowed | AccessRestricted | AccessStaleOrUnknown

record SubscriptionState =
  sb_snapshot_id :: string
  sb_tenant_id :: string
  sb_plan_key :: string
  sb_status :: SubscriptionStatus
  sb_effective_start :: time
  sb_effective_end :: "time option"
  sb_grace_period_end :: "time option"
  sb_source_revision :: "RemoteRevision option"
  sb_last_synced_at :: time
  sb_authority :: SnapshotAuthority
  sb_stale_marked_at :: "time option"

text \<open>\<open>Option::is_some_and\<close>\<close>
definition is_some_and :: "'a option \<Rightarrow> ('a \<Rightarrow> bool) \<Rightarrow> bool" where
  "is_some_and x P = (case x of None \<Rightarrow> False | Some v \<Rightarrow> P v)"

definition subscription_is_stale :: "SubscriptionState \<Rightarrow> time \<Rightarrow> int \<Rightarrow> bool" where
  "subscription_is_stale s at stale_after \<longleftrightarrow>
     sb_authority s \<noteq> Authoritative \<or> sb_stale_marked_at s \<noteq> None \<or> sb_status s = SubUnknownStale
     \<or> at - sb_last_synced_at s > stale_after"

definition access_state :: "SubscriptionState \<Rightarrow> time \<Rightarrow> SubscriptionAccessState" where
  "access_state s at =
     (if sb_authority s \<noteq> Authoritative \<or> sb_stale_marked_at s \<noteq> None then AccessStaleOrUnknown
      else case sb_status s of
        SubActive \<Rightarrow> if is_some_and (sb_effective_end s) (\<lambda>e. at \<ge> e) then AccessRestricted else AccessAllowed
      | SubTrial \<Rightarrow> if is_some_and (sb_effective_end s) (\<lambda>e. at \<ge> e) then AccessRestricted else AccessAllowed
      | SubGracePeriod \<Rightarrow>
          if is_some_and (sb_grace_period_end s) (\<lambda>e. at \<ge> e) then AccessRestricted else AccessAllowed
      | SubCancelledEffective \<Rightarrow>
          if is_some_and (sb_effective_end s) (\<lambda>e. at < e) then AccessAllowed else AccessRestricted
      | SubPastDueRestricted \<Rightarrow> AccessRestricted
      | SubExpired \<Rightarrow> AccessRestricted
      | SubUnknownStale \<Rightarrow> AccessStaleOrUnknown)"

definition access_state_with_staleness :: "SubscriptionState \<Rightarrow> time \<Rightarrow> int \<Rightarrow> SubscriptionAccessState" where
  "access_state_with_staleness s at stale_after =
     (if subscription_is_stale s at stale_after then AccessStaleOrUnknown else access_state s at)"

section \<open>Machine keys and entitlements\<close>

definition machine_key_char :: "char \<Rightarrow> bool" where
  "machine_key_char c \<longleftrightarrow> is_ascii_alphanumeric c \<or> c \<in> {CHR ''_'', CHR ''-'', CHR ''.'', CHR '':'', CHR ''/''}"

definition validate_machine_key :: "string \<Rightarrow> string \<Rightarrow> nat \<Rightarrow> string domain_result" where
  "validate_machine_key value kind max_bytes =
     (if trim value = [] then Inl (InvalidMachineKey kind ''empty'')
      else if length value > max_bytes then Inl (InvalidMachineKey kind ''too_long'')
      else if \<not> list_all machine_key_char value then Inl (InvalidMachineKey kind ''invalid_characters'')
      else Inr value)"

definition EntitlementKey_new :: "string \<Rightarrow> string domain_result" where
  "EntitlementKey_new value = validate_machine_key value ''entitlement_key'' 128"

definition UsageDimension_new :: "string \<Rightarrow> string domain_result" where
  "UsageDimension_new value = validate_machine_key value ''usage_dimension'' 128"

record EntitlementGrant =
  eg_key :: string
  eg_enabled :: bool
  eg_numeric_limit :: "u64 option"
  eg_string_value :: "string option"
  eg_effective_start :: "time option"
  eg_effective_end :: "time option"
  eg_source_revision :: "RemoteRevision option"

record EntitlementSnapshot =
  es_snapshot_id :: string
  es_tenant_id :: string
  es_grants :: "(string \<times> EntitlementGrant) list"
  es_source_revision :: "RemoteRevision option"
  es_last_synced_at :: time
  es_authority :: SnapshotAuthority
  es_stale_marked_at :: "time option"

datatype 'a EntitlementDecision = Granted 'a | Denied | Unknown | StaleUntrusted

definition entitlement_is_stale :: "EntitlementSnapshot \<Rightarrow> time \<Rightarrow> int \<Rightarrow> bool" where
  "entitlement_is_stale s at stale_after \<longleftrightarrow>
     es_authority s \<noteq> Authoritative \<or> es_stale_marked_at s \<noteq> None
     \<or> at - es_last_synced_at s > stale_after"

definition resolve_grant ::
  "EntitlementSnapshot \<Rightarrow> string \<Rightarrow> time \<Rightarrow> int \<Rightarrow> EntitlementGrant EntitlementDecision" where
  "resolve_grant s key at stale_after =
     (if entitlement_is_stale s at stale_after then StaleUntrusted
      else case map_of (es_grants s) key of
        None \<Rightarrow> Unknown
      | Some g \<Rightarrow>
          if is_some_and (eg_effective_start g) (\<lambda>b. at < b)
             \<or> is_some_and (eg_effective_end g) (\<lambda>e. at \<ge> e) \<or> \<not> eg_enabled g
          then Denied else Granted g)"

definition feature_enabled ::
  "EntitlementSnapshot \<Rightarrow> string \<Rightarrow> time \<Rightarrow> int \<Rightarrow> bool EntitlementDecision" where
  "feature_enabled s key at stale_after =
     (case resolve_grant s key at stale_after of
        Granted g \<Rightarrow> Granted (eg_enabled g)
      | Denied \<Rightarrow> Denied | Unknown \<Rightarrow> Unknown | StaleUntrusted \<Rightarrow> StaleUntrusted)"

definition access_gate ::
  "EntitlementSnapshot \<Rightarrow> string \<Rightarrow> time \<Rightarrow> int \<Rightarrow> unit EntitlementDecision" where
  "access_gate s key at stale_after =
     (case feature_enabled s key at stale_after of
        Granted b \<Rightarrow> if b then Granted () else Denied
      | Denied \<Rightarrow> Denied | Unknown \<Rightarrow> Unknown | StaleUntrusted \<Rightarrow> StaleUntrusted)"

definition numeric_limit ::
  "EntitlementSnapshot \<Rightarrow> string \<Rightarrow> time \<Rightarrow> int \<Rightarrow> u64 EntitlementDecision" where
  "numeric_limit s key at stale_after =
     (case resolve_grant s key at stale_after of
        Granted g \<Rightarrow>
          if eg_enabled g
          then (case eg_numeric_limit g of None \<Rightarrow> Unknown | Some n \<Rightarrow> Granted n) else Denied
      | Denied \<Rightarrow> Denied | Unknown \<Rightarrow> Unknown | StaleUntrusted \<Rightarrow> StaleUntrusted)"

definition string_value ::
  "EntitlementSnapshot \<Rightarrow> string \<Rightarrow> time \<Rightarrow> int \<Rightarrow> string EntitlementDecision" where
  "string_value s key at stale_after =
     (case resolve_grant s key at stale_after of
        Granted g \<Rightarrow>
          if eg_enabled g
          then (case eg_string_value g of None \<Rightarrow> Unknown | Some v \<Rightarrow> Granted v) else Denied
      | Denied \<Rightarrow> Denied | Unknown \<Rightarrow> Unknown | StaleUntrusted \<Rightarrow> StaleUntrusted)"

definition entitlement_expired :: "EntitlementSnapshot \<Rightarrow> string \<Rightarrow> time \<Rightarrow> bool" where
  "entitlement_expired s key at =
     is_some_and (Option.bind (map_of (es_grants s) key) eg_effective_end) (\<lambda>e. at \<ge> e)"

section \<open>Usage events\<close>

datatype UsageSource = UsageLocal | UsageRemote | UsageReconciled

primrec usage_source_as_str :: "UsageSource \<Rightarrow> string" where
  "usage_source_as_str UsageLocal = ''local''"
| "usage_source_as_str UsageRemote = ''remote''"
| "usage_source_as_str UsageReconciled = ''reconciled''"

datatype UsageEventKind = Consumption | AdjustmentCredit

primrec usage_kind_as_str :: "UsageEventKind \<Rightarrow> string" where
  "usage_kind_as_str Consumption = ''consumption''"
| "usage_kind_as_str AdjustmentCredit = ''adjustment_credit''"

datatype UsageMetadataValue = MetaBool bool | MetaInteger int | MetaString string

type_synonym metadata_map = "(string \<times> UsageMetadataValue) list"

definition FORBIDDEN :: "string list" where
  "FORBIDDEN =
     [''prompt'', ''document'', ''content'', ''message'', ''text'', ''query'', ''input'', ''output'',
      ''api_key'', ''secret'', ''token'', ''filesystem'', ''file_path'', ''path'', ''url'', ''uri'',
      ''email'', ''raw_error'', ''stacktrace'', ''stack_trace'']"

definition validate_metadata_key :: "string \<Rightarrow> unit domain_result" where
  "validate_metadata_key key =
     (if key = [] \<or> length key > MAX_USAGE_METADATA_KEY_BYTES
      then Inl (UnsafeUsageMetadata ''invalid key length'')
      else if \<not> list_all (\<lambda>c. is_ascii_alphanumeric c \<or> c \<in> {CHR ''_'', CHR ''-'', CHR ''.''}) key
      then Inl (UnsafeUsageMetadata ''keys must be machine-safe ASCII'')
      else if list_ex (\<lambda>needle. str_contains needle (to_ascii_lowercase key)) FORBIDDEN
      then Inl (UnsafeUsageMetadata ''key category is not permitted'')
      else Inr ())"

definition validate_metadata_value :: "UsageMetadataValue \<Rightarrow> unit domain_result" where
  "validate_metadata_value v =
     (case v of
        MetaString s \<Rightarrow>
          if length s > MAX_USAGE_METADATA_STRING_BYTES
          then Inl (UnsafeUsageMetadata ''string value exceeds size bound'')
          else if \<not> list_all (\<lambda>c. is_ascii_alphanumeric c
                        \<or> c \<in> {CHR ''_'', CHR ''-'', CHR ''.'', CHR '':''}) s
          then Inl (UnsafeUsageMetadata
                 ''string values must be bounded machine tokens, not free-form text'')
          else Inr ()
      | MetaBool _ \<Rightarrow> Inr ()
      | MetaInteger _ \<Rightarrow> Inr ())"

fun validate_metadata_entries :: "metadata_map \<Rightarrow> unit domain_result" where
  "validate_metadata_entries [] = Inr ()"
| "validate_metadata_entries ((key, value) # rest) =
     (case validate_metadata_key key of
        Inl e \<Rightarrow> Inl e
      | Inr _ \<Rightarrow> (case validate_metadata_value value of
          Inl e \<Rightarrow> Inl e
        | Inr _ \<Rightarrow> validate_metadata_entries rest))"

text \<open>\<open>enc\<close> is the JSON printer; \<^const>\<open>None\<close> is a serialisation failure.\<close>
definition UsageMetadata_to_json :: "(metadata_map \<Rightarrow> string option) \<Rightarrow> metadata_map \<Rightarrow> string domain_result" where
  "UsageMetadata_to_json enc values =
     (case enc values of
        None \<Rightarrow> Inl (UnsafeUsageMetadata ''serialization failed'')
      | Some encoded \<Rightarrow>
          if length encoded > MAX_USAGE_METADATA_JSON_BYTES
          then Inl (UnsafeUsageMetadata ''serialized object exceeds size bound'')
          else Inr encoded)"

definition UsageMetadata_new :: "(metadata_map \<Rightarrow> string option) \<Rightarrow> metadata_map \<Rightarrow> metadata_map domain_result" where
  "UsageMetadata_new enc values =
     (if length values > MAX_USAGE_METADATA_ENTRIES then Inl (UnsafeUsageMetadata ''too many entries'')
      else case validate_metadata_entries values of
        Inl e \<Rightarrow> Inl e
      | Inr _ \<Rightarrow> (case enc values of
          None \<Rightarrow> Inl (UnsafeUsageMetadata ''serialization failed'')
        | Some encoded \<Rightarrow>
            if length encoded > MAX_USAGE_METADATA_JSON_BYTES
            then Inl (UnsafeUsageMetadata ''serialized object exceeds size bound'')
            else Inr values))"

record UsageEvent =
  ue_usage_event_id :: string
  ue_tenant_id :: string
  ue_workspace_id :: "string option"
  ue_actor_id :: "string option"
  ue_dimension :: string
  ue_quantity :: u64
  ue_kind :: UsageEventKind
  ue_occurred_at :: time
  ue_recorded_at :: time
  ue_operation_id :: "string option"
  ue_correlation_id :: "string option"
  ue_idempotency_key :: string
  ue_source :: UsageSource
  ue_adjusts_usage_event_id :: "string option"
  ue_metadata :: metadata_map

definition usage_event_validate :: "UsageEvent \<Rightarrow> unit domain_result" where
  "usage_event_validate ev =
     (case (ue_kind ev, ue_adjusts_usage_event_id ev) of
        (Consumption, None) \<Rightarrow> Inr ()
      | (AdjustmentCredit, Some _) \<Rightarrow> Inr ()
      | (Consumption, Some _) \<Rightarrow> Inl (InvalidMachineKey ''usage_adjustment''
            ''consumption must not reference a corrected event'')
      | (AdjustmentCredit, None) \<Rightarrow> Inl (InvalidMachineKey ''usage_adjustment''
            ''adjustment credit must reference the original event''))"

record UsageAggregation =
  ag_consumed :: u64
  ag_credited :: u64

text \<open>\<open>u64::checked_sub\<close> and \<open>u64::checked_add\<close>\<close>
definition checked_sub :: "u64 \<Rightarrow> u64 \<Rightarrow> u64 option" where
  "checked_sub a b = (if b \<le> a then Some (a - b) else None)"

definition checked_add :: "u64 \<Rightarrow> u64 \<Rightarrow> u64 option" where
  "checked_add a b = (if unat a + unat b < 2 ^ 64 then Some (a + b) else None)"

definition aggregation_net :: "UsageAggregation \<Rightarrow> u64 domain_result" where
  "aggregation_net a =
     (case checked_sub (ag_consumed a) (ag_credited a) of None \<Rightarrow> Inl UsageUnderflow | Some n \<Rightarrow> Inr n)"

section \<open>Usage windows\<close>

datatype UsageWindow =
    Lifetime
  | CalendarDay
  | CalendarMonth
  | Rolling u64
  | ExternalPeriod time time

record UsageWindowBounds =
  wb_start :: "time option"
  wb_end :: "time option"

text \<open>
  What the window code uses of chrono. \<open>ch_year\<close>, \<open>ch_month\<close> and \<open>ch_day\<close> read a UTC date; \<open>ch_ymd\<close> is
  \<open>Utc.with_ymd_and_hms(y, m, d, 0, 0, 0).single()\<close>; \<open>checked_add_signed\<close> and
  \<open>checked_sub_signed\<close> fail outside the range of dates; \<open>ch_seconds\<close> is \<open>Duration::seconds\<close>, which
  panics (\<^const>\<open>None\<close>) when the duration is out of bounds.
\<close>
record chrono =
  ch_year :: "time \<Rightarrow> int"
  ch_month :: "time \<Rightarrow> nat"
  ch_day :: "time \<Rightarrow> nat"
  ch_ymd :: "int \<Rightarrow> nat \<Rightarrow> nat \<Rightarrow> time option"
  checked_add_signed :: "time \<Rightarrow> int \<Rightarrow> time option"
  checked_sub_signed :: "time \<Rightarrow> int \<Rightarrow> time option"
  ch_seconds :: "int \<Rightarrow> int option"

text \<open>\<open>Duration::days(1)\<close>, in nanoseconds\<close>
definition one_day :: int where
  "one_day = 86400 * 10 ^ 9"

definition day_bounds :: "chrono \<Rightarrow> time \<Rightarrow> UsageWindowBounds domain_result" where
  "day_bounds ch at =
     (case ch_ymd ch (ch_year ch at) (ch_month ch at) (ch_day ch at) of
        None \<Rightarrow> Inl (InvalidUsageWindow ''invalid UTC day'')
      | Some s \<Rightarrow> (case checked_add_signed ch s one_day of
          None \<Rightarrow> Inl (InvalidUsageWindow ''UTC day end overflow'')
        | Some e \<Rightarrow> Inr \<lparr>wb_start = Some s, wb_end = Some e\<rparr>))"

definition month_bounds :: "chrono \<Rightarrow> time \<Rightarrow> UsageWindowBounds domain_result" where
  "month_bounds ch at =
     (case ch_ymd ch (ch_year ch at) (ch_month ch at) 1 of
        None \<Rightarrow> Inl (InvalidUsageWindow ''invalid UTC month'')
      | Some s \<Rightarrow>
          (let (next_year, next_month) =
                 (if ch_month ch at = 12 then (ch_year ch at + 1, 1) else (ch_year ch at, ch_month ch at + 1))
           in case ch_ymd ch next_year next_month 1 of
                None \<Rightarrow> Inl (InvalidUsageWindow ''invalid UTC month end'')
              | Some e \<Rightarrow> Inr \<lparr>wb_start = Some s, wb_end = Some e\<rparr>))"

text \<open>The outcome \<^const>\<open>None\<close> is a panic.\<close>
definition bounds_at :: "chrono \<Rightarrow> UsageWindow \<Rightarrow> time \<Rightarrow> UsageWindowBounds domain_result option" where
  "bounds_at ch w at =
     (case w of
        Lifetime \<Rightarrow> Some (Inr \<lparr>wb_start = None, wb_end = None\<rparr>)
      | CalendarDay \<Rightarrow> Some (day_bounds ch at)
      | CalendarMonth \<Rightarrow> Some (month_bounds ch at)
      | Rolling secs \<Rightarrow>
          if secs = 0 \<or> unat secs > i64_max
          then Some (Inl (InvalidUsageWindow ''rolling seconds must be positive and bounded''))
          else (case ch_seconds ch (uint secs) of
              None \<Rightarrow> None
            | Some d \<Rightarrow> Some (case checked_sub_signed ch at d of
                None \<Rightarrow> Inl (InvalidUsageWindow ''rolling window start overflow'')
              | Some s \<Rightarrow> Inr \<lparr>wb_start = Some s, wb_end = Some at\<rparr>))
      | ExternalPeriod s e \<Rightarrow>
          Some (if e \<le> s then Inl (InvalidUsageWindow ''external period end must be after start'')
                else Inr \<lparr>wb_start = Some s, wb_end = Some e\<rparr>))"

section \<open>Quota policies and decisions\<close>

datatype QuotaLimitBehavior = Hard | Soft

primrec behavior_as_str :: "QuotaLimitBehavior \<Rightarrow> string" where
  "behavior_as_str Hard = ''hard''"
| "behavior_as_str Soft = ''soft''"

record QuotaPolicy =
  qp_policy_id :: string
  qp_tenant_id :: string
  qp_workspace_id :: "string option"
  qp_dimension :: string
  qp_limit :: u64
  qp_window :: UsageWindow
  qp_behavior :: QuotaLimitBehavior
  qp_burst_allowance :: "u64 option"
  qp_warning_threshold :: "u64 option"
  qp_required_entitlement :: "string option"
  qp_authority :: SnapshotAuthority
  qp_source_of_truth :: SourceOfTruth
  qp_source_revision :: "RemoteRevision option"
  qp_stale_marked_at :: "time option"
  qp_created_at :: time

datatype QuotaDecisionState =
    QuotaAllowed | QuotaAllowedWithWarning | DeniedLimitExceeded | DeniedEntitlementMissing
  | DeniedSubscriptionRestricted | UnknownAuthoritativeStateStale

datatype QuotaDecisionReason =
    WithinLimit | WarningThresholdReached | SoftLimitExceeded | HardLimitExceeded
  | EntitlementDenied | EntitlementUnknown | SubscriptionRestricted | AuthoritativeStateStale

record QuotaDecisionInput =
  qi_current_usage :: u64
  qi_requested_quantity :: u64
  qi_entitlement :: "unit EntitlementDecision option"
  qi_subscription :: SubscriptionAccessState

record QuotaDecision =
  qd_state :: QuotaDecisionState
  qd_reason :: QuotaDecisionReason
  qd_current_usage :: u64
  qd_requested_quantity :: u64
  qd_projected_usage :: u64
  qd_limit :: u64
  qd_effective_limit :: u64
  qd_warning_threshold :: "u64 option"

definition effective_limit :: "QuotaPolicy \<Rightarrow> u64 option" where
  "effective_limit p = checked_add (qp_limit p) (case qp_burst_allowance p of None \<Rightarrow> 0 | Some b \<Rightarrow> b)"

text \<open>The chain of early returns of \<open>decide\<close>, once both sums are known.\<close>
definition decide_verdict ::
  "QuotaPolicy \<Rightarrow> QuotaDecisionInput \<Rightarrow> u64 \<Rightarrow> u64 \<Rightarrow> QuotaDecisionState \<times> QuotaDecisionReason" where
  "decide_verdict p input projected eff =
     (if qp_authority p \<noteq> Authoritative \<or> qp_stale_marked_at p \<noteq> None
      then (UnknownAuthoritativeStateStale, AuthoritativeStateStale)
      else case qi_subscription input of
        AccessStaleOrUnknown \<Rightarrow> (UnknownAuthoritativeStateStale, AuthoritativeStateStale)
      | AccessRestricted \<Rightarrow> (DeniedSubscriptionRestricted, SubscriptionRestricted)
      | AccessAllowed \<Rightarrow>
          if qp_required_entitlement p \<noteq> None \<and> qi_entitlement input \<noteq> Some (Granted ())
          then (case qi_entitlement input of
              Some StaleUntrusted \<Rightarrow> (UnknownAuthoritativeStateStale, AuthoritativeStateStale)
            | Some Denied \<Rightarrow> (DeniedEntitlementMissing, EntitlementDenied)
            | _ \<Rightarrow> (DeniedEntitlementMissing, EntitlementUnknown))
          else if projected > eff
          then (case qp_behavior p of
              Hard \<Rightarrow> (DeniedLimitExceeded, HardLimitExceeded)
            | Soft \<Rightarrow> (QuotaAllowedWithWarning, SoftLimitExceeded))
          else if is_some_and (qp_warning_threshold p) (\<lambda>threshold. projected \<ge> threshold)
          then (QuotaAllowedWithWarning, WarningThresholdReached)
          else (QuotaAllowed, WithinLimit))"

definition decide :: "QuotaPolicy \<Rightarrow> QuotaDecisionInput \<Rightarrow> QuotaDecision domain_result" where
  "decide p input =
     (case checked_add (qi_current_usage input) (qi_requested_quantity input) of
        None \<Rightarrow> Inl UsageOverflow
      | Some projected \<Rightarrow> (case effective_limit p of
          None \<Rightarrow> Inl UsageOverflow
        | Some eff \<Rightarrow>
            (let (st, reason) = decide_verdict p input projected eff in
             Inr \<lparr>qd_state = st, qd_reason = reason,
                  qd_current_usage = qi_current_usage input,
                  qd_requested_quantity = qi_requested_quantity input,
                  qd_projected_usage = projected, qd_limit = qp_limit p,
                  qd_effective_limit = eff, qd_warning_threshold = qp_warning_threshold p\<rparr>)))"

section \<open>Identifiers and machine keys\<close>

lemma checked_add_Some_iff:
  "checked_add a b = Some c \<longleftrightarrow> unat a + unat b < 2 ^ 64 \<and> c = a + b"
  by (auto simp: checked_add_def)

lemma checked_add_unat: "checked_add a b = Some c \<Longrightarrow> unat c = unat a + unat b"
  by (auto simp: checked_add_def unat_word_ariths split: if_splits)

lemma checked_add_None_iff: "checked_add a b = None \<longleftrightarrow> 2 ^ 64 \<le> unat a + unat b"
  by (auto simp: checked_add_def)

lemma is_some_and_simps [simp]: "\<not> is_some_and None P" "is_some_and (Some v) P = P v"
  by (simp_all add: is_some_and_def)

lemma machine_key_char_graphic: "machine_key_char c \<Longrightarrow> graphic c"
  by (auto simp: machine_key_char_def graphic_def code_def dest!: alphanumeric_graphic)

lemma machine_key_trim: "list_all machine_key_char s \<Longrightarrow> trim s = [] \<longleftrightarrow> s = []"
  by (cases s) (auto dest: machine_key_char_graphic trim_not_Nil [OF list.set_intros(1)])

text \<open>A machine key is accepted exactly when it is a non-empty, bounded string of key characters.\<close>
lemma validate_machine_key_exact:
  "validate_machine_key s kind n = Inr k \<longleftrightarrow>
     k = s \<and> s \<noteq> [] \<and> length s \<le> n \<and> list_all machine_key_char s"
  by (cases "list_all machine_key_char s")
    (auto simp: validate_machine_key_def machine_key_trim)

lemma local_identifier_not_blank: "trim (''local:'' @ s) \<noteq> []"
  by (rule trim_not_Nil [of "CHR ''l''"]) (simp_all add: graphic_def code_def)

lemma opaque_id_local [simp]:
  "opaque_id_new kind (derive_local_identifier sha256 ns i) = Inr (derive_local_identifier sha256 ns i)"
  using local_identifier_not_blank by (simp add: opaque_id_new_def derive_local_identifier_def)

lemmas id_new_defs = TenantId_new_def WorkspaceId_new_def ActorId_new_def MembershipId_new_def

lemma for_installation_eq:
  "for_installation sha256 i =
     (if trim i = [] then Inl (EmptyIdentifier ''installation_id'')
      else Inr \<lparr>ls_tenant_id = derive_local_identifier sha256 ''tenant'' i,
                ls_workspace_id = derive_local_identifier sha256 ''workspace'' i,
                ls_actor_id = derive_local_identifier sha256 ''actor'' i,
                ls_membership_id = derive_local_identifier sha256 ''membership'' i\<rparr>)"
  by (simp add: for_installation_def id_new_defs)

lemma local_preimage_inject: "local_preimage ns i = local_preimage ns j \<longleftrightarrow> i = j"
  by (simp add: local_preimage_def)

text \<open>
  The installation-local scope. Every installation identifier with a non-blank character gets a
  scope; its four identifiers are marked local and pairwise different; the records derived from it
  refer to one another and none claims a remote revision; and two different installations never
  share an identifier unless SHA-256 collides on the derivation inputs.
\<close>
theorem local_scope_sound:
  "(\<exists>s. for_installation sha256 i = Inr s) = (trim i \<noteq> [])
   \<and> (for_installation sha256 i = Inr s \<longrightarrow>
        distinct [ls_tenant_id s, ls_workspace_id s, ls_actor_id s, ls_membership_id s]
        \<and> list_all (starts_with ''local:'')
             [ls_tenant_id s, ls_workspace_id s, ls_actor_id s, ls_membership_id s]
        \<and> ws_tenant_id (scope_workspace s now) = tn_tenant_id (scope_tenant s now)
        \<and> mb_tenant_id (scope_membership s now) = tn_tenant_id (scope_tenant s now)
        \<and> mb_workspace_id (scope_membership s now) = ws_workspace_id (scope_workspace s now)
        \<and> mb_actor_id (scope_membership s now) = ac_actor_id (scope_actor s now)
        \<and> tn_source_of_truth (scope_tenant s now) = SourceLocal
        \<and> tn_remote_revision (scope_tenant s now) = None
        \<and> ws_management (scope_workspace s now) = ManagementLocalOnly)
   \<and> (for_installation sha256 i = Inr s \<and> for_installation sha256 j = Inr s' \<and> i \<noteq> j
      \<and> (ls_tenant_id s = ls_tenant_id s' \<or> ls_workspace_id s = ls_workspace_id s'
         \<or> ls_actor_id s = ls_actor_id s' \<or> ls_membership_id s = ls_membership_id s')
      \<longrightarrow> (\<exists>x y. x \<noteq> y \<and> sha256 x = sha256 y))"
proof (intro conjI impI)
  show "(\<exists>s. for_installation sha256 i = Inr s) = (trim i \<noteq> [])"
    by (simp add: for_installation_eq)
next
  assume "for_installation sha256 i = Inr s \<and> for_installation sha256 j = Inr s' \<and> i \<noteq> j
      \<and> (ls_tenant_id s = ls_tenant_id s' \<or> ls_workspace_id s = ls_workspace_id s'
         \<or> ls_actor_id s = ls_actor_id s' \<or> ls_membership_id s = ls_membership_id s')"
  then have "i \<noteq> j" and
    "\<exists>ns. derive_local_identifier sha256 ns i = derive_local_identifier sha256 ns j"
    by (auto simp: for_installation_eq split: if_splits)
  then show "\<exists>x y. x \<noteq> y \<and> sha256 x = sha256 y"
    by (auto simp: derive_local_identifier_def dest!: hex_lower_inj)
       (metis local_preimage_inject)
qed (auto simp: for_installation_eq derive_local_identifier_def starts_with_def scope_tenant_def
       scope_workspace_def scope_actor_def scope_membership_def split: if_splits)

theorem local_scope_sound_witness:
  "\<exists>s. for_installation (\<lambda>x. x) ''device-1'' = Inr s
     \<and> ls_tenant_id s \<noteq> ls_workspace_id s
     \<and> mb_tenant_id (scope_membership s 0) = tn_tenant_id (scope_tenant s 0)"
proof -
  have "trim ''device-1'' \<noteq> []"
    by (rule trim_not_Nil [of "CHR ''d''"]) (simp_all add: graphic_def code_def)
  with local_scope_sound [of "\<lambda>x. x" "''device-1''" undefined undefined undefined undefined]
  obtain s where "for_installation (\<lambda>x. x) ''device-1'' = Inr s" by blast
  with local_scope_sound [of "\<lambda>x. x" "''device-1''" s 0 undefined undefined]
  show ?thesis by auto
qed

section \<open>Subscription, entitlement and quota decisions\<close>

lemma access_allowed_iff:
  "access_state s at = AccessAllowed \<longleftrightarrow>
     sb_authority s = Authoritative \<and> sb_stale_marked_at s = None \<and>
     (sb_status s \<in> {SubActive, SubTrial} \<and> (\<forall>e. sb_effective_end s = Some e \<longrightarrow> at < e)
      \<or> sb_status s = SubGracePeriod \<and> (\<forall>e. sb_grace_period_end s = Some e \<longrightarrow> at < e)
      \<or> sb_status s = SubCancelledEffective \<and> (\<exists>e. sb_effective_end s = Some e \<and> at < e))"
  by (cases "sb_status s"; cases "sb_effective_end s"; cases "sb_grace_period_end s")
    (auto simp: access_state_def)

lemma access_gate_granted_iff:
  "access_gate s key at stale_after = Granted () \<longleftrightarrow>
     es_authority s = Authoritative \<and> es_stale_marked_at s = None
     \<and> at \<le> es_last_synced_at s + stale_after
     \<and> (\<exists>g. map_of (es_grants s) key = Some g \<and> eg_enabled g
           \<and> (\<forall>b. eg_effective_start g = Some b \<longrightarrow> b \<le> at)
           \<and> (\<forall>e. eg_effective_end g = Some e \<longrightarrow> at < e))"
proof (cases "map_of (es_grants s) key")
  case (Some g)
  then show ?thesis
    by (cases "eg_effective_start g"; cases "eg_effective_end g")
      (auto simp: access_gate_def feature_enabled_def resolve_grant_def entitlement_is_stale_def)
qed (auto simp: access_gate_def feature_enabled_def resolve_grant_def)

lemma access_gate_stale:
  "entitlement_is_stale s at stale_after \<Longrightarrow> access_gate s key at stale_after = StaleUntrusted"
  by (simp add: access_gate_def feature_enabled_def resolve_grant_def)

lemma decide_verdict_admits_iff:
  "fst (decide_verdict p i projected eff) \<in> {QuotaAllowed, QuotaAllowedWithWarning} \<longleftrightarrow>
     qp_authority p = Authoritative \<and> qp_stale_marked_at p = None
     \<and> qi_subscription i = AccessAllowed
     \<and> (qp_required_entitlement p = None \<or> qi_entitlement i = Some (Granted ()))
     \<and> (projected \<le> eff \<or> qp_behavior p = Soft)"
  by (auto simp: decide_verdict_def split: SubscriptionAccessState.splits option.splits
      EntitlementDecision.splits QuotaLimitBehavior.splits)

lemma decide_eq:
  "decide p i = Inr d \<longleftrightarrow>
     (\<exists>projected eff. checked_add (qi_current_usage i) (qi_requested_quantity i) = Some projected
        \<and> effective_limit p = Some eff
        \<and> d = \<lparr>qd_state = fst (decide_verdict p i projected eff),
                qd_reason = snd (decide_verdict p i projected eff),
                qd_current_usage = qi_current_usage i,
                qd_requested_quantity = qi_requested_quantity i,
                qd_projected_usage = projected, qd_limit = qp_limit p,
                qd_effective_limit = eff, qd_warning_threshold = qp_warning_threshold p\<rparr>)"
  by (auto simp: decide_def split: option.splits prod.splits)

definition burst :: "QuotaPolicy \<Rightarrow> nat" where
  "burst p = (case qp_burst_allowance p of None \<Rightarrow> 0 | Some b \<Rightarrow> unat b)"

lemma effective_limit_unat: "effective_limit p = Some eff \<Longrightarrow> unat eff = unat (qp_limit p) + burst p"
  by (cases "qp_burst_allowance p") (auto simp: effective_limit_def burst_def dest: checked_add_unat)

lemma effective_limit_None_iff: "effective_limit p = None \<longleftrightarrow> 2 ^ 64 \<le> unat (qp_limit p) + burst p"
  by (cases "qp_burst_allowance p") (auto simp: effective_limit_def burst_def checked_add_None_iff)

text \<open>
  C13: Quota decisions fail closed. A request measured against subscription and entitlement snapshots
  is admitted (with or without a warning) exactly when neither sum overflows, the policy is
  authoritative and not marked stale, the subscription snapshot is authoritative, unmarked, recently
  synchronised and grants access at that time, the required entitlement (if the policy names one)
  is granted by a fresh authoritative snapshot, and the projected usage stays within limit plus
  burst allowance or the limit is soft.
\<close>
theorem quota_admits_exactly:
  "(\<exists>d. decide p \<lparr>qi_current_usage = cur, qi_requested_quantity = req,
        qi_entitlement = map_option (\<lambda>k. access_gate ent k at ent_stale) (qp_required_entitlement p),
        qi_subscription = access_state_with_staleness sub at sub_stale\<rparr> = Inr d
      \<and> qd_state d \<in> {QuotaAllowed, QuotaAllowedWithWarning})
   \<longleftrightarrow> unat cur + unat req < 2 ^ 64
     \<and> unat (qp_limit p) + burst p < 2 ^ 64
     \<and> qp_authority p = Authoritative \<and> qp_stale_marked_at p = None
     \<and> \<not> subscription_is_stale sub at sub_stale \<and> access_state sub at = AccessAllowed
     \<and> (case qp_required_entitlement p of None \<Rightarrow> True
        | Some k \<Rightarrow> \<not> entitlement_is_stale ent at ent_stale
            \<and> access_gate ent k at ent_stale = Granted ())
     \<and> (unat cur + unat req \<le> unat (qp_limit p) + burst p \<or> qp_behavior p = Soft)"
    (is "?lhs \<longleftrightarrow> ?rhs")
proof -
  let ?i = "\<lparr>qi_current_usage = cur, qi_requested_quantity = req,
        qi_entitlement = map_option (\<lambda>k. access_gate ent k at ent_stale) (qp_required_entitlement p),
        qi_subscription = access_state_with_staleness sub at sub_stale\<rparr>"
  have sub: "qi_subscription ?i = AccessAllowed \<longleftrightarrow>
      \<not> subscription_is_stale sub at sub_stale \<and> access_state sub at = AccessAllowed"
    by (simp add: access_state_with_staleness_def)
  have ent: "qp_required_entitlement p = None \<or> qi_entitlement ?i = Some (Granted ()) \<longleftrightarrow>
      (case qp_required_entitlement p of None \<Rightarrow> True
        | Some k \<Rightarrow> \<not> entitlement_is_stale ent at ent_stale
            \<and> access_gate ent k at ent_stale = Granted ())"
    using access_gate_stale [of ent at ent_stale] by (auto split: option.splits)
  have le: "projected \<le> eff \<longleftrightarrow> unat cur + unat req \<le> unat (qp_limit p) + burst p"
    if "checked_add cur req = Some projected" "effective_limit p = Some eff" for projected eff
    using checked_add_unat [OF that(1)] effective_limit_unat [OF that(2)]
    by (simp add: word_le_nat_alt)
  have "?lhs \<longleftrightarrow> (\<exists>projected eff. checked_add cur req = Some projected \<and> effective_limit p = Some eff
      \<and> fst (decide_verdict p ?i projected eff) \<in> {QuotaAllowed, QuotaAllowedWithWarning})"
    by (auto simp: decide_eq)
  also have "\<dots> \<longleftrightarrow> checked_add cur req \<noteq> None \<and> effective_limit p \<noteq> None
      \<and> qp_authority p = Authoritative \<and> qp_stale_marked_at p = None
      \<and> qi_subscription ?i = AccessAllowed
      \<and> (qp_required_entitlement p = None \<or> qi_entitlement ?i = Some (Granted ()))
      \<and> (unat cur + unat req \<le> unat (qp_limit p) + burst p \<or> qp_behavior p = Soft)"
    unfolding decide_verdict_admits_iff using le by auto
  also have "\<dots> \<longleftrightarrow> ?rhs"
    unfolding sub ent by (auto simp: checked_add_None_iff effective_limit_None_iff)
  finally show ?thesis .
qed

text \<open>
  The subscription decision never reads the start of the effective period, and a grace period
  without a recorded end never closes: both give access at every time.
\<close>
theorem subscription_start_not_enforced:
  "access_state (s\<lparr>sb_effective_start := x\<rparr>) at = access_state s at"
  "access_state (s\<lparr>sb_status := SubGracePeriod, sb_grace_period_end := None,
      sb_authority := Authoritative, sb_stale_marked_at := None\<rparr>) at = AccessAllowed"
  by (simp_all add: access_state_def)

section \<open>Usage metadata\<close>

lemma validate_entries_ok:
  "validate_metadata_entries m = Inr () \<Longrightarrow> (k, v) \<in> set m \<Longrightarrow>
     validate_metadata_key k = Inr () \<and> validate_metadata_value v = Inr ()"
  by (induction m rule: validate_metadata_entries.induct) (auto split: sum.splits)

lemma validate_metadata_key_ok:
  "validate_metadata_key k = Inr u \<longleftrightarrow>
     k \<noteq> [] \<and> length k \<le> MAX_USAGE_METADATA_KEY_BYTES
     \<and> list_all (\<lambda>c. is_ascii_alphanumeric c \<or> c \<in> {CHR ''_'', CHR ''-'', CHR ''.''}) k
     \<and> (\<forall>w \<in> set FORBIDDEN. \<not> str_contains w (to_ascii_lowercase k))"
  by (auto simp: validate_metadata_key_def list_ex_iff split: if_splits)

text \<open>
  Metadata attached to a usage event cannot carry user content. Whatever map the constructor
  accepts has at most 16 entries; every key is a short machine token which contains none of the
  forbidden words in any letter case; every string value is a bounded machine token; and the
  serialised object fits the size bound, so \<open>to_json\<close> on it succeeds.
\<close>
theorem usage_metadata_safe:
  assumes "UsageMetadata_new enc m = Inr m'"
  shows "m' = m \<and> length m \<le> 16
    \<and> (\<forall>(k, v) \<in> set m.
          k \<noteq> [] \<and> length k \<le> 64 \<and> list_all machine_key_char k
          \<and> (\<forall>w \<in> set FORBIDDEN. \<not> str_contains w (to_ascii_lowercase k))
          \<and> (case v of MetaString s \<Rightarrow> length s \<le> 256 \<and> list_all machine_key_char s | _ \<Rightarrow> True))
    \<and> (\<exists>j. UsageMetadata_to_json enc m' = Inr j \<and> enc m = Some j \<and> length j \<le> 4096)"
proof -
  from assms have m: "m' = m" "length m \<le> 16" and ok: "validate_metadata_entries m = Inr ()"
    and j: "\<exists>j. UsageMetadata_to_json enc m' = Inr j \<and> enc m = Some j \<and> length j \<le> 4096"
    by (auto simp: UsageMetadata_new_def UsageMetadata_to_json_def MAX_USAGE_METADATA_ENTRIES_def
        MAX_USAGE_METADATA_JSON_BYTES_def split: if_splits sum.splits option.splits)
  have key: "k \<noteq> [] \<and> length k \<le> 64 \<and> list_all machine_key_char k
      \<and> (\<forall>w \<in> set FORBIDDEN. \<not> str_contains w (to_ascii_lowercase k))"
    if "(k, v) \<in> set m" for k v
    using validate_entries_ok [OF ok that]
    by (auto simp: validate_metadata_key_ok MAX_USAGE_METADATA_KEY_BYTES_def machine_key_char_def
        list_all_iff)
  have val: "case v of MetaString s \<Rightarrow> length s \<le> 256 \<and> list_all machine_key_char s | _ \<Rightarrow> True"
    if "(k, v) \<in> set m" for k v
    using validate_entries_ok [OF ok that]
    by (auto simp: validate_metadata_value_def MAX_USAGE_METADATA_STRING_BYTES_def
        machine_key_char_def list_all_iff split: UsageMetadataValue.splits if_splits)
  show ?thesis using m j key val by blast
qed

theorem usage_metadata_safe_witness:
  "UsageMetadata_new (\<lambda>_. Some ''{}'') [(''model'', MetaString ''q4_k''), (''retries'', MetaInteger 2)]
     = Inr [(''model'', MetaString ''q4_k''), (''retries'', MetaInteger 2)]
   \<and> \<not> str_contains ''prompt'' (to_ascii_lowercase ''model'')"
proof -
  have ok: "UsageMetadata_new (\<lambda>_. Some ''{}'') [(''model'', MetaString ''q4_k''), (''retries'', MetaInteger 2)]
     = Inr [(''model'', MetaString ''q4_k''), (''retries'', MetaInteger 2)]"
    by code_simp
  have "''prompt'' \<in> set FORBIDDEN" by (simp add: FORBIDDEN_def)
  with ok usage_metadata_safe [OF ok] show ?thesis by fastforce
qed

section \<open>Usage windows\<close>

text \<open>
  What chrono documents of the calendar functions. Dates read from time stamps are ordered like
  the time stamps and change exactly at the multiples of a day; \<open>ch_ymd\<close> gives the midnight of the
  date asked for; days of the month start at 1; checked arithmetic is exact where it succeeds.
\<close>
definition date :: "chrono \<Rightarrow> time \<Rightarrow> int \<times> nat \<times> nat" where
  "date ch t = (ch_year ch t, ch_month ch t, ch_day ch t)"

fun date_le :: "int \<times> nat \<times> nat \<Rightarrow> int \<times> nat \<times> nat \<Rightarrow> bool" where
  "date_le (y, m, d) (y', m', d') \<longleftrightarrow> y < y' \<or> y = y' \<and> (m < m' \<or> m = m' \<and> d \<le> d')"

definition calendar_laws :: "chrono \<Rightarrow> bool" where
  "calendar_laws ch \<longleftrightarrow>
     (\<forall>t u. t \<le> u \<longrightarrow> date_le (date ch t) (date ch u))
     \<and> (\<forall>t u. date ch t = date ch u \<longleftrightarrow> t div one_day = u div one_day)
     \<and> (\<forall>t. 1 \<le> ch_day ch t \<and> 1 \<le> ch_month ch t \<and> ch_month ch t \<le> 12)
     \<and> (\<forall>y m d s. ch_ymd ch y m d = Some s \<longrightarrow> date ch s = (y, m, d) \<and> s mod one_day = 0)
     \<and> (\<forall>t d u. checked_add_signed ch t d = Some u \<longrightarrow> u = t + d)
     \<and> (\<forall>t d u. checked_sub_signed ch t d = Some u \<longrightarrow> u = t - d)
     \<and> (\<forall>n d. ch_seconds ch n = Some d \<longrightarrow> d = n * 10 ^ 9)"

lemma one_day_pos: "0 < one_day"
  by (simp add: one_day_def)

lemma midnight_of_day:
  assumes "calendar_laws ch" and "ch_ymd ch (ch_year ch at) (ch_month ch at) (ch_day ch at) = Some s"
  shows "s \<le> at \<and> at < s + one_day"
proof -
  from assms have "date ch s = date ch at" and mid: "s mod one_day = 0"
    by (auto simp: calendar_laws_def date_def)
  with assms(1) have "s div one_day = at div one_day" by (simp add: calendar_laws_def)
  with mid have "s = (at div one_day) * one_day" by (metis div_mult_mod_eq add.right_neutral)
  moreover have "at = (at div one_day) * one_day + at mod one_day" by (simp add: div_mult_mod_eq)
  ultimately show ?thesis
    using pos_mod_sign [OF one_day_pos, of at] pos_mod_bound [OF one_day_pos, of at] by linarith
qed

lemma month_start_le:
  assumes laws: "calendar_laws ch" and s: "ch_ymd ch (ch_year ch at) (ch_month ch at) 1 = Some s"
  shows "s \<le> at"
proof (rule ccontr)
  assume "\<not> s \<le> at"
  then have "date_le (date ch at) (date ch s)" using laws by (simp add: calendar_laws_def)
  moreover from laws s have "date ch s = (ch_year ch at, ch_month ch at, 1)" and "1 \<le> ch_day ch at"
    by (auto simp: calendar_laws_def)
  ultimately have "ch_day ch at = 1" by (simp add: date_def)
  with s midnight_of_day [OF laws] have "s \<le> at" by auto
  with \<open>\<not> s \<le> at\<close> show False by simp
qed

lemma later_date_is_later:
  assumes "calendar_laws ch" and "ch_ymd ch y m d = Some e" and "\<not> date_le (y, m, d) (date ch at)"
  shows "at < e"
proof (rule ccontr)
  assume "\<not> at < e"
  then have "date_le (date ch e) (date ch at)" using assms(1) by (simp add: calendar_laws_def)
  moreover have "date ch e = (y, m, d)" using assms(1,2) by (simp add: calendar_laws_def)
  ultimately show False using assms(3) by simp
qed

text \<open>
  The calendar and rolling windows a quota is measured over contain the time they are computed
  for: a day window is the 24 hours of that UTC day, a month window starts no later and ends
  strictly later, a rolling window ends at that time and reaches back the requested number of
  seconds.
\<close>
theorem window_contains_time:
  assumes "calendar_laws ch" and "bounds_at ch w at = Some (Inr b)"
  shows "(w = CalendarDay \<longrightarrow> (\<exists>s. b = \<lparr>wb_start = Some s, wb_end = Some (s + one_day)\<rparr>
             \<and> s \<le> at \<and> at < s + one_day))
    \<and> (w = CalendarMonth \<longrightarrow> (\<exists>s e. b = \<lparr>wb_start = Some s, wb_end = Some e\<rparr> \<and> s \<le> at \<and> at < e))
    \<and> (\<forall>n. w = Rolling n \<longrightarrow> b = \<lparr>wb_start = Some (at - uint n * 10 ^ 9), wb_end = Some at\<rparr> \<and> 0 < n)
    \<and> (w = Lifetime \<longrightarrow> b = \<lparr>wb_start = None, wb_end = None\<rparr>)"
proof (cases w)
  case CalendarDay
  with assms obtain s e where se: "ch_ymd ch (ch_year ch at) (ch_month ch at) (ch_day ch at) = Some s"
    "checked_add_signed ch s one_day = Some e" "b = \<lparr>wb_start = Some s, wb_end = Some e\<rparr>"
    by (auto simp: bounds_at_def day_bounds_def split: option.splits)
  with assms(1) have "e = s + one_day" by (simp add: calendar_laws_def)
  with se midnight_of_day [OF assms(1) se(1)] CalendarDay show ?thesis by simp
next
  case CalendarMonth
  define y m where "y = (if ch_month ch at = 12 then ch_year ch at + 1 else ch_year ch at)"
    and "m = (if ch_month ch at = 12 then 1 else ch_month ch at + 1)"
  from assms CalendarMonth obtain s e where
    se: "ch_ymd ch (ch_year ch at) (ch_month ch at) 1 = Some s" "ch_ymd ch y m 1 = Some e"
      "b = \<lparr>wb_start = Some s, wb_end = Some e\<rparr>"
    by (auto simp: bounds_at_def month_bounds_def y_def m_def Let_def split: option.splits if_splits)
  have "\<not> date_le (y, m, 1) (date ch at)" by (simp add: y_def m_def date_def)
  with se have "at < e" using later_date_is_later [OF assms(1)] by blast
  with se month_start_le [OF assms(1) se(1)] CalendarMonth show ?thesis by simp
next
  case (Rolling n)
  with assms(2) obtain d s where ds: "n \<noteq> 0" "ch_seconds ch (uint n) = Some d"
    "checked_sub_signed ch at d = Some s" "b = \<lparr>wb_start = Some s, wb_end = Some at\<rparr>"
    by (auto simp: bounds_at_def split: if_splits option.splits)
  with assms(1) have "s = at - uint n * 10 ^ 9" by (auto simp: calendar_laws_def)
  with ds Rolling show ?thesis by (simp add: word_neq_0_conv)
qed (use assms(2) in \<open>auto simp: bounds_at_def\<close>)

text \<open>A calendar with twelve one-day months a year, which satisfies the laws.\<close>
definition toy_calendar :: chrono where
  "toy_calendar =
     \<lparr>ch_year = (\<lambda>t. t div one_day div 12), ch_month = (\<lambda>t. nat (t div one_day mod 12) + 1),
      ch_day = (\<lambda>t. 1),
      ch_ymd = (\<lambda>y m d. if d = 1 \<and> 1 \<le> m \<and> m \<le> 12 then Some ((12 * y + (int m - 1)) * one_day) else None),
      checked_add_signed = (\<lambda>t d. Some (t + d)), checked_sub_signed = (\<lambda>t d. Some (t - d)),
      ch_seconds = (\<lambda>n. if n \<le> int i64_max div 1000 then Some (n * 10 ^ 9) else None)\<rparr>"

lemma toy_date_inject:
  "nat (a mod 12) = nat (b mod 12) \<Longrightarrow> a div 12 = b div 12 \<Longrightarrow> a = (b :: int)"
  by (metis div_mult_mod_eq nat_eq_iff2 pos_mod_sign zero_less_numeral eq_nat_nat_iff)

lemma toy_date_le:
  assumes "a \<le> (b :: int)" and "a div 12 = b div 12"
  shows "nat (a mod 12) \<le> nat (b mod 12)"
proof -
  have "a mod 12 = a - 12 * (b div 12)" "b mod 12 = b - 12 * (b div 12)"
    using assms(2) by (simp_all add: minus_mult_div_eq_mod [symmetric])
  with assms(1) show ?thesis by simp
qed

lemma toy_date: "date toy_calendar t = (t div one_day div 12, nat (t div one_day mod 12) + 1, 1)"
  by (simp add: date_def toy_calendar_def)

lemma date_le_same_day:
  "y \<le> y' \<Longrightarrow> (y = y' \<Longrightarrow> m \<le> m') \<Longrightarrow> date_le (y, m, d) (y', m', d)"
  by auto

lemma toy_date_mono:
  assumes "t \<le> u" shows "date_le (date toy_calendar t) (date toy_calendar u)"
proof -
  have tu: "t div one_day \<le> u div one_day" using assms one_day_pos by (rule zdiv_mono1)
  then have "t div one_day div 12 \<le> u div one_day div 12" by (rule zdiv_mono1) simp
  then show ?thesis unfolding toy_date
    by (rule date_le_same_day) (simp only: add_le_mono1 toy_date_le [OF tu])
qed

lemma toy_date_eq_iff:
  "date toy_calendar t = date toy_calendar u \<longleftrightarrow> t div one_day = u div one_day"
  using toy_date_inject [of "t div one_day" "u div one_day"] by (auto simp: toy_date)

lemma toy_ymd:
  assumes "ch_ymd toy_calendar y m d = Some s"
  shows "date toy_calendar s = (y, m, d)" and "s mod one_day = 0"
proof -
  from assms have d: "d = 1" "1 \<le> m" "m \<le> 12" and s: "s = (12 * y + (int m - 1)) * one_day"
    unfolding toy_calendar_def by (simp_all split: if_splits)
  have q: "s div one_day = 12 * y + (int m - 1)"
    unfolding s by (rule nonzero_mult_div_cancel_right) (use one_day_pos in simp)
  have "(12 * y + (int m - 1)) div 12 = y" using d by (intro int_div_pos_eq) auto
  moreover have "(12 * y + (int m - 1)) mod 12 = int m - 1" using d by (intro int_mod_pos_eq) auto
  ultimately show "date toy_calendar s = (y, m, d)" using d unfolding toy_date q by simp
  show "s mod one_day = 0" unfolding s by simp
qed

lemma toy_calendar_laws: "calendar_laws toy_calendar"
proof -
  have "1 \<le> ch_day toy_calendar t \<and> 1 \<le> ch_month toy_calendar t \<and> ch_month toy_calendar t \<le> 12" for t
    using pos_mod_bound [of 12 "t div one_day"] by (simp add: toy_calendar_def nat_less_iff Suc_le_eq)
  moreover have "checked_add_signed toy_calendar t d = Some u \<longrightarrow> u = t + d"
    and "checked_sub_signed toy_calendar t d = Some u \<longrightarrow> u = t - d"
    and "ch_seconds toy_calendar n = Some d \<longrightarrow> d = n * 10 ^ 9" for t d u n
    by (simp_all add: toy_calendar_def)
  ultimately show ?thesis
    unfolding calendar_laws_def using toy_date_mono toy_date_eq_iff toy_ymd
    by (intro conjI allI impI) simp_all
qed

theorem window_contains_time_witness:
  "\<exists>b. bounds_at toy_calendar CalendarMonth 5 = Some (Inr b) \<and>
     (\<exists>s e. b = \<lparr>wb_start = Some s, wb_end = Some e\<rparr> \<and> s \<le> 5 \<and> 5 < e)"
proof -
  have b: "bounds_at toy_calendar CalendarMonth 5
      = Some (Inr \<lparr>wb_start = Some 0, wb_end = Some one_day\<rparr>)"
    by (simp add: bounds_at_def month_bounds_def toy_calendar_def one_day_def)
  with window_contains_time [OF toy_calendar_laws b] show ?thesis by blast
qed

text \<open>
  The bound on rolling windows is that of \<open>i64\<close>, but \<open>Duration::seconds\<close> panics beyond
  \<open>i64::MAX / 1000\<close>: for every window between the two the computation panics instead of
  reporting the error.
\<close>
theorem rolling_window_can_panic:
  assumes "\<And>n. n > int i64_max div 1000 \<Longrightarrow> ch_seconds ch n = None"
    and "int i64_max div 1000 < uint n" and "unat n \<le> i64_max"
  shows "bounds_at ch (Rolling n) at = None"
proof -
  from assms(2) have "n \<noteq> 0" by (auto simp: i64_max_def)
  with assms show ?thesis by (simp add: bounds_at_def)
qed

end
