(* ===== verification/Saas_Codec.thy ===== *)
theory Saas_Codec
  imports Saas_Domain
begin

text \<open>
  Columns and rows of the SaaS tables (\<open>storage/saas.rs\<close>): domain errors as database errors,
  the range checks of integer columns, the text form of every enum, the raw rows of
  each table and the functions that read them back, and the encoding of usage windows.

  Integer columns are \<open>i64\<close> values (\<^typ>\<open>int\<close>), text columns strings. A time stamp column stands for the
  time it denotes: the RFC 3339 text that chrono writes and reads back exactly is not modelled.
\<close>

section \<open>Errors of the storage layer\<close>

definition domain_error :: "SaasDomainError \<Rightarrow> MukeiError" where
  "domain_error e = Invariant (''SaaS domain validation failed: '' @ domain_error_display e)"

definition domain_db_error :: "SaasDomainError \<Rightarrow> DbError" where
  "domain_db_error e = Domain (domain_error e)"

definition invalid_db_enum :: "string \<Rightarrow> DbError" where
  "invalid_db_enum field = Domain (DatabaseInitFailed (''invalid SaaS enum value in '' @ field))"

text \<open>\<open>id(value, ctor)\<close>: rebuild a validated identifier from its column.\<close>
definition id_col :: "string \<Rightarrow> (string \<Rightarrow> 'a domain_result) \<Rightarrow> 'a db_result" where
  "id_col value ctor = (case ctor value of Inl e \<Rightarrow> Inl (domain_db_error e) | Inr v \<Rightarrow> Inr v)"

section \<open>Integer columns\<close>

definition to_sql_u64 :: "u64 \<Rightarrow> string \<Rightarrow> int db_result" where
  "to_sql_u64 value field =
     (if unat value \<le> i64_max then Inr (uint value)
      else Inl (Domain (Invariant (field @ '' exceeds SQLite INTEGER range''))))"

definition opt_sql_u64 :: "u64 option \<Rightarrow> string \<Rightarrow> int option db_result" where
  "opt_sql_u64 value field = map_transpose (\<lambda>v. to_sql_u64 v field) value"

definition from_sql_u64 :: "int \<Rightarrow> string \<Rightarrow> u64 db_result" where
  "from_sql_u64 value field =
     (if 0 \<le> value then Inr (word_of_int value)
      else Inl (Domain (DatabaseInitFailed (''negative SaaS numeric value in '' @ field))))"

section \<open>Enum columns\<close>

definition parse_source :: "string \<Rightarrow> SourceOfTruth db_result" where
  "parse_source value =
     (if value = ''local'' then Inr SourceLocal
      else if value = ''remote'' then Inr SourceRemote
      else Inl (invalid_db_enum ''source_of_truth''))"

definition parse_tenant_status :: "string \<Rightarrow> TenantStatus db_result" where
  "parse_tenant_status value =
     (if value = ''active'' then Inr TenantActive
      else if value = ''suspended'' then Inr TenantSuspended
      else if value = ''closed'' then Inr TenantClosed
      else Inl (invalid_db_enum ''tenant.status''))"

definition parse_workspace_status :: "string \<Rightarrow> WorkspaceStatus db_result" where
  "parse_workspace_status value =
     (if value = ''active'' then Inr WorkspaceActive
      else if value = ''suspended'' then Inr WorkspaceSuspended
      else if value = ''disabled'' then Inr WorkspaceDisabled
      else Inl (invalid_db_enum ''workspace.status''))"

definition parse_workspace_management :: "string \<Rightarrow> WorkspaceManagement db_result" where
  "parse_workspace_management value =
     (if value = ''local_only'' then Inr ManagementLocalOnly
      else if value = ''remote_managed'' then Inr ManagementRemoteManaged
      else Inl (invalid_db_enum ''workspace.management''))"

definition parse_actor_kind :: "string \<Rightarrow> ActorKind db_result" where
  "parse_actor_kind value =
     (if value = ''local'' then Inr ActorLocal
      else if value = ''human'' then Inr ActorHuman
      else if value = ''service'' then Inr ActorService
      else Inl (invalid_db_enum ''actor.kind''))"

definition parse_actor_status :: "string \<Rightarrow> ActorStatus db_result" where
  "parse_actor_status value =
     (if value = ''active'' then Inr ActorActive
      else if value = ''suspended'' then Inr ActorSuspended
      else if value = ''disabled'' then Inr ActorDisabled
      else Inl (invalid_db_enum ''actor.status''))"

definition parse_membership_role :: "string \<Rightarrow> MembershipRole db_result" where
  "parse_membership_role value =
     (if value = ''owner'' then Inr Owner
      else if value = ''admin'' then Inr Admin
      else if value = ''member'' then Inr Member
      else if value = ''read_only'' then Inr ReadOnly
      else Inl (invalid_db_enum ''membership.role''))"

definition parse_membership_status :: "string \<Rightarrow> MembershipStatus db_result" where
  "parse_membership_status value =
     (if value = ''active'' then Inr MembershipActive
      else if value = ''suspended'' then Inr MembershipSuspended
      else if value = ''revoked'' then Inr MembershipRevoked
      else Inl (invalid_db_enum ''membership.status''))"

definition parse_subscription_status :: "string \<Rightarrow> SubscriptionStatus db_result" where
  "parse_subscription_status value =
     (if value = ''active'' then Inr SubActive
      else if value = ''trial'' then Inr SubTrial
      else if value = ''grace_period'' then Inr SubGracePeriod
      else if value = ''past_due_restricted'' then Inr SubPastDueRestricted
      else if value = ''cancelled_effective'' then Inr SubCancelledEffective
      else if value = ''expired'' then Inr SubExpired
      else if value = ''unknown_stale'' then Inr SubUnknownStale
      else Inl (invalid_db_enum ''subscription.status''))"

definition parse_authority :: "string \<Rightarrow> SnapshotAuthority db_result" where
  "parse_authority value =
     (if value = ''authoritative'' then Inr Authoritative
      else if value = ''local_provisional'' then Inr LocalProvisional
      else Inl (invalid_db_enum ''snapshot.authority''))"

definition parse_usage_kind :: "string \<Rightarrow> UsageEventKind db_result" where
  "parse_usage_kind value =
     (if value = ''consumption'' then Inr Consumption
      else if value = ''adjustment_credit'' then Inr AdjustmentCredit
      else Inl (invalid_db_enum ''usage.event_kind''))"

definition parse_usage_source :: "string \<Rightarrow> UsageSource db_result" where
  "parse_usage_source value =
     (if value = ''local'' then Inr UsageLocal
      else if value = ''remote'' then Inr UsageRemote
      else if value = ''reconciled'' then Inr UsageReconciled
      else Inl (invalid_db_enum ''usage.source''))"

definition parse_limit_behavior :: "string \<Rightarrow> QuotaLimitBehavior db_result" where
  "parse_limit_behavior value =
     (if value = ''hard'' then Inr Hard
      else if value = ''soft'' then Inr Soft
      else Inl (invalid_db_enum ''quota.limit_behavior''))"

section \<open>Usage windows\<close>

record EncodedWindow =
  ew_kind :: string
  ew_rolling_seconds :: "int option"
  ew_external_start :: "time option"
  ew_external_end :: "time option"

definition encode_window :: "UsageWindow \<Rightarrow> EncodedWindow db_result" where
  "encode_window w =
     (case w of
        Lifetime \<Rightarrow> Inr \<lparr>ew_kind = ''lifetime'', ew_rolling_seconds = None,
                         ew_external_start = None, ew_external_end = None\<rparr>
      | CalendarDay \<Rightarrow> Inr \<lparr>ew_kind = ''calendar_day'', ew_rolling_seconds = None,
                         ew_external_start = None, ew_external_end = None\<rparr>
      | CalendarMonth \<Rightarrow> Inr \<lparr>ew_kind = ''calendar_month'', ew_rolling_seconds = None,
                         ew_external_start = None, ew_external_end = None\<rparr>
      | Rolling secs \<Rightarrow>
          if secs = 0 then Inl (Domain (Invariant ''rolling quota window must be positive''))
          else and_then (to_sql_u64 secs ''quota.rolling_seconds'') (\<lambda>s.
            Inr \<lparr>ew_kind = ''rolling'', ew_rolling_seconds = Some s,
                 ew_external_start = None, ew_external_end = None\<rparr>)
      | ExternalPeriod s e \<Rightarrow>
          if e \<le> s then Inl (Domain (Invariant ''external quota period end must follow start''))
          else Inr \<lparr>ew_kind = ''external_period'', ew_rolling_seconds = None,
                    ew_external_start = Some s, ew_external_end = Some e\<rparr>)"

definition ok_or :: "'a option \<Rightarrow> 'e \<Rightarrow> 'e + 'a" where
  "ok_or x e = (case x of None \<Rightarrow> Inl e | Some v \<Rightarrow> Inr v)"

lemma ok_or_simps [simp]: "ok_or None e = Inl e" "ok_or (Some v) e = Inr v"
  by (simp_all add: ok_or_def)

definition parse_window ::
  "string \<Rightarrow> int option \<Rightarrow> time option \<Rightarrow> time option \<Rightarrow> UsageWindow db_result" where
  "parse_window kind rolling_seconds external_start external_end =
     (if kind = ''lifetime'' then Inr Lifetime
      else if kind = ''calendar_day'' then Inr CalendarDay
      else if kind = ''calendar_month'' then Inr CalendarMonth
      else if kind = ''rolling'' then
        and_then (ok_or rolling_seconds (invalid_db_enum ''quota.rolling_seconds'')) (\<lambda>r.
          and_then (from_sql_u64 r ''quota.rolling_seconds'') (\<lambda>s. Inr (Rolling s)))
      else if kind = ''external_period'' then
        and_then (ok_or external_start (invalid_db_enum ''quota.external_start'')) (\<lambda>s.
          and_then (ok_or external_end (invalid_db_enum ''quota.external_end'')) (\<lambda>e.
            Inr (ExternalPeriod s e)))
      else Inl (invalid_db_enum ''quota.window_kind''))"

section \<open>Rows of the tenancy tables\<close>

record TenantRow =
  tr_tenant_id :: string
  tr_display_name :: string
  tr_status :: string
  tr_source_of_truth :: string
  tr_created_at :: time
  tr_updated_at :: time
  tr_remote_revision :: "int option"
  tr_suspension_reason :: "string option"

record WorkspaceRow =
  wr_workspace_id :: string
  wr_tenant_id :: string
  wr_display_name :: string
  wr_status :: string
  wr_management_mode :: string
  wr_created_at :: time
  wr_updated_at :: time
  wr_remote_revision :: "int option"

record ActorRow =
  ar_actor_id :: string
  ar_display_name :: "string option"
  ar_kind :: string
  ar_status :: string
  ar_source_of_truth :: string
  ar_created_at :: time
  ar_updated_at :: time
  ar_remote_revision :: "int option"

record MembershipRow =
  mr_membership_id :: string
  mr_tenant_id :: string
  mr_workspace_id :: string
  mr_actor_id :: string
  mr_role :: string
  mr_status :: string
  mr_created_at :: time
  mr_updated_at :: time
  mr_remote_revision :: "int option"

definition parse_tenant_row :: "TenantRow \<Rightarrow> Tenant db_result" where
  "parse_tenant_row row =
     and_then (id_col (tr_tenant_id row) TenantId_new) (\<lambda>tid.
     and_then (parse_tenant_status (tr_status row)) (\<lambda>status.
     and_then (parse_source (tr_source_of_truth row)) (\<lambda>source.
     and_then (map_transpose (\<lambda>v. from_sql_u64 v ''tenant.remote_revision'') (tr_remote_revision row)) (\<lambda>revision.
     Inr \<lparr>tn_tenant_id = tid, tn_display_name = tr_display_name row, tn_status = status,
          tn_source_of_truth = source, tn_created_at = tr_created_at row,
          tn_updated_at = tr_updated_at row, tn_remote_revision = revision,
          tn_suspension_reason = tr_suspension_reason row\<rparr>))))"

definition parse_workspace_row :: "WorkspaceRow \<Rightarrow> Workspace db_result" where
  "parse_workspace_row row =
     and_then (id_col (wr_workspace_id row) WorkspaceId_new) (\<lambda>wid.
     and_then (id_col (wr_tenant_id row) TenantId_new) (\<lambda>tid.
     and_then (parse_workspace_status (wr_status row)) (\<lambda>status.
     and_then (parse_workspace_management (wr_management_mode row)) (\<lambda>management.
     and_then (map_transpose (\<lambda>v. from_sql_u64 v ''workspace.remote_revision'') (wr_remote_revision row)) (\<lambda>revision.
     Inr \<lparr>ws_workspace_id = wid, ws_tenant_id = tid, ws_display_name = wr_display_name row,
          ws_status = status, ws_created_at = wr_created_at row, ws_updated_at = wr_updated_at row,
          ws_remote_revision = revision, ws_management = management\<rparr>)))))"

definition parse_actor_row :: "ActorRow \<Rightarrow> Actor db_result" where
  "parse_actor_row row =
     and_then (id_col (ar_actor_id row) ActorId_new) (\<lambda>aid.
     and_then (parse_actor_kind (ar_kind row)) (\<lambda>kind.
     and_then (parse_actor_status (ar_status row)) (\<lambda>status.
     and_then (parse_source (ar_source_of_truth row)) (\<lambda>source.
     and_then (map_transpose (\<lambda>v. from_sql_u64 v ''actor.remote_revision'') (ar_remote_revision row)) (\<lambda>revision.
     Inr \<lparr>ac_actor_id = aid, ac_display_name = ar_display_name row, ac_kind = kind,
          ac_status = status, ac_source_of_truth = source, ac_created_at = ar_created_at row,
          ac_updated_at = ar_updated_at row, ac_remote_revision = revision\<rparr>)))))"

definition parse_membership_row :: "MembershipRow \<Rightarrow> WorkspaceMembership db_result" where
  "parse_membership_row row =
     and_then (id_col (mr_membership_id row) MembershipId_new) (\<lambda>mid.
     and_then (id_col (mr_tenant_id row) TenantId_new) (\<lambda>tid.
     and_then (id_col (mr_workspace_id row) WorkspaceId_new) (\<lambda>wid.
     and_then (id_col (mr_actor_id row) ActorId_new) (\<lambda>aid.
     and_then (parse_membership_role (mr_role row)) (\<lambda>role.
     and_then (parse_membership_status (mr_status row)) (\<lambda>status.
     and_then (map_transpose (\<lambda>v. from_sql_u64 v ''membership.remote_revision'') (mr_remote_revision row)) (\<lambda>revision.
     Inr \<lparr>mb_membership_id = mid, mb_tenant_id = tid, mb_workspace_id = wid, mb_actor_id = aid,
          mb_role = role, mb_status = status, mb_created_at = mr_created_at row,
          mb_updated_at = mr_updated_at row, mb_remote_revision = revision\<rparr>)))))))"

section \<open>Round trips\<close>

lemma source_roundtrip [simp]: "parse_source (source_of_truth_as_str v) = Inr v"
  by (cases v) (simp_all add: parse_source_def)

lemma tenant_status_roundtrip [simp]: "parse_tenant_status (tenant_status_as_str v) = Inr v"
  by (cases v) (simp_all add: parse_tenant_status_def)

lemma workspace_status_roundtrip [simp]: "parse_workspace_status (workspace_status_as_str v) = Inr v"
  by (cases v) (simp_all add: parse_workspace_status_def)

lemma management_roundtrip [simp]: "parse_workspace_management (management_as_str v) = Inr v"
  by (cases v) (simp_all add: parse_workspace_management_def)

lemma actor_kind_roundtrip [simp]: "parse_actor_kind (actor_kind_as_str v) = Inr v"
  by (cases v) (simp_all add: parse_actor_kind_def)

lemma actor_status_roundtrip [simp]: "parse_actor_status (actor_status_as_str v) = Inr v"
  by (cases v) (simp_all add: parse_actor_status_def)

lemma role_roundtrip [simp]: "parse_membership_role (role_as_str v) = Inr v"
  by (cases v) (simp_all add: parse_membership_role_def)

lemma membership_status_roundtrip [simp]: "parse_membership_status (membership_status_as_str v) = Inr v"
  by (cases v) (simp_all add: parse_membership_status_def)

lemma subscription_status_roundtrip [simp]:
  "parse_subscription_status (subscription_status_as_str v) = Inr v"
  by (cases v) (simp_all add: parse_subscription_status_def)

lemma authority_roundtrip [simp]: "parse_authority (authority_as_str v) = Inr v"
  by (cases v) (simp_all add: parse_authority_def)

lemma usage_kind_roundtrip [simp]: "parse_usage_kind (usage_kind_as_str v) = Inr v"
  by (cases v) (simp_all add: parse_usage_kind_def)

lemma usage_source_roundtrip [simp]: "parse_usage_source (usage_source_as_str v) = Inr v"
  by (cases v) (simp_all add: parse_usage_source_def)

lemma behavior_roundtrip [simp]: "parse_limit_behavior (behavior_as_str v) = Inr v"
  by (cases v) (simp_all add: parse_limit_behavior_def)

text \<open>What is written can be read back: the field names only matter for the error message.\<close>
lemma sql_u64_roundtrip: "to_sql_u64 v f = Inr i \<Longrightarrow> from_sql_u64 i g = Inr v"
  by (auto simp: to_sql_u64_def from_sql_u64_def split: if_splits)

lemma to_sql_u64_Inr_iff: "to_sql_u64 v f = Inr i \<longleftrightarrow> unat v \<le> i64_max \<and> i = uint v"
  by (auto simp: to_sql_u64_def)

lemma opt_sql_u64_roundtrip:
  "opt_sql_u64 v f = Inr i \<Longrightarrow> map_transpose (\<lambda>x. from_sql_u64 x g) i = Inr v"
  by (cases v) (auto simp: opt_sql_u64_def and_then_Inr_iff dest: sql_u64_roundtrip)

lemma id_col_nonblank [simp]: "trim v \<noteq> [] \<Longrightarrow> id_col v (opaque_id_new kind) = Inr v"
  by (simp add: id_col_def opaque_id_new_def)

lemma window_roundtrip:
  "encode_window w = Inr e \<Longrightarrow>
     parse_window (ew_kind e) (ew_rolling_seconds e) (ew_external_start e) (ew_external_end e) = Inr w"
  by (cases w) (auto simp: encode_window_def parse_window_def and_then_Inr_iff dest: sql_u64_roundtrip
      split: if_splits)

end
