(* ===== verification/Saas_Records.thy ===== *)
theory Saas_Records
  imports Saas_Codec
begin

text \<open>
  The tenancy repositories (\<open>TenantWorkspaceRepository\<close> and \<open>MembershipRepository\<close> of
  \<open>storage/saas.rs\<close>): local upserts, application of remote records by revision, and the creation of
  the installation-local scope, on the four tenancy tables of migration V013.

  A table is the list of its rows. An operation maps the tables to new tables or to an error; an
  error leaves the tables as they were, because the statement fails or the transaction is dropped
  and rolls back. \<open>sm\<close> gives the text SQLite reports for a violated constraint. Failures of the
  connection pool or of the disk also leave the tables unchanged and are not modelled.
\<close>

section \<open>SQLite statements\<close>

text \<open>\<open>length(trim(s)) > 0\<close>: SQLite's \<open>trim\<close> strips spaces and its \<open>length\<close> stops at a NUL.\<close>
definition sql_nonblank :: "string \<Rightarrow> bool" where
  "sql_nonblank s =
     (case dropWhile (\<lambda>c. c = CHR '' '') s of [] \<Rightarrow> False | c # _ \<Rightarrow> c \<noteq> CHR 0x00)"

definition find_row :: "('r \<Rightarrow> string) \<Rightarrow> 'r list \<Rightarrow> string \<Rightarrow> 'r option" where
  "find_row key rows k = find (\<lambda>r. key r = k) rows"

definition has_row :: "('r \<Rightarrow> string) \<Rightarrow> 'r list \<Rightarrow> string \<Rightarrow> bool" where
  "has_row key rows k \<longleftrightarrow> (\<exists>r \<in> set rows. key r = k)"

text \<open>\<open>INSERT ... ON CONFLICT(key) DO UPDATE\<close>: \<open>f\<close> is the update of the existing row.\<close>
definition upsert :: "('r \<Rightarrow> string) \<Rightarrow> ('r \<Rightarrow> 'r) \<Rightarrow> 'r \<Rightarrow> 'r list \<Rightarrow> 'r list" where
  "upsert key f r rows =
     (if has_row key rows (key r) then map (\<lambda>x. if key x = key r then f x else x) rows else rows @ [r])"

record tenancy_db =
  tenants :: "TenantRow list"
  workspaces :: "WorkspaceRow list"
  actors :: "ActorRow list"
  memberships :: "MembershipRow list"

definition tenant_exists :: "tenancy_db \<Rightarrow> string \<Rightarrow> bool" where
  "tenant_exists db t = has_row tr_tenant_id (tenants db) t"

definition workspace_in_tenant :: "tenancy_db \<Rightarrow> string \<Rightarrow> string \<Rightarrow> bool" where
  "workspace_in_tenant db w t \<longleftrightarrow>
     (\<exists>r \<in> set (workspaces db). wr_workspace_id r = w \<and> wr_tenant_id r = t)"

definition actor_exists :: "tenancy_db \<Rightarrow> string \<Rightarrow> bool" where
  "actor_exists db a = has_row ar_actor_id (actors db) a"

section \<open>Outcomes and revisions\<close>

datatype RecordApplyOutcome = RecordApplied | RecordReapplied | RecordIgnoredOlder

datatype RevisionOrder = RevisionOlder | RevisionSame | RevisionNewer

definition revision_order :: "RemoteRevision option \<Rightarrow> RemoteRevision option \<Rightarrow> RevisionOrder" where
  "revision_order current incoming =
     (case (current, incoming) of
        (Some c, Some i) \<Rightarrow>
          if i < c then RevisionOlder else if i = c then RevisionSame else RevisionNewer
      | (Some _, None) \<Rightarrow> RevisionOlder
      | (None, None) \<Rightarrow> RevisionSame
      | (None, Some _) \<Rightarrow> RevisionNewer)"

section \<open>Validation\<close>

definition validate_display_name :: "string \<Rightarrow> string \<Rightarrow> unit result" where
  "validate_display_name value field =
     (if trim value = [] \<or> length value > 256
      then Inl (Invariant (field @ '' must be non-empty and at most 256 bytes'')) else Inr ())"

definition validate_machine_token :: "string \<Rightarrow> string \<Rightarrow> nat \<Rightarrow> unit result" where
  "validate_machine_token value field max_bytes =
     (if value = [] \<or> length value > max_bytes
      then Inl (Invariant (field @ '' must be 1..='' @ show_nat max_bytes @ '' bytes''))
      else if \<not> list_all machine_key_char value
      then Inl (Invariant (field @ '' must be a machine token, not localized/free-form text''))
      else Inr ())"

definition validate_tenant :: "Tenant \<Rightarrow> unit result" where
  "validate_tenant t =
     and_then (validate_display_name (tn_display_name t) ''tenant.display_name'') (\<lambda>_.
     if tn_updated_at t < tn_created_at t
     then Inl (Invariant ''tenant updated_at must not precede created_at'')
     else case tn_suspension_reason t of
       None \<Rightarrow> Inr ()
     | Some reason \<Rightarrow> validate_machine_token reason ''tenant.suspension_reason'' 128)"

definition validate_workspace :: "Workspace \<Rightarrow> unit result" where
  "validate_workspace w =
     and_then (validate_display_name (ws_display_name w) ''workspace.display_name'') (\<lambda>_.
     if ws_updated_at w < ws_created_at w
     then Inl (Invariant ''workspace updated_at must not precede created_at'') else Inr ())"

definition validate_actor :: "Actor \<Rightarrow> unit result" where
  "validate_actor a =
     (if is_some_and (ac_display_name a) (\<lambda>v. length v > 256)
      then Inl (Invariant ''actor display_name exceeds 256 bytes'')
      else if ac_updated_at a < ac_created_at a
      then Inl (Invariant ''actor updated_at must not precede created_at'') else Inr ())"

definition validate_membership :: "WorkspaceMembership \<Rightarrow> unit result" where
  "validate_membership m =
     (if mb_updated_at m < mb_created_at m
      then Inl (Invariant ''membership updated_at must not precede created_at'') else Inr ())"

section \<open>Loads\<close>

definition load_row :: "('r \<Rightarrow> string) \<Rightarrow> ('r \<Rightarrow> 'a db_result) \<Rightarrow> 'r list \<Rightarrow> string \<Rightarrow> 'a option db_result" where
  "load_row key parse rows k = map_transpose parse (find_row key rows k)"

definition load_tenant :: "tenancy_db \<Rightarrow> string \<Rightarrow> Tenant option db_result" where
  "load_tenant db k = load_row tr_tenant_id parse_tenant_row (tenants db) k"

definition load_workspace :: "tenancy_db \<Rightarrow> string \<Rightarrow> Workspace option db_result" where
  "load_workspace db k = load_row wr_workspace_id parse_workspace_row (workspaces db) k"

definition load_actor :: "tenancy_db \<Rightarrow> string \<Rightarrow> Actor option db_result" where
  "load_actor db k = load_row ar_actor_id parse_actor_row (actors db) k"

definition load_membership :: "tenancy_db \<Rightarrow> string \<Rightarrow> WorkspaceMembership option db_result" where
  "load_membership db k = load_row mr_membership_id parse_membership_row (memberships db) k"

section \<open>Local upserts\<close>

definition upsert_local_tenant :: "(Violation \<Rightarrow> string) \<Rightarrow> tenancy_db \<Rightarrow> Tenant \<Rightarrow> tenancy_db result" where
  "upsert_local_tenant sm db t =
     and_then (validate_tenant t) (\<lambda>_.
     if tn_source_of_truth t \<noteq> SourceLocal
     then Inl (Invariant ''upsert_local_tenant requires a local source'')
     else from_db (
       if \<not> sql_nonblank (tn_tenant_id t) \<or> \<not> sql_nonblank (tn_display_name t)
       then Inl (Sqlite (sm CheckFailed))
       else Inr (db\<lparr>tenants := upsert tr_tenant_id
         (\<lambda>r. if tr_source_of_truth r = ''local''
              then r\<lparr>tr_display_name := tn_display_name t,
                     tr_status := tenant_status_as_str (tn_status t),
                     tr_updated_at := tn_updated_at t,
                     tr_suspension_reason := tn_suspension_reason t\<rparr>
              else r)
         \<lparr>tr_tenant_id = tn_tenant_id t, tr_display_name = tn_display_name t,
          tr_status = tenant_status_as_str (tn_status t),
          tr_source_of_truth = source_of_truth_as_str (tn_source_of_truth t),
          tr_created_at = tn_created_at t, tr_updated_at = tn_updated_at t,
          tr_remote_revision = None, tr_suspension_reason = tn_suspension_reason t\<rparr>
         (tenants db)\<rparr>)))"

definition upsert_local_workspace :: "(Violation \<Rightarrow> string) \<Rightarrow> tenancy_db \<Rightarrow> Workspace \<Rightarrow> tenancy_db result" where
  "upsert_local_workspace sm db w =
     and_then (validate_workspace w) (\<lambda>_.
     if ws_management w \<noteq> ManagementLocalOnly
     then Inl (Invariant ''upsert_local_workspace requires local-only management'')
     else from_db (
       if \<not> sql_nonblank (ws_workspace_id w) \<or> \<not> sql_nonblank (ws_display_name w)
       then Inl (Sqlite (sm CheckFailed))
       else if \<not> has_row wr_workspace_id (workspaces db) (ws_workspace_id w)
               \<and> \<not> tenant_exists db (ws_tenant_id w)
       then Inl (Sqlite (sm ForeignKeyFailed))
       else Inr (db\<lparr>workspaces := upsert wr_workspace_id
         (\<lambda>r. if wr_management_mode r = ''local_only''
              then r\<lparr>wr_display_name := ws_display_name w,
                     wr_status := workspace_status_as_str (ws_status w),
                     wr_updated_at := ws_updated_at w\<rparr>
              else r)
         \<lparr>wr_workspace_id = ws_workspace_id w, wr_tenant_id = ws_tenant_id w,
          wr_display_name = ws_display_name w, wr_status = workspace_status_as_str (ws_status w),
          wr_management_mode = ''local_only'', wr_created_at = ws_created_at w,
          wr_updated_at = ws_updated_at w, wr_remote_revision = None\<rparr>
         (workspaces db)\<rparr>)))"

definition insert_or_update_local_actor ::
  "(Violation \<Rightarrow> string) \<Rightarrow> tenancy_db \<Rightarrow> Actor \<Rightarrow> tenancy_db db_result" where
  "insert_or_update_local_actor sm db a =
     (if \<not> sql_nonblank (ac_actor_id a) then Inl (Sqlite (sm CheckFailed))
      else Inr (db\<lparr>actors := upsert ar_actor_id
         (\<lambda>r. if ar_source_of_truth r = ''local''
              then r\<lparr>ar_display_name := ac_display_name a, ar_kind := actor_kind_as_str (ac_kind a),
                     ar_status := actor_status_as_str (ac_status a),
                     ar_updated_at := ac_updated_at a\<rparr>
              else r)
         \<lparr>ar_actor_id = ac_actor_id a, ar_display_name = ac_display_name a,
          ar_kind = actor_kind_as_str (ac_kind a), ar_status = actor_status_as_str (ac_status a),
          ar_source_of_truth = ''local'', ar_created_at = ac_created_at a,
          ar_updated_at = ac_updated_at a, ar_remote_revision = None\<rparr>
         (actors db)\<rparr>))"

definition upsert_local_actor :: "(Violation \<Rightarrow> string) \<Rightarrow> tenancy_db \<Rightarrow> Actor \<Rightarrow> tenancy_db result" where
  "upsert_local_actor sm db a =
     and_then (validate_actor a) (\<lambda>_.
     if ac_source_of_truth a \<noteq> SourceLocal
     then Inl (Invariant ''upsert_local_actor requires a local source'')
     else from_db (insert_or_update_local_actor sm db a))"

definition membership_unique_clash :: "tenancy_db \<Rightarrow> WorkspaceMembership \<Rightarrow> bool" where
  "membership_unique_clash db m \<longleftrightarrow>
     (\<exists>r \<in> set (memberships db). mr_workspace_id r = mb_workspace_id m \<and> mr_actor_id r = mb_actor_id m)"

definition membership_fk_ok :: "tenancy_db \<Rightarrow> WorkspaceMembership \<Rightarrow> bool" where
  "membership_fk_ok db m \<longleftrightarrow>
     tenant_exists db (mb_tenant_id m)
     \<and> workspace_in_tenant db (mb_workspace_id m) (mb_tenant_id m) \<and> actor_exists db (mb_actor_id m)"

definition upsert_local_membership ::
  "(Violation \<Rightarrow> string) \<Rightarrow> tenancy_db \<Rightarrow> WorkspaceMembership \<Rightarrow> tenancy_db result" where
  "upsert_local_membership sm db m =
     and_then (validate_membership m) (\<lambda>_.
     if mb_remote_revision m \<noteq> None
     then Inl (Invariant ''local membership must not carry a remote revision'')
     else from_db (
       if \<not> sql_nonblank (mb_membership_id m) then Inl (Sqlite (sm CheckFailed))
       else if \<not> has_row mr_membership_id (memberships db) (mb_membership_id m)
               \<and> membership_unique_clash db m
       then Inl (Sqlite (sm UniqueFailed))
       else if \<not> has_row mr_membership_id (memberships db) (mb_membership_id m)
               \<and> \<not> membership_fk_ok db m
       then Inl (Sqlite (sm ForeignKeyFailed))
       else Inr (db\<lparr>memberships := upsert mr_membership_id
         (\<lambda>r. if mr_remote_revision r = None
              then r\<lparr>mr_role := role_as_str (mb_role m),
                     mr_status := membership_status_as_str (mb_status m),
                     mr_updated_at := mb_updated_at m\<rparr>
              else r)
         \<lparr>mr_membership_id = mb_membership_id m, mr_tenant_id = mb_tenant_id m,
          mr_workspace_id = mb_workspace_id m, mr_actor_id = mb_actor_id m,
          mr_role = role_as_str (mb_role m), mr_status = membership_status_as_str (mb_status m),
          mr_created_at = mb_created_at m, mr_updated_at = mb_updated_at m,
          mr_remote_revision = None\<rparr>
         (memberships db)\<rparr>)))"

section \<open>Application of remote records\<close>

text \<open>
  The decision the four \<open>apply_remote\<close> functions share: what an existing record and an incoming one
  lead to. \<open>write\<close> is the upsert with its commit.
\<close>
definition apply_by_revision ::
  "string \<Rightarrow> ('a \<Rightarrow> RemoteRevision option) \<Rightarrow> 'db \<Rightarrow> 'a \<Rightarrow> 'a \<Rightarrow> 'db db_result
     \<Rightarrow> ('db \<times> RecordApplyOutcome) db_result" where
  "apply_by_revision entity revision_of db existing incoming write =
     (case revision_order (revision_of existing) (revision_of incoming) of
        RevisionOlder \<Rightarrow> Inr (db, RecordIgnoredOlder)
      | RevisionSame \<Rightarrow>
          if existing = incoming then Inr (db, RecordReapplied)
          else Inl (Domain (SaasRevisionConflict entity (case revision_of incoming of None \<Rightarrow> 0 | Some r \<Rightarrow> r)))
      | RevisionNewer \<Rightarrow> and_then write (\<lambda>db'. Inr (db', RecordApplied)))"

definition write_remote_tenant :: "(Violation \<Rightarrow> string) \<Rightarrow> tenancy_db \<Rightarrow> Tenant \<Rightarrow> tenancy_db db_result" where
  "write_remote_tenant sm db t =
     and_then (opt_sql_u64 (tn_remote_revision t) ''tenant.remote_revision'') (\<lambda>revision.
     if \<not> sql_nonblank (tn_tenant_id t) \<or> \<not> sql_nonblank (tn_display_name t)
     then Inl (Sqlite (sm CheckFailed))
     else
       (let row = \<lparr>tr_tenant_id = tn_tenant_id t, tr_display_name = tn_display_name t,
              tr_status = tenant_status_as_str (tn_status t), tr_source_of_truth = ''remote'',
              tr_created_at = tn_created_at t, tr_updated_at = tn_updated_at t,
              tr_remote_revision = revision, tr_suspension_reason = tn_suspension_reason t\<rparr>
        in Inr (db\<lparr>tenants := upsert tr_tenant_id (\<lambda>_. row) row (tenants db)\<rparr>)))"

definition apply_remote_tenant ::
  "(Violation \<Rightarrow> string) \<Rightarrow> tenancy_db \<Rightarrow> Tenant \<Rightarrow> (tenancy_db \<times> RecordApplyOutcome) result" where
  "apply_remote_tenant sm db t =
     and_then (validate_tenant t) (\<lambda>_.
     if tn_source_of_truth t \<noteq> SourceRemote \<or> tn_remote_revision t = None
     then Inl (Invariant ''remote tenant application requires remote source and revision'')
     else from_db (and_then (load_tenant db (tn_tenant_id t)) (\<lambda>existing.
       case existing of
         None \<Rightarrow> and_then (write_remote_tenant sm db t) (\<lambda>db'. Inr (db', RecordApplied))
       | Some e \<Rightarrow> apply_by_revision ''tenant'' tn_remote_revision db e t (write_remote_tenant sm db t))))"

definition write_remote_workspace :: "(Violation \<Rightarrow> string) \<Rightarrow> tenancy_db \<Rightarrow> Workspace \<Rightarrow> tenancy_db db_result" where
  "write_remote_workspace sm db w =
     and_then (opt_sql_u64 (ws_remote_revision w) ''workspace.remote_revision'') (\<lambda>revision.
     if \<not> sql_nonblank (ws_workspace_id w) \<or> \<not> sql_nonblank (ws_display_name w)
     then Inl (Sqlite (sm CheckFailed))
     else if \<not> tenant_exists db (ws_tenant_id w) then Inl (Sqlite (sm ForeignKeyFailed))
     else
       (let row = \<lparr>wr_workspace_id = ws_workspace_id w, wr_tenant_id = ws_tenant_id w,
              wr_display_name = ws_display_name w,
              wr_status = workspace_status_as_str (ws_status w),
              wr_management_mode = ''remote_managed'', wr_created_at = ws_created_at w,
              wr_updated_at = ws_updated_at w, wr_remote_revision = revision\<rparr>
        in Inr (db\<lparr>workspaces := upsert wr_workspace_id (\<lambda>_. row) row (workspaces db)\<rparr>)))"

definition apply_remote_workspace ::
  "(Violation \<Rightarrow> string) \<Rightarrow> tenancy_db \<Rightarrow> Workspace \<Rightarrow> (tenancy_db \<times> RecordApplyOutcome) result" where
  "apply_remote_workspace sm db w =
     and_then (validate_workspace w) (\<lambda>_.
     if ws_management w \<noteq> ManagementRemoteManaged \<or> ws_remote_revision w = None
     then Inl (Invariant ''remote workspace application requires remote management and revision'')
     else from_db (and_then (load_workspace db (ws_workspace_id w)) (\<lambda>existing.
       case existing of
         None \<Rightarrow> and_then (write_remote_workspace sm db w) (\<lambda>db'. Inr (db', RecordApplied))
       | Some e \<Rightarrow>
           if ws_tenant_id e \<noteq> ws_tenant_id w
           then Inl (Domain (Invariant ''workspace tenant ownership is immutable''))
           else apply_by_revision ''workspace'' ws_remote_revision db e w (write_remote_workspace sm db w))))"

definition write_remote_actor :: "(Violation \<Rightarrow> string) \<Rightarrow> tenancy_db \<Rightarrow> Actor \<Rightarrow> tenancy_db db_result" where
  "write_remote_actor sm db a =
     and_then (opt_sql_u64 (ac_remote_revision a) ''actor.remote_revision'') (\<lambda>revision.
     if \<not> sql_nonblank (ac_actor_id a) then Inl (Sqlite (sm CheckFailed))
     else
       (let row = \<lparr>ar_actor_id = ac_actor_id a, ar_display_name = ac_display_name a,
              ar_kind = actor_kind_as_str (ac_kind a),
              ar_status = actor_status_as_str (ac_status a), ar_source_of_truth = ''remote'',
              ar_created_at = ac_created_at a, ar_updated_at = ac_updated_at a,
              ar_remote_revision = revision\<rparr>
        in Inr (db\<lparr>actors := upsert ar_actor_id (\<lambda>_. row) row (actors db)\<rparr>)))"

definition apply_remote_actor ::
  "(Violation \<Rightarrow> string) \<Rightarrow> tenancy_db \<Rightarrow> Actor \<Rightarrow> (tenancy_db \<times> RecordApplyOutcome) result" where
  "apply_remote_actor sm db a =
     and_then (validate_actor a) (\<lambda>_.
     if ac_source_of_truth a \<noteq> SourceRemote \<or> ac_remote_revision a = None
     then Inl (Invariant ''remote actor application requires remote source and revision'')
     else from_db (and_then (load_actor db (ac_actor_id a)) (\<lambda>existing.
       case existing of
         None \<Rightarrow> and_then (write_remote_actor sm db a) (\<lambda>db'. Inr (db', RecordApplied))
       | Some e \<Rightarrow> apply_by_revision ''actor'' ac_remote_revision db e a (write_remote_actor sm db a))))"

definition write_remote_membership ::
  "(Violation \<Rightarrow> string) \<Rightarrow> tenancy_db \<Rightarrow> WorkspaceMembership \<Rightarrow> tenancy_db db_result" where
  "write_remote_membership sm db m =
     and_then (opt_sql_u64 (mb_remote_revision m) ''membership.remote_revision'') (\<lambda>revision.
     if \<not> sql_nonblank (mb_membership_id m) then Inl (Sqlite (sm CheckFailed))
     else if \<not> has_row mr_membership_id (memberships db) (mb_membership_id m)
             \<and> membership_unique_clash db m
     then Inl (Sqlite (sm UniqueFailed))
     else if \<not> membership_fk_ok db m then Inl (Sqlite (sm ForeignKeyFailed))
     else
       (let row = \<lparr>mr_membership_id = mb_membership_id m, mr_tenant_id = mb_tenant_id m,
              mr_workspace_id = mb_workspace_id m, mr_actor_id = mb_actor_id m,
              mr_role = role_as_str (mb_role m),
              mr_status = membership_status_as_str (mb_status m),
              mr_created_at = mb_created_at m, mr_updated_at = mb_updated_at m,
              mr_remote_revision = revision\<rparr>
        in Inr (db\<lparr>memberships := upsert mr_membership_id (\<lambda>_. row) row (memberships db)\<rparr>)))"

definition apply_remote_membership ::
  "(Violation \<Rightarrow> string) \<Rightarrow> tenancy_db \<Rightarrow> WorkspaceMembership
     \<Rightarrow> (tenancy_db \<times> RecordApplyOutcome) result" where
  "apply_remote_membership sm db m =
     and_then (validate_membership m) (\<lambda>_.
     if mb_remote_revision m = None
     then Inl (Invariant ''remote membership application requires a revision'')
     else from_db (and_then (load_membership db (mb_membership_id m)) (\<lambda>existing.
       case existing of
         None \<Rightarrow> and_then (write_remote_membership sm db m) (\<lambda>db'. Inr (db', RecordApplied))
       | Some e \<Rightarrow>
           if mb_tenant_id e \<noteq> mb_tenant_id m \<or> mb_workspace_id e \<noteq> mb_workspace_id m
              \<or> mb_actor_id e \<noteq> mb_actor_id m
           then Inl (Domain (Invariant ''membership ownership bindings are immutable''))
           else apply_by_revision ''membership'' mb_remote_revision db e m (write_remote_membership sm db m))))"

section \<open>The installation-local scope\<close>

text \<open>
  \<open>INSERT OR IGNORE\<close> skips a row that violates a \<open>CHECK\<close> or uniqueness constraint; a foreign-key
  violation is still an error.
\<close>
definition insert_local_tenant_if_missing :: "tenancy_db \<Rightarrow> Tenant \<Rightarrow> tenancy_db" where
  "insert_local_tenant_if_missing db t =
     (if tenant_exists db (tn_tenant_id t)
         \<or> \<not> sql_nonblank (tn_tenant_id t) \<or> \<not> sql_nonblank (tn_display_name t)
      then db
      else db\<lparr>tenants := tenants db @ [
        \<lparr>tr_tenant_id = tn_tenant_id t, tr_display_name = tn_display_name t,
         tr_status = tenant_status_as_str (tn_status t), tr_source_of_truth = ''local'',
         tr_created_at = tn_created_at t, tr_updated_at = tn_updated_at t,
         tr_remote_revision = None, tr_suspension_reason = None\<rparr>]\<rparr>)"

definition insert_local_workspace_if_missing ::
  "(Violation \<Rightarrow> string) \<Rightarrow> tenancy_db \<Rightarrow> Workspace \<Rightarrow> tenancy_db db_result" where
  "insert_local_workspace_if_missing sm db w =
     (if has_row wr_workspace_id (workspaces db) (ws_workspace_id w)
         \<or> \<not> sql_nonblank (ws_workspace_id w) \<or> \<not> sql_nonblank (ws_display_name w)
      then Inr db
      else if \<not> tenant_exists db (ws_tenant_id w) then Inl (Sqlite (sm ForeignKeyFailed))
      else Inr (db\<lparr>workspaces := workspaces db @ [
        \<lparr>wr_workspace_id = ws_workspace_id w, wr_tenant_id = ws_tenant_id w,
         wr_display_name = ws_display_name w, wr_status = workspace_status_as_str (ws_status w),
         wr_management_mode = ''local_only'', wr_created_at = ws_created_at w,
         wr_updated_at = ws_updated_at w, wr_remote_revision = None\<rparr>]\<rparr>))"

definition insert_local_actor_if_missing :: "tenancy_db \<Rightarrow> Actor \<Rightarrow> tenancy_db" where
  "insert_local_actor_if_missing db a =
     (if actor_exists db (ac_actor_id a) \<or> \<not> sql_nonblank (ac_actor_id a) then db
      else db\<lparr>actors := actors db @ [
        \<lparr>ar_actor_id = ac_actor_id a, ar_display_name = ac_display_name a,
         ar_kind = actor_kind_as_str (ac_kind a), ar_status = actor_status_as_str (ac_status a),
         ar_source_of_truth = ''local'', ar_created_at = ac_created_at a,
         ar_updated_at = ac_updated_at a, ar_remote_revision = None\<rparr>]\<rparr>)"

definition insert_local_membership_if_missing ::
  "(Violation \<Rightarrow> string) \<Rightarrow> tenancy_db \<Rightarrow> WorkspaceMembership \<Rightarrow> tenancy_db db_result" where
  "insert_local_membership_if_missing sm db m =
     (if has_row mr_membership_id (memberships db) (mb_membership_id m)
         \<or> membership_unique_clash db m \<or> \<not> sql_nonblank (mb_membership_id m)
      then Inr db
      else if \<not> membership_fk_ok db m then Inl (Sqlite (sm ForeignKeyFailed))
      else Inr (db\<lparr>memberships := memberships db @ [
        \<lparr>mr_membership_id = mb_membership_id m, mr_tenant_id = mb_tenant_id m,
         mr_workspace_id = mb_workspace_id m, mr_actor_id = mb_actor_id m,
         mr_role = role_as_str (mb_role m), mr_status = membership_status_as_str (mb_status m),
         mr_created_at = mb_created_at m, mr_updated_at = mb_updated_at m,
         mr_remote_revision = None\<rparr>]\<rparr>))"

definition ensure_local_scope ::
  "(Violation \<Rightarrow> string) \<Rightarrow> (string \<Rightarrow> string) \<Rightarrow> time \<Rightarrow> tenancy_db \<Rightarrow> string
     \<Rightarrow> (tenancy_db \<times> LocalScope) result" where
  "ensure_local_scope sm sha256 now db installation_id =
     (case for_installation sha256 installation_id of
        Inl e \<Rightarrow> Inl (domain_error e)
      | Inr scope \<Rightarrow> from_db (
          and_then (insert_local_workspace_if_missing sm
                      (insert_local_tenant_if_missing db (scope_tenant scope now))
                      (scope_workspace scope now)) (\<lambda>db2.
          and_then (insert_local_membership_if_missing sm
                      (insert_local_actor_if_missing db2 (scope_actor scope now))
                      (scope_membership scope now)) (\<lambda>db4.
          Inr (db4, scope)))))"

section \<open>Rows found after a write\<close>

lemma has_row_iff: "has_row key rows k \<longleftrightarrow> find_row key rows k \<noteq> None"
  by (auto simp: has_row_def find_row_def find_None_iff)

lemma find_row_in_set: "find_row key rows k = Some r \<Longrightarrow> r \<in> set rows \<and> key r = k"
  by (auto simp: find_row_def find_Some_iff)

lemma find_row_append:
  "find_row key (rows @ [r]) k =
     (case find_row key rows k of Some x \<Rightarrow> Some x | None \<Rightarrow> if key r = k then Some r else None)"
  by (induction rows) (auto simp: find_row_def)

lemma find_row_map:
  assumes "\<And>x. x \<in> set rows \<Longrightarrow> key x = m \<Longrightarrow> key (f x) = m"
  shows "find_row key (map (\<lambda>x. if key x = m then f x else x) rows) k =
     (if k = m then map_option f (find_row key rows k) else find_row key rows k)"
  using assms by (induction rows) (auto simp: find_row_def)

lemma find_row_upsert:
  assumes "\<And>x. x \<in> set rows \<Longrightarrow> key x = key r \<Longrightarrow> key (f x) = key r"
  shows "find_row key (upsert key f r rows) k =
     (if k = key r then Some (case find_row key rows k of None \<Rightarrow> r | Some x \<Rightarrow> f x)
      else find_row key rows k)"
  using assms by (auto simp: upsert_def has_row_iff find_row_map find_row_append split: option.splits)

lemma load_row_upsert_same:
  "parse r = Inr a \<Longrightarrow> load_row key parse (upsert key (\<lambda>_. r) r rows) (key r) = Inr (Some a)"
  by (simp add: load_row_def find_row_upsert split: option.splits)

lemma load_row_upsert_other:
  "k \<noteq> key r \<Longrightarrow> load_row key parse (upsert key (\<lambda>_. r) r rows) k = load_row key parse rows k"
  by (simp add: load_row_def find_row_upsert)

lemma from_db_Inr_iff [simp]: "from_db x = Inr y \<longleftrightarrow> x = Inr y"
  by (auto simp: from_db_def split: sum.splits)

section \<open>The contract of a store of remote records\<close>

text \<open>
  A store decides on an incoming record by the revision of the stored one. \<open>guard\<close> is the validation
  of the incoming record, \<open>bound\<close> whether its ownership bindings agree with the stored record,
  \<open>valid\<close> that its identifiers are ones the identifier types admit.
\<close>
locale remote_store =
  fixes load :: "'db \<Rightarrow> string \<Rightarrow> 'a option db_result"
    and key :: "'a \<Rightarrow> string"
    and revision :: "'a \<Rightarrow> RemoteRevision option"
    and valid :: "'a \<Rightarrow> bool"
    and guard :: "'a \<Rightarrow> unit result"
    and bound :: "'a \<Rightarrow> 'a \<Rightarrow> bool"
    and binding_error :: string
    and entity :: string
    and "write" :: "'db \<Rightarrow> 'a \<Rightarrow> 'db db_result"
    and apply_remote :: "'db \<Rightarrow> 'a \<Rightarrow> ('db \<times> RecordApplyOutcome) result"
  assumes apply_eq:
    "apply_remote db a =
       and_then (guard a) (\<lambda>_. from_db (and_then (load db (key a)) (\<lambda>existing.
         case existing of
           None \<Rightarrow> and_then (write db a) (\<lambda>db'. Inr (db', RecordApplied))
         | Some e \<Rightarrow>
             if bound e a then apply_by_revision entity revision db e a (write db a)
             else Inl (Domain (Invariant binding_error)))))"
    and write_load: "write db a = Inr db' \<Longrightarrow> guard a = Inr () \<Longrightarrow> valid a \<Longrightarrow> load db' (key a) = Inr (Some a)"
    and write_frame: "write db a = Inr db' \<Longrightarrow> k \<noteq> key a \<Longrightarrow> load db' k = load db k"
    and bound_refl: "bound a a"
begin

lemma apply_cases:
  assumes "apply_remote db a = Inr (db', out)"
  obtains (Applied) "guard a = Inr ()" "write db a = Inr db'" "out = RecordApplied"
      "load db (key a) = Inr None \<or> (\<exists>e. load db (key a) = Inr (Some e) \<and> bound e a
         \<and> revision_order (revision e) (revision a) = RevisionNewer)"
    | (Reapplied) "guard a = Inr ()" "db' = db" "out = RecordReapplied" "load db (key a) = Inr (Some a)"
    | (Older) e where "guard a = Inr ()" "db' = db" "out = RecordIgnoredOlder"
        "load db (key a) = Inr (Some e)" "revision_order (revision e) (revision a) = RevisionOlder"
proof -
  from assms obtain existing where g: "guard a = Inr ()" and l: "load db (key a) = Inr existing"
    and c: "(case existing of
           None \<Rightarrow> and_then (write db a) (\<lambda>db'. Inr (db', RecordApplied))
         | Some e \<Rightarrow>
             if bound e a then apply_by_revision entity revision db e a (write db a)
             else Inl (Domain (Invariant binding_error))) = Inr (db', out)"
    by (auto simp: apply_eq and_then_Inr_iff)
  show thesis
  proof (cases existing)
    case None
    with g l c show thesis by (intro Applied) (auto simp: and_then_Inr_iff)
  next
    case (Some e)
    with g l c Applied Reapplied Older [of e] show thesis
      by (auto simp: apply_by_revision_def and_then_Inr_iff split: if_splits RevisionOrder.splits)
  qed
qed

text \<open>What was applied is what is loaded.\<close>
lemma applied_is_loaded:
  "apply_remote db a = Inr (db', RecordApplied) \<Longrightarrow> valid a \<Longrightarrow> load db' (key a) = Inr (Some a)"
  by (auto elim: apply_cases intro: write_load)

text \<open>Delivering the same record again changes nothing.\<close>
lemma apply_idempotent:
  assumes "apply_remote db a = Inr (db', RecordApplied)" and "valid a"
  shows "apply_remote db' a = Inr (db', RecordReapplied)"
proof -
  have "revision_order r r = RevisionSame" for r
    by (simp add: revision_order_def split: option.splits)
  moreover have "guard a = Inr ()" using assms(1) by (rule apply_cases) auto
  ultimately show ?thesis
    using applied_is_loaded [OF assms] bound_refl [of a]
    by (simp add: apply_eq apply_by_revision_def from_db_def)
qed

text \<open>A stored record is only ever replaced by the incoming record, and then by a newer revision.\<close>
lemma apply_evolves:
  assumes "apply_remote db a = Inr (db', out)" and "valid a" and "load db k = Inr (Some e)"
  shows "load db' k = Inr (Some e)
    \<or> k = key a \<and> bound e a \<and> revision_order (revision e) (revision a) = RevisionNewer
        \<and> load db' k = Inr (Some a)"
  using assms(1)
proof (cases rule: apply_cases)
  case Applied
  with assms show ?thesis
    using write_load [of db a db'] write_frame [of db a db' k] by (cases "k = key a") auto
qed (use assms in auto)

text \<open>Equal revisions with different contents are reported, never overwritten.\<close>
lemma apply_conflict:
  assumes "guard a = Inr ()" and "load db (key a) = Inr (Some e)" and "bound e a" and "e \<noteq> a"
    and "revision e = revision a" and "revision a = Some r"
  shows "apply_remote db a = Inl (SaasRevisionConflict entity r)"
  using assms by (simp add: apply_eq apply_by_revision_def revision_order_def from_db_def)

end

section \<open>The four stores satisfy the contract\<close>

definition tenant_guard :: "Tenant \<Rightarrow> unit result" where
  "tenant_guard t = and_then (validate_tenant t) (\<lambda>_.
     if tn_source_of_truth t \<noteq> SourceRemote \<or> tn_remote_revision t = None
     then Inl (Invariant ''remote tenant application requires remote source and revision'') else Inr ())"

definition workspace_guard :: "Workspace \<Rightarrow> unit result" where
  "workspace_guard w = and_then (validate_workspace w) (\<lambda>_.
     if ws_management w \<noteq> ManagementRemoteManaged \<or> ws_remote_revision w = None
     then Inl (Invariant ''remote workspace application requires remote management and revision'')
     else Inr ())"

definition actor_guard :: "Actor \<Rightarrow> unit result" where
  "actor_guard a = and_then (validate_actor a) (\<lambda>_.
     if ac_source_of_truth a \<noteq> SourceRemote \<or> ac_remote_revision a = None
     then Inl (Invariant ''remote actor application requires remote source and revision'') else Inr ())"

definition membership_guard :: "WorkspaceMembership \<Rightarrow> unit result" where
  "membership_guard m = and_then (validate_membership m) (\<lambda>_.
     if mb_remote_revision m = None
     then Inl (Invariant ''remote membership application requires a revision'') else Inr ())"

definition membership_bound :: "WorkspaceMembership \<Rightarrow> WorkspaceMembership \<Rightarrow> bool" where
  "membership_bound e m \<longleftrightarrow> mb_tenant_id e = mb_tenant_id m
     \<and> mb_workspace_id e = mb_workspace_id m \<and> mb_actor_id e = mb_actor_id m"

definition workspace_bound :: "Workspace \<Rightarrow> Workspace \<Rightarrow> bool" where
  "workspace_bound e w \<longleftrightarrow> ws_tenant_id e = ws_tenant_id w"

definition membership_valid :: "WorkspaceMembership \<Rightarrow> bool" where
  "membership_valid m \<longleftrightarrow> trim (mb_membership_id m) \<noteq> [] \<and> trim (mb_tenant_id m) \<noteq> []
     \<and> trim (mb_workspace_id m) \<noteq> [] \<and> trim (mb_actor_id m) \<noteq> []"

definition workspace_valid :: "Workspace \<Rightarrow> bool" where
  "workspace_valid w \<longleftrightarrow> trim (ws_workspace_id w) \<noteq> [] \<and> trim (ws_tenant_id w) \<noteq> []"

definition tenant_valid :: "Tenant \<Rightarrow> bool" where
  "tenant_valid t \<longleftrightarrow> trim (tn_tenant_id t) \<noteq> []"

definition actor_valid :: "Actor \<Rightarrow> bool" where
  "actor_valid a \<longleftrightarrow> trim (ac_actor_id a) \<noteq> []"

lemma remote_as_str: "''remote'' = source_of_truth_as_str SourceRemote"
  "''remote_managed'' = management_as_str ManagementRemoteManaged"
  by simp_all

lemma write_remote_tenant_Inr:
  assumes "write_remote_tenant sm db t = Inr db'"
  obtains row where "db' = db\<lparr>tenants := upsert tr_tenant_id (\<lambda>_. row) row (tenants db)\<rparr>"
    and "tr_tenant_id row = tn_tenant_id t"
    and "tenant_guard t = Inr () \<Longrightarrow> tenant_valid t \<Longrightarrow> parse_tenant_row row = Inr t"
  using assms
  by (fastforce simp: write_remote_tenant_def and_then_Inr_iff tenant_valid_def tenant_guard_def
      parse_tenant_row_def id_new_defs Let_def remote_as_str opt_sql_u64_roundtrip
      simp del: source_of_truth_as_str.simps split: if_splits)

lemma write_remote_workspace_Inr:
  assumes "write_remote_workspace sm db w = Inr db'"
  obtains row where "db' = db\<lparr>workspaces := upsert wr_workspace_id (\<lambda>_. row) row (workspaces db)\<rparr>"
    and "wr_workspace_id row = ws_workspace_id w"
    and "workspace_guard w = Inr () \<Longrightarrow> workspace_valid w \<Longrightarrow> parse_workspace_row row = Inr w"
  using assms
  by (fastforce simp: write_remote_workspace_def and_then_Inr_iff workspace_valid_def workspace_guard_def
      parse_workspace_row_def id_new_defs Let_def remote_as_str opt_sql_u64_roundtrip
      simp del: management_as_str.simps split: if_splits)

lemma write_remote_actor_Inr:
  assumes "write_remote_actor sm db a = Inr db'"
  obtains row where "db' = db\<lparr>actors := upsert ar_actor_id (\<lambda>_. row) row (actors db)\<rparr>"
    and "ar_actor_id row = ac_actor_id a"
    and "actor_guard a = Inr () \<Longrightarrow> actor_valid a \<Longrightarrow> parse_actor_row row = Inr a"
  using assms
  by (fastforce simp: write_remote_actor_def and_then_Inr_iff actor_valid_def actor_guard_def
      parse_actor_row_def id_new_defs Let_def remote_as_str opt_sql_u64_roundtrip
      simp del: source_of_truth_as_str.simps split: if_splits)

lemma write_remote_membership_Inr:
  assumes "write_remote_membership sm db m = Inr db'"
  obtains row where "db' = db\<lparr>memberships := upsert mr_membership_id (\<lambda>_. row) row (memberships db)\<rparr>"
    and "mr_membership_id row = mb_membership_id m"
    and "membership_valid m \<Longrightarrow> parse_membership_row row = Inr m"
  using assms
  by (fastforce simp: write_remote_membership_def and_then_Inr_iff membership_valid_def
      parse_membership_row_def id_new_defs Let_def opt_sql_u64_roundtrip split: if_splits)

text \<open>
  The guard of an operation and the rest of its body, as the contract separates them.
\<close>
lemma guard_then:
  "and_then (and_then v (\<lambda>_. if c then Inl e else Inr ())) (\<lambda>_. x) =
     and_then v (\<lambda>_. if c then Inl e else x)"
  by (cases v) auto

lemma if_not_swap: "(if \<not> c then x else y) = (if c then y else x)"
  by simp

interpretation tenant_store: remote_store load_tenant tn_tenant_id tn_remote_revision tenant_valid
  tenant_guard "\<lambda>_ _. True" "[]" "''tenant''" "write_remote_tenant sm" "apply_remote_tenant sm" for sm
proof
  fix db t db' k
  show "apply_remote_tenant sm db t =
       and_then (tenant_guard t) (\<lambda>_. from_db (and_then (load_tenant db (tn_tenant_id t)) (\<lambda>existing.
         case existing of
           None \<Rightarrow> and_then (write_remote_tenant sm db t) (\<lambda>db'. Inr (db', RecordApplied))
         | Some e \<Rightarrow>
             if True then apply_by_revision ''tenant'' tn_remote_revision db e t (write_remote_tenant sm db t)
             else Inl (Domain (Invariant [])))))"
    by (simp only: apply_remote_tenant_def tenant_guard_def guard_then if_True)
  show "write_remote_tenant sm db t = Inr db' \<Longrightarrow> tenant_guard t = Inr () \<Longrightarrow> tenant_valid t
      \<Longrightarrow> load_tenant db' (tn_tenant_id t) = Inr (Some t)"
    by (erule write_remote_tenant_Inr)
       (auto simp: load_tenant_def dest: load_row_upsert_same [where key = tr_tenant_id])
  show "write_remote_tenant sm db t = Inr db' \<Longrightarrow> k \<noteq> tn_tenant_id t
      \<Longrightarrow> load_tenant db' k = load_tenant db k"
    by (erule write_remote_tenant_Inr) (simp add: load_tenant_def load_row_upsert_other)
qed simp

interpretation workspace_store: remote_store load_workspace ws_workspace_id ws_remote_revision
  workspace_valid workspace_guard workspace_bound "''workspace tenant ownership is immutable''"
  "''workspace''" "write_remote_workspace sm" "apply_remote_workspace sm" for sm
proof
  fix db w db' k
  show "apply_remote_workspace sm db w =
       and_then (workspace_guard w) (\<lambda>_. from_db (and_then (load_workspace db (ws_workspace_id w)) (\<lambda>existing.
         case existing of
           None \<Rightarrow> and_then (write_remote_workspace sm db w) (\<lambda>db'. Inr (db', RecordApplied))
         | Some e \<Rightarrow>
             if workspace_bound e w
             then apply_by_revision ''workspace'' ws_remote_revision db e w (write_remote_workspace sm db w)
             else Inl (Domain (Invariant ''workspace tenant ownership is immutable'')))))"
    by (simp only: apply_remote_workspace_def workspace_guard_def guard_then workspace_bound_def if_not_swap)
  show "write_remote_workspace sm db w = Inr db' \<Longrightarrow> workspace_guard w = Inr () \<Longrightarrow> workspace_valid w
      \<Longrightarrow> load_workspace db' (ws_workspace_id w) = Inr (Some w)"
    by (erule write_remote_workspace_Inr)
       (auto simp: load_workspace_def dest: load_row_upsert_same [where key = wr_workspace_id])
  show "write_remote_workspace sm db w = Inr db' \<Longrightarrow> k \<noteq> ws_workspace_id w
      \<Longrightarrow> load_workspace db' k = load_workspace db k"
    by (erule write_remote_workspace_Inr) (simp add: load_workspace_def load_row_upsert_other)
qed (simp add: workspace_bound_def)

interpretation actor_store: remote_store load_actor ac_actor_id ac_remote_revision actor_valid
  actor_guard "\<lambda>_ _. True" "[]" "''actor''" "write_remote_actor sm" "apply_remote_actor sm" for sm
proof
  fix db a db' k
  show "apply_remote_actor sm db a =
       and_then (actor_guard a) (\<lambda>_. from_db (and_then (load_actor db (ac_actor_id a)) (\<lambda>existing.
         case existing of
           None \<Rightarrow> and_then (write_remote_actor sm db a) (\<lambda>db'. Inr (db', RecordApplied))
         | Some e \<Rightarrow>
             if True then apply_by_revision ''actor'' ac_remote_revision db e a (write_remote_actor sm db a)
             else Inl (Domain (Invariant [])))))"
    by (simp only: apply_remote_actor_def actor_guard_def guard_then if_True)
  show "write_remote_actor sm db a = Inr db' \<Longrightarrow> actor_guard a = Inr () \<Longrightarrow> actor_valid a
      \<Longrightarrow> load_actor db' (ac_actor_id a) = Inr (Some a)"
    by (erule write_remote_actor_Inr)
       (auto simp: load_actor_def dest: load_row_upsert_same [where key = ar_actor_id])
  show "write_remote_actor sm db a = Inr db' \<Longrightarrow> k \<noteq> ac_actor_id a
      \<Longrightarrow> load_actor db' k = load_actor db k"
    by (erule write_remote_actor_Inr) (simp add: load_actor_def load_row_upsert_other)
qed simp

interpretation membership_store: remote_store load_membership mb_membership_id mb_remote_revision
  membership_valid membership_guard membership_bound "''membership ownership bindings are immutable''"
  "''membership''" "write_remote_membership sm" "apply_remote_membership sm" for sm
proof
  fix db m db' k
  show "apply_remote_membership sm db m =
       and_then (membership_guard m) (\<lambda>_. from_db (and_then (load_membership db (mb_membership_id m)) (\<lambda>existing.
         case existing of
           None \<Rightarrow> and_then (write_remote_membership sm db m) (\<lambda>db'. Inr (db', RecordApplied))
         | Some e \<Rightarrow>
             if membership_bound e m
             then apply_by_revision ''membership'' mb_remote_revision db e m (write_remote_membership sm db m)
             else Inl (Domain (Invariant ''membership ownership bindings are immutable'')))))"
    by (simp only: apply_remote_membership_def membership_guard_def guard_then membership_bound_def
        de_Morgan_conj [symmetric] if_not_swap)
  show "write_remote_membership sm db m = Inr db' \<Longrightarrow> membership_guard m = Inr () \<Longrightarrow> membership_valid m
      \<Longrightarrow> load_membership db' (mb_membership_id m) = Inr (Some m)"
    by (erule write_remote_membership_Inr)
       (auto simp: load_membership_def dest: load_row_upsert_same [where key = mr_membership_id])
  show "write_remote_membership sm db m = Inr db' \<Longrightarrow> k \<noteq> mb_membership_id m
      \<Longrightarrow> load_membership db' k = load_membership db k"
    by (erule write_remote_membership_Inr) (simp add: load_membership_def load_row_upsert_other)
qed (simp add: membership_bound_def)

end
