(* ===== verification/Saas_Tenancy.thy ===== *)
theory Saas_Tenancy
  imports Saas_Records
begin

text \<open>
  Histories of the tenancy tables: the invariant of the tables (referential integrity, uniqueness,
  which rows carry a revision), how a row may evolve, and that every sequence of repository
  operations keeps the invariant and only lets rows evolve that way.
\<close>

section \<open>Operations\<close>

datatype tenancy_op =
    EnsureLocalScope string time
  | UpsertLocalTenant Tenant
  | ApplyRemoteTenant Tenant
  | UpsertLocalWorkspace Workspace
  | ApplyRemoteWorkspace Workspace
  | UpsertLocalActor Actor
  | ApplyRemoteActor Actor
  | UpsertLocalMembership WorkspaceMembership
  | ApplyRemoteMembership WorkspaceMembership

text \<open>An error leaves the tables as they were.\<close>
definition or_unchanged :: "'db \<Rightarrow> 'db result \<Rightarrow> 'db" where
  "or_unchanged db x = (case x of Inl _ \<Rightarrow> db | Inr db' \<Rightarrow> db')"

definition or_unchanged2 :: "'db \<Rightarrow> ('db \<times> 'o) result \<Rightarrow> 'db" where
  "or_unchanged2 db x = (case x of Inl _ \<Rightarrow> db | Inr (db', _) \<Rightarrow> db')"

primrec tenancy_step ::
  "(Violation \<Rightarrow> string) \<Rightarrow> (string \<Rightarrow> string) \<Rightarrow> tenancy_db \<Rightarrow> tenancy_op \<Rightarrow> tenancy_db" where
  "tenancy_step sm sha db (EnsureLocalScope i now) = or_unchanged2 db (ensure_local_scope sm sha now db i)"
| "tenancy_step sm sha db (UpsertLocalTenant t) = or_unchanged db (upsert_local_tenant sm db t)"
| "tenancy_step sm sha db (ApplyRemoteTenant t) = or_unchanged2 db (apply_remote_tenant sm db t)"
| "tenancy_step sm sha db (UpsertLocalWorkspace w) = or_unchanged db (upsert_local_workspace sm db w)"
| "tenancy_step sm sha db (ApplyRemoteWorkspace w) = or_unchanged2 db (apply_remote_workspace sm db w)"
| "tenancy_step sm sha db (UpsertLocalActor a) = or_unchanged db (upsert_local_actor sm db a)"
| "tenancy_step sm sha db (ApplyRemoteActor a) = or_unchanged2 db (apply_remote_actor sm db a)"
| "tenancy_step sm sha db (UpsertLocalMembership m) = or_unchanged db (upsert_local_membership sm db m)"
| "tenancy_step sm sha db (ApplyRemoteMembership m) = or_unchanged2 db (apply_remote_membership sm db m)"

definition empty_tenancy :: tenancy_db where
  "empty_tenancy = \<lparr>tenants = [], workspaces = [], actors = [], memberships = []\<rparr>"

section \<open>Evolution of rows\<close>

definition rev_newer :: "int option \<Rightarrow> int option \<Rightarrow> bool" where
  "rev_newer old new = (case (old, new) of
      (None, Some _) \<Rightarrow> True | (Some a, Some b) \<Rightarrow> a < b | _ \<Rightarrow> False)"

text \<open>
  A row keeps its key and its owner; its contents change only when it is a local row that stays
  local, or together with a strictly newer remote revision.
\<close>
definition row_evolves ::
  "('r \<Rightarrow> string) \<Rightarrow> ('r \<Rightarrow> 'o) \<Rightarrow> ('r \<Rightarrow> int option) \<Rightarrow> 'r \<Rightarrow> 'r \<Rightarrow> bool" where
  "row_evolves key owner rv r r' \<longleftrightarrow>
     key r' = key r \<and> owner r' = owner r
     \<and> (r' = r \<or> rev_newer (rv r) (rv r') \<or> rv r = None \<and> rv r' = None)"

definition rows_evolve ::
  "('r \<Rightarrow> string) \<Rightarrow> ('r \<Rightarrow> 'o) \<Rightarrow> ('r \<Rightarrow> int option) \<Rightarrow> 'r list \<Rightarrow> 'r list \<Rightarrow> bool" where
  "rows_evolve key owner rv rows rows' \<longleftrightarrow>
     (\<forall>r \<in> set rows. \<exists>r' \<in> set rows'. row_evolves key owner rv r r')"

definition tenancy_evolves :: "tenancy_db \<Rightarrow> tenancy_db \<Rightarrow> bool" where
  "tenancy_evolves db db' \<longleftrightarrow>
     rows_evolve tr_tenant_id (\<lambda>_. ()) tr_remote_revision (tenants db) (tenants db')
     \<and> rows_evolve wr_workspace_id wr_tenant_id wr_remote_revision (workspaces db) (workspaces db')
     \<and> rows_evolve ar_actor_id (\<lambda>_. ()) ar_remote_revision (actors db) (actors db')
     \<and> rows_evolve mr_membership_id (\<lambda>r. (mr_tenant_id r, mr_workspace_id r, mr_actor_id r))
          mr_remote_revision (memberships db) (memberships db')"

lemma rev_newer_trans: "rev_newer a b \<Longrightarrow> rev_newer b c \<Longrightarrow> rev_newer a c"
  by (auto simp: rev_newer_def split: option.splits)

lemma row_evolves_refl [simp]: "row_evolves key owner rv r r"
  by (simp add: row_evolves_def)

lemma row_evolves_trans:
  "row_evolves key owner rv a b \<Longrightarrow> row_evolves key owner rv b c \<Longrightarrow> row_evolves key owner rv a c"
  unfolding row_evolves_def by (auto simp: rev_newer_def split: option.splits)

lemma rows_evolve_refl [simp]: "rows_evolve key owner rv rows rows"
  by (auto simp: rows_evolve_def intro: row_evolves_refl)

lemma rows_evolve_trans:
  "rows_evolve key owner rv a b \<Longrightarrow> rows_evolve key owner rv b c \<Longrightarrow> rows_evolve key owner rv a c"
  unfolding rows_evolve_def by (meson row_evolves_trans)

lemma tenancy_evolves_refl [simp]: "tenancy_evolves db db"
  by (simp add: tenancy_evolves_def)

lemma tenancy_evolves_trans: "tenancy_evolves a b \<Longrightarrow> tenancy_evolves b c \<Longrightarrow> tenancy_evolves a c"
  unfolding tenancy_evolves_def by (meson rows_evolve_trans)

lemma rows_evolve_append [simp]: "rows_evolve key owner rv rows (rows @ [r])"
  by (auto simp: rows_evolve_def intro: row_evolves_refl)

lemma rows_evolve_upsert:
  assumes "\<And>x. x \<in> set rows \<Longrightarrow> key x = key r \<Longrightarrow> row_evolves key owner rv x (f x)"
  shows "rows_evolve key owner rv rows (upsert key f r rows)"
proof (cases "has_row key rows (key r)")
  case True
  have "row_evolves key owner rv x (if key x = key r then f x else x)" if "x \<in> set rows" for x
    using assms that by simp
  then have "\<forall>x \<in> set rows. \<exists>x' \<in> set (map (\<lambda>x. if key x = key r then f x else x) rows).
      row_evolves key owner rv x x'"
    by (metis (mono_tags, lifting) image_eqI list.set_map)
  with True show ?thesis by (simp add: rows_evolve_def upsert_def del: set_map)
qed (simp add: upsert_def)

lemma rows_evolve_key: "rows_evolve key owner rv rows rows' \<Longrightarrow> has_row key rows k \<Longrightarrow> has_row key rows' k"
  unfolding rows_evolve_def row_evolves_def has_row_def by metis

text \<open>How an update affects keys, uniqueness and properties of all rows.\<close>
lemma keys_upsert:
  assumes "\<And>x. x \<in> set rows \<Longrightarrow> key x = key r \<Longrightarrow> key (f x) = key r"
  shows "map key (upsert key f r rows) = (if has_row key rows (key r) then map key rows else map key rows @ [key r])"
  using assms by (auto simp: upsert_def)

lemma distinct_keys_upsert:
  assumes "distinct (map key rows)" and "\<And>x. x \<in> set rows \<Longrightarrow> key x = key r \<Longrightarrow> key (f x) = key r"
  shows "distinct (map key (upsert key f r rows))"
proof -
  have "map key (upsert key f r rows) =
      (if has_row key rows (key r) then map key rows else map key rows @ [key r])"
    by (rule keys_upsert) (rule assms(2))
  with assms(1) show ?thesis by (auto simp: has_row_def)
qed

lemma all_upsert:
  assumes "\<forall>x \<in> set rows. P x" and "\<And>x. x \<in> set rows \<Longrightarrow> key x = key r \<Longrightarrow> P (f x)"
    and "\<not> has_row key rows (key r) \<Longrightarrow> P r"
  shows "\<forall>x \<in> set (upsert key f r rows). P x"
  using assms by (auto simp: upsert_def)

lemma distinct_key_find:
  "distinct (map key rows) \<Longrightarrow> x \<in> set rows \<Longrightarrow> find_row key rows (key x) = Some x"
  by (induction rows) (auto simp: find_row_def)

section \<open>The invariant\<close>

definition rev_in_range :: "int option \<Rightarrow> bool" where
  "rev_in_range r = (case r of None \<Rightarrow> True | Some i \<Rightarrow> 0 \<le> i \<and> i \<le> int i64_max)"

definition tenant_row_ok :: "TenantRow \<Rightarrow> bool" where
  "tenant_row_ok r \<longleftrightarrow> rev_in_range (tr_remote_revision r)
     \<and> (tr_source_of_truth r = ''local'' \<longleftrightarrow> tr_remote_revision r = None)"

definition actor_row_ok :: "ActorRow \<Rightarrow> bool" where
  "actor_row_ok r \<longleftrightarrow> rev_in_range (ar_remote_revision r)
     \<and> (ar_source_of_truth r = ''local'' \<longleftrightarrow> ar_remote_revision r = None)"

definition workspace_row_ok :: "tenancy_db \<Rightarrow> WorkspaceRow \<Rightarrow> bool" where
  "workspace_row_ok db r \<longleftrightarrow> rev_in_range (wr_remote_revision r)
     \<and> (wr_management_mode r = ''local_only'' \<longleftrightarrow> wr_remote_revision r = None)
     \<and> tenant_exists db (wr_tenant_id r)"

definition membership_row_ok :: "tenancy_db \<Rightarrow> MembershipRow \<Rightarrow> bool" where
  "membership_row_ok db r \<longleftrightarrow> rev_in_range (mr_remote_revision r)
     \<and> tenant_exists db (mr_tenant_id r)
     \<and> workspace_in_tenant db (mr_workspace_id r) (mr_tenant_id r)
     \<and> actor_exists db (mr_actor_id r)"

definition tenancy_ok :: "tenancy_db \<Rightarrow> bool" where
  "tenancy_ok db \<longleftrightarrow>
     distinct (map tr_tenant_id (tenants db)) \<and> (\<forall>r \<in> set (tenants db). tenant_row_ok r)
     \<and> distinct (map wr_workspace_id (workspaces db)) \<and> (\<forall>r \<in> set (workspaces db). workspace_row_ok db r)
     \<and> distinct (map ar_actor_id (actors db)) \<and> (\<forall>r \<in> set (actors db). actor_row_ok r)
     \<and> distinct (map mr_membership_id (memberships db))
     \<and> distinct (map (\<lambda>r. (mr_workspace_id r, mr_actor_id r)) (memberships db))
     \<and> (\<forall>r \<in> set (memberships db). membership_row_ok db r)"

definition tenancy_safe_step :: "tenancy_db \<Rightarrow> tenancy_db \<Rightarrow> bool" where
  "tenancy_safe_step db db' \<longleftrightarrow> tenancy_ok db' \<and> tenancy_evolves db db'"

lemma tenant_exists_evolves: "tenancy_evolves db db' \<Longrightarrow> tenant_exists db t \<Longrightarrow> tenant_exists db' t"
  by (auto simp: tenancy_evolves_def tenant_exists_def intro: rows_evolve_key)

lemma actor_exists_evolves: "tenancy_evolves db db' \<Longrightarrow> actor_exists db t \<Longrightarrow> actor_exists db' t"
  by (auto simp: tenancy_evolves_def actor_exists_def intro: rows_evolve_key)

lemma workspace_in_tenant_evolves:
  "tenancy_evolves db db' \<Longrightarrow> workspace_in_tenant db w t \<Longrightarrow> workspace_in_tenant db' w t"
  unfolding tenancy_evolves_def workspace_in_tenant_def rows_evolve_def row_evolves_def
  by metis

lemma workspace_row_ok_evolves:
  "tenancy_evolves db db' \<Longrightarrow> workspace_row_ok db r \<Longrightarrow> workspace_row_ok db' r"
  by (auto simp: workspace_row_ok_def intro: tenant_exists_evolves)

lemma membership_row_ok_evolves:
  "tenancy_evolves db db' \<Longrightarrow> membership_row_ok db r \<Longrightarrow> membership_row_ok db' r"
  by (auto simp: membership_row_ok_def
      intro: tenant_exists_evolves workspace_in_tenant_evolves actor_exists_evolves)

text \<open>Changing one table: what has to be shown of its new rows.\<close>
lemma set_tenants_safe:
  assumes "tenancy_ok db" and "distinct (map tr_tenant_id rows)" and "\<forall>r \<in> set rows. tenant_row_ok r"
    and "rows_evolve tr_tenant_id (\<lambda>_. ()) tr_remote_revision (tenants db) rows"
  shows "tenancy_safe_step db (db\<lparr>tenants := rows\<rparr>)"
proof -
  have "tenancy_evolves db (db\<lparr>tenants := rows\<rparr>)" using assms(4) by (simp add: tenancy_evolves_def)
  with assms show ?thesis
    by (auto simp: tenancy_safe_step_def tenancy_ok_def
        intro: workspace_row_ok_evolves membership_row_ok_evolves)
qed

lemma set_actors_safe:
  assumes "tenancy_ok db" and "distinct (map ar_actor_id rows)" and "\<forall>r \<in> set rows. actor_row_ok r"
    and "rows_evolve ar_actor_id (\<lambda>_. ()) ar_remote_revision (actors db) rows"
  shows "tenancy_safe_step db (db\<lparr>actors := rows\<rparr>)"
proof -
  have "tenancy_evolves db (db\<lparr>actors := rows\<rparr>)" using assms(4) by (simp add: tenancy_evolves_def)
  with assms show ?thesis
    by (auto simp: tenancy_safe_step_def tenancy_ok_def
        intro: workspace_row_ok_evolves membership_row_ok_evolves)
qed

lemma set_workspaces_safe:
  assumes "tenancy_ok db" and "distinct (map wr_workspace_id rows)"
    and "\<forall>r \<in> set rows. workspace_row_ok db r"
    and "rows_evolve wr_workspace_id wr_tenant_id wr_remote_revision (workspaces db) rows"
  shows "tenancy_safe_step db (db\<lparr>workspaces := rows\<rparr>)"
proof -
  have "tenancy_evolves db (db\<lparr>workspaces := rows\<rparr>)" using assms(4) by (simp add: tenancy_evolves_def)
  with assms show ?thesis
    by (auto simp: tenancy_safe_step_def tenancy_ok_def
        intro: workspace_row_ok_evolves membership_row_ok_evolves)
qed

lemma set_memberships_safe:
  assumes "tenancy_ok db" and "distinct (map mr_membership_id rows)"
    and "distinct (map (\<lambda>r. (mr_workspace_id r, mr_actor_id r)) rows)"
    and "\<forall>r \<in> set rows. membership_row_ok db r"
    and "rows_evolve mr_membership_id (\<lambda>r. (mr_tenant_id r, mr_workspace_id r, mr_actor_id r))
          mr_remote_revision (memberships db) rows"
  shows "tenancy_safe_step db (db\<lparr>memberships := rows\<rparr>)"
proof -
  have "tenancy_evolves db (db\<lparr>memberships := rows\<rparr>)" using assms(5) by (simp add: tenancy_evolves_def)
  with assms show ?thesis
    by (auto simp: tenancy_safe_step_def tenancy_ok_def
        intro: workspace_row_ok_evolves membership_row_ok_evolves)
qed

lemma safe_step_refl: "tenancy_ok db \<Longrightarrow> tenancy_safe_step db db"
  by (simp add: tenancy_safe_step_def)

lemma safe_step_ok: "tenancy_safe_step db db' \<Longrightarrow> tenancy_ok db'"
  by (simp add: tenancy_safe_step_def)

lemma safe_step_trans: "tenancy_safe_step a b \<Longrightarrow> tenancy_safe_step b c \<Longrightarrow> tenancy_safe_step a c"
  by (auto simp: tenancy_safe_step_def intro: tenancy_evolves_trans)

section \<open>Every operation is a safe step\<close>

lemma revision_newer_rows:
  assumes "revision_order cur (Some w) = RevisionNewer" and "rev_in_range old"
    and "map_transpose (\<lambda>v. from_sql_u64 v f) old = Inr cur" and "opt_sql_u64 (Some w) g = Inr new"
  shows "rev_newer old new"
proof (cases old)
  case (Some i)
  with assms have i: "0 \<le> i" "i \<le> int i64_max" and cur: "cur = Some (word_of_int i)"
    by (auto simp: rev_in_range_def from_sql_u64_def and_then_Inr_iff split: if_splits)
  from assms(1) cur have "word_of_int i < w"
    by (auto simp: revision_order_def split: if_splits)
  moreover have "uint (word_of_int i :: u64) = i"
    using i by (simp add: uint_word_of_int i64_max_def)
  ultimately have "i < uint w" by (simp add: word_less_def)
  with assms(4) Some show ?thesis
    by (auto simp: opt_sql_u64_def and_then_Inr_iff to_sql_u64_Inr_iff rev_newer_def)
next
  case None
  with assms(4) show ?thesis
    by (auto simp: opt_sql_u64_def and_then_Inr_iff rev_newer_def)
qed

lemma sql_rev_in_range:
  assumes "opt_sql_u64 v f = Inr r" shows "rev_in_range r"
proof (cases v)
  case (Some w)
  with assms have "r = Some (uint w)" and "unat w \<le> i64_max"
    by (auto simp: opt_sql_u64_def and_then_Inr_iff to_sql_u64_Inr_iff)
  moreover from this have "int (unat w) \<le> int i64_max" by (simp only: of_nat_le_iff)
  ultimately show ?thesis by (simp add: rev_in_range_def)
qed (use assms in \<open>auto simp: opt_sql_u64_def rev_in_range_def\<close>)

lemma sql_rev_Some: "opt_sql_u64 (Some w) f = Inr r \<Longrightarrow> r \<noteq> None"
  by (auto simp: opt_sql_u64_def and_then_Inr_iff)

lemma has_row_image: "has_row key rows k \<longleftrightarrow> k \<in> key ` set rows"
  by (auto simp: has_row_def)

lemma upsert_local_tenant_safe:
  assumes "tenancy_ok db" and "upsert_local_tenant sm db t = Inr db'"
  shows "tenancy_safe_step db db'"
proof -
  from assms(2) obtain f row where db': "db' = db\<lparr>tenants := upsert tr_tenant_id f row (tenants db)\<rparr>"
    and f: "f = (\<lambda>r. if tr_source_of_truth r = ''local''
              then r\<lparr>tr_display_name := tn_display_name t,
                     tr_status := tenant_status_as_str (tn_status t),
                     tr_updated_at := tn_updated_at t,
                     tr_suspension_reason := tn_suspension_reason t\<rparr>
              else r)"
    and row: "tr_source_of_truth row = ''local''" "tr_remote_revision row = None"
    by (auto simp: upsert_local_tenant_def and_then_Inr_iff split: if_splits)
  show ?thesis unfolding db'
  proof (rule set_tenants_safe [OF assms(1)])
    show "distinct (map tr_tenant_id (upsert tr_tenant_id f row (tenants db)))"
      using assms(1) by (intro distinct_keys_upsert) (auto simp: tenancy_ok_def f)
    show "\<forall>r\<in>set (upsert tr_tenant_id f row (tenants db)). tenant_row_ok r"
      using assms(1) row by (intro all_upsert) (auto simp: tenancy_ok_def f tenant_row_ok_def rev_in_range_def)
    show "rows_evolve tr_tenant_id (\<lambda>_. ()) tr_remote_revision (tenants db) (upsert tr_tenant_id f row (tenants db))"
      using assms(1)
      by (intro rows_evolve_upsert) (auto simp: tenancy_ok_def f tenant_row_ok_def row_evolves_def)
  qed
qed

lemma upsert_local_workspace_safe:
  assumes "tenancy_ok db" and "upsert_local_workspace sm db w = Inr db'"
  shows "tenancy_safe_step db db'"
proof -
  from assms(2) obtain f row where db': "db' = db\<lparr>workspaces := upsert wr_workspace_id f row (workspaces db)\<rparr>"
    and f: "f = (\<lambda>r. if wr_management_mode r = ''local_only''
              then r\<lparr>wr_display_name := ws_display_name w,
                     wr_status := workspace_status_as_str (ws_status w),
                     wr_updated_at := ws_updated_at w\<rparr>
              else r)"
    and row: "wr_management_mode row = ''local_only''" "wr_remote_revision row = None"
      "has_row wr_workspace_id (workspaces db) (wr_workspace_id row) \<or> tenant_exists db (wr_tenant_id row)"
    by (auto simp: upsert_local_workspace_def and_then_Inr_iff split: if_splits)
  show ?thesis unfolding db'
  proof (rule set_workspaces_safe [OF assms(1)])
    show "distinct (map wr_workspace_id (upsert wr_workspace_id f row (workspaces db)))"
      using assms(1) by (intro distinct_keys_upsert) (auto simp: tenancy_ok_def f)
    show "\<forall>r\<in>set (upsert wr_workspace_id f row (workspaces db)). workspace_row_ok db r"
      using assms(1) row
      by (intro all_upsert) (auto simp: tenancy_ok_def f workspace_row_ok_def rev_in_range_def)
    show "rows_evolve wr_workspace_id wr_tenant_id wr_remote_revision (workspaces db)
        (upsert wr_workspace_id f row (workspaces db))"
      using assms(1)
      by (intro rows_evolve_upsert) (auto simp: tenancy_ok_def f workspace_row_ok_def row_evolves_def)
  qed
qed

lemma upsert_local_actor_safe:
  assumes "tenancy_ok db" and "upsert_local_actor sm db a = Inr db'"
  shows "tenancy_safe_step db db'"
proof -
  from assms(2) obtain f row where db': "db' = db\<lparr>actors := upsert ar_actor_id f row (actors db)\<rparr>"
    and f: "f = (\<lambda>r. if ar_source_of_truth r = ''local''
              then r\<lparr>ar_display_name := ac_display_name a, ar_kind := actor_kind_as_str (ac_kind a),
                     ar_status := actor_status_as_str (ac_status a),
                     ar_updated_at := ac_updated_at a\<rparr>
              else r)"
    and row: "ar_source_of_truth row = ''local''" "ar_remote_revision row = None"
    by (auto simp: upsert_local_actor_def insert_or_update_local_actor_def and_then_Inr_iff
        split: if_splits)
  show ?thesis unfolding db'
  proof (rule set_actors_safe [OF assms(1)])
    show "distinct (map ar_actor_id (upsert ar_actor_id f row (actors db)))"
      using assms(1) by (intro distinct_keys_upsert) (auto simp: tenancy_ok_def f)
    show "\<forall>r\<in>set (upsert ar_actor_id f row (actors db)). actor_row_ok r"
      using assms(1) row by (intro all_upsert) (auto simp: tenancy_ok_def f actor_row_ok_def rev_in_range_def)
    show "rows_evolve ar_actor_id (\<lambda>_. ()) ar_remote_revision (actors db) (upsert ar_actor_id f row (actors db))"
      using assms(1)
      by (intro rows_evolve_upsert) (auto simp: tenancy_ok_def f actor_row_ok_def row_evolves_def)
  qed
qed

text \<open>Uniqueness of (workspace, actor) under an upsert that keeps both columns.\<close>
lemma distinct_pairs_upsert:
  assumes "distinct (map g rows)" and "\<And>x. x \<in> set rows \<Longrightarrow> key x = key r \<Longrightarrow> g (f x) = g x"
    and "\<not> has_row key rows (key r) \<Longrightarrow> \<forall>x \<in> set rows. g x \<noteq> g r"
  shows "distinct (map g (upsert key f r rows))"
proof (cases "has_row key rows (key r)")
  case True
  have "map g (upsert key f r rows) = map g rows" using True assms(2) by (auto simp: upsert_def)
  with assms(1) show ?thesis by simp
next
  case False
  with assms(1,3) show ?thesis by (auto simp: upsert_def)
qed

lemma upsert_local_membership_safe:
  assumes "tenancy_ok db" and "upsert_local_membership sm db m = Inr db'"
  shows "tenancy_safe_step db db'"
proof -
  from assms(2) obtain f row where db': "db' = db\<lparr>memberships := upsert mr_membership_id f row (memberships db)\<rparr>"
    and f: "f = (\<lambda>r. if mr_remote_revision r = None
              then r\<lparr>mr_role := role_as_str (mb_role m),
                     mr_status := membership_status_as_str (mb_status m),
                     mr_updated_at := mb_updated_at m\<rparr>
              else r)"
    and row: "mr_remote_revision row = None"
      "has_row mr_membership_id (memberships db) (mr_membership_id row)
       \<or> (\<forall>x \<in> set (memberships db). (mr_workspace_id x, mr_actor_id x) \<noteq> (mr_workspace_id row, mr_actor_id row))
         \<and> membership_row_ok db row"
    by (auto simp: upsert_local_membership_def membership_unique_clash_def membership_fk_ok_def
        membership_row_ok_def rev_in_range_def and_then_Inr_iff split: if_splits)
  show ?thesis unfolding db'
  proof (rule set_memberships_safe [OF assms(1)])
    show "distinct (map mr_membership_id (upsert mr_membership_id f row (memberships db)))"
      using assms(1) by (intro distinct_keys_upsert) (auto simp: tenancy_ok_def f)
    show "distinct (map (\<lambda>r. (mr_workspace_id r, mr_actor_id r)) (upsert mr_membership_id f row (memberships db)))"
      using assms(1) row(2) by (intro distinct_pairs_upsert) (auto simp: tenancy_ok_def f)
    show "\<forall>r\<in>set (upsert mr_membership_id f row (memberships db)). membership_row_ok db r"
      using assms(1) row
      by (intro all_upsert) (auto simp: tenancy_ok_def f membership_row_ok_def)
    show "rows_evolve mr_membership_id (\<lambda>r. (mr_tenant_id r, mr_workspace_id r, mr_actor_id r))
        mr_remote_revision (memberships db) (upsert mr_membership_id f row (memberships db))"
      by (intro rows_evolve_upsert) (auto simp: f row_evolves_def)
  qed
qed

lemma load_row_found:
  assumes "distinct (map key rows)" and "x \<in> set rows"
    and "load_row key parse rows (key x) = Inr None \<or> (\<exists>e. load_row key parse rows (key x) = Inr (Some e) \<and> P e)"
  shows "\<exists>e. parse x = Inr e \<and> P e"
  using assms by (auto simp: load_row_def distinct_key_find and_then_Inr_iff)

lemma apply_remote_tenant_safe:
  assumes "tenancy_ok db" and "apply_remote_tenant sm db t = Inr (db', out)"
  shows "tenancy_safe_step db db'"
  using assms(2)
proof (cases rule: tenant_store.apply_cases)
  case Applied
  then obtain w where w: "tn_remote_revision t = Some w"
    by (auto simp: tenant_guard_def and_then_Inr_iff split: if_splits)
  with Applied(2) obtain row where db': "db' = db\<lparr>tenants := upsert tr_tenant_id (\<lambda>_. row) row (tenants db)\<rparr>"
    and row: "tr_tenant_id row = tn_tenant_id t" "tr_source_of_truth row = ''remote''"
      "opt_sql_u64 (Some w) ''tenant.remote_revision'' = Inr (tr_remote_revision row)"
    by (fastforce simp: write_remote_tenant_def and_then_Inr_iff Let_def split: if_splits)
  have new: "rev_newer (tr_remote_revision x) (tr_remote_revision row)"
    if x: "x \<in> set (tenants db)" "tr_tenant_id x = tr_tenant_id row" for x
  proof -
    have "\<exists>e. parse_tenant_row x = Inr e \<and> revision_order (tn_remote_revision e) (Some w) = RevisionNewer"
      using assms(1) x Applied(4) w row(1)
      by (intro load_row_found [where key = tr_tenant_id and rows = "tenants db"])
         (auto simp: tenancy_ok_def load_tenant_def)
    then show ?thesis
      using assms(1) x(1) row(3)
      by (auto simp: parse_tenant_row_def and_then_Inr_iff tenancy_ok_def tenant_row_ok_def
          intro: revision_newer_rows)
  qed
  have ok: "tenant_row_ok row"
    using row(2) sql_rev_in_range [OF row(3)] sql_rev_Some [OF row(3)]
    by (auto simp: tenant_row_ok_def)
  show ?thesis unfolding db'
    using assms(1) new ok
    by (intro set_tenants_safe distinct_keys_upsert all_upsert rows_evolve_upsert)
       (auto simp: tenancy_ok_def row_evolves_def)
qed (simp_all add: safe_step_refl assms(1))

lemma apply_remote_actor_safe:
  assumes "tenancy_ok db" and "apply_remote_actor sm db a = Inr (db', out)"
  shows "tenancy_safe_step db db'"
  using assms(2)
proof (cases rule: actor_store.apply_cases)
  case Applied
  then obtain w where w: "ac_remote_revision a = Some w"
    by (auto simp: actor_guard_def and_then_Inr_iff split: if_splits)
  with Applied(2) obtain row where db': "db' = db\<lparr>actors := upsert ar_actor_id (\<lambda>_. row) row (actors db)\<rparr>"
    and row: "ar_actor_id row = ac_actor_id a" "ar_source_of_truth row = ''remote''"
      "opt_sql_u64 (Some w) ''actor.remote_revision'' = Inr (ar_remote_revision row)"
    by (fastforce simp: write_remote_actor_def and_then_Inr_iff Let_def split: if_splits)
  have new: "rev_newer (ar_remote_revision x) (ar_remote_revision row)"
    if x: "x \<in> set (actors db)" "ar_actor_id x = ar_actor_id row" for x
  proof -
    have "\<exists>e. parse_actor_row x = Inr e \<and> revision_order (ac_remote_revision e) (Some w) = RevisionNewer"
      using assms(1) x Applied(4) w row(1)
      by (intro load_row_found [where key = ar_actor_id and rows = "actors db"])
         (auto simp: tenancy_ok_def load_actor_def)
    then show ?thesis
      using assms(1) x(1) row(3)
      by (auto simp: parse_actor_row_def and_then_Inr_iff tenancy_ok_def actor_row_ok_def
          intro: revision_newer_rows)
  qed
  have ok: "actor_row_ok row"
    using row(2) sql_rev_in_range [OF row(3)] sql_rev_Some [OF row(3)]
    by (auto simp: actor_row_ok_def)
  show ?thesis unfolding db'
    using assms(1) new ok
    by (intro set_actors_safe distinct_keys_upsert all_upsert rows_evolve_upsert)
       (auto simp: tenancy_ok_def row_evolves_def)
qed (simp_all add: safe_step_refl assms(1))

lemma id_col_Inr: "id_col v (opaque_id_new k) = Inr u \<Longrightarrow> u = v"
  by (auto simp: id_col_def opaque_id_new_def split: if_splits)

lemma apply_remote_workspace_safe:
  assumes "tenancy_ok db" and "apply_remote_workspace sm db w = Inr (db', out)"
  shows "tenancy_safe_step db db'"
  using assms(2)
proof (cases rule: workspace_store.apply_cases)
  case Applied
  then obtain v where v: "ws_remote_revision w = Some v"
    by (auto simp: workspace_guard_def and_then_Inr_iff split: if_splits)
  with Applied(2) obtain row where db': "db' = db\<lparr>workspaces := upsert wr_workspace_id (\<lambda>_. row) row (workspaces db)\<rparr>"
    and row: "wr_workspace_id row = ws_workspace_id w" "wr_management_mode row = ''remote_managed''"
      "wr_tenant_id row = ws_tenant_id w" "tenant_exists db (wr_tenant_id row)"
      "opt_sql_u64 (Some v) ''workspace.remote_revision'' = Inr (wr_remote_revision row)"
    by (fastforce simp: write_remote_workspace_def and_then_Inr_iff Let_def split: if_splits)
  have new: "rev_newer (wr_remote_revision x) (wr_remote_revision row) \<and> wr_tenant_id x = wr_tenant_id row"
    if x: "x \<in> set (workspaces db)" "wr_workspace_id x = wr_workspace_id row" for x
  proof -
    have "\<exists>e. parse_workspace_row x = Inr e \<and> workspace_bound e w
        \<and> revision_order (ws_remote_revision e) (Some v) = RevisionNewer"
      using assms(1) x Applied(4) v row(1)
      by (intro load_row_found [where key = wr_workspace_id and rows = "workspaces db"])
         (auto simp: tenancy_ok_def load_workspace_def)
    then show ?thesis
      using assms(1) x(1) row(3,5)
      by (auto simp: parse_workspace_row_def and_then_Inr_iff tenancy_ok_def workspace_row_ok_def
          workspace_bound_def id_new_defs dest!: id_col_Inr intro: revision_newer_rows)
  qed
  have ok: "workspace_row_ok db row"
    using row(2,4) sql_rev_in_range [OF row(5)] sql_rev_Some [OF row(5)]
    by (auto simp: workspace_row_ok_def)
  show ?thesis unfolding db'
    using assms(1) new ok
    by (intro set_workspaces_safe distinct_keys_upsert all_upsert rows_evolve_upsert)
       (auto simp: tenancy_ok_def row_evolves_def)
qed (simp_all add: safe_step_refl assms(1))

lemma apply_remote_membership_safe:
  assumes "tenancy_ok db" and "apply_remote_membership sm db m = Inr (db', out)"
  shows "tenancy_safe_step db db'"
  using assms(2)
proof (cases rule: membership_store.apply_cases)
  case Applied
  then obtain v where v: "mb_remote_revision m = Some v"
    by (auto simp: membership_guard_def and_then_Inr_iff split: if_splits)
  with Applied(2) obtain row where
      db': "db' = db\<lparr>memberships := upsert mr_membership_id (\<lambda>_. row) row (memberships db)\<rparr>"
    and row: "mr_membership_id row = mb_membership_id m" "mr_tenant_id row = mb_tenant_id m"
      "mr_workspace_id row = mb_workspace_id m" "mr_actor_id row = mb_actor_id m"
      "opt_sql_u64 (Some v) ''membership.remote_revision'' = Inr (mr_remote_revision row)"
    and fk: "membership_fk_ok db m"
    and clash: "has_row mr_membership_id (memberships db) (mb_membership_id m) \<or> \<not> membership_unique_clash db m"
    by (fastforce simp: write_remote_membership_def and_then_Inr_iff Let_def split: if_splits)
  have new: "rev_newer (mr_remote_revision x) (mr_remote_revision row) \<and> mr_tenant_id x = mr_tenant_id row
      \<and> mr_workspace_id x = mr_workspace_id row \<and> mr_actor_id x = mr_actor_id row"
    if x: "x \<in> set (memberships db)" "mr_membership_id x = mr_membership_id row" for x
  proof -
    have "\<exists>e. parse_membership_row x = Inr e \<and> membership_bound e m
        \<and> revision_order (mb_remote_revision e) (Some v) = RevisionNewer"
      using assms(1) x Applied(4) v row(1)
      by (intro load_row_found [where key = mr_membership_id and rows = "memberships db"])
         (auto simp: tenancy_ok_def load_membership_def)
    then show ?thesis
      using assms(1) x(1) row
      by (auto simp: parse_membership_row_def and_then_Inr_iff tenancy_ok_def membership_row_ok_def
          membership_bound_def id_new_defs dest!: id_col_Inr intro: revision_newer_rows)
  qed
  have ok: "membership_row_ok db row"
    using row fk sql_rev_in_range [OF row(5)] by (auto simp: membership_row_ok_def membership_fk_ok_def)
  have pairs: "distinct (map (\<lambda>r. (mr_workspace_id r, mr_actor_id r))
      (upsert mr_membership_id (\<lambda>_. row) row (memberships db)))"
    using assms(1) new clash row
    by (intro distinct_pairs_upsert) (auto simp: tenancy_ok_def membership_unique_clash_def)
  show ?thesis unfolding db'
    using assms(1) new ok pairs
    by (intro set_memberships_safe distinct_keys_upsert all_upsert rows_evolve_upsert)
       (auto simp: tenancy_ok_def row_evolves_def)
qed (simp_all add: safe_step_refl assms(1))

text \<open>The inserts of the local scope, one table at a time.\<close>
lemma insert_local_tenant_safe:
  "tenancy_ok db \<Longrightarrow> tenancy_safe_step db (insert_local_tenant_if_missing db t)"
  unfolding insert_local_tenant_if_missing_def
  by (cases "tenant_exists db (tn_tenant_id t) \<or> \<not> sql_nonblank (tn_tenant_id t) \<or> \<not> sql_nonblank (tn_display_name t)")
    (auto intro!: safe_step_refl set_tenants_safe
      simp: tenancy_ok_def tenant_exists_def has_row_image tenant_row_ok_def rev_in_range_def)

lemma insert_local_actor_safe:
  "tenancy_ok db \<Longrightarrow> tenancy_safe_step db (insert_local_actor_if_missing db a)"
  unfolding insert_local_actor_if_missing_def
  by (cases "actor_exists db (ac_actor_id a) \<or> \<not> sql_nonblank (ac_actor_id a)")
    (auto intro!: safe_step_refl set_actors_safe
      simp: tenancy_ok_def actor_exists_def has_row_image actor_row_ok_def rev_in_range_def)

lemma insert_local_workspace_safe:
  "tenancy_ok db \<Longrightarrow> insert_local_workspace_if_missing sm db w = Inr db' \<Longrightarrow> tenancy_safe_step db db'"
  by (auto simp: insert_local_workspace_if_missing_def split: if_splits
      intro!: safe_step_refl set_workspaces_safe)
    (auto simp: tenancy_ok_def has_row_image workspace_row_ok_def rev_in_range_def)

lemma insert_local_membership_safe:
  "tenancy_ok db \<Longrightarrow> insert_local_membership_if_missing sm db m = Inr db' \<Longrightarrow> tenancy_safe_step db db'"
  by (auto simp: insert_local_membership_if_missing_def split: if_splits
      intro!: safe_step_refl set_memberships_safe)
    (auto simp: tenancy_ok_def has_row_image membership_row_ok_def rev_in_range_def
      membership_unique_clash_def membership_fk_ok_def)

lemma ensure_local_scope_safe:
  assumes "tenancy_ok db" and "ensure_local_scope sm sha now db i = Inr (db', scope)"
  shows "tenancy_safe_step db db'"
proof -
  define db1 where "db1 = insert_local_tenant_if_missing db (scope_tenant scope now)"
  from assms(2) obtain db2 where 2: "insert_local_workspace_if_missing sm db1 (scope_workspace scope now) = Inr db2"
    and 4: "insert_local_membership_if_missing sm
        (insert_local_actor_if_missing db2 (scope_actor scope now)) (scope_membership scope now) = Inr db'"
    by (auto simp: ensure_local_scope_def db1_def and_then_Inr_iff split: sum.splits)
  have 1: "tenancy_safe_step db db1" unfolding db1_def using assms(1) by (rule insert_local_tenant_safe)
  then have s2: "tenancy_safe_step db1 db2"
    using 2 by (blast intro: insert_local_workspace_safe safe_step_ok)
  then have s3: "tenancy_safe_step db2 (insert_local_actor_if_missing db2 (scope_actor scope now))"
    by (blast intro: insert_local_actor_safe safe_step_ok)
  then have "tenancy_safe_step (insert_local_actor_if_missing db2 (scope_actor scope now)) db'"
    using 4 by (blast intro: insert_local_membership_safe safe_step_ok)
  with 1 s2 s3 show ?thesis by (blast intro: safe_step_trans)
qed

lemma tenancy_step_safe:
  assumes "tenancy_ok db" shows "tenancy_safe_step db (tenancy_step sm sha db op)"
proof -
  have or1: "tenancy_safe_step db (or_unchanged db x)"
    if "\<And>db'. x = Inr db' \<Longrightarrow> tenancy_safe_step db db'" for x
    using that assms by (auto simp: or_unchanged_def intro: safe_step_refl split: sum.splits)
  have or2: "tenancy_safe_step db (or_unchanged2 db x)"
    if "\<And>db' out. x = Inr (db', out) \<Longrightarrow> tenancy_safe_step db db'" for x :: "(tenancy_db \<times> 'o) result"
    using that assms by (auto simp: or_unchanged2_def intro: safe_step_refl split: sum.splits prod.splits)
  show ?thesis
    by (cases op) (auto intro!: or1 or2 intro: ensure_local_scope_safe [OF assms]
        upsert_local_tenant_safe [OF assms] apply_remote_tenant_safe [OF assms]
        upsert_local_workspace_safe [OF assms] apply_remote_workspace_safe [OF assms]
        upsert_local_actor_safe [OF assms] apply_remote_actor_safe [OF assms]
        upsert_local_membership_safe [OF assms] apply_remote_membership_safe [OF assms])
qed

lemma tenancy_run_safe: "tenancy_ok db \<Longrightarrow> tenancy_safe_step db (foldl (tenancy_step sm sha) db ops)"
proof (induction ops arbitrary: db)
  case (Cons op ops)
  have "tenancy_safe_step db (tenancy_step sm sha db op)" using Cons.prems by (rule tenancy_step_safe)
  with Cons.IH show ?case by (auto intro: safe_step_trans safe_step_ok)
qed (simp add: safe_step_refl)

text \<open>
  C12: Whatever sequence of repository operations is run on the tenancy tables (local upserts, remote
  records in any order, duplicated, stale or conflicting, creation of the local scope), the tables
  stay referentially intact with unique keys, no row is ever lost, no workspace changes its tenant
  and no membership its tenant, workspace or actor, and a row that carries a remote revision keeps
  its contents until a strictly newer revision replaces them: a local write never touches it.
\<close>
theorem tenancy_history_safe:
  assumes "tenancy_ok db"
  shows "tenancy_ok (foldl (tenancy_step sm sha) db ops)
    \<and> tenancy_evolves db (foldl (tenancy_step sm sha) db ops)"
  using tenancy_run_safe [OF assms] by (simp add: tenancy_safe_step_def)

definition example_tenant :: "RemoteRevision \<Rightarrow> string \<Rightarrow> Tenant" where
  "example_tenant r n =
     \<lparr>tn_tenant_id = ''t1'', tn_display_name = n, tn_status = TenantActive,
      tn_source_of_truth = SourceRemote, tn_created_at = 0, tn_updated_at = 5,
      tn_remote_revision = Some r, tn_suspension_reason = None\<rparr>"

lemma trim_example: "trim ''Acme'' \<noteq> []"
  by (rule trim_not_Nil [of "CHR ''A''"]) (simp_all add: graphic_def code_def)

lemma trim_example_id: "trim ''t1'' \<noteq> []"
  by (rule trim_not_Nil [of "CHR ''t''"]) (simp_all add: graphic_def code_def)

lemma example_apply:
  "apply_remote_tenant (\<lambda>_. []) empty_tenancy (example_tenant 3 ''Acme'') =
     Inr (empty_tenancy\<lparr>tenants := [\<lparr>tr_tenant_id = ''t1'', tr_display_name = ''Acme'',
        tr_status = ''active'', tr_source_of_truth = ''remote'', tr_created_at = 0,
        tr_updated_at = 5, tr_remote_revision = Some 3, tr_suspension_reason = None\<rparr>]\<rparr>, RecordApplied)"
  by (simp add: apply_remote_tenant_def validate_tenant_def validate_display_name_def trim_example
      example_tenant_def load_tenant_def load_row_def find_row_def empty_tenancy_def
      write_remote_tenant_def opt_sql_u64_def to_sql_u64_def i64_max_def sql_nonblank_def
      upsert_def has_row_def from_db_def Let_def)

theorem tenancy_history_safe_witness:
  "\<exists>row \<in> set (tenants (foldl (tenancy_step (\<lambda>_. []) (\<lambda>x. x)) empty_tenancy
        [ApplyRemoteTenant (example_tenant 3 ''Acme''), ApplyRemoteTenant (example_tenant 2 ''Old''),
         EnsureLocalScope ''device'' 9])).
     tr_tenant_id row = ''t1'' \<and> tr_remote_revision row \<noteq> None"
proof -
  define db where "db = tenancy_step (\<lambda>_. []) (\<lambda>x. x) empty_tenancy (ApplyRemoteTenant (example_tenant 3 ''Acme''))"
  have db: "db = empty_tenancy\<lparr>tenants := [\<lparr>tr_tenant_id = ''t1'', tr_display_name = ''Acme'',
        tr_status = ''active'', tr_source_of_truth = ''remote'', tr_created_at = 0,
        tr_updated_at = 5, tr_remote_revision = Some 3, tr_suspension_reason = None\<rparr>]\<rparr>"
    by (simp add: db_def example_apply or_unchanged2_def)
  have ok: "tenancy_ok db"
    by (simp add: db tenancy_ok_def empty_tenancy_def tenant_row_ok_def rev_in_range_def i64_max_def)
  define ops where "ops = [ApplyRemoteTenant (example_tenant 2 ''Old''), EnsureLocalScope ''device'' 9]"
  have "rows_evolve tr_tenant_id (\<lambda>_. ()) tr_remote_revision (tenants db)
      (tenants (foldl (tenancy_step (\<lambda>_. []) (\<lambda>x. x)) db ops))"
    using tenancy_history_safe [OF ok, of "\<lambda>_. []" "\<lambda>x. x" ops] by (simp add: tenancy_evolves_def)
  then obtain row where row: "row \<in> set (tenants (foldl (tenancy_step (\<lambda>_. []) (\<lambda>x. x)) db ops))"
    and "row_evolves tr_tenant_id (\<lambda>_. ()) tr_remote_revision (hd (tenants db)) row"
    by (auto simp: rows_evolve_def db)
  then have "tr_tenant_id row = ''t1'' \<and> tr_remote_revision row \<noteq> None"
    by (auto simp: db row_evolves_def rev_newer_def split: option.splits)
  with row show ?thesis unfolding ops_def db_def foldl_Cons by blast
qed

text \<open>
  Delivery of remote records is idempotent, for tenants, workspaces, actors and memberships
  alike: a record that was applied is what a load returns, and applying it again is recognised as a
  repetition and changes nothing. For tenants, moreover, a different record under the same revision
  is rejected with a revision conflict.
\<close>
theorem remote_delivery_idempotent:
  "(apply_remote_tenant sm db t = Inr (db', RecordApplied) \<and> tenant_valid t \<longrightarrow>
      load_tenant db' (tn_tenant_id t) = Inr (Some t)
      \<and> apply_remote_tenant sm db' t = Inr (db', RecordReapplied)
      \<and> (\<forall>t' r. tenant_guard t' = Inr () \<and> tn_tenant_id t' = tn_tenant_id t
           \<and> tn_remote_revision t' = Some r \<and> tn_remote_revision t = Some r \<and> t' \<noteq> t
           \<longrightarrow> apply_remote_tenant sm db' t' = Inl (SaasRevisionConflict ''tenant'' r)))
   \<and> (apply_remote_workspace sm db w = Inr (db', RecordApplied) \<and> workspace_valid w \<longrightarrow>
      load_workspace db' (ws_workspace_id w) = Inr (Some w)
      \<and> apply_remote_workspace sm db' w = Inr (db', RecordReapplied))
   \<and> (apply_remote_actor sm db a = Inr (db', RecordApplied) \<and> actor_valid a \<longrightarrow>
      load_actor db' (ac_actor_id a) = Inr (Some a)
      \<and> apply_remote_actor sm db' a = Inr (db', RecordReapplied))
   \<and> (apply_remote_membership sm db m = Inr (db', RecordApplied) \<and> membership_valid m \<longrightarrow>
      load_membership db' (mb_membership_id m) = Inr (Some m)
      \<and> apply_remote_membership sm db' m = Inr (db', RecordReapplied))"
  using tenant_store.applied_is_loaded [of sm db t db'] tenant_store.apply_idempotent [of sm db t db']
    workspace_store.applied_is_loaded [of sm db w db'] workspace_store.apply_idempotent [of sm db w db']
    actor_store.applied_is_loaded [of sm db a db'] actor_store.apply_idempotent [of sm db a db']
    membership_store.applied_is_loaded [of sm db m db'] membership_store.apply_idempotent [of sm db m db']
  by (auto intro!: tenant_store.apply_conflict)

theorem remote_delivery_idempotent_witness:
  "\<exists>db'. apply_remote_tenant (\<lambda>_. []) empty_tenancy (example_tenant 3 ''Acme'') = Inr (db', RecordApplied)
     \<and> apply_remote_tenant (\<lambda>_. []) db' (example_tenant 3 ''Acme'') = Inr (db', RecordReapplied)"
proof -
  have "tenant_valid (example_tenant 3 ''Acme'')"
    by (simp add: tenant_valid_def example_tenant_def trim_example_id)
  with example_apply
    remote_delivery_idempotent [of "\<lambda>_. []" empty_tenancy "example_tenant 3 ''Acme''" _ undefined undefined undefined]
  show ?thesis by blast
qed

end
