(* ===== verification/Saas_Snapshots.thy ===== *)
theory Saas_Snapshots
  imports Saas_Tenancy
begin

text \<open>
  The versioned snapshots (\<open>SubscriptionRepository\<close>, \<open>EntitlementRepository\<close> and
  \<open>QuotaPolicyRepository\<close> of \<open>storage/saas.rs\<close>): rows of the three tables, the order on snapshots, the
  application of a snapshot, the current snapshot of a scope, and marking it stale.

  The rows of \<open>saas_entitlement_grants\<close> are kept inside their snapshot row, in key order, as they are
  read. The \<open>created_at\<close> column of the two snapshot tables is written and never read, and left out.
  The three functions that apply a snapshot share their control flow; \<open>check_current\<close> and
  \<open>check_existing\<close> are its two decisions.
\<close>

section \<open>Rows\<close>

record SubscriptionRow =
  sr_snapshot_id :: string
  sr_tenant_id :: string
  sr_plan_key :: string
  sr_status :: string
  sr_effective_start :: time
  sr_effective_end :: "time option"
  sr_grace_period_end :: "time option"
  sr_source_revision :: "int option"
  sr_last_synced_at :: time
  sr_authority :: string
  sr_stale_marked_at :: "time option"
  sr_is_current :: bool

record GrantRow =
  gr_entitlement_key :: string
  gr_enabled :: int
  gr_numeric_limit :: "int option"
  gr_string_value :: "string option"
  gr_effective_start :: "time option"
  gr_effective_end :: "time option"
  gr_source_revision :: "int option"

record EntitlementRow =
  er_snapshot_id :: string
  er_tenant_id :: string
  er_source_revision :: "int option"
  er_last_synced_at :: time
  er_authority :: string
  er_stale_marked_at :: "time option"
  er_is_current :: bool
  er_grants :: "GrantRow list"

record QuotaRow =
  qr_policy_id :: string
  qr_tenant_id :: string
  qr_workspace_id :: "string option"
  qr_dimension :: string
  qr_limit_value :: int
  qr_window_kind :: string
  qr_rolling_window_seconds :: "int option"
  qr_external_start :: "time option"
  qr_external_end :: "time option"
  qr_limit_behavior :: string
  qr_burst_allowance :: "int option"
  qr_warning_threshold :: "int option"
  qr_required_entitlement :: "string option"
  qr_authority :: string
  qr_source_of_truth :: string
  qr_source_revision :: "int option"
  qr_stale_marked_at :: "time option"
  qr_is_current :: bool
  qr_created_at :: time

definition parse_subscription_raw :: "SubscriptionRow \<Rightarrow> SubscriptionState db_result" where
  "parse_subscription_raw r =
     and_then (id_col (sr_snapshot_id r) SubscriptionSnapshotId_new) (\<lambda>sid.
     and_then (id_col (sr_tenant_id r) TenantId_new) (\<lambda>tid.
     and_then (parse_subscription_status (sr_status r)) (\<lambda>status.
     and_then (map_transpose (\<lambda>v. from_sql_u64 v ''subscription.source_revision'') (sr_source_revision r)) (\<lambda>revision.
     and_then (parse_authority (sr_authority r)) (\<lambda>authority.
     Inr \<lparr>sb_snapshot_id = sid, sb_tenant_id = tid, sb_plan_key = sr_plan_key r, sb_status = status,
          sb_effective_start = sr_effective_start r, sb_effective_end = sr_effective_end r,
          sb_grace_period_end = sr_grace_period_end r, sb_source_revision = revision,
          sb_last_synced_at = sr_last_synced_at r, sb_authority = authority,
          sb_stale_marked_at = sr_stale_marked_at r\<rparr>)))))"

definition parse_grant_row :: "GrantRow \<Rightarrow> (string \<times> EntitlementGrant) db_result" where
  "parse_grant_row r =
     and_then (id_col (gr_entitlement_key r) EntitlementKey_new) (\<lambda>key.
     and_then (map_transpose (\<lambda>v. from_sql_u64 v ''entitlement.numeric_limit'') (gr_numeric_limit r)) (\<lambda>limit.
     and_then (map_transpose (\<lambda>v. from_sql_u64 v ''entitlement.grant_revision'') (gr_source_revision r)) (\<lambda>revision.
     Inr (key, \<lparr>eg_key = key, eg_enabled = (gr_enabled r \<noteq> 0), eg_numeric_limit = limit,
                eg_string_value = gr_string_value r, eg_effective_start = gr_effective_start r,
                eg_effective_end = gr_effective_end r, eg_source_revision = revision\<rparr>))))"

fun map_results :: "('a \<Rightarrow> 'e + 'b) \<Rightarrow> 'a list \<Rightarrow> 'e + 'b list" where
  "map_results f [] = Inr []"
| "map_results f (x # xs) = and_then (f x) (\<lambda>y. and_then (map_results f xs) (\<lambda>ys. Inr (y # ys)))"

definition parse_entitlement_raw :: "EntitlementRow \<Rightarrow> EntitlementSnapshot db_result" where
  "parse_entitlement_raw r =
     and_then (id_col (er_snapshot_id r) EntitlementSnapshotId_new) (\<lambda>sid.
     and_then (map_results parse_grant_row (er_grants r)) (\<lambda>grants.
     and_then (id_col (er_tenant_id r) TenantId_new) (\<lambda>tid.
     and_then (map_transpose (\<lambda>v. from_sql_u64 v ''entitlement.source_revision'') (er_source_revision r)) (\<lambda>revision.
     and_then (parse_authority (er_authority r)) (\<lambda>authority.
     Inr \<lparr>es_snapshot_id = sid, es_tenant_id = tid, es_grants = grants, es_source_revision = revision,
          es_last_synced_at = er_last_synced_at r, es_authority = authority,
          es_stale_marked_at = er_stale_marked_at r\<rparr>)))))"

definition parse_quota_raw :: "QuotaRow \<Rightarrow> QuotaPolicy db_result" where
  "parse_quota_raw r =
     and_then (id_col (qr_policy_id r) QuotaPolicyId_new) (\<lambda>pid.
     and_then (id_col (qr_tenant_id r) TenantId_new) (\<lambda>tid.
     and_then (map_transpose (\<lambda>v. id_col v WorkspaceId_new) (qr_workspace_id r)) (\<lambda>wid.
     and_then (id_col (qr_dimension r) UsageDimension_new) (\<lambda>dimension.
     and_then (from_sql_u64 (qr_limit_value r) ''quota.limit'') (\<lambda>limit.
     and_then (parse_window (qr_window_kind r) (qr_rolling_window_seconds r)
                 (qr_external_start r) (qr_external_end r)) (\<lambda>window.
     and_then (parse_limit_behavior (qr_limit_behavior r)) (\<lambda>behavior.
     and_then (map_transpose (\<lambda>v. from_sql_u64 v ''quota.burst_allowance'') (qr_burst_allowance r)) (\<lambda>allowance.
     and_then (map_transpose (\<lambda>v. from_sql_u64 v ''quota.warning_threshold'') (qr_warning_threshold r)) (\<lambda>warning.
     and_then (map_transpose (\<lambda>v. id_col v EntitlementKey_new) (qr_required_entitlement r)) (\<lambda>entitlement.
     and_then (parse_authority (qr_authority r)) (\<lambda>authority.
     and_then (parse_source (qr_source_of_truth r)) (\<lambda>source.
     and_then (map_transpose (\<lambda>v. from_sql_u64 v ''quota.source_revision'') (qr_source_revision r)) (\<lambda>revision.
     Inr \<lparr>qp_policy_id = pid, qp_tenant_id = tid, qp_workspace_id = wid, qp_dimension = dimension,
          qp_limit = limit, qp_window = window, qp_behavior = behavior, qp_burst_allowance = allowance,
          qp_warning_threshold = warning, qp_required_entitlement = entitlement,
          qp_authority = authority, qp_source_of_truth = source, qp_source_revision = revision,
          qp_stale_marked_at = qr_stale_marked_at r, qp_created_at = qr_created_at r\<rparr>)))))))))))))"

section \<open>The order on snapshots\<close>

datatype SnapshotApplyOutcome = SnapshotApplied | SnapshotReapplied | SnapshotIgnoredOlder

datatype SnapshotOrder =
    SnapshotOlder | SameIdentity | SameRevisionDifferentIdentity u64 | SnapshotNewer

record SnapshotIdentity =
  si_id :: string
  si_revision :: "RemoteRevision option"
  si_authority :: SnapshotAuthority
  si_observed_at :: time

definition snapshot_order :: "SnapshotIdentity \<Rightarrow> SnapshotIdentity \<Rightarrow> SnapshotOrder" where
  "snapshot_order current incoming =
     (if si_id current = si_id incoming then SameIdentity
      else if si_authority current = Authoritative \<and> si_authority incoming = LocalProvisional
      then SnapshotOlder
      else case (si_revision current, si_revision incoming) of
        (Some c, Some i) \<Rightarrow>
          if i < c then SnapshotOlder
          else if i = c then SameRevisionDifferentIdentity i else SnapshotNewer
      | (Some _, None) \<Rightarrow> SnapshotOlder
      | (None, Some _) \<Rightarrow> SnapshotNewer
      | (None, None) \<Rightarrow>
          if si_observed_at incoming < si_observed_at current then SnapshotOlder
          else if si_observed_at incoming = si_observed_at current then SameRevisionDifferentIdentity 0
          else SnapshotNewer)"

definition subscription_snapshot_equivalent :: "SubscriptionState \<Rightarrow> SubscriptionState \<Rightarrow> bool" where
  "subscription_snapshot_equivalent a b \<longleftrightarrow>
     sb_snapshot_id a = sb_snapshot_id b \<and> sb_tenant_id a = sb_tenant_id b
     \<and> sb_plan_key a = sb_plan_key b \<and> sb_status a = sb_status b
     \<and> sb_effective_start a = sb_effective_start b \<and> sb_effective_end a = sb_effective_end b
     \<and> sb_grace_period_end a = sb_grace_period_end b \<and> sb_source_revision a = sb_source_revision b
     \<and> sb_last_synced_at a = sb_last_synced_at b \<and> sb_authority a = sb_authority b"

definition entitlement_snapshot_equivalent :: "EntitlementSnapshot \<Rightarrow> EntitlementSnapshot \<Rightarrow> bool" where
  "entitlement_snapshot_equivalent a b \<longleftrightarrow>
     es_snapshot_id a = es_snapshot_id b \<and> es_tenant_id a = es_tenant_id b
     \<and> es_grants a = es_grants b \<and> es_source_revision a = es_source_revision b
     \<and> es_last_synced_at a = es_last_synced_at b \<and> es_authority a = es_authority b"

definition quota_policy_equivalent :: "QuotaPolicy \<Rightarrow> QuotaPolicy \<Rightarrow> bool" where
  "quota_policy_equivalent a b \<longleftrightarrow>
     qp_policy_id a = qp_policy_id b \<and> qp_tenant_id a = qp_tenant_id b
     \<and> qp_workspace_id a = qp_workspace_id b \<and> qp_dimension a = qp_dimension b
     \<and> qp_limit a = qp_limit b \<and> qp_window a = qp_window b \<and> qp_behavior a = qp_behavior b
     \<and> qp_burst_allowance a = qp_burst_allowance b \<and> qp_warning_threshold a = qp_warning_threshold b
     \<and> qp_required_entitlement a = qp_required_entitlement b \<and> qp_authority a = qp_authority b
     \<and> qp_source_of_truth a = qp_source_of_truth b \<and> qp_source_revision a = qp_source_revision b
     \<and> qp_created_at a = qp_created_at b"

section \<open>Validation\<close>

definition validate_subscription :: "SubscriptionState \<Rightarrow> unit result" where
  "validate_subscription s =
     and_then (validate_machine_token (sb_plan_key s) ''subscription.plan_key'' 128) (\<lambda>_.
     if is_some_and (sb_effective_end s) (\<lambda>e. e \<le> sb_effective_start s)
     then Inl (Invariant ''subscription effective_end must follow effective_start'') else Inr ())"

definition validate_grant :: "string \<Rightarrow> EntitlementGrant \<Rightarrow> unit result" where
  "validate_grant key g =
     (if key \<noteq> eg_key g then Inl (Invariant ''entitlement map key must match grant.key'')
      else if is_some_and (eg_string_value g) (\<lambda>v. length v > 512)
      then Inl (Invariant ''entitlement string value exceeds 512 bytes'')
      else if is_some_and (eg_effective_start g) (\<lambda>s. is_some_and (eg_effective_end g) (\<lambda>e. e \<le> s))
      then Inl (Invariant ''entitlement effective_end must follow effective_start'')
      else if is_some_and (eg_numeric_limit g) (\<lambda>l. unat l > i64_max)
      then Inl (Invariant ''entitlement numeric limit exceeds SQLite range'')
      else Inr ())"

fun validate_grants :: "(string \<times> EntitlementGrant) list \<Rightarrow> unit result" where
  "validate_grants [] = Inr ()"
| "validate_grants ((key, g) # rest) = and_then (validate_grant key g) (\<lambda>_. validate_grants rest)"

definition validate_entitlement_snapshot :: "EntitlementSnapshot \<Rightarrow> unit result" where
  "validate_entitlement_snapshot s = validate_grants (es_grants s)"

text \<open>\<^const>\<open>None\<close> is a panic of the window computation.\<close>
definition validate_quota_policy :: "chrono \<Rightarrow> time \<Rightarrow> QuotaPolicy \<Rightarrow> unit result option" where
  "validate_quota_policy ch now p =
     (if unat (qp_limit p) > i64_max then Some (Inl (Invariant ''quota limit exceeds SQLite range''))
      else if is_some_and (qp_burst_allowance p) (\<lambda>v. unat v > i64_max)
      then Some (Inl (Invariant ''quota burst exceeds SQLite range''))
      else if is_some_and (qp_warning_threshold p) (\<lambda>v. unat v > i64_max)
      then Some (Inl (Invariant ''quota warning threshold exceeds SQLite range''))
      else map_option (\<lambda>b. case b of Inl e \<Rightarrow> Inl (domain_error e) | Inr _ \<Rightarrow> Inr ())
             (bounds_at ch (qp_window p) now))"

section \<open>Applying a snapshot\<close>

definition check_current ::
  "string \<Rightarrow> ('s \<Rightarrow> SnapshotIdentity) \<Rightarrow> ('s \<Rightarrow> 's \<Rightarrow> bool) \<Rightarrow> 'db \<Rightarrow> 'db \<Rightarrow> 's \<Rightarrow> 's
     \<Rightarrow> ('db \<times> SnapshotApplyOutcome) db_result \<Rightarrow> ('db \<times> SnapshotApplyOutcome) db_result" where
  "check_current entity ident equivalent db restamped current snapshot continue =
     (case snapshot_order (ident current) (ident snapshot) of
        SnapshotOlder \<Rightarrow> Inr (db, SnapshotIgnoredOlder)
      | SameIdentity \<Rightarrow>
          if equivalent current snapshot then Inr (restamped, SnapshotReapplied)
          else Inl (Domain (SaasRevisionConflict entity
                 (case si_revision (ident snapshot) of None \<Rightarrow> 0 | Some r \<Rightarrow> r)))
      | SameRevisionDifferentIdentity revision \<Rightarrow> Inl (Domain (SaasRevisionConflict entity revision))
      | SnapshotNewer \<Rightarrow> continue)"

definition check_existing ::
  "string \<Rightarrow> ('s \<Rightarrow> SnapshotIdentity) \<Rightarrow> ('s \<Rightarrow> 's \<Rightarrow> bool) \<Rightarrow> 'db \<Rightarrow> 's option \<Rightarrow> 's
     \<Rightarrow> ('db \<times> SnapshotApplyOutcome) db_result \<Rightarrow> ('db \<times> SnapshotApplyOutcome) db_result" where
  "check_existing entity ident equivalent db existing snapshot continue =
     (case existing of
        None \<Rightarrow> continue
      | Some e \<Rightarrow>
          if equivalent e snapshot then Inr (db, SnapshotIgnoredOlder)
          else Inl (Domain (SaasRevisionConflict entity
                 (case si_revision (ident snapshot) of None \<Rightarrow> 0 | Some r \<Rightarrow> r))))"

text \<open>\<open>SELECT ... WHERE\<close> with \<open>query_row\<close>: the first row that satisfies the predicate.\<close>
definition load_where :: "('r \<Rightarrow> bool) \<Rightarrow> ('r \<Rightarrow> 's db_result) \<Rightarrow> 'r list \<Rightarrow> 's option db_result" where
  "load_where P parse rows = map_transpose parse (find P rows)"

definition update_where :: "('r \<Rightarrow> bool) \<Rightarrow> ('r \<Rightarrow> 'r) \<Rightarrow> 'r list \<Rightarrow> 'r list" where
  "update_where P f rows = map (\<lambda>r. if P r then f r else r) rows"

subsection \<open>Subscriptions\<close>

definition subscription_identity :: "SubscriptionState \<Rightarrow> SnapshotIdentity" where
  "subscription_identity s =
     \<lparr>si_id = sb_snapshot_id s, si_revision = sb_source_revision s, si_authority = sb_authority s,
      si_observed_at = sb_last_synced_at s\<rparr>"

definition load_current_subscription :: "SubscriptionRow list \<Rightarrow> string \<Rightarrow> SubscriptionState option db_result" where
  "load_current_subscription rows tid =
     load_where (\<lambda>r. sr_tenant_id r = tid \<and> sr_is_current r) parse_subscription_raw rows"

definition load_subscription_by_id :: "SubscriptionRow list \<Rightarrow> string \<Rightarrow> SubscriptionState option db_result" where
  "load_subscription_by_id rows sid = load_where (\<lambda>r. sr_snapshot_id r = sid) parse_subscription_raw rows"

definition insert_subscription ::
  "(Violation \<Rightarrow> string) \<Rightarrow> tenancy_db \<Rightarrow> SubscriptionRow list \<Rightarrow> SubscriptionState
     \<Rightarrow> SubscriptionRow list db_result" where
  "insert_subscription sm td rows s =
     and_then (opt_sql_u64 (sb_source_revision s) ''subscription.source_revision'') (\<lambda>revision.
     if \<not> sql_nonblank (sb_snapshot_id s) then Inl (Sqlite (sm CheckFailed))
     else if list_ex (\<lambda>r. sr_snapshot_id r = sb_snapshot_id s) rows
        \<or> list_ex (\<lambda>r. sr_tenant_id r = sb_tenant_id s \<and> sr_is_current r) rows
        \<or> revision \<noteq> None \<and> list_ex (\<lambda>r. sr_tenant_id r = sb_tenant_id s \<and> sr_source_revision r = revision) rows
     then Inl (Sqlite (sm UniqueFailed))
     else if \<not> tenant_exists td (sb_tenant_id s) then Inl (Sqlite (sm ForeignKeyFailed))
     else Inr (rows @ [
       \<lparr>sr_snapshot_id = sb_snapshot_id s, sr_tenant_id = sb_tenant_id s, sr_plan_key = sb_plan_key s,
        sr_status = subscription_status_as_str (sb_status s),
        sr_effective_start = sb_effective_start s, sr_effective_end = sb_effective_end s,
        sr_grace_period_end = sb_grace_period_end s, sr_source_revision = revision,
        sr_last_synced_at = sb_last_synced_at s, sr_authority = authority_as_str (sb_authority s),
        sr_stale_marked_at = sb_stale_marked_at s, sr_is_current = True\<rparr>]))"

text \<open>\<open>apply_snapshot\<close> after its validation.\<close>
definition subscription_store_snapshot ::
  "(Violation \<Rightarrow> string) \<Rightarrow> tenancy_db \<Rightarrow> SubscriptionRow list \<Rightarrow> SubscriptionState
     \<Rightarrow> (SubscriptionRow list \<times> SnapshotApplyOutcome) db_result" where
  "subscription_store_snapshot sm td rows s =
       and_then (load_current_subscription rows (sb_tenant_id s)) (\<lambda>current.
       let store =
         and_then (load_subscription_by_id rows (sb_snapshot_id s)) (\<lambda>existing.
           check_existing ''subscription'' subscription_identity subscription_snapshot_equivalent rows existing s
             (and_then
               (insert_subscription sm td
                  (update_where (\<lambda>r. sr_tenant_id r = sb_tenant_id s \<and> sr_is_current r)
                     (\<lambda>r. r\<lparr>sr_is_current := False\<rparr>) rows) s)
               (\<lambda>rows'. Inr (rows', SnapshotApplied))))
       in case current of
            None \<Rightarrow> store
          | Some c \<Rightarrow> check_current ''subscription'' subscription_identity subscription_snapshot_equivalent rows
              (update_where (\<lambda>r. sr_snapshot_id r = sb_snapshot_id s)
                 (\<lambda>r. r\<lparr>sr_stale_marked_at := sb_stale_marked_at s\<rparr>) rows)
              c s store)"

definition subscription_apply_snapshot ::
  "(Violation \<Rightarrow> string) \<Rightarrow> tenancy_db \<Rightarrow> SubscriptionRow list \<Rightarrow> SubscriptionState
     \<Rightarrow> (SubscriptionRow list \<times> SnapshotApplyOutcome) result" where
  "subscription_apply_snapshot sm td rows s =
     and_then (validate_subscription s) (\<lambda>_. from_db (subscription_store_snapshot sm td rows s))"

definition subscription_mark_current_stale ::
  "SubscriptionRow list \<Rightarrow> string \<Rightarrow> time \<Rightarrow> SubscriptionRow list \<times> bool" where
  "subscription_mark_current_stale rows tid marked_at =
     (update_where (\<lambda>r. sr_tenant_id r = tid \<and> sr_is_current r)
        (\<lambda>r. r\<lparr>sr_stale_marked_at := Some marked_at\<rparr>) rows,
      list_ex (\<lambda>r. sr_tenant_id r = tid \<and> sr_is_current r) rows)"

subsection \<open>Entitlements\<close>

definition entitlement_identity :: "EntitlementSnapshot \<Rightarrow> SnapshotIdentity" where
  "entitlement_identity s =
     \<lparr>si_id = es_snapshot_id s, si_revision = es_source_revision s, si_authority = es_authority s,
      si_observed_at = es_last_synced_at s\<rparr>"

definition load_current_entitlement :: "EntitlementRow list \<Rightarrow> string \<Rightarrow> EntitlementSnapshot option db_result" where
  "load_current_entitlement rows tid =
     load_where (\<lambda>r. er_tenant_id r = tid \<and> er_is_current r) parse_entitlement_raw rows"

definition load_entitlement_by_id :: "EntitlementRow list \<Rightarrow> string \<Rightarrow> EntitlementSnapshot option db_result" where
  "load_entitlement_by_id rows sid = load_where (\<lambda>r. er_snapshot_id r = sid) parse_entitlement_raw rows"

definition encode_grant :: "EntitlementGrant \<Rightarrow> GrantRow db_result" where
  "encode_grant g =
     and_then (opt_sql_u64 (eg_numeric_limit g) ''entitlement.numeric_limit'') (\<lambda>limit.
     and_then (opt_sql_u64 (eg_source_revision g) ''entitlement.grant_revision'') (\<lambda>revision.
     Inr \<lparr>gr_entitlement_key = eg_key g, gr_enabled = (if eg_enabled g then 1 else 0),
          gr_numeric_limit = limit, gr_string_value = eg_string_value g,
          gr_effective_start = eg_effective_start g, gr_effective_end = eg_effective_end g,
          gr_source_revision = revision\<rparr>))"

definition insert_entitlement ::
  "(Violation \<Rightarrow> string) \<Rightarrow> tenancy_db \<Rightarrow> EntitlementRow list \<Rightarrow> EntitlementSnapshot
     \<Rightarrow> EntitlementRow list db_result" where
  "insert_entitlement sm td rows s =
     and_then (opt_sql_u64 (es_source_revision s) ''entitlement.source_revision'') (\<lambda>revision.
     if \<not> sql_nonblank (es_snapshot_id s) then Inl (Sqlite (sm CheckFailed))
     else if list_ex (\<lambda>r. er_snapshot_id r = es_snapshot_id s) rows
        \<or> list_ex (\<lambda>r. er_tenant_id r = es_tenant_id s \<and> er_is_current r) rows
        \<or> revision \<noteq> None \<and> list_ex (\<lambda>r. er_tenant_id r = es_tenant_id s \<and> er_source_revision r = revision) rows
     then Inl (Sqlite (sm UniqueFailed))
     else if \<not> tenant_exists td (es_tenant_id s) then Inl (Sqlite (sm ForeignKeyFailed))
     else and_then (map_results (\<lambda>(_, g). encode_grant g) (es_grants s)) (\<lambda>grants.
       Inr (rows @ [
         \<lparr>er_snapshot_id = es_snapshot_id s, er_tenant_id = es_tenant_id s,
          er_source_revision = revision, er_last_synced_at = es_last_synced_at s,
          er_authority = authority_as_str (es_authority s), er_stale_marked_at = es_stale_marked_at s,
          er_is_current = True, er_grants = grants\<rparr>])))"

text \<open>\<open>apply_snapshot\<close> after its validation.\<close>
definition entitlement_store_snapshot ::
  "(Violation \<Rightarrow> string) \<Rightarrow> tenancy_db \<Rightarrow> EntitlementRow list \<Rightarrow> EntitlementSnapshot
     \<Rightarrow> (EntitlementRow list \<times> SnapshotApplyOutcome) db_result" where
  "entitlement_store_snapshot sm td rows s =
       and_then (load_current_entitlement rows (es_tenant_id s)) (\<lambda>current.
       let store =
         and_then (load_entitlement_by_id rows (es_snapshot_id s)) (\<lambda>existing.
           check_existing ''entitlement'' entitlement_identity entitlement_snapshot_equivalent rows existing s
             (and_then
               (insert_entitlement sm td
                  (update_where (\<lambda>r. er_tenant_id r = es_tenant_id s \<and> er_is_current r)
                     (\<lambda>r. r\<lparr>er_is_current := False\<rparr>) rows) s)
               (\<lambda>rows'. Inr (rows', SnapshotApplied))))
       in case current of
            None \<Rightarrow> store
          | Some c \<Rightarrow> check_current ''entitlement'' entitlement_identity entitlement_snapshot_equivalent rows
              (update_where (\<lambda>r. er_snapshot_id r = es_snapshot_id s)
                 (\<lambda>r. r\<lparr>er_stale_marked_at := es_stale_marked_at s\<rparr>) rows)
              c s store)"

definition entitlement_apply_snapshot ::
  "(Violation \<Rightarrow> string) \<Rightarrow> tenancy_db \<Rightarrow> EntitlementRow list \<Rightarrow> EntitlementSnapshot
     \<Rightarrow> (EntitlementRow list \<times> SnapshotApplyOutcome) result" where
  "entitlement_apply_snapshot sm td rows s =
     and_then (validate_entitlement_snapshot s) (\<lambda>_. from_db (entitlement_store_snapshot sm td rows s))"

definition entitlement_mark_current_stale ::
  "EntitlementRow list \<Rightarrow> string \<Rightarrow> time \<Rightarrow> EntitlementRow list \<times> bool" where
  "entitlement_mark_current_stale rows tid marked_at =
     (update_where (\<lambda>r. er_tenant_id r = tid \<and> er_is_current r)
        (\<lambda>r. r\<lparr>er_stale_marked_at := Some marked_at\<rparr>) rows,
      list_ex (\<lambda>r. er_tenant_id r = tid \<and> er_is_current r) rows)"

subsection \<open>Quota policies\<close>

definition quota_identity :: "QuotaPolicy \<Rightarrow> SnapshotIdentity" where
  "quota_identity p =
     \<lparr>si_id = qp_policy_id p, si_revision = qp_source_revision p, si_authority = qp_authority p,
      si_observed_at = qp_created_at p\<rparr>"

definition quota_row_scope :: "QuotaRow \<Rightarrow> string \<times> string option \<times> string" where
  "quota_row_scope r = (qr_tenant_id r, qr_workspace_id r, qr_dimension r)"

definition quota_scope :: "QuotaPolicy \<Rightarrow> string \<times> string option \<times> string" where
  "quota_scope p = (qp_tenant_id p, qp_workspace_id p, qp_dimension p)"

text \<open>The expression \<open>IFNULL(workspace_id, '''')\<close> of the two unique indexes.\<close>
definition index_scope :: "string \<times> string option \<times> string \<Rightarrow> string \<times> string \<times> string" where
  "index_scope k = (case k of (t, w, d) \<Rightarrow> (t, case w of None \<Rightarrow> [] | Some v \<Rightarrow> v, d))"

definition load_current_quota :: "QuotaRow list \<Rightarrow> string \<times> string option \<times> string \<Rightarrow> QuotaPolicy option db_result" where
  "load_current_quota rows k =
     load_where (\<lambda>r. quota_row_scope r = k \<and> qr_is_current r) parse_quota_raw rows"

definition load_quota_by_id :: "QuotaRow list \<Rightarrow> string \<Rightarrow> QuotaPolicy option db_result" where
  "load_quota_by_id rows pid = load_where (\<lambda>r. qr_policy_id r = pid) parse_quota_raw rows"

definition insert_quota ::
  "(Violation \<Rightarrow> string) \<Rightarrow> tenancy_db \<Rightarrow> QuotaRow list \<Rightarrow> QuotaPolicy \<Rightarrow> QuotaRow list db_result" where
  "insert_quota sm td rows p =
     and_then (encode_window (qp_window p)) (\<lambda>w.
     and_then (to_sql_u64 (qp_limit p) ''quota.limit'') (\<lambda>limit.
     and_then (opt_sql_u64 (qp_burst_allowance p) ''quota.burst_allowance'') (\<lambda>allowance.
     and_then (opt_sql_u64 (qp_warning_threshold p) ''quota.warning_threshold'') (\<lambda>warning.
     and_then (opt_sql_u64 (qp_source_revision p) ''quota.source_revision'') (\<lambda>revision.
     if \<not> sql_nonblank (qp_policy_id p) then Inl (Sqlite (sm CheckFailed))
     else if list_ex (\<lambda>r. qr_policy_id r = qp_policy_id p) rows
        \<or> list_ex (\<lambda>r. index_scope (quota_row_scope r) = index_scope (quota_scope p) \<and> qr_is_current r) rows
        \<or> revision \<noteq> None \<and>
          list_ex (\<lambda>r. index_scope (quota_row_scope r) = index_scope (quota_scope p)
                       \<and> qr_source_revision r = revision) rows
     then Inl (Sqlite (sm UniqueFailed))
     else if \<not> tenant_exists td (qp_tenant_id p)
        \<or> is_some_and (qp_workspace_id p) (\<lambda>v. \<not> workspace_in_tenant td v (qp_tenant_id p))
     then Inl (Sqlite (sm ForeignKeyFailed))
     else Inr (rows @ [
       \<lparr>qr_policy_id = qp_policy_id p, qr_tenant_id = qp_tenant_id p,
        qr_workspace_id = qp_workspace_id p, qr_dimension = qp_dimension p, qr_limit_value = limit,
        qr_window_kind = ew_kind w, qr_rolling_window_seconds = ew_rolling_seconds w,
        qr_external_start = ew_external_start w, qr_external_end = ew_external_end w,
        qr_limit_behavior = behavior_as_str (qp_behavior p), qr_burst_allowance = allowance,
        qr_warning_threshold = warning, qr_required_entitlement = qp_required_entitlement p,
        qr_authority = authority_as_str (qp_authority p),
        qr_source_of_truth = source_of_truth_as_str (qp_source_of_truth p),
        qr_source_revision = revision, qr_stale_marked_at = qp_stale_marked_at p,
        qr_is_current = True, qr_created_at = qp_created_at p\<rparr>]))))))"

text \<open>\<open>apply_policy\<close> after its validation.\<close>
definition quota_store_policy ::
  "(Violation \<Rightarrow> string) \<Rightarrow> tenancy_db \<Rightarrow> QuotaRow list \<Rightarrow> QuotaPolicy
     \<Rightarrow> (QuotaRow list \<times> SnapshotApplyOutcome) db_result" where
  "quota_store_policy sm td rows p =
     and_then (load_current_quota rows (quota_scope p)) (\<lambda>current.
       let store =
         and_then (load_quota_by_id rows (qp_policy_id p)) (\<lambda>existing.
           check_existing ''quota_policy'' quota_identity quota_policy_equivalent rows existing p
             (and_then
               (insert_quota sm td
                  (update_where (\<lambda>r. quota_row_scope r = quota_scope p \<and> qr_is_current r)
                     (\<lambda>r. r\<lparr>qr_is_current := False\<rparr>) rows) p)
               (\<lambda>rows'. Inr (rows', SnapshotApplied))))
       in case current of
            None \<Rightarrow> store
          | Some c \<Rightarrow> check_current ''quota_policy'' quota_identity quota_policy_equivalent rows
              (update_where (\<lambda>r. qr_policy_id r = qp_policy_id p)
                 (\<lambda>r. r\<lparr>qr_stale_marked_at := qp_stale_marked_at p\<rparr>) rows)
              c p store)"

definition quota_apply_policy ::
  "chrono \<Rightarrow> time \<Rightarrow> (Violation \<Rightarrow> string) \<Rightarrow> tenancy_db \<Rightarrow> QuotaRow list \<Rightarrow> QuotaPolicy
     \<Rightarrow> (QuotaRow list \<times> SnapshotApplyOutcome) result option" where
  "quota_apply_policy ch now sm td rows p =
     map_option (\<lambda>v. and_then v (\<lambda>_. from_db (quota_store_policy sm td rows p)))
       (validate_quota_policy ch now p)"

definition quota_mark_current_stale ::
  "QuotaRow list \<Rightarrow> string \<times> string option \<times> string \<Rightarrow> time \<Rightarrow> QuotaRow list \<times> bool" where
  "quota_mark_current_stale rows k marked_at =
     (update_where (\<lambda>r. quota_row_scope r = k \<and> qr_is_current r)
        (\<lambda>r. r\<lparr>qr_stale_marked_at := Some marked_at\<rparr>) rows,
      list_ex (\<lambda>r. quota_row_scope r = k \<and> qr_is_current r) rows)"

end
