(* ===== verification/Saas_Snapshot_Laws.thy ===== *)
theory Saas_Snapshot_Laws
  imports Saas_Snapshots
begin

text \<open>
  Laws of the versioned snapshot tables: one contract for a table of snapshots (\<open>snapshot_table\<close>) and
  for its histories (\<open>snapshot_history\<close>), its interpretation on the subscription, entitlement and quota
  tables, and the properties that follow for each of them.
\<close>

section \<open>The contract of a table of versioned snapshots\<close>

text \<open>
  The invariant of such a table, given the columns it speaks of: identifiers are unique, every scope
  that has rows has exactly one current row, revisions are unique within a scope, and the current
  row has the newest of them.
\<close>
definition versions_ok_of ::
  "('r \<Rightarrow> string) \<Rightarrow> ('r \<Rightarrow> 'k) \<Rightarrow> ('r \<Rightarrow> int option) \<Rightarrow> ('r \<Rightarrow> bool) \<Rightarrow> ('r \<Rightarrow> bool) \<Rightarrow> 'r list \<Rightarrow> bool" where
  "versions_ok_of rid rscope rrev cur rok rows \<longleftrightarrow>
     distinct (map rid rows)
     \<and> (\<forall>r \<in> set rows. rev_in_range (rrev r) \<and> rok r)
     \<and> (\<forall>r \<in> set rows. \<exists>c \<in> set rows. rscope c = rscope r \<and> cur c \<and> \<not> rev_newer (rrev c) (rrev r))
     \<and> (\<forall>a \<in> set rows. \<forall>b \<in> set rows. cur a \<and> cur b \<and> rscope a = rscope b \<longrightarrow> a = b)
     \<and> (\<forall>a \<in> set rows. \<forall>b \<in> set rows.
          rrev a \<noteq> None \<and> rrev a = rrev b \<and> rscope a = rscope b \<longrightarrow> a = b)"

text \<open>How the current snapshot of a scope may change over time.\<close>
definition identity_advances :: "SnapshotIdentity \<Rightarrow> SnapshotIdentity \<Rightarrow> bool" where
  "identity_advances i j \<longleftrightarrow>
     (si_authority i = Authoritative \<longrightarrow> si_authority j = Authoritative)
     \<and> (case (si_revision i, si_revision j) of
          (None, _) \<Rightarrow> True | (Some a, Some b) \<Rightarrow> a \<le> b | (Some _, None) \<Rightarrow> False)"

datatype ('s, 'k) snapshot_op = ApplySnapshot 's | MarkStale 'k time

primrec op_ok :: "('s \<Rightarrow> bool) \<Rightarrow> ('s, 'k) snapshot_op \<Rightarrow> bool" where
  "op_ok v (ApplySnapshot s) = v s"
| "op_ok v (MarkStale k t) = True"

lemma identity_advances_refl: "identity_advances i i"
  by (simp add: identity_advances_def split: option.splits)

lemma identity_advances_trans: "identity_advances i j \<Longrightarrow> identity_advances j k \<Longrightarrow> identity_advances i k"
  by (auto simp: identity_advances_def split: option.splits)

lemma newer_advances: "snapshot_order i j = SnapshotNewer \<Longrightarrow> identity_advances i j"
  by (cases "si_authority j") (auto simp: snapshot_order_def identity_advances_def split: if_splits option.splits)

text \<open>
  What a table of snapshots has: identifiers, a scope with at most one current row, revisions. The
  laws say that un-setting the current flag and stamping a row leave everything else alone, that a
  stored row reads back as the snapshot it was written from, and how the table applies a snapshot.
\<close>
locale snapshot_table =
  fixes rid :: "'r \<Rightarrow> string" and rscope :: "'r \<Rightarrow> 'k" and rrev :: "'r \<Rightarrow> int option"
    and cur :: "'r \<Rightarrow> bool" and rok :: "'r \<Rightarrow> bool"
    and unset :: "'r \<Rightarrow> 'r" and stamp :: "time option \<Rightarrow> 'r \<Rightarrow> 'r"
    and parse :: "'r \<Rightarrow> 's db_result" and field :: string
    and ident :: "'s \<Rightarrow> SnapshotIdentity" and scope :: "'s \<Rightarrow> 'k" and stale :: "'s \<Rightarrow> time option"
    and equiv :: "'s \<Rightarrow> 's \<Rightarrow> bool" and valid :: "'s \<Rightarrow> bool" and insertable :: "'s \<Rightarrow> bool"
    and entity :: string
    and insert_row :: "'r list \<Rightarrow> 's \<Rightarrow> 'r list db_result"
    and apply_db :: "'r list \<Rightarrow> 's \<Rightarrow> ('r list \<times> SnapshotApplyOutcome) db_result"
  assumes unset: "rid (unset r) = rid r" "rscope (unset r) = rscope r" "rrev (unset r) = rrev r"
      "cur (unset r) = False" "rok (unset r) = rok r"
    and stamp: "rid (stamp t r) = rid r" "rscope (stamp t r) = rscope r" "rrev (stamp t r) = rrev r"
      "cur (stamp t r) = cur r" "rok (stamp t r) = rok r"
    and parse_stamp: "parse r = Inr s \<Longrightarrow> \<exists>s'. parse (stamp t r) = Inr s' \<and> equiv s s' \<and> stale s' = t"
    and parse_ident: "parse r = Inr s \<Longrightarrow> si_id (ident s) = rid r \<and> scope s = rscope r
        \<and> map_transpose (\<lambda>v. from_sql_u64 v field) (rrev r) = Inr (si_revision (ident s))"
    and insert_row: "insert_row rows s = Inr rows' \<Longrightarrow> valid s \<Longrightarrow> \<exists>r. rows' = rows @ [r]
        \<and> rid r = si_id (ident s) \<and> rscope r = scope s \<and> cur r \<and> rok r
        \<and> opt_sql_u64 (si_revision (ident s)) field = Inr (rrev r) \<and> parse r = Inr s"
    and insert_succeeds: "valid s \<Longrightarrow> insertable s \<Longrightarrow> \<forall>r \<in> set rows. rok r \<Longrightarrow>
        \<forall>r \<in> set rows. rid r \<noteq> si_id (ident s) \<Longrightarrow>
        \<forall>r \<in> set rows. rscope r = scope s \<longrightarrow> \<not> cur r \<and>
            (rrev r \<noteq> None \<longrightarrow> opt_sql_u64 (si_revision (ident s)) field \<noteq> Inr (rrev r)) \<Longrightarrow>
        \<exists>rows'. insert_row rows s = Inr rows'"
    and equiv_ident: "equiv a b \<Longrightarrow> ident a = ident b \<and> scope a = scope b"
    and equiv_refl: "equiv a a"
    and equiv_trans: "equiv a b \<Longrightarrow> equiv b c \<Longrightarrow> equiv a c"
    and apply_eq: "apply_db rows s =
        and_then (load_where (\<lambda>r. rscope r = scope s \<and> cur r) parse rows) (\<lambda>current.
          let store =
            and_then (load_where (\<lambda>r. rid r = si_id (ident s)) parse rows) (\<lambda>existing.
              check_existing entity ident equiv rows existing s
                (and_then
                  (insert_row (update_where (\<lambda>r. rscope r = scope s \<and> cur r) unset rows) s)
                  (\<lambda>rows'. Inr (rows', SnapshotApplied))))
          in case current of
               None \<Rightarrow> store
             | Some c \<Rightarrow> check_current entity ident equiv rows
                 (update_where (\<lambda>r. rid r = si_id (ident s)) (stamp (stale s)) rows) c s store)"
begin

definition current_of :: "'r list \<Rightarrow> 'k \<Rightarrow> 's option db_result" where
  "current_of rows k = load_where (\<lambda>r. rscope r = k \<and> cur r) parse rows"

abbreviation versions_ok :: "'r list \<Rightarrow> bool" where
  "versions_ok \<equiv> versions_ok_of rid rscope rrev cur rok"

definition newer_than_current :: "'r list \<Rightarrow> 's \<Rightarrow> bool" where
  "newer_than_current rows s \<longleftrightarrow>
     (case current_of rows (scope s) of
        Inl _ \<Rightarrow> False
      | Inr None \<Rightarrow> True
      | Inr (Some c) \<Rightarrow> snapshot_order (ident c) (ident s) = SnapshotNewer)"

lemma load_where_None: "load_where P parse rows = Inr None \<longleftrightarrow> (\<forall>r \<in> set rows. \<not> P r)"
  by (auto simp: load_where_def find_None_iff map_transpose_def and_then_def
      split: option.splits sum.splits) (auto simp: find_Some_iff dest: nth_mem)

lemma apply_cases:
  assumes "apply_db rows s = Inr (rows', out)"
  obtains (Applied) "out = SnapshotApplied" "newer_than_current rows s"
      "\<forall>r \<in> set rows. rid r \<noteq> si_id (ident s)"
      "insert_row (update_where (\<lambda>r. rscope r = scope s \<and> cur r) unset rows) s = Inr rows'"
    | (Reapplied) c where "out = SnapshotReapplied" "current_of rows (scope s) = Inr (Some c)" "equiv c s"
        "rows' = update_where (\<lambda>r. rid r = si_id (ident s)) (stamp (stale s)) rows"
    | (Older) "out = SnapshotIgnoredOlder" "rows' = rows"
proof -
  from assms obtain current where cur: "current_of rows (scope s) = Inr current"
    by (auto simp: apply_eq current_of_def and_then_Inr_iff)
  define store where "store = and_then (load_where (\<lambda>r. rid r = si_id (ident s)) parse rows) (\<lambda>existing.
      check_existing entity ident equiv rows existing s
        (and_then (insert_row (update_where (\<lambda>r. rscope r = scope s \<and> cur r) unset rows) s)
          (\<lambda>rows'. Inr (rows', SnapshotApplied))))"
  have store: thesis if "store = Inr (rows', out)" "newer_than_current rows s"
  proof -
    from that(1) obtain existing where ex: "load_where (\<lambda>r. rid r = si_id (ident s)) parse rows = Inr existing"
      and st: "check_existing entity ident equiv rows existing s
        (and_then (insert_row (update_where (\<lambda>r. rscope r = scope s \<and> cur r) unset rows) s)
          (\<lambda>rows'. Inr (rows', SnapshotApplied))) = Inr (rows', out)"
      by (auto simp: store_def and_then_Inr_iff)
    show thesis
    proof (cases existing)
      case None
      with ex st that(2) Applied show thesis
        by (auto simp: check_existing_def and_then_Inr_iff load_where_None)
    next
      case (Some e)
      with st Older show thesis by (auto simp: check_existing_def split: if_splits)
    qed
  qed
  show thesis
  proof (cases current)
    case None
    with assms cur store show thesis
      by (simp add: apply_eq current_of_def store_def newer_than_current_def)
  next
    case (Some c)
    with assms cur have "check_current entity ident equiv rows
        (update_where (\<lambda>r. rid r = si_id (ident s)) (stamp (stale s)) rows) c s store = Inr (rows', out)"
      by (simp add: apply_eq current_of_def store_def)
    with Some cur store Reapplied [of c] Older show thesis
      by (auto simp: check_current_def newer_than_current_def split: SnapshotOrder.splits if_splits)
  qed
qed

lemma versions_ok_map:
  assumes "versions_ok rows"
    and "\<And>r. rid (g r) = rid r" "\<And>r. rscope (g r) = rscope r" "\<And>r. rrev (g r) = rrev r"
      "\<And>r. cur (g r) = cur r" "\<And>r. rok (g r) = rok r"
  shows "versions_ok (map g rows)"
  using assms by (auto simp: versions_ok_of_def comp_def)

lemma versions_ok_stamp: "versions_ok rows \<Longrightarrow> versions_ok (update_where P (stamp t) rows)"
  unfolding update_where_def by (rule versions_ok_map) (simp_all add: stamp)

text \<open>A newer snapshot has a revision no stored row of its scope reaches.\<close>
lemma newer_revision:
  assumes ok: "versions_ok rows" and new: "newer_than_current rows s"
    and rv: "opt_sql_u64 (si_revision (ident s)) field = Inr rv"
    and r: "r \<in> set rows" "rscope r = scope s"
  shows "\<not> rev_newer rv (rrev r)" and "rrev r \<noteq> None \<Longrightarrow> rrev r \<noteq> rv"
proof -
  from ok r obtain c where c: "c \<in> set rows" "rscope c = scope s" "cur c" "\<not> rev_newer (rrev c) (rrev r)"
    unfolding versions_ok_of_def by metis
  from c new obtain cs c' where c': "c' \<in> set rows" "rscope c' = scope s" "cur c'" "parse c' = Inr cs"
    and order: "snapshot_order (ident cs) (ident s) = SnapshotNewer"
    by (auto simp: newer_than_current_def current_of_def load_where_def find_None_iff find_Some_iff
        map_transpose_def and_then_def split: sum.splits option.splits) (metis nth_mem)
  with ok c have "c' = c" unfolding versions_ok_of_def by metis
  with c' have p: "map_transpose (\<lambda>v. from_sql_u64 v field) (rrev c) = Inr (si_revision (ident cs))"
    using parse_ident by blast
  have "rev_newer (rrev c) rv \<or> rrev c = None \<and> rv = None"
  proof (cases "si_revision (ident s)")
    case None
    with order have "si_revision (ident cs) = None"
      by (auto simp: snapshot_order_def split: if_splits option.splits)
    with p rv None show ?thesis
      by (cases "rrev c") (auto simp: opt_sql_u64_def and_then_Inr_iff)
  next
    case (Some w)
    with order have "revision_order (si_revision (ident cs)) (Some w) = RevisionNewer"
      by (auto simp: snapshot_order_def revision_order_def split: if_splits option.splits)
    moreover have "rev_in_range (rrev c)" using ok c(1) by (simp add: versions_ok_of_def)
    moreover have "opt_sql_u64 (Some w) field = Inr rv" using rv Some by simp
    ultimately show ?thesis using p revision_newer_rows by blast
  qed
  with c(4) show "\<not> rev_newer rv (rrev r)" and "rrev r \<noteq> None \<Longrightarrow> rrev r \<noteq> rv"
    by (auto simp: rev_newer_def split: option.splits)
qed

lemma versions_ok_supersede:
  assumes ok: "versions_ok rows" and new: "newer_than_current rows s"
    and ids: "\<forall>x \<in> set rows. rid x \<noteq> si_id (ident s)"
    and r: "rid r = si_id (ident s)" "rscope r = scope s" "cur r" "rok r"
      "opt_sql_u64 (si_revision (ident s)) field = Inr (rrev r)"
  shows "versions_ok (update_where (\<lambda>x. rscope x = scope s \<and> cur x) unset rows @ [r])"
proof -
  define g where "g = (\<lambda>x. if rscope x = scope s \<and> cur x then unset x else x)"
  have g: "rid (g x) = rid x" "rscope (g x) = rscope x" "rrev (g x) = rrev x" "rok (g x) = rok x"
    "cur (g x) \<longleftrightarrow> cur x \<and> rscope x \<noteq> scope s" for x
    by (auto simp: unset g_def)
  have keep: "g x = x" if "rscope x \<noteq> scope s" for x using that by (simp add: g_def)
  have rows: "update_where (\<lambda>x. rscope x = scope s \<and> cur x) unset rows = map g rows"
    by (simp add: update_where_def g_def)
  have rv: "\<not> rev_newer (rrev r) (rrev x)" "rrev x \<noteq> None \<Longrightarrow> rrev x \<noteq> rrev r"
    if "x \<in> set rows" "rscope x = scope s" for x
    using newer_revision [OF ok new r(5) that] by auto
  have rr: "\<not> rev_newer (rrev r) (rrev r)" by (simp add: rev_newer_def split: option.splits)
  have D: "distinct (map rid (map g rows @ [r]))"
    using ok ids r(1) by (auto simp: versions_ok_of_def comp_def g)
  have R: "rev_in_range (rrev r)" using r(5) by (rule sql_rev_in_range)
  have old: "\<exists>c \<in> set (map g rows @ [r]). rscope c = rscope x \<and> cur c \<and> \<not> rev_newer (rrev c) (rrev x)"
    if x: "x \<in> set rows" for x
  proof (cases "rscope x = scope s")
    case True
    with rv(1) [OF x True] r(2,3) show ?thesis by auto
  next
    case False
    from x ok obtain c where "c \<in> set rows" "rscope c = rscope x" "cur c" "\<not> rev_newer (rrev c) (rrev x)"
      unfolding versions_ok_of_def by metis
    with False keep [of c] show ?thesis by force
  qed
  have C: "\<forall>x \<in> set (map g rows @ [r]). \<exists>c \<in> set (map g rows @ [r]).
      rscope c = rscope x \<and> cur c \<and> \<not> rev_newer (rrev c) (rrev x)"
    using old rr r(3) by (auto simp: g)
  have one: "g x = g y" if "x \<in> set rows" "y \<in> set rows" "cur x" "cur y" "rscope x = rscope y" for x y
    using ok that unfolding versions_ok_of_def by metis
  have inj: "g x = g y" if "x \<in> set rows" "y \<in> set rows" "rrev x \<noteq> None" "rrev x = rrev y" "rscope x = rscope y" for x y
    using ok that unfolding versions_ok_of_def by metis
  have U: "a = b" if "a \<in> set (map g rows @ [r])" "b \<in> set (map g rows @ [r])"
      "cur a \<and> cur b \<and> rscope a = rscope b" for a b
  proof (cases "a = r \<or> b = r")
    case True
    with that r(2) show ?thesis by (auto simp: g)
  next
    case False
    with that obtain x y where "x \<in> set rows" "y \<in> set rows" "a = g x" "b = g y" by auto
    with that(3) one [of x y] show ?thesis by (simp add: g)
  qed
  have V: "a = b" if "a \<in> set (map g rows @ [r])" "b \<in> set (map g rows @ [r])"
      "rrev a \<noteq> None \<and> rrev a = rrev b \<and> rscope a = rscope b" for a b
  proof (cases "a = r \<or> b = r")
    case True
    have "z = r" if "z \<in> set (map g rows @ [r])" "rscope z = scope s" "rrev z \<noteq> None" "rrev z = rrev r" for z
    proof (rule ccontr)
      assume "z \<noteq> r"
      with that obtain x where "x \<in> set rows" "z = g x" by auto
      with that rv(2) [of x] show False by (simp add: g)
    qed
    with True that r(2) show ?thesis by metis
  next
    case False
    with that obtain x y where "x \<in> set rows" "y \<in> set rows" "a = g x" "b = g y" by auto
    with that(3) inj [of x y] show ?thesis by (metis g(2,3))
  qed
  have O: "\<forall>x \<in> set (map g rows @ [r]). rev_in_range (rrev x) \<and> rok x"
    using R ok r(4) by (auto simp: g versions_ok_of_def)
  show ?thesis unfolding versions_ok_of_def rows using D O C U V by blast
qed

lemma apply_versions_ok:
  assumes "versions_ok rows" and "valid s" and "apply_db rows s = Inr (rows', out)"
  shows "versions_ok rows'"
  using assms(3)
proof (cases rule: apply_cases)
  case Applied
  from insert_row [OF Applied(4) assms(2)] obtain r where
    "rows' = update_where (\<lambda>r. rscope r = scope s \<and> cur r) unset rows @ [r]"
    "rid r = si_id (ident s)" "rscope r = scope s" "cur r" "rok r"
    "opt_sql_u64 (si_revision (ident s)) field = Inr (rrev r)" by blast
  with versions_ok_supersede [OF assms(1) Applied(2,3)] show ?thesis by blast
qed (use assms(1) versions_ok_stamp in auto)

lemma current_of_map:
  assumes "\<And>r. rscope (g r) = rscope r" "\<And>r. cur (g r) = cur r"
  shows "current_of (map g rows) k = map_transpose parse (map_option g (find (\<lambda>r. rscope r = k \<and> cur r) rows))"
proof -
  have "find P (map g rows) = map_option g (find (P \<circ> g) rows)" for P
    by (induction rows) auto
  then show ?thesis by (simp add: current_of_def load_where_def comp_def assms)
qed

lemma current_of_stamp:
  assumes "current_of rows k = Inr (Some a)"
  shows "\<exists>b. current_of (update_where P (stamp t) rows) k = Inr (Some b) \<and> equiv a b"
proof -
  from assms obtain r where r: "find (\<lambda>r. rscope r = k \<and> cur r) rows = Some r" "parse r = Inr a"
    by (auto simp: current_of_def load_where_def map_transpose_def and_then_Inr_iff split: option.splits)
  define g where "g = (\<lambda>r. if P r then stamp t r else r)"
  have "current_of (map g rows) k = map_transpose parse (Some (g r))"
    using current_of_map [of g rows k] r(1) by (simp add: g_def stamp)
  moreover obtain b where "parse (g r) = Inr b" "equiv a b"
    using parse_stamp [OF r(2), of t] r(2) equiv_refl by (cases "P r") (auto simp: g_def)
  ultimately show ?thesis by (auto simp: update_where_def g_def)
qed

lemma find_append_none: "(\<forall>x \<in> set xs. \<not> P x) \<Longrightarrow> P y \<Longrightarrow> find P (xs @ [y]) = Some y"
  by (induction xs) auto

lemma find_append_other: "\<not> P y \<Longrightarrow> find P (xs @ [y]) = find P xs"
  by (induction xs) auto

lemma applied_is_current:
  assumes "valid s" and "apply_db rows s = Inr (rows', SnapshotApplied)"
  shows "current_of rows' (scope s) = Inr (Some s)"
  using assms(2)
proof (cases rule: apply_cases)
  case Applied
  from insert_row [OF Applied(4) assms(1)] obtain r where
    rows': "rows' = update_where (\<lambda>r. rscope r = scope s \<and> cur r) unset rows @ [r]"
    and r: "rscope r = scope s" "cur r" "parse r = Inr s" by blast
  have "\<not> (rscope x = scope s \<and> cur x)"
    if "x \<in> set (update_where (\<lambda>r. rscope r = scope s \<and> cur r) unset rows)" for x
    using that by (auto simp: update_where_def unset)
  then show ?thesis using r
    unfolding current_of_def load_where_def rows' by (subst find_append_none) auto
qed simp_all

text \<open>The current snapshot of a scope is kept up to its stale mark, or superseded by a newer one.\<close>
lemma current_evolves:
  assumes "versions_ok rows" and "valid s" and "apply_db rows s = Inr (rows', out)"
    and "current_of rows k = Inr (Some a)"
  shows "\<exists>b. current_of rows' k = Inr (Some b)
    \<and> (equiv a b \<or> b = s \<and> snapshot_order (ident a) (ident b) = SnapshotNewer)"
  using assms(3)
proof (cases rule: apply_cases)
  case Applied
  show ?thesis
  proof (cases "k = scope s")
    case True
    with Applied(1,2) assms show ?thesis
      using applied_is_current [OF assms(2)] by (auto simp: newer_than_current_def)
  next
    case False
    define g where "g = (\<lambda>r. if rscope r = scope s \<and> cur r then unset r else r)"
    from insert_row [OF Applied(4) assms(2)] obtain r where rows': "rows' = map g rows @ [r]"
      and r: "rscope r = scope s" unfolding update_where_def g_def by blast
    have "find (\<lambda>r. rscope r = k \<and> cur r) (map g rows) = find (\<lambda>r. rscope r = k \<and> cur r) rows"
      using False by (induction rows) (auto simp: g_def unset)
    with False r have "current_of rows' k = current_of rows k"
      unfolding rows' current_of_def load_where_def by (subst find_append_other) auto
    with assms(4) equiv_refl show ?thesis by auto
  qed
next
  case (Reapplied c)
  with current_of_stamp [OF assms(4)] show ?thesis by blast
qed (use assms(4) equiv_refl in auto)

text \<open>A snapshot that is newer than the current one is never refused by a uniqueness constraint.\<close>
lemma newer_is_applied:
  assumes "versions_ok rows" and "valid s" and "insertable s" and "newer_than_current rows s"
    and "\<forall>r \<in> set rows. rid r \<noteq> si_id (ident s)"
  shows "\<exists>rows'. apply_db rows s = Inr (rows', SnapshotApplied)"
proof -
  let ?rows = "update_where (\<lambda>r. rscope r = scope s \<and> cur r) unset rows"
  have "\<exists>rows'. insert_row ?rows s = Inr rows'"
  proof (rule insert_succeeds [OF assms(2,3)])
    show "\<forall>r \<in> set ?rows. rok r" using assms(1) by (auto simp: update_where_def versions_ok_of_def unset)
    show "\<forall>r \<in> set ?rows. rid r \<noteq> si_id (ident s)" using assms(5) by (auto simp: update_where_def unset)
    show "\<forall>r \<in> set ?rows. rscope r = scope s \<longrightarrow> \<not> cur r \<and>
        (rrev r \<noteq> None \<longrightarrow> opt_sql_u64 (si_revision (ident s)) field \<noteq> Inr (rrev r))"
    proof -
      have "False" if "x \<in> set rows" "rscope x = scope s" "rrev x \<noteq> None"
        "opt_sql_u64 (si_revision (ident s)) field = Inr (rrev x)" for x
        using newer_revision(2) [OF assms(1,4) that(4,1,2)] that(3) by simp
      then show ?thesis by (fastforce simp: update_where_def unset)
    qed
  qed
  then obtain rows' where "insert_row ?rows s = Inr rows'" by blast
  moreover have "load_where (\<lambda>r. rid r = si_id (ident s)) parse rows = Inr None"
    using assms(5) by (simp add: load_where_None)
  ultimately show ?thesis
    using assms(4) unfolding apply_eq newer_than_current_def current_of_def
    by (auto simp: check_existing_def check_current_def split: sum.splits option.splits)
qed

end

text \<open>A table together with its step function: an error leaves the table unchanged.\<close>
locale snapshot_history = snapshot_table +
  fixes table_step
  assumes step_apply: "table_step rows (ApplySnapshot s) = rows
      \<or> (\<exists>out. apply_db rows s = Inr (table_step rows (ApplySnapshot s), out))"
    and step_stale: "table_step rows (MarkStale k t) =
      update_where (\<lambda>r. rscope r = k \<and> cur r) (stamp (Some t)) rows"
begin

lemma step_safe:
  assumes "versions_ok rows" and "op_ok valid op"
  shows "versions_ok (table_step rows op)
    \<and> (\<forall>k a. current_of rows k = Inr (Some a) \<longrightarrow>
        (\<exists>b. current_of (table_step rows op) k = Inr (Some b) \<and> identity_advances (ident a) (ident b)))"
proof (cases op)
  case (ApplySnapshot s)
  show ?thesis
  proof (cases "table_step rows op = rows")
    case True
    with assms(1) identity_advances_refl show ?thesis by auto
  next
    case False
    with ApplySnapshot step_apply obtain out where ap: "apply_db rows s = Inr (table_step rows op, out)"
      by metis
    from assms(2) ApplySnapshot have "valid s" by simp
    with current_evolves [OF assms(1) _ ap] apply_versions_ok [OF assms(1) _ ap] show ?thesis
      by (metis equiv_ident identity_advances_refl newer_advances)
  qed
next
  case (MarkStale k t)
  then have eq: "table_step rows op = update_where (\<lambda>r. rscope r = k \<and> cur r) (stamp (Some t)) rows"
    by (simp add: step_stale)
  show ?thesis unfolding eq
  proof (intro conjI allI impI)
    fix l a assume "current_of rows l = Inr (Some a)"
    from current_of_stamp [OF this] show "\<exists>b. current_of (update_where (\<lambda>r. rscope r = k \<and> cur r) (stamp (Some t)) rows) l = Inr (Some b)
        \<and> identity_advances (ident a) (ident b)"
      by (metis equiv_ident identity_advances_refl)
  qed (rule versions_ok_stamp [OF assms(1)])
qed

lemma history_safe:
  "versions_ok rows \<Longrightarrow> list_all (op_ok valid) ops \<Longrightarrow>
    versions_ok (foldl table_step rows ops)
    \<and> (\<forall>k a. current_of rows k = Inr (Some a) \<longrightarrow>
        (\<exists>b. current_of (foldl table_step rows ops) k = Inr (Some b)
           \<and> identity_advances (ident a) (ident b)))"
proof (induction ops arbitrary: rows)
  case (Cons op ops)
  then have ok: "op_ok valid op" "list_all (op_ok valid) ops" by simp_all
  note s = step_safe [OF Cons.prems(1) ok(1)]
  note h = Cons.IH [OF conjunct1 [OF s] ok(2)]
  show ?case
  proof (intro conjI allI impI)
    show "versions_ok (foldl table_step rows (op # ops))" using h by simp
    fix k a assume "current_of rows k = Inr (Some a)"
    with s obtain b where "current_of (table_step rows op) k = Inr (Some b)"
      and "identity_advances (ident a) (ident b)" by blast
    moreover from this(1) h obtain c where
      "current_of (foldl table_step (table_step rows op) ops) k = Inr (Some c)"
      "identity_advances (ident b) (ident c)" by blast
    ultimately show "\<exists>c. current_of (foldl table_step rows (op # ops)) k = Inr (Some c)
        \<and> identity_advances (ident a) (ident c)"
      by (auto intro: identity_advances_trans)
  qed
qed (auto intro: identity_advances_refl)

end

section \<open>The three tables satisfy the contract\<close>

text \<open>The identifiers of a snapshot are ones its identifier types admit.\<close>
definition subscription_valid :: "SubscriptionState \<Rightarrow> bool" where
  "subscription_valid s \<longleftrightarrow> trim (sb_snapshot_id s) \<noteq> [] \<and> trim (sb_tenant_id s) \<noteq> []"

definition entitlement_valid :: "EntitlementSnapshot \<Rightarrow> bool" where
  "entitlement_valid s \<longleftrightarrow> trim (es_snapshot_id s) \<noteq> [] \<and> trim (es_tenant_id s) \<noteq> []
     \<and> (\<forall>(k, g) \<in> set (es_grants s). k = eg_key g \<and> EntitlementKey_new k = Inr k)"

definition quota_valid :: "QuotaPolicy \<Rightarrow> bool" where
  "quota_valid p \<longleftrightarrow> trim (qp_policy_id p) \<noteq> [] \<and> trim (qp_tenant_id p) \<noteq> []
     \<and> (\<forall>w. qp_workspace_id p = Some w \<longrightarrow> trim w \<noteq> [])
     \<and> UsageDimension_new (qp_dimension p) = Inr (qp_dimension p)
     \<and> (\<forall>k. qp_required_entitlement p = Some k \<longrightarrow> EntitlementKey_new k = Inr k)"

text \<open>The foreign keys and range checks a snapshot has to pass.\<close>
definition subscription_insertable :: "tenancy_db \<Rightarrow> SubscriptionState \<Rightarrow> bool" where
  "subscription_insertable td s \<longleftrightarrow>
     (\<forall>r. sb_source_revision s = Some r \<longrightarrow> unat r \<le> i64_max)
     \<and> sql_nonblank (sb_snapshot_id s) \<and> tenant_exists td (sb_tenant_id s)"

definition entitlement_insertable :: "tenancy_db \<Rightarrow> EntitlementSnapshot \<Rightarrow> bool" where
  "entitlement_insertable td s \<longleftrightarrow>
     (\<forall>r. es_source_revision s = Some r \<longrightarrow> unat r \<le> i64_max)
     \<and> (\<forall>(k, g) \<in> set (es_grants s).
          (\<forall>v. eg_numeric_limit g = Some v \<longrightarrow> unat v \<le> i64_max)
          \<and> (\<forall>v. eg_source_revision g = Some v \<longrightarrow> unat v \<le> i64_max))
     \<and> sql_nonblank (es_snapshot_id s) \<and> tenant_exists td (es_tenant_id s)"

definition quota_insertable :: "tenancy_db \<Rightarrow> QuotaPolicy \<Rightarrow> bool" where
  "quota_insertable td p \<longleftrightarrow>
     (\<exists>w. encode_window (qp_window p) = Inr w) \<and> unat (qp_limit p) \<le> i64_max
     \<and> (\<forall>v. qp_burst_allowance p = Some v \<longrightarrow> unat v \<le> i64_max)
     \<and> (\<forall>v. qp_warning_threshold p = Some v \<longrightarrow> unat v \<le> i64_max)
     \<and> (\<forall>v. qp_source_revision p = Some v \<longrightarrow> unat v \<le> i64_max)
     \<and> sql_nonblank (qp_policy_id p) \<and> tenant_exists td (qp_tenant_id p)
     \<and> (\<forall>w. qp_workspace_id p = Some w \<longrightarrow> workspace_in_tenant td w (qp_tenant_id p))"

lemma opt_sql_u64_succeeds: "(\<forall>r. v = Some r \<longrightarrow> unat r \<le> i64_max) \<Longrightarrow> \<exists>i. opt_sql_u64 v f = Inr i"
  by (cases v) (auto simp: opt_sql_u64_def to_sql_u64_def)

lemma opt_sql_u64_None [simp]: "opt_sql_u64 v f = Inr None \<longleftrightarrow> v = None"
  by (cases v) (auto simp: opt_sql_u64_def and_then_Inr_iff)

lemma map_results_roundtrip:
  "map_results f xs = Inr ys \<Longrightarrow> (\<And>x y. x \<in> set xs \<Longrightarrow> f x = Inr y \<Longrightarrow> g y = Inr x) \<Longrightarrow> map_results g ys = Inr xs"
  by (induction xs arbitrary: ys) (auto simp: and_then_Inr_iff)

lemma map_results_succeeds: "(\<And>x. x \<in> set xs \<Longrightarrow> \<exists>y. f x = Inr y) \<Longrightarrow> \<exists>ys. map_results f xs = Inr ys"
proof (induction xs)
  case (Cons x xs)
  then obtain y ys where "f x = Inr y" "map_results f xs = Inr ys" by (metis list.set_intros)
  then show ?case by simp
qed simp

lemma grant_roundtrip:
  assumes "encode_grant g = Inr r" and "k = eg_key g" and "EntitlementKey_new k = Inr k"
  shows "parse_grant_row r = Inr (k, g)"
  using assms by (cases g) (auto simp: encode_grant_def parse_grant_row_def and_then_Inr_iff id_col_def
      split: if_splits dest!: opt_sql_u64_roundtrip)

lemma find_index_scope:
  "w \<noteq> Some [] \<Longrightarrow> v \<noteq> Some [] \<Longrightarrow> index_scope (t, w, d) = index_scope (t', v, d') \<longleftrightarrow> (t, w, d) = (t', v, d')"
  by (auto simp: index_scope_def split: option.splits)

lemma identity_ids:
  "si_id (subscription_identity s) = sb_snapshot_id s"
  "si_id (entitlement_identity e) = es_snapshot_id e"
  "si_id (quota_identity p) = qp_policy_id p"
  by (simp_all add: subscription_identity_def entitlement_identity_def quota_identity_def)

interpretation subscriptions: snapshot_table sr_snapshot_id sr_tenant_id sr_source_revision sr_is_current
  "\<lambda>_. True" "\<lambda>r. r\<lparr>sr_is_current := False\<rparr>" "\<lambda>t r. r\<lparr>sr_stale_marked_at := t\<rparr>"
  parse_subscription_raw "''subscription.source_revision''" subscription_identity sb_tenant_id
  sb_stale_marked_at subscription_snapshot_equivalent subscription_valid "subscription_insertable td"
  "''subscription''" "insert_subscription sm td" "subscription_store_snapshot sm td" for sm td
proof unfold_locales
  fix r s t and rows rows' :: "SubscriptionRow list"
  show "parse_subscription_raw r = Inr s \<Longrightarrow>
      \<exists>s'. parse_subscription_raw (r\<lparr>sr_stale_marked_at := t\<rparr>) = Inr s'
        \<and> subscription_snapshot_equivalent s s' \<and> sb_stale_marked_at s' = t"
    by (auto simp: parse_subscription_raw_def and_then_Inr_iff subscription_snapshot_equivalent_def)
  show "parse_subscription_raw r = Inr s \<Longrightarrow> si_id (subscription_identity s) = sr_snapshot_id r
      \<and> sb_tenant_id s = sr_tenant_id r
      \<and> map_transpose (\<lambda>v. from_sql_u64 v ''subscription.source_revision'') (sr_source_revision r)
         = Inr (si_revision (subscription_identity s))"
    by (auto simp: parse_subscription_raw_def and_then_Inr_iff subscription_identity_def id_new_defs
        SubscriptionSnapshotId_new_def dest!: id_col_Inr)
  show "insert_subscription sm td rows s = Inr rows' \<Longrightarrow> subscription_valid s \<Longrightarrow> \<exists>r. rows' = rows @ [r]
      \<and> sr_snapshot_id r = si_id (subscription_identity s) \<and> sr_tenant_id r = sb_tenant_id s
      \<and> sr_is_current r \<and> True
      \<and> opt_sql_u64 (si_revision (subscription_identity s)) ''subscription.source_revision'' = Inr (sr_source_revision r)
      \<and> parse_subscription_raw r = Inr s"
    by (auto simp: insert_subscription_def and_then_Inr_iff subscription_identity_def subscription_valid_def
        parse_subscription_raw_def id_new_defs SubscriptionSnapshotId_new_def opt_sql_u64_roundtrip
        split: if_splits)
  show "subscription_valid s \<Longrightarrow> subscription_insertable td s \<Longrightarrow> \<forall>r \<in> set rows. True \<Longrightarrow>
      \<forall>r \<in> set rows. sr_snapshot_id r \<noteq> si_id (subscription_identity s) \<Longrightarrow>
      \<forall>r \<in> set rows. sr_tenant_id r = sb_tenant_id s \<longrightarrow> \<not> sr_is_current r \<and>
        (sr_source_revision r \<noteq> None \<longrightarrow>
          opt_sql_u64 (si_revision (subscription_identity s)) ''subscription.source_revision''
            \<noteq> Inr (sr_source_revision r)) \<Longrightarrow>
      \<exists>rows'. insert_subscription sm td rows s = Inr rows'"
  proof -
    assume ins: "subscription_insertable td s"
      and ids: "\<forall>r \<in> set rows. sr_snapshot_id r \<noteq> si_id (subscription_identity s)"
      and free: "\<forall>r \<in> set rows. sr_tenant_id r = sb_tenant_id s \<longrightarrow> \<not> sr_is_current r \<and>
        (sr_source_revision r \<noteq> None \<longrightarrow>
          opt_sql_u64 (si_revision (subscription_identity s)) ''subscription.source_revision''
            \<noteq> Inr (sr_source_revision r))"
    from ins obtain rv where e: "opt_sql_u64 (sb_source_revision s) ''subscription.source_revision'' = Inr rv"
      unfolding subscription_insertable_def using opt_sql_u64_succeeds [of "sb_source_revision s"] by meson
    have "\<not> list_ex (\<lambda>r. sr_snapshot_id r = sb_snapshot_id s) rows"
      using ids by (auto simp: list_ex_iff subscription_identity_def)
    moreover have "\<not> list_ex (\<lambda>r. sr_tenant_id r = sb_tenant_id s \<and> sr_is_current r) rows"
      using free by (auto simp: list_ex_iff)
    moreover have "rv \<noteq> None \<Longrightarrow> \<not> list_ex (\<lambda>r. sr_tenant_id r = sb_tenant_id s \<and> sr_source_revision r = rv) rows"
      using free e by (auto simp: list_ex_iff subscription_identity_def)
    ultimately show ?thesis using ins by (auto simp: insert_subscription_def e subscription_insertable_def)
  qed
qed ((auto simp: subscription_snapshot_equivalent_def subscription_identity_def)[13],
    unfold subscription_store_snapshot_def load_current_subscription_def load_subscription_by_id_def identity_ids, rule refl)

lemma grants_roundtrip:
  assumes "map_results (\<lambda>(_, g). encode_grant g) gs = Inr rows"
    and "\<forall>(k, g) \<in> set gs. k = eg_key g \<and> EntitlementKey_new k = Inr k"
  shows "map_results parse_grant_row rows = Inr gs"
  using assms(1) by (rule map_results_roundtrip) (use assms(2) in \<open>auto intro: grant_roundtrip\<close>)

lemma encode_grants_succeeds:
  assumes "\<forall>(k, g) \<in> set gs. (\<forall>v. eg_numeric_limit g = Some v \<longrightarrow> unat v \<le> i64_max)
          \<and> (\<forall>v. eg_source_revision g = Some v \<longrightarrow> unat v \<le> i64_max)"
  shows "\<exists>rows. map_results (\<lambda>(_, g). encode_grant g) gs = Inr rows"
proof (rule map_results_succeeds)
  fix x assume "x \<in> set gs"
  moreover obtain k g where "x = (k, g)" by (cases x)
  ultimately have "(k, g) \<in> set gs" by simp
  with assms obtain l r where "opt_sql_u64 (eg_numeric_limit g) ''entitlement.numeric_limit'' = Inr l"
    "opt_sql_u64 (eg_source_revision g) ''entitlement.grant_revision'' = Inr r"
    using opt_sql_u64_succeeds [of "eg_numeric_limit g"] opt_sql_u64_succeeds [of "eg_source_revision g"]
    by blast
  with \<open>x = (k, g)\<close> show "\<exists>y. (case x of (_, g) \<Rightarrow> encode_grant g) = Inr y"
    by (simp add: encode_grant_def)
qed

interpretation entitlements: snapshot_table er_snapshot_id er_tenant_id er_source_revision er_is_current
  "\<lambda>_. True" "\<lambda>r. r\<lparr>er_is_current := False\<rparr>" "\<lambda>t r. r\<lparr>er_stale_marked_at := t\<rparr>"
  parse_entitlement_raw "''entitlement.source_revision''" entitlement_identity es_tenant_id
  es_stale_marked_at entitlement_snapshot_equivalent entitlement_valid "entitlement_insertable td"
  "''entitlement''" "insert_entitlement sm td" "entitlement_store_snapshot sm td" for sm td
proof unfold_locales
  fix r s t and rows rows' :: "EntitlementRow list"
  show "parse_entitlement_raw r = Inr s \<Longrightarrow>
      \<exists>s'. parse_entitlement_raw (r\<lparr>er_stale_marked_at := t\<rparr>) = Inr s'
        \<and> entitlement_snapshot_equivalent s s' \<and> es_stale_marked_at s' = t"
    by (auto simp: parse_entitlement_raw_def and_then_Inr_iff entitlement_snapshot_equivalent_def)
  show "parse_entitlement_raw r = Inr s \<Longrightarrow> si_id (entitlement_identity s) = er_snapshot_id r
      \<and> es_tenant_id s = er_tenant_id r
      \<and> map_transpose (\<lambda>v. from_sql_u64 v ''entitlement.source_revision'') (er_source_revision r)
         = Inr (si_revision (entitlement_identity s))"
    by (auto simp: parse_entitlement_raw_def and_then_Inr_iff entitlement_identity_def id_new_defs
        EntitlementSnapshotId_new_def dest!: id_col_Inr)
  show "insert_entitlement sm td rows s = Inr rows' \<Longrightarrow> entitlement_valid s \<Longrightarrow> \<exists>r. rows' = rows @ [r]
      \<and> er_snapshot_id r = si_id (entitlement_identity s) \<and> er_tenant_id r = es_tenant_id s
      \<and> er_is_current r \<and> True
      \<and> opt_sql_u64 (si_revision (entitlement_identity s)) ''entitlement.source_revision'' = Inr (er_source_revision r)
      \<and> parse_entitlement_raw r = Inr s"
    by (auto simp: insert_entitlement_def and_then_Inr_iff entitlement_identity_def entitlement_valid_def
        parse_entitlement_raw_def id_new_defs EntitlementSnapshotId_new_def opt_sql_u64_roundtrip
        grants_roundtrip split: if_splits)
  show "entitlement_valid s \<Longrightarrow> entitlement_insertable td s \<Longrightarrow> \<forall>r \<in> set rows. True \<Longrightarrow>
      \<forall>r \<in> set rows. er_snapshot_id r \<noteq> si_id (entitlement_identity s) \<Longrightarrow>
      \<forall>r \<in> set rows. er_tenant_id r = es_tenant_id s \<longrightarrow> \<not> er_is_current r \<and>
        (er_source_revision r \<noteq> None \<longrightarrow>
          opt_sql_u64 (si_revision (entitlement_identity s)) ''entitlement.source_revision''
            \<noteq> Inr (er_source_revision r)) \<Longrightarrow>
      \<exists>rows'. insert_entitlement sm td rows s = Inr rows'"
  proof -
    assume ins: "entitlement_insertable td s"
      and ids: "\<forall>r \<in> set rows. er_snapshot_id r \<noteq> si_id (entitlement_identity s)"
      and free: "\<forall>r \<in> set rows. er_tenant_id r = es_tenant_id s \<longrightarrow> \<not> er_is_current r \<and>
        (er_source_revision r \<noteq> None \<longrightarrow>
          opt_sql_u64 (si_revision (entitlement_identity s)) ''entitlement.source_revision''
            \<noteq> Inr (er_source_revision r))"
    from ins obtain rv gs where e: "opt_sql_u64 (es_source_revision s) ''entitlement.source_revision'' = Inr rv"
      "map_results (\<lambda>(_, g). encode_grant g) (es_grants s) = Inr gs"
      unfolding entitlement_insertable_def
      using opt_sql_u64_succeeds [of "es_source_revision s"] encode_grants_succeeds [of "es_grants s"] by meson
    have "\<not> list_ex (\<lambda>r. er_snapshot_id r = es_snapshot_id s) rows"
      using ids by (auto simp: list_ex_iff entitlement_identity_def)
    moreover have "\<not> list_ex (\<lambda>r. er_tenant_id r = es_tenant_id s \<and> er_is_current r) rows"
      using free by (auto simp: list_ex_iff)
    moreover have "rv \<noteq> None \<Longrightarrow> \<not> list_ex (\<lambda>r. er_tenant_id r = es_tenant_id s \<and> er_source_revision r = rv) rows"
      using free e(1) by (auto simp: list_ex_iff entitlement_identity_def)
    ultimately show ?thesis using ins by (auto simp: insert_entitlement_def e entitlement_insertable_def)
  qed
qed ((auto simp: entitlement_snapshot_equivalent_def entitlement_identity_def)[13],
    unfold entitlement_store_snapshot_def load_current_entitlement_def load_entitlement_by_id_def identity_ids, rule refl)

lemma dimension_col_Inr: "id_col v UsageDimension_new = Inr u \<Longrightarrow> u = v"
  by (auto simp: id_col_def UsageDimension_new_def validate_machine_key_def split: sum.splits if_splits)

lemma quota_row_roundtrip:
  assumes "insert_quota sm td rows p = Inr rows'" and "quota_valid p"
  shows "\<exists>r. rows' = rows @ [r] \<and> qr_policy_id r = qp_policy_id p \<and> quota_row_scope r = quota_scope p
      \<and> qr_is_current r \<and> qr_workspace_id r \<noteq> Some []
      \<and> opt_sql_u64 (qp_source_revision p) ''quota.source_revision'' = Inr (qr_source_revision r)
      \<and> parse_quota_raw r = Inr p"
proof -
  from assms(1) obtain w limit allowance warning revision where
    e: "encode_window (qp_window p) = Inr w" "to_sql_u64 (qp_limit p) ''quota.limit'' = Inr limit"
      "opt_sql_u64 (qp_burst_allowance p) ''quota.burst_allowance'' = Inr allowance"
      "opt_sql_u64 (qp_warning_threshold p) ''quota.warning_threshold'' = Inr warning"
      "opt_sql_u64 (qp_source_revision p) ''quota.source_revision'' = Inr revision"
    and rows': "rows' = rows @ [
       \<lparr>qr_policy_id = qp_policy_id p, qr_tenant_id = qp_tenant_id p,
        qr_workspace_id = qp_workspace_id p, qr_dimension = qp_dimension p, qr_limit_value = limit,
        qr_window_kind = ew_kind w, qr_rolling_window_seconds = ew_rolling_seconds w,
        qr_external_start = ew_external_start w, qr_external_end = ew_external_end w,
        qr_limit_behavior = behavior_as_str (qp_behavior p), qr_burst_allowance = allowance,
        qr_warning_threshold = warning, qr_required_entitlement = qp_required_entitlement p,
        qr_authority = authority_as_str (qp_authority p),
        qr_source_of_truth = source_of_truth_as_str (qp_source_of_truth p),
        qr_source_revision = revision, qr_stale_marked_at = qp_stale_marked_at p,
        qr_is_current = True, qr_created_at = qp_created_at p\<rparr>]"
    by (auto simp: insert_quota_def and_then_Inr_iff split: if_splits)
  have ids: "map_transpose (\<lambda>v. id_col v WorkspaceId_new) (qp_workspace_id p) = Inr (qp_workspace_id p)"
    "map_transpose (\<lambda>v. id_col v EntitlementKey_new) (qp_required_entitlement p) = Inr (qp_required_entitlement p)"
    "id_col (qp_dimension p) UsageDimension_new = Inr (qp_dimension p)"
    "id_col (qp_policy_id p) QuotaPolicyId_new = Inr (qp_policy_id p)"
    "id_col (qp_tenant_id p) TenantId_new = Inr (qp_tenant_id p)"
    using assms(2) by (cases "qp_workspace_id p"; cases "qp_required_entitlement p";
        simp add: quota_valid_def id_new_defs QuotaPolicyId_new_def id_col_def opaque_id_new_def)+
  show ?thesis
    unfolding rows' using assms(2) ids window_roundtrip [OF e(1)] sql_u64_roundtrip [OF e(2)]
      e(3-5) [THEN opt_sql_u64_roundtrip] e(5)
    by (auto simp: parse_quota_raw_def quota_row_scope_def quota_scope_def quota_valid_def)
qed

interpretation quotas: snapshot_table qr_policy_id quota_row_scope qr_source_revision qr_is_current
  "\<lambda>r. qr_workspace_id r \<noteq> Some []" "\<lambda>r. r\<lparr>qr_is_current := False\<rparr>"
  "\<lambda>t r. r\<lparr>qr_stale_marked_at := t\<rparr>" parse_quota_raw "''quota.source_revision''" quota_identity
  quota_scope qp_stale_marked_at quota_policy_equivalent quota_valid "quota_insertable td"
  "''quota_policy''" "insert_quota sm td" "quota_store_policy sm td" for sm td
proof unfold_locales
  fix r s t and rows rows' :: "QuotaRow list"
  show "parse_quota_raw r = Inr s \<Longrightarrow>
      \<exists>s'. parse_quota_raw (r\<lparr>qr_stale_marked_at := t\<rparr>) = Inr s'
        \<and> quota_policy_equivalent s s' \<and> qp_stale_marked_at s' = t"
    by (auto simp: parse_quota_raw_def and_then_Inr_iff quota_policy_equivalent_def)
  show "parse_quota_raw r = Inr s \<Longrightarrow> si_id (quota_identity s) = qr_policy_id r
      \<and> quota_scope s = quota_row_scope r
      \<and> map_transpose (\<lambda>v. from_sql_u64 v ''quota.source_revision'') (qr_source_revision r)
         = Inr (si_revision (quota_identity s))"
    by (cases "qr_workspace_id r") (auto simp: parse_quota_raw_def and_then_Inr_iff quota_identity_def
        id_new_defs QuotaPolicyId_new_def quota_scope_def quota_row_scope_def
        dest!: id_col_Inr dimension_col_Inr)
  show "insert_quota sm td rows s = Inr rows' \<Longrightarrow> quota_valid s \<Longrightarrow> \<exists>r. rows' = rows @ [r]
      \<and> qr_policy_id r = si_id (quota_identity s) \<and> quota_row_scope r = quota_scope s
      \<and> qr_is_current r \<and> qr_workspace_id r \<noteq> Some []
      \<and> opt_sql_u64 (si_revision (quota_identity s)) ''quota.source_revision'' = Inr (qr_source_revision r)
      \<and> parse_quota_raw r = Inr s"
    using quota_row_roundtrip [of sm td rows s rows'] by (simp add: quota_identity_def)
  show "quota_valid s \<Longrightarrow> quota_insertable td s \<Longrightarrow> \<forall>r \<in> set rows. qr_workspace_id r \<noteq> Some [] \<Longrightarrow>
      \<forall>r \<in> set rows. qr_policy_id r \<noteq> si_id (quota_identity s) \<Longrightarrow>
      \<forall>r \<in> set rows. quota_row_scope r = quota_scope s \<longrightarrow> \<not> qr_is_current r \<and>
        (qr_source_revision r \<noteq> None \<longrightarrow>
          opt_sql_u64 (si_revision (quota_identity s)) ''quota.source_revision''
            \<noteq> Inr (qr_source_revision r)) \<Longrightarrow>
      \<exists>rows'. insert_quota sm td rows s = Inr rows'"
  proof -
    assume v: "quota_valid s" and ins: "quota_insertable td s"
      and ws: "\<forall>r \<in> set rows. qr_workspace_id r \<noteq> Some []"
      and ids: "\<forall>r \<in> set rows. qr_policy_id r \<noteq> si_id (quota_identity s)"
      and free: "\<forall>r \<in> set rows. quota_row_scope r = quota_scope s \<longrightarrow> \<not> qr_is_current r \<and>
        (qr_source_revision r \<noteq> None \<longrightarrow>
          opt_sql_u64 (si_revision (quota_identity s)) ''quota.source_revision'' \<noteq> Inr (qr_source_revision r))"
    have same: "index_scope (quota_row_scope r) = index_scope (quota_scope s) \<longleftrightarrow> quota_row_scope r = quota_scope s"
      if "r \<in> set rows" for r
      using v ws that unfolding quota_row_scope_def quota_scope_def quota_valid_def
      by (intro find_index_scope) auto
    from ins obtain w b wa rv where
      e: "encode_window (qp_window s) = Inr w" "to_sql_u64 (qp_limit s) ''quota.limit'' = Inr (uint (qp_limit s))"
      "opt_sql_u64 (qp_burst_allowance s) ''quota.burst_allowance'' = Inr b"
      "opt_sql_u64 (qp_warning_threshold s) ''quota.warning_threshold'' = Inr wa"
      "opt_sql_u64 (qp_source_revision s) ''quota.source_revision'' = Inr rv"
      unfolding quota_insertable_def to_sql_u64_def
      using opt_sql_u64_succeeds [of "qp_burst_allowance s"] opt_sql_u64_succeeds [of "qp_warning_threshold s"]
        opt_sql_u64_succeeds [of "qp_source_revision s"] by meson
    have "\<not> list_ex (\<lambda>r. qr_policy_id r = qp_policy_id s) rows"
      using ids by (auto simp: list_ex_iff quota_identity_def)
    moreover have "\<not> list_ex (\<lambda>r. index_scope (quota_row_scope r) = index_scope (quota_scope s) \<and> qr_is_current r) rows"
      using free same by (auto simp: list_ex_iff)
    moreover have "rv \<noteq> None \<Longrightarrow> \<not> list_ex (\<lambda>r. index_scope (quota_row_scope r) = index_scope (quota_scope s)
        \<and> qr_source_revision r = rv) rows"
      using free same e(5) by (auto simp: list_ex_iff quota_identity_def)
    moreover have "\<not> is_some_and (qp_workspace_id s) (\<lambda>v. \<not> workspace_in_tenant td v (qp_tenant_id s))"
      using ins by (auto simp: quota_insertable_def is_some_and_def split: option.splits)
    ultimately show ?thesis using ins by (auto simp: insert_quota_def e quota_insertable_def)
  qed
qed ((auto simp: quota_policy_equivalent_def quota_identity_def quota_row_scope_def quota_scope_def)[13],
    unfold quota_store_policy_def load_current_quota_def load_quota_by_id_def identity_ids, rule refl)

section \<open>Histories\<close>

text \<open>One step of a table: an error leaves it unchanged.\<close>
primrec subscription_step ::
  "(Violation \<Rightarrow> string) \<Rightarrow> tenancy_db \<Rightarrow> SubscriptionRow list \<Rightarrow> (SubscriptionState, string) snapshot_op
     \<Rightarrow> SubscriptionRow list" where
  "subscription_step sm td rows (ApplySnapshot s) = or_unchanged2 rows (subscription_apply_snapshot sm td rows s)"
| "subscription_step sm td rows (MarkStale k t) = fst (subscription_mark_current_stale rows k t)"

primrec entitlement_step ::
  "(Violation \<Rightarrow> string) \<Rightarrow> tenancy_db \<Rightarrow> EntitlementRow list \<Rightarrow> (EntitlementSnapshot, string) snapshot_op
     \<Rightarrow> EntitlementRow list" where
  "entitlement_step sm td rows (ApplySnapshot s) = or_unchanged2 rows (entitlement_apply_snapshot sm td rows s)"
| "entitlement_step sm td rows (MarkStale k t) = fst (entitlement_mark_current_stale rows k t)"

primrec quota_step ::
  "chrono \<Rightarrow> time \<Rightarrow> (Violation \<Rightarrow> string) \<Rightarrow> tenancy_db \<Rightarrow> QuotaRow list
     \<Rightarrow> (QuotaPolicy, string \<times> string option \<times> string) snapshot_op \<Rightarrow> QuotaRow list" where
  "quota_step ch now sm td rows (ApplySnapshot p) =
     (case quota_apply_policy ch now sm td rows p of None \<Rightarrow> rows | Some x \<Rightarrow> or_unchanged2 rows x)"
| "quota_step ch now sm td rows (MarkStale k t) = fst (quota_mark_current_stale rows k t)"

lemma or_unchanged2_cases:
  "or_unchanged2 rows x = rows \<or> (\<exists>out. x = Inr (or_unchanged2 rows x, out))"
  by (cases x) (auto simp: or_unchanged2_def)

interpretation subscription_hist: snapshot_history sr_snapshot_id sr_tenant_id sr_source_revision sr_is_current
  "\<lambda>_. True" "\<lambda>r. r\<lparr>sr_is_current := False\<rparr>" "\<lambda>t r. r\<lparr>sr_stale_marked_at := t\<rparr>"
  parse_subscription_raw "''subscription.source_revision''" subscription_identity sb_tenant_id
  sb_stale_marked_at subscription_snapshot_equivalent subscription_valid "subscription_insertable td"
  "''subscription''" "insert_subscription sm td" "subscription_store_snapshot sm td"
  "subscription_step sm td" for sm td
proof
  fix rows s k t
  show "subscription_step sm td rows (ApplySnapshot s) = rows
      \<or> (\<exists>out. subscription_store_snapshot sm td rows s = Inr (subscription_step sm td rows (ApplySnapshot s), out))"
    using or_unchanged2_cases [of rows "subscription_apply_snapshot sm td rows s"]
    by (auto simp: subscription_apply_snapshot_def and_then_Inr_iff)
qed (simp add: subscription_mark_current_stale_def)

interpretation entitlement_hist: snapshot_history er_snapshot_id er_tenant_id er_source_revision er_is_current
  "\<lambda>_. True" "\<lambda>r. r\<lparr>er_is_current := False\<rparr>" "\<lambda>t r. r\<lparr>er_stale_marked_at := t\<rparr>"
  parse_entitlement_raw "''entitlement.source_revision''" entitlement_identity es_tenant_id
  es_stale_marked_at entitlement_snapshot_equivalent entitlement_valid "entitlement_insertable td"
  "''entitlement''" "insert_entitlement sm td" "entitlement_store_snapshot sm td"
  "entitlement_step sm td" for sm td
proof
  fix rows s k t
  show "entitlement_step sm td rows (ApplySnapshot s) = rows
      \<or> (\<exists>out. entitlement_store_snapshot sm td rows s = Inr (entitlement_step sm td rows (ApplySnapshot s), out))"
    using or_unchanged2_cases [of rows "entitlement_apply_snapshot sm td rows s"]
    by (auto simp: entitlement_apply_snapshot_def and_then_Inr_iff)
qed (simp add: entitlement_mark_current_stale_def)

interpretation quota_hist: snapshot_history qr_policy_id quota_row_scope qr_source_revision qr_is_current
  "\<lambda>r. qr_workspace_id r \<noteq> Some []" "\<lambda>r. r\<lparr>qr_is_current := False\<rparr>"
  "\<lambda>t r. r\<lparr>qr_stale_marked_at := t\<rparr>" parse_quota_raw "''quota.source_revision''" quota_identity
  quota_scope qp_stale_marked_at quota_policy_equivalent quota_valid "quota_insertable td"
  "''quota_policy''" "insert_quota sm td" "quota_store_policy sm td" "quota_step ch now sm td" for ch now sm td
proof
  fix rows p k t
  show "quota_step ch now sm td rows (ApplySnapshot p) = rows
      \<or> (\<exists>out. quota_store_policy sm td rows p = Inr (quota_step ch now sm td rows (ApplySnapshot p), out))"
  proof (cases "quota_apply_policy ch now sm td rows p")
    case (Some x)
    with or_unchanged2_cases [of rows x] show ?thesis
      by (auto simp: quota_apply_policy_def and_then_Inr_iff)
  qed simp
qed (simp add: quota_mark_current_stale_def)

lemma current_of_tables:
  "subscriptions.current_of rows k = load_current_subscription rows k"
  "entitlements.current_of erows k = load_current_entitlement erows k"
  "quotas.current_of qrows q = load_current_quota qrows q"
  by (simp_all add: subscriptions.current_of_def entitlements.current_of_def quotas.current_of_def
      load_current_subscription_def load_current_entitlement_def load_current_quota_def)

definition subscriptions_ok :: "SubscriptionRow list \<Rightarrow> bool" where
  "subscriptions_ok = versions_ok_of sr_snapshot_id sr_tenant_id sr_source_revision sr_is_current (\<lambda>_. True)"

definition entitlements_ok :: "EntitlementRow list \<Rightarrow> bool" where
  "entitlements_ok = versions_ok_of er_snapshot_id er_tenant_id er_source_revision er_is_current (\<lambda>_. True)"

definition quotas_ok :: "QuotaRow list \<Rightarrow> bool" where
  "quotas_ok = versions_ok_of qr_policy_id quota_row_scope qr_source_revision qr_is_current
     (\<lambda>r. qr_workspace_id r \<noteq> Some [])"

text \<open>
  C11: Histories of the three snapshot tables. Whatever sequence of snapshots (late, repeated,
  conflicting, malformed) and stale marks a table sees, it keeps exactly one current row for every
  scope that has rows, unique revisions, and the newest revision current; and the current snapshot
  of a scope only ever advances: an authoritative one is never replaced by a provisional one, and
  its revision never decreases or disappears.
\<close>
theorem snapshot_histories_safe:
  "(subscriptions_ok rows \<and> list_all (op_ok subscription_valid) ops \<longrightarrow>
      subscriptions_ok (foldl (subscription_step sm td) rows ops)
      \<and> (\<forall>k a. load_current_subscription rows k = Inr (Some a) \<longrightarrow>
          (\<exists>b. load_current_subscription (foldl (subscription_step sm td) rows ops) k = Inr (Some b)
             \<and> identity_advances (subscription_identity a) (subscription_identity b))))
   \<and> (entitlements_ok erows \<and> list_all (op_ok entitlement_valid) eops \<longrightarrow>
      entitlements_ok (foldl (entitlement_step sm td) erows eops)
      \<and> (\<forall>k a. load_current_entitlement erows k = Inr (Some a) \<longrightarrow>
          (\<exists>b. load_current_entitlement (foldl (entitlement_step sm td) erows eops) k = Inr (Some b)
             \<and> identity_advances (entitlement_identity a) (entitlement_identity b))))
   \<and> (quotas_ok qrows \<and> list_all (op_ok quota_valid) qops \<longrightarrow>
      quotas_ok (foldl (quota_step ch now sm td) qrows qops)
      \<and> (\<forall>k a. load_current_quota qrows k = Inr (Some a) \<longrightarrow>
          (\<exists>b. load_current_quota (foldl (quota_step ch now sm td) qrows qops) k = Inr (Some b)
             \<and> identity_advances (quota_identity a) (quota_identity b))))"
  using subscription_hist.history_safe [of rows ops sm td] entitlement_hist.history_safe [of erows eops sm td]
    quota_hist.history_safe [of qrows qops ch now sm td]
  unfolding current_of_tables subscriptions_ok_def entitlements_ok_def quotas_ok_def by blast

text \<open>
  A newer snapshot always gets through. In a table that satisfies the invariant, a valid
  entitlement snapshot of a known tenant, with an identifier not used before, which is newer than
  the current one (or the first), is applied and becomes the current snapshot: none of the unique
  indexes can refuse it.
\<close>
theorem newer_entitlements_become_current:
  assumes "entitlements_ok rows" and "entitlement_valid s" and "entitlement_insertable td s"
    and "validate_entitlement_snapshot s = Inr ()"
    and "\<forall>r \<in> set rows. er_snapshot_id r \<noteq> es_snapshot_id s"
    and "load_current_entitlement rows (es_tenant_id s) = Inr None
       \<or> (\<exists>c. load_current_entitlement rows (es_tenant_id s) = Inr (Some c)
            \<and> snapshot_order (entitlement_identity c) (entitlement_identity s) = SnapshotNewer)"
  shows "\<exists>rows'. entitlement_apply_snapshot sm td rows s = Inr (rows', SnapshotApplied)
    \<and> load_current_entitlement rows' (es_tenant_id s) = Inr (Some s)"
proof -
  have "entitlements.newer_than_current rows s"
    using assms(6) by (auto simp: entitlements.newer_than_current_def current_of_tables)
  with assms obtain rows' where st: "entitlement_store_snapshot sm td rows s = Inr (rows', SnapshotApplied)"
    using entitlements.newer_is_applied [of rows s td sm]
    by (auto simp: entitlements_ok_def identity_ids)
  with assms(4) have "entitlement_apply_snapshot sm td rows s = Inr (rows', SnapshotApplied)"
    by (simp add: entitlement_apply_snapshot_def)
  with entitlements.applied_is_current [OF assms(2) st] show ?thesis by (auto simp: current_of_tables)
qed

text \<open>
  Marking is effective. After \<open>mark_current_stale\<close> the current entitlement snapshot of the tenant
  grants nothing: every gate, limit and value read from it is reported as stale, whatever the key,
  the time and the staleness allowance.
\<close>
theorem stale_mark_grants_nothing:
  assumes "load_current_entitlement rows tid = Inr (Some a)"
    and "entitlement_mark_current_stale rows tid marked_at = (rows', changed)"
  shows "changed \<and> (\<exists>b. load_current_entitlement rows' tid = Inr (Some b)
    \<and> entitlement_snapshot_equivalent a b \<and> es_stale_marked_at b = Some marked_at
    \<and> access_gate b key at stale_after = StaleUntrusted
    \<and> numeric_limit b key at stale_after = StaleUntrusted
    \<and> string_value b key at stale_after = StaleUntrusted)"
proof -
  let ?P = "\<lambda>r. er_tenant_id r = tid \<and> er_is_current r"
  from assms(1) obtain r where r: "find ?P rows = Some r" "parse_entitlement_raw r = Inr a"
    by (auto simp: load_current_entitlement_def load_where_def map_transpose_def and_then_Inr_iff
        split: option.splits)
  then have c: changed using assms(2)
    by (auto simp: entitlement_mark_current_stale_def list_ex_iff find_Some_iff dest: nth_mem)
  have "find ?P (update_where ?P (\<lambda>r. r\<lparr>er_stale_marked_at := Some marked_at\<rparr>) rows)
      = Some (r\<lparr>er_stale_marked_at := Some marked_at\<rparr>)"
    using r(1) by (induction rows) (auto simp: update_where_def split: if_splits)
  moreover obtain b where "parse_entitlement_raw (r\<lparr>er_stale_marked_at := Some marked_at\<rparr>) = Inr b"
    "entitlement_snapshot_equivalent a b" "es_stale_marked_at b = Some marked_at"
    using entitlements.parse_stamp [OF r(2), of "Some marked_at"] by blast
  ultimately show ?thesis using c assms(2)
    by (auto simp: entitlement_mark_current_stale_def load_current_entitlement_def load_where_def
        access_gate_def feature_enabled_def numeric_limit_def string_value_def resolve_grant_def
        entitlement_is_stale_def)
qed

text \<open>
  A provisional snapshot that carries a revision outranks authoritative ones with a lower revision:
  the server snapshot is ignored as older.
\<close>
theorem provisional_revision_outranks:
  assumes "si_id c \<noteq> si_id i" and "si_authority c = LocalProvisional" and "si_authority i = Authoritative"
    and "si_revision c = Some 5" and "si_revision i = Some 3"
  shows "snapshot_order c i = SnapshotOlder"
  using assms by (simp add: snapshot_order_def)

definition example_row :: EntitlementRow where
  "example_row = \<lparr>er_snapshot_id = ''s3'', er_tenant_id = ''t1'', er_source_revision = Some 3,
     er_last_synced_at = 100, er_authority = ''authoritative'', er_stale_marked_at = None,
     er_is_current = True, er_grants = []\<rparr>"

definition example_snapshot :: "string \<Rightarrow> RemoteRevision \<Rightarrow> SnapshotAuthority \<Rightarrow> EntitlementSnapshot" where
  "example_snapshot sid rv auth = \<lparr>es_snapshot_id = sid, es_tenant_id = ''t1'', es_grants = [],
     es_source_revision = Some rv, es_last_synced_at = 100, es_authority = auth,
     es_stale_marked_at = None\<rparr>"

lemma trim_s: "trim (CHR ''s'' # r) \<noteq> []"
  by (rule trim_not_Nil [of "CHR ''s''"]) (simp_all add: graphic_def code_def)

lemma example_row_ok: "entitlements_ok [example_row]"
  by (simp add: entitlements_ok_def versions_ok_of_def example_row_def rev_in_range_def i64_max_def
      rev_newer_def)

lemma example_parse: "parse_entitlement_raw example_row = Inr (example_snapshot ''s3'' 3 Authoritative)"
  by (simp add: parse_entitlement_raw_def example_row_def example_snapshot_def id_new_defs trim_s
      trim_example_id EntitlementSnapshotId_new_def from_sql_u64_def parse_authority_def)

lemma example_current:
  "load_current_entitlement [example_row] ''t1'' = Inr (Some (example_snapshot ''s3'' 3 Authoritative))"
  by (simp add: load_current_entitlement_def load_where_def example_parse)
     (simp add: example_row_def)

lemma example_valid: "entitlement_valid (example_snapshot (CHR ''s'' # r) rv auth)"
  by (simp add: entitlement_valid_def example_snapshot_def trim_s trim_example_id)

theorem snapshot_histories_safe_witness:
  "\<exists>b. load_current_entitlement
       (foldl (entitlement_step (\<lambda>_. []) empty_tenancy) [example_row]
          [ApplySnapshot (example_snapshot ''s9'' 9 LocalProvisional), MarkStale ''t1'' 7,
           ApplySnapshot (example_snapshot ''s2'' 2 Authoritative)]) ''t1'' = Inr (Some b)
     \<and> es_authority b = Authoritative"
proof -
  let ?ops = "[ApplySnapshot (example_snapshot ''s9'' 9 LocalProvisional), MarkStale ''t1'' 7,
           ApplySnapshot (example_snapshot ''s2'' 2 Authoritative)] :: (EntitlementSnapshot, string) snapshot_op list"
  have "list_all (op_ok entitlement_valid) ?ops" by (simp add: example_valid)
  with snapshot_histories_safe [of "[]" "[]" "\<lambda>_. []" empty_tenancy "[example_row]" ?ops "[]" "[]" toy_calendar 0]
    example_row_ok example_current
  obtain b where "load_current_entitlement (foldl (entitlement_step (\<lambda>_. []) empty_tenancy) [example_row] ?ops) ''t1'' = Inr (Some b)"
    and "identity_advances (entitlement_identity (example_snapshot ''s3'' 3 Authoritative)) (entitlement_identity b)"
    by blast
  then show ?thesis
    by (auto simp: identity_advances_def entitlement_identity_def example_snapshot_def)
qed

definition example_tenancy :: tenancy_db where
  "example_tenancy = empty_tenancy\<lparr>tenants := [\<lparr>tr_tenant_id = ''t1'', tr_display_name = ''Acme'',
     tr_status = ''active'', tr_source_of_truth = ''remote'', tr_created_at = 0,
     tr_updated_at = 5, tr_remote_revision = Some 3, tr_suspension_reason = None\<rparr>]\<rparr>"

theorem newer_entitlements_become_current_witness:
  "\<exists>rows'. entitlement_apply_snapshot (\<lambda>_. []) example_tenancy [example_row] (example_snapshot ''s4'' 4 Authoritative)
       = Inr (rows', SnapshotApplied)
     \<and> load_current_entitlement rows' ''t1'' = Inr (Some (example_snapshot ''s4'' 4 Authoritative))"
proof -
  let ?s = "example_snapshot ''s4'' 4 Authoritative"
  have t: "es_tenant_id ?s = ''t1''" by (simp add: example_snapshot_def)
  have "entitlement_insertable example_tenancy ?s"
    by (simp add: entitlement_insertable_def example_snapshot_def example_tenancy_def i64_max_def
        sql_nonblank_def tenant_exists_def has_row_def)
  moreover have "validate_entitlement_snapshot ?s = Inr ()"
    by (simp add: validate_entitlement_snapshot_def example_snapshot_def)
  moreover have "\<forall>r \<in> set [example_row]. er_snapshot_id r \<noteq> es_snapshot_id ?s"
    by (simp add: example_row_def example_snapshot_def)
  moreover have "snapshot_order (entitlement_identity (example_snapshot ''s3'' 3 Authoritative))
      (entitlement_identity ?s) = SnapshotNewer"
    by (simp add: snapshot_order_def entitlement_identity_def example_snapshot_def)
  ultimately show ?thesis
    using newer_entitlements_become_current [of "[example_row]" ?s example_tenancy "\<lambda>_. []"]
      example_row_ok example_valid example_current unfolding t by blast
qed

theorem stale_mark_grants_nothing_witness:
  "\<exists>b. load_current_entitlement (fst (entitlement_mark_current_stale [example_row] ''t1'' 50)) ''t1'' = Inr (Some b)
     \<and> access_gate b ''pro'' 60 1000 = StaleUntrusted"
  using stale_mark_grants_nothing [OF example_current, of 50
      "fst (entitlement_mark_current_stale [example_row] ''t1'' 50)"
      "snd (entitlement_mark_current_stale [example_row] ''t1'' 50)" "''pro''" 60 1000] by auto

end
