(* ===== verification/Saas_Ledger.thy ===== *)
theory Saas_Ledger
  imports Saas_Snapshots
begin

text \<open>
  The usage ledger (\<open>UsageLedgerRepository\<close> of \<open>storage/saas.rs\<close>): appending an event under its
  idempotency key, the bound on adjustment credits, reading events back and aggregating them, on the
  rows of \<open>saas_usage_events\<close> with the constraints and the trigger of migration V013.

  \<open>enc\<close> and \<open>dec\<close> are the JSON printer and reader of \<open>serde_json\<close> for usage metadata. \<open>sm\<close> is the text
  SQLite reports for a violated constraint, as in \<open>Saas_Records\<close>.
\<close>

section \<open>Rows\<close>

record UsageRow =
  ur_usage_event_id :: string
  ur_tenant_id :: string
  ur_workspace_id :: "string option"
  ur_actor_id :: "string option"
  ur_dimension :: string
  ur_quantity :: int
  ur_event_kind :: string
  ur_occurred_at :: time
  ur_recorded_at :: time
  ur_operation_id :: "string option"
  ur_correlation_id :: "string option"
  ur_idempotency_key :: string
  ur_source :: string
  ur_adjusts_usage_event_id :: "string option"
  ur_metadata_json :: string

definition parse_usage_raw ::
  "(metadata_map \<Rightarrow> string option) \<Rightarrow> (string \<Rightarrow> metadata_map option) \<Rightarrow> UsageRow \<Rightarrow> UsageEvent db_result" where
  "parse_usage_raw enc dec r =
     and_then (case dec (ur_metadata_json r) of
         None \<Rightarrow> Inl (Domain (DatabaseInitFailed ''invalid bounded usage metadata JSON''))
       | Some v \<Rightarrow> Inr v) (\<lambda>values.
     and_then (id_col (ur_usage_event_id r) UsageEventId_new) (\<lambda>eid.
     and_then (id_col (ur_tenant_id r) TenantId_new) (\<lambda>tid.
     and_then (map_transpose (\<lambda>v. id_col v WorkspaceId_new) (ur_workspace_id r)) (\<lambda>wid.
     and_then (map_transpose (\<lambda>v. id_col v ActorId_new) (ur_actor_id r)) (\<lambda>aid.
     and_then (id_col (ur_dimension r) UsageDimension_new) (\<lambda>dimension.
     and_then (from_sql_u64 (ur_quantity r) ''usage.quantity'') (\<lambda>quantity.
     and_then (parse_usage_kind (ur_event_kind r)) (\<lambda>kind.
     and_then (map_transpose (\<lambda>v. id_col v OperationId_new) (ur_operation_id r)) (\<lambda>operation.
     and_then (map_transpose (\<lambda>v. id_col v CorrelationId_new) (ur_correlation_id r)) (\<lambda>correlation.
     and_then (id_col (ur_idempotency_key r) IdempotencyKey_new) (\<lambda>key.
     and_then (parse_usage_source (ur_source r)) (\<lambda>source.
     and_then (map_transpose (\<lambda>v. id_col v UsageEventId_new) (ur_adjusts_usage_event_id r)) (\<lambda>adjusts.
     and_then (case UsageMetadata_new enc values of Inl e \<Rightarrow> Inl (domain_db_error e) | Inr m \<Rightarrow> Inr m) (\<lambda>metadata.
     Inr \<lparr>ue_usage_event_id = eid, ue_tenant_id = tid, ue_workspace_id = wid, ue_actor_id = aid,
          ue_dimension = dimension, ue_quantity = quantity, ue_kind = kind,
          ue_occurred_at = ur_occurred_at r, ue_recorded_at = ur_recorded_at r,
          ue_operation_id = operation, ue_correlation_id = correlation, ue_idempotency_key = key,
          ue_source = source, ue_adjusts_usage_event_id = adjusts, ue_metadata = metadata\<rparr>))))))))))))))"

definition load_usage_by_id ::
  "(metadata_map \<Rightarrow> string option) \<Rightarrow> (string \<Rightarrow> metadata_map option) \<Rightarrow> UsageRow list \<Rightarrow> string
     \<Rightarrow> UsageEvent option db_result" where
  "load_usage_by_id enc dec rows eid =
     load_where (\<lambda>r. ur_usage_event_id r = eid) (parse_usage_raw enc dec) rows"

definition load_usage_by_idempotency ::
  "(metadata_map \<Rightarrow> string option) \<Rightarrow> (string \<Rightarrow> metadata_map option) \<Rightarrow> UsageRow list
     \<Rightarrow> string \<Rightarrow> string \<Rightarrow> string \<Rightarrow> UsageEvent option db_result" where
  "load_usage_by_idempotency enc dec rows tenant dimension key =
     load_where (\<lambda>r. ur_tenant_id r = tenant \<and> ur_dimension r = dimension \<and> ur_idempotency_key r = key)
       (parse_usage_raw enc dec) rows"

definition get_event ::
  "(metadata_map \<Rightarrow> string option) \<Rightarrow> (string \<Rightarrow> metadata_map option) \<Rightarrow> UsageRow list \<Rightarrow> string
     \<Rightarrow> UsageEvent option result" where
  "get_event enc dec rows eid = from_db (load_usage_by_id enc dec rows eid)"

section \<open>Appending\<close>

datatype UsageAppendOutcome = Inserted UsageEvent | Existing UsageEvent

definition usage_mutation_equivalent :: "UsageEvent \<Rightarrow> UsageEvent \<Rightarrow> bool" where
  "usage_mutation_equivalent a b \<longleftrightarrow>
     ue_tenant_id a = ue_tenant_id b \<and> ue_workspace_id a = ue_workspace_id b
     \<and> ue_actor_id a = ue_actor_id b \<and> ue_dimension a = ue_dimension b
     \<and> ue_quantity a = ue_quantity b \<and> ue_kind a = ue_kind b
     \<and> ue_occurred_at a = ue_occurred_at b \<and> ue_operation_id a = ue_operation_id b
     \<and> ue_source a = ue_source b \<and> ue_adjusts_usage_event_id a = ue_adjusts_usage_event_id b
     \<and> ue_metadata a = ue_metadata b"

definition credit_rows :: "UsageRow list \<Rightarrow> string \<Rightarrow> UsageRow list" where
  "credit_rows rows original =
     filter (\<lambda>r. ur_event_kind r = ''adjustment_credit'' \<and> ur_adjusts_usage_event_id r = Some original) rows"

definition validate_adjustment_credit ::
  "(metadata_map \<Rightarrow> string option) \<Rightarrow> (string \<Rightarrow> metadata_map option) \<Rightarrow> UsageRow list \<Rightarrow> UsageEvent
     \<Rightarrow> unit db_result" where
  "validate_adjustment_credit enc dec rows ev =
     (if ue_kind ev \<noteq> AdjustmentCredit then Inr ()
      else case ue_adjusts_usage_event_id ev of
        None \<Rightarrow> Inl (Domain (Invariant ''adjustment credit requires an original usage event''))
      | Some original_id \<Rightarrow>
          and_then (load_usage_by_id enc dec rows original_id) (\<lambda>found. case found of
            None \<Rightarrow> Inl (Domain (Invariant ''adjustment credit references a missing usage event''))
          | Some original \<Rightarrow>
              if ue_kind original \<noteq> Consumption \<or> ue_tenant_id original \<noteq> ue_tenant_id ev
                 \<or> ue_workspace_id original \<noteq> ue_workspace_id ev
                 \<or> ue_dimension original \<noteq> ue_dimension ev
              then Inl (Domain (Invariant ''adjustment credit must reference consumption in the same tenant, workspace, and dimension''))
              else
                and_then (sql_sum 0 (map ur_quantity (credit_rows rows original_id))) (\<lambda>credited_sql.
                and_then (from_sql_u64 credited_sql ''usage.adjustment_credits'') (\<lambda>credited.
                case checked_add credited (ue_quantity ev) of
                  None \<Rightarrow> Inl (Domain (Invariant ''usage adjustment arithmetic overflow''))
                | Some projected \<Rightarrow>
                    if projected > ue_quantity original
                    then Inl (Domain (Invariant ''usage adjustment would underflow the original consumption''))
                    else Inr ()))))"

text \<open>The condition of the trigger \<open>trg_saas_usage_adjustment_same_scope\<close>.\<close>
definition adjustment_same_scope :: "UsageRow list \<Rightarrow> UsageRow \<Rightarrow> bool" where
  "adjustment_same_scope rows n \<longleftrightarrow>
     ur_event_kind n = ''adjustment_credit'' \<longrightarrow>
     list_ex (\<lambda>o'. Some (ur_usage_event_id o') = ur_adjusts_usage_event_id n
        \<and> ur_tenant_id o' = ur_tenant_id n \<and> ur_dimension o' = ur_dimension n
        \<and> ur_workspace_id o' = ur_workspace_id n \<and> ur_event_kind o' = ''consumption'') rows"

text \<open>\<open>INSERT INTO saas_usage_events\<close>: the trigger, the checks, the unique keys, the foreign keys.\<close>
definition insert_usage_row ::
  "(Violation \<Rightarrow> string) \<Rightarrow> tenancy_db \<Rightarrow> UsageRow list \<Rightarrow> UsageRow \<Rightarrow> UsageRow list db_result" where
  "insert_usage_row sm td rows n =
     (if \<not> adjustment_same_scope rows n
      then Inl (Sqlite ''usage adjustment must reference consumption in same tenant, workspace, and dimension'')
      else if \<not> sql_nonblank (ur_usage_event_id n) \<or> \<not> sql_nonblank (ur_idempotency_key n)
         \<or> is_some_and (ur_operation_id n) (\<lambda>v. \<not> sql_nonblank v)
         \<or> is_some_and (ur_correlation_id n) (\<lambda>v. \<not> sql_nonblank v)
      then Inl (Sqlite (sm CheckFailed))
      else if list_ex (\<lambda>r. ur_usage_event_id r = ur_usage_event_id n) rows
         \<or> list_ex (\<lambda>r. ur_tenant_id r = ur_tenant_id n \<and> ur_dimension r = ur_dimension n
                        \<and> ur_idempotency_key r = ur_idempotency_key n) rows
      then Inl (Sqlite (sm UniqueFailed))
      else if \<not> tenant_exists td (ur_tenant_id n)
         \<or> is_some_and (ur_workspace_id n) (\<lambda>v. \<not> workspace_in_tenant td v (ur_tenant_id n))
         \<or> is_some_and (ur_actor_id n) (\<lambda>v. \<not> actor_exists td v)
         \<or> is_some_and (ur_adjusts_usage_event_id n)
             (\<lambda>v. \<not> list_ex (\<lambda>r. ur_usage_event_id r = v) rows)
      then Inl (Sqlite (sm ForeignKeyFailed))
      else Inr (rows @ [n]))"

definition encode_usage :: "int \<Rightarrow> string \<Rightarrow> UsageEvent \<Rightarrow> UsageRow" where
  "encode_usage quantity metadata_json ev =
     \<lparr>ur_usage_event_id = ue_usage_event_id ev, ur_tenant_id = ue_tenant_id ev,
      ur_workspace_id = ue_workspace_id ev, ur_actor_id = ue_actor_id ev,
      ur_dimension = ue_dimension ev, ur_quantity = quantity,
      ur_event_kind = usage_kind_as_str (ue_kind ev), ur_occurred_at = ue_occurred_at ev,
      ur_recorded_at = ue_recorded_at ev, ur_operation_id = ue_operation_id ev,
      ur_correlation_id = ue_correlation_id ev, ur_idempotency_key = ue_idempotency_key ev,
      ur_source = usage_source_as_str (ue_source ev),
      ur_adjusts_usage_event_id = ue_adjusts_usage_event_id ev, ur_metadata_json = metadata_json\<rparr>"

text \<open>The transaction of \<open>append\<close>.\<close>
definition usage_store ::
  "(metadata_map \<Rightarrow> string option) \<Rightarrow> (string \<Rightarrow> metadata_map option) \<Rightarrow> (Violation \<Rightarrow> string) \<Rightarrow> tenancy_db
     \<Rightarrow> UsageRow list \<Rightarrow> UsageEvent \<Rightarrow> (UsageRow list \<times> UsageAppendOutcome) db_result" where
  "usage_store enc dec sm td rows ev =
     and_then (load_usage_by_idempotency enc dec rows (ue_tenant_id ev) (ue_dimension ev)
                 (ue_idempotency_key ev)) (\<lambda>existing. case existing of
       Some x \<Rightarrow>
         if usage_mutation_equivalent x ev then Inr (rows, Existing x)
         else Inl (Domain (UsageIdempotencyConflict (ue_tenant_id ev) (ue_dimension ev)))
     | None \<Rightarrow>
         and_then (validate_adjustment_credit enc dec rows ev) (\<lambda>_.
         and_then (case UsageMetadata_to_json enc (ue_metadata ev) of
             Inl e \<Rightarrow> Inl (domain_db_error e) | Inr s \<Rightarrow> Inr s) (\<lambda>metadata_json.
         and_then (to_sql_u64 (ue_quantity ev) ''usage.quantity'') (\<lambda>quantity.
         and_then (insert_usage_row sm td rows (encode_usage quantity metadata_json ev)) (\<lambda>rows'.
         Inr (rows', Inserted ev))))))"

definition usage_append ::
  "(metadata_map \<Rightarrow> string option) \<Rightarrow> (string \<Rightarrow> metadata_map option) \<Rightarrow> (Violation \<Rightarrow> string) \<Rightarrow> tenancy_db
     \<Rightarrow> UsageRow list \<Rightarrow> UsageEvent \<Rightarrow> (UsageRow list \<times> UsageAppendOutcome) result" where
  "usage_append enc dec sm td rows ev =
     and_then (case usage_event_validate ev of Inl e \<Rightarrow> Inl (domain_error e) | Inr v \<Rightarrow> Inr v) (\<lambda>_.
     and_then (from_db (to_sql_u64 (ue_quantity ev) ''usage.quantity'')) (\<lambda>_.
     and_then (case UsageMetadata_to_json enc (ue_metadata ev) of
         Inl e \<Rightarrow> Inl (domain_error e) | Inr s \<Rightarrow> Inr s) (\<lambda>_.
     from_db (usage_store enc dec sm td rows ev))))"

section \<open>Aggregating\<close>

definition in_window :: "string \<Rightarrow> string option \<Rightarrow> string \<Rightarrow> time option \<Rightarrow> time option \<Rightarrow> UsageRow \<Rightarrow> bool" where
  "in_window tenant workspace dimension start stop r \<longleftrightarrow>
     ur_tenant_id r = tenant \<and> ur_dimension r = dimension
     \<and> (workspace = None \<or> ur_workspace_id r = workspace)
     \<and> (case start of None \<Rightarrow> True | Some s \<Rightarrow> s \<le> ur_occurred_at r)
     \<and> (case stop of None \<Rightarrow> True | Some e \<Rightarrow> ur_occurred_at r < e)"

definition sum_kind :: "string \<Rightarrow> UsageRow list \<Rightarrow> int db_result" where
  "sum_kind kind rows = sql_sum 0 (map (\<lambda>r. if ur_event_kind r = kind then ur_quantity r else 0) rows)"

definition usage_aggregate ::
  "UsageRow list \<Rightarrow> string \<Rightarrow> string option \<Rightarrow> string \<Rightarrow> time option \<Rightarrow> time option
     \<Rightarrow> UsageAggregation result" where
  "usage_aggregate rows tenant workspace dimension start stop =
     (let selected = filter (in_window tenant workspace dimension start stop) rows in
      from_db (
        and_then (sum_kind ''consumption'' selected) (\<lambda>consumed_sql.
        and_then (sum_kind ''adjustment_credit'' selected) (\<lambda>credited_sql.
        and_then (from_sql_u64 consumed_sql ''usage.aggregate.consumed'') (\<lambda>consumed.
        and_then (from_sql_u64 credited_sql ''usage.aggregate.credited'') (\<lambda>credited.
        Inr \<lparr>ag_consumed = consumed, ag_credited = credited\<rparr>))))))"

section \<open>The ledger as a list of events\<close>

text \<open>
  Metadata is a \<open>BTreeMap\<close>: its entries are listed in strictly increasing key order. \<open>event_typed\<close>
  is what the Rust types of an event's fields guarantee, \<open>json_law\<close> what is relied on of
  \<open>serde_json\<close>: reading printed metadata gives it back.
\<close>
definition btree :: "metadata_map \<Rightarrow> bool" where
  "btree m \<longleftrightarrow> sorted_wrt (\<lambda>a b. ord_class.lexordp (map code a) (map code b)) (map fst m)"

definition json_law :: "(metadata_map \<Rightarrow> string option) \<Rightarrow> (string \<Rightarrow> metadata_map option) \<Rightarrow> bool" where
  "json_law enc dec \<longleftrightarrow> (\<forall>m s. btree m \<and> enc m = Some s \<longrightarrow> dec s = Some m)"

definition opt_nonblank :: "string option \<Rightarrow> bool" where
  "opt_nonblank v \<longleftrightarrow> (\<forall>s. v = Some s \<longrightarrow> trim s \<noteq> [])"

definition event_typed :: "(metadata_map \<Rightarrow> string option) \<Rightarrow> UsageEvent \<Rightarrow> bool" where
  "event_typed enc e \<longleftrightarrow>
     trim (ue_usage_event_id e) \<noteq> [] \<and> trim (ue_tenant_id e) \<noteq> [] \<and> opt_nonblank (ue_workspace_id e)
     \<and> opt_nonblank (ue_actor_id e) \<and> UsageDimension_new (ue_dimension e) = Inr (ue_dimension e)
     \<and> opt_nonblank (ue_operation_id e) \<and> opt_nonblank (ue_correlation_id e)
     \<and> trim (ue_idempotency_key e) \<noteq> [] \<and> opt_nonblank (ue_adjusts_usage_event_id e)
     \<and> UsageMetadata_new enc (ue_metadata e) = Inr (ue_metadata e) \<and> btree (ue_metadata e)"

definition recordable :: "(metadata_map \<Rightarrow> string option) \<Rightarrow> UsageEvent \<Rightarrow> bool" where
  "recordable enc e \<longleftrightarrow>
     event_typed enc e \<and> usage_event_validate e = Inr () \<and> unat (ue_quantity e) \<le> i64_max"

definition usage_row :: "(metadata_map \<Rightarrow> string option) \<Rightarrow> UsageEvent \<Rightarrow> UsageRow" where
  "usage_row enc e = encode_usage (uint (ue_quantity e)) (the (enc (ue_metadata e))) e"

definition credited :: "UsageEvent list \<Rightarrow> string \<Rightarrow> nat" where
  "credited es i = sum_list (map (unat \<circ> ue_quantity)
     (filter (\<lambda>c. ue_kind c = AdjustmentCredit \<and> ue_adjusts_usage_event_id c = Some i) es))"

definition same_scope :: "UsageEvent \<Rightarrow> UsageEvent \<Rightarrow> bool" where
  "same_scope a b \<longleftrightarrow> ue_tenant_id a = ue_tenant_id b \<and> ue_workspace_id a = ue_workspace_id b
     \<and> ue_dimension a = ue_dimension b"

definition usage_key :: "UsageEvent \<Rightarrow> string \<times> string \<times> string" where
  "usage_key e = (ue_tenant_id e, ue_dimension e, ue_idempotency_key e)"

text \<open>
  The contract of the ledger, on events. An event whose key is known is a replay of the recorded
  event or a conflict; a credit needs a recorded consumption of the same scope with enough quantity
  not yet credited; the rest are the database's constraints.
\<close>
datatype ledger_verdict = Replay UsageEvent | KeyConflict | Refused | Recorded

definition credit_allowed :: "UsageEvent list \<Rightarrow> UsageEvent \<Rightarrow> bool" where
  "credit_allowed es e \<longleftrightarrow> ue_kind e = AdjustmentCredit \<longrightarrow>
     list_ex (\<lambda>o'. ue_adjusts_usage_event_id e = Some (ue_usage_event_id o') \<and> ue_kind o' = Consumption
        \<and> same_scope o' e
        \<and> credited es (ue_usage_event_id o') + unat (ue_quantity e) \<le> unat (ue_quantity o')) es"

definition constraints_ok :: "tenancy_db \<Rightarrow> UsageEvent list \<Rightarrow> UsageEvent \<Rightarrow> bool" where
  "constraints_ok td es e \<longleftrightarrow>
     sql_nonblank (ue_usage_event_id e) \<and> sql_nonblank (ue_idempotency_key e)
     \<and> \<not> is_some_and (ue_operation_id e) (\<lambda>v. \<not> sql_nonblank v)
     \<and> \<not> is_some_and (ue_correlation_id e) (\<lambda>v. \<not> sql_nonblank v)
     \<and> \<not> list_ex (\<lambda>x. ue_usage_event_id x = ue_usage_event_id e) es
     \<and> tenant_exists td (ue_tenant_id e)
     \<and> \<not> is_some_and (ue_workspace_id e) (\<lambda>v. \<not> workspace_in_tenant td v (ue_tenant_id e))
     \<and> \<not> is_some_and (ue_actor_id e) (\<lambda>v. \<not> actor_exists td v)"

definition ledger_verdict_of :: "tenancy_db \<Rightarrow> UsageEvent list \<Rightarrow> UsageEvent \<Rightarrow> ledger_verdict" where
  "ledger_verdict_of td es e =
     (if usage_event_validate e \<noteq> Inr () \<or> unat (ue_quantity e) > i64_max then Refused
      else case find (\<lambda>x. usage_key x = usage_key e) es of
        Some x \<Rightarrow> if usage_mutation_equivalent x e then Replay x else KeyConflict
      | None \<Rightarrow> if credit_allowed es e \<and> constraints_ok td es e then Recorded else Refused)"

text \<open>
  The invariant of the ledger: distinct ids and keys, every credit belongs to a recorded consumption
  of the same scope, and the credits of a consumption never exceed it.
\<close>
definition ledger_ok :: "(metadata_map \<Rightarrow> string option) \<Rightarrow> UsageEvent list \<Rightarrow> bool" where
  "ledger_ok enc es \<longleftrightarrow>
     list_all (recordable enc) es
     \<and> distinct (map ue_usage_event_id es) \<and> distinct (map usage_key es)
     \<and> list_all (\<lambda>c. ue_kind c = AdjustmentCredit \<longrightarrow>
          list_ex (\<lambda>o'. ue_adjusts_usage_event_id c = Some (ue_usage_event_id o')
            \<and> ue_kind o' = Consumption \<and> same_scope o' c) es) es
     \<and> list_all (\<lambda>o'. ue_kind o' = Consumption \<longrightarrow>
          credited es (ue_usage_event_id o') \<le> unat (ue_quantity o')) es"

section \<open>Reading back\<close>

lemma metadata_json:
  assumes "UsageMetadata_new enc m = Inr m"
  shows "\<exists>s. enc m = Some s \<and> UsageMetadata_to_json enc m = Inr s"
  using assms by (auto simp: UsageMetadata_new_def UsageMetadata_to_json_def split: if_splits sum.splits option.splits)

lemma id_col_opt [simp]:
  "opt_nonblank v \<Longrightarrow> map_transpose (\<lambda>v. id_col v (opaque_id_new kind)) v = Inr v"
  by (cases v) (simp_all add: opt_nonblank_def)

lemma id_col_dimension: "UsageDimension_new d = Inr d \<Longrightarrow> id_col d UsageDimension_new = Inr d"
  by (simp add: id_col_def)

lemma usage_row_sel [simp]:
  "ur_usage_event_id (usage_row enc e) = ue_usage_event_id e"
  "ur_tenant_id (usage_row enc e) = ue_tenant_id e"
  "ur_workspace_id (usage_row enc e) = ue_workspace_id e"
  "ur_actor_id (usage_row enc e) = ue_actor_id e"
  "ur_dimension (usage_row enc e) = ue_dimension e"
  "ur_quantity (usage_row enc e) = uint (ue_quantity e)"
  "ur_event_kind (usage_row enc e) = usage_kind_as_str (ue_kind e)"
  "ur_occurred_at (usage_row enc e) = ue_occurred_at e"
  "ur_operation_id (usage_row enc e) = ue_operation_id e"
  "ur_correlation_id (usage_row enc e) = ue_correlation_id e"
  "ur_idempotency_key (usage_row enc e) = ue_idempotency_key e"
  "ur_adjusts_usage_event_id (usage_row enc e) = ue_adjusts_usage_event_id e"
  by (simp_all add: usage_row_def encode_usage_def)

lemma kind_as_str_iff [simp]:
  "usage_kind_as_str k = ''adjustment_credit'' \<longleftrightarrow> k = AdjustmentCredit"
  "usage_kind_as_str k = ''consumption'' \<longleftrightarrow> k = Consumption"
  by (cases k; simp)+

lemma parse_usage_row:
  assumes "json_law enc dec" and "event_typed enc e"
  shows "parse_usage_raw enc dec (usage_row enc e) = Inr e"
proof -
  from assms(2) have t: "trim (ue_usage_event_id e) \<noteq> []" "trim (ue_tenant_id e) \<noteq> []"
    "opt_nonblank (ue_workspace_id e)" "opt_nonblank (ue_actor_id e)"
    "opt_nonblank (ue_operation_id e)" "opt_nonblank (ue_correlation_id e)"
    "trim (ue_idempotency_key e) \<noteq> []" "opt_nonblank (ue_adjusts_usage_event_id e)"
    "UsageMetadata_new enc (ue_metadata e) = Inr (ue_metadata e)"
    "id_col (ue_dimension e) UsageDimension_new = Inr (ue_dimension e)"
    "btree (ue_metadata e)"
    by (simp_all add: event_typed_def id_col_dimension)
  obtain s where s: "enc (ue_metadata e) = Some s" using metadata_json [OF t(9)] by blast
  with assms(1) t(11) have d: "dec s = Some (ue_metadata e)" by (auto simp: json_law_def)
  have "from_sql_u64 (uint (ue_quantity e)) ''usage.quantity'' = Inr (ue_quantity e)"
    by (simp add: from_sql_u64_def)
  with t s d show ?thesis
    by (simp add: parse_usage_raw_def usage_row_def encode_usage_def UsageEventId_new_def
        TenantId_new_def WorkspaceId_new_def ActorId_new_def OperationId_new_def CorrelationId_new_def
        IdempotencyKey_new_def)
qed

lemma load_where_events:
  assumes "json_law enc dec" and "list_all (recordable enc) es"
  shows "load_where P (parse_usage_raw enc dec) (map (usage_row enc) es) = Inr (find (P \<circ> usage_row enc) es)"
  using assms(2)
  by (induction es) (auto simp: load_where_def parse_usage_row [OF assms(1)] recordable_def)

lemma load_by_key_events:
  assumes "json_law enc dec" and "list_all (recordable enc) es"
  shows "load_usage_by_idempotency enc dec (map (usage_row enc) es) (ue_tenant_id e) (ue_dimension e)
     (ue_idempotency_key e) = Inr (find (\<lambda>x. usage_key x = usage_key e) es)"
  by (simp add: load_usage_by_idempotency_def load_where_events [OF assms] usage_key_def comp_def)

lemma load_by_id_events:
  assumes "json_law enc dec" and "list_all (recordable enc) es"
  shows "load_usage_by_id enc dec (map (usage_row enc) es) i =
     Inr (find (\<lambda>x. ue_usage_event_id x = i) es)"
  by (simp add: load_usage_by_id_def load_where_events [OF assms] comp_def)

section \<open>Sums\<close>

lemma credit_sum_rows:
  "sum_list (map ur_quantity (credit_rows (map (usage_row enc) es) i)) = int (credited es i)"
  by (induction es) (simp_all add: credit_rows_def credited_def)

lemma credit_quantities_nonneg: "\<forall>x \<in> set (map ur_quantity (credit_rows (map (usage_row enc) es) i)). 0 \<le> x"
  by (auto simp: credit_rows_def)

lemma find_distinct:
  assumes "distinct (map f es)" and "o' \<in> set es"
  shows "find (\<lambda>x. f x = f o') es = Some o'"
  using assms by (induction es) (auto simp: rev_image_eqI)

lemma projected_credit:
  assumes "c \<le> i64_max" and "unat q \<le> i64_max"
  shows "\<exists>p :: u64. checked_add (word_of_int (int c)) q = Some p \<and> unat p = c + unat q"
proof -
  define w :: u64 where "w = word_of_int (int c)"
  have c: "unat w = c"
    using assms(1) by (simp add: w_def unsigned_of_nat take_bit_nat_eq_self i64_max_def)
  have lt: "c + unat q < 2 ^ 64" using assms by (simp add: i64_max_def)
  then have "unat (w + q) = c + unat q"
    by (subst unat_add_lem [THEN iffD1]) (simp_all add: c)
  with lt c show ?thesis by (auto simp: checked_add_def w_def [symmetric])
qed

lemma credit_lookup:
  assumes ok: "ledger_ok enc es" and "o' \<in> set es" and "ue_kind o' = Consumption"
  shows "find (\<lambda>x. ue_usage_event_id x = ue_usage_event_id o') es = Some o'"
    and "credited es (ue_usage_event_id o') \<le> i64_max"
    and "credited es (ue_usage_event_id o') \<le> unat (ue_quantity o')"
  using assms find_distinct [of ue_usage_event_id es o']
  by (auto simp: ledger_ok_def list_all_iff recordable_def intro: order_trans)

lemma credit_allowed_iff:
  assumes ok: "ledger_ok enc es" and k: "ue_kind e = AdjustmentCredit"
    and i: "ue_adjusts_usage_event_id e = Some i"
  shows "credit_allowed es e \<longleftrightarrow>
     (\<exists>o'. find (\<lambda>x. ue_usage_event_id x = i) es = Some o' \<and> ue_kind o' = Consumption \<and> same_scope o' e
        \<and> credited es i + unat (ue_quantity e) \<le> unat (ue_quantity o'))"
    (is "_ = ?r")
proof
  assume "credit_allowed es e"
  then obtain o' where "o' \<in> set es" "ue_usage_event_id o' = i" "ue_kind o' = Consumption" "same_scope o' e"
    "credited es i + unat (ue_quantity e) \<le> unat (ue_quantity o')"
    using k i by (auto simp: credit_allowed_def list_ex_iff)
  with credit_lookup(1) [OF ok, of o'] show ?r by auto
next
  assume ?r
  then show "credit_allowed es e"
    using k i by (fastforce simp: credit_allowed_def list_ex_iff find_Some_iff)
qed

lemma validate_credit_iff:
  assumes law: "json_law enc dec" and ok: "ledger_ok enc es"
    and v: "usage_event_validate e = Inr ()" and q: "unat (ue_quantity e) \<le> i64_max"
  shows "validate_adjustment_credit enc dec (map (usage_row enc) es) e = Inr () \<longleftrightarrow> credit_allowed es e"
proof (cases "ue_kind e = AdjustmentCredit")
  case True
  with v obtain i where i: "ue_adjusts_usage_event_id e = Some i"
    by (auto simp: usage_event_validate_def split: option.splits)
  note load = load_by_id_events [OF law, of es i]
  show ?thesis
  proof (cases "find (\<lambda>x. ue_usage_event_id x = i) es")
    case None
    with load ok True i show ?thesis
      by (simp add: validate_adjustment_credit_def credit_allowed_iff [OF ok True i] ledger_ok_def)
  next
    case (Some o')
    then have o': "o' \<in> set es" "ue_usage_event_id o' = i" by (auto simp: find_Some_iff)
    show ?thesis
    proof (cases "ue_kind o' = Consumption \<and> same_scope o' e")
      case False
      with Some load ok True i show ?thesis
        by (auto simp: validate_adjustment_credit_def credit_allowed_iff [OF ok True i] ledger_ok_def same_scope_def)
    next
      case scope: True
      have c: "credited es i \<le> i64_max" using credit_lookup(2) [OF ok o'(1)] scope o'(2) by simp
      obtain p :: u64 where p: "checked_add (word_of_int (int (credited es i))) (ue_quantity e) = Some p"
        "unat p = credited es i + unat (ue_quantity e)"
        using projected_credit [OF c q] by blast
      have s: "sql_sum 0 (map ur_quantity (credit_rows (map (usage_row enc) es) i)) = Inr (int (credited es i))"
        using c by (subst sql_sum_nonneg) (simp_all add: credit_quantities_nonneg [simplified] credit_sum_rows)
      have "validate_adjustment_credit enc dec (map (usage_row enc) es) e =
          (if p > ue_quantity o'
           then Inl (Domain (Invariant ''usage adjustment would underflow the original consumption'')) else Inr ())"
        using True i load ok Some scope s p(1)
        by (simp add: validate_adjustment_credit_def ledger_ok_def same_scope_def from_sql_u64_def)
      moreover have "p > ue_quantity o' \<longleftrightarrow> credited es i + unat (ue_quantity e) > unat (ue_quantity o')"
        by (simp add: word_less_nat_alt p(2))
      ultimately show ?thesis
        using Some scope by (auto simp: credit_allowed_iff [OF ok True i] not_less)
    qed
  qed
qed (simp add: validate_adjustment_credit_def credit_allowed_def)

lemma insert_usage_events:
  assumes "credit_allowed es e" and "usage_event_validate e = Inr ()"
    and "find (\<lambda>x. usage_key x = usage_key e) es = None"
  shows "(constraints_ok td es e \<longrightarrow>
       insert_usage_row sm td (map (usage_row enc) es) (usage_row enc e) = Inr (map (usage_row enc) (es @ [e])))
     \<and> (\<not> constraints_ok td es e \<longrightarrow>
       (\<exists>m. insert_usage_row sm td (map (usage_row enc) es) (usage_row enc e) = Inl (Sqlite m)))"
proof -
  let ?rows = "map (usage_row enc) es"
  have scope: "adjustment_same_scope ?rows (usage_row enc e)"
    using assms(1) by (fastforce simp: adjustment_same_scope_def credit_allowed_def list_ex_iff same_scope_def)
  have fk: "\<not> is_some_and (ue_adjusts_usage_event_id e) (\<lambda>v. \<not> list_ex (\<lambda>r. ur_usage_event_id r = v) ?rows)"
    using assms(1,2) by (fastforce simp: credit_allowed_def list_ex_iff is_some_and_def usage_event_validate_def
        split: option.splits UsageEventKind.splits)
  have key: "\<not> list_ex (\<lambda>r. ur_tenant_id r = ue_tenant_id e \<and> ur_dimension r = ue_dimension e
      \<and> ur_idempotency_key r = ue_idempotency_key e) ?rows"
    using assms(3) by (auto simp: list_ex_iff find_None_iff usage_key_def)
  have ids: "list_ex (\<lambda>r. ur_usage_event_id r = ue_usage_event_id e) ?rows
      \<longleftrightarrow> list_ex (\<lambda>x. ue_usage_event_id x = ue_usage_event_id e) es"
    by (simp add: list_ex_iff)
  show ?thesis using scope fk key ids
    by (auto simp: insert_usage_row_def constraints_ok_def)
qed

section \<open>The ledger implements its contract\<close>

lemma typed_metadata:
  assumes "event_typed enc e"
  shows "UsageMetadata_to_json enc (ue_metadata e) = Inr (the (enc (ue_metadata e)))"
  using metadata_json [of enc "ue_metadata e"] assms by (auto simp: event_typed_def)

lemma usage_store_events:
  assumes law: "json_law enc dec" and ok: "ledger_ok enc es" and r: "recordable enc e"
  shows "usage_store enc dec sm td (map (usage_row enc) es) e =
     (case find (\<lambda>x. usage_key x = usage_key e) es of
        Some x \<Rightarrow>
          if usage_mutation_equivalent x e then Inr (map (usage_row enc) es, Existing x)
          else Inl (Domain (UsageIdempotencyConflict (ue_tenant_id e) (ue_dimension e)))
      | None \<Rightarrow>
          and_then (validate_adjustment_credit enc dec (map (usage_row enc) es) e) (\<lambda>_.
          and_then (insert_usage_row sm td (map (usage_row enc) es) (usage_row enc e)) (\<lambda>rows'.
          Inr (rows', Inserted e))))"
proof -
  have "list_all (recordable enc) es" using ok by (simp add: ledger_ok_def)
  note load = load_by_key_events [OF law this, of e]
  have "to_sql_u64 (ue_quantity e) ''usage.quantity'' = Inr (uint (ue_quantity e))"
    using r by (simp add: recordable_def to_sql_u64_def)
  with load r typed_metadata [of enc e] show ?thesis
    by (simp add: usage_store_def recordable_def usage_row_def split: option.split)
qed

lemma validate_credit_error:
  assumes "validate_adjustment_credit enc dec rows e = Inl x"
    and "\<And>i. \<exists>found. load_usage_by_id enc dec rows i = Inr found"
  shows "error_code (db_error_to_mukei x) \<noteq> ''ERR_USAGE_IDEMPOTENCY_CONFLICT''"
proof -
  have "(\<exists>m. x = Domain (Invariant m)) \<or> (\<exists>m. x = Domain (DatabaseInitFailed m)) \<or> (\<exists>m. x = Sqlite m)"
  proof (cases "ue_adjusts_usage_event_id e")
    case (Some i)
    obtain found where "load_usage_by_id enc dec rows i = Inr found" using assms(2) by blast
    with Some assms(1) show ?thesis
      by (auto simp: validate_adjustment_credit_def from_sql_u64_def and_then_def
          dest: sql_sum_error split: if_splits option.splits sum.splits)
  qed (use assms(1) in \<open>auto simp: validate_adjustment_credit_def split: if_splits\<close>)
  then show ?thesis by auto
qed

lemma usage_append_events:
  assumes law: "json_law enc dec" and ok: "ledger_ok enc es" and typed: "event_typed enc e"
  shows "case ledger_verdict_of td es e of
     Recorded \<Rightarrow> usage_append enc dec sm td (map (usage_row enc) es) e
                 = Inr (map (usage_row enc) (es @ [e]), Inserted e)
   | Replay x \<Rightarrow> usage_append enc dec sm td (map (usage_row enc) es) e
                 = Inr (map (usage_row enc) es, Existing x)
   | KeyConflict \<Rightarrow> usage_append enc dec sm td (map (usage_row enc) es) e
                 = Inl (UsageIdempotencyConflict (ue_tenant_id e) (ue_dimension e))
   | Refused \<Rightarrow> \<exists>err. usage_append enc dec sm td (map (usage_row enc) es) e = Inl err
                 \<and> error_code err \<noteq> ''ERR_USAGE_IDEMPOTENCY_CONFLICT''"
proof (cases "recordable enc e")
  case False
  with typed have "usage_event_validate e \<noteq> Inr () \<or> unat (ue_quantity e) > i64_max"
    by (auto simp: recordable_def)
  then show ?thesis
    by (auto simp: ledger_verdict_of_def usage_append_def from_db_def to_sql_u64_def domain_error_def
        and_then_def split: sum.splits)
next
  case True
  then have r: "usage_event_validate e = Inr ()" "unat (ue_quantity e) \<le> i64_max"
    by (simp_all add: recordable_def)
  let ?rows = "map (usage_row enc) es"
  have append: "usage_append enc dec sm td ?rows e = from_db (usage_store enc dec sm td ?rows e)"
    using r typed typed_metadata by (simp add: usage_append_def from_db_def to_sql_u64_def)
  note store = usage_store_events [OF law ok True, of sm td]
  show ?thesis
  proof (cases "find (\<lambda>x. usage_key x = usage_key e) es")
    case (Some x)
    with r append store show ?thesis
      by (simp add: ledger_verdict_of_def from_db_def)
  next
    case None
    note ins = insert_usage_events [OF _ r(1) None, of td sm enc]
    have loads: "\<exists>found. load_usage_by_id enc dec ?rows i = Inr found" for i
      using load_by_id_events [OF law] ok by (simp add: ledger_ok_def)
    show ?thesis
    proof (cases "credit_allowed es e")
      case True
      then have "validate_adjustment_credit enc dec ?rows e = Inr ()"
        using validate_credit_iff [OF law ok r] by simp
      with True r append store None ins [OF True] show ?thesis
        by (auto simp: ledger_verdict_of_def from_db_def)
    next
      case False
      then obtain x where "validate_adjustment_credit enc dec ?rows e = Inl x"
        using validate_credit_iff [OF law ok r]
        by (cases "validate_adjustment_credit enc dec ?rows e") auto
      with validate_credit_error [OF this loads] False r append store None show ?thesis
        by (auto simp: ledger_verdict_of_def from_db_def)
    qed
  qed
qed

section \<open>The invariant\<close>

lemma credited_append:
  "credited (es @ [e]) i = credited es i
     + (if ue_kind e = AdjustmentCredit \<and> ue_adjusts_usage_event_id e = Some i then unat (ue_quantity e) else 0)"
  by (simp add: credited_def)

lemma credited_unknown:
  assumes "ledger_ok enc es" and "\<not> list_ex (\<lambda>x. ue_usage_event_id x = i) es"
  shows "credited es i = 0"
proof -
  have "filter (\<lambda>c. ue_kind c = AdjustmentCredit \<and> ue_adjusts_usage_event_id c = Some i) es = []"
    using assms by (fastforce simp: filter_empty_conv ledger_ok_def list_all_iff list_ex_iff)
  then show ?thesis unfolding credited_def by simp
qed

lemma ledger_ok_Nil [simp]: "ledger_ok enc []"
  by (simp add: ledger_ok_def)

lemma ledger_ok_record:
  assumes ok: "ledger_ok enc es" and typed: "event_typed enc e"
    and v: "ledger_verdict_of td es e = Recorded"
  shows "ledger_ok enc (es @ [e])"
proof -
  from v have r: "recordable enc e" and fresh: "find (\<lambda>x. usage_key x = usage_key e) es = None"
    and credit: "credit_allowed es e" and cons: "constraints_ok td es e"
    using typed by (auto simp: ledger_verdict_of_def recordable_def split: if_splits option.splits)
  have new_id: "\<not> list_ex (\<lambda>x. ue_usage_event_id x = ue_usage_event_id e) es"
    using cons by (simp add: constraints_ok_def)
  have bound: "credited (es @ [e]) (ue_usage_event_id o') \<le> unat (ue_quantity o')"
    if "o' \<in> set es" "ue_kind o' = Consumption" for o'
  proof (cases "ue_kind e = AdjustmentCredit \<and> ue_adjusts_usage_event_id e = Some (ue_usage_event_id o')")
    case True
    with credit credit_allowed_iff [OF ok] credit_lookup(1) [OF ok that] show ?thesis
      by (auto simp: credited_append)
  next
    case False
    with credit_lookup(3) [OF ok that] show ?thesis by (auto simp: credited_append)
  qed
  have self: "credited (es @ [e]) (ue_usage_event_id e) = 0" if "ue_kind e = Consumption"
    using that credited_unknown [OF ok new_id] by (simp add: credited_append)
  have "list_ex (\<lambda>o'. ue_adjusts_usage_event_id e = Some (ue_usage_event_id o')
      \<and> ue_kind o' = Consumption \<and> same_scope o' e) es" if "ue_kind e = AdjustmentCredit"
    using credit that by (auto simp: credit_allowed_def list_ex_iff)
  with ok r fresh new_id bound self show ?thesis
    by (auto simp: ledger_ok_def list_all_iff list_ex_iff find_None_iff)
qed

text \<open>
  C15: the storage code implements the contract of the usage ledger. On a ledger in good order an
  event is recorded, answered with the event already recorded under its key, or rejected, exactly as
  \<open>ledger_verdict_of\<close> says; only a recorded event changes the table, by one row at its end which
  keeps it in good order, and the
  conflict error is reported for the reuse of a key with another content and for nothing else.
\<close>
theorem append_refines_ledger:
  assumes law: "json_law enc dec" and ok: "ledger_ok enc es" and typed: "event_typed enc e"
  shows "case ledger_verdict_of td es e of
     Recorded \<Rightarrow> usage_append enc dec sm td (map (usage_row enc) es) e
                 = Inr (map (usage_row enc) (es @ [e]), Inserted e) \<and> ledger_ok enc (es @ [e])
   | Replay x \<Rightarrow> usage_append enc dec sm td (map (usage_row enc) es) e
                 = Inr (map (usage_row enc) es, Existing x)
   | KeyConflict \<Rightarrow> usage_append enc dec sm td (map (usage_row enc) es) e
                 = Inl (UsageIdempotencyConflict (ue_tenant_id e) (ue_dimension e))
   | Refused \<Rightarrow> \<exists>err. usage_append enc dec sm td (map (usage_row enc) es) e = Inl err
                 \<and> error_code err \<noteq> ''ERR_USAGE_IDEMPOTENCY_CONFLICT''"
  using usage_append_events [OF assms, where td = td and sm = sm] ledger_ok_record [OF ok typed, of td]
  by (simp split: ledger_verdict.splits)

section \<open>Aggregates\<close>

definition total_of :: "UsageEventKind \<Rightarrow> UsageEvent list \<Rightarrow> nat" where
  "total_of k es = sum_list (map (unat \<circ> ue_quantity) (filter (\<lambda>e. ue_kind e = k) es))"

lemma sum_kind_events:
  "sum_kind (usage_kind_as_str k) (map (usage_row enc) es) =
     (if total_of k es \<le> i64_max then Inr (int (total_of k es)) else Inl (Sqlite ''integer overflow''))"
proof -
  let ?xs = "map (\<lambda>r. if ur_event_kind r = usage_kind_as_str k then ur_quantity r else 0) (map (usage_row enc) es)"
  have inj: "usage_kind_as_str a = usage_kind_as_str k \<longleftrightarrow> a = k" for a
    by (cases a; cases k) simp_all
  have "sum_list ?xs = int (total_of k es)"
    by (induction es) (simp_all add: total_of_def inj)
  moreover have "\<forall>x \<in> set ?xs. 0 \<le> x" by auto
  ultimately show ?thesis
    unfolding sum_kind_def by (subst sql_sum_nonneg) (simp_all add: i64_max_def)
qed

lemma aggregate_events:
  fixes enc es t w d s e
  defines "sel \<equiv> filter (in_window t w d s e \<circ> usage_row enc) es"
  shows "usage_aggregate (map (usage_row enc) es) t w d s e =
     (if total_of Consumption sel \<le> i64_max \<and> total_of AdjustmentCredit sel \<le> i64_max
      then Inr \<lparr>ag_consumed = of_nat (total_of Consumption sel), ag_credited = of_nat (total_of AdjustmentCredit sel)\<rparr>
      else Inl (DatabaseInitFailed ''rusqlite error: integer overflow''))"
  using sum_kind_events [of Consumption enc sel] sum_kind_events [of AdjustmentCredit enc sel]
  by (simp add: usage_aggregate_def filter_map sel_def from_db_def from_sql_u64_def)

lemma sum_list_filter_le:
  fixes f :: "'a \<Rightarrow> nat"
  shows "sum_list (map f (filter P xs)) \<le> sum_list (map f xs)"
  by (induction xs) auto

text \<open>Amounts that each name one of the owners add up to at most what the owners' shares add up to.\<close>
lemma grouped_sum:
  fixes q :: "'c \<Rightarrow> nat"
  assumes "\<forall>c \<in> set cs. \<exists>o' \<in> set os. own c o'"
  shows "sum_list (map q cs) \<le> sum_list (map (\<lambda>o'. sum_list (map q (filter (\<lambda>c. own c o') cs))) os)"
  using assms
proof (induction cs)
  case (Cons c cs)
  let ?share = "\<lambda>xs o'. sum_list (map q (filter (\<lambda>c. own c o') xs))"
  obtain o' where "o' \<in> set os" "own c o'" using Cons.prems by auto
  then have "q c \<le> sum_list (map (\<lambda>o'. if own c o' then q c else 0) os)"
    using member_le_sum_list [of "q c" "map (\<lambda>o'. if own c o' then q c else 0) os"] by force
  moreover have "sum_list (map (?share (c # cs)) os) =
      sum_list (map (\<lambda>o'. if own c o' then q c else 0) os) + sum_list (map (?share cs) os)"
    by (simp add: sum_list_addf [symmetric] if_distrib cong: if_cong)
       (rule arg_cong [of _ _ sum_list], simp)
  ultimately show ?case using Cons by simp
qed simp

text \<open>Without a time window, what is credited in a scope was consumed there.\<close>
lemma lifetime_credits:
  fixes t :: string and w :: "string option" and d :: string
  assumes ok: "ledger_ok enc es"
  defines "sel \<equiv> filter (in_window t w d None None \<circ> usage_row enc) es"
  shows "total_of AdjustmentCredit sel \<le> total_of Consumption sel"
proof -
  define credits where "credits = filter (\<lambda>e. ue_kind e = AdjustmentCredit) sel"
  define originals where "originals = filter (\<lambda>e. ue_kind e = Consumption) sel"
  let ?own = "\<lambda>c o'. ue_adjusts_usage_event_id c = Some (ue_usage_event_id o')"
  let ?q = "unat \<circ> ue_quantity"
  have "\<forall>c \<in> set credits. \<exists>o' \<in> set originals. ?own c o'"
  proof
    fix c assume "c \<in> set credits"
    then have c: "c \<in> set es" "ue_kind c = AdjustmentCredit" "in_window t w d None None (usage_row enc c)"
      by (simp_all add: credits_def sel_def)
    with ok obtain o' where "o' \<in> set es" "?own c o'" "ue_kind o' = Consumption" "same_scope o' c"
      by (auto simp: ledger_ok_def list_all_iff list_ex_iff)
    with c(3) show "\<exists>o' \<in> set originals. ?own c o'"
      by (auto simp: originals_def sel_def in_window_def same_scope_def)
  qed
  then have "sum_list (map ?q credits)
      \<le> sum_list (map (\<lambda>o'. sum_list (map ?q (filter (\<lambda>c. ?own c o') credits))) originals)"
    by (rule grouped_sum)
  also have "\<dots> \<le> sum_list (map ?q originals)"
  proof (rule sum_list_mono)
    fix o' assume "o' \<in> set originals"
    then have "o' \<in> set es" "ue_kind o' = Consumption" by (simp_all add: originals_def sel_def)
    then have "credited es (ue_usage_event_id o') \<le> ?q o'" using credit_lookup(3) [OF ok] by simp
    moreover have "filter (\<lambda>c. ?own c o') credits = filter (in_window t w d None None \<circ> usage_row enc)
        (filter (\<lambda>c. ue_kind c = AdjustmentCredit \<and> ?own c o') es)"
      by (simp add: credits_def sel_def) (rule filter_cong, auto)
    ultimately show "sum_list (map ?q (filter (\<lambda>c. ?own c o') credits)) \<le> ?q o'"
      using sum_list_filter_le [of ?q "in_window t w d None None \<circ> usage_row enc"
        "filter (\<lambda>c. ue_kind c = AdjustmentCredit \<and> ?own c o') es"]
      by (simp add: credited_def)
  qed
  finally show ?thesis by (simp add: total_of_def credits_def originals_def)
qed

lemma lifetime_net:
  assumes ok: "ledger_ok enc es"
    and a: "usage_aggregate (map (usage_row enc) es) t w d None None = Inr a"
  shows "\<exists>n. aggregation_net a = Inr n"
proof -
  define sel where "sel = filter (in_window t w d None None \<circ> usage_row enc) es"
  have fits: "total_of Consumption sel \<le> i64_max"
    and a': "ag_consumed a = of_nat (total_of Consumption sel)" "ag_credited a = of_nat (total_of AdjustmentCredit sel)"
    using a by (auto simp: aggregate_events sel_def [symmetric] split: if_splits)
  have le: "total_of AdjustmentCredit sel \<le> total_of Consumption sel"
    using lifetime_credits [OF ok] by (simp add: sel_def)
  then have "ag_credited a \<le> ag_consumed a"
    using fits by (simp add: a' word_le_nat_alt unsigned_of_nat take_bit_nat_eq_self i64_max_def)
  then show ?thesis by (simp add: aggregation_net_def checked_sub_def)
qed

section \<open>Histories\<close>

definition usage_step ::
  "(metadata_map \<Rightarrow> string option) \<Rightarrow> (string \<Rightarrow> metadata_map option) \<Rightarrow> (Violation \<Rightarrow> string)
     \<Rightarrow> UsageRow list \<Rightarrow> tenancy_db \<times> UsageEvent \<Rightarrow> UsageRow list" where
  "usage_step enc dec sm rows op =
     (case usage_append enc dec sm (fst op) rows (snd op) of Inl _ \<Rightarrow> rows | Inr (rows', _) \<Rightarrow> rows')"

lemma usage_step_events:
  assumes "json_law enc dec" and "ledger_ok enc es" and "event_typed enc (snd op)"
  shows "\<exists>es'. usage_step enc dec sm (map (usage_row enc) es) op = map (usage_row enc) es' \<and> ledger_ok enc es'
     \<and> (es' = es \<or> es' = es @ [snd op])"
proof (cases "ledger_verdict_of (fst op) es (snd op)")
  case Recorded
  with usage_append_events [OF assms, where td = "fst op" and sm = sm] ledger_ok_record [OF assms(2,3) Recorded]
  show ?thesis by (intro exI [of _ "es @ [snd op]"]) (simp add: usage_step_def)
qed (use usage_append_events [OF assms, where td = "fst op" and sm = sm] assms(2) in
    \<open>auto simp: usage_step_def intro!: exI [of _ es]\<close>)

lemma usage_history_events:
  assumes "json_law enc dec" and "ledger_ok enc es" and "\<forall>op \<in> set ops. event_typed enc (snd op)"
  shows "\<exists>more. foldl (usage_step enc dec sm) (map (usage_row enc) es) ops = map (usage_row enc) (es @ more)
     \<and> ledger_ok enc (es @ more) \<and> set more \<subseteq> snd ` set ops"
  using assms(2,3)
proof (induction ops arbitrary: es)
  case (Cons op ops)
  obtain es' where es': "usage_step enc dec sm (map (usage_row enc) es) op = map (usage_row enc) es'"
    "ledger_ok enc es'" "es' = es \<or> es' = es @ [snd op]"
    using usage_step_events [OF assms(1) Cons.prems(1)] Cons.prems(2) by fastforce
  obtain more where more: "foldl (usage_step enc dec sm) (map (usage_row enc) es') ops
      = map (usage_row enc) (es' @ more)" "ledger_ok enc (es' @ more)" "set more \<subseteq> snd ` set ops"
    using Cons.IH [OF es'(2)] Cons.prems(2) by auto
  from es'(3) show ?case
  proof
    assume "es' = es"
    with more es'(1) show ?thesis by (intro exI [of _ more]) auto
  next
    assume "es' = es @ [snd op]"
    with more es'(1) show ?thesis by (intro exI [of _ "snd op # more"]) auto
  qed
qed (auto intro: exI [of _ "[]"])

text \<open>
  C14: the usage ledger only grows and never owes credits. After any sequence of appends, with any
  tenancy tables at each of them, the table consists of the rows of events that were submitted, in
  good order (ids and keys unique, every credit belongs to a consumption of the same tenant,
  workspace and dimension, no consumption is credited beyond its quantity); later appends only add
  rows at the end; and the net usage of a scope over its lifetime is defined whenever its sums fit.
\<close>
theorem usage_ledger_safe:
  fixes sm :: "Violation \<Rightarrow> string"
  assumes "json_law enc dec" and "\<forall>op \<in> set (ops @ later). event_typed enc (snd op)"
  defines "rows \<equiv> foldl (usage_step enc dec sm) [] ops"
  shows "(\<exists>es. rows = map (usage_row enc) es \<and> ledger_ok enc es \<and> set es \<subseteq> snd ` set ops)
     \<and> (\<exists>more. foldl (usage_step enc dec sm) rows later = rows @ more)
     \<and> (\<forall>t w d a. usage_aggregate rows t w d None None = Inr a \<longrightarrow> (\<exists>n. aggregation_net a = Inr n))"
proof -
  have typed: "\<forall>op \<in> set ops. event_typed enc (snd op)" "\<forall>op \<in> set later. event_typed enc (snd op)"
    using assms(2) by auto
  obtain es where es: "rows = map (usage_row enc) es" "ledger_ok enc es" "set es \<subseteq> snd ` set ops"
    using usage_history_events [OF assms(1) ledger_ok_Nil typed(1), of sm] by (auto simp: rows_def)
  moreover have "\<exists>more. foldl (usage_step enc dec sm) rows later = rows @ more"
    using usage_history_events [OF assms(1) es(2) typed(2), of sm] by (auto simp: es(1))
  ultimately show ?thesis using lifetime_net by (simp add: es(1)) blast
qed

lemma equivalent_recordable:
  assumes "recordable enc x" and "event_typed enc y" and "usage_mutation_equivalent x y"
  shows "recordable enc y"
  using assms by (auto simp: recordable_def usage_mutation_equivalent_def usage_event_validate_def
      split: UsageEventKind.splits option.splits)

lemma append_inserted:
  assumes "json_law enc dec" and "ledger_ok enc es" and "event_typed enc e"
    and "usage_append enc dec sm td (map (usage_row enc) es) e = Inr (rows', Inserted e')"
  shows "e' = e \<and> rows' = map (usage_row enc) (es @ [e]) \<and> ledger_ok enc (es @ [e])"
  using usage_append_events [OF assms(1-3), where td = td and sm = sm] assms(4) ledger_ok_record [OF assms(2,3)]
  by (cases "ledger_verdict_of td es e") auto

text \<open>
  A logical mutation is recorded once. When an append reported an event as inserted, then after
  any further appends the event is found under its id, and submitting the same mutation again under
  its key, with whatever new event id, correlation and recording time, answers with the recorded
  event and leaves the ledger as it is.
\<close>
theorem usage_mutation_recorded_once:
  assumes law: "json_law enc dec"
    and typed: "\<forall>op \<in> set (ops @ later). event_typed enc (snd op)" "event_typed enc e" "event_typed enc e'"
    and ins: "usage_append enc dec sm td (foldl (usage_step enc dec sm) [] ops) e = Inr (rows', Inserted e)"
    and same: "usage_key e' = usage_key e" "usage_mutation_equivalent e e'"
  defines "rows \<equiv> foldl (usage_step enc dec sm) rows' later"
  shows "get_event enc dec rows (ue_usage_event_id e) = Inr (Some e)
     \<and> usage_append enc dec sm td' rows e' = Inr (rows, Existing e)"
proof -
  obtain es where es: "foldl (usage_step enc dec sm) [] ops = map (usage_row enc) es" "ledger_ok enc es"
    using usage_history_events [OF law ledger_ok_Nil, of ops sm] typed(1) by auto
  have e: "rows' = map (usage_row enc) (es @ [e])" "ledger_ok enc (es @ [e])"
    using append_inserted [OF law es(2) typed(2)] ins by (auto simp: es(1))
  obtain more where more: "rows = map (usage_row enc) ((es @ [e]) @ more)" "ledger_ok enc ((es @ [e]) @ more)"
    using usage_history_events [OF law e(2), of later sm] typed(1) by (auto simp: rows_def e(1))
  define all where "all = (es @ [e]) @ more"
  have ok: "ledger_ok enc all" "e \<in> set all" "rows = map (usage_row enc) all"
    using more by (simp_all add: all_def)
  have d: "list_all (recordable enc) all" "distinct (map ue_usage_event_id all)" "distinct (map usage_key all)"
    using ok(1) by (simp_all add: ledger_ok_def)
  have f: "find (\<lambda>x. ue_usage_event_id x = ue_usage_event_id e) all = Some e"
    "find (\<lambda>x. usage_key x = usage_key e') all = Some e"
    using find_distinct [OF d(2) ok(2)] find_distinct [OF d(3) ok(2)] by (simp_all add: same(1))
  have "recordable enc e'"
    using equivalent_recordable [OF _ typed(3) same(2)] d(1) ok(2) by (simp add: list_all_iff)
  then have "ledger_verdict_of td' all e' = Replay e"
    using f(2) same(2) by (simp add: ledger_verdict_of_def recordable_def)
  with usage_append_events [OF law ok(1) typed(3), where td = td' and sm = sm]
  have "usage_append enc dec sm td' rows e' = Inr (rows, Existing e)" by (simp add: ok(3))
  with load_by_id_events [OF law d(1), of "ue_usage_event_id e"] f(1) show ?thesis
    by (simp add: get_event_def from_db_def ok(3))
qed

section \<open>Examples\<close>

definition plain_enc :: "metadata_map \<Rightarrow> string option" where
  "plain_enc m = (if m = [] then Some ''{}'' else None)"

definition plain_dec :: "string \<Rightarrow> metadata_map option" where
  "plain_dec s = (if s = ''{}'' then Some [] else None)"

lemma plain_json_law: "json_law plain_enc plain_dec"
  by (simp add: json_law_def plain_enc_def plain_dec_def)

definition plain_event ::
  "string \<Rightarrow> UsageEventKind \<Rightarrow> u64 \<Rightarrow> time \<Rightarrow> string \<Rightarrow> string option \<Rightarrow> UsageEvent" where
  "plain_event eid kind quantity at key adjusts =
     \<lparr>ue_usage_event_id = eid, ue_tenant_id = ''t1'', ue_workspace_id = None, ue_actor_id = None,
      ue_dimension = ''messages'', ue_quantity = quantity, ue_kind = kind, ue_occurred_at = at,
      ue_recorded_at = at, ue_operation_id = None, ue_correlation_id = None, ue_idempotency_key = key,
      ue_source = UsageLocal, ue_adjusts_usage_event_id = adjusts, ue_metadata = []\<rparr>"

definition ledger_tenancy :: tenancy_db where
  "ledger_tenancy = empty_tenancy\<lparr>tenants := [\<lparr>tr_tenant_id = ''t1'', tr_display_name = ''Acme'',
     tr_status = ''active'', tr_source_of_truth = ''remote'', tr_created_at = 0,
     tr_updated_at = 5, tr_remote_revision = Some 3, tr_suspension_reason = None\<rparr>]\<rparr>"

lemma trim_lower: "\<lbrakk>is_ascii_alphanumeric c\<rbrakk> \<Longrightarrow> trim (c # s) \<noteq> []"
  by (rule trim_not_Nil [of c]) (auto simp: graphic_def is_ascii_alphanumeric_def)

lemma plain_typed:
  assumes "eid \<in> {''u1'', ''u2'', ''u3''}" and "key \<in> {''k1'', ''k2''}" and "adjusts \<in> {None, Some ''u1''}"
  shows "event_typed plain_enc (plain_event eid kind quantity at key adjusts)"
proof -
  have t: "trim (c # s) \<noteq> []" if "c \<in> {CHR ''u'', CHR ''k'', CHR ''t'', CHR ''m''}" for c s
    using that by (auto intro!: trim_lower simp: is_ascii_alphanumeric_def code_def)
  have "UsageDimension_new ''messages'' = Inr ''messages''"
    by (simp add: UsageDimension_new_def validate_machine_key_def t machine_key_char_def
        is_ascii_alphanumeric_def code_def)
  moreover have "UsageMetadata_new plain_enc [] = Inr []"
    by (simp add: UsageMetadata_new_def plain_enc_def MAX_USAGE_METADATA_JSON_BYTES_def)
  ultimately show ?thesis using assms
    by (auto simp: event_typed_def plain_event_def opt_nonblank_def btree_def t)
qed

definition first_use :: UsageEvent where
  "first_use = plain_event ''u1'' Consumption 10 20 ''k1'' None"

definition later_credit :: UsageEvent where
  "later_credit = plain_event ''u2'' AdjustmentCredit 4 100 ''k2'' (Some ''u1'')"

lemma example_ledger_ok: "ledger_ok plain_enc [first_use, later_credit]"
  by (simp add: ledger_ok_def recordable_def first_use_def later_credit_def plain_typed)
     (simp add: plain_event_def usage_event_validate_def i64_max_def usage_key_def same_scope_def credited_def)

text \<open>
  Over a window that holds a credit but not the consumption it belongs to, the credits exceed the
  consumption and \<open>net\<close> is an error.
\<close>
theorem windowed_net_can_underflow:
  "\<exists>es a. ledger_ok plain_enc es
     \<and> usage_aggregate (map (usage_row plain_enc) es) ''t1'' None ''messages'' (Some 50) (Some 200) = Inr a
     \<and> aggregation_net a = Inl UsageUnderflow"
proof (intro exI conjI)
  show "ledger_ok plain_enc [first_use, later_credit]" by (rule example_ledger_ok)
  show "usage_aggregate (map (usage_row plain_enc) [first_use, later_credit]) ''t1'' None ''messages''
      (Some 50) (Some 200) = Inr \<lparr>ag_consumed = 0, ag_credited = 4\<rparr>"
    unfolding aggregate_events
    by (simp add: in_window_def first_use_def later_credit_def plain_event_def total_of_def i64_max_def)
  show "aggregation_net \<lparr>ag_consumed = 0, ag_credited = 4\<rparr> = Inl UsageUnderflow"
    by (simp add: aggregation_net_def checked_sub_def)
qed

lemma example_verdicts:
  "ledger_verdict_of ledger_tenancy [] first_use = Recorded"
  "ledger_verdict_of ledger_tenancy [first_use] later_credit = Recorded"
  by (simp_all add: ledger_verdict_of_def first_use_def later_credit_def plain_event_def
      usage_event_validate_def i64_max_def credit_allowed_def constraints_ok_def sql_nonblank_def
      is_some_and_def tenant_exists_def has_row_def ledger_tenancy_def same_scope_def credited_def
      usage_key_def)

lemma example_typed: "event_typed plain_enc first_use" "event_typed plain_enc later_credit"
  by (simp_all add: first_use_def later_credit_def plain_typed)

lemma first_use_ok: "ledger_ok plain_enc [first_use]"
  using ledger_ok_record [OF ledger_ok_Nil example_typed(1) example_verdicts(1)] by simp

theorem append_refines_ledger_witness:
  "usage_append plain_enc plain_dec (\<lambda>_. []) ledger_tenancy (map (usage_row plain_enc) [first_use]) later_credit
     = Inr (map (usage_row plain_enc) [first_use, later_credit], Inserted later_credit)"
  using append_refines_ledger [OF plain_json_law first_use_ok example_typed(2),
      where td = ledger_tenancy and sm = "\<lambda>_. []"]
  by (simp add: example_verdicts)

theorem usage_ledger_safe_witness:
  "\<exists>es. foldl (usage_step plain_enc plain_dec (\<lambda>_. [])) []
       [(ledger_tenancy, first_use), (ledger_tenancy, later_credit)] = map (usage_row plain_enc) es
     \<and> ledger_ok plain_enc es"
  using usage_ledger_safe [OF plain_json_law, of "[(ledger_tenancy, first_use), (ledger_tenancy, later_credit)]"
      "[]" "\<lambda>_. []"] example_typed by auto

theorem usage_mutation_recorded_once_witness:
  "usage_append plain_enc plain_dec (\<lambda>_. []) ledger_tenancy
       (usage_step plain_enc plain_dec (\<lambda>_. []) (map (usage_row plain_enc) [first_use]) (ledger_tenancy, later_credit))
       (plain_event ''u3'' Consumption 10 20 ''k1'' None)
     = Inr (usage_step plain_enc plain_dec (\<lambda>_. []) (map (usage_row plain_enc) [first_use])
              (ledger_tenancy, later_credit), Existing first_use)"
proof -
  let ?retry = "plain_event ''u3'' Consumption 10 20 ''k1'' None"
  have ins: "usage_append plain_enc plain_dec (\<lambda>_. []) ledger_tenancy
      (foldl (usage_step plain_enc plain_dec (\<lambda>_. [])) [] []) first_use
      = Inr (map (usage_row plain_enc) [first_use], Inserted first_use)"
    using usage_append_events [OF plain_json_law ledger_ok_Nil example_typed(1),
        where td = ledger_tenancy and sm = "\<lambda>_. []"] by (simp add: example_verdicts)
  have "usage_key ?retry = usage_key first_use" "usage_mutation_equivalent first_use ?retry"
    by (simp_all add: usage_key_def first_use_def plain_event_def usage_mutation_equivalent_def)
  from usage_mutation_recorded_once [OF plain_json_law _ example_typed(1) _ ins this,
      of "[(ledger_tenancy, later_credit)]" ledger_tenancy]
  show ?thesis using example_typed by (simp add: plain_typed)
qed

end
