(* ===== verification/Redaction.thy ===== *)
theory Redaction
  imports Mukei_Prelude
begin

text \<open>
  Redaction of diagnostic text (\<open>diagnostics/redaction.rs\<close>): the canonical sanitizer, the fields whose
  value is never kept, and the identifiers allowed in telemetry.

  Strings are UTF-8 bytes. A character is a leading byte with its continuation bytes; \<open>utf8_ok\<close> is
  what Rust guarantees of a string that matters here, that the leading byte of a character tells
  how many bytes it has.
\<close>

section \<open>Characters\<close>

text \<open>\<open>str::chars\<close>\<close>
function chars_of :: "string \<Rightarrow> string list" where
  "chars_of [] = []"
| "chars_of (b # bs) = (b # takeWhile is_cont_byte bs) # chars_of (dropWhile is_cont_byte bs)"
  by pat_completeness auto
termination
  by (relation "measure length") (auto simp: less_Suc_eq_le length_dropWhile_le)

text \<open>\<open>char::is_control\<close>: the general category Cc, up to U+001F and from U+007F to U+009F.\<close>
fun is_control :: "string \<Rightarrow> bool" where
  "is_control [b] = is_ascii_control b"
| "is_control [a, b] = (code a = 0xC2 \<and> 0x80 \<le> code b \<and> code b \<le> 0x9F)"
| "is_control _ = False"

definition is_whitespace :: "string \<Rightarrow> bool" where
  "is_whitespace c \<longleftrightarrow> ws_len c > 0"

text \<open>\<open>str::split_whitespace\<close>\<close>
fun ws_words :: "string \<Rightarrow> string list \<Rightarrow> string list" where
  "ws_words cur [] = (if cur = [] then [] else [cur])"
| "ws_words cur (c # cs) =
     (if is_whitespace c then (if cur = [] then ws_words [] cs else cur # ws_words [] cs)
      else ws_words (cur @ c) cs)"

definition split_whitespace :: "string \<Rightarrow> string list" where
  "split_whitespace s = ws_words [] (chars_of s)"

text \<open>\<open>str::trim_matches\<close> for a set of ASCII characters\<close>
definition trim_matches :: "(char \<Rightarrow> bool) \<Rightarrow> string \<Rightarrow> string" where
  "trim_matches P s = rev (dropWhile P (rev (dropWhile P s)))"

text \<open>\<open>str::split_once\<close>\<close>
fun split_once :: "string \<Rightarrow> string \<Rightarrow> (string \<times> string) option" where
  "split_once sep [] = (if sep = [] then Some ([], []) else None)"
| "split_once sep (c # s) =
     (if starts_with sep (c # s) then Some ([], drop (length sep) (c # s))
      else map_option (\<lambda>(a, b). (c # a, b)) (split_once sep s))"

definition ends_with :: "string \<Rightarrow> string \<Rightarrow> bool" where
  "ends_with p s \<longleftrightarrow> starts_with (rev p) (rev s)"

section \<open>Shapes\<close>

definition REDACTED_SECRET :: string where "REDACTED_SECRET = ''[redacted-secret]''"
definition REDACTED_CONTENT :: string where "REDACTED_CONTENT = ''[redacted-content]''"
definition REDACTED_PATH :: string where "REDACTED_PATH = ''[redacted-path]''"
definition REDACTED_IDENTIFIER :: string where "REDACTED_IDENTIFIER = ''[redacted-identifier]''"
definition REDACTED_CONTENT_URI :: string where "REDACTED_CONTENT_URI = ''[redacted-content-uri]''"
definition REDACTED_URL :: string where "REDACTED_URL = ''[redacted-url]''"
definition MAX_DIAGNOSTIC_TEXT_CHARS :: nat where "MAX_DIAGNOSTIC_TEXT_CHARS = 4096"

definition ellipsis :: string where
  "ellipsis = [CHR 0xE2, CHR 0x80, CHR 0xA6]"

definition looks_like_secret :: "string \<Rightarrow> bool" where
  "looks_like_secret value \<longleftrightarrow>
     (let lower = to_ascii_lowercase value in
      list_ex (\<lambda>needle. str_contains needle lower)
        [''authorization:'', ''bearer '', ''api_key'', ''apikey'', ''access_token'', ''refresh_token'',
         ''client_secret'', ''db_key'', ''database_cipher_key'', ''x-subscription-token'', ''password='',
         ''token='']
      \<or> starts_with ''sk-'' value \<or> starts_with ''tvly-'' value)"

definition backslash :: char where
  "backslash = CHR 0x5C"

definition looks_like_path :: "string \<Rightarrow> bool" where
  "looks_like_path value \<longleftrightarrow>
     starts_with ''/data/'' value \<or> starts_with ''/sdcard/'' value \<or> starts_with ''/storage/'' value
     \<or> starts_with ''/home/'' value \<or> starts_with ''/Users/'' value \<or> starts_with ''file://'' value
     \<or> starts_with ''content://'' value \<or> str_contains ([backslash] @ ''Users'' @ [backslash]) value
     \<or> (length value > 3 \<and> value ! 1 = CHR '':'' \<and> value ! 2 \<in> {backslash, CHR ''/''})"

definition looks_like_url :: "string \<Rightarrow> bool" where
  "looks_like_url value \<longleftrightarrow>
     (let lower = to_ascii_lowercase value in
      starts_with ''http://'' lower \<or> starts_with ''https://'' lower
      \<or> starts_with ''ws://'' lower \<or> starts_with ''wss://'' lower)"

definition coarse_url_class :: "string \<Rightarrow> string" where
  "coarse_url_class value =
     (case split_once ''://'' value of
        None \<Rightarrow> REDACTED_URL
      | Some (scheme, _) \<Rightarrow>
          (let scheme = to_ascii_lowercase scheme in
           if scheme \<in> {''http'', ''https'', ''ws'', ''wss''} then REDACTED_URL @ '':'' @ scheme
           else REDACTED_URL))"

section \<open>The sanitizer\<close>

definition normalize_controls_bounded :: "string \<Rightarrow> nat \<Rightarrow> string \<times> bool" where
  "normalize_controls_bounded value max_chars =
     (concat (map (\<lambda>c. if is_control c then '' '' else c) (take max_chars (chars_of value))),
      length (chars_of value) > max_chars)"

definition truncate_chars :: "string \<Rightarrow> nat \<Rightarrow> string \<times> bool" where
  "truncate_chars value max_chars =
     (if max_chars = usize_max \<or> length (chars_of value) \<le> max_chars then (value, False)
      else if max_chars = 0 then ([], True)
      else if max_chars = 1 then (ellipsis, True)
      else (concat (take (max_chars - 1) (chars_of value)) @ ellipsis, True))"

definition token_punctuation :: "char \<Rightarrow> bool" where
  "token_punctuation c \<longleftrightarrow> c \<in> {CHR '','', CHR '';'', CHR ''('', CHR '')'', CHR ''['', CHR '']'',
     CHR ''{'', CHR ''}'', CHR 0x22, CHR 0x27}"

definition sanitize_token :: "string \<Rightarrow> string \<times> bool" where
  "sanitize_token part =
     (let stripped = trim_matches token_punctuation part in
      if looks_like_secret stripped then (REDACTED_SECRET, True)
      else if starts_with ''content://'' stripped then (REDACTED_CONTENT_URI, True)
      else if looks_like_path stripped then (REDACTED_PATH, True)
      else if looks_like_url stripped then (coarse_url_class stripped, True)
      else (part, False))"

definition clamp :: "nat \<Rightarrow> nat \<Rightarrow> nat \<Rightarrow> nat" where
  "clamp lo hi n = (if n < lo then lo else if n > hi then hi else n)"

definition sanitize_telemetry_text :: "string \<Rightarrow> nat \<Rightarrow> string" where
  "sanitize_telemetry_text value max_chars =
     (let effective_max = min max_chars MAX_DIAGNOSTIC_TEXT_CHARS;
          scan_limit = clamp 64 MAX_DIAGNOSTIC_TEXT_CHARS (usize_sat_mul effective_max 4);
          normalized = fst (normalize_controls_bounded value scan_limit);
          trimmed = trim normalized
      in if trimmed = [] then []
         else if looks_like_secret trimmed then REDACTED_SECRET
         else let sanitized = join_with '' '' (map (fst \<circ> sanitize_token) (split_whitespace trimmed))
              in fst (truncate_chars sanitized effective_max))"

definition sanitize_log_value :: "string \<Rightarrow> string" where
  "sanitize_log_value value = sanitize_telemetry_text value MAX_DIAGNOSTIC_TEXT_CHARS"

definition sanitize_error_message :: "string \<Rightarrow> string" where
  "sanitize_error_message message = sanitize_log_value message"

section \<open>Fields\<close>

definition matches_field_key :: "string \<Rightarrow> string list \<Rightarrow> string list \<Rightarrow> bool" where
  "matches_field_key value exact suffixes \<longleftrightarrow>
     value \<in> set exact \<or> list_ex (\<lambda>suffix. ends_with suffix value) suffixes"

definition telemetry_field_redaction :: "string \<Rightarrow> string option" where
  "telemetry_field_redaction key =
     (let lower = to_ascii_lowercase key in
      if matches_field_key lower
        [''authorization'', ''authorization_header'', ''api_key'', ''apikey'', ''access_token'',
         ''refresh_token'', ''client_secret'', ''password'', ''db_key'', ''database_key'',
         ''wrapped_key'', ''key_blob'', ''secret'', ''token'']
        [''_authorization'', ''_authorization_header'', ''_api_key'', ''_access_token'',
         ''_refresh_token'', ''_client_secret'', ''_password'', ''_db_key'', ''_database_key'',
         ''_wrapped_key'', ''_key_blob'', ''_secret'']
      then Some REDACTED_SECRET
      else if matches_field_key lower
        [''prompt'', ''completion'', ''assistant_content'', ''assistant_message'', ''user_content'',
         ''user_message'', ''raw_content'', ''document_content'', ''document_text'', ''chunk_text'',
         ''query_text'', ''input_text'', ''output_text'', ''message_body'']
        [''_prompt'', ''_completion'', ''_content'', ''_message'', ''_text'', ''_body'']
      then Some REDACTED_CONTENT
      else if matches_field_key lower
        [''file_path'', ''filepath'', ''private_path'', ''document_path'', ''directory_path'',
         ''document_name'', ''filename'', ''file_name'']
        [''_file_path'', ''_filepath'', ''_private_path'', ''_document_path'', ''_directory_path'',
         ''_document_name'', ''_filename'', ''_file_name'']
      then Some REDACTED_PATH
      else if matches_field_key lower
        [''device_id'', ''device_identifier'', ''installation_id'', ''advertising_id'', ''hardware_id'',
         ''serial_number'', ''customer_id'', ''tenant_id'']
        [''_device_id'', ''_device_identifier'', ''_installation_id'', ''_advertising_id'',
         ''_hardware_id'', ''_serial_number'', ''_customer_id'', ''_tenant_id'']
      then Some REDACTED_IDENTIFIER
      else None)"

definition sanitize_telemetry_field :: "string \<Rightarrow> string \<Rightarrow> nat \<Rightarrow> string" where
  "sanitize_telemetry_field key value max_chars =
     (case telemetry_field_redaction key of
        Some redacted \<Rightarrow> redacted
      | None \<Rightarrow> sanitize_telemetry_text value max_chars)"

section \<open>Identifiers\<close>

definition sanitize_ascii_identifier :: "string \<Rightarrow> nat \<Rightarrow> bool \<Rightarrow> string option" where
  "sanitize_ascii_identifier value max_len reject_secret_like =
     (let value = trim value in
      if value = [] \<or> length value > max_len \<or> (reject_secret_like \<and> looks_like_secret value) then None
      else if list_all (\<lambda>b. is_ascii_alphanumeric b \<or> b \<in> {CHR ''.'', CHR ''_'', CHR ''-'', CHR '':''}) value
      then Some value else None)"

definition sanitize_stable_identifier :: "string \<Rightarrow> nat \<Rightarrow> string option" where
  "sanitize_stable_identifier value max_len = sanitize_ascii_identifier value max_len True"

definition sanitize_telemetry_field_key :: "string \<Rightarrow> nat \<Rightarrow> string option" where
  "sanitize_telemetry_field_key value max_len = sanitize_ascii_identifier value max_len False"

definition is_safe_opaque_input :: "string \<Rightarrow> nat \<Rightarrow> bool" where
  "is_safe_opaque_input value max_len \<longleftrightarrow>
     (let value = trim value in
      value \<noteq> [] \<and> length value \<le> max_len
      \<and> list_all (\<lambda>b. is_ascii_alphanumeric b
           \<or> b \<in> {CHR ''.'', CHR ''_'', CHR ''-'', CHR '':'', CHR ''@''}) value
      \<and> \<not> looks_like_secret value \<and> \<not> looks_like_path value \<and> \<not> looks_like_url value
      \<and> \<not> starts_with ''content://'' value)"

section \<open>Paths\<close>

text \<open>\<open>Path::file_name\<close> and \<open>Path::extension\<close> on Unix paths\<close>
fun split_slash :: "string \<Rightarrow> string \<Rightarrow> string list" where
  "split_slash cur [] = [cur]"
| "split_slash cur (c # s) = (if c = CHR ''/'' then cur # split_slash [] s else split_slash (cur @ [c]) s)"

definition path_file_name :: "string \<Rightarrow> string option" where
  "path_file_name path =
     (case filter (\<lambda>s. s \<noteq> [] \<and> s \<noteq> ''.'') (split_slash [] path) of
        [] \<Rightarrow> None
      | parts \<Rightarrow> if last parts = ''..'' then None else Some (last parts))"

definition path_extension :: "string \<Rightarrow> string option" where
  "path_extension path =
     (case path_file_name path of
        None \<Rightarrow> None
      | Some name \<Rightarrow>
          (let after = takeWhile (\<lambda>c. c \<noteq> CHR ''.'') (rev name) in
           if length after + 1 \<ge> length name then None else Some (rev after)))"

definition sanitize_extension :: "string \<Rightarrow> string" where
  "sanitize_extension extension = to_ascii_lowercase (take 12 (filter is_ascii_alphanumeric extension))"

definition redact_path :: "string \<Rightarrow> string" where
  "redact_path path =
     (if path = [] then REDACTED_PATH
      else case path_extension path of
        None \<Rightarrow> REDACTED_PATH
      | Some extension \<Rightarrow>
          (let extension = sanitize_extension extension in
           if extension = [] then REDACTED_PATH else REDACTED_PATH @ ''.'' @ extension))"

section \<open>Characters and bytes\<close>

fun utf8_char :: "string \<Rightarrow> bool" where
  "utf8_char [a] \<longleftrightarrow> code a < 0x80"
| "utf8_char [a, b] \<longleftrightarrow> 0xC2 \<le> code a \<and> code a \<le> 0xDF"
| "utf8_char [a, b, c] \<longleftrightarrow> 0xE0 \<le> code a \<and> code a \<le> 0xEF"
| "utf8_char [a, b, c, d] \<longleftrightarrow> 0xF0 \<le> code a \<and> code a \<le> 0xF4"
| "utf8_char _ \<longleftrightarrow> False"

definition utf8_ok :: "string \<Rightarrow> bool" where
  "utf8_ok s \<longleftrightarrow> list_all utf8_char (chars_of s)"

text \<open>\<open>str::chars().count()\<close> of a well-formed string\<close>
definition scalar_count :: "string \<Rightarrow> nat" where
  "scalar_count s = length (filter (\<lambda>b. \<not> is_cont_byte b) s)"

lemma scalar_count_append [simp]: "scalar_count (a @ b) = scalar_count a + scalar_count b"
  by (simp add: scalar_count_def)

lemma concat_chars_of [simp]: "concat (chars_of s) = s"
  by (induction s rule: chars_of.induct) simp_all

lemma chars_of_shape:
  "c \<in> set (chars_of s) \<Longrightarrow> \<exists>b t. c = b # t \<and> list_all is_cont_byte t"
proof (induction s rule: chars_of.induct)
  case (2 b bs)
  then show ?case by (auto simp: list_all_iff dest: set_takeWhileD)
qed simp

lemma scalar_count_cont [simp]: "list_all is_cont_byte t \<Longrightarrow> scalar_count t = 0"
  by (auto simp: scalar_count_def list_all_iff filter_empty_conv)

lemma scalar_count_char: "c \<in> set (chars_of s) \<Longrightarrow> scalar_count c \<le> 1"
  using chars_of_shape [of c s] by (auto simp: scalar_count_def list_all_iff filter_empty_conv)

lemma scalar_count_concat: "(\<And>c. c \<in> set cs \<Longrightarrow> scalar_count c \<le> 1) \<Longrightarrow> scalar_count (concat cs) \<le> length cs"
proof (induction cs)
  case (Cons c cs)
  from Cons.prems [of c] Cons.IH Cons.prems show ?case by fastforce
qed (simp add: scalar_count_def)

lemma scalar_count_le_chars: "scalar_count s \<le> length (chars_of s)"
  using scalar_count_concat [of "chars_of s"] scalar_count_char by (metis concat_chars_of)

lemma while_append:
  "b = [] \<or> \<not> P (hd b) \<Longrightarrow> takeWhile P (a @ b) = takeWhile P a \<and> dropWhile P (a @ b) = dropWhile P a @ b"
  by (induction a) (auto simp: takeWhile_eq_Nil_iff dropWhile_eq_self_iff)

lemma chars_of_append: "b = [] \<or> \<not> is_cont_byte (hd b) \<Longrightarrow> chars_of (a @ b) = chars_of a @ chars_of b"
  by (induction a rule: chars_of.induct) (simp_all add: while_append)

lemma chars_tail_heads: "chars_of s = c # cs \<Longrightarrow> d \<in> set cs \<Longrightarrow> \<not> is_cont_byte (hd d)"
proof (induction s arbitrary: c cs rule: chars_of.induct)
  case (2 b bs)
  show ?case
  proof (cases "dropWhile is_cont_byte bs")
    case Nil
    then have "cs = []" using "2.prems"(1) by (simp add: Nil del: dropWhile_eq_Nil_conv)
    then show ?thesis using "2.prems"(2) by simp
  next
    case (Cons x xs)
    then have "\<not> is_cont_byte x" using hd_dropWhile [of is_cont_byte bs] by simp
    moreover obtain e es where e: "chars_of (dropWhile is_cont_byte bs) = e # es" "hd e = x" by (simp add: Cons)
    moreover have "cs = e # es" using "2.prems"(1) e(1) by simp
    then have "d = e \<or> d \<in> set es" using "2.prems"(2) by simp
    ultimately show ?thesis using "2.IH" by blast
  qed
qed simp

lemma chars_of_single: "b # u = c \<Longrightarrow> list_all is_cont_byte u \<Longrightarrow> chars_of c = [c]"
  by (auto simp: list_all_iff takeWhile_eq_all_conv [THEN iffD2] dropWhile_eq_Nil_conv [THEN iffD2])

lemma chars_of_concat:
  "list_all (\<lambda>c. c \<noteq> [] \<and> list_all is_cont_byte (tl c)) cs \<Longrightarrow> list_all (\<lambda>c. \<not> is_cont_byte (hd c)) (tl cs)
     \<Longrightarrow> chars_of (concat cs) = cs"
proof (induction cs)
  case (Cons c cs)
  have "concat cs = [] \<or> \<not> is_cont_byte (hd (concat cs))" using Cons.prems by (cases cs) auto
  then have "chars_of (c @ concat cs) = chars_of c @ chars_of (concat cs)" by (rule chars_of_append)
  moreover have "chars_of c = [c]" using Cons.prems by (intro chars_of_single [of "hd c" "tl c"]) auto
  moreover have "list_all (\<lambda>c. \<not> is_cont_byte (hd c)) (tl cs)" using Cons.prems by (cases cs) auto
  ultimately show ?case using Cons by simp
qed simp

lemma chars_of_take: "chars_of (concat (take k (chars_of s))) = take k (chars_of s)"
proof (rule chars_of_concat)
  show "list_all (\<lambda>c. c \<noteq> [] \<and> list_all is_cont_byte (tl c)) (take k (chars_of s))"
    using chars_of_shape by (fastforce simp: list_all_iff dest: in_set_takeD)
  have "\<not> is_cont_byte (hd d)" if "d \<in> set (tl (take k (chars_of s)))" for d
    using that chars_tail_heads [of s _ _ d] by (cases "chars_of s"; cases k) (auto dest: in_set_takeD)
  then show "list_all (\<lambda>c. \<not> is_cont_byte (hd c)) (tl (take k (chars_of s)))" by (simp add: list_all_iff)
qed

text \<open>Lists of well-formed characters.\<close>
definition utf8_chars :: "string list \<Rightarrow> bool" where
  "utf8_chars cs \<longleftrightarrow> (\<forall>c \<in> set cs. utf8_char c \<and> list_all is_cont_byte (tl c))"

lemma utf8_char_head: "utf8_char c \<Longrightarrow> c \<noteq> [] \<and> \<not> is_cont_byte (hd c)"
  by (cases c rule: utf8_char.cases) (auto simp: is_cont_byte_def)

lemma in_set_tlD: "x \<in> set (tl xs) \<Longrightarrow> x \<in> set xs"
  by (cases xs) auto

lemma chars_of_utf8: "utf8_chars cs \<Longrightarrow> chars_of (concat cs) = cs"
  by (rule chars_of_concat) (auto simp: utf8_chars_def list_all_iff dest: utf8_char_head in_set_tlD)

lemma utf8_chars_of: "utf8_ok s \<Longrightarrow> utf8_chars (chars_of s)"
  using chars_of_shape by (fastforce simp: utf8_ok_def utf8_chars_def list_all_iff)

lemma utf8_chars_subset: "utf8_chars cs \<Longrightarrow> set ds \<subseteq> set cs \<Longrightarrow> utf8_chars ds"
  by (auto simp: utf8_chars_def)

section \<open>Trimming and splitting\<close>

lemma ws_len_char:
  assumes "utf8_char c" "list_all is_cont_byte (tl c)"
  shows "ws_len (c @ r) \<in> {0, length c}" "ws_len_rev (rev c @ q) \<in> {0, length c}"
proof -
  show "ws_len (c @ r) \<in> {0, length c}"
    using assms by (cases c rule: utf8_char.cases; cases "c @ r" rule: ws_len.cases)
      (auto simp: ascii_ws_def ws2_def ws3_def is_cont_byte_def)
  show "ws_len_rev (rev c @ q) \<in> {0, length c}"
    using assms by (cases c rule: utf8_char.cases; cases "rev c @ q" rule: ws_len_rev.cases)
      (auto simp: ascii_ws_def ws2_def ws3_def is_cont_byte_def)
qed

lemma trim_start_chars: "utf8_chars cs \<Longrightarrow> \<exists>k. trim_start (concat cs) = concat (drop k cs)"
proof (induction cs)
  case (Cons c cs)
  then obtain k where k: "trim_start (concat cs) = concat (drop k cs)" by (auto simp: utf8_chars_def)
  have "ws_len (c @ concat cs) \<in> {0, length c}" using Cons.prems by (intro ws_len_char) (auto simp: utf8_chars_def)
  then have "trim_start (concat (c # cs)) = concat (drop 0 (c # cs)) \<or> trim_start (concat (c # cs)) = concat (drop (Suc k) (c # cs))"
    using k by (subst (1 2) trim_start.simps) auto
  then show ?case by blast
qed (simp add: trim_start.simps)

lemma trim_end_chars: "utf8_chars cs \<Longrightarrow> \<exists>k. trim_start_rev (rev (concat cs)) = rev (concat (take k cs))"
proof (induction cs rule: rev_induct)
  case (snoc c cs)
  then obtain k where k: "trim_start_rev (rev (concat cs)) = rev (concat (take k cs))" by (auto simp: utf8_chars_def)
  have "ws_len_rev (rev c @ rev (concat cs)) \<in> {0, length c}"
    using snoc.prems by (intro ws_len_char) (auto simp: utf8_chars_def)
  then have "trim_start_rev (rev (concat (cs @ [c]))) = rev (concat (take (length (cs @ [c])) (cs @ [c])))
      \<or> trim_start_rev (rev (concat (cs @ [c]))) = rev (concat (take (min k (length cs)) (cs @ [c])))"
    using k by (subst (1 2) trim_start_rev.simps) (auto simp: min_def)
  then show ?case by blast
qed (simp add: trim_start_rev.simps)

lemma trim_chars:
  assumes "utf8_ok s"
  shows "utf8_chars (chars_of (trim s))" "set (chars_of (trim s)) \<subseteq> set (chars_of s)"
proof -
  note cs = utf8_chars_of [OF assms]
  obtain k where k: "trim_start s = concat (drop k (chars_of s))" using trim_start_chars [OF cs] by auto
  have d: "utf8_chars (drop k (chars_of s))" using utf8_chars_subset [OF cs set_drop_subset] .
  obtain j where j: "trim s = concat (take j (drop k (chars_of s)))"
    using trim_end_chars [OF d] by (auto simp: trim_def k)
  have u: "set (take j (drop k (chars_of s))) \<subseteq> set (chars_of s)"
    by (meson order_trans set_take_subset set_drop_subset)
  then show "utf8_chars (chars_of (trim s))" "set (chars_of (trim s)) \<subseteq> set (chars_of s)"
    using chars_of_utf8 [OF utf8_chars_subset [OF cs u]] utf8_chars_subset [OF cs u] by (simp_all add: j)
qed

lemma ws_words_parts:
  assumes "w \<in> set (ws_words (concat ks) cs)" "\<forall>k \<in> set ks. \<not> is_whitespace k"
  shows "w \<noteq> [] \<and> (\<exists>ds. w = concat ds \<and> set ds \<subseteq> set ks \<union> set cs \<and> (\<forall>d \<in> set ds. \<not> is_whitespace d))"
  using assms
proof (induction cs arbitrary: ks)
  case (Cons c cs)
  show ?case
  proof (cases "is_whitespace c")
    case True
    then have "w = concat ks \<and> w \<noteq> [] \<or> w \<in> set (ws_words (concat []) cs)" using Cons.prems(1) by (auto split: if_splits)
    then show ?thesis using Cons.IH [of "[]"] Cons.prems(2) by fastforce
  next
    case False
    then have "w \<in> set (ws_words (concat (ks @ [c])) cs)" using Cons.prems(1) by simp
    then show ?thesis using Cons.IH [of "ks @ [c]"] Cons.prems(2) False by auto
  qed
qed (auto split: if_splits)

text \<open>A word: a non-empty run of characters other than whitespace.\<close>
definition solid :: "string \<Rightarrow> bool" where
  "solid w \<longleftrightarrow> w \<noteq> [] \<and> \<not> is_cont_byte (hd w) \<and> list_all (\<lambda>c. \<not> is_whitespace c) (chars_of w)"

lemma split_whitespace_words:
  assumes "utf8_chars (chars_of s)" "w \<in> set (split_whitespace s)"
  shows "solid w" "set (chars_of w) \<subseteq> set (chars_of s)"
proof -
  obtain ds where w: "w \<noteq> []" "w = concat ds" "set ds \<subseteq> set (chars_of s)" "\<forall>d \<in> set ds. \<not> is_whitespace d"
    using ws_words_parts [of w "[]" "chars_of s"] assms(2) by (auto simp: split_whitespace_def)
  have u: "utf8_chars ds" using utf8_chars_subset [OF assms(1) w(3)] .
  then have c: "chars_of w = ds" using chars_of_utf8 w(2) by simp
  moreover have "\<not> is_cont_byte (hd w)"
    using u w(1,2) utf8_char_head by (cases ds) (auto simp: utf8_chars_def)
  ultimately show "solid w" "set (chars_of w) \<subseteq> set (chars_of s)"
    using w by (simp_all add: solid_def list_all_iff)
qed

lemma ws_words_run: "\<forall>c \<in> set cs. \<not> is_whitespace c \<Longrightarrow> ws_words cur (cs @ r) = ws_words (cur @ concat cs) r"
  by (induction cs arbitrary: cur) auto

lemma chars_join:
  assumes "solid x" "list_all solid (y # ys)"
  shows "chars_of (join_with '' '' (x # y # ys)) = chars_of x @ '' '' # chars_of (join_with '' '' (y # ys))"
proof -
  let ?j = "join_with '' '' (y # ys)"
  have j: "\<not> is_cont_byte (hd ?j)" using assms(2) by (cases ys) (auto simp: solid_def)
  have s: "\<not> is_cont_byte CHR '' ''" by (simp add: is_cont_byte_def code_def)
  have "chars_of (x @ '' '' @ ?j) = chars_of x @ chars_of ('' '' @ ?j)" using s by (intro chars_of_append) simp
  moreover have "chars_of ('' '' @ ?j) = chars_of '' '' @ chars_of ?j" using j by (intro chars_of_append) blast
  ultimately show ?thesis by simp
qed

text \<open>Joining words with spaces and splitting the result gives the words back.\<close>
lemma split_join: "list_all solid ws \<Longrightarrow> split_whitespace (join_with '' '' ws) = ws"
proof (induction ws rule: induct_list012)
  case (2 x)
  then show ?case using ws_words_run [of "chars_of x" "[]" "[]"] by (simp add: split_whitespace_def solid_def list_all_iff)
next
  case (3 x y ys)
  have sp: "is_whitespace '' ''" by (simp add: is_whitespace_def ascii_ws_def code_def)
  have "split_whitespace (join_with '' '' (x # y # ys)) = ws_words [] (chars_of x @ '' '' # chars_of (join_with '' '' (y # ys)))"
    unfolding split_whitespace_def by (subst chars_join) (use 3 in auto)
  also have "\<dots> = x # split_whitespace (join_with '' '' (y # ys))"
    using 3 sp ws_words_run [of "chars_of x" "[]"] by (simp add: solid_def list_all_iff split_whitespace_def)
  finally show ?case using 3 by simp
qed (simp add: split_whitespace_def)

lemma join_chars: "list_all solid ws \<Longrightarrow> set (chars_of (join_with '' '' ws)) \<subseteq> {'' ''} \<union> (\<Union>w \<in> set ws. set (chars_of w))"
proof (induction ws rule: induct_list012)
  case (3 x y ys)
  have "chars_of (join_with '' '' (x # y # ys)) = chars_of x @ '' '' # chars_of (join_with '' '' (y # ys))"
    using 3 by (intro chars_join) auto
  then show ?case using 3 by auto
qed auto

section \<open>What the sanitizer guarantees\<close>

definition printable :: "string \<Rightarrow> bool" where
  "printable s \<longleftrightarrow> list_all (\<lambda>c. \<not> is_control c) (chars_of s)"

definition safe_token :: "string \<Rightarrow> bool" where
  "safe_token w \<longleftrightarrow>
     (let stripped = trim_matches token_punctuation w in
      \<not> looks_like_secret stripped \<and> \<not> looks_like_path stripped \<and> \<not> looks_like_url stripped
      \<and> \<not> starts_with ''content://'' stripped)"

definition markers :: "string list" where
  "markers = [REDACTED_SECRET, REDACTED_CONTENT_URI, REDACTED_PATH, REDACTED_URL, REDACTED_URL @ '':http'',
     REDACTED_URL @ '':https'', REDACTED_URL @ '':ws'', REDACTED_URL @ '':wss'']"

text \<open>What becomes of a word: it is kept, or replaced by one of the fixed markers.\<close>
definition redacts :: "string \<Rightarrow> string \<Rightarrow> bool" where
  "redacts w w' \<longleftrightarrow> (if safe_token w then w' = w else w' \<in> set markers)"

lemma coarse_url_cases: "coarse_url_class v \<in> set markers"
  by (auto simp: coarse_url_class_def markers_def Let_def split: option.splits)

lemma markers_safe: "m \<in> set markers \<Longrightarrow> safe_token m \<and> printable m \<and> solid m"
proof -
  have "list_all (\<lambda>m. safe_token m \<and> printable m \<and> solid m) markers" by code_simp
  then show "m \<in> set markers \<Longrightarrow> safe_token m \<and> printable m \<and> solid m" by (simp add: list_all_iff)
qed

lemma sanitize_token_redacts: "redacts w (fst (sanitize_token w))"
  using coarse_url_cases [of "trim_matches token_punctuation w"]
  by (auto simp: redacts_def sanitize_token_def safe_token_def Let_def) (auto simp: markers_def)

lemma redacts_keeps:
  assumes "redacts w w'"
  shows "safe_token w'" "printable w \<Longrightarrow> printable w'" "solid w \<Longrightarrow> solid w'"
  using assms markers_safe by (auto simp: redacts_def split: if_splits)

lemma normalized_chars:
  assumes "utf8_ok v"
  shows "utf8_ok (fst (normalize_controls_bounded v n))" "printable (fst (normalize_controls_bounded v n))"
proof -
  let ?cs = "map (\<lambda>c. if is_control c then '' '' else c) (take n (chars_of v))"
  have sp: "utf8_char '' ''" "\<not> is_control '' ''" by (simp_all add: is_ascii_control_def code_def)
  have "utf8_chars ?cs"
    using utf8_chars_of [OF assms] sp by (auto simp: utf8_chars_def dest: in_set_takeD)
  then have c: "chars_of (fst (normalize_controls_bounded v n)) = ?cs" and u: "list_all utf8_char ?cs"
    using chars_of_utf8 [of ?cs] by (simp_all only: normalize_controls_bounded_def fst_conv) (auto simp: utf8_chars_def list_all_iff)
  then show "utf8_ok (fst (normalize_controls_bounded v n))" by (simp only: utf8_ok_def)
  show "printable (fst (normalize_controls_bounded v n))"
    unfolding printable_def c using sp by (auto simp: list_all_iff)
qed

lemma truncate_printable: "printable v \<Longrightarrow> printable (fst (truncate_chars v n))"
proof -
  assume v: "printable v"
  have e: "chars_of ellipsis = [ellipsis]" "\<not> is_control ellipsis" "\<not> is_cont_byte (hd ellipsis)" by code_simp+
  have "chars_of (concat (take k (chars_of v)) @ ellipsis) = take k (chars_of v) @ [ellipsis]" for k
    using e by (subst chars_of_append) (simp_all add: chars_of_take)
  then show ?thesis using v e by (auto simp: truncate_chars_def printable_def list_all_iff dest: in_set_takeD)
qed

lemma truncate_count:
  assumes "n < usize_max"
  shows "scalar_count (fst (truncate_chars v n)) \<le> n"
proof -
  have e: "scalar_count ellipsis = 1" by code_simp
  have "scalar_count (concat (take k (chars_of v))) \<le> k" for k
    using scalar_count_concat [of "take k (chars_of v)"] scalar_count_char
    by (fastforce dest: in_set_takeD)
  from this [of "n - 1"] e assms scalar_count_le_chars [of v] show ?thesis
    by (auto simp: truncate_chars_def scalar_count_def)
qed

text \<open>
  C39: what the diagnostics may print. The sanitizer looks at the first \<open>4 m\<close> characters of the text
  (at least 64, at most 4096), where \<open>m\<close> is the requested length, at most 4096. If what it sees, trimmed, looks
  like a secret, the result is the fixed marker. Otherwise the result has at most \<open>m\<close> characters and is
  the truncation of the words of the text, separated by single spaces, in which every word that
  looks like a secret, a path, a URL or a content URI once its punctuation is stripped is replaced
  by a fixed marker and every other word is kept: split at whitespace, the text that is truncated
  consists of words none of which looks sensitive. In no case does the result contain a control
  character, so it cannot break out of its log line.
\<close>
theorem sanitized_text_safe:
  assumes "utf8_ok value"
  shows "let out = sanitize_telemetry_text value n; m = min n 4096;
      seen = trim (fst (normalize_controls_bounded value (max 64 (min 4096 (4 * m))))) in
    list_all (\<lambda>c. \<not> is_control c) (chars_of out)
    \<and> (if looks_like_secret seen then out = REDACTED_SECRET
       else scalar_count out \<le> m
         \<and> (\<exists>ws. list_all2 redacts (split_whitespace seen) ws \<and> out = fst (truncate_chars (join_with '' '' ws) m)
              \<and> split_whitespace (join_with '' '' ws) = ws \<and> list_all safe_token ws))"
proof -
  define m where "m = min n 4096"
  define t where "t = trim (fst (normalize_controls_bounded value (max 64 (min 4096 (4 * m)))))"
  define ws where "ws = map (fst \<circ> sanitize_token) (split_whitespace t)"
  define res where "res = fst (truncate_chars (join_with '' '' ws) m)"
  have limit: "clamp 64 MAX_DIAGNOSTIC_TEXT_CHARS (usize_sat_mul (min n MAX_DIAGNOSTIC_TEXT_CHARS) 4) = max 64 (min 4096 (4 * m))"
    by (auto simp: clamp_def m_def MAX_DIAGNOSTIC_TEXT_CHARS_def usize_sat_mul_def usize_max_def)
  have no_secret: "\<not> looks_like_secret []" by code_simp
  have "t = [] \<Longrightarrow> res = []"
    by (simp add: res_def ws_def split_whitespace_def truncate_chars_def)
  then have out: "sanitize_telemetry_text value n = (if looks_like_secret t then REDACTED_SECRET else res)"
    using no_secret unfolding sanitize_telemetry_text_def Let_def limit
    by (simp add: t_def m_def ws_def res_def MAX_DIAGNOSTIC_TEXT_CHARS_def)
  note norm = normalized_chars [OF assms, where n = "max 64 (min 4096 (4 * m))"]
  have t: "utf8_chars (chars_of t)" "printable t"
    using trim_chars [OF norm(1)] norm(2) by (auto simp: t_def printable_def list_all_iff)
  have words: "solid w" "printable w" if "w \<in> set (split_whitespace t)" for w
    using split_whitespace_words [OF t(1) that] t(2) by (auto simp: printable_def list_all_iff)
  have r: "list_all2 redacts (split_whitespace t) ws"
    by (simp add: ws_def list_all2_conv_all_nth sanitize_token_redacts)
  have kept: "safe_token w \<and> solid w \<and> printable w" if "w \<in> set ws" for w
    using that words redacts_keeps [OF sanitize_token_redacts] by (auto simp: ws_def)
  have "printable (join_with '' '' ws)"
    using join_chars [of ws] kept by (fastforce simp: printable_def list_all_iff is_ascii_control_def code_def)
  then have "printable res" unfolding res_def by (rule truncate_printable)
  moreover have "printable REDACTED_SECRET" using markers_safe by (simp add: markers_def)
  moreover have "scalar_count res \<le> m"
    unfolding res_def by (rule truncate_count) (simp add: m_def usize_max_def)
  moreover have "split_whitespace (join_with '' '' ws) = ws" "list_all safe_token ws"
    using kept by (simp_all add: split_join list_all_iff)
  ultimately show ?thesis
    using r unfolding Let_def m_def [symmetric] t_def [symmetric] out
    by (auto simp: printable_def [symmetric] res_def)
qed

text \<open>Texts of at most 64 characters are scanned whole.\<close>
lemma sanitize_short:
  assumes "length (chars_of v) \<le> 64"
  shows "sanitize_telemetry_text v n =
     (let t = trim (concat (map (\<lambda>c. if is_control c then '' '' else c) (chars_of v))) in
      if t = [] then [] else if looks_like_secret t then REDACTED_SECRET
      else fst (truncate_chars (join_with '' '' (map (fst \<circ> sanitize_token) (split_whitespace t)))
                  (min n MAX_DIAGNOSTIC_TEXT_CHARS)))"
proof -
  have "64 \<le> clamp 64 MAX_DIAGNOSTIC_TEXT_CHARS k" for k
    by (simp add: clamp_def MAX_DIAGNOSTIC_TEXT_CHARS_def)
  then have "take (clamp 64 MAX_DIAGNOSTIC_TEXT_CHARS k) (chars_of v) = chars_of v" for k
    using assms order_trans by (metis take_all)
  then show ?thesis by (simp add: sanitize_telemetry_text_def normalize_controls_bounded_def Let_def)
qed

theorem sanitized_text_safe_witness:
  "utf8_ok ''open /data/x''
   \<and> (\<exists>ws. sanitize_telemetry_text ''open /data/x'' 40 = fst (truncate_chars (join_with '' '' ws) 40)
        \<and> list_all2 redacts [''open'', ''/data/x''] ws \<and> list_all safe_token ws)
   \<and> redacts ''/data/x'' REDACTED_PATH \<and> \<not> redacts ''/data/x'' ''/data/x''"
proof -
  let ?v = "''open /data/x''"
  have ok: "utf8_ok ?v" by code_simp
  have g: "graphic CHR ''o''" "graphic CHR ''x''" by (simp_all add: graphic_def code_def)
  have norm: "fst (normalize_controls_bounded ?v 160) = ?v" by code_simp
  have t: "trim ?v = ?v" using trim_graphic_ends [OF g, of "''pen /data/''"] by simp
  have s: "\<not> looks_like_secret ?v" "split_whitespace ?v = [''open'', ''/data/x'']" by code_simp+
  have "redacts ''/data/x'' REDACTED_PATH" "\<not> redacts ''/data/x'' ''/data/x''" by code_simp+
  moreover have "\<exists>ws. sanitize_telemetry_text ?v 40 = fst (truncate_chars (join_with '' '' ws) 40)
      \<and> list_all2 redacts [''open'', ''/data/x''] ws \<and> list_all safe_token ws"
    using sanitized_text_safe [OF ok, of 40] s by (auto simp: Let_def norm t)
  ultimately show ?thesis using ok by blast
qed

text \<open>A field that must not be kept is answered with a marker that does not depend on its value.\<close>
lemma redacted_field_constant:
  "telemetry_field_redaction key = Some r \<Longrightarrow> sanitize_telemetry_field key v n = r"
  by (simp add: sanitize_telemetry_field_def)

lemma chars_of_ascii:
  assumes "\<forall>b \<in> set s. code b < 128"
  shows "chars_of s = map (\<lambda>b. [b]) s"
proof -
  have "utf8_chars (map (\<lambda>b. [b]) s)" using assms by (simp add: utf8_chars_def)
  then show ?thesis using chars_of_utf8 [of "map (\<lambda>b. [b]) s"] by simp
qed

lemma stable_identifier_ok:
  assumes "sanitize_stable_identifier v n = Some w"
  shows "w = trim v \<and> w \<noteq> [] \<and> length w \<le> n \<and> \<not> looks_like_secret w \<and> printable w"
proof -
  have w: "w = trim v" "w \<noteq> []" "length w \<le> n" "\<not> looks_like_secret w"
    and c: "\<forall>b \<in> set w. 32 \<le> code b \<and> code b < 127"
    using assms by (auto simp: sanitize_stable_identifier_def sanitize_ascii_identifier_def Let_def
        list_all_iff is_ascii_alphanumeric_def code_def split: if_splits)
  have "chars_of w = map (\<lambda>b. [b]) w" using c by (intro chars_of_ascii) auto
  then have "printable w" using c by (auto simp: printable_def list_all_iff is_ascii_control_def)
  then show ?thesis using w by blast
qed

text \<open>
  The check for a bearer credential looks for a plain space, but the words of the text are joined
  with plain spaces afterwards: a credential behind another whitespace character is kept, and the
  result itself looks like a secret.
\<close>
theorem bearer_behind_nbsp_is_kept:
  "sanitize_log_value (''Bearer'' @ [CHR 0xC2, CHR 0xA0] @ ''abc'') = ''Bearer abc''
   \<and> looks_like_secret ''Bearer abc''"
proof
  let ?v = "''Bearer'' @ [CHR 0xC2, CHR 0xA0] @ ''abc''"
  have g: "graphic CHR ''B''" "graphic CHR ''c''" by (simp_all add: graphic_def code_def)
  have chars: "chars_of ?v = [''B'', ''e'', ''a'', ''r'', ''e'', ''r'', [CHR 0xC2, CHR 0xA0], ''a'', ''b'', ''c'']"
    by code_simp
  have norm: "concat (map (\<lambda>c. if is_control c then '' '' else c) (chars_of ?v)) = ?v"
    unfolding chars by code_simp
  have t: "trim ?v = ?v"
    using trim_graphic_ends [OF g, of "''earer'' @ [CHR 0xC2, CHR 0xA0] @ ''ab''"] by simp
  have ns: "\<not> looks_like_secret ?v" by code_simp
  have w: "join_with '' '' (map (fst \<circ> sanitize_token) (split_whitespace ?v)) = ''Bearer abc''" by code_simp
  have "length (chars_of ''Bearer abc'') = 10" by code_simp
  then have tr: "truncate_chars ''Bearer abc'' 4096 = (''Bearer abc'', False)" by (simp add: truncate_chars_def)
  have len: "length (chars_of ?v) \<le> 64" unfolding chars by simp
  have ne: "?v \<noteq> []" by simp
  show "sanitize_log_value ?v = ''Bearer abc''"
    unfolding sanitize_log_value_def sanitize_short [OF len] norm t w Let_def min.idem
      MAX_DIAGNOSTIC_TEXT_CHARS_def tr if_not_P [OF ns] if_not_P [OF ne] by simp
  show "looks_like_secret ''Bearer abc''" by code_simp
qed

text \<open>The secret marker is not subject to the requested bound.\<close>
theorem secret_marker_ignores_bound:
  "scalar_count (sanitize_telemetry_text ''sk-1'' 4) = 17"
proof -
  have g: "graphic CHR ''s''" "graphic CHR ''1''" by (simp_all add: graphic_def code_def)
  have t: "trim ''sk-1'' = ''sk-1''" using trim_graphic_ends [OF g, of "''k-''"] by simp
  have norm: "concat (map (\<lambda>c. if is_control c then '' '' else c) (chars_of ''sk-1'')) = ''sk-1''" by code_simp
  have len: "length (chars_of ''sk-1'') \<le> 64" by code_simp
  have sec: "looks_like_secret ''sk-1''" by code_simp
  have "scalar_count REDACTED_SECRET = 17" by code_simp
  then show ?thesis
    unfolding sanitize_short [OF len] norm t Let_def if_P [OF sec] if_not_P [OF list.distinct(2)] .
qed

end
