(* ===== verification/Network_Policy.thy ===== *)
theory Network_Policy
  imports Mukei_Errors Redaction
begin

text \<open>
  The shared network policy (\<open>network.rs\<close>): client policies, the mapping of HTTP failures to the
  error taxonomy, the backoff of \<open>RetryPolicy\<close> and the retry loop around an idempotent request.

  What \<open>reqwest\<close> reports of a failure is a record; \<open>show_status\<close> prints a status code with its reason.
  The answers to the requests and the ends of the sleeps are observations, indexed by the retries
  completed so far.
\<close>

section \<open>Client policies\<close>

definition secs :: "nat \<Rightarrow> duration" where "secs n = n * 10 ^ 9"
definition millis :: "nat \<Rightarrow> duration" where "millis n = n * 10 ^ 6"

definition DEFAULT_CONNECT_TIMEOUT :: duration where "DEFAULT_CONNECT_TIMEOUT = secs 15"
definition DEFAULT_READ_TIMEOUT :: duration where "DEFAULT_READ_TIMEOUT = secs 60"
definition DEFAULT_MAX_REDIRECTS :: nat where "DEFAULT_MAX_REDIRECTS = 3"
definition MODEL_DOWNLOAD_TOTAL_TIMEOUT :: duration where "MODEL_DOWNLOAD_TOTAL_TIMEOUT = secs (6 * 60 * 60)"

record NetworkClientPolicy =
  np_user_agent :: string
  np_connect_timeout :: duration
  np_read_timeout :: duration
  np_total_timeout :: duration
  np_max_redirects :: nat

text \<open>\<open>version\<close> is the package version.\<close>
definition model_download_client :: "string \<Rightarrow> NetworkClientPolicy" where
  "model_download_client version =
     \<lparr>np_user_agent = ''mukei-bridge/'' @ version, np_connect_timeout = DEFAULT_CONNECT_TIMEOUT,
      np_read_timeout = DEFAULT_READ_TIMEOUT, np_total_timeout = MODEL_DOWNLOAD_TOTAL_TIMEOUT,
      np_max_redirects = DEFAULT_MAX_REDIRECTS\<rparr>"

definition search_client :: "string \<Rightarrow> duration \<Rightarrow> NetworkClientPolicy" where
  "search_client version total_timeout =
     \<lparr>np_user_agent = ''mukei-core/'' @ version,
      np_connect_timeout = min DEFAULT_CONNECT_TIMEOUT total_timeout,
      np_read_timeout = min DEFAULT_READ_TIMEOUT total_timeout, np_total_timeout = total_timeout,
      np_max_redirects = DEFAULT_MAX_REDIRECTS\<rparr>"

section \<open>Errors\<close>

record reqwest_error =
  rq_is_timeout :: bool
  rq_status :: "u16 option"
  rq_is_decode :: bool
  rq_is_connect :: bool
  rq_text :: string

definition http_status_error :: "(u16 \<Rightarrow> string) \<Rightarrow> string \<Rightarrow> u16 \<Rightarrow> MukeiError" where
  "http_status_error show_status operation status =
     (let operation = sanitize_log_value operation in
      if status = 408 then NetworkTimeout operation
      else if status = 429 then NetworkRateLimited operation
      else if 500 \<le> status \<and> status \<le> 599 then NetworkServerError status operation
      else NetworkError (''HTTP '' @ show_status status @ '' during '' @ operation))"

definition map_reqwest_error :: "(u16 \<Rightarrow> string) \<Rightarrow> string \<Rightarrow> reqwest_error \<Rightarrow> MukeiError" where
  "map_reqwest_error show_status operation e =
     (let operation = sanitize_log_value operation in
      if rq_is_timeout e then NetworkTimeout operation
      else case rq_status e of
        Some status \<Rightarrow> http_status_error show_status operation status
      | None \<Rightarrow>
          if rq_is_decode e then NetworkInvalidResponse operation
          else let lower = to_ascii_lowercase (rq_text e) in
               if str_contains ''tls'' lower \<or> str_contains ''certificate'' lower \<or> str_contains ''cert'' lower
               then NetworkTls operation
               else if rq_is_connect e \<or> str_contains ''dns'' lower \<or> str_contains ''resolve'' lower
                  \<or> str_contains ''connection'' lower
               then NetworkUnavailable operation
               else NetworkError (operation @ '': '' @ sanitize_error_message (rq_text e)))"

section \<open>Backoff\<close>

record RetryPolicy =
  rp_max_attempts :: u32
  rp_base_delay :: duration
  rp_max_delay :: duration

definition web_search_retry :: RetryPolicy where
  "web_search_retry = \<lparr>rp_max_attempts = 3, rp_base_delay = millis 500, rp_max_delay = secs 8\<rparr>"

definition model_download_retry :: RetryPolicy where
  "model_download_retry = \<lparr>rp_max_attempts = 4, rp_base_delay = secs 2, rp_max_delay = secs 30\<rparr>"

text \<open>The largest \<open>Duration\<close>, and \<open>Duration::checked_mul\<close>\<close>
definition duration_max :: duration where
  "duration_max = (2 ^ 64 - 1) * 10 ^ 9 + 999999999"

definition duration_checked_mul :: "duration \<Rightarrow> nat \<Rightarrow> duration option" where
  "duration_checked_mul d f = (if d * f \<le> duration_max then Some (d * f) else None)"

definition splitmix :: "u64 \<Rightarrow> u64" where
  "splitmix state =
     (let z = state + 0x9E3779B97F4A7C15;
          z = (z XOR drop_bit 30 z) * 0xBF58476D1CE4E5B9;
          z = (z XOR drop_bit 27 z) * 0x94D049BB133111EB
      in z XOR drop_bit 31 z)"

definition delay_cap :: "RetryPolicy \<Rightarrow> u32 \<Rightarrow> duration" where
  "delay_cap p attempt =
     (let shift = min (unat (saturating_sub attempt 1)) 20;
          candidate = (case duration_checked_mul (rp_base_delay p) (2 ^ shift) of
                         None \<Rightarrow> rp_max_delay p | Some c \<Rightarrow> c)
      in min candidate (rp_max_delay p))"

definition delay_nanos :: "RetryPolicy \<Rightarrow> u32 \<Rightarrow> nat" where
  "delay_nanos p attempt = min (delay_cap p attempt) (2 ^ 64 - 1)"

text \<open>
  \<open>next_delay\<close>; \<open>subsec\<close> are the sub-second nanoseconds of the wall clock. The sum \<open>nanos + 1\<close>
  overflows when the cap does not fit below the largest \<open>u64\<close>: a panic, \<^const>\<open>None\<close>.
\<close>
definition next_delay :: "RetryPolicy \<Rightarrow> u64 \<Rightarrow> u32 \<Rightarrow> duration option" where
  "next_delay p subsec attempt =
     (if attempt = 0 then Some 0
      else let nanos = delay_nanos p attempt in
           if nanos = 0 then Some 0
           else if nanos = 2 ^ 64 - 1 then None
           else Some (unat (splitmix (subsec XOR ucast attempt XOR of_nat nanos)) mod (nanos + 1)))"

definition is_retryable :: "MukeiError \<Rightarrow> bool" where
  "is_retryable err =
     (case err of
        NetworkTimeout _ \<Rightarrow> True | NetworkUnavailable _ \<Rightarrow> True | NetworkTls _ \<Rightarrow> True
      | NetworkRateLimited _ \<Rightarrow> True | NetworkServerError _ _ \<Rightarrow> True
      | NetworkInvalidResponse _ \<Rightarrow> True | _ \<Rightarrow> False)"

definition clone_network_error :: "MukeiError \<Rightarrow> MukeiError" where
  "clone_network_error err =
     (case err of
        NetworkError s \<Rightarrow> NetworkError s | NetworkTimeout s \<Rightarrow> NetworkTimeout s
      | NetworkUnavailable s \<Rightarrow> NetworkUnavailable s | NetworkTls s \<Rightarrow> NetworkTls s
      | NetworkInvalidResponse s \<Rightarrow> NetworkInvalidResponse s
      | NetworkRateLimited s \<Rightarrow> NetworkRateLimited s
      | NetworkServerError st s \<Rightarrow> NetworkServerError st s
      | other \<Rightarrow> NetworkError (sanitize_log_value (error_code other)))"

definition check_attempt :: "RetryPolicy \<Rightarrow> u32 \<Rightarrow> MukeiError \<Rightarrow> unit result" where
  "check_attempt p attempt err =
     (if attempt \<ge> rp_max_attempts p \<or> \<not> is_retryable err then Inl (clone_network_error err) else Inr ())"

section \<open>The retry loop\<close>

text \<open>What a wait ends with: the caller's cancellation or its own result.\<close>
datatype 'a io = IoCancelled | IoDone 'a

record 'r retry_env =
  rv_send :: "nat \<Rightarrow> (reqwest_error + u16 \<times> 'r) io"
  rv_sleep :: "nat \<Rightarrow> unit io"
  rv_subsec :: "nat \<Rightarrow> u64"

datatype net_event = NetSend | NetSleep duration

definition settle_response ::
  "(u16 \<Rightarrow> string) \<Rightarrow> string \<Rightarrow> (u16 \<Rightarrow> bool) \<Rightarrow> reqwest_error + u16 \<times> 'r \<Rightarrow> 'r result" where
  "settle_response show_status operation accept_status outcome =
     (case outcome of
        Inr (status, response) \<Rightarrow>
          if accept_status status then Inr response
          else Inl (http_status_error show_status operation status)
      | Inl e \<Rightarrow> Inl (map_reqwest_error show_status operation e))"

lemma unat_saturating_add_1:
  fixes a m :: "'a::len word"
  assumes "unat a < unat m"
  shows "unat (saturating_add a 1) = unat a + 1"
proof -
  have "unat m < 2 ^ LENGTH('a)" by simp
  with assms have lt: "unat a + 1 < 2 ^ LENGTH('a)" by linarith
  then have "(1::nat) < 2 ^ LENGTH('a)" by linarith
  then have "unat (1 :: 'a word) = 1" by (simp add: unsigned_1)
  with lt show ?thesis by (simp add: unat_saturating_add)
qed

lemma retry_measure:
  fixes a m :: "'a::len word"
  shows
  "unat a < unat m \<Longrightarrow> unat m - unat (saturating_add a 1) < unat m - unat a"
  using unat_saturating_add_1 [of a m] by simp

function retry_loop ::
  "'r retry_env \<Rightarrow> (u16 \<Rightarrow> string) \<Rightarrow> string \<Rightarrow> RetryPolicy \<Rightarrow> (u16 \<Rightarrow> bool) \<Rightarrow> u32
     \<Rightarrow> net_event list \<times> 'r result option" where
  "retry_loop env show_status operation p accept_status retries =
     (case rv_send env (unat retries) of
        IoCancelled \<Rightarrow> ([NetSend], Some (Inl Cancelled))
      | IoDone outcome \<Rightarrow>
          (case settle_response show_status operation accept_status outcome of
             Inr response \<Rightarrow> ([NetSend], Some (Inr response))
           | Inl err \<Rightarrow>
               if retries < rp_max_attempts p \<and> is_retryable err then
                 (case next_delay p (rv_subsec env (unat retries)) (saturating_add retries 1) of
                    None \<Rightarrow> ([NetSend], None)
                  | Some delay \<Rightarrow>
                      (case rv_sleep env (unat retries) of
                         IoCancelled \<Rightarrow> ([NetSend, NetSleep delay], Some (Inl Cancelled))
                       | IoDone _ \<Rightarrow>
                           (case retry_loop env show_status operation p accept_status (saturating_add retries 1) of
                              (events, r) \<Rightarrow> (NetSend # NetSleep delay # events, r))))
               else ([NetSend], Some (Inl err))))"
  by pat_completeness auto
termination
  by (relation "measure (\<lambda>(_, _, _, p, _, retries). unat (rp_max_attempts p) - unat retries)")
     (auto simp: word_less_nat_alt intro: retry_measure)

declare retry_loop.simps [simp del]

definition send_request_with_retry_cancellable ::
  "'r retry_env \<Rightarrow> (u16 \<Rightarrow> string) \<Rightarrow> string \<Rightarrow> RetryPolicy \<Rightarrow> (u16 \<Rightarrow> bool)
     \<Rightarrow> net_event list \<times> 'r result option" where
  "send_request_with_retry_cancellable env show_status operation p accept_status =
     retry_loop env show_status operation p accept_status 0"

text \<open>Without a cancellation token no wait is cancelled.\<close>
definition send_request_with_retry ::
  "(nat \<Rightarrow> reqwest_error + u16 \<times> 'r) \<Rightarrow> (nat \<Rightarrow> u64) \<Rightarrow> (u16 \<Rightarrow> string) \<Rightarrow> string \<Rightarrow> RetryPolicy \<Rightarrow> (u16 \<Rightarrow> bool)
     \<Rightarrow> net_event list \<times> 'r result option" where
  "send_request_with_retry answers subsec show_status operation p accept_status =
     retry_loop \<lparr>rv_send = IoDone \<circ> answers, rv_sleep = (\<lambda>_. IoDone ()), rv_subsec = subsec\<rparr>
       show_status operation p accept_status 0"

section \<open>Backoff and retries are bounded\<close>

lemma delay_nanos_le: "delay_nanos p n \<le> rp_max_delay p"
  by (simp add: delay_nanos_def delay_cap_def Let_def min.coboundedI1)

lemma next_delay_le:
  assumes "next_delay p c n = Some d"
  shows "d \<le> rp_max_delay p"
proof -
  have "d = 0 \<or> (\<exists>x. d = x mod (delay_nanos p n + 1))"
    using assms by (auto simp: next_delay_def Let_def split: if_splits)
  moreover have "x mod (delay_nanos p n + 1) \<le> delay_nanos p n" for x
    using mod_less_divisor [of "delay_nanos p n + 1" x] by linarith
  ultimately have "d \<le> delay_nanos p n" by auto
  then show ?thesis using delay_nanos_le [of p n] by linarith
qed

lemma next_delay_Some:
  assumes "rp_max_delay p < 2 ^ 64 - 1"
  shows "\<exists>d. next_delay p c n = Some d"
proof -
  have "delay_nanos p n \<noteq> 2 ^ 64 - 1" using assms delay_nanos_le [of p n] by linarith
  then show ?thesis by (simp add: next_delay_def Let_def)
qed

definition sends :: "net_event list \<Rightarrow> nat" where
  "sends tr = length (filter (\<lambda>e. e = NetSend) tr)"

lemma sends_simps [simp]:
  "sends [] = 0" "sends (NetSend # tr) = Suc (sends tr)" "sends (NetSleep d # tr) = sends tr"
  by (simp_all add: sends_def)

text \<open>What a run of the loop from a given number of completed retries satisfies.\<close>
definition retry_run_ok ::
  "'r retry_env \<Rightarrow> RetryPolicy \<Rightarrow> (u16 \<Rightarrow> bool) \<Rightarrow> nat \<Rightarrow> net_event list \<times> 'r result option \<Rightarrow> bool" where
  "retry_run_ok env p accept_status budget run =
     (case run of (tr, r) \<Rightarrow>
        1 \<le> sends tr \<and> sends tr \<le> budget + 1
        \<and> (\<forall>d. NetSleep d \<in> set tr \<longrightarrow> d \<le> rp_max_delay p)
        \<and> (rp_max_delay p < 2 ^ 64 - 1 \<longrightarrow> r \<noteq> None)
        \<and> (\<forall>x. r = Some (Inr x) \<longrightarrow> (\<exists>i status. rv_send env i = IoDone (Inr (status, x)) \<and> accept_status status))
        \<and> (\<forall>e. r = Some (Inl e) \<longrightarrow> e = Cancelled \<or> \<not> is_retryable e \<or> sends tr = budget + 1))"

lemma retry_run_step:
  assumes "retry_run_ok env p acc budget run" and "d \<le> rp_max_delay p"
  shows "retry_run_ok env p acc (Suc budget) (case run of (tr, r) \<Rightarrow> (NetSend # NetSleep d # tr, r))"
  using assms by (cases run) (auto simp: retry_run_ok_def)

lemma retry_loop_ok:
  "unat r \<le> unat (rp_max_attempts p) \<Longrightarrow>
     retry_run_ok env p acc (unat (rp_max_attempts p) - unat r) (retry_loop env st op p acc r)"
proof (induction env st op p acc r rule: retry_loop.induct)
  case (1 env st op p acc r)
  show ?case
  proof (cases "rv_send env (unat r)")
    case IoCancelled
    then show ?thesis by (subst retry_loop.simps) (simp add: retry_run_ok_def)
  next
    case (IoDone outcome)
    show ?thesis
    proof (cases "settle_response st op acc outcome")
      case (Inr x)
      then have "\<exists>status. outcome = Inr (status, x) \<and> acc status"
        by (auto simp: settle_response_def split: sum.splits if_splits)
      with IoDone Inr show ?thesis by (subst retry_loop.simps) (auto simp: retry_run_ok_def)
    next
      case (Inl err)
      note go = IoDone Inl
      show ?thesis
      proof (cases "r < rp_max_attempts p \<and> is_retryable err")
        case False
        with go 1(2) show ?thesis
          by (subst retry_loop.simps) (auto simp: retry_run_ok_def word_less_nat_alt not_less)
      next
        case True
        then have lt: "unat r < unat (rp_max_attempts p)" by (simp add: word_less_nat_alt)
        note nxt = unat_saturating_add_1 [OF lt]
        show ?thesis
        proof (cases "next_delay p (rv_subsec env (unat r)) (saturating_add r 1)")
          case None
          then have "\<not> rp_max_delay p < 2 ^ 64 - 1" using next_delay_Some by (metis option.distinct(1))
          with go True None show ?thesis
            by (subst retry_loop.simps) (simp add: retry_run_ok_def)
        next
          case (Some d)
          note d = next_delay_le [OF Some]
          show ?thesis
          proof (cases "rv_sleep env (unat r)")
            case IoCancelled
            with go True Some d show ?thesis by (subst retry_loop.simps) (simp add: retry_run_ok_def)
          next
            case (IoDone u)
            have "retry_run_ok env p acc (unat (rp_max_attempts p) - unat (saturating_add r 1))
                (retry_loop env st op p acc (saturating_add r 1))"
              using 1(1) [OF go True Some IoDone] lt nxt by simp
            from retry_run_step [OF this d] go True Some IoDone lt nxt show ?thesis
              by (subst retry_loop.simps) (simp add: Suc_diff_Suc)
          qed
        qed
      qed
    qed
  qed
qed

text \<open>
  Retries of a network request are bounded. Whatever the server, the clock and the caller's
  cancellation do, a request is sent at least once and at most \<open>max_attempts + 1\<close> times, no pause
  exceeds \<open>max_delay\<close>, and the loop returns. It returns a response only for a status the caller
  accepts, and an error that could have been retried only when the attempts are used up.
\<close>
theorem network_retries_bounded:
  assumes "rp_max_delay p < 2 ^ 64 - 1"
  shows "case send_request_with_retry_cancellable env show_status operation p accept_status of (tr, r) \<Rightarrow>
     1 \<le> sends tr \<and> sends tr \<le> unat (rp_max_attempts p) + 1
     \<and> (\<forall>d. NetSleep d \<in> set tr \<longrightarrow> d \<le> rp_max_delay p)
     \<and> (\<exists>x. r = Some x \<and>
          (case x of
             Inr response \<Rightarrow> \<exists>i status. rv_send env i = IoDone (Inr (status, response)) \<and> accept_status status
           | Inl e \<Rightarrow> e = Cancelled \<or> \<not> is_retryable e \<or> sends tr = unat (rp_max_attempts p) + 1))"
  using retry_loop_ok [of 0 p env accept_status show_status operation] assms
  by (auto simp: send_request_with_retry_cancellable_def retry_run_ok_def split: sum.splits)

theorem network_retries_bounded_witness:
  "case send_request_with_retry_cancellable
      \<lparr>rv_send = (\<lambda>i. IoDone (if i < 2 then Inr (503, ()) else Inr (200, ()))), rv_sleep = (\<lambda>_. IoDone ()),
       rv_subsec = (\<lambda>_. 7)\<rparr> (\<lambda>_. []) ''search'' web_search_retry (\<lambda>s. s = 200) of (tr, r) \<Rightarrow> sends tr \<le> 4"
proof -
  have "rp_max_delay web_search_retry < 2 ^ 64 - 1" by (simp add: web_search_retry_def secs_def)
  from network_retries_bounded [OF this, where env = "\<lparr>rv_send = (\<lambda>i. IoDone (if i < 2 then Inr (503, ()) else Inr (200, ()))),
      rv_sleep = (\<lambda>_. IoDone ()), rv_subsec = (\<lambda>_. 7)\<rparr>" and show_status = "\<lambda>_. []"
      and operation = "''search''" and accept_status = "\<lambda>s. s = 200"]
  show ?thesis by (auto simp: web_search_retry_def)
qed

end
