(* ===== verification/Saas_Transport.thy ===== *)
theory Saas_Transport
  imports Network_Policy
begin

text \<open>
  The SaaS transport (\<open>network/saas.rs\<close>): endpoint and policy validation, request metadata and
  headers, response and error envelopes, the circuit breaker and the retry loop of one request.

  The \<open>url\<close> crate, header values, the HTTP client, JSON decoding and the authentication provider are
  parameters. A wait is observed as the time it starts at, whether the caller's cancellation won,
  and the value it produced before its time-out, if any. Instants and durations are nanoseconds.
\<close>

section \<open>Constants\<close>

definition JSON_CONTENT_TYPE :: string where "JSON_CONTENT_TYPE = ''application/json''"
definition DEFAULT_MAX_ERROR_MESSAGE_BYTES :: nat where "DEFAULT_MAX_ERROR_MESSAGE_BYTES = 512"
definition DEFAULT_MAX_IDENTIFIER_BYTES :: nat where "DEFAULT_MAX_IDENTIFIER_BYTES = 256"
definition MAX_SAAS_REDIRECTS :: nat where "MAX_SAAS_REDIRECTS = 10"
definition MAX_SAAS_RETRY_ATTEMPTS :: u32 where "MAX_SAAS_RETRY_ATTEMPTS = 8"
definition MAX_SAAS_RESPONSE_BODY_BYTES :: nat where "MAX_SAAS_RESPONSE_BODY_BYTES = 16 * 1024 * 1024"
definition MAX_SAAS_IN_FLIGHT_REQUESTS :: nat where "MAX_SAAS_IN_FLIGHT_REQUESTS = 256"
definition MAX_SAAS_TOTAL_REQUEST_TIMEOUT :: duration where "MAX_SAAS_TOTAL_REQUEST_TIMEOUT = secs (10 * 60)"
definition MAX_SAAS_RETRY_DELAY :: duration where "MAX_SAAS_RETRY_DELAY = secs 60"
definition MAX_SAAS_CIRCUIT_OPEN_DURATION :: duration where "MAX_SAAS_CIRCUIT_OPEN_DURATION = secs (5 * 60)"

section \<open>Errors\<close>

record SaasErrorEnvelope =
  ee_code :: string
  ee_message :: string
  ee_retryable :: "bool option"
  ee_request_id :: "string option"
  ee_correlation_id :: "string option"
  ee_field_errors :: "(string, string) hashmap"
  ee_retry_after :: "duration option"
  ee_operation_status_ref :: "string option"

datatype (plugins only: code) SaasTransportError =
    InvalidEndpoint string
  | InvalidRequestTarget
  | InvalidPolicy
  | InvalidMetadata
  | MissingIdempotencyKey
  | InvalidCredential
  | NoCredentialAvailable
  | Unauthenticated
  | CredentialRejected "SaasErrorEnvelope option"
  | PermissionDenied "SaasErrorEnvelope option"
  | TenantForbidden "SaasErrorEnvelope option"
  | WorkspaceForbidden "SaasErrorEnvelope option"
  | NotFound "SaasErrorEnvelope option"
  | Conflict "SaasErrorEnvelope option"
  | ValidationFailure "SaasErrorEnvelope option"
  | RequestTimeout "duration option" "SaasErrorEnvelope option"
  | TooEarly "duration option" "SaasErrorEnvelope option"
  | RateLimited "duration option" "SaasErrorEnvelope option"
  | TransientServerFailure u16 "duration option" "SaasErrorEnvelope option"
  | ProtocolVersionMismatch "SaasErrorEnvelope option"
  | PermanentHttpFailure u16 "SaasErrorEnvelope option"
  | MalformedResponse
  | ResponseTooLarge nat "u16 option"
  | ConnectionFailed
  | TransportUnavailable
  | TransportTimeout
  | TransportCancelled
  | CircuitIsOpen
  | RequestSerializationFailed
  | ClientConstructionFailed

type_synonym 'a transport_result = "SaasTransportError + 'a"

definition server_envelope :: "SaasTransportError \<Rightarrow> SaasErrorEnvelope option" where
  "server_envelope e =
     (case e of
        CredentialRejected s \<Rightarrow> s | PermissionDenied s \<Rightarrow> s | TenantForbidden s \<Rightarrow> s
      | WorkspaceForbidden s \<Rightarrow> s | NotFound s \<Rightarrow> s | Conflict s \<Rightarrow> s | ValidationFailure s \<Rightarrow> s
      | RequestTimeout _ s \<Rightarrow> s | TooEarly _ s \<Rightarrow> s | RateLimited _ s \<Rightarrow> s
      | TransientServerFailure _ _ s \<Rightarrow> s | ProtocolVersionMismatch s \<Rightarrow> s
      | PermanentHttpFailure _ s \<Rightarrow> s | _ \<Rightarrow> None)"

definition not_vetoed :: "SaasErrorEnvelope option \<Rightarrow> bool" where
  "not_vetoed server \<longleftrightarrow> Option.bind server ee_retryable \<noteq> Some False"

definition is_transient_for_retry :: "SaasTransportError \<Rightarrow> bool" where
  "is_transient_for_retry e =
     (case e of
        ConnectionFailed \<Rightarrow> True | TransportUnavailable \<Rightarrow> True | TransportTimeout \<Rightarrow> True
      | MalformedResponse \<Rightarrow> True
      | RequestTimeout _ server \<Rightarrow> not_vetoed server | TooEarly _ server \<Rightarrow> not_vetoed server
      | RateLimited _ server \<Rightarrow> not_vetoed server | TransientServerFailure _ _ server \<Rightarrow> not_vetoed server
      | _ \<Rightarrow> False)"

definition retry_after_of :: "SaasTransportError \<Rightarrow> duration option" where
  "retry_after_of e =
     (case e of
        RequestTimeout d _ \<Rightarrow> d | TooEarly d _ \<Rightarrow> d | RateLimited d _ \<Rightarrow> d
      | TransientServerFailure _ d _ \<Rightarrow> d | _ \<Rightarrow> None)"

definition influences_circuit :: "SaasTransportError \<Rightarrow> bool" where
  "influences_circuit e =
     (case e of
        ConnectionFailed \<Rightarrow> True | TransportUnavailable \<Rightarrow> True | TransportTimeout \<Rightarrow> True
      | TransientServerFailure _ _ _ \<Rightarrow> True | MalformedResponse \<Rightarrow> True | _ \<Rightarrow> False)"

definition proves_server_reachable :: "SaasTransportError \<Rightarrow> bool" where
  "proves_server_reachable e =
     (case e of
        CredentialRejected _ \<Rightarrow> True | PermissionDenied _ \<Rightarrow> True | TenantForbidden _ \<Rightarrow> True
      | WorkspaceForbidden _ \<Rightarrow> True | NotFound _ \<Rightarrow> True | Conflict _ \<Rightarrow> True
      | ValidationFailure _ \<Rightarrow> True | RequestTimeout _ _ \<Rightarrow> True | TooEarly _ _ \<Rightarrow> True
      | RateLimited _ _ \<Rightarrow> True | ProtocolVersionMismatch _ \<Rightarrow> True | PermanentHttpFailure _ _ \<Rightarrow> True
      | ResponseTooLarge _ _ \<Rightarrow> True | _ \<Rightarrow> False)"

section \<open>Endpoints\<close>

text \<open>\<open>contains_invalid_header_controls\<close>, on bytes\<close>
definition contains_invalid_header_controls :: "string \<Rightarrow> bool" where
  "contains_invalid_header_controls value =
     list_ex (\<lambda>b. b = CHR 0x0D \<or> b = CHR 0x0A \<or> b = CHR 0x00 \<or> (code b < 0x20 \<and> b \<noteq> CHR 0x09)
        \<or> code b = 0x7F) value"

datatype SaasEnvironment = Production | Staging | Development

text \<open>What the code reads of a parsed \<open>Url\<close>.\<close>
record url =
  url_scheme :: string
  url_username :: string
  url_password :: "string option"
  url_host_str :: "string option"
  url_port :: "nat option"
  url_port_or_known_default :: "nat option"
  url_path :: string
  url_query :: "string option"
  url_fragment :: "string option"

text \<open>
  The operations of the \<open>url\<close> crate: parsing, joining a relative reference, and replacing the path
  by its segments, without a last empty one, followed by further segments.
\<close>
record url_lib =
  ul_parse :: "string \<Rightarrow> url option"
  ul_join :: "url \<Rightarrow> string \<Rightarrow> url option"
  ul_push_segments :: "url \<Rightarrow> string list \<Rightarrow> url option"

definition same_origin :: "url \<Rightarrow> url \<Rightarrow> bool" where
  "same_origin left right \<longleftrightarrow>
     url_scheme left = url_scheme right \<and> url_host_str left = url_host_str right
     \<and> url_port_or_known_default left = url_port_or_known_default right"

definition safe_endpoint_origin :: "url \<Rightarrow> string" where
  "safe_endpoint_origin u =
     (case (url_host_str u, url_port u) of
        (Some host, Some port) \<Rightarrow> url_scheme u @ ''://'' @ host @ '':'' @ show_nat port
      | (Some host, None) \<Rightarrow> url_scheme u @ ''://'' @ host
      | _ \<Rightarrow> ''[invalid-origin]'')"

text \<open>\<open>hv\<close> is \<open>HeaderValue::from_str(..).is_ok()\<close>.\<close>
definition validate_api_version :: "(string \<Rightarrow> bool) \<Rightarrow> string \<Rightarrow> unit transport_result" where
  "validate_api_version hv value =
     (if value = [] \<or> length value > DEFAULT_MAX_IDENTIFIER_BYTES \<or> starts_with ''/'' value
         \<or> ends_with ''/'' value
         \<or> list_ex (\<lambda>segment. segment = [] \<or> segment = ''.'' \<or> segment = ''..''
              \<or> contains_invalid_header_controls segment) (split_slash [] value)
      then Inl (InvalidEndpoint ''invalid API version prefix'')
      else if \<not> hv value then Inl (InvalidEndpoint ''invalid API version prefix'')
      else Inr ())"

record SaasEndpoint =
  ep_base_url :: url
  ep_api_base_url :: url
  ep_api_version :: string
  ep_environment :: SaasEnvironment
  ep_allow_insecure_http :: bool

definition SaasEndpoint_new ::
  "url_lib \<Rightarrow> (string \<Rightarrow> bool) \<Rightarrow> string \<Rightarrow> string \<Rightarrow> SaasEnvironment \<Rightarrow> bool \<Rightarrow> SaasEndpoint transport_result" where
  "SaasEndpoint_new ul hv base_url api_version environment allow_insecure_http =
     (case ul_parse ul base_url of
        None \<Rightarrow> Inl (InvalidEndpoint ''malformed base URL'')
      | Some parsed \<Rightarrow>
          if url_username parsed \<noteq> [] \<or> url_password parsed \<noteq> None
          then Inl (InvalidEndpoint ''embedded URL credentials are forbidden'')
          else if url_host_str parsed = None
          then Inl (InvalidEndpoint ''base URL must contain a host'')
          else if url_query parsed \<noteq> None \<or> url_fragment parsed \<noteq> None
          then Inl (InvalidEndpoint ''base URL must not contain a query or fragment'')
          else if url_scheme parsed = ''http'' \<and> \<not> allow_insecure_http
          then Inl (InvalidEndpoint ''insecure HTTP is disabled'')
          else if url_scheme parsed \<notin> {''http'', ''https''}
          then Inl (InvalidEndpoint ''only HTTP(S) endpoints are supported'')
          else case validate_api_version hv api_version of
            Inl e \<Rightarrow> Inl e
          | Inr _ \<Rightarrow>
              (case ul_push_segments ul parsed (split_slash [] api_version @ [[]]) of
                 None \<Rightarrow> Inl (InvalidEndpoint ''base URL cannot contain path segments'')
               | Some api_base_url \<Rightarrow>
                   Inr \<lparr>ep_base_url = parsed, ep_api_base_url = api_base_url, ep_api_version = api_version,
                        ep_environment = environment, ep_allow_insecure_http = allow_insecure_http\<rparr>))"

text \<open>\<open>relative_target.split(|c| c == '/' || c == '?')\<close>\<close>
fun split_target :: "string \<Rightarrow> string \<Rightarrow> string list" where
  "split_target cur [] = [cur]"
| "split_target cur (c # s) =
     (if c = CHR ''/'' \<or> c = CHR ''?'' then cur # split_target [] s else split_target (cur @ [c]) s)"

definition target_refused :: "string \<Rightarrow> bool" where
  "target_refused t \<longleftrightarrow>
     t = [] \<or> starts_with ''/'' t \<or> starts_with ''//'' t \<or> CHR ''#'' \<in> set t \<or> backslash \<in> set t
     \<or> str_contains ''%2e'' (to_ascii_lowercase t) \<or> ''..'' \<in> set (split_target [] t)"

definition resolve :: "url_lib \<Rightarrow> SaasEndpoint \<Rightarrow> string \<Rightarrow> url transport_result" where
  "resolve ul ep relative_target =
     (if target_refused relative_target then Inl InvalidRequestTarget
      else case ul_join ul (ep_api_base_url ep) relative_target of
        None \<Rightarrow> Inl InvalidRequestTarget
      | Some resolved \<Rightarrow>
          if \<not> same_origin (ep_api_base_url ep) resolved
             \<or> \<not> starts_with (url_path (ep_api_base_url ep)) (url_path resolved)
          then Inl InvalidRequestTarget else Inr resolved)"

text \<open>The redirect policy installed in the client; \<open>previous\<close> is the number of URLs visited so far.\<close>
definition follow_redirect :: "SaasEndpoint \<Rightarrow> nat \<Rightarrow> nat \<Rightarrow> url \<Rightarrow> bool" where
  "follow_redirect ep max_redirects previous target \<longleftrightarrow>
     \<not> previous > max_redirects \<and> same_origin (ep_base_url ep) target
     \<and> starts_with (url_path (ep_api_base_url ep)) (url_path target)"

section \<open>Policies\<close>

record AutomaticRetryPolicy =
  ar_safe_read :: bool
  ar_idempotent_mutation :: bool
  ar_non_idempotent_mutation :: bool
  ar_streaming_download :: bool

definition default_automatic_retry :: AutomaticRetryPolicy where
  "default_automatic_retry =
     \<lparr>ar_safe_read = True, ar_idempotent_mutation = True, ar_non_idempotent_mutation = False,
      ar_streaming_download = False\<rparr>"

record SaasCircuitPolicy =
  cp_failure_threshold :: u32
  cp_open_duration :: duration

definition default_circuit_policy :: SaasCircuitPolicy where
  "default_circuit_policy = \<lparr>cp_failure_threshold = 4, cp_open_duration = secs 15\<rparr>"

record SaasClientPolicy =
  pl_connect_timeout :: duration
  pl_read_timeout :: duration
  pl_total_request_timeout :: duration
  pl_max_redirects :: nat
  pl_retry_policy :: RetryPolicy
  pl_max_response_body_bytes :: nat
  pl_max_in_flight_requests :: nat
  pl_allow_request_compression :: bool
  pl_automatic_retry :: AutomaticRetryPolicy
  pl_max_retry_after :: duration
  pl_circuit_breaker :: "SaasCircuitPolicy option"

definition default_client_policy :: SaasClientPolicy where
  "default_client_policy =
     \<lparr>pl_connect_timeout = secs 10, pl_read_timeout = secs 30, pl_total_request_timeout = secs 60,
      pl_max_redirects = 3,
      pl_retry_policy = \<lparr>rp_max_attempts = 3, rp_base_delay = millis 400, rp_max_delay = secs 8\<rparr>,
      pl_max_response_body_bytes = 2 * 1024 * 1024, pl_max_in_flight_requests = 8,
      pl_allow_request_compression = False, pl_automatic_retry = default_automatic_retry,
      pl_max_retry_after = secs 30, pl_circuit_breaker = Some default_circuit_policy\<rparr>"

definition policy_validate :: "SaasClientPolicy \<Rightarrow> unit transport_result" where
  "policy_validate p =
     (if pl_connect_timeout p = 0 \<or> pl_read_timeout p = 0 \<or> pl_total_request_timeout p = 0
         \<or> pl_total_request_timeout p > MAX_SAAS_TOTAL_REQUEST_TIMEOUT
         \<or> pl_max_redirects p > MAX_SAAS_REDIRECTS
         \<or> rp_max_attempts (pl_retry_policy p) > MAX_SAAS_RETRY_ATTEMPTS
         \<or> rp_max_delay (pl_retry_policy p) > MAX_SAAS_RETRY_DELAY
         \<or> pl_max_response_body_bytes p = 0
         \<or> pl_max_response_body_bytes p > MAX_SAAS_RESPONSE_BODY_BYTES
         \<or> pl_max_in_flight_requests p = 0
         \<or> pl_max_in_flight_requests p > MAX_SAAS_IN_FLIGHT_REQUESTS
         \<or> pl_max_retry_after p = 0 \<or> pl_max_retry_after p > MAX_SAAS_RETRY_DELAY
         \<or> ar_non_idempotent_mutation (pl_automatic_retry p)
      then Inl InvalidPolicy
      else case pl_circuit_breaker p of
        None \<Rightarrow> Inr ()
      | Some c \<Rightarrow>
          if cp_failure_threshold c = 0 \<or> cp_open_duration c = 0
             \<or> cp_open_duration c > MAX_SAAS_CIRCUIT_OPEN_DURATION
          then Inl InvalidPolicy else Inr ())"

datatype SaasRequestClass = SafeRead | IdempotentMutation | NonIdempotentMutation | StreamingDownload

definition retries_allowed_for :: "SaasClientPolicy \<Rightarrow> SaasRequestClass \<Rightarrow> bool" where
  "retries_allowed_for p c =
     (case c of
        SafeRead \<Rightarrow> ar_safe_read (pl_automatic_retry p)
      | IdempotentMutation \<Rightarrow> ar_idempotent_mutation (pl_automatic_retry p)
      | NonIdempotentMutation \<Rightarrow> False
      | StreamingDownload \<Rightarrow> ar_streaming_download (pl_automatic_retry p))"

section \<open>Credentials, metadata and headers\<close>

record AccessCredential =
  cr_scheme :: string
  cr_secret :: string

definition AccessCredential_new :: "string \<Rightarrow> string \<Rightarrow> AccessCredential transport_result" where
  "AccessCredential_new scheme secret =
     (if scheme = [] \<or> secret = []
         \<or> \<not> list_all (\<lambda>b. is_ascii_alphanumeric b \<or> b \<in> {CHR ''-'', CHR ''_'', CHR ''.''}) scheme
         \<or> contains_invalid_header_controls secret
      then Inl InvalidCredential else Inr \<lparr>cr_scheme = scheme, cr_secret = secret\<rparr>)"

definition authorization_header :: "(string \<Rightarrow> bool) \<Rightarrow> AccessCredential \<Rightarrow> string transport_result" where
  "authorization_header hv c =
     (let combined = cr_scheme c @ '' '' @ cr_secret c in
      if hv combined then Inr combined else Inl InvalidCredential)"

text \<open>\<open>Debug\<close> of a credential\<close>
definition credential_debug :: "AccessCredential \<Rightarrow> (string \<times> string) list" where
  "credential_debug c = [(''scheme'', cr_scheme c), (''secret'', ''[redacted-secret]'')]"

datatype CredentialAvailability = Available AccessCredential | TemporarilyUnavailable | NotAuthenticated

datatype AuthProviderError = AuthTemporarilyUnavailable | AuthUnauthenticated | AuthFailed

record SaasRequestContext =
  cx_tenant_id :: "string option"
  cx_workspace_id :: "string option"
  cx_actor_id :: "string option"
  cx_request_id :: "string option"
  cx_operation_id :: "string option"
  cx_correlation_id :: "string option"
  cx_idempotency_key :: "string option"

definition new_context :: SaasRequestContext where
  "new_context = \<lparr>cx_tenant_id = None, cx_workspace_id = None, cx_actor_id = None, cx_request_id = None,
     cx_operation_id = None, cx_correlation_id = None, cx_idempotency_key = None\<rparr>"

definition validate_metadata :: "(string \<Rightarrow> bool) \<Rightarrow> string \<Rightarrow> string transport_result" where
  "validate_metadata hv value =
     (if value = [] \<or> length value > DEFAULT_MAX_IDENTIFIER_BYTES \<or> contains_invalid_header_controls value
      then Inl InvalidMetadata
      else if \<not> hv value then Inl InvalidMetadata else Inr value)"

text \<open>The seven setters validate their value and store it.\<close>
datatype metadata_field =
    TenantIdField | WorkspaceIdField | ActorIdField | RequestIdField | OperationIdField
  | CorrelationIdField | IdempotencyKeyField

definition set_metadata ::
  "(string \<Rightarrow> bool) \<Rightarrow> metadata_field \<Rightarrow> string \<Rightarrow> SaasRequestContext \<Rightarrow> SaasRequestContext transport_result" where
  "set_metadata hv f value cx =
     (case validate_metadata hv value of
        Inl e \<Rightarrow> Inl e
      | Inr v \<Rightarrow> Inr (case f of
          TenantIdField \<Rightarrow> cx\<lparr>cx_tenant_id := Some v\<rparr>
        | WorkspaceIdField \<Rightarrow> cx\<lparr>cx_workspace_id := Some v\<rparr>
        | ActorIdField \<Rightarrow> cx\<lparr>cx_actor_id := Some v\<rparr>
        | RequestIdField \<Rightarrow> cx\<lparr>cx_request_id := Some v\<rparr>
        | OperationIdField \<Rightarrow> cx\<lparr>cx_operation_id := Some v\<rparr>
        | CorrelationIdField \<Rightarrow> cx\<lparr>cx_correlation_id := Some v\<rparr>
        | IdempotencyKeyField \<Rightarrow> cx\<lparr>cx_idempotency_key := Some v\<rparr>))"

type_synonym header_map = "(string \<times> string) list"

definition insert_header ::
  "(string \<Rightarrow> bool) \<Rightarrow> string \<Rightarrow> string \<Rightarrow> header_map \<Rightarrow> header_map transport_result" where
  "insert_header hv name value headers =
     (if contains_invalid_header_controls value then Inl InvalidMetadata
      else if \<not> hv value then Inl InvalidMetadata
      else Inr (AList.update name value headers))"

definition insert_optional_header ::
  "(string \<Rightarrow> bool) \<Rightarrow> string \<Rightarrow> string option \<Rightarrow> header_map \<Rightarrow> header_map transport_result" where
  "insert_optional_header hv name value headers =
     (case value of None \<Rightarrow> Inr headers | Some v \<Rightarrow> insert_header hv name v headers)"

text \<open>Rust's \<open>?\<close> on transport results\<close>
definition try_then :: "'a transport_result \<Rightarrow> ('a \<Rightarrow> 'b transport_result) \<Rightarrow> 'b transport_result" where
  "try_then x f = (case x of Inl e \<Rightarrow> Inl e | Inr v \<Rightarrow> f v)"

lemma try_then_simps [simp]: "try_then (Inl e) f = Inl e" "try_then (Inr v) f = f v"
  by (simp_all add: try_then_def)

lemma try_then_Inr_iff: "try_then x f = Inr y \<longleftrightarrow> (\<exists>v. x = Inr v \<and> f v = Inr y)"
  by (cases x) simp_all

definition build_saas_headers ::
  "(string \<Rightarrow> bool) \<Rightarrow> SaasEndpoint \<Rightarrow> SaasRequestContext \<Rightarrow> AccessCredential \<Rightarrow> bool
     \<Rightarrow> header_map transport_result" where
  "build_saas_headers hv ep cx credential has_json_body =
     (let headers = AList.update ''accept'' JSON_CONTENT_TYPE [];
          headers = (if has_json_body then AList.update ''content-type'' JSON_CONTENT_TYPE headers else headers)
      in try_then (authorization_header hv credential) (\<lambda>auth.
         try_then (insert_header hv ''api_version'' (ep_api_version ep) (AList.update ''authorization'' auth headers)) (\<lambda>h.
         try_then (insert_optional_header hv ''tenant_id'' (cx_tenant_id cx) h) (\<lambda>h.
         try_then (insert_optional_header hv ''workspace_id'' (cx_workspace_id cx) h) (\<lambda>h.
         try_then (insert_optional_header hv ''actor_id'' (cx_actor_id cx) h) (\<lambda>h.
         try_then (insert_optional_header hv ''request_id'' (cx_request_id cx) h) (\<lambda>h.
         try_then (insert_optional_header hv ''operation_id'' (cx_operation_id cx) h) (\<lambda>h.
         try_then (insert_optional_header hv ''correlation_id'' (cx_correlation_id cx) h) (\<lambda>h.
         insert_optional_header hv ''idempotency_key'' (cx_idempotency_key cx) h)))))))))"

record SaasRequestSummary =
  rs_class :: SaasRequestClass
  rs_path :: string
  rs_request_id :: "string option"
  rs_operation_id :: "string option"
  rs_correlation_id :: "string option"
  rs_has_idempotency_key :: bool

definition request_summary ::
  "url_lib \<Rightarrow> SaasEndpoint \<Rightarrow> string \<Rightarrow> SaasRequestClass \<Rightarrow> SaasRequestContext \<Rightarrow> SaasRequestSummary transport_result" where
  "request_summary ul ep target c cx =
     try_then (resolve ul ep target) (\<lambda>u.
     Inr \<lparr>rs_class = c, rs_path = url_path u, rs_request_id = cx_request_id cx,
          rs_operation_id = cx_operation_id cx, rs_correlation_id = cx_correlation_id cx,
          rs_has_idempotency_key = (cx_idempotency_key cx \<noteq> None)\<rparr>)"

section \<open>Envelopes\<close>

definition safe_protocol_value :: "string \<Rightarrow> nat \<Rightarrow> string option" where
  "safe_protocol_value value limit =
     (if value = [] \<or> length value > limit \<or> list_ex is_control (chars_of value) then None else Some value)"

definition safe_optional_protocol_value :: "string option \<Rightarrow> string option" where
  "safe_optional_protocol_value value =
     Option.bind value (\<lambda>v. safe_protocol_value v DEFAULT_MAX_IDENTIFIER_BYTES)"

definition safe_machine_code :: "string \<Rightarrow> string" where
  "safe_machine_code value =
     (case safe_protocol_value value DEFAULT_MAX_IDENTIFIER_BYTES of
        None \<Rightarrow> ''unknown_error''
      | Some value \<Rightarrow>
          if starts_with ''[redacted-'' (sanitize_log_value value) then ''unknown_error'' else value)"

definition redact_secret_like_token :: "string \<Rightarrow> string" where
  "redact_secret_like_token token =
     (let lower = to_ascii_lowercase token in
      if list_ex (\<lambda>needle. str_contains needle lower)
           [''access_token='', ''token='', ''api_key='', ''apikey='', ''key='', ''secret='', ''cookie='',
            ''authorization='', ''signature='', ''x-amz-signature='', ''sig='']
      then ''[redacted-secret]''
      else if (starts_with ''http://'' lower \<or> starts_with ''https://'' lower) \<and> CHR ''?'' \<in> set token
      then (case split_once ''?'' token of Some (prefix, _) \<Rightarrow> prefix | None \<Rightarrow> token) @ ''?[redacted-query]''
      else token)"

definition sanitize_bounded_text :: "string \<Rightarrow> nat \<Rightarrow> string" where
  "sanitize_bounded_text value limit =
     (let without_controls = concat (take limit (filter (\<lambda>c. \<not> is_control c) (chars_of value)));
          query_redacted = join_with '' '' (map redact_secret_like_token (split_whitespace without_controls))
      in sanitize_error_message query_redacted)"

record 'p SuccessEnvelopeWire =
  sw_request_id :: "string option"
  sw_operation_id :: "string option"
  sw_correlation_id :: "string option"
  sw_server_timestamp :: "string option"
  sw_api_version :: "string option"
  sw_payload :: 'p

record ErrorEnvelopeFieldsWire =
  ew_code :: string
  ew_message :: string
  ew_retryable :: "bool option"
  ew_request_id :: "string option"
  ew_correlation_id :: "string option"
  ew_field_errors :: "(string \<times> string) list"
  ew_retry_after_seconds :: "u64 option"
  ew_operation_status_ref :: "string option"

datatype ErrorEnvelopeWire =
    NestedError "string option" "string option" ErrorEnvelopeFieldsWire
  | FlatError ErrorEnvelopeFieldsWire

definition or_else :: "'a option \<Rightarrow> 'a option \<Rightarrow> 'a option" where
  "or_else a b = (case a of None \<Rightarrow> b | Some _ \<Rightarrow> a)"

definition error_fields :: "ErrorEnvelopeWire \<Rightarrow> ErrorEnvelopeFieldsWire" where
  "error_fields wire =
     (case wire of
        NestedError request_id correlation_id f \<Rightarrow>
          f\<lparr>ew_request_id := or_else (ew_request_id f) request_id,
            ew_correlation_id := or_else (ew_correlation_id f) correlation_id\<rparr>
      | FlatError f \<Rightarrow> f)"

text \<open>\<open>dec_err\<close> decodes the body of an error response.\<close>
definition parse_error_envelope ::
  "(string \<Rightarrow> ErrorEnvelopeWire option) \<Rightarrow> string \<Rightarrow> duration option \<Rightarrow> duration \<Rightarrow> SaasErrorEnvelope option" where
  "parse_error_envelope dec_err body header_retry_after max_retry_after =
     map_option (\<lambda>wire.
       let f = error_fields wire in
       \<lparr>ee_code = safe_machine_code (ew_code f),
        ee_message = sanitize_bounded_text (ew_message f) DEFAULT_MAX_ERROR_MESSAGE_BYTES,
        ee_retryable = ew_retryable f,
        ee_request_id = safe_optional_protocol_value (ew_request_id f),
        ee_correlation_id = safe_optional_protocol_value (ew_correlation_id f),
        ee_field_errors = foldl (\<lambda>m (field, message).
            AList.update (sanitize_bounded_text field DEFAULT_MAX_IDENTIFIER_BYTES)
              (sanitize_bounded_text message DEFAULT_MAX_ERROR_MESSAGE_BYTES) m)
            [] (take 64 (ew_field_errors f)),
        ee_retry_after = or_else
          (map_option (\<lambda>s. min (secs (unat s)) max_retry_after) (ew_retry_after_seconds f)) header_retry_after,
        ee_operation_status_ref =
          map_option (\<lambda>v. sanitize_bounded_text v DEFAULT_MAX_IDENTIFIER_BYTES) (ew_operation_status_ref f)\<rparr>)
       (dec_err body)"

definition code_in :: "SaasErrorEnvelope option \<Rightarrow> string list \<Rightarrow> bool" where
  "code_in server codes \<longleftrightarrow> (case server of None \<Rightarrow> False | Some s \<Rightarrow> ee_code s \<in> set codes)"

definition map_status_error :: "u16 \<Rightarrow> SaasErrorEnvelope option \<Rightarrow> duration option \<Rightarrow> SaasTransportError" where
  "map_status_error status server header_retry_after =
     (let retry_after = or_else (Option.bind server ee_retry_after) header_retry_after in
      if code_in server [''api_version_mismatch'', ''protocol_version_mismatch''] \<or> status \<in> {426, 505}
      then ProtocolVersionMismatch server
      else if status \<in> {400, 422} then ValidationFailure server
      else if status = 401 then CredentialRejected server
      else if status = 403 \<and> code_in server [''tenant_forbidden'', ''tenant_scope_forbidden'']
      then TenantForbidden server
      else if status = 403 \<and> code_in server [''workspace_forbidden'', ''workspace_scope_forbidden'']
      then WorkspaceForbidden server
      else if status = 403 then PermissionDenied server
      else if status = 404 then NotFound server
      else if status = 408 then RequestTimeout retry_after server
      else if status = 409 then Conflict server
      else if status = 425 then TooEarly retry_after server
      else if status = 429 then RateLimited retry_after server
      else if 500 \<le> status \<and> status \<le> 599 then TransientServerFailure status retry_after server
      else PermanentHttpFailure status server)"

definition map_transport_error :: "reqwest_error \<Rightarrow> SaasTransportError" where
  "map_transport_error e =
     (if rq_is_timeout e then TransportTimeout
      else if rq_is_connect e then ConnectionFailed
      else if rq_is_decode e then MalformedResponse
      else TransportUnavailable)"

text \<open>\<open>str::parse::<u64>\<close>: an optional plus sign and digits, within range\<close>
definition is_digit :: "char \<Rightarrow> bool" where
  "is_digit c \<longleftrightarrow> 48 \<le> code c \<and> code c \<le> 57"

definition parse_u64 :: "string \<Rightarrow> nat option" where
  "parse_u64 s =
     (let digits = (case s of c # r \<Rightarrow> if c = CHR ''+'' then r else s | [] \<Rightarrow> []);
          n = foldl (\<lambda>acc c. 10 * acc + (code c - 48)) 0 digits
      in if digits = [] \<or> \<not> list_all is_digit digits \<or> n \<ge> 2 ^ 64 then None else Some n)"

text \<open>\<open>value\<close> is the header as text, when it is visible ASCII.\<close>
definition parse_retry_after :: "string option \<Rightarrow> duration \<Rightarrow> duration option" where
  "parse_retry_after value max_delay =
     map_option (\<lambda>s. min (secs s) max_delay) (Option.bind value (\<lambda>v. parse_u64 (trim v)))"

section \<open>Waiting and reading\<close>

record 'a observed =
  ob_now :: nat
  ob_cancelled :: "bool option"
  ob_value :: "'a option"

text \<open>
  \<open>wait_with_budget\<close>. \<open>ob_cancelled\<close> is \<^const>\<open>None\<close> without a cancellation token, and otherwise whether
  cancellation won the race; \<open>ob_value\<close> is \<^const>\<open>None\<close> when the remaining time ran out first.
\<close>
definition wait_with_budget :: "nat \<Rightarrow> 'a observed \<Rightarrow> 'a transport_result" where
  "wait_with_budget deadline o' =
     (if deadline \<le> ob_now o' then Inl TransportTimeout
      else if ob_cancelled o' = Some True then Inl TransportCancelled
      else case ob_value o' of None \<Rightarrow> Inl TransportTimeout | Some v \<Rightarrow> Inr v)"

record http_response =
  hr_status :: u16
  hr_retry_after :: "string option"
  hr_stream :: "(reqwest_error + string) option observed list"

fun read_bounded_body ::
  "u16 \<Rightarrow> nat \<Rightarrow> nat \<Rightarrow> string \<Rightarrow> (reqwest_error + string) option observed list \<Rightarrow> string transport_result" where
  "read_bounded_body status limit deadline body [] = Inr body"
| "read_bounded_body status limit deadline body (o' # rest) =
     (case wait_with_budget deadline o' of
        Inl e \<Rightarrow> Inl e
      | Inr None \<Rightarrow> Inr body
      | Inr (Some (Inl e)) \<Rightarrow> Inl (map_transport_error e)
      | Inr (Some (Inr chunk)) \<Rightarrow>
          if usize_sat_add (length body) (length chunk) > limit
          then Inl (ResponseTooLarge limit (Some status))
          else read_bounded_body status limit deadline (body @ chunk) rest)"

record SaasResponseMetadata =
  rm_request_id :: "string option"
  rm_operation_id :: "string option"
  rm_correlation_id :: "string option"
  rm_server_timestamp :: "string option"
  rm_api_version :: "string option"

record 'p SaasResponse =
  sp_metadata :: SaasResponseMetadata
  sp_payload :: 'p

definition response_metadata :: "'p SuccessEnvelopeWire \<Rightarrow> SaasResponseMetadata" where
  "response_metadata wire =
     \<lparr>rm_request_id = safe_optional_protocol_value (sw_request_id wire),
      rm_operation_id = safe_optional_protocol_value (sw_operation_id wire),
      rm_correlation_id = safe_optional_protocol_value (sw_correlation_id wire),
      rm_server_timestamp = safe_optional_protocol_value (sw_server_timestamp wire),
      rm_api_version = safe_optional_protocol_value (sw_api_version wire)\<rparr>"

definition handle_response ::
  "(string \<Rightarrow> 'p SuccessEnvelopeWire option) \<Rightarrow> (string \<Rightarrow> ErrorEnvelopeWire option) \<Rightarrow> SaasClientPolicy
     \<Rightarrow> nat \<Rightarrow> http_response \<Rightarrow> 'p SaasResponse transport_result" where
  "handle_response dec_ok dec_err p deadline r =
     (let retry_after = parse_retry_after (hr_retry_after r) (pl_max_retry_after p) in
      try_then (read_bounded_body (hr_status r) (pl_max_response_body_bytes p) deadline [] (hr_stream r)) (\<lambda>body.
      if 200 \<le> hr_status r \<and> hr_status r \<le> 299
      then (case dec_ok body of
              None \<Rightarrow> Inl MalformedResponse
            | Some wire \<Rightarrow> Inr \<lparr>sp_metadata = response_metadata wire, sp_payload = sw_payload wire\<rparr>)
      else Inl (map_status_error (hr_status r)
             (parse_error_envelope dec_err body retry_after (pl_max_retry_after p)) retry_after)))"

section \<open>The circuit breaker\<close>

datatype CircuitState =
    Closed u32
  | Open nat
  | HalfOpen bool

definition circuit_new :: CircuitState where
  "circuit_new = Closed 0"

definition before_request :: "nat \<Rightarrow> CircuitState \<Rightarrow> CircuitState \<times> unit transport_result" where
  "before_request now state =
     (case state of
        Closed _ \<Rightarrow> (state, Inr ())
      | Open until \<Rightarrow> if now < until then (state, Inl CircuitIsOpen) else (HalfOpen True, Inr ())
      | HalfOpen probe_in_flight \<Rightarrow>
          if probe_in_flight then (state, Inl CircuitIsOpen) else (HalfOpen True, Inr ()))"

definition record_success :: "CircuitState \<Rightarrow> CircuitState" where
  "record_success state = Closed 0"

definition record_reachable_response :: "CircuitState \<Rightarrow> CircuitState" where
  "record_reachable_response state = record_success state"

definition record_transient_failure :: "SaasCircuitPolicy \<Rightarrow> nat \<Rightarrow> CircuitState \<Rightarrow> CircuitState" where
  "record_transient_failure cp now state =
     (case state of
        Closed consecutive_failures \<Rightarrow>
          (let failures = saturating_add consecutive_failures 1 in
           if failures \<ge> cp_failure_threshold cp then Open (now + cp_open_duration cp) else Closed failures)
      | _ \<Rightarrow> Open (now + cp_open_duration cp))"

definition release_probe_without_signal :: "CircuitState \<Rightarrow> CircuitState" where
  "release_probe_without_signal state = (case state of HalfOpen _ \<Rightarrow> HalfOpen False | _ \<Rightarrow> state)"

text \<open>What the end of a request does to the circuit.\<close>
definition record_outcome :: "SaasCircuitPolicy \<Rightarrow> nat \<Rightarrow> 'a transport_result \<Rightarrow> CircuitState \<Rightarrow> CircuitState" where
  "record_outcome cp now result state =
     (case result of
        Inr _ \<Rightarrow> record_success state
      | Inl e \<Rightarrow>
          if influences_circuit e then record_transient_failure cp now state
          else (case e of
            TransportCancelled \<Rightarrow> release_probe_without_signal state
          | _ \<Rightarrow> if proves_server_reachable e then record_reachable_response state
                  else release_probe_without_signal state))"

section \<open>One request\<close>

definition is_some :: "'a option \<Rightarrow> bool" where
  "is_some x \<longleftrightarrow> x \<noteq> None"

record 'p transport_lib =
  tl_url :: url_lib
  tl_hv :: "string \<Rightarrow> bool"
  tl_dec_ok :: "string \<Rightarrow> 'p SuccessEnvelopeWire option"
  tl_dec_err :: "string \<Rightarrow> ErrorEnvelopeWire option"

record SaasClient =
  cl_endpoint :: SaasEndpoint
  cl_policy :: SaasClientPolicy

definition SaasClient_new :: "bool \<Rightarrow> SaasEndpoint \<Rightarrow> SaasClientPolicy \<Rightarrow> SaasClient transport_result" where
  "SaasClient_new http_client_built ep p =
     try_then (policy_validate p) (\<lambda>_.
     if http_client_built then Inr \<lparr>cl_endpoint = ep, cl_policy = p\<rparr> else Inl ClientConstructionFailed)"

datatype SaasMutationMethod = Post | Put | Patch | Delete

primrec as_reqwest :: "SaasMutationMethod \<Rightarrow> string" where
  "as_reqwest Post = ''POST''"
| "as_reqwest Put = ''PUT''"
| "as_reqwest Patch = ''PATCH''"
| "as_reqwest Delete = ''DELETE''"

text \<open>
  What one request observes: its start, the waits for a credential and a permit, the answer and the
  pause of each attempt, the clocks read by the jitter and the circuit, and what other requests on
  the same client do to the circuit in the meantime.
\<close>
record request_env =
  en_started :: nat
  en_checked_add :: "nat \<Rightarrow> duration \<Rightarrow> nat option"
  en_credential :: "(AuthProviderError + CredentialAvailability) observed"
  en_permit :: "bool observed"
  en_admit_now :: nat
  en_send :: "nat \<Rightarrow> (reqwest_error + http_response) observed"
  en_subsec :: "nat \<Rightarrow> u64"
  en_sleep :: "nat \<Rightarrow> unit observed"
  en_others :: "CircuitState \<Rightarrow> CircuitState"
  en_finish_now :: nat

datatype wire_event = WireSend nat string url header_map "string option" | WireSleep duration

definition acquire_credential ::
  "nat \<Rightarrow> (AuthProviderError + CredentialAvailability) observed \<Rightarrow> AccessCredential transport_result" where
  "acquire_credential deadline o' =
     try_then (wait_with_budget deadline o') (\<lambda>result.
       case result of
         Inr (Available credential) \<Rightarrow> Inr credential
       | Inr TemporarilyUnavailable \<Rightarrow> Inl NoCredentialAvailable
       | Inr NotAuthenticated \<Rightarrow> Inl Unauthenticated
       | Inl AuthTemporarilyUnavailable \<Rightarrow> Inl NoCredentialAvailable
       | Inl AuthUnauthenticated \<Rightarrow> Inl Unauthenticated
       | Inl AuthFailed \<Rightarrow> Inl NoCredentialAvailable)"

definition acquire_permit :: "nat \<Rightarrow> bool observed \<Rightarrow> unit transport_result" where
  "acquire_permit deadline o' =
     try_then (wait_with_budget deadline o') (\<lambda>acquired.
       if acquired then Inr () else Inl TransportUnavailable)"

definition can_retry :: "SaasClientPolicy \<Rightarrow> SaasRequestClass \<Rightarrow> u32 \<Rightarrow> SaasTransportError \<Rightarrow> bool" where
  "can_retry p c retries err \<longleftrightarrow>
     retries_allowed_for p c \<and> retries < rp_max_attempts (pl_retry_policy p) \<and> is_transient_for_retry err"

definition retry_pause :: "SaasClientPolicy \<Rightarrow> SaasTransportError \<Rightarrow> duration \<Rightarrow> duration" where
  "retry_pause p err jitter =
     (case retry_after_of err of None \<Rightarrow> jitter | Some hint \<Rightarrow> min hint (pl_max_retry_after p))"

function send_loop ::
  "'p transport_lib \<Rightarrow> SaasClient \<Rightarrow> request_env \<Rightarrow> nat \<Rightarrow> string \<Rightarrow> url \<Rightarrow> SaasRequestContext \<Rightarrow> SaasRequestClass
     \<Rightarrow> AccessCredential \<Rightarrow> string option \<Rightarrow> u32
     \<Rightarrow> wire_event list \<times> 'p SaasResponse transport_result option" where
  "send_loop lib cl env deadline verb target cx c credential body retries =
     (case build_saas_headers (tl_hv lib) (cl_endpoint cl) cx credential (is_some body) of
        Inl e \<Rightarrow> ([], Some (Inl e))
      | Inr headers \<Rightarrow>
          (let o' = en_send env (unat retries);
               sent = (if deadline \<le> ob_now o' then [] else [WireSend (ob_now o') verb target headers body])
           in case wait_with_budget deadline o' of
                Inl e \<Rightarrow> (sent, Some (Inl e))
              | Inr answer \<Rightarrow>
                  (case (case answer of
                           Inr response \<Rightarrow>
                             handle_response (tl_dec_ok lib) (tl_dec_err lib) (cl_policy cl) deadline response
                         | Inl e \<Rightarrow> Inl (map_transport_error e)) of
                     Inr response \<Rightarrow> (sent, Some (Inr response))
                   | Inl err \<Rightarrow>
                       if \<not> can_retry (cl_policy cl) c retries err then (sent, Some (Inl err))
                       else
                         (case next_delay (pl_retry_policy (cl_policy cl)) (en_subsec env (unat retries))
                                 (saturating_add retries 1) of
                            None \<Rightarrow> (sent, None)
                          | Some jitter \<Rightarrow>
                              (let paused = sent @ [WireSleep (retry_pause (cl_policy cl) err jitter)]
                               in case wait_with_budget deadline (en_sleep env (unat retries)) of
                                    Inl TransportTimeout \<Rightarrow> (paused, Some (Inl err))
                                  | Inl e \<Rightarrow> (paused, Some (Inl e))
                                  | Inr _ \<Rightarrow>
                                      (case send_loop lib cl env deadline verb target cx c credential body
                                              (saturating_add retries 1) of
                                         (events, r) \<Rightarrow> (paused @ events, r)))))))"
  by pat_completeness auto
termination
  by (relation "measure (\<lambda>(_, cl, _, _, _, _, _, _, _, _, retries).
        unat (rp_max_attempts (pl_retry_policy (cl_policy cl))) - unat retries)")
     (auto simp: can_retry_def word_less_nat_alt intro: retry_measure)

declare send_loop.simps [simp del]

text \<open>The steps before the circuit is asked: target, credential, body, permit.\<close>
definition prepare_request ::
  "'p transport_lib \<Rightarrow> SaasClient \<Rightarrow> request_env \<Rightarrow> nat \<Rightarrow> string \<Rightarrow> string option option
     \<Rightarrow> (url \<times> AccessCredential \<times> string option) transport_result" where
  "prepare_request lib cl env deadline target body =
     try_then (resolve (tl_url lib) (cl_endpoint cl) target) (\<lambda>u.
     try_then (acquire_credential deadline (en_credential env)) (\<lambda>credential.
     try_then (case body of
         None \<Rightarrow> Inr None
       | Some None \<Rightarrow> Inl RequestSerializationFailed
       | Some (Some bytes) \<Rightarrow> Inr (Some bytes)) (\<lambda>serialized_body.
     try_then (acquire_permit deadline (en_permit env)) (\<lambda>_.
     Inr (u, credential, serialized_body)))))"

definition send_json_after_circuit ::
  "'p transport_lib \<Rightarrow> SaasClient \<Rightarrow> request_env \<Rightarrow> string \<Rightarrow> string \<Rightarrow> SaasRequestContext \<Rightarrow> SaasRequestClass
     \<Rightarrow> string option option \<Rightarrow> nat \<Rightarrow> CircuitState
     \<Rightarrow> CircuitState \<times> wire_event list \<times> 'p SaasResponse transport_result option" where
  "send_json_after_circuit lib cl env verb target cx c body deadline circuit =
     (case prepare_request lib cl env deadline target body of
        Inl e \<Rightarrow> (circuit, [], Some (Inl e))
      | Inr (u, credential, serialized_body) \<Rightarrow>
          (case pl_circuit_breaker (cl_policy cl) of
             None \<Rightarrow> (circuit, send_loop lib cl env deadline verb u cx c credential serialized_body 0)
           | Some cp \<Rightarrow>
               (case before_request (en_admit_now env) circuit of
                  (state, Inl e) \<Rightarrow> (state, [], Some (Inl e))
                | (state, Inr _) \<Rightarrow>
                    (case send_loop lib cl env deadline verb u cx c credential serialized_body 0 of
                       (events, None) \<Rightarrow> (en_others env state, events, None)
                     | (events, Some result) \<Rightarrow>
                         (record_outcome cp (en_finish_now env) result (en_others env state), events, Some result)))))"

definition send_json ::
  "'p transport_lib \<Rightarrow> SaasClient \<Rightarrow> request_env \<Rightarrow> string \<Rightarrow> string \<Rightarrow> SaasRequestContext \<Rightarrow> SaasRequestClass
     \<Rightarrow> string option option \<Rightarrow> CircuitState
     \<Rightarrow> CircuitState \<times> wire_event list \<times> 'p SaasResponse transport_result option" where
  "send_json lib cl env verb target cx c body circuit =
     (case en_checked_add env (en_started env) (pl_total_request_timeout (cl_policy cl)) of
        None \<Rightarrow> (circuit, [], Some (Inl TransportTimeout))
      | Some deadline \<Rightarrow> send_json_after_circuit lib cl env verb target cx c body deadline circuit)"

definition send_json_read ::
  "'p transport_lib \<Rightarrow> SaasClient \<Rightarrow> request_env \<Rightarrow> string \<Rightarrow> SaasRequestContext \<Rightarrow> CircuitState
     \<Rightarrow> CircuitState \<times> wire_event list \<times> 'p SaasResponse transport_result option" where
  "send_json_read lib cl env target cx circuit = send_json lib cl env ''GET'' target cx SafeRead None circuit"

text \<open>\<open>body\<close> is the serialised body, \<^const>\<open>None\<close> when serialisation fails.\<close>
definition send_json_idempotent_mutation ::
  "'p transport_lib \<Rightarrow> SaasClient \<Rightarrow> request_env \<Rightarrow> SaasMutationMethod \<Rightarrow> string \<Rightarrow> SaasRequestContext
     \<Rightarrow> string option \<Rightarrow> CircuitState
     \<Rightarrow> CircuitState \<times> wire_event list \<times> 'p SaasResponse transport_result option" where
  "send_json_idempotent_mutation lib cl env m target cx body circuit =
     (if cx_idempotency_key cx = None then (circuit, [], Some (Inl MissingIdempotencyKey))
      else send_json lib cl env (as_reqwest m) target cx IdempotentMutation (Some body) circuit)"

definition send_json_non_idempotent_mutation ::
  "'p transport_lib \<Rightarrow> SaasClient \<Rightarrow> request_env \<Rightarrow> SaasMutationMethod \<Rightarrow> string \<Rightarrow> SaasRequestContext
     \<Rightarrow> string option \<Rightarrow> CircuitState
     \<Rightarrow> CircuitState \<times> wire_event list \<times> 'p SaasResponse transport_result option" where
  "send_json_non_idempotent_mutation lib cl env m target cx body circuit =
     send_json lib cl env (as_reqwest m) target cx NonIdempotentMutation (Some body) circuit"

end
