(* ===== verification/Saas_Transport_Laws.thy ===== *)
theory Saas_Transport_Laws
  imports Saas_Transport
begin

text \<open>
  What the SaaS transport guarantees: bounded attempts with unchanged headers, requests that stay on
  the configured origin, bounded bodies, server vetoes that are respected, and a circuit breaker
  that recovers.
\<close>

section \<open>Headers\<close>

definition clean_headers :: "header_map \<Rightarrow> bool" where
  "clean_headers h \<longleftrightarrow> (\<forall>(n, v) \<in> set h. \<not> contains_invalid_header_controls v)"

lemma clean_update: "clean_headers h \<Longrightarrow> \<not> contains_invalid_header_controls v \<Longrightarrow> clean_headers (AList.update n v h)"
  by (induction h) (auto simp: clean_headers_def)

lemma clean_insert:
  assumes "clean_headers h" and "insert_header hv n v h = Inr h'"
  shows "clean_headers h' \<and> map_of h' = (map_of h)(n \<mapsto> v)"
  using assms by (auto simp: insert_header_def clean_update split: if_splits)

lemma clean_insert_optional:
  assumes "clean_headers h" and "insert_optional_header hv n v h = Inr h'"
  shows "clean_headers h' \<and> map_of h' = (case v of None \<Rightarrow> map_of h | Some x \<Rightarrow> (map_of h)(n \<mapsto> x))"
  using assms clean_insert [OF assms(1)]
  by (auto simp: insert_optional_header_def split: option.splits)

lemma controls_append:
  "contains_invalid_header_controls (a @ b) \<longleftrightarrow>
     contains_invalid_header_controls a \<or> contains_invalid_header_controls b"
  by (simp add: contains_invalid_header_controls_def)

lemma machine_bytes_clean:
  "list_all (\<lambda>b. is_ascii_alphanumeric b \<or> b \<in> {CHR ''-'', CHR ''_'', CHR ''.''}) s \<Longrightarrow>
     \<not> contains_invalid_header_controls s"
  by (induction s) (auto simp: contains_invalid_header_controls_def is_ascii_alphanumeric_def code_def)

lemma authorization_clean:
  assumes "AccessCredential_new s k = Inr c" and "authorization_header hv c = Inr v"
  shows "\<not> contains_invalid_header_controls v"
proof -
  have "contains_invalid_header_controls (CHR '' '' # k) \<longleftrightarrow> contains_invalid_header_controls k"
    by (simp add: contains_invalid_header_controls_def code_def)
  with assms machine_bytes_clean [of s] show ?thesis
    by (auto simp: AccessCredential_new_def authorization_header_def Let_def controls_append
        split: if_splits)
qed

lemma json_type_clean: "\<not> contains_invalid_header_controls JSON_CONTENT_TYPE"
  by code_simp

text \<open>Headers are free of control characters, and carry the idempotency key of the context.\<close>
lemma saas_headers_ok:
  assumes cred: "AccessCredential_new s k = Inr c" and h: "build_saas_headers hv ep cx c b = Inr h"
  shows "clean_headers h \<and> map_of h ''idempotency_key'' = cx_idempotency_key cx"
proof -
  define base where "base = (if b then AList.update ''content-type'' JSON_CONTENT_TYPE
      [(''accept'', JSON_CONTENT_TYPE)] else [(''accept'', JSON_CONTENT_TYPE)])"
  have base: "clean_headers base" "map_of base ''idempotency_key'' = None"
    by (auto simp: base_def json_type_clean clean_headers_def)
  obtain auth h1 h2 h3 h4 h5 h6 h7 where
    s: "authorization_header hv c = Inr auth"
       "insert_header hv ''api_version'' (ep_api_version ep) (AList.update ''authorization'' auth base) = Inr h1"
       "insert_optional_header hv ''tenant_id'' (cx_tenant_id cx) h1 = Inr h2"
       "insert_optional_header hv ''workspace_id'' (cx_workspace_id cx) h2 = Inr h3"
       "insert_optional_header hv ''actor_id'' (cx_actor_id cx) h3 = Inr h4"
       "insert_optional_header hv ''request_id'' (cx_request_id cx) h4 = Inr h5"
       "insert_optional_header hv ''operation_id'' (cx_operation_id cx) h5 = Inr h6"
       "insert_optional_header hv ''correlation_id'' (cx_correlation_id cx) h6 = Inr h7"
       "insert_optional_header hv ''idempotency_key'' (cx_idempotency_key cx) h7 = Inr h"
    using h by (auto simp: build_saas_headers_def Let_def try_then_Inr_iff base_def)
  have a: "clean_headers (AList.update ''authorization'' auth base)"
    by (rule clean_update [OF base(1) authorization_clean [OF cred s(1)]])
  note c1 = clean_insert [OF a s(2)]
  note c2 = clean_insert_optional [OF c1 [THEN conjunct1] s(3)]
  note c3 = clean_insert_optional [OF c2 [THEN conjunct1] s(4)]
  note c4 = clean_insert_optional [OF c3 [THEN conjunct1] s(5)]
  note c5 = clean_insert_optional [OF c4 [THEN conjunct1] s(6)]
  note c6 = clean_insert_optional [OF c5 [THEN conjunct1] s(7)]
  note c7 = clean_insert_optional [OF c6 [THEN conjunct1] s(8)]
  note c8 = clean_insert_optional [OF c7 [THEN conjunct1] s(9)]
  have "map_of h7 ''idempotency_key'' = None"
    using c1 c2 c3 c4 c5 c6 c7 base(2) by (auto split: option.splits)
  with c8 show ?thesis by (auto split: option.splits)
qed

section \<open>The loop\<close>

definition wire_sends :: "wire_event list \<Rightarrow> nat" where
  "wire_sends ev = length (filter (\<lambda>e. case e of WireSend _ _ _ _ _ \<Rightarrow> True | WireSleep _ \<Rightarrow> False) ev)"

lemma wire_sends_simps [simp]:
  "wire_sends [] = 0" "wire_sends (WireSend t v u h b # ev) = Suc (wire_sends ev)"
  "wire_sends (WireSleep d # ev) = wire_sends ev" "wire_sends (xs @ ys) = wire_sends xs + wire_sends ys"
  by (simp_all add: wire_sends_def)

definition retry_budget :: "SaasClientPolicy \<Rightarrow> SaasRequestClass \<Rightarrow> u32 \<Rightarrow> nat" where
  "retry_budget p c r =
     (if retries_allowed_for p c then unat (rp_max_attempts (pl_retry_policy p)) - unat r else 0)"

text \<open>An event of the loop: a request sent in time with the headers of the request, or a bounded pause.\<close>
definition event_ok ::
  "SaasClientPolicy \<Rightarrow> nat \<Rightarrow> string \<Rightarrow> url \<Rightarrow> header_map transport_result \<Rightarrow> string option \<Rightarrow> wire_event \<Rightarrow> bool" where
  "event_ok p deadline verb u headers body e =
     (case e of
        WireSend now verb' u' h b \<Rightarrow> now < deadline \<and> verb' = verb \<and> u' = u \<and> headers = Inr h \<and> b = body
      | WireSleep d \<Rightarrow> d \<le> max (rp_max_delay (pl_retry_policy p)) (pl_max_retry_after p))"

definition loop_ok ::
  "SaasClientPolicy \<Rightarrow> nat \<Rightarrow> string \<Rightarrow> url \<Rightarrow> header_map transport_result \<Rightarrow> string option \<Rightarrow> nat
     \<Rightarrow> wire_event list \<times> 'r option \<Rightarrow> bool" where
  "loop_ok p deadline verb u headers body budget run =
     (case run of (events, r) \<Rightarrow>
        wire_sends events \<le> budget + 1 \<and> list_all (event_ok p deadline verb u headers body) events
        \<and> (rp_max_delay (pl_retry_policy p) < 2 ^ 64 - 1 \<longrightarrow> r \<noteq> None))"

lemma loop_ok_step:
  assumes "loop_ok p deadline verb u headers body budget run"
    and "list_all (event_ok p deadline verb u headers body) pre" and "wire_sends pre \<le> 1"
  shows "loop_ok p deadline verb u headers body (Suc budget) (case run of (events, r) \<Rightarrow> (pre @ events, r))"
  using assms by (cases run) (auto simp: loop_ok_def)

lemma loop_ok_end:
  assumes "list_all (event_ok p deadline verb u headers body) pre" and "wire_sends pre \<le> 1"
  shows "loop_ok p deadline verb u headers body budget (pre, Some r)"
  using assms by (simp add: loop_ok_def)

lemma retry_pause_le:
  "next_delay (pl_retry_policy p) x n = Some j \<Longrightarrow>
     retry_pause p err j \<le> max (rp_max_delay (pl_retry_policy p)) (pl_max_retry_after p)"
  using next_delay_le [of "pl_retry_policy p" x n j] by (auto simp: retry_pause_def split: option.splits)

lemma send_loop_ok:
  "loop_ok (cl_policy cl) deadline verb u
     (build_saas_headers (tl_hv lib) (cl_endpoint cl) cx cred (is_some body)) body
     (retry_budget (cl_policy cl) c r) (send_loop lib cl env deadline verb u cx c cred body r)"
proof (induction lib cl env deadline verb u cx c cred body r rule: send_loop.induct)
  case (1 lib cl env deadline verb u cx c cred body r)
  let ?p = "cl_policy cl"
  let ?hs = "build_saas_headers (tl_hv lib) (cl_endpoint cl) cx cred (is_some body)"
  let ?ok = "loop_ok ?p deadline verb u ?hs body (retry_budget ?p c r)"
  show ?case
  proof (cases ?hs)
    case (Inl e)
    then show ?thesis by (subst send_loop.simps) (simp add: loop_ok_end)
  next
    case hs: (Inr headers)
    define o' where "o' = en_send env (unat r)"
    define sent where "sent = (if deadline \<le> ob_now o' then [] else [WireSend (ob_now o') verb u headers body])"
    have s: "list_all (event_ok ?p deadline verb u ?hs body) sent" "wire_sends sent \<le> 1"
      by (simp_all add: sent_def event_ok_def hs)
    show ?thesis
    proof (cases "wait_with_budget deadline o'")
      case (Inl e)
      then show ?thesis using s hs
        by (subst send_loop.simps) (simp add: Let_def o'_def [symmetric] sent_def [symmetric] loop_ok_end)
    next
      case w: (Inr answer)
      define outcome where "outcome = (case answer of
          Inr response \<Rightarrow> handle_response (tl_dec_ok lib) (tl_dec_err lib) ?p deadline response
        | Inl e \<Rightarrow> Inl (map_transport_error e))"
      show ?thesis
      proof (cases outcome)
        case (Inr response)
        then show ?thesis using s hs w
          by (subst send_loop.simps) (simp add: Let_def o'_def [symmetric] sent_def [symmetric]
              outcome_def [symmetric] loop_ok_end)
      next
        case out: (Inl err)
        show ?thesis
        proof (cases "can_retry ?p c r err")
          case False
          then show ?thesis using s hs w out
            by (subst send_loop.simps) (simp add: Let_def o'_def [symmetric] sent_def [symmetric]
                outcome_def [symmetric] loop_ok_end)
        next
          case retry: True
          then have lt: "unat r < unat (rp_max_attempts (pl_retry_policy ?p))" and allowed: "retries_allowed_for ?p c"
            by (simp_all add: can_retry_def word_less_nat_alt)
          note nxt = unat_saturating_add_1 [OF lt]
          show ?thesis
          proof (cases "next_delay (pl_retry_policy ?p) (en_subsec env (unat r)) (saturating_add r 1)")
            case None
            then have "\<not> rp_max_delay (pl_retry_policy ?p) < 2 ^ 64 - 1"
              using next_delay_Some by (metis option.distinct(1))
            then show ?thesis using s hs w out retry None
              by (subst send_loop.simps) (simp add: Let_def o'_def [symmetric] sent_def [symmetric]
                  outcome_def [symmetric] loop_ok_def)
          next
            case (Some jitter)
            define paused where "paused = sent @ [WireSleep (retry_pause ?p err jitter)]"
            have pz: "list_all (event_ok ?p deadline verb u ?hs body) paused" "wire_sends paused \<le> 1"
              using s retry_pause_le [OF Some, of err] by (simp_all add: paused_def event_ok_def)
            have pz_end: "loop_ok ?p deadline verb u ?hs body b (paused, Some z)" for b z
              by (rule loop_ok_end [OF pz])
            show ?thesis
            proof (cases "wait_with_budget deadline (en_sleep env (unat r))")
              case (Inl e)
              then show ?thesis using hs w out retry Some pz_end
                by (subst send_loop.simps) (cases e; simp add: Let_def o'_def [symmetric] sent_def [symmetric]
                    outcome_def [symmetric] paused_def [symmetric])
            next
              case slept: (Inr woken)
              have "loop_ok ?p deadline verb u ?hs body (retry_budget ?p c (saturating_add r 1))
                  (send_loop lib cl env deadline verb u cx c cred body (saturating_add r 1))"
                using 1 [OF hs _ _ _ _ _ Some _ slept] w out retry
                by (simp add: o'_def outcome_def)
              from loop_ok_step [OF this pz] have "loop_ok ?p deadline verb u ?hs body (retry_budget ?p c r)
                  (case send_loop lib cl env deadline verb u cx c cred body (saturating_add r 1) of
                    (events, r) \<Rightarrow> (paused @ events, r))"
                using lt nxt allowed by (simp add: retry_budget_def Suc_diff_Suc)
              then show ?thesis using hs w out retry Some slept
                by (subst send_loop.simps) (simp add: Let_def o'_def [symmetric] sent_def [symmetric]
                    outcome_def [symmetric] paused_def [symmetric])
            qed
          qed
        qed
      qed
    qed
  qed
qed

lemma validated_policy:
  assumes "SaasClient_new built ep p = Inr cl"
  shows "cl_policy cl = p \<and> cl_endpoint cl = ep \<and> rp_max_attempts (pl_retry_policy p) \<le> 8
     \<and> rp_max_delay (pl_retry_policy p) \<le> secs 60 \<and> pl_max_retry_after p \<le> secs 60"
  using assms
  by (auto simp: SaasClient_new_def try_then_Inr_iff policy_validate_def MAX_SAAS_RETRY_ATTEMPTS_def
      MAX_SAAS_RETRY_DELAY_def not_less split: if_splits)

text \<open>Every event of a request is an event of its loop, on the resolved target.\<close>
lemma send_json_events:
  assumes "send_json lib cl env verb target cx c body circuit = (circuit', events, r)"
  shows "events = [] \<and> r \<noteq> None \<or>
     (\<exists>deadline u cred b.
        en_checked_add env (en_started env) (pl_total_request_timeout (cl_policy cl)) = Some deadline
        \<and> prepare_request lib cl env deadline target body = Inr (u, cred, b)
        \<and> send_loop lib cl env deadline verb u cx c cred b 0 = (events, r))"
  using assms
  by (auto simp: send_json_def send_json_after_circuit_def split: option.splits sum.splits prod.splits)

lemma wait_value: "wait_with_budget deadline o' = Inr v \<Longrightarrow> ob_value o' = Some v"
  by (simp add: wait_with_budget_def split: if_splits option.splits)

lemma credential_value:
  assumes "acquire_credential deadline o' = Inr c"
  shows "ob_value o' = Some (Inr (Available c))"
proof -
  obtain res where w: "wait_with_budget deadline o' = Inr res"
    using assms by (cases "wait_with_budget deadline o'") (simp_all add: acquire_credential_def)
  then have "res = Inr (Available c)"
    using assms
    by (simp add: acquire_credential_def split: sum.splits CredentialAvailability.splits AuthProviderError.splits)
  with wait_value [OF w] show ?thesis by simp
qed

lemma prepared:
  assumes "prepare_request lib cl env deadline target body = Inr (u, cred, b)"
  shows "resolve (tl_url lib) (cl_endpoint cl) target = Inr u
     \<and> ob_value (en_credential env) = Some (Inr (Available cred))"
  using assms unfolding prepare_request_def try_then_Inr_iff
  by (elim exE conjE) (simp add: credential_value)

definition provider_typed :: "request_env \<Rightarrow> bool" where
  "provider_typed env \<longleftrightarrow>
     (\<forall>c. ob_value (en_credential env) = Some (Inr (Available c)) \<longrightarrow> (\<exists>s k. AccessCredential_new s k = Inr c))"

text \<open>
  C16: a request through a client with a validated policy is bounded and repeats itself faithfully.
  It is sent at most nine times, at most once when it is a mutation that may not be replayed, never
  at or after its deadline, and no pause exceeds a minute; the call returns. All attempts carry the
  same headers and body: the idempotency key of the context, and no control character in any header.
  A send is one call of the HTTP client; the redirects it follows on its own are limited by the
  policy of \<open>follow_redirect\<close>.
\<close>
theorem saas_requests_bounded:
  assumes cl: "SaasClient_new built ep p = Inr cl" and typed: "provider_typed env"
    and run: "send_json lib cl env verb target cx c body circuit = (circuit', events, r)"
  shows "wire_sends events \<le> (if c = NonIdempotentMutation then 1 else 9) \<and> r \<noteq> None
     \<and> (\<forall>d. WireSleep d \<in> set events \<longrightarrow> d \<le> secs 60)
     \<and> (\<exists>deadline headers b. \<forall>now verb' u h b'. WireSend now verb' u h b' \<in> set events \<longrightarrow>
          en_checked_add env (en_started env) (pl_total_request_timeout p) = Some deadline \<and> now < deadline
          \<and> verb' = verb \<and> h = headers \<and> b' = b
          \<and> clean_headers h \<and> map_of h ''idempotency_key'' = cx_idempotency_key cx)"
  using send_json_events [OF run]
proof (elim disjE exE conjE)
  fix deadline u cred b
  assume d: "en_checked_add env (en_started env) (pl_total_request_timeout (cl_policy cl)) = Some deadline"
    and prep: "prepare_request lib cl env deadline target body = Inr (u, cred, b)"
    and loop: "send_loop lib cl env deadline verb u cx c cred b 0 = (events, r)"
  note pol = validated_policy [OF cl]
  define hs where "hs = build_saas_headers (tl_hv lib) (cl_endpoint cl) cx cred (is_some b)"
  have ok: "loop_ok p deadline verb u hs b (retry_budget p c 0) (events, r)"
    using send_loop_ok [of cl deadline verb u lib cx cred b c 0 env] pol loop by (simp add: hs_def)
  then have ev: "event_ok p deadline verb u hs b e" if "e \<in> set events" for e
    using that by (simp add: loop_ok_def list_all_iff)
  have delay: "rp_max_delay (pl_retry_policy p) < 2 ^ 64 - 1" using pol by (simp add: secs_def)
  have "retry_budget p c 0 \<le> (if c = NonIdempotentMutation then 0 else 8)"
    using pol by (simp add: retry_budget_def retries_allowed_for_def word_le_nat_alt)
  with ok delay have "wire_sends events \<le> (if c = NonIdempotentMutation then 1 else 9)" "r \<noteq> None"
    by (auto simp: loop_ok_def split: if_splits)
  moreover have "d \<le> secs 60" if "WireSleep d \<in> set events" for d
    using ev [OF that] pol by (auto simp: event_ok_def)
  moreover obtain s k where "AccessCredential_new s k = Inr cred"
    using typed prepared [OF prep] by (auto simp: provider_typed_def)
  then have "clean_headers h \<and> map_of h ''idempotency_key'' = cx_idempotency_key cx" if "hs = Inr h" for h
    using saas_headers_ok that by (simp add: hs_def)
  then have "\<forall>now verb' u' h b'. WireSend now verb' u' h b' \<in> set events \<longrightarrow>
      en_checked_add env (en_started env) (pl_total_request_timeout p) = Some deadline \<and> now < deadline
      \<and> verb' = verb \<and> h = projr hs \<and> b' = b
      \<and> clean_headers h \<and> map_of h ''idempotency_key'' = cx_idempotency_key cx"
    using ev d pol by (fastforce simp: event_ok_def)
  ultimately show ?thesis by blast
qed (simp_all add: secs_def)

section \<open>Origins\<close>

text \<open>What the \<open>url\<close> crate documents of editing path segments: the origin stays.\<close>
definition segments_keep_origin :: "url_lib \<Rightarrow> bool" where
  "segments_keep_origin ul \<longleftrightarrow> (\<forall>u segs v. ul_push_segments ul u segs = Some v \<longrightarrow> same_origin u v)"

lemma resolve_inside:
  "resolve ul ep t = Inr u \<Longrightarrow> same_origin (ep_api_base_url ep) u
     \<and> starts_with (url_path (ep_api_base_url ep)) (url_path u)"
  by (auto simp: resolve_def split: if_splits option.splits)

lemma secure_endpoint:
  assumes "SaasEndpoint_new ul hv base v e False = Inr ep"
  shows "\<exists>parsed. ul_parse ul base = Some parsed \<and> ep_base_url ep = parsed \<and> url_scheme parsed = ''https''
     \<and> url_username parsed = [] \<and> url_password parsed = None
     \<and> ul_push_segments ul parsed (split_slash [] v @ [[]]) = Some (ep_api_base_url ep)"
  using assms by (auto simp: SaasEndpoint_new_def split: option.splits if_splits sum.splits)

text \<open>
  C17: credentials stay on the configured origin. For an endpoint created without permission for
  plain HTTP, every request a client sends, and every redirect it follows, goes over HTTPS to the
  host and port of the configured base URL, below the path of the API version.
\<close>
theorem saas_requests_stay_on_origin:
  assumes ep: "SaasEndpoint_new (tl_url lib) hv base version environment False = Inr ep"
    and law: "segments_keep_origin (tl_url lib)"
    and cl: "SaasClient_new built ep p = Inr cl"
    and run: "send_json lib cl env verb target cx c body circuit = (circuit', events, r)"
  shows "\<exists>parsed. ul_parse (tl_url lib) base = Some parsed
     \<and> (\<forall>now verb' u h b. WireSend now verb' u h b \<in> set events \<longrightarrow>
          url_scheme u = ''https'' \<and> url_host_str u = url_host_str parsed
          \<and> url_port_or_known_default u = url_port_or_known_default parsed
          \<and> starts_with (url_path (ep_api_base_url ep)) (url_path u))
     \<and> (\<forall>n previous u. follow_redirect ep n previous u \<longrightarrow>
          previous \<le> n \<and> url_scheme u = ''https'' \<and> url_host_str u = url_host_str parsed
          \<and> url_port_or_known_default u = url_port_or_known_default parsed
          \<and> starts_with (url_path (ep_api_base_url ep)) (url_path u))"
proof -
  obtain parsed where parsed: "ul_parse (tl_url lib) base = Some parsed" "ep_base_url ep = parsed"
    "url_scheme parsed = ''https''" "same_origin parsed (ep_api_base_url ep)"
    using secure_endpoint [OF ep] law by (auto simp: segments_keep_origin_def)
  have "url_scheme u = ''https'' \<and> url_host_str u = url_host_str parsed
      \<and> url_port_or_known_default u = url_port_or_known_default parsed
      \<and> starts_with (url_path (ep_api_base_url ep)) (url_path u)"
    if send: "WireSend now verb' u h b \<in> set events" for now verb' u h b
  proof -
    from send_json_events [OF run] send obtain deadline u' cred b' where
      prep: "prepare_request lib cl env deadline target body = Inr (u', cred, b')"
      and loop: "send_loop lib cl env deadline verb u' cx c cred b' 0 = (events, r)" by auto
    have "u = u'"
      using send_loop_ok [of cl deadline verb u' lib cx cred b' c 0 env] loop send
      by (auto simp: loop_ok_def list_all_iff event_ok_def)
    moreover have "resolve (tl_url lib) ep target = Inr u'"
      using prepared [OF prep] validated_policy [OF cl] by simp
    ultimately show ?thesis using resolve_inside [of "tl_url lib" ep target u] parsed
      by (auto simp: same_origin_def)
  qed
  moreover have "previous \<le> n \<and> url_scheme u = ''https'' \<and> url_host_str u = url_host_str parsed
      \<and> url_port_or_known_default u = url_port_or_known_default parsed
      \<and> starts_with (url_path (ep_api_base_url ep)) (url_path u)" if "follow_redirect ep n previous u" for n previous u
    using that parsed by (auto simp: follow_redirect_def same_origin_def)
  ultimately show ?thesis using parsed(1) by blast
qed

section \<open>Responses\<close>

lemma body_bounded:
  "read_bounded_body status limit deadline body stream = Inr b \<Longrightarrow> length body \<le> limit \<Longrightarrow> limit < usize_max
     \<Longrightarrow> length b \<le> limit"
  by (induction status limit deadline body stream rule: read_bounded_body.induct)
     (auto simp: usize_sat_add_def split: sum.splits option.splits if_splits)

text \<open>A client error other than 408, 425 and 429 is final, whatever the envelope says.\<close>
lemma client_errors_not_retried:
  assumes "400 \<le> status" and "status < 500" and "status \<notin> {408, 425, 429 :: u16}"
  shows "\<not> is_transient_for_retry (map_status_error status server hint)"
proof -
  have "\<not> 500 \<le> status" using assms(2) by simp
  with assms(3) show ?thesis by (auto simp: map_status_error_def is_transient_for_retry_def Let_def)
qed

lemma server_veto_respected:
  "is_transient_for_retry e \<Longrightarrow> server_envelope e = Some s \<Longrightarrow> ee_retryable s \<noteq> Some False"
  by (cases e) (auto simp: is_transient_for_retry_def server_envelope_def not_vetoed_def)

section \<open>The circuit as a state machine\<close>

text \<open>
  The breaker with the number of admitted requests that have not ended and the time. Requests are
  admitted or refused, and end with any result, in any order; time only moves forward.
\<close>
record breaker =
  br_state :: CircuitState
  br_in_flight :: nat
  br_now :: nat

inductive circuit_step :: "SaasCircuitPolicy \<Rightarrow> breaker \<Rightarrow> breaker \<Rightarrow> bool" for cp where
  admit: "\<lbrakk>br_now b \<le> now; before_request now (br_state b) = (s, Inr ())\<rbrakk>
    \<Longrightarrow> circuit_step cp b \<lparr>br_state = s, br_in_flight = br_in_flight b + 1, br_now = now\<rparr>"
| refuse: "\<lbrakk>br_now b \<le> now; before_request now (br_state b) = (s, Inl e)\<rbrakk>
    \<Longrightarrow> circuit_step cp b \<lparr>br_state = s, br_in_flight = br_in_flight b, br_now = now\<rparr>"
| finish: "\<lbrakk>br_now b \<le> now; br_in_flight b = Suc n\<rbrakk>
    \<Longrightarrow> circuit_step cp b \<lparr>br_state = record_outcome cp now (result :: unit transport_result) (br_state b),
          br_in_flight = n, br_now = now\<rparr>"

inductive circuit_reachable :: "SaasCircuitPolicy \<Rightarrow> breaker \<Rightarrow> bool" for cp where
  start: "circuit_reachable cp \<lparr>br_state = circuit_new, br_in_flight = 0, br_now = t\<rparr>"
| step: "circuit_reachable cp b \<Longrightarrow> circuit_step cp b b' \<Longrightarrow> circuit_reachable cp b'"

definition circuit_policy_ok :: "SaasCircuitPolicy \<Rightarrow> bool" where
  "circuit_policy_ok cp \<longleftrightarrow> cp_failure_threshold cp \<noteq> 0"

text \<open>
  A closed circuit has seen fewer failures than the threshold, an open one opens again within the
  open duration, and a half-open one that refuses requests has one in flight.
\<close>
definition breaker_ok :: "SaasCircuitPolicy \<Rightarrow> breaker \<Rightarrow> bool" where
  "breaker_ok cp b =
     (case br_state b of
        Closed n \<Rightarrow> n < cp_failure_threshold cp
      | Open until \<Rightarrow> until \<le> br_now b + cp_open_duration cp
      | HalfOpen probe \<Rightarrow> probe \<longrightarrow> 0 < br_in_flight b)"

lemma before_request_cases:
  "before_request now s = (s', Inr ()) \<longleftrightarrow>
     (case s of Closed _ \<Rightarrow> s' = s | Open until \<Rightarrow> until \<le> now \<and> s' = HalfOpen True
      | HalfOpen probe \<Rightarrow> \<not> probe \<and> s' = HalfOpen True)"
  "before_request now s = (s', Inl e) \<longleftrightarrow>
     e = CircuitIsOpen \<and> s' = s \<and> (case s of Closed _ \<Rightarrow> False | Open until \<Rightarrow> now < until | HalfOpen probe \<Rightarrow> probe)"
  by (cases s; auto simp: before_request_def)+

lemma record_outcome_options:
  "record_outcome cp now r s \<in> {Closed 0, record_transient_failure cp now s, release_probe_without_signal s}"
proof (cases r)
  case (Inl e)
  then show ?thesis
    by (cases e) (simp_all add: record_outcome_def record_success_def record_reachable_response_def)
qed (simp add: record_outcome_def record_success_def)

lemma breaker_ok_finish:
  assumes ok: "breaker_ok cp b" and cp: "circuit_policy_ok cp" and t: "br_now b \<le> now"
  shows "breaker_ok cp \<lparr>br_state = record_outcome cp now r (br_state b), br_in_flight = n, br_now = now\<rparr>"
  using record_outcome_options [of cp now r "br_state b"]
proof (elim insertE emptyE)
  assume "record_outcome cp now r (br_state b) = Closed 0"
  with cp show ?thesis by (simp add: breaker_ok_def circuit_policy_ok_def word_gt_0)
next
  assume "record_outcome cp now r (br_state b) = record_transient_failure cp now (br_state b)"
  then show ?thesis
    by (auto simp: breaker_ok_def record_transient_failure_def Let_def not_le split: CircuitState.splits if_splits)
next
  assume "record_outcome cp now r (br_state b) = release_probe_without_signal (br_state b)"
  with ok t show ?thesis
    by (auto simp: breaker_ok_def release_probe_without_signal_def split: CircuitState.splits)
qed

lemma circuit_step_ok:
  assumes "circuit_step cp b b'" and "circuit_policy_ok cp" and "breaker_ok cp b"
  shows "breaker_ok cp b'"
  using assms
proof (induction rule: circuit_step.induct)
  case (finish b now n r)
  then show ?case by (simp add: breaker_ok_finish)
qed (auto simp: breaker_ok_def before_request_cases split: CircuitState.splits)

lemma circuit_reachable_ok:
  "circuit_reachable cp b \<Longrightarrow> circuit_policy_ok cp \<Longrightarrow> breaker_ok cp b"
proof (induction rule: circuit_reachable.induct)
  case (start t)
  then show ?case by (simp add: breaker_ok_def circuit_new_def circuit_policy_ok_def word_gt_0)
next
  case (step b b')
  then show ?case using circuit_step_ok by blast
qed

text \<open>
  C18: the circuit breaker recovers. In every interleaving of admissions, refusals and ends of
  requests, a refused request is refused because the circuit is still within its open duration or
  because an admitted request has not ended; so a client with nothing in flight admits the next
  request at the latest one open duration after its last activity, and so does any client whose
  circuit is open.
\<close>
theorem circuit_recovers:
  assumes "circuit_reachable cp b" and "circuit_policy_ok cp" and "br_now b \<le> now"
  shows "(\<forall>s e. before_request now (br_state b) = (s, Inl e) \<longrightarrow>
       s = br_state b \<and> ((\<exists>until. br_state b = Open until \<and> now < until \<and> until \<le> br_now b + cp_open_duration cp)
          \<or> br_state b = HalfOpen True \<and> 0 < br_in_flight b))
     \<and> (br_now b + cp_open_duration cp \<le> now \<and> (br_in_flight b = 0 \<or> (\<exists>until. br_state b = Open until)) \<longrightarrow>
       snd (before_request now (br_state b)) = Inr ())"
  using circuit_reachable_ok [OF assms(1,2)]
  by (cases "br_state b") (auto simp: breaker_ok_def before_request_def split: if_splits)

text \<open>The circuit opens with exactly the configured number of failures in a row.\<close>
lemma circuit_opens_at_threshold:
  assumes "k < unat (cp_failure_threshold cp)"
  shows "(record_transient_failure cp now ^^ k) circuit_new = Closed (of_nat k)"
    and "Suc k = unat (cp_failure_threshold cp) \<Longrightarrow>
      (record_transient_failure cp now ^^ Suc k) circuit_new = Open (now + cp_open_duration cp)"
proof -
  have bound: "unat (cp_failure_threshold cp) < 2 ^ 32"
    using unsigned_less [of "cp_failure_threshold cp"] by simp
  have u: "unat (of_nat j :: u32) = j" if "j < 2 ^ 32" for j
    using that by (simp add: unsigned_of_nat take_bit_nat_eq_self)
  have closed: "(record_transient_failure cp now ^^ j) circuit_new = Closed (of_nat j)"
    if "j < unat (cp_failure_threshold cp)" for j
    using that
  proof (induction j)
    case (Suc j)
    then have "unat (of_nat j :: u32) = j" using u bound by simp
    then have "unat (saturating_add (of_nat j :: u32) 1) = Suc j"
      using Suc.prems unat_saturating_add_1 [of "of_nat j :: u32" "cp_failure_threshold cp"] by simp
    moreover have "unat (of_nat (Suc j) :: u32) = Suc j" using Suc.prems bound u by (simp del: of_nat_Suc)
    ultimately have "saturating_add (of_nat j :: u32) 1 = of_nat (Suc j)"
      by (metis word_unat_eq_iff)
    moreover have "\<not> cp_failure_threshold cp \<le> (of_nat (Suc j) :: u32)"
      using Suc.prems \<open>unat (of_nat (Suc j) :: u32) = Suc j\<close> by (simp add: word_le_nat_alt not_le del: of_nat_Suc)
    ultimately show ?case using Suc
      by (simp add: record_transient_failure_def Let_def del: of_nat_Suc)
  qed (simp add: circuit_new_def)
  show "(record_transient_failure cp now ^^ k) circuit_new = Closed (of_nat k)" by (rule closed [OF assms])
  assume "Suc k = unat (cp_failure_threshold cp)"
  moreover have "unat (saturating_add (of_nat k :: u32) 1) = Suc k"
    using assms unat_saturating_add_1 [of "of_nat k :: u32" "cp_failure_threshold cp"] u bound by simp
  ultimately have "cp_failure_threshold cp \<le> saturating_add (of_nat k :: u32) 1"
    by (simp add: word_le_nat_alt)
  then show "(record_transient_failure cp now ^^ Suc k) circuit_new = Open (now + cp_open_duration cp)"
    by (simp add: closed [OF assms] record_transient_failure_def Let_def)
qed

text \<open>
  A request admitted before the circuit opened can free the place of a later probe: when it is
  cancelled while the probe is in flight, a second probe is admitted beside the first.
\<close>
theorem cancelled_request_frees_probe:
  fixes cp :: SaasCircuitPolicy
  defines "cp \<equiv> \<lparr>cp_failure_threshold = 1, cp_open_duration = 10\<rparr>"
  defines "opened \<equiv> record_outcome cp 0 (Inl ConnectionFailed :: unit transport_result) circuit_new"
  shows "\<exists>probing. before_request 10 opened = (probing, Inr ())
     \<and> before_request 11 probing = (probing, Inl CircuitIsOpen)
     \<and> snd (before_request 11 (record_outcome cp 11 (Inl TransportCancelled :: unit transport_result) probing)) = Inr ()"
  by (simp add: opened_def cp_def circuit_new_def record_outcome_def influences_circuit_def
      record_transient_failure_def saturating_add_def before_request_def release_probe_without_signal_def)

text \<open>
  A probe whose future is dropped never reports back: from then on, with nothing else in flight,
  every request is refused, at whatever time it comes.
\<close>
theorem dropped_probe_blocks_forever:
  "list_all (\<lambda>now. before_request now (HalfOpen True) = (HalfOpen True, Inl CircuitIsOpen)) arrivals"
  by (simp add: list_all_iff before_request_def)

section \<open>Examples\<close>

definition plain_url :: url where
  "plain_url = \<lparr>url_scheme = ''https'', url_username = [], url_password = None,
     url_host_str = Some ''api.example.com'', url_port = None, url_port_or_known_default = Some 443,
     url_path = ''/v1/'', url_query = None, url_fragment = None\<rparr>"

definition plain_lib :: "unit transport_lib" where
  "plain_lib = \<lparr>tl_url = \<lparr>ul_parse = (\<lambda>_. Some plain_url), ul_join = (\<lambda>u t. Some (u\<lparr>url_path := url_path u @ t\<rparr>)),
     ul_push_segments = (\<lambda>u segs. Some u)\<rparr>, tl_hv = (\<lambda>_. True), tl_dec_ok = (\<lambda>_. None), tl_dec_err = (\<lambda>_. None)\<rparr>"

definition plain_endpoint :: SaasEndpoint where
  "plain_endpoint = \<lparr>ep_base_url = plain_url, ep_api_base_url = plain_url, ep_api_version = ''v1'',
     ep_environment = Production, ep_allow_insecure_http = False\<rparr>"

definition plain_env :: request_env where
  "plain_env = \<lparr>en_started = 0, en_checked_add = (\<lambda>a b. Some (a + b)),
     en_credential = \<lparr>ob_now = 1, ob_cancelled = None, ob_value = Some (Inr (Available \<lparr>cr_scheme = ''Bearer'', cr_secret = ''k''\<rparr>))\<rparr>,
     en_permit = \<lparr>ob_now = 2, ob_cancelled = None, ob_value = Some True\<rparr>, en_admit_now = 3,
     en_send = (\<lambda>i. \<lparr>ob_now = 4 + i, ob_cancelled = None, ob_value = Some (Inl
        \<lparr>rq_is_timeout = False, rq_status = None, rq_is_decode = False, rq_is_connect = True, rq_text = []\<rparr>)\<rparr>),
     en_subsec = (\<lambda>_. 5), en_sleep = (\<lambda>i. \<lparr>ob_now = 4 + i, ob_cancelled = None, ob_value = Some ()\<rparr>),
     en_others = (\<lambda>s. s), en_finish_now = 9\<rparr>"

definition plain_client :: SaasClient where
  "plain_client = \<lparr>cl_endpoint = plain_endpoint, cl_policy = default_client_policy\<rparr>"

lemma plain_client_new: "SaasClient_new True plain_endpoint default_client_policy = Inr plain_client"
  by (simp add: SaasClient_new_def policy_validate_def default_client_policy_def default_circuit_policy_def
      default_automatic_retry_def plain_client_def secs_def millis_def MAX_SAAS_TOTAL_REQUEST_TIMEOUT_def
      MAX_SAAS_REDIRECTS_def MAX_SAAS_RETRY_ATTEMPTS_def MAX_SAAS_RETRY_DELAY_def
      MAX_SAAS_RESPONSE_BODY_BYTES_def MAX_SAAS_IN_FLIGHT_REQUESTS_def MAX_SAAS_CIRCUIT_OPEN_DURATION_def)

lemma plain_env_typed: "provider_typed plain_env"
proof -
  have "AccessCredential_new ''Bearer'' ''k'' = Inr \<lparr>cr_scheme = ''Bearer'', cr_secret = ''k''\<rparr>" by code_simp
  then show ?thesis by (auto simp: provider_typed_def plain_env_def)
qed

lemma plain_endpoint_new:
  "SaasEndpoint_new (tl_url plain_lib) (\<lambda>_. True) ''https://api.example.com'' ''v1'' Production False
     = Inr plain_endpoint"
proof -
  have "validate_api_version (\<lambda>_. True) ''v1'' = Inr ()"
    by (simp add: validate_api_version_def DEFAULT_MAX_IDENTIFIER_BYTES_def starts_with_def ends_with_def
        contains_invalid_header_controls_def code_def)
  then show ?thesis by (simp add: SaasEndpoint_new_def plain_lib_def plain_url_def plain_endpoint_def)
qed

theorem saas_requests_bounded_witness:
  "case send_json plain_lib plain_client plain_env ''POST'' ''jobs'' new_context NonIdempotentMutation
      (Some (Some ''{}'')) circuit_new of (circuit', events, r) \<Rightarrow> wire_sends events \<le> 1 \<and> r \<noteq> None"
proof -
  obtain circuit' events r where run: "send_json plain_lib plain_client plain_env ''POST'' ''jobs'' new_context
      NonIdempotentMutation (Some (Some ''{}'')) circuit_new = (circuit', events, r)"
    by (metis prod_cases3)
  from saas_requests_bounded [OF plain_client_new plain_env_typed run] show ?thesis by (simp add: run)
qed

theorem saas_requests_stay_on_origin_witness:
  "case send_json plain_lib plain_client plain_env ''GET'' ''jobs'' new_context SafeRead None circuit_new of
     (circuit', events, r) \<Rightarrow>
       \<forall>now verb' u h b. WireSend now verb' u h b \<in> set events \<longrightarrow> url_scheme u = ''https''"
proof -
  obtain circuit' events r where run: "send_json plain_lib plain_client plain_env ''GET'' ''jobs'' new_context
      SafeRead None circuit_new = (circuit', events, r)"
    by (metis prod_cases3)
  have law: "segments_keep_origin (tl_url plain_lib)"
    by (simp add: segments_keep_origin_def plain_lib_def same_origin_def)
  from saas_requests_stay_on_origin [OF plain_endpoint_new law plain_client_new run] show ?thesis
    unfolding run prod.case by blast
qed

theorem circuit_recovers_witness:
  "snd (before_request 40 (Open 15)) = Inr ()"
proof -
  let ?cp = "\<lparr>cp_failure_threshold = 1, cp_open_duration = 10\<rparr>"
  let ?b0 = "\<lparr>br_state = circuit_new, br_in_flight = 0, br_now = 5\<rparr>"
  let ?b1 = "\<lparr>br_state = circuit_new, br_in_flight = 1, br_now = 5\<rparr>"
  have "circuit_step ?cp ?b0 \<lparr>br_state = circuit_new, br_in_flight = br_in_flight ?b0 + 1, br_now = 5\<rparr>"
    by (rule circuit_step.admit) (simp_all add: before_request_def circuit_new_def)
  then have r1: "circuit_reachable ?cp ?b1"
    using circuit_reachable.step [OF circuit_reachable.start] by fastforce
  have "circuit_step ?cp ?b1 \<lparr>br_state = record_outcome ?cp 5 (Inl ConnectionFailed :: unit transport_result)
      (br_state ?b1), br_in_flight = 0, br_now = 5\<rparr>"
    by (rule circuit_step.finish) simp_all
  then have r2: "circuit_reachable ?cp \<lparr>br_state = Open 15, br_in_flight = 0, br_now = 5\<rparr>"
    using circuit_reachable.step [OF r1]
    by (simp add: record_outcome_def influences_circuit_def record_transient_failure_def circuit_new_def
        saturating_add_def)
  have "circuit_policy_ok ?cp" by (simp add: circuit_policy_ok_def)
  from circuit_recovers [OF r2 this, of 40] show ?thesis by simp
qed

end
