(* ===== verification/Storage_Quota.thy ===== *)
theory Storage_Quota
  imports Mukei_Errors
begin

text \<open>
  Filesystem quota accounting (\<open>storage/quota.rs\<close>): the recursive walk that adds up the bytes below a
  storage root, and the check before a model download.

  The walk sees a snapshot of the tree. A node is what \<open>symlink_metadata\<close> and \<open>read_dir\<close> report of it,
  failures included; an entry carries the file name of its path.
\<close>

section \<open>Policy and usage\<close>

definition MAX_MODEL_DOWNLOAD_BYTES :: u64 where
  "MAX_MODEL_DOWNLOAD_BYTES = 16 * 1024 * 1024 * 1024"

definition DEFAULT_MAX_MODEL_STORAGE_BYTES :: u64 where
  "DEFAULT_MAX_MODEL_STORAGE_BYTES = 32 * 1024 * 1024 * 1024"

definition DEFAULT_MAX_PARTIAL_STORAGE_BYTES :: u64 where
  "DEFAULT_MAX_PARTIAL_STORAGE_BYTES = 18 * 1024 * 1024 * 1024"

record StorageQuotaPolicy =
  qp_max_model_storage_bytes :: u64
  qp_max_partial_storage_bytes :: u64
  qp_max_single_download_bytes :: u64

definition default_quota_policy :: StorageQuotaPolicy where
  "default_quota_policy =
     \<lparr>qp_max_model_storage_bytes = DEFAULT_MAX_MODEL_STORAGE_BYTES,
      qp_max_partial_storage_bytes = DEFAULT_MAX_PARTIAL_STORAGE_BYTES,
      qp_max_single_download_bytes = MAX_MODEL_DOWNLOAD_BYTES\<rparr>"

record StorageUsage =
  su_model_bytes :: u64
  su_partial_bytes :: u64
  su_total_bytes :: u64

definition no_usage :: StorageUsage where
  "no_usage = \<lparr>su_model_bytes = 0, su_partial_bytes = 0, su_total_bytes = 0\<rparr>"

definition accounted_model_bytes :: "StorageUsage \<Rightarrow> u64" where
  "accounted_model_bytes u = saturating_add (su_model_bytes u) (su_partial_bytes u)"

section \<open>The walk\<close>

datatype fs_node =
    Absent
  | MetadataFails string
  | Symlink
  | RegularFile u64
  | Directory "fs_entry list"
  | UnreadableDirectory string
  | OtherNode
and fs_entry = EntryFails string | Entry string fs_node

text \<open>The text behind the last dot of a name, and the text before it.\<close>
fun rsplit_dot :: "string \<Rightarrow> (string \<times> string) option" where
  "rsplit_dot [] = None"
| "rsplit_dot (c # s) =
     (case rsplit_dot s of
        Some (before, after) \<Rightarrow> Some (c # before, after)
      | None \<Rightarrow> if c = CHR ''.'' then Some ([], s) else None)"

text \<open>\<open>Path::extension\<close> of a path with the given file name: a leading dot starts no extension.\<close>
definition extension :: "string \<Rightarrow> string option" where
  "extension name =
     (if name = ''..'' then None
      else case rsplit_dot name of
        Some (before, after) \<Rightarrow> if before = [] then None else Some after
      | None \<Rightarrow> None)"

definition count_file :: "string \<Rightarrow> u64 \<Rightarrow> StorageUsage \<Rightarrow> StorageUsage" where
  "count_file name len u =
     (let u = u\<lparr>su_total_bytes := saturating_add (su_total_bytes u) len\<rparr> in
      if extension name = Some ''partial''
      then u\<lparr>su_partial_bytes := saturating_add (su_partial_bytes u) len\<rparr>
      else u\<lparr>su_model_bytes := saturating_add (su_model_bytes u) len\<rparr>)"

fun visit_usage :: "string \<Rightarrow> fs_node \<Rightarrow> StorageUsage \<Rightarrow> StorageUsage result"
and visit_entries :: "fs_entry list \<Rightarrow> StorageUsage \<Rightarrow> StorageUsage result" where
  "visit_usage name Absent u = Inr u"
| "visit_usage name (MetadataFails e) u = Inl (Io (''storage quota metadata: '' @ e))"
| "visit_usage name Symlink u = Inr u"
| "visit_usage name (RegularFile len) u = Inr (count_file name len u)"
| "visit_usage name (Directory entries) u = visit_entries entries u"
| "visit_usage name (UnreadableDirectory e) u = Inl (Io (''storage quota read_dir: '' @ e))"
| "visit_usage name OtherNode u = Inr u"
| "visit_entries [] u = Inr u"
| "visit_entries (EntryFails e # rest) u = Inl (Io (''storage quota entry: '' @ e))"
| "visit_entries (Entry name node # rest) u =
     (case visit_usage name node u of Inl e \<Rightarrow> Inl e | Inr u' \<Rightarrow> visit_entries rest u')"

text \<open>\<open>exists\<close> is the answer of \<open>Path::exists\<close>, which follows links.\<close>
definition usage_for_root :: "bool \<Rightarrow> string \<Rightarrow> fs_node \<Rightarrow> StorageUsage result" where
  "usage_for_root exists name root =
     (if \<not> exists then Inr no_usage else visit_usage name root no_usage)"

section \<open>The check before a download\<close>

text \<open>The manager, with \<open>usage\<close> standing for the walk over its root.\<close>
definition ensure_model_download_allowed_with_additional ::
  "StorageQuotaPolicy \<Rightarrow> StorageUsage result \<Rightarrow> u64 \<Rightarrow> u64 \<Rightarrow> StorageUsage result" where
  "ensure_model_download_allowed_with_additional policy usage total_file_bytes additional_bytes =
     (if total_file_bytes > qp_max_single_download_bytes policy
      then Inl (DownloadTooLarge (qp_max_single_download_bytes policy) total_file_bytes)
      else case usage of
        Inl e \<Rightarrow> Inl e
      | Inr u \<Rightarrow>
          if su_partial_bytes u > qp_max_partial_storage_bytes policy
          then Inl (StorageQuotaExceeded (qp_max_partial_storage_bytes policy) 0 (su_partial_bytes u))
          else let used = accounted_model_bytes u in
               if saturating_add used additional_bytes > qp_max_model_storage_bytes policy
               then Inl (StorageQuotaExceeded (qp_max_model_storage_bytes policy) additional_bytes used)
               else Inr u)"

definition ensure_model_download_allowed ::
  "StorageQuotaPolicy \<Rightarrow> StorageUsage result \<Rightarrow> u64 \<Rightarrow> StorageUsage result" where
  "ensure_model_download_allowed policy usage expected_bytes =
     ensure_model_download_allowed_with_additional policy usage expected_bytes expected_bytes"

section \<open>Reference accounting\<close>

text \<open>The regular files of a tree, those behind symbolic links excluded, with their sizes.\<close>
fun node_files :: "string \<Rightarrow> fs_node \<Rightarrow> (string \<times> nat) list"
and entry_files :: "fs_entry list \<Rightarrow> (string \<times> nat) list" where
  "node_files name (RegularFile len) = [(name, unat len)]"
| "node_files name (Directory entries) = entry_files entries"
| "node_files name _ = []"
| "entry_files [] = []"
| "entry_files (EntryFails e # rest) = entry_files rest"
| "entry_files (Entry name node # rest) = node_files name node @ entry_files rest"

text \<open>Whether the whole tree can be read.\<close>
fun readable :: "fs_node \<Rightarrow> bool"
and readable_entries :: "fs_entry list \<Rightarrow> bool" where
  "readable (MetadataFails e) = False"
| "readable (UnreadableDirectory e) = False"
| "readable (Directory entries) = readable_entries entries"
| "readable _ = True"
| "readable_entries [] = True"
| "readable_entries (EntryFails e # rest) = False"
| "readable_entries (Entry name node # rest) \<longleftrightarrow> readable node \<and> readable_entries rest"

definition is_partial :: "string \<times> nat \<Rightarrow> bool" where
  "is_partial f \<longleftrightarrow> extension (fst f) = Some ''partial''"

definition bytes_of :: "(string \<times> nat) list \<Rightarrow> nat" where
  "bytes_of fs = sum_list (map snd fs)"

definition u64_max :: nat where
  "u64_max = 2 ^ 64 - 1"

text \<open>\<open>u\<close> holds the usage \<open>v\<close> together with the files \<open>fs\<close>, each sum stopping at the largest \<open>u64\<close>.\<close>
definition accounts :: "(string \<times> nat) list \<Rightarrow> StorageUsage \<Rightarrow> StorageUsage \<Rightarrow> bool" where
  "accounts fs v u \<longleftrightarrow>
     unat (su_total_bytes u) = min (unat (su_total_bytes v) + bytes_of fs) u64_max
     \<and> unat (su_partial_bytes u) = min (unat (su_partial_bytes v) + bytes_of (filter is_partial fs)) u64_max
     \<and> unat (su_model_bytes u) = min (unat (su_model_bytes v) + bytes_of (filter (\<lambda>f. \<not> is_partial f) fs)) u64_max"

lemma unat_le_u64_max: "unat (w :: u64) \<le> u64_max"
  using unsigned_less [of w, where 'a = nat] by (simp add: u64_max_def)

lemma unat_sat_add64: "unat (saturating_add a b :: u64) = min (unat a + unat b) u64_max"
  by (simp add: unat_saturating_add u64_max_def)

lemma bytes_of_simps [simp]:
  "bytes_of [] = 0" "bytes_of (f # fs) = snd f + bytes_of fs" "bytes_of (fs @ gs) = bytes_of fs + bytes_of gs"
  by (simp_all add: bytes_of_def)

lemma accounts_nil: "accounts [] u u"
  using unat_le_u64_max [of "su_total_bytes u"] unat_le_u64_max [of "su_partial_bytes u"]
    unat_le_u64_max [of "su_model_bytes u"]
  by (simp add: accounts_def)

lemma accounts_trans: "accounts fs v u \<Longrightarrow> accounts gs u w \<Longrightarrow> accounts (fs @ gs) v w"
  by (auto simp: accounts_def min_def)

lemma accounts_file: "accounts [(name, unat len)] u (count_file name len u)"
  using unat_le_u64_max [of "su_partial_bytes u"] unat_le_u64_max [of "su_model_bytes u"]
  by (auto simp: accounts_def count_file_def is_partial_def unat_sat_add64 Let_def)

lemma visit_accounts:
  "visit_usage name node v = Inr u \<Longrightarrow> readable node \<and> accounts (node_files name node) v u"
  "visit_entries entries v = Inr u \<Longrightarrow> readable_entries entries \<and> accounts (entry_files entries) v u"
  by (induction name node v and entries v arbitrary: u and u rule: visit_usage_visit_entries.induct)
     (auto simp: accounts_nil accounts_file intro: accounts_trans split: sum.splits)

lemma visit_readable:
  "readable node \<Longrightarrow> \<exists>u. visit_usage name node v = Inr u"
  "readable_entries entries \<Longrightarrow> \<exists>u. visit_entries entries v = Inr u"
  by (induction name node v and entries v rule: visit_usage_visit_entries.induct) fastforce+

section \<open>The check is exact\<close>

lemma bytes_of_partition: "bytes_of fs = bytes_of (filter (\<lambda>f. \<not> is_partial f) fs) + bytes_of (filter is_partial fs)"
  by (induction fs) auto

lemma usage_for_root_accounts:
  assumes "usage_for_root True name root = Inr u"
  shows "readable root" and "accounts (node_files name root) no_usage u"
  using assms visit_accounts(1) [of name root no_usage u] by (auto simp: usage_for_root_def)

lemma accounted_sum:
  assumes "accounts fs no_usage u"
  shows "unat (accounted_model_bytes u) = min (bytes_of fs) u64_max"
  using assms bytes_of_partition [of fs]
  by (auto simp: accounts_def accounted_model_bytes_def unat_sat_add64 no_usage_def min_def)

lemma usage_within:
  assumes acc: "accounts fs no_usage u"
    and "unat (qp_max_model_storage_bytes p) < u64_max" and "unat (qp_max_partial_storage_bytes p) < u64_max"
  shows "su_partial_bytes u \<le> qp_max_partial_storage_bytes p
           \<longleftrightarrow> bytes_of (filter is_partial fs) \<le> unat (qp_max_partial_storage_bytes p)" (is ?partial)
    and "saturating_add (accounted_model_bytes u) additional \<le> qp_max_model_storage_bytes p
           \<longleftrightarrow> bytes_of fs + unat additional \<le> unat (qp_max_model_storage_bytes p)" (is ?total)
proof -
  show ?partial using acc assms(3) by (auto simp: accounts_def no_usage_def word_le_nat_alt min_def)
  show ?total using accounted_sum [OF acc] assms(2)
    by (auto simp: word_le_nat_alt unat_sat_add64 min_def)
qed

lemma preflight_exact:
  assumes "unat (qp_max_model_storage_bytes p) < u64_max" and "unat (qp_max_partial_storage_bytes p) < u64_max"
  shows "(\<exists>u. ensure_model_download_allowed_with_additional p (usage_for_root True name root) artifact additional = Inr u)
     \<longleftrightarrow> artifact \<le> qp_max_single_download_bytes p \<and> readable root
       \<and> bytes_of (filter is_partial (node_files name root)) \<le> unat (qp_max_partial_storage_bytes p)
       \<and> bytes_of (node_files name root) + unat additional \<le> unat (qp_max_model_storage_bytes p)"
proof (cases "usage_for_root True name root")
  case (Inl e)
  then have "\<not> readable root" using visit_readable(1) [of root name no_usage] by (auto simp: usage_for_root_def)
  with Inl show ?thesis by (simp add: ensure_model_download_allowed_with_additional_def)
next
  case (Inr u)
  note acc = usage_for_root_accounts [OF Inr]
  show ?thesis
    using acc(1) usage_within(1) [OF acc(2) assms] usage_within(2) [OF acc(2) assms, of additional]
    by (auto simp: Inr ensure_model_download_allowed_with_additional_def Let_def not_less)
qed

lemma default_limits:
  "unat DEFAULT_MAX_MODEL_STORAGE_BYTES = 32 * 1024 ^ 3"
  "unat DEFAULT_MAX_PARTIAL_STORAGE_BYTES = 18 * 1024 ^ 3"
  "unat MAX_MODEL_DOWNLOAD_BYTES = 16 * 1024 ^ 3"
  by (simp_all add: DEFAULT_MAX_MODEL_STORAGE_BYTES_def DEFAULT_MAX_PARTIAL_STORAGE_BYTES_def
        MAX_MODEL_DOWNLOAD_BYTES_def)

text \<open>
  With the default policy the check admits a download exactly when the artifact has at most 16 GiB,
  the tree below the storage root can be read, its partial files take at most 18 GiB, and all its
  regular files together with the bytes still to be written take at most 32 GiB. Files behind
  symbolic links do not count, and no saturating sum hides an excess.
\<close>
theorem quota_preflight_exact:
  "(\<exists>u. ensure_model_download_allowed_with_additional default_quota_policy
          (usage_for_root True name root) artifact additional = Inr u)
   \<longleftrightarrow> unat artifact \<le> 16 * 1024 ^ 3 \<and> readable root
     \<and> bytes_of (filter is_partial (node_files name root)) \<le> 18 * 1024 ^ 3
     \<and> bytes_of (node_files name root) + unat additional \<le> 32 * 1024 ^ 3"
  by (subst preflight_exact) (simp_all add: default_quota_policy_def default_limits word_le_nat_alt u64_max_def)

end
