(* ===== verification/Download_Jobs.thy ===== *)
theory Download_Jobs
  imports Sql_Model Storage_Quota
begin

text \<open>
  Durable download jobs and quota reservations (\<open>storage/download_jobs.rs\<close>), on the rows of the tables
  \<open>download_jobs\<close> and \<open>storage_reservations\<close> of migration V010.

  A table is the list of its rows; an operation that fails leaves the tables as they were. \<open>sm\<close> is the
  text SQLite reports for a violated constraint, \<open>now\<close> the clock at the time of the call, and the
  identifiers drawn from \<open>uuid\<close> are arguments. Time stamps are stored as RFC 3339 text in UTC and
  compared as text. For years of four digits that is the order of the times: the texts agree up to
  the seconds, and the \<open>+\<close> that ends a shorter fraction sorts below every digit and the point.
\<close>

section \<open>Tables\<close>

datatype DownloadJobStatus = JobQueued | JobDownloading | JobCompleted | JobFailed | JobCancelled

fun job_status_as_str :: "DownloadJobStatus \<Rightarrow> string" where
  "job_status_as_str JobQueued = ''queued''"
| "job_status_as_str JobDownloading = ''downloading''"
| "job_status_as_str JobCompleted = ''completed''"
| "job_status_as_str JobFailed = ''failed''"
| "job_status_as_str JobCancelled = ''cancelled''"

record DownloadReservation =
  dr_job_id :: string
  dr_reservation_id :: string
  dr_reserved_bytes :: u64

record JobRow =
  jr_job_id :: string
  jr_model_id :: "string option"
  jr_destination_token :: string
  jr_destination_path :: string
  jr_expected_sha256 :: string
  jr_expected_bytes :: "int option"
  jr_bytes_downloaded :: int
  jr_status :: string
  jr_last_error_code :: "string option"
  jr_created_at :: time
  jr_updated_at :: time

record ReservationRow =
  rr_reservation_id :: string
  rr_job_id :: string
  rr_storage_class :: string
  rr_reserved_bytes :: int
  rr_created_at :: time
  rr_expires_at :: time

record download_db =
  jobs :: "JobRow list"
  reservations :: "ReservationRow list"

definition RESERVATION_TTL_HOURS :: int where
  "RESERVATION_TTL_HOURS = 24"

definition expiry :: "time \<Rightarrow> time" where
  "expiry now = now + RESERVATION_TTL_HOURS * 3600 * 10 ^ 9"

text \<open>\<open>i64::try_from(n).unwrap_or(i64::MAX)\<close> and \<open>u64::try_from(i.max(0)).unwrap_or(u64::MAX)\<close>\<close>
definition to_column :: "u64 \<Rightarrow> int" where
  "to_column n = (if unat n \<le> i64_max then uint n else int i64_max)"

definition of_column :: "int \<Rightarrow> u64" where
  "of_column i = word_of_int (max i 0)"

section \<open>Statements\<close>

definition insert_job_row :: "(Violation \<Rightarrow> string) \<Rightarrow> JobRow \<Rightarrow> download_db \<Rightarrow> download_db db_result" where
  "insert_job_row sm row db =
     (if jr_status row \<notin> {''queued'', ''downloading'', ''completed'', ''failed'', ''cancelled''}
      then Inl (Sqlite (sm CheckFailed))
      else if list_ex (\<lambda>j. jr_job_id j = jr_job_id row) (jobs db) then Inl (Sqlite (sm UniqueFailed))
      else Inr (db\<lparr>jobs := jobs db @ [row]\<rparr>))"

definition insert_reservation_row ::
  "(Violation \<Rightarrow> string) \<Rightarrow> ReservationRow \<Rightarrow> download_db \<Rightarrow> download_db db_result" where
  "insert_reservation_row sm row db =
     (if rr_storage_class row \<noteq> ''model'' \<or> rr_reserved_bytes row < 0 then Inl (Sqlite (sm CheckFailed))
      else if list_ex (\<lambda>r. rr_reservation_id r = rr_reservation_id row \<or> rr_job_id r = rr_job_id row)
                (reservations db)
      then Inl (Sqlite (sm UniqueFailed))
      else if \<not> list_ex (\<lambda>j. jr_job_id j = rr_job_id row) (jobs db) then Inl (Sqlite (sm ForeignKeyFailed))
      else Inr (db\<lparr>reservations := reservations db @ [row]\<rparr>))"

definition delete_reservations :: "(ReservationRow \<Rightarrow> bool) \<Rightarrow> download_db \<Rightarrow> download_db" where
  "delete_reservations P db = db\<lparr>reservations := filter (\<lambda>r. \<not> P r) (reservations db)\<rparr>"

definition update_jobs :: "(JobRow \<Rightarrow> bool) \<Rightarrow> (JobRow \<Rightarrow> JobRow) \<Rightarrow> download_db \<Rightarrow> download_db" where
  "update_jobs P f db = db\<lparr>jobs := map (\<lambda>j. if P j then f j else j) (jobs db)\<rparr>"

definition update_reservations ::
  "(ReservationRow \<Rightarrow> bool) \<Rightarrow> (ReservationRow \<Rightarrow> ReservationRow) \<Rightarrow> download_db \<Rightarrow> download_db" where
  "update_reservations P f db = db\<lparr>reservations := map (\<lambda>r. if P r then f r else r) (reservations db)\<rparr>"

definition reserved_sum :: "download_db \<Rightarrow> int db_result" where
  "reserved_sum db = sql_sum 0 (map rr_reserved_bytes (reservations db))"

section \<open>Operations\<close>

definition reserve ::
  "(Violation \<Rightarrow> string) \<Rightarrow> string \<Rightarrow> string \<Rightarrow> time \<Rightarrow> download_db \<Rightarrow> string option \<Rightarrow> string \<Rightarrow> string \<Rightarrow> string
     \<Rightarrow> u64 \<Rightarrow> u64 \<Rightarrow> (download_db \<times> DownloadReservation) result" where
  "reserve sm job_id reservation_id now db model_id destination_token destination_path expected_sha256
     expected_bytes accounted_storage_bytes =
     from_db (
       let db = delete_reservations (\<lambda>r. rr_expires_at r \<le> now) db in
       and_then (reserved_sum db) (\<lambda>reserved_sql.
       let reserved = of_column reserved_sql;
           projected = saturating_add (saturating_add accounted_storage_bytes reserved) expected_bytes in
       if projected > DEFAULT_MAX_MODEL_STORAGE_BYTES
       then Inl (Domain (StorageQuotaExceeded DEFAULT_MAX_MODEL_STORAGE_BYTES expected_bytes
                   (saturating_add accounted_storage_bytes reserved)))
       else
         and_then (insert_job_row sm
           \<lparr>jr_job_id = job_id, jr_model_id = model_id, jr_destination_token = destination_token,
            jr_destination_path = destination_path, jr_expected_sha256 = expected_sha256,
            jr_expected_bytes = Some (to_column expected_bytes), jr_bytes_downloaded = 0,
            jr_status = ''queued'', jr_last_error_code = None, jr_created_at = now, jr_updated_at = now\<rparr> db) (\<lambda>db.
         and_then (insert_reservation_row sm
           \<lparr>rr_reservation_id = reservation_id, rr_job_id = job_id, rr_storage_class = ''model'',
            rr_reserved_bytes = to_column expected_bytes, rr_created_at = now,
            rr_expires_at = expiry now\<rparr> db) (\<lambda>db.
         Inr (db, \<lparr>dr_job_id = job_id, dr_reservation_id = reservation_id,
                   dr_reserved_bytes = expected_bytes\<rparr>)))))"

definition reconcile_started ::
  "time \<Rightarrow> download_db \<Rightarrow> DownloadReservation \<Rightarrow> u64 \<Rightarrow> u64 \<Rightarrow> (download_db \<times> DownloadReservation) result" where
  "reconcile_started now db reservation total_bytes accounted_storage_bytes =
     from_db (
       let job_id = dr_job_id reservation; reservation_id = dr_reservation_id reservation;
           mine = (\<lambda>r. rr_reservation_id r = reservation_id \<and> rr_job_id r = job_id);
           db = delete_reservations (\<lambda>r. rr_expires_at r \<le> now \<and> rr_job_id r \<noteq> job_id) db in
       and_then (reserved_sum db) (\<lambda>aggregate_sql.
       and_then (case find mine (reservations db) of
           None \<Rightarrow> Inl (Sqlite ''Query returned no rows'')
         | Some r \<Rightarrow> Inr (rr_reserved_bytes r)) (\<lambda>current_sql.
       let other_reservations = saturating_sub (of_column aggregate_sql) (of_column current_sql);
           used = saturating_add accounted_storage_bytes other_reservations;
           projected = saturating_add used total_bytes in
       if projected > DEFAULT_MAX_MODEL_STORAGE_BYTES
       then Inl (Domain (StorageQuotaExceeded DEFAULT_MAX_MODEL_STORAGE_BYTES total_bytes used))
       else
         let db = update_reservations mine
                    (\<lambda>r. r\<lparr>rr_reserved_bytes := to_column total_bytes, rr_expires_at := expiry now\<rparr>) db;
             db = update_jobs (\<lambda>j. jr_job_id j = job_id)
                    (\<lambda>j. j\<lparr>jr_status := ''downloading'', jr_expected_bytes := Some (to_column total_bytes),
                           jr_updated_at := now\<rparr>) db
         in Inr (db, reservation\<lparr>dr_reserved_bytes := total_bytes\<rparr>))))"

definition mark_started :: "time \<Rightarrow> download_db \<Rightarrow> string \<Rightarrow> u64 \<Rightarrow> download_db" where
  "mark_started now db job_id total_bytes =
     update_jobs (\<lambda>j. jr_job_id j = job_id)
       (\<lambda>j. j\<lparr>jr_status := ''downloading'', jr_expected_bytes := Some (to_column total_bytes),
              jr_updated_at := now\<rparr>) db"

definition update_progress :: "time \<Rightarrow> download_db \<Rightarrow> string \<Rightarrow> u64 \<Rightarrow> download_db" where
  "update_progress now db job_id bytes =
     update_jobs (\<lambda>j. jr_job_id j = job_id \<and> jr_status j \<in> {''queued'', ''downloading''})
       (\<lambda>j. j\<lparr>jr_bytes_downloaded := to_column bytes, jr_updated_at := now\<rparr>) db"

text \<open>The debug assertion that the status is a terminal one is not part of a release build.\<close>
definition finish ::
  "time \<Rightarrow> download_db \<Rightarrow> string \<Rightarrow> DownloadJobStatus \<Rightarrow> string option \<Rightarrow> download_db" where
  "finish now db job_id status last_error_code =
     delete_reservations (\<lambda>r. rr_job_id r = job_id)
       (update_jobs (\<lambda>j. jr_job_id j = job_id)
          (\<lambda>j. j\<lparr>jr_status := job_status_as_str status, jr_last_error_code := last_error_code,
                 jr_updated_at := now\<rparr>) db)"

definition open_job :: "JobRow \<Rightarrow> bool" where
  "open_job j \<longleftrightarrow> jr_status j \<in> {''queued'', ''downloading''}"

definition recover_interrupted :: "time \<Rightarrow> download_db \<Rightarrow> download_db \<times> nat" where
  "recover_interrupted now db =
     (delete_reservations (\<lambda>r. True)
        (update_jobs open_job
           (\<lambda>j. j\<lparr>jr_status := ''failed'', jr_last_error_code := Some ''ERR_DOWNLOAD_INTERRUPTED'',
                  jr_updated_at := now\<rparr>) db),
      length (filter open_job (jobs db)))"

record DownloadJobRecord =
  dj_job_id :: string
  dj_model_id :: "string option"
  dj_destination_token :: string
  dj_expected_bytes :: u64
  dj_bytes_downloaded :: u64
  dj_status :: string
  dj_last_error_code :: "string option"
  dj_created_at :: time
  dj_updated_at :: time

definition job_record :: "JobRow \<Rightarrow> DownloadJobRecord" where
  "job_record j =
     \<lparr>dj_job_id = jr_job_id j, dj_model_id = jr_model_id j, dj_destination_token = jr_destination_token j,
      dj_expected_bytes = of_column (case jr_expected_bytes j of None \<Rightarrow> 0 | Some n \<Rightarrow> n),
      dj_bytes_downloaded = of_column (jr_bytes_downloaded j), dj_status = jr_status j,
      dj_last_error_code = jr_last_error_code j, dj_created_at = jr_created_at j,
      dj_updated_at = jr_updated_at j\<rparr>"

text \<open>Jobs updated at the same time are listed in the order of the table.\<close>
definition list_recent :: "download_db \<Rightarrow> nat \<Rightarrow> DownloadJobRecord list" where
  "list_recent db limit =
     map job_record (take (min (max limit 1) 200) (sort_key (\<lambda>j. - jr_updated_at j) (jobs db)))"

section \<open>The reservation ledger\<close>

text \<open>
  The contract of the reservations: a ledger maps each job to the bytes it holds and the time its
  lease ends. A lease is granted or resized only within the budget.
\<close>
type_synonym ledger = "string \<Rightarrow> (nat \<times> time) option"

definition budget :: nat where
  "budget = 32 * 1024 ^ 3"

definition held :: "ledger \<Rightarrow> nat" where
  "held m = (\<Sum>j \<in> dom m. fst (the (m j)))"

definition expire :: "(string \<Rightarrow> bool) \<Rightarrow> time \<Rightarrow> ledger \<Rightarrow> ledger" where
  "expire keep now m j =
     (case m j of None \<Rightarrow> None | Some (n, t) \<Rightarrow> if t \<le> now \<and> \<not> keep j then None else Some (n, t))"

definition ledger_grant :: "time \<Rightarrow> string \<Rightarrow> nat \<Rightarrow> nat \<Rightarrow> ledger \<Rightarrow> ledger option" where
  "ledger_grant now job n used m =
     (let m = expire (\<lambda>_. False) now m in
      if used + held m + n \<le> budget then Some (m(job \<mapsto> (n, expiry now))) else None)"

definition ledger_resize :: "time \<Rightarrow> string \<Rightarrow> nat \<Rightarrow> nat \<Rightarrow> ledger \<Rightarrow> ledger option" where
  "ledger_resize now job n used m =
     (let m = expire (\<lambda>j. j = job) now m in
      if used + held (m(job := None)) + n \<le> budget then Some (m(job \<mapsto> (n, expiry now))) else None)"

definition ledger_of :: "download_db \<Rightarrow> ledger" where
  "ledger_of db j =
     map_option (\<lambda>r. (nat (rr_reserved_bytes r), rr_expires_at r))
       (find (\<lambda>r. rr_job_id r = j) (reservations db))"

text \<open>
  The invariant of the two tables: unique keys, known statuses, every reservation belongs to a job
  that is queued or downloading, and the reservations together stay within the budget.
\<close>
definition downloads_ok :: "download_db \<Rightarrow> bool" where
  "downloads_ok db \<longleftrightarrow>
     distinct (map jr_job_id (jobs db))
     \<and> distinct (map rr_reservation_id (reservations db)) \<and> distinct (map rr_job_id (reservations db))
     \<and> list_all (\<lambda>j. \<exists>s. jr_status j = job_status_as_str s) (jobs db)
     \<and> list_all (\<lambda>r. 0 \<le> rr_reserved_bytes r
          \<and> list_ex (\<lambda>j. jr_job_id j = rr_job_id r \<and> open_job j) (jobs db)) (reservations db)
     \<and> held (ledger_of db) \<le> budget"

section \<open>Sums over the ledger\<close>

lemma find_key_row:
  assumes "distinct (map key rows)" and "r \<in> set rows"
  shows "find (\<lambda>x. key x = key r) rows = Some r"
  using assms by (induction rows) (auto simp: rev_image_eqI)

lemma find_key_filter:
  assumes "distinct (map key rows)"
  shows "find (\<lambda>x. key x = k) (filter P rows) =
     (case find (\<lambda>x. key x = k) rows of None \<Rightarrow> None | Some r \<Rightarrow> if P r then Some r else None)"
  using assms
proof (induction rows)
  case (Cons a rows)
  have "find (\<lambda>x. key x = key a) rows = None"
    using Cons.prems by (auto simp: find_None_iff rev_image_eqI)
  then show ?case using Cons by auto
qed simp

lemma find_key_map:
  assumes "\<And>r. r \<in> set rows \<Longrightarrow> key (f r) = key r"
  shows "find (\<lambda>x. key x = k) (map f rows) = map_option f (find (\<lambda>x. key x = k) rows)"
  using assms by (induction rows) auto

lemma find_append: "find P (xs @ ys) = (case find P xs of None \<Rightarrow> find P ys | Some x \<Rightarrow> Some x)"
  by (induction xs) auto

lemma dom_ledger_of: "dom (ledger_of db) = rr_job_id ` set (reservations db)"
proof (rule set_eqI)
  fix j
  have "j \<in> dom (ledger_of db) \<longleftrightarrow> find (\<lambda>r. rr_job_id r = j) (reservations db) \<noteq> None"
    by (auto simp: ledger_of_def dom_def)
  also have "\<dots> \<longleftrightarrow> j \<in> rr_job_id ` set (reservations db)" by (auto simp: find_None_iff)
  finally show "j \<in> dom (ledger_of db) \<longleftrightarrow> j \<in> rr_job_id ` set (reservations db)" .
qed

lemma held_ledger_of:
  assumes "distinct (map rr_job_id (reservations db))"
  shows "held (ledger_of db) = sum_list (map (nat \<circ> rr_reserved_bytes) (reservations db))"
proof -
  have "held (ledger_of db) = (\<Sum>r \<in> set (reservations db). fst (the (ledger_of db (rr_job_id r))))"
    unfolding held_def dom_ledger_of using assms by (simp add: sum.reindex distinct_map)
  also have "\<dots> = (\<Sum>r \<in> set (reservations db). nat (rr_reserved_bytes r))"
    by (rule sum.cong) (simp_all add: ledger_of_def find_key_row [OF assms])
  also have "\<dots> = sum_list (map (nat \<circ> rr_reserved_bytes) (reservations db))"
    using assms by (simp add: sum_list_distinct_conv_sum_set distinct_map)
  finally show ?thesis .
qed

lemma finite_dom_ledger_of [simp]: "finite (dom (ledger_of db))"
  by (simp add: dom_ledger_of)

lemma held_upd: "finite (dom m) \<Longrightarrow> held (m(j \<mapsto> (n, t))) = held (m(j := None)) + n"
proof -
  assume "finite (dom m)"
  then have "held (m(j \<mapsto> (n, t))) = n + (\<Sum>i \<in> dom m - {j}. fst (the ((m(j \<mapsto> (n, t))) i)))"
    by (simp add: held_def sum.insert_remove del: fun_upd_apply) simp
  also have "(\<Sum>i \<in> dom m - {j}. fst (the ((m(j \<mapsto> (n, t))) i))) = held (m(j := None))"
    unfolding held_def by (rule sum.cong) auto
  finally show ?thesis by (simp only: add.commute)
qed

lemma held_drop: "finite (dom m) \<Longrightarrow> m j = Some (n, t) \<Longrightarrow> held m = held (m(j := None)) + n"
  using held_upd [of m j n t] by (simp add: fun_upd_idem)

lemma held_mono:
  assumes "finite (dom m)" and "\<And>j. m' j = None \<or> m' j = m j"
  shows "held m' \<le> held m"
proof -
  have "dom m' \<subseteq> dom m" using assms(2) by (auto simp: dom_def) (metis option.distinct(1))
  have "held m' = (\<Sum>j \<in> dom m'. fst (the (m j)))"
    unfolding held_def
  proof (rule sum.cong)
    fix x assume "x \<in> dom m'"
    then show "fst (the (m' x)) = fst (the (m x))" using assms(2) [of x] by auto
  qed simp
  also have "\<dots> \<le> held m" unfolding held_def using assms(1) \<open>dom m' \<subseteq> dom m\<close> by (intro sum_mono2) auto
  finally show ?thesis .
qed

section \<open>What the statements do to the ledger\<close>

lemma downloads_okD:
  assumes "downloads_ok db"
  shows "distinct (map jr_job_id (jobs db))" "distinct (map rr_reservation_id (reservations db))"
    "distinct (map rr_job_id (reservations db))" "held (ledger_of db) \<le> budget"
    "\<And>r. r \<in> set (reservations db) \<Longrightarrow> 0 \<le> rr_reserved_bytes r"
  using assms by (auto simp: downloads_ok_def list_all_iff)

lemma downloads_ok_owner:
  assumes "downloads_ok db" and "r \<in> set (reservations db)"
  shows "\<exists>j \<in> set (jobs db). jr_job_id j = rr_job_id r \<and> open_job j"
proof -
  have "list_all (\<lambda>r. 0 \<le> rr_reserved_bytes r
      \<and> list_ex (\<lambda>j. jr_job_id j = rr_job_id r \<and> open_job j) (jobs db)) (reservations db)"
    using assms(1) by (simp add: downloads_ok_def)
  then show ?thesis using assms(2) by (simp add: list_all_iff list_ex_iff)
qed

lemma ledger_of_update_jobs [simp]: "ledger_of (update_jobs P f db) = ledger_of db"
  by (rule ext) (simp add: ledger_of_def update_jobs_def)

lemma find_job_reservation: "find (\<lambda>r. rr_job_id r = j) rows = Some r \<Longrightarrow> rr_job_id r = j \<and> r \<in> set rows"
  by (auto simp: find_Some_iff)

lemma ledger_of_delete:
  assumes "downloads_ok db"
  shows "ledger_of (delete_reservations P db) j =
     (case find (\<lambda>r. rr_job_id r = j) (reservations db) of None \<Rightarrow> None
      | Some r \<Rightarrow> if P r then None else Some (nat (rr_reserved_bytes r), rr_expires_at r))"
  using downloads_okD(3) [OF assms]
  by (simp add: ledger_of_def delete_reservations_def find_key_filter split: option.splits)

lemma ledger_of_expired:
  assumes "downloads_ok db"
  shows "ledger_of (delete_reservations (\<lambda>r. rr_expires_at r \<le> now \<and> \<not> keep (rr_job_id r)) db)
       = expire keep now (ledger_of db)" (is "ledger_of ?db = _")
proof (rule ext)
  fix j
  show "ledger_of ?db j = expire keep now (ledger_of db) j"
    unfolding ledger_of_delete [OF assms] expire_def ledger_of_def [of db]
    by (cases "find (\<lambda>r. rr_job_id r = j) (reservations db)") (auto dest: find_job_reservation)
qed

lemma ledger_of_release:
  assumes "downloads_ok db"
  shows "ledger_of (delete_reservations (\<lambda>r. rr_job_id r = job) db) = (ledger_of db)(job := None)"
    (is "ledger_of ?db = ?m")
proof (rule ext)
  fix j
  show "ledger_of ?db j = ?m j"
    unfolding ledger_of_delete [OF assms]
    by (cases "find (\<lambda>r. rr_job_id r = j) (reservations db)")
       (auto simp: ledger_of_def [of db] dest: find_job_reservation)
qed

lemma held_delete_le:
  assumes "downloads_ok db"
  shows "held (ledger_of (delete_reservations P db)) \<le> held (ledger_of db)"
proof (rule held_mono)
  show "ledger_of (delete_reservations P db) j = None
      \<or> ledger_of (delete_reservations P db) j = ledger_of db j" for j
    unfolding ledger_of_delete [OF assms]
    by (cases "find (\<lambda>r. rr_job_id r = j) (reservations db)") (auto simp: ledger_of_def [of db])
qed simp

lemma downloads_ok_delete:
  assumes "downloads_ok db"
  shows "downloads_ok (delete_reservations P db)"
proof -
  have "held (ledger_of (delete_reservations P db)) \<le> budget"
    using held_delete_le [OF assms, of P] downloads_okD(4) [OF assms] by simp
  then show ?thesis
    using assms by (auto simp: downloads_ok_def delete_reservations_def list_all_iff distinct_map_filter)
qed

lemma downloads_ok_update_jobs:
  assumes "downloads_ok db"
    and "\<And>j. jr_job_id (f j) = jr_job_id j"
    and "\<And>j. \<exists>s. jr_status j = job_status_as_str s \<Longrightarrow> \<exists>s. jr_status (f j) = job_status_as_str s"
    and "\<And>j. j \<in> set (jobs db) \<Longrightarrow> P j \<Longrightarrow> jr_job_id j \<in> rr_job_id ` set (reservations db) \<Longrightarrow> open_job (f j)"
  shows "downloads_ok (update_jobs P f db)"
proof -
  have ids: "map jr_job_id (jobs (update_jobs P f db)) = map jr_job_id (jobs db)"
    using assms(2) by (simp add: update_jobs_def)
  have "list_ex (\<lambda>j. jr_job_id j = rr_job_id r \<and> open_job j) (jobs (update_jobs P f db))"
    if r: "r \<in> set (reservations db)" for r
  proof -
    obtain j where j: "j \<in> set (jobs db)" "jr_job_id j = rr_job_id r" "open_job j"
      using downloads_ok_owner [OF assms(1) r] by blast
    then have "jr_job_id (if P j then f j else j) = rr_job_id r \<and> open_job (if P j then f j else j)"
      using assms(2,4) r by force
    then show ?thesis using j(1) unfolding update_jobs_def list_ex_iff by (cases "P j") auto
  qed
  moreover have "list_all (\<lambda>j. \<exists>s. jr_status j = job_status_as_str s) (jobs (update_jobs P f db))"
    using assms(1,3) by (auto simp: downloads_ok_def list_all_iff update_jobs_def)
  ultimately show ?thesis
    using assms(1) ids by (auto simp: downloads_ok_def list_all_iff) (auto simp: update_jobs_def)
qed

lemma sum_nat_list:
  "(\<And>x. x \<in> set xs \<Longrightarrow> (0::int) \<le> f x) \<Longrightarrow> sum_list (map f xs) = int (sum_list (map (nat \<circ> f) xs))"
  by (induction xs) auto

text \<open>The aggregate a statement reads is the sum of the ledger; it fits its column.\<close>
lemma reserved_sum_held:
  assumes "downloads_ok db"
  shows "reserved_sum db = Inr (int (held (ledger_of db)))"
proof -
  note ok = downloads_okD [OF assms]
  have "sum_list (map rr_reserved_bytes (reservations db))
      = int (sum_list (map (nat \<circ> rr_reserved_bytes) (reservations db)))"
    using ok(5) by (simp add: sum_nat_list)
  also have "\<dots> = int (held (ledger_of db))" by (simp add: held_ledger_of [OF ok(3)])
  finally have eq: "sum_list (map rr_reserved_bytes (reservations db)) = int (held (ledger_of db))" .
  have "int (held (ledger_of db)) \<le> int i64_max" using ok(4) by (simp add: budget_def i64_max_def)
  then show ?thesis unfolding reserved_sum_def
    using ok(5) by (subst sql_sum_nonneg) (auto simp: eq i64_max_def)
qed

section \<open>Arithmetic of the budget check\<close>

lemma unat_of_column: "n \<le> i64_max \<Longrightarrow> unat (of_column (int n)) = n"
  by (simp add: of_column_def i64_max_def unat_of_nat)

lemma unat_limit: "unat DEFAULT_MAX_MODEL_STORAGE_BYTES = budget"
  by (simp add: default_limits budget_def)

lemma budget_small: "budget < u64_max" "budget \<le> i64_max"
  by (simp_all add: budget_def u64_max_def i64_max_def)

lemma to_column_small: "unat n \<le> budget \<Longrightarrow> to_column n = int (unat n)"
  using budget_small(2) by (auto simp: to_column_def)

lemma over_budget:
  "saturating_add (saturating_add a b) c > DEFAULT_MAX_MODEL_STORAGE_BYTES
     \<longleftrightarrow> unat a + unat b + unat c > budget"
  using budget_small(1) by (auto simp: word_less_nat_alt unat_limit unat_sat_add64 min_def)

lemma unat_other:
  assumes "a + b \<le> budget"
  shows "unat (saturating_sub (of_column (int (a + b))) (of_column (int b))) = a"
proof -
  have "unat (of_column (int (a + b))) = a + b" "unat (of_column (int b)) = b"
    using assms budget_small(2) by (simp_all only: unat_of_column)
  then show ?thesis
    by (simp add: saturating_sub_def word_less_nat_alt unat_sub word_le_nat_alt)
qed

section \<open>Granting and resizing\<close>

definition fresh_ids :: "download_db \<Rightarrow> string \<Rightarrow> string \<Rightarrow> bool" where
  "fresh_ids db job_id reservation_id \<longleftrightarrow>
     job_id \<notin> jr_job_id ` set (jobs db) \<and> reservation_id \<notin> rr_reservation_id ` set (reservations db)"

lemma fresh_no_reservation:
  assumes "downloads_ok db" and "fresh_ids db job_id rid"
  shows "job_id \<notin> rr_job_id ` set (reservations db)"
  using downloads_ok_owner [OF assms(1)] assms(2) by (force simp: fresh_ids_def)

lemma ledger_of_append:
  assumes "rr_job_id row \<notin> rr_job_id ` set (reservations db)"
  shows "ledger_of (db\<lparr>reservations := reservations db @ [row]\<rparr>)
     = (ledger_of db)(rr_job_id row \<mapsto> (nat (rr_reserved_bytes row), rr_expires_at row))"
proof (rule ext)
  fix j
  have "find (\<lambda>r. rr_job_id r = rr_job_id row) (reservations db) = None"
    using assms by (auto simp: find_None_iff image_iff)
  then show "ledger_of (db\<lparr>reservations := reservations db @ [row]\<rparr>) j
      = ((ledger_of db)(rr_job_id row \<mapsto> (nat (rr_reserved_bytes row), rr_expires_at row))) j"
    by (auto simp: ledger_of_def find_append split: option.splits)
qed

lemma ledger_of_jobs [simp]: "ledger_of (db\<lparr>jobs := js\<rparr>) = ledger_of db"
  by (rule ext) (simp add: ledger_of_def)

text \<open>A new open job with its reservation keeps the invariant when the reservation fits.\<close>
lemma downloads_ok_insert:
  assumes ok: "downloads_ok db"
    and job: "jr_job_id j \<notin> jr_job_id ` set (jobs db)" "jr_status j = ''queued''"
    and res: "rr_job_id r = jr_job_id j" "rr_reservation_id r \<notin> rr_reservation_id ` set (reservations db)"
      "0 \<le> rr_reserved_bytes r"
    and fits: "held (ledger_of db) + nat (rr_reserved_bytes r) \<le> budget"
  shows "downloads_ok (db\<lparr>jobs := jobs db @ [j], reservations := reservations db @ [r]\<rparr>)"
proof -
  have new: "rr_job_id r \<notin> rr_job_id ` set (reservations db)"
    using fresh_no_reservation [OF ok, of "jr_job_id j" "rr_reservation_id r"] job res
    by (auto simp: fresh_ids_def)
  then have none: "rr_job_id r \<notin> dom (ledger_of db)" by (simp add: dom_ledger_of)
  have "ledger_of (db\<lparr>jobs := jobs db @ [j], reservations := reservations db @ [r]\<rparr>)
      = (ledger_of db)(rr_job_id r \<mapsto> (nat (rr_reserved_bytes r), rr_expires_at r))"
    using ledger_of_append [of r "db\<lparr>jobs := jobs db @ [j]\<rparr>"] new by simp
  moreover have "(ledger_of db)(rr_job_id r := None) = ledger_of db" using none by auto
  ultimately have "held (ledger_of (db\<lparr>jobs := jobs db @ [j], reservations := reservations db @ [r]\<rparr>)) \<le> budget"
    using fits by (simp add: held_upd)
  moreover have "open_job j" "\<exists>s. jr_status j = job_status_as_str s"
    using job(2) by (auto simp: open_job_def intro: exI [of _ JobQueued])
  ultimately show ?thesis
    using ok job(1) res new by (auto simp: downloads_ok_def list_all_iff)
qed

definition quota_error :: "u64 \<Rightarrow> u64 \<Rightarrow> nat \<Rightarrow> MukeiError" where
  "quota_error requested accounted others =
     StorageQuotaExceeded DEFAULT_MAX_MODEL_STORAGE_BYTES requested
       (saturating_add accounted (of_column (int others)))"

lemma list_ex_key: "list_ex (\<lambda>r. key r = k) rows \<longleftrightarrow> k \<in> key ` set rows"
  by (auto simp: list_ex_iff image_iff)

lemma list_ex_or: "list_ex (\<lambda>x. P x \<or> Q x) xs \<longleftrightarrow> list_ex P xs \<or> list_ex Q xs"
  by (auto simp: list_ex_iff)

lemma held_small: "downloads_ok db \<Longrightarrow> unat (of_column (int (held (ledger_of db)))) = held (ledger_of db)"
  using downloads_okD(4) [of db] budget_small(2) by (intro unat_of_column) simp

lemma reserve_refines:
  assumes ok: "downloads_ok db" and fresh: "fresh_ids db job_id rid"
  shows "case reserve sm job_id rid now db model token path sha expected accounted of
      Inl e \<Rightarrow> ledger_grant now job_id (unat expected) (unat accounted) (ledger_of db) = None
        \<and> e = quota_error expected accounted (held (expire (\<lambda>_. False) now (ledger_of db)))
    | Inr (db', r) \<Rightarrow> downloads_ok db'
        \<and> ledger_grant now job_id (unat expected) (unat accounted) (ledger_of db) = Some (ledger_of db')
        \<and> r = \<lparr>dr_job_id = job_id, dr_reservation_id = rid, dr_reserved_bytes = expected\<rparr>"
proof -
  let ?db = "delete_reservations (\<lambda>r. rr_expires_at r \<le> now) db"
  let ?m = "expire (\<lambda>_. False) now (ledger_of db)"
  have ok0: "downloads_ok ?db" by (rule downloads_ok_delete [OF ok])
  have m: "ledger_of ?db = ?m" using ledger_of_expired [OF ok, of now "\<lambda>_. False"] by simp
  have fresh0: "fresh_ids ?db job_id rid"
    using fresh by (auto simp: fresh_ids_def delete_reservations_def)
  note sum = reserved_sum_held [OF ok0, unfolded m]
  have over: "saturating_add (saturating_add accounted (of_column (int (held ?m)))) expected
        > DEFAULT_MAX_MODEL_STORAGE_BYTES \<longleftrightarrow> \<not> unat accounted + held ?m + unat expected \<le> budget"
    using held_small [OF ok0] by (simp add: over_budget m not_le)
  show ?thesis
  proof (cases "unat accounted + held ?m + unat expected \<le> budget")
    case False
    then show ?thesis
      using over by (simp add: reserve_def Let_def sum from_db_def ledger_grant_def quota_error_def)
  next
    case True
    let ?j = "\<lparr>jr_job_id = job_id, jr_model_id = model, jr_destination_token = token,
            jr_destination_path = path, jr_expected_sha256 = sha,
            jr_expected_bytes = Some (to_column expected), jr_bytes_downloaded = 0,
            jr_status = ''queued'', jr_last_error_code = None, jr_created_at = now, jr_updated_at = now\<rparr>"
    let ?r = "\<lparr>rr_reservation_id = rid, rr_job_id = job_id, rr_storage_class = ''model'',
            rr_reserved_bytes = to_column expected, rr_created_at = now, rr_expires_at = expiry now\<rparr>"
    let ?db' = "?db\<lparr>jobs := jobs ?db @ [?j], reservations := reservations ?db @ [?r]\<rparr>"
    have col: "to_column expected = int (unat expected)" using True by (intro to_column_small) simp
    have new: "job_id \<notin> rr_job_id ` set (reservations ?db)" by (rule fresh_no_reservation [OF ok0 fresh0])
    have run: "reserve sm job_id rid now db model token path sha expected accounted =
       Inr (?db', \<lparr>dr_job_id = job_id, dr_reservation_id = rid, dr_reserved_bytes = expected\<rparr>)"
      using True over new fresh0
      by (simp add: reserve_def Let_def sum from_db_def insert_job_row_def insert_reservation_row_def
            list_ex_key list_ex_or fresh_ids_def col)
    have "ledger_of ?db' = ?m(job_id \<mapsto> (unat expected, expiry now))"
      using ledger_of_append [of ?r "?db\<lparr>jobs := jobs ?db @ [?j]\<rparr>"] new by (simp add: col m)
    moreover have "downloads_ok ?db'"
      using True fresh0 by (intro downloads_ok_insert [OF ok0]) (simp_all add: fresh_ids_def col m)
    ultimately show ?thesis using True by (simp add: run ledger_grant_def)
  qed
qed

definition owns :: "download_db \<Rightarrow> DownloadReservation \<Rightarrow> bool" where
  "owns db res \<longleftrightarrow>
     list_ex (\<lambda>r. rr_reservation_id r = dr_reservation_id res \<and> rr_job_id r = dr_job_id res) (reservations db)"

lemma jobs_update_reservations [simp]: "jobs (update_reservations P f db) = jobs db"
  by (simp add: update_reservations_def)

lemma ledger_of_resized:
  assumes ok: "downloads_ok db" and r: "r \<in> set (reservations db)" "rr_job_id r = job" "rr_reservation_id r = rid"
  shows "ledger_of (update_reservations (\<lambda>r. rr_reservation_id r = rid \<and> rr_job_id r = job)
            (\<lambda>r. r\<lparr>rr_reserved_bytes := int n, rr_expires_at := t\<rparr>) db) = (ledger_of db)(job \<mapsto> (n, t))"
    (is "ledger_of ?db = _")
proof (rule ext)
  fix j
  have "find (\<lambda>x. rr_job_id x = job) (reservations db) = Some r"
    using find_key_row [OF downloads_okD(3) [OF ok] r(1)] r(2) by simp
  moreover have "find (\<lambda>x. rr_job_id x = j) (reservations ?db) =
      map_option (\<lambda>r. if rr_reservation_id r = rid \<and> rr_job_id r = job
         then r\<lparr>rr_reserved_bytes := int n, rr_expires_at := t\<rparr> else r) (find (\<lambda>x. rr_job_id x = j) (reservations db))"
    unfolding update_reservations_def by (simp, rule find_key_map) auto
  ultimately show "ledger_of ?db j = ((ledger_of db)(job \<mapsto> (n, t))) j"
    using r by (auto simp: ledger_of_def option.map_comp dest: find_job_reservation
                 intro!: option.map_cong)
qed

lemma downloads_ok_resize:
  assumes ok: "downloads_ok db"
    and fits: "held (ledger_of (update_reservations P (\<lambda>r. r\<lparr>rr_reserved_bytes := int n, rr_expires_at := t\<rparr>) db)) \<le> budget"
      (is "held (ledger_of ?db) \<le> _")
  shows "downloads_ok ?db"
proof -
  have "map rr_job_id (reservations ?db) = map rr_job_id (reservations db)"
    "map rr_reservation_id (reservations ?db) = map rr_reservation_id (reservations db)"
    by (simp_all add: update_reservations_def)
  moreover have "list_all (\<lambda>r. 0 \<le> rr_reserved_bytes r
      \<and> list_ex (\<lambda>j. jr_job_id j = rr_job_id r \<and> open_job j) (jobs ?db)) (reservations ?db)"
    using downloads_ok_owner [OF ok] downloads_okD(5) [OF ok]
    by (auto simp: update_reservations_def list_all_iff list_ex_iff)
  ultimately show ?thesis
    using ok fits unfolding downloads_ok_def by simp
qed

text \<open>A job whose reservation is resized is downloading.\<close>
lemma downloads_ok_started: "downloads_ok db \<Longrightarrow> downloads_ok (mark_started now db job n)"
  unfolding mark_started_def
  by (rule downloads_ok_update_jobs) (auto simp: open_job_def intro: exI [of _ JobDownloading])

lemma reconcile_refines:
  assumes ok: "downloads_ok db" and owns: "owns db res"
  shows "case reconcile_started now db res n accounted of
      Inl e \<Rightarrow> ledger_resize now (dr_job_id res) (unat n) (unat accounted) (ledger_of db) = None
    | Inr (db', r) \<Rightarrow> downloads_ok db'
        \<and> ledger_resize now (dr_job_id res) (unat n) (unat accounted) (ledger_of db) = Some (ledger_of db')
        \<and> r = res\<lparr>dr_reserved_bytes := n\<rparr>"
proof -
  let ?job = "dr_job_id res" and ?rid = "dr_reservation_id res"
  let ?mine = "\<lambda>r. rr_reservation_id r = ?rid \<and> rr_job_id r = ?job"
  let ?db = "delete_reservations (\<lambda>r. rr_expires_at r \<le> now \<and> rr_job_id r \<noteq> ?job) db"
  let ?m = "expire (\<lambda>j. j = ?job) now (ledger_of db)"
  have ok0: "downloads_ok ?db" by (rule downloads_ok_delete [OF ok])
  have m: "ledger_of ?db = ?m" using ledger_of_expired [OF ok, of now "\<lambda>j. j = ?job"] by simp
  obtain r where r: "r \<in> set (reservations ?db)" "rr_job_id r = ?job" "rr_reservation_id r = ?rid"
    using owns by (auto simp: owns_def list_ex_iff delete_reservations_def)
  have f: "find ?mine (reservations ?db) = Some r"
  proof -
    obtain x where x: "find ?mine (reservations ?db) = Some x" using r
      by (cases "find ?mine (reservations ?db)") (auto simp: find_None_iff)
    then have "rr_job_id x = rr_job_id r" "x \<in> set (reservations ?db)" using r by (auto simp: find_Some_iff)
    then show ?thesis using x downloads_okD(3) [OF ok0] r(1) by (auto simp: distinct_map inj_on_def)
  qed
  have "?m ?job = Some (nat (rr_reserved_bytes r), rr_expires_at r)"
    using find_key_row [OF downloads_okD(3) [OF ok0] r(1)] r(2) by (simp flip: m) (simp add: ledger_of_def)
  then have split: "held ?m = held (?m(?job := None)) + nat (rr_reserved_bytes r)"
    by (intro held_drop) (simp_all flip: m)
  have "held ?m \<le> budget" using downloads_okD(4) [OF ok0] by (simp add: m)
  with split have others: "unat (saturating_sub (of_column (int (held ?m))) (of_column (rr_reserved_bytes r)))
      = held (?m(?job := None))"
    using unat_other [of "held (?m(?job := None))" "nat (rr_reserved_bytes r)"] downloads_okD(5) [OF ok0 r(1)]
    by simp
  show ?thesis
  proof (cases "unat accounted + held (?m(?job := None)) + unat n \<le> budget")
    case False
    then show ?thesis
      using over_budget [of accounted "saturating_sub (of_column (int (held ?m))) (of_column (rr_reserved_bytes r))" n]
      by (simp add: reconcile_started_def Let_def reserved_sum_held [OF ok0] m f others from_db_def ledger_resize_def not_le)
  next
    case True
    obtain k where k: "unat n = k" by simp
    let ?db' = "update_reservations ?mine (\<lambda>r. r\<lparr>rr_reserved_bytes := int k, rr_expires_at := expiry now\<rparr>) ?db"
    have col: "to_column n = int k" using True to_column_small [of n] by (simp add: k)
    have led: "ledger_of ?db' = ?m(?job \<mapsto> (k, expiry now))"
      using ledger_of_resized [OF ok0 r] by (simp add: m)
    have "finite (dom ?m)" by (simp flip: m)
    then have "downloads_ok ?db'"
      using True by (intro downloads_ok_resize [OF ok0]) (simp add: led held_upd k)
    then have "downloads_ok (mark_started now ?db' ?job n)" by (rule downloads_ok_started)
    moreover have "reconcile_started now db res n accounted
        = Inr (mark_started now ?db' ?job n, res\<lparr>dr_reserved_bytes := n\<rparr>)"
      using True over_budget [of accounted "saturating_sub (of_column (int (held ?m))) (of_column (rr_reserved_bytes r))" n]
      by (simp add: reconcile_started_def Let_def reserved_sum_held [OF ok0] m f others from_db_def
            mark_started_def col not_le k)
    ultimately show ?thesis using True led by (simp add: ledger_resize_def mark_started_def k)
  qed
qed

lemma downloads_ok_finish:
  assumes "downloads_ok db"
  shows "downloads_ok (finish now db job status err)"
proof -
  let ?db = "delete_reservations (\<lambda>r. rr_job_id r = job) db"
  have "finish now db job status err =
      update_jobs (\<lambda>j. jr_job_id j = job) (\<lambda>j. j\<lparr>jr_status := job_status_as_str status,
         jr_last_error_code := err, jr_updated_at := now\<rparr>) ?db"
    by (simp add: finish_def delete_reservations_def update_jobs_def)
  also have "downloads_ok \<dots>"
    by (rule downloads_ok_update_jobs [OF downloads_ok_delete [OF assms]])
       (auto simp: delete_reservations_def)
  finally show ?thesis .
qed

lemma ledger_of_finish:
  "downloads_ok db \<Longrightarrow> ledger_of (finish now db job status err) = (ledger_of db)(job := None)"
  using ledger_of_release [of db job]
  by (simp add: finish_def) (simp add: ledger_of_def [abs_def] delete_reservations_def update_jobs_def)

lemma downloads_ok_progress: "downloads_ok db \<Longrightarrow> downloads_ok (update_progress now db job n)"
  unfolding update_progress_def by (rule downloads_ok_update_jobs) (auto simp: open_job_def)

lemma recover_jobs:
  "jobs (fst (recover_interrupted now db)) =
     map (\<lambda>j. if open_job j then j\<lparr>jr_status := ''failed'',
            jr_last_error_code := Some ''ERR_DOWNLOAD_INTERRUPTED'', jr_updated_at := now\<rparr> else j) (jobs db)"
  "reservations (fst (recover_interrupted now db)) = []"
  by (simp_all add: recover_interrupted_def delete_reservations_def update_jobs_def)

lemma ledger_of_recovered: "ledger_of (fst (recover_interrupted now db)) = Map.empty"
  by (rule ext) (simp add: ledger_of_def recover_jobs)

lemma downloads_ok_recover: "downloads_ok db \<Longrightarrow> downloads_ok (fst (recover_interrupted now db))"
  unfolding downloads_ok_def
  by (auto simp: recover_jobs ledger_of_recovered held_def list_all_iff comp_def if_distrib
        intro: exI [of _ JobFailed] cong: if_cong)

text \<open>
  C25: The two tables implement the ledger. A reservation for a new job is granted exactly when the
  bytes on disk, the leases that have not expired and the new one fit the budget of 32 GiB, and then
  is the job's lease; otherwise the caller gets the quota error and nothing changes. The total the server
  reports resizes the job's own lease under the same rule. Finishing a job releases exactly its
  lease, and recovery releases all. Every operation keeps the invariant of the tables.
\<close>
theorem reservations_refine_ledger:
  assumes "downloads_ok db" and "fresh_ids db job_id rid" and "owns db res"
  shows "(case reserve sm job_id rid now db model token path sha expected accounted of
      Inl e \<Rightarrow> ledger_grant now job_id (unat expected) (unat accounted) (ledger_of db) = None
        \<and> e = quota_error expected accounted (held (expire (\<lambda>_. False) now (ledger_of db)))
    | Inr (db', r) \<Rightarrow> downloads_ok db'
        \<and> ledger_grant now job_id (unat expected) (unat accounted) (ledger_of db) = Some (ledger_of db')
        \<and> r = \<lparr>dr_job_id = job_id, dr_reservation_id = rid, dr_reserved_bytes = expected\<rparr>)
    \<and> (case reconcile_started now db res n accounted of
      Inl e \<Rightarrow> ledger_resize now (dr_job_id res) (unat n) (unat accounted) (ledger_of db) = None
    | Inr (db', r) \<Rightarrow> downloads_ok db'
        \<and> ledger_resize now (dr_job_id res) (unat n) (unat accounted) (ledger_of db) = Some (ledger_of db')
        \<and> r = res\<lparr>dr_reserved_bytes := n\<rparr>)
    \<and> downloads_ok (finish now db job status err)
    \<and> ledger_of (finish now db job status err) = (ledger_of db)(job := None)
    \<and> downloads_ok (fst (recover_interrupted now db))
    \<and> ledger_of (fst (recover_interrupted now db)) = Map.empty"
  by (intro conjI reserve_refines reconcile_refines downloads_ok_finish ledger_of_finish
        downloads_ok_recover ledger_of_recovered assms)

text \<open>One job of 10 GiB holds a lease; a second one asks for 20 GiB with 1 GiB on disk.\<close>
definition one_download :: download_db where
  "one_download =
     \<lparr>jobs = [\<lparr>jr_job_id = ''j1'', jr_model_id = None, jr_destination_token = ''t'', jr_destination_path = ''p'',
        jr_expected_sha256 = ''h'', jr_expected_bytes = Some (10 * 1024 ^ 3), jr_bytes_downloaded = 0,
        jr_status = ''queued'', jr_last_error_code = None, jr_created_at = 0, jr_updated_at = 0\<rparr>],
      reservations = [\<lparr>rr_reservation_id = ''r1'', rr_job_id = ''j1'', rr_storage_class = ''model'',
        rr_reserved_bytes = 10 * 1024 ^ 3, rr_created_at = 0, rr_expires_at = expiry 0\<rparr>]\<rparr>"

definition first_lease :: DownloadReservation where
  "first_lease = \<lparr>dr_job_id = ''j1'', dr_reservation_id = ''r1'', dr_reserved_bytes = 10 * 1024 ^ 3\<rparr>"

lemma one_download_facts:
  "downloads_ok one_download" "fresh_ids one_download ''j2'' ''r2''" "owns one_download first_lease"
  by (auto simp: downloads_ok_def one_download_def open_job_def held_ledger_of budget_def fresh_ids_def
        owns_def first_lease_def intro: exI [of _ JobQueued])

theorem reservations_refine_ledger_witness:
  "(case reserve (\<lambda>_. []) ''j2'' ''r2'' 1 one_download None ''t'' ''p'' ''h'' (20 * 1024 ^ 3) (1024 ^ 3) of
      Inl e \<Rightarrow> ledger_grant 1 ''j2'' (unat (20 * 1024 ^ 3 :: u64)) (unat (1024 ^ 3 :: u64)) (ledger_of one_download) = None
    | Inr (db', r) \<Rightarrow> downloads_ok db')
   \<and> ledger_of (finish 1 one_download ''j1'' JobCompleted None) = (ledger_of one_download)(''j1'' := None)"
  using reservations_refine_ledger [OF one_download_facts, where sm = "\<lambda>_. []" and now = 1 and model = None
      and token = "''t''" and path = "''p''" and sha = "''h''" and expected = "20 * 1024 ^ 3"
      and accounted = "1024 ^ 3" and n = 1 and job = "''j1''" and status = JobCompleted and err = None]
  by (elim conjE, intro conjI) (simp_all split: sum.splits prod.splits)

section \<open>Histories\<close>

datatype download_op =
    OpReserve string string "string option" string string string u64 u64
  | OpReconcile DownloadReservation u64 u64
  | OpStart string u64
  | OpProgress string u64
  | OpFinish string DownloadJobStatus "string option"
  | OpRecover

text \<open>An operation that fails leaves the tables unchanged.\<close>
fun perform :: "(Violation \<Rightarrow> string) \<Rightarrow> time \<times> download_op \<Rightarrow> download_db \<Rightarrow> download_db" where
  "perform sm (now, OpReserve job_id rid model token path sha expected accounted) db =
     (case reserve sm job_id rid now db model token path sha expected accounted of
        Inl e \<Rightarrow> db | Inr (db', _) \<Rightarrow> db')"
| "perform sm (now, OpReconcile res n accounted) db =
     (case reconcile_started now db res n accounted of Inl e \<Rightarrow> db | Inr (db', _) \<Rightarrow> db')"
| "perform sm (now, OpStart job n) db = mark_started now db job n"
| "perform sm (now, OpProgress job n) db = update_progress now db job n"
| "perform sm (now, OpFinish job status err) db = finish now db job status err"
| "perform sm (now, OpRecover) db = fst (recover_interrupted now db)"

definition no_downloads :: download_db where
  "no_downloads = \<lparr>jobs = [], reservations = []\<rparr>"

lemma downloads_ok_none: "downloads_ok no_downloads"
  by (simp add: downloads_ok_def no_downloads_def ledger_of_def [abs_def] held_def)

lemma jobs_delete_reservations [simp]: "jobs (delete_reservations P db) = jobs db"
  by (simp add: delete_reservations_def)

lemma job_ids_update_jobs [simp]:
  assumes "\<And>j. jr_job_id (f j) = jr_job_id j"
  shows "jr_job_id ` set (jobs (update_jobs P f db)) = jr_job_id ` set (jobs db)"
proof -
  have "map jr_job_id (jobs (update_jobs P f db)) = map jr_job_id (jobs db)"
    using assms by (simp add: update_jobs_def)
  then show ?thesis by (metis set_map)
qed

lemma reserve_Inr:
  assumes "downloads_ok db" and "reserve sm job_id rid now db model token path sha expected accounted = Inr (db', r)"
  shows "downloads_ok db' \<and> jr_job_id ` set (jobs db') = insert job_id (jr_job_id ` set (jobs db))
    \<and> unat accounted + held (ledger_of db') \<le> budget"
proof -
  let ?db = "delete_reservations (\<lambda>r. rr_expires_at r \<le> now) db"
  have "fresh_ids ?db job_id rid" and jobs': "jr_job_id ` set (jobs db') = insert job_id (jr_job_id ` set (jobs db))"
    using assms(2) by (auto simp: reserve_def from_db_def Let_def and_then_Inr_iff fresh_ids_def
        insert_job_row_def insert_reservation_row_def list_ex_key list_ex_or delete_reservations_def
        split: if_splits sum.splits)
  moreover have "reserve sm job_id rid now ?db model token path sha expected accounted = Inr (db', r)"
    using assms(2) by (simp add: reserve_def delete_reservations_def)
  ultimately have "downloads_ok db'"
    and grant: "ledger_grant now job_id (unat expected) (unat accounted) (ledger_of ?db) = Some (ledger_of db')"
    using reserve_refines [OF downloads_ok_delete [OF assms(1)], where P1 = "\<lambda>r. rr_expires_at r \<le> now"
        and job_id = job_id and rid = rid and sm = sm and now = now and model = model and token = token
        and path = path and sha = sha and expected = expected and accounted = accounted] by simp_all
  let ?m = "expire (\<lambda>_. False) now (ledger_of ?db)"
  have "finite (dom ?m)"
    by (rule finite_subset [OF _ finite_dom_ledger_of [of ?db]]) (auto simp: expire_def split: option.splits)
  moreover from this have "held (?m(job_id := None)) \<le> held ?m" by (rule held_mono) simp
  moreover have "unat accounted + held ?m + unat expected \<le> budget"
    and "ledger_of db' = ?m(job_id \<mapsto> (unat expected, expiry now))"
    using grant by (auto simp: ledger_grant_def Let_def split: if_splits)
  ultimately have "unat accounted + held (ledger_of db') \<le> budget" by (simp add: held_upd)
  with \<open>downloads_ok db'\<close> jobs' show ?thesis by blast
qed

lemma reconcile_Inr:
  assumes "downloads_ok db" and "reconcile_started now db res n accounted = Inr (db', r)"
  shows "downloads_ok db' \<and> jr_job_id ` set (jobs db') = jr_job_id ` set (jobs db)
    \<and> unat accounted + held (ledger_of db') \<le> budget"
proof -
  have owns: "owns db res"
  proof (rule ccontr)
    assume no: "\<not> owns db res"
    let ?db = "delete_reservations (\<lambda>r. rr_expires_at r \<le> now \<and> rr_job_id r \<noteq> dr_job_id res) db"
    have "find (\<lambda>r. rr_reservation_id r = dr_reservation_id res \<and> rr_job_id r = dr_job_id res) (reservations ?db) = None"
      using no by (auto simp: find_None_iff owns_def list_ex_iff delete_reservations_def)
    then show False using assms(2) by (simp add: reconcile_started_def Let_def from_db_def and_then_Inr_iff split: sum.splits)
  qed
  have jobs': "jr_job_id ` set (jobs db') = jr_job_id ` set (jobs db)"
    using assms(2) by (clarsimp simp: reconcile_started_def from_db_def Let_def and_then_Inr_iff
        split: if_splits sum.splits)
  have "downloads_ok db'"
    and grant: "ledger_resize now (dr_job_id res) (unat n) (unat accounted) (ledger_of db) = Some (ledger_of db')"
    using reconcile_refines [OF assms(1) owns, of now n accounted] assms(2) by simp_all
  let ?m = "expire (\<lambda>j. j = dr_job_id res) now (ledger_of db)"
  have "finite (dom ?m)"
    by (rule finite_subset [OF _ finite_dom_ledger_of [of db]]) (auto simp: expire_def split: option.splits)
  moreover have "unat accounted + held (?m(dr_job_id res := None)) + unat n \<le> budget"
    and "ledger_of db' = ?m(dr_job_id res \<mapsto> (unat n, expiry now))"
    using grant by (auto simp: ledger_resize_def Let_def split: if_splits)
  ultimately have "unat accounted + held (ledger_of db') \<le> budget" by (simp add: held_upd)
  with \<open>downloads_ok db'\<close> jobs' show ?thesis by blast
qed

lemma perform_ok:
  assumes "downloads_ok db"
  shows "downloads_ok (perform sm op db)
    \<and> jr_job_id ` set (jobs db) \<subseteq> jr_job_id ` set (jobs (perform sm op db))"
proof (cases "(sm, op, db)" rule: perform.cases)
  case (1 sm' now job_id rid model token path sha expected accounted db')
  then show ?thesis using assms reserve_Inr [OF assms, of sm job_id rid now model token path sha expected accounted]
    by (auto split: sum.splits prod.splits)
next
  case (2 sm' now res n accounted db')
  then show ?thesis using assms reconcile_Inr [OF assms, of now res n accounted]
    by (auto split: sum.splits prod.splits)
next
  case (3 sm' now job n db')
  then show ?thesis using downloads_ok_started [OF assms] by (simp add: mark_started_def)
next
  case (4 sm' now job n db')
  then show ?thesis using downloads_ok_progress [OF assms] by (simp add: update_progress_def)
next
  case (5 sm' now job status err db')
  then show ?thesis using downloads_ok_finish [OF assms] by (simp add: finish_def)
next
  case (6 sm' now db')
  then show ?thesis using downloads_ok_recover [OF assms] by (simp add: recover_interrupted_def)
qed

lemma history_ok: "downloads_ok db \<Longrightarrow> downloads_ok (fold (perform sm) ops db)
    \<and> jr_job_id ` set (jobs db) \<subseteq> jr_job_id ` set (jobs (fold (perform sm) ops db))"
proof (induction ops arbitrary: db)
  case (Cons op ops)
  then have "downloads_ok (perform sm op db)"
    "jr_job_id ` set (jobs db) \<subseteq> jr_job_id ` set (jobs (perform sm op db))"
    using perform_ok [OF Cons.prems, of sm op] by auto
  then show ?case using Cons.IH [of "perform sm op db"] unfolding fold_simps by (blast intro: order_trans)
qed simp

lemma grant_after_recovery:
  "ledger_grant now job n used Map.empty = None \<longleftrightarrow> budget < used + n"
  by (auto simp: ledger_grant_def expire_def [abs_def] held_def)

lemma recovery_complete:
  "case recover_interrupted now db of (db', n) \<Rightarrow>
     n = length (filter open_job (jobs db)) \<and> reservations db' = [] \<and> filter open_job (jobs db') = []
     \<and> map jr_job_id (jobs db') = map jr_job_id (jobs db)
     \<and> {j \<in> set (jobs db). \<not> open_job j} \<subseteq> set (jobs db')
     \<and> (\<forall>job n used. ledger_grant now job n used (ledger_of db') = None \<longleftrightarrow> budget < used + n)"
proof -
  have "snd (recover_interrupted now db) = length (filter open_job (jobs db))"
    by (simp add: recover_interrupted_def)
  moreover have "filter open_job (jobs (fst (recover_interrupted now db))) = []"
    "map jr_job_id (jobs (fst (recover_interrupted now db))) = map jr_job_id (jobs db)"
    "{j \<in> set (jobs db). \<not> open_job j} \<subseteq> set (jobs (fst (recover_interrupted now db)))"
    by (auto simp: recover_jobs filter_empty_conv open_job_def)
  ultimately show ?thesis
    by (simp add: case_prod_beta recover_jobs(2) ledger_of_recovered grant_after_recovery)
qed

text \<open>
  C26: Whatever sequence of reservations, reconciliations, starts, progress reports, ends and
  recoveries the tables have seen, and whatever the clock did: the reservations never exceed the
  budget of 32 GiB, each belongs to a job that is still queued or downloading, job and reservation
  keys are unique and no job is lost by further operations. A reservation that is granted or resized fits the budget
  together with the bytes on disk. Recovery fails exactly the open jobs, counts them, keeps all
  others, and leaves no reservation, so a new download is then refused only for the bytes on disk.
\<close>
theorem download_history_safe:
  "let db = fold (perform sm) ops no_downloads in
     downloads_ok db \<and> held (ledger_of db) \<le> 32 * 1024 ^ 3
     \<and> jr_job_id ` set (jobs db) \<subseteq> jr_job_id ` set (jobs (fold (perform sm) later db))
     \<and> (\<nexists>job rid model token path sha n used db' r.
          reserve sm job rid now db model token path sha n used = Inr (db', r)
          \<and> 32 * 1024 ^ 3 < unat used + held (ledger_of db'))
     \<and> (\<nexists>res n used db' r. reconcile_started now db res n used = Inr (db', r)
          \<and> 32 * 1024 ^ 3 < unat used + held (ledger_of db'))
     \<and> (case recover_interrupted now db of (db', n) \<Rightarrow>
          n = length (filter open_job (jobs db)) \<and> reservations db' = [] \<and> filter open_job (jobs db') = []
          \<and> map jr_job_id (jobs db') = map jr_job_id (jobs db)
          \<and> {j \<in> set (jobs db). \<not> open_job j} \<subseteq> set (jobs db')
          \<and> (\<forall>job n used. ledger_grant now job n used (ledger_of db') = None \<longleftrightarrow> 32 * 1024 ^ 3 < used + n))"
proof -
  let ?db = "fold (perform sm) ops no_downloads"
  have ok: "downloads_ok ?db" using history_ok [OF downloads_ok_none] by blast
  have B: "budget = 32 * 1024 ^ 3" by (simp add: budget_def)
  show ?thesis
    unfolding B [symmetric] Let_def
  proof (intro conjI recovery_complete)
    show "downloads_ok ?db" by (rule ok)
    show "held (ledger_of ?db) \<le> budget" by (rule downloads_okD(4) [OF ok])
    show "jr_job_id ` set (jobs ?db) \<subseteq> jr_job_id ` set (jobs (fold (perform sm) later ?db))"
      using history_ok [OF ok] by blast
  qed (use reserve_Inr [OF ok] reconcile_Inr [OF ok] in \<open>meson leD\<close>)+
qed

end
