(* ===== verification/Ui_Protocol.thy ===== *)
theory Ui_Protocol
  imports Sql_Model Json_Model
begin

text \<open>
  The versioned protocol between the client and the runtime (\<open>ui_protocol.rs\<close>): versions and
  capabilities, the command registry, typed payloads and their validation, acknowledgements, events,
  batches and snapshots.

  A payload is decoded from its JSON value the way \<open>serde\<close> decodes a derived struct: an object by its
  field names, unknown ones ignored, or an array by position; a field with a default may be missing.
\<close>

section \<open>Versions and capabilities\<close>

definition PROTOCOL_MAJOR :: u16 where "PROTOCOL_MAJOR = 2"
definition PROTOCOL_MINOR :: u16 where "PROTOCOL_MINOR = 0"
definition MIN_SUPPORTED_PEER_MAJOR :: u16 where "MIN_SUPPORTED_PEER_MAJOR = 2"
definition MAX_EVENT_BATCH_ITEMS :: nat where "MAX_EVENT_BATCH_ITEMS = 256"
definition MAX_PROTOCOL_ID_LEN :: nat where "MAX_PROTOCOL_ID_LEN = 128"
definition MAX_COMMAND_TYPE_LEN :: nat where "MAX_COMMAND_TYPE_LEN = 96"
definition MAX_EVENT_TYPE_LEN :: nat where "MAX_EVENT_TYPE_LEN = 128"
definition MAX_IDEMPOTENCY_KEY_LEN :: nat where "MAX_IDEMPOTENCY_KEY_LEN = 192"

record ProtocolVersion =
  pv_major :: u16
  pv_minor :: u16

definition version_current :: ProtocolVersion where
  "version_current = \<lparr>pv_major = PROTOCOL_MAJOR, pv_minor = PROTOCOL_MINOR\<rparr>"

definition is_compatible :: "ProtocolVersion \<Rightarrow> bool" where
  "is_compatible v \<longleftrightarrow> pv_major v = PROTOCOL_MAJOR \<and> pv_major v \<ge> MIN_SUPPORTED_PEER_MAJOR"

datatype CommandType =
    AppInitialize | ChatSendMessage | ChatStopGeneration | ChatClearConversation | CmdModelDownload
  | DownloadCancel | ModelSelect | ModelDelete | CmdDocumentGrant | DocumentRevoke
  | DocumentRetryIngestion | SettingsUpdate | RecoveryResume | RecoveryRegenerate

fun command_as_str :: "CommandType \<Rightarrow> string" where
  "command_as_str AppInitialize = ''app.initialize''"
| "command_as_str ChatSendMessage = ''chat.send_message''"
| "command_as_str ChatStopGeneration = ''chat.stop_generation''"
| "command_as_str ChatClearConversation = ''chat.clear_conversation''"
| "command_as_str CmdModelDownload = ''model.download''"
| "command_as_str DownloadCancel = ''download.cancel''"
| "command_as_str ModelSelect = ''model.select''"
| "command_as_str ModelDelete = ''model.delete''"
| "command_as_str CmdDocumentGrant = ''document.grant''"
| "command_as_str DocumentRevoke = ''document.revoke''"
| "command_as_str DocumentRetryIngestion = ''document.retry_ingestion''"
| "command_as_str SettingsUpdate = ''settings.update''"
| "command_as_str RecoveryResume = ''recovery.resume''"
| "command_as_str RecoveryRegenerate = ''recovery.regenerate''"

definition command_parse :: "string \<Rightarrow> CommandType option" where
  "command_parse s =
     map_of [(''app.initialize'', AppInitialize), (''chat.send_message'', ChatSendMessage),
       (''chat.stop_generation'', ChatStopGeneration), (''chat.clear_conversation'', ChatClearConversation),
       (''model.download'', CmdModelDownload), (''download.cancel'', DownloadCancel),
       (''model.select'', ModelSelect), (''model.delete'', ModelDelete),
       (''document.grant'', CmdDocumentGrant), (''document.revoke'', DocumentRevoke),
       (''document.retry_ingestion'', DocumentRetryIngestion), (''settings.update'', SettingsUpdate),
       (''recovery.resume'', RecoveryResume), (''recovery.regenerate'', RecoveryRegenerate)] s"

fun requires_idempotency_key :: "CommandType \<Rightarrow> bool" where
  "requires_idempotency_key ChatSendMessage = True"
| "requires_idempotency_key CmdModelDownload = True"
| "requires_idempotency_key ModelDelete = True"
| "requires_idempotency_key CmdDocumentGrant = True"
| "requires_idempotency_key DocumentRevoke = True"
| "requires_idempotency_key DocumentRetryIngestion = True"
| "requires_idempotency_key RecoveryResume = True"
| "requires_idempotency_key RecoveryRegenerate = True"
| "requires_idempotency_key _ = False"

record ProtocolCapabilitySnapshot =
  pc_current_version :: ProtocolVersion
  pc_minimum_supported_peer_major :: u16
  pc_capabilities :: "string list"

definition capabilities_current :: ProtocolCapabilitySnapshot where
  "capabilities_current =
     \<lparr>pc_current_version = version_current, pc_minimum_supported_peer_major = MIN_SUPPORTED_PEER_MAJOR,
      pc_capabilities = [''command_envelope_v2'', ''command_acknowledgement'', ''event_identity'',
        ''per_stream_sequencing'', ''idempotent_command_replay'', ''operation_lifecycle_events'',
        ''bounded_event_drain'', ''runtime_snapshots'', ''graceful_shutdown'']\<rparr>"

definition for_commands :: "CommandType list \<Rightarrow> ProtocolCapabilitySnapshot" where
  "for_commands commands =
     capabilities_current\<lparr>pc_capabilities := pc_capabilities capabilities_current
       @ map (\<lambda>c. ''command:'' @ command_as_str c) commands\<rparr>"

definition with_transport :: "ProtocolCapabilitySnapshot \<Rightarrow> string \<Rightarrow> ProtocolCapabilitySnapshot" where
  "with_transport s capability =
     (if \<not> list_ex (\<lambda>v. v = capability) (pc_capabilities s)
      then s\<lparr>pc_capabilities := pc_capabilities s @ [capability]\<rparr> else s)"

section \<open>Envelopes\<close>

record CommandScope =
  sc_conversation_id :: "string option"
  sc_branch_id :: "string option"
  sc_turn_id :: "string option"
  sc_model_id :: "string option"
  sc_document_id :: "string option"

record CommandEnvelopeV2 =
  ce_protocol_version :: ProtocolVersion
  ce_command_id :: string
  ce_request_id :: string
  ce_command_type :: string
  ce_submitted_at :: time
  ce_operation_id :: "string option"
  ce_correlation_id :: string
  ce_idempotency_key :: "string option"
  ce_scope :: "CommandScope option"
  ce_payload :: json

datatype ValidatedCommandPayload =
    EmptyPayload
  | InitializePayload string
  | SendMessagePayload string
  | ModelDownloadPayload string string
  | ModelPayload string
  | DocumentGrantPayload string string string
  | DocumentPayload string
  | SettingUpdatePayload string json

record ValidatedCommand =
  vc_envelope :: CommandEnvelopeV2
  vc_command_type :: CommandType
  vc_payload :: ValidatedCommandPayload

datatype RejectionReason =
    UnsupportedProtocol | UnknownCommand | InvalidPayload | CapabilityUnavailable | BusyConflict
  | StaleScope | RejBackendUnavailable | DuplicateReplayConflict | PolicyDenied

datatype AcknowledgementStatus = AckAccepted | AckRejected

record CommandAcknowledgementV2 =
  ak_protocol_version :: ProtocolVersion
  ak_command_id :: string
  ak_request_id :: string
  ak_correlation_id :: string
  ak_operation_id :: "string option"
  ak_status :: AcknowledgementStatus
  ak_rejection_reason :: "RejectionReason option"
  ak_timestamp :: time

record EventEnvelopeV2 =
  ev_protocol_version :: ProtocolVersion
  ev_event_id :: string
  ev_stream_id :: string
  ev_sequence :: u64
  ev_event_type :: string
  ev_emitted_at :: time
  ev_correlation_id :: "string option"
  ev_operation_id :: "string option"
  ev_request_id :: "string option"
  ev_command_id :: "string option"
  ev_command_type :: "string option"
  ev_payload :: json

section \<open>Identifiers\<close>

definition id_char :: "char \<Rightarrow> bool" where
  "id_char c \<longleftrightarrow> is_ascii_alphanumeric c \<or> c \<in> {CHR ''-'', CHR ''_'', CHR ''.'', CHR '':'', CHR ''/''}"

definition valid_protocol_id :: "string \<Rightarrow> nat \<Rightarrow> bool" where
  "valid_protocol_id value max_len \<longleftrightarrow>
     length value > 0 \<and> length value \<le> max_len \<and> value = trim value \<and> list_all id_char value"

definition optional_protocol_id_valid :: "string option \<Rightarrow> bool" where
  "optional_protocol_id_valid value =
     (case value of None \<Rightarrow> True | Some v \<Rightarrow> valid_protocol_id v MAX_PROTOCOL_ID_LEN)"

definition non_empty_bounded :: "string \<Rightarrow> nat \<Rightarrow> bool" where
  "non_empty_bounded value max_len \<longleftrightarrow> trim value \<noteq> [] \<and> length value \<le> max_len"

definition is_some_neq :: "string option \<Rightarrow> string \<Rightarrow> bool" where
  "is_some_neq o' v = (case o' of None \<Rightarrow> False | Some x \<Rightarrow> x \<noteq> v)"

section \<open>Acknowledgements, events, batches\<close>

definition ack_accepted :: "time \<Rightarrow> CommandEnvelopeV2 \<Rightarrow> string option \<Rightarrow> CommandAcknowledgementV2" where
  "ack_accepted now env operation_id =
     \<lparr>ak_protocol_version = version_current, ak_command_id = ce_command_id env,
      ak_request_id = ce_request_id env, ak_correlation_id = ce_correlation_id env,
      ak_operation_id = operation_id, ak_status = AckAccepted, ak_rejection_reason = None,
      ak_timestamp = now\<rparr>"

definition ack_rejected :: "time \<Rightarrow> CommandEnvelopeV2 option \<Rightarrow> RejectionReason \<Rightarrow> CommandAcknowledgementV2" where
  "ack_rejected now env reason =
     \<lparr>ak_protocol_version = version_current,
      ak_command_id = (case env of Some e \<Rightarrow> ce_command_id e | None \<Rightarrow> []),
      ak_request_id = (case env of Some e \<Rightarrow> ce_request_id e | None \<Rightarrow> []),
      ak_correlation_id = (case env of Some e \<Rightarrow> ce_correlation_id e | None \<Rightarrow> []),
      ak_operation_id = None, ak_status = AckRejected, ak_rejection_reason = Some reason,
      ak_timestamp = now\<rparr>"

definition ack_validate_for :: "CommandAcknowledgementV2 \<Rightarrow> CommandEnvelopeV2 \<Rightarrow> bool" where
  "ack_validate_for ack command =
     (if \<not> is_compatible (ak_protocol_version ack) \<or> ak_command_id ack \<noteq> ce_command_id command
         \<or> ak_request_id ack \<noteq> ce_request_id command \<or> ak_correlation_id ack \<noteq> ce_correlation_id command
      then False
      else case ak_status ack of
        AckAccepted \<Rightarrow> (case ak_operation_id ack of None \<Rightarrow> False | Some v \<Rightarrow> valid_protocol_id v MAX_PROTOCOL_ID_LEN)
      | AckRejected \<Rightarrow> (case ak_rejection_reason ack of None \<Rightarrow> False | Some _ \<Rightarrow> True))"

definition event_validate :: "EventEnvelopeV2 \<Rightarrow> bool" where
  "event_validate e \<longleftrightarrow>
     is_compatible (ev_protocol_version e)
     \<and> valid_protocol_id (ev_event_id e) MAX_PROTOCOL_ID_LEN
     \<and> valid_protocol_id (ev_stream_id e) MAX_PROTOCOL_ID_LEN
     \<and> ev_sequence e > 0
     \<and> non_empty_bounded (ev_event_type e) MAX_EVENT_TYPE_LEN
     \<and> optional_protocol_id_valid (ev_correlation_id e)
     \<and> optional_protocol_id_valid (ev_operation_id e)
     \<and> optional_protocol_id_valid (ev_request_id e)
     \<and> optional_protocol_id_valid (ev_command_id e)
     \<and> (case ev_command_type e of None \<Rightarrow> True | Some v \<Rightarrow> non_empty_bounded v MAX_COMMAND_TYPE_LEN)"

record EventBatchV2 =
  eb_protocol_version :: ProtocolVersion
  eb_runtime_session_id :: string
  eb_drained_at :: time
  eb_events :: "EventEnvelopeV2 list"
  eb_has_more :: bool

definition batch_validate :: "EventBatchV2 \<Rightarrow> bool" where
  "batch_validate b \<longleftrightarrow>
     is_compatible (eb_protocol_version b) \<and> valid_protocol_id (eb_runtime_session_id b) MAX_PROTOCOL_ID_LEN
     \<and> length (eb_events b) \<le> MAX_EVENT_BATCH_ITEMS \<and> list_all event_validate (eb_events b)"

datatype SnapshotDomainV2 = DomainApplication | DomainSettings | DomainProtocol | DomainOperations

definition domain_parse :: "string \<Rightarrow> SnapshotDomainV2 option" where
  "domain_parse s =
     map_of [(''application'', DomainApplication), (''settings'', DomainSettings),
       (''protocol'', DomainProtocol), (''operations'', DomainOperations)] s"

record SnapshotEnvelopeV2 =
  se_protocol_version :: ProtocolVersion
  se_runtime_session_id :: string
  se_domain :: SnapshotDomainV2
  se_schema_version :: u16
  se_generated_at :: time
  se_payload :: json

definition snapshot_validate :: "SnapshotEnvelopeV2 \<Rightarrow> bool" where
  "snapshot_validate s \<longleftrightarrow>
     is_compatible (se_protocol_version s) \<and> valid_protocol_id (se_runtime_session_id s) MAX_PROTOCOL_ID_LEN
     \<and> se_schema_version s > 0"

section \<open>Payloads\<close>

text \<open>The values of a derived struct's fields, each with the default it may be given.\<close>
definition struct_fields :: "(string \<times> json option) list \<Rightarrow> json \<Rightarrow> json list option" where
  "struct_fields spec v =
     (case v of
        Object m \<Rightarrow> those (map (\<lambda>(f, d). case map_of m f of Some x \<Rightarrow> Some x | None \<Rightarrow> d) spec)
      | Array xs \<Rightarrow>
          if length xs > length spec then None
          else those (map Some xs @ map snd (drop (length xs) spec))
      | _ \<Rightarrow> None)"

definition decode_initialize :: "json \<Rightarrow> string option" where
  "decode_initialize v =
     (case struct_fields [(''config_path'', None)] v of Some [String s] \<Rightarrow> Some s | _ \<Rightarrow> None)"

definition decode_send_message :: "json \<Rightarrow> string option" where
  "decode_send_message v =
     (case struct_fields [(''text'', None)] v of Some [String s] \<Rightarrow> Some s | _ \<Rightarrow> None)"

definition decode_model :: "json \<Rightarrow> string option" where
  "decode_model v =
     (case struct_fields [(''model_id'', None)] v of Some [String s] \<Rightarrow> Some s | _ \<Rightarrow> None)"

definition decode_model_download :: "json \<Rightarrow> (string \<times> string) option" where
  "decode_model_download v =
     (case struct_fields [(''model_id'', None), (''sha256'', Some (String []))] v of
        Some [String m, String s] \<Rightarrow> Some (m, s) | _ \<Rightarrow> None)"

definition decode_document_grant :: "json \<Rightarrow> (string \<times> string \<times> string) option" where
  "decode_document_grant v =
     (case struct_fields [(''target'', None), (''label'', None), (''mime_type'', None)] v of
        Some [String t, String l, String m] \<Rightarrow> Some (t, l, m) | _ \<Rightarrow> None)"

definition decode_document :: "json \<Rightarrow> string option" where
  "decode_document v =
     (case struct_fields [(''document_id'', None)] v of Some [String s] \<Rightarrow> Some s | _ \<Rightarrow> None)"

definition decode_setting :: "json \<Rightarrow> (string \<times> json) option" where
  "decode_setting v =
     (case struct_fields [(''key'', None), (''value'', None)] v of
        Some [String k, x] \<Rightarrow> Some (k, x) | _ \<Rightarrow> None)"

definition is_scalar :: "json \<Rightarrow> bool" where
  "is_scalar v = (case v of Bool _ \<Rightarrow> True | Number _ \<Rightarrow> True | String _ \<Rightarrow> True | _ \<Rightarrow> False)"

definition accept_payload :: "('a \<Rightarrow> bool) \<Rightarrow> ('a \<Rightarrow> ValidatedCommandPayload) \<Rightarrow> 'a option
     \<Rightarrow> RejectionReason + ValidatedCommandPayload" where
  "accept_payload ok build decoded =
     (case decoded of
        None \<Rightarrow> Inl InvalidPayload
      | Some v \<Rightarrow> if \<not> ok v then Inl InvalidPayload else Inr (build v))"

fun validate_payload :: "CommandType \<Rightarrow> json \<Rightarrow> RejectionReason + ValidatedCommandPayload" where
  "validate_payload AppInitialize v =
     accept_payload (\<lambda>p. non_empty_bounded p 4096) InitializePayload (decode_initialize v)"
| "validate_payload ChatSendMessage v =
     accept_payload (\<lambda>p. non_empty_bounded p (64 * 1024)) SendMessagePayload (decode_send_message v)"
| "validate_payload CmdModelDownload v =
     accept_payload (\<lambda>(m, s). non_empty_bounded m 2048 \<and> length s \<le> 128)
       (\<lambda>(m, s). ModelDownloadPayload m s) (decode_model_download v)"
| "validate_payload ModelSelect v =
     accept_payload (\<lambda>m. valid_protocol_id m MAX_PROTOCOL_ID_LEN) ModelPayload (decode_model v)"
| "validate_payload ModelDelete v =
     accept_payload (\<lambda>m. valid_protocol_id m MAX_PROTOCOL_ID_LEN) ModelPayload (decode_model v)"
| "validate_payload CmdDocumentGrant v =
     accept_payload (\<lambda>(t, l, m). non_empty_bounded t 8192 \<and> non_empty_bounded l 512 \<and> non_empty_bounded m 256)
       (\<lambda>(t, l, m). DocumentGrantPayload t l m) (decode_document_grant v)"
| "validate_payload DocumentRevoke v =
     accept_payload (\<lambda>d. valid_protocol_id d MAX_PROTOCOL_ID_LEN) DocumentPayload (decode_document v)"
| "validate_payload DocumentRetryIngestion v =
     accept_payload (\<lambda>d. valid_protocol_id d MAX_PROTOCOL_ID_LEN) DocumentPayload (decode_document v)"
| "validate_payload SettingsUpdate v =
     accept_payload (\<lambda>(k, x). non_empty_bounded k 128 \<and> is_scalar x)
       (\<lambda>(k, x). SettingUpdatePayload k x) (decode_setting v)"
| "validate_payload _ v = (if v = Object [] then Inr EmptyPayload else Inl InvalidPayload)"

section \<open>Scopes\<close>

definition scope_values :: "CommandScope \<Rightarrow> string list" where
  "scope_values s =
     List.map_filter id [sc_conversation_id s, sc_branch_id s, sc_turn_id s, sc_model_id s, sc_document_id s]"

definition validate_scope :: "CommandScope option \<Rightarrow> RejectionReason + unit" where
  "validate_scope scope =
     (case scope of
        None \<Rightarrow> Inr ()
      | Some s \<Rightarrow>
          if \<not> list_all (\<lambda>v. valid_protocol_id v MAX_PROTOCOL_ID_LEN) (scope_values s) then Inl StaleScope
          else if sc_branch_id s \<noteq> None \<and> sc_conversation_id s = None then Inl StaleScope
          else Inr ())"

definition scope_refused :: "CommandType \<Rightarrow> CommandScope \<Rightarrow> ValidatedCommandPayload \<Rightarrow> bool" where
  "scope_refused command_type s payload =
     (let has_conversation = sc_conversation_id s \<noteq> None \<or> sc_branch_id s \<noteq> None;
          has_model = sc_model_id s \<noteq> None;
          has_document = sc_document_id s \<noteq> None in
      if command_type = RecoveryResume \<or> command_type = RecoveryRegenerate
      then sc_conversation_id s = None \<or> sc_branch_id s = None \<or> has_model \<or> has_document
      else if command_type = ChatSendMessage \<or> command_type = ChatClearConversation
      then has_model \<or> has_document
      else if command_type = ChatStopGeneration
      then has_model \<or> has_document \<or> sc_conversation_id s = None \<or> sc_branch_id s = None
      else case (command_type, payload) of
        (CmdModelDownload, ModelDownloadPayload m _) \<Rightarrow>
          has_conversation \<or> has_document \<or> is_some_neq (sc_model_id s) m
      | (ModelSelect, ModelPayload m) \<Rightarrow> has_conversation \<or> has_document \<or> is_some_neq (sc_model_id s) m
      | (ModelDelete, ModelPayload m) \<Rightarrow> has_conversation \<or> has_document \<or> is_some_neq (sc_model_id s) m
      | (DocumentRevoke, DocumentPayload d) \<Rightarrow>
          has_conversation \<or> has_model \<or> is_some_neq (sc_document_id s) d
      | (DocumentRetryIngestion, DocumentPayload d) \<Rightarrow>
          has_conversation \<or> has_model \<or> is_some_neq (sc_document_id s) d
      | _ \<Rightarrow>
          command_type \<in> {CmdDocumentGrant, AppInitialize, DownloadCancel, SettingsUpdate}
          \<and> (has_conversation \<or> has_model \<or> has_document))"

definition validate_scope_for_command ::
  "CommandType \<Rightarrow> CommandScope option \<Rightarrow> ValidatedCommandPayload \<Rightarrow> RejectionReason + unit" where
  "validate_scope_for_command command_type scope payload =
     (case scope of
        None \<Rightarrow>
          if command_type = RecoveryResume \<or> command_type = RecoveryRegenerate then Inl StaleScope else Inr ()
      | Some s \<Rightarrow> if scope_refused command_type s payload then Inl StaleScope else Inr ())"

section \<open>Commands\<close>

definition validate_key :: "CommandType \<Rightarrow> string option \<Rightarrow> RejectionReason + unit" where
  "validate_key command_type key =
     (if requires_idempotency_key command_type then
        (case key of
           None \<Rightarrow> Inl InvalidPayload
         | Some k \<Rightarrow> if \<not> valid_protocol_id k MAX_IDEMPOTENCY_KEY_LEN then Inl InvalidPayload else Inr ())
      else case key of
        Some k \<Rightarrow> if \<not> valid_protocol_id k MAX_IDEMPOTENCY_KEY_LEN then Inl InvalidPayload else Inr ()
      | None \<Rightarrow> Inr ())"

definition validate_command :: "CommandEnvelopeV2 \<Rightarrow> RejectionReason + ValidatedCommand" where
  "validate_command env =
     (if \<not> is_compatible (ce_protocol_version env) then Inl UnsupportedProtocol
      else if \<not> valid_protocol_id (ce_command_id env) MAX_PROTOCOL_ID_LEN
         \<or> \<not> valid_protocol_id (ce_request_id env) MAX_PROTOCOL_ID_LEN
         \<or> \<not> valid_protocol_id (ce_correlation_id env) MAX_PROTOCOL_ID_LEN
      then Inl InvalidPayload
      else if \<not> optional_protocol_id_valid (ce_operation_id env) then Inl InvalidPayload
      else if ce_command_type env = [] \<or> length (ce_command_type env) > MAX_COMMAND_TYPE_LEN
      then Inl UnknownCommand
      else case command_parse (ce_command_type env) of
        None \<Rightarrow> Inl UnknownCommand
      | Some command_type \<Rightarrow>
          if command_type = ChatStopGeneration \<and> ce_operation_id env = None then Inl StaleScope
          else
            and_then (validate_scope (ce_scope env)) (\<lambda>_.
            and_then (validate_key command_type (ce_idempotency_key env)) (\<lambda>_.
            and_then (validate_payload command_type (ce_payload env)) (\<lambda>payload.
            and_then (validate_scope_for_command command_type (ce_scope env) payload) (\<lambda>_.
            Inr \<lparr>vc_envelope = env, vc_command_type = command_type, vc_payload = payload\<rparr>)))))"

section \<open>Accepted commands\<close>

lemma command_parse_as_str [simp]: "command_parse (command_as_str c) = Some c"
  by (cases c) (simp_all add: command_parse_def)

lemma command_parse_Some: "command_parse s = Some c \<longleftrightarrow> s = command_as_str c"
proof
  assume "command_parse s = Some c"
  then show "s = command_as_str c" by (auto simp: command_parse_def split: if_splits)
qed simp

lemma valid_protocol_id_trim: "trim v = v \<Longrightarrow> list_all id_char v \<Longrightarrow> v \<noteq> [] \<Longrightarrow> length v \<le> n \<Longrightarrow> valid_protocol_id v n"
  by (simp add: valid_protocol_id_def)

text \<open>Which payload a command type carries, and within which bounds.\<close>
definition payload_fits :: "CommandType \<Rightarrow> ValidatedCommandPayload \<Rightarrow> bool" where
  "payload_fits c p =
     (case p of
        InitializePayload path \<Rightarrow> c = AppInitialize \<and> non_empty_bounded path 4096
      | SendMessagePayload t \<Rightarrow> c = ChatSendMessage \<and> non_empty_bounded t 65536
      | ModelDownloadPayload m s \<Rightarrow> c = CmdModelDownload \<and> non_empty_bounded m 2048 \<and> length s \<le> 128
      | ModelPayload m \<Rightarrow> c \<in> {ModelSelect, ModelDelete} \<and> valid_protocol_id m 128
      | DocumentGrantPayload t l m \<Rightarrow>
          c = CmdDocumentGrant \<and> non_empty_bounded t 8192 \<and> non_empty_bounded l 512 \<and> non_empty_bounded m 256
      | DocumentPayload d \<Rightarrow> c \<in> {DocumentRevoke, DocumentRetryIngestion} \<and> valid_protocol_id d 128
      | SettingUpdatePayload k v \<Rightarrow> c = SettingsUpdate \<and> non_empty_bounded k 128 \<and> is_scalar v
      | EmptyPayload \<Rightarrow>
          c \<in> {ChatStopGeneration, ChatClearConversation, DownloadCancel, RecoveryResume, RecoveryRegenerate})"

lemma accept_payload_Inr: "accept_payload ok build d = Inr p \<longleftrightarrow> (\<exists>v. d = Some v \<and> ok v \<and> p = build v)"
  by (auto simp: accept_payload_def split: option.splits)

lemma validate_payload_fits: "validate_payload c v = Inr p \<Longrightarrow> payload_fits c p"
  by (cases c) (auto simp: accept_payload_Inr payload_fits_def MAX_PROTOCOL_ID_LEN_def split: if_splits)

lemma validate_command_Inr:
  assumes "validate_command env = Inr vc"
  shows "vc_envelope vc = env" "ce_command_type env = command_as_str (vc_command_type vc)"
    "is_compatible (ce_protocol_version env)"
    "valid_protocol_id (ce_command_id env) 128" "valid_protocol_id (ce_request_id env) 128"
    "valid_protocol_id (ce_correlation_id env) 128" "optional_protocol_id_valid (ce_operation_id env)"
    "validate_scope (ce_scope env) = Inr ()" "validate_key (vc_command_type vc) (ce_idempotency_key env) = Inr ()"
    "validate_payload (vc_command_type vc) (ce_payload env) = Inr (vc_payload vc)"
    "validate_scope_for_command (vc_command_type vc) (ce_scope env) (vc_payload vc) = Inr ()"
    "vc_command_type vc = ChatStopGeneration \<Longrightarrow> ce_operation_id env \<noteq> None"
  using assms
  by (auto simp: validate_command_def MAX_PROTOCOL_ID_LEN_def command_parse_Some and_then_Inr_iff
      split: if_splits option.splits)

text \<open>What a scope may name next to a command: never an entity of another kind, never another one.\<close>
definition scope_agrees :: "ValidatedCommandPayload \<Rightarrow> CommandScope option \<Rightarrow> bool" where
  "scope_agrees payload scope =
     (case scope of None \<Rightarrow> True
      | Some s \<Rightarrow>
          (case payload of
             ModelDownloadPayload m _ \<Rightarrow> sc_model_id s \<in> {None, Some m} \<and> sc_conversation_id s = None \<and> sc_document_id s = None
           | ModelPayload m \<Rightarrow> sc_model_id s \<in> {None, Some m} \<and> sc_conversation_id s = None \<and> sc_document_id s = None
           | DocumentPayload d \<Rightarrow> sc_document_id s \<in> {None, Some d} \<and> sc_conversation_id s = None \<and> sc_model_id s = None
           | EmptyPayload \<Rightarrow> sc_model_id s = None \<and> sc_document_id s = None
           | SendMessagePayload _ \<Rightarrow> sc_model_id s = None \<and> sc_document_id s = None
           | _ \<Rightarrow> sc_conversation_id s = None \<and> sc_model_id s = None \<and> sc_document_id s = None))"

lemma scope_for_command_agrees:
  assumes "payload_fits c p" and "validate_scope_for_command c scope p = Inr ()"
  shows "scope_agrees p scope"
  using assms
  by (cases p)
     (auto simp: payload_fits_def validate_scope_for_command_def scope_refused_def scope_agrees_def is_some_neq_def Let_def
        split: option.splits if_splits)

text \<open>
  C31: Every command that passes validation is well formed: its type is the registered one its name
  denotes, its payload is the one of that type within its bounds, its identities are valid protocol
  identifiers, its scope names no entity of another kind and no other entity than the payload, a
  command that needs a replay key has a valid one, stopping a generation names an operation and
  recovery a conversation and branch. Its acknowledgements validate against it.
\<close>
theorem accepted_commands_well_formed:
  assumes "validate_command env = Inr vc"
  shows "vc_envelope vc = env \<and> ce_command_type env = command_as_str (vc_command_type vc)
    \<and> payload_fits (vc_command_type vc) (vc_payload vc)
    \<and> valid_protocol_id (ce_command_id env) 128 \<and> valid_protocol_id (ce_request_id env) 128
    \<and> valid_protocol_id (ce_correlation_id env) 128
    \<and> scope_agrees (vc_payload vc) (ce_scope env)
    \<and> (requires_idempotency_key (vc_command_type vc) \<longrightarrow>
         (\<exists>k. ce_idempotency_key env = Some k \<and> valid_protocol_id k 192))
    \<and> (vc_command_type vc = ChatStopGeneration \<longrightarrow> (\<exists>op. ce_operation_id env = Some op \<and> valid_protocol_id op 128))
    \<and> (vc_command_type vc \<in> {RecoveryResume, RecoveryRegenerate} \<longrightarrow>
         (\<exists>s c b. ce_scope env = Some s \<and> sc_conversation_id s = Some c \<and> sc_branch_id s = Some b))
    \<and> ack_validate_for (ack_rejected now (Some env) reason) env
    \<and> (valid_protocol_id op 128 \<longrightarrow> ack_validate_for (ack_accepted now env (Some op)) env)"
proof -
  note v = validate_command_Inr [OF assms]
  have fits: "payload_fits (vc_command_type vc) (vc_payload vc)" by (rule validate_payload_fits [OF v(10)])
  have key: "requires_idempotency_key (vc_command_type vc) \<longrightarrow>
      (\<exists>k. ce_idempotency_key env = Some k \<and> valid_protocol_id k 192)"
    using v(9) by (auto simp: validate_key_def MAX_IDEMPOTENCY_KEY_LEN_def split: if_splits option.splits)
  have stop: "vc_command_type vc = ChatStopGeneration \<longrightarrow> (\<exists>op. ce_operation_id env = Some op \<and> valid_protocol_id op 128)"
    using v(7,12) by (auto simp: optional_protocol_id_valid_def MAX_PROTOCOL_ID_LEN_def)
  have recovery: "vc_command_type vc \<in> {RecoveryResume, RecoveryRegenerate} \<longrightarrow>
      (\<exists>s c b. ce_scope env = Some s \<and> sc_conversation_id s = Some c \<and> sc_branch_id s = Some b)"
    using v(11) by (auto simp: validate_scope_for_command_def scope_refused_def Let_def split: option.splits if_splits)
  have ack: "is_compatible version_current"
    by (simp add: is_compatible_def version_current_def PROTOCOL_MAJOR_def MIN_SUPPORTED_PEER_MAJOR_def)
  show ?thesis
    using v(1,2,4,5,6) fits scope_for_command_agrees [OF fits v(11)] key stop recovery ack
    by (simp add: ack_validate_for_def ack_rejected_def ack_accepted_def MAX_PROTOCOL_ID_LEN_def)
qed

definition sample_command :: CommandEnvelopeV2 where
  "sample_command =
     \<lparr>ce_protocol_version = version_current, ce_command_id = ''c1'', ce_request_id = ''r1'',
      ce_command_type = ''document.revoke'', ce_submitted_at = 0, ce_operation_id = None,
      ce_correlation_id = ''x1'', ce_idempotency_key = Some ''k1'',
      ce_scope = Some \<lparr>sc_conversation_id = None, sc_branch_id = None, sc_turn_id = None, sc_model_id = None,
        sc_document_id = Some ''d1''\<rparr>,
      ce_payload = Object [(''document_id'', String ''d1'')]\<rparr>"

lemma valid_two_char_id:
  assumes "is_ascii_alphanumeric a" and "is_ascii_alphanumeric b" and "2 \<le> n"
  shows "valid_protocol_id [a, b] n"
  using trim_graphic_ends [of a b "[]"] assms alphanumeric_graphic
  by (intro valid_protocol_id_trim) (simp_all add: id_char_def)

lemma sample_ids: "valid_protocol_id ''c1'' 128" "valid_protocol_id ''r1'' 128" "valid_protocol_id ''x1'' 128"
    "valid_protocol_id ''d1'' 128" "valid_protocol_id ''k1'' 192"
  by (rule valid_two_char_id; simp add: is_ascii_alphanumeric_def code_def)+

lemma sample_command_valid:
  "validate_command sample_command =
     Inr \<lparr>vc_envelope = sample_command, vc_command_type = DocumentRevoke, vc_payload = DocumentPayload ''d1''\<rparr>"
proof -
  have v: "is_compatible version_current"
    by (simp add: is_compatible_def version_current_def PROTOCOL_MAJOR_def MIN_SUPPORTED_PEER_MAJOR_def)
  have p: "command_parse ''document.revoke'' = Some DocumentRevoke" by (simp add: command_parse_def)
  have s: "validate_scope (ce_scope sample_command) = Inr ()"
    using sample_ids by (simp add: sample_command_def validate_scope_def scope_values_def MAX_PROTOCOL_ID_LEN_def
        List.map_filter_def)
  have k: "validate_key DocumentRevoke (Some ''k1'') = Inr ()"
    using sample_ids by (simp add: validate_key_def MAX_IDEMPOTENCY_KEY_LEN_def)
  have d: "decode_document (ce_payload sample_command) = Some ''d1''"
    by (simp add: decode_document_def struct_fields_def sample_command_def)
  have f: "validate_scope_for_command DocumentRevoke (ce_scope sample_command) (DocumentPayload ''d1'') = Inr ()"
    by (simp add: validate_scope_for_command_def scope_refused_def sample_command_def is_some_neq_def Let_def)
  show ?thesis
    using v p s k d f sample_ids
    by (simp add: validate_command_def sample_command_def accept_payload_def MAX_PROTOCOL_ID_LEN_def
        optional_protocol_id_valid_def MAX_COMMAND_TYPE_LEN_def)
qed

theorem accepted_commands_well_formed_witness:
  "\<exists>vc. validate_command sample_command = Inr vc \<and> requires_idempotency_key (vc_command_type vc)
     \<and> payload_fits (vc_command_type vc) (vc_payload vc) \<and> scope_agrees (vc_payload vc) (ce_scope sample_command)
     \<and> ack_validate_for (ack_accepted 1 sample_command (Some ''c1'')) sample_command"
  using accepted_commands_well_formed [OF sample_command_valid, where now = 1 and op = "''c1''"] sample_command_valid sample_ids
  by simp

end
