(* ===== verification/Event_Bus.thy ===== *)
theory Event_Bus
  imports Ui_Protocol
begin

text \<open>
  The event bus of the application runtime (\<open>application_runtime/foundation_types.rs\<close>): a bounded
  channel of events with per-stream sequence numbers, the tombstones of ended temporary chats, and
  the counters of queued and dropped events.

  Every operation is first a function on the bus, as the code has it. The operations of different
  threads interleave: an emitter and a purge hold \<open>queue_lock\<close>, a purge and the receiving part of a
  drain hold \<open>receiver\<close>, but the counters are bare atomics. The second half of the theory splits the
  operations at these boundaries and runs the pieces in any order, for any number of emitters and the
  one polling thread of the client. Time stamps and event identifiers are arguments. Both ends of the
  channel live in the bus, so it is never disconnected.
\<close>

section \<open>The bus\<close>

definition DEFAULT_EVENT_CAPACITY :: nat where "DEFAULT_EVENT_CAPACITY = 512"
definition MAX_EVENT_CAPACITY :: nat where "MAX_EVENT_CAPACITY = 4096"
definition MAX_DRAIN_BATCH :: nat where "MAX_DRAIN_BATCH = 256"

record EventBus =
  bus_capacity :: nat
  bus_queue :: "EventEnvelopeV2 list"
  bus_suppressed_streams :: "string set"
  bus_suppressed_operations :: "string set"
  bus_sequences :: "(string, u64) hashmap"
  bus_queued :: nat
  bus_dropped :: u64

definition bus_new :: "nat \<Rightarrow> EventBus" where
  "bus_new capacity =
     \<lparr>bus_capacity = capacity, bus_queue = [], bus_suppressed_streams = {},
      bus_suppressed_operations = {}, bus_sequences = [], bus_queued = 0, bus_dropped = 0\<rparr>"

definition next_sequence :: "EventBus \<Rightarrow> string \<Rightarrow> EventBus \<times> u64" where
  "next_sequence bus stream_id =
     (let sequence = saturating_add (case map_of (bus_sequences bus) stream_id of None \<Rightarrow> 0 | Some n \<Rightarrow> n) 1 in
      (bus\<lparr>bus_sequences := AList.update stream_id sequence (bus_sequences bus)\<rparr>, sequence))"

record EmitCall =
  em_stream_id :: string
  em_event_type :: string
  em_payload :: json
  em_command :: "CommandEnvelopeV2 option"
  em_operation_id :: "string option"
  em_event_id :: string
  em_now :: time

definition build_event :: "EventBus \<Rightarrow> EmitCall \<Rightarrow> EventBus \<times> EventEnvelopeV2" where
  "build_event bus c =
     (let (bus', sequence) = next_sequence bus (em_stream_id c) in
      (bus', \<lparr>ev_protocol_version = version_current, ev_event_id = em_event_id c,
         ev_stream_id = em_stream_id c, ev_sequence = sequence, ev_event_type = em_event_type c,
         ev_emitted_at = em_now c, ev_correlation_id = map_option ce_correlation_id (em_command c),
         ev_operation_id = em_operation_id c, ev_request_id = map_option ce_request_id (em_command c),
         ev_command_id = map_option ce_command_id (em_command c),
         ev_command_type = map_option ce_command_type (em_command c), ev_payload = em_payload c\<rparr>))"

text \<open>\<open>SyncSender::try_send\<close>: the event is queued unless the channel is full.\<close>
definition try_send :: "EventBus \<Rightarrow> EventEnvelopeV2 \<Rightarrow> EventBus \<times> bool" where
  "try_send bus e =
     (if length (bus_queue bus) < bus_capacity bus then (bus\<lparr>bus_queue := bus_queue bus @ [e]\<rparr>, True)
      else (bus, False))"

definition count_sent :: "EventBus \<times> bool \<Rightarrow> EventBus" where
  "count_sent r =
     (let (bus, sent) = r in
      if sent then bus\<lparr>bus_queued := bus_queued bus + 1\<rparr> else bus\<lparr>bus_dropped := bus_dropped bus + 1\<rparr>)"

definition emit_suppressed :: "EventBus \<Rightarrow> EmitCall \<Rightarrow> bool" where
  "emit_suppressed bus c \<longleftrightarrow>
     em_stream_id c \<in> bus_suppressed_streams bus
     \<or> (case em_operation_id c of Some o' \<Rightarrow> o' \<in> bus_suppressed_operations bus | None \<Rightarrow> False)"

definition emit :: "EventBus \<Rightarrow> EmitCall \<Rightarrow> EventBus" where
  "emit bus c =
     (if emit_suppressed bus c then bus
      else let (bus', event) = build_event bus c in count_sent (try_send bus' event))"

section \<open>Purging a temporary chat\<close>

definition conversation_stream :: "string \<Rightarrow> string" where
  "conversation_stream conversation_id = ''conversation:'' @ conversation_id"

definition operation_stream :: "string \<Rightarrow> string" where
  "operation_stream operation_id = ''operation:'' @ operation_id"

definition sensitive :: "string \<Rightarrow> string list \<Rightarrow> EventEnvelopeV2 \<Rightarrow> bool" where
  "sensitive conversation_id operation_ids e \<longleftrightarrow>
     ev_stream_id e = conversation_stream conversation_id
     \<or> ev_stream_id e \<in> operation_stream ` set operation_ids
     \<or> (case ev_operation_id e of Some o' \<Rightarrow> o' \<in> set operation_ids | None \<Rightarrow> False)"

definition decrement_queued :: "EventBus \<Rightarrow> EventBus" where
  "decrement_queued bus = bus\<lparr>bus_queued := bus_queued bus - 1\<rparr>"

definition try_recv :: "EventBus \<Rightarrow> (EventBus \<times> EventEnvelopeV2) option" where
  "try_recv bus =
     (case bus_queue bus of [] \<Rightarrow> None | e # q \<Rightarrow> Some (bus\<lparr>bus_queue := q\<rparr>, e))"

lemma try_recv_shorter: "try_recv bus = Some (bus', e) \<Longrightarrow> length (bus_queue bus') < length (bus_queue bus)"
  by (auto simp: try_recv_def split: list.splits)

function purge_receive ::
  "(EventEnvelopeV2 \<Rightarrow> bool) \<Rightarrow> EventBus \<Rightarrow> EventEnvelopeV2 list \<Rightarrow> nat \<Rightarrow> EventBus \<times> EventEnvelopeV2 list \<times> nat" where
  "purge_receive hit bus retained removed =
     (case try_recv bus of
        None \<Rightarrow> (bus, retained, removed)
      | Some (bus', e) \<Rightarrow>
          if hit e then purge_receive hit (decrement_queued bus') retained (usize_sat_add removed 1)
          else purge_receive hit (decrement_queued bus') (retained @ [e]) removed)"
  by pat_completeness auto
termination
  by (relation "measure (\<lambda>(_, bus, _). length (bus_queue bus))")
     (auto simp: decrement_queued_def dest: try_recv_shorter)

declare purge_receive.simps [simp del]

fun resend :: "EventBus \<Rightarrow> EventEnvelopeV2 list \<Rightarrow> EventBus" where
  "resend bus [] = bus"
| "resend bus (e # es) = resend (count_sent (try_send bus e)) es"

definition purge_temporary_chat :: "EventBus \<Rightarrow> string \<Rightarrow> string list \<Rightarrow> EventBus \<times> nat" where
  "purge_temporary_chat bus conversation_id operation_ids =
     (let streams = insert (conversation_stream conversation_id) (operation_stream ` set operation_ids);
          bus = bus\<lparr>bus_suppressed_streams := bus_suppressed_streams bus \<union> streams,
                    bus_suppressed_operations := bus_suppressed_operations bus \<union> set operation_ids\<rparr>;
          (bus, retained, removed) = purge_receive (sensitive conversation_id operation_ids) bus [] 0;
          bus = resend bus retained in
      (bus\<lparr>bus_sequences := filter (\<lambda>(s, _). s \<notin> streams) (bus_sequences bus)\<rparr>, removed))"

section \<open>Draining\<close>

record EventDrain =
  dr_events :: "EventEnvelopeV2 list"
  dr_has_more :: bool

definition gap_call :: "u64 \<Rightarrow> string \<Rightarrow> time \<Rightarrow> EmitCall" where
  "gap_call dropped event_id now =
     \<lparr>em_stream_id = ''application:events'', em_event_type = ''runtime.event_gap'',
      em_payload = Object [(''dropped_events'', Number (show_word dropped)),
        (''recovery'', String ''request_authoritative_snapshots'')],
      em_command = None, em_operation_id = None, em_event_id = event_id, em_now = now\<rparr>"

definition drain_limit :: "nat \<Rightarrow> nat" where
  "drain_limit limit = max 1 (min limit MAX_DRAIN_BATCH)"

definition drain_start :: "EventBus \<Rightarrow> string \<Rightarrow> time \<Rightarrow> EventBus \<times> EventEnvelopeV2 list" where
  "drain_start bus event_id now =
     (let dropped = bus_dropped bus; bus = bus\<lparr>bus_dropped := 0\<rparr> in
      if dropped > 0 then let (bus', e) = build_event bus (gap_call dropped event_id now) in (bus', [e])
      else (bus, []))"

function drain_receive :: "nat \<Rightarrow> EventBus \<Rightarrow> EventEnvelopeV2 list \<Rightarrow> EventBus \<times> EventEnvelopeV2 list" where
  "drain_receive limit bus events =
     (if length events < limit then
        (case try_recv bus of
           None \<Rightarrow> (bus, events)
         | Some (bus', e) \<Rightarrow> drain_receive limit (decrement_queued bus') (events @ [e]))
      else (bus, events))"
  by pat_completeness auto
termination
  by (relation "measure (\<lambda>(_, bus, _). length (bus_queue bus))")
     (auto simp: decrement_queued_def dest: try_recv_shorter)

declare drain_receive.simps [simp del]

definition has_more :: "EventBus \<Rightarrow> bool" where
  "has_more bus \<longleftrightarrow> bus_queued bus > 0 \<or> bus_dropped bus > 0"

text \<open>
  A drain that no other thread interrupts: the first receive, timed or not, takes the event at the
  head of the queue or gives up, like the further ones. What arrives while a timed receive waits is
  a matter of the interleavings below.
\<close>
definition drain :: "EventBus \<Rightarrow> nat \<Rightarrow> string \<Rightarrow> time \<Rightarrow> EventBus \<times> EventDrain" where
  "drain bus limit event_id now =
     (let (bus, events) = drain_start bus event_id now;
          (bus, events) = drain_receive (drain_limit limit) bus events in
      (bus, \<lparr>dr_events = events, dr_has_more = has_more bus\<rparr>))"

section \<open>Closed forms\<close>

definition seq_of :: "EventBus \<Rightarrow> string \<Rightarrow> u64" where
  "seq_of bus s = (case map_of (bus_sequences bus) s of None \<Rightarrow> 0 | Some n \<Rightarrow> n)"

lemma build_event_bus:
  "build_event bus c =
     (bus\<lparr>bus_sequences := AList.update (em_stream_id c) (saturating_add (seq_of bus (em_stream_id c)) 1) (bus_sequences bus)\<rparr>,
      snd (build_event bus c))"
  by (simp add: build_event_def next_sequence_def Let_def seq_of_def)

lemma build_event_fields [simp]:
  "ev_stream_id (snd (build_event bus c)) = em_stream_id c"
  "ev_operation_id (snd (build_event bus c)) = em_operation_id c"
  "ev_sequence (snd (build_event bus c)) = saturating_add (seq_of bus (em_stream_id c)) 1"
  "bus_queue (fst (build_event bus c)) = bus_queue bus"
  "bus_capacity (fst (build_event bus c)) = bus_capacity bus"
  "bus_queued (fst (build_event bus c)) = bus_queued bus"
  "bus_dropped (fst (build_event bus c)) = bus_dropped bus"
  "bus_suppressed_streams (fst (build_event bus c)) = bus_suppressed_streams bus"
  "bus_suppressed_operations (fst (build_event bus c)) = bus_suppressed_operations bus"
  by (simp_all add: build_event_def next_sequence_def Let_def seq_of_def)

lemma seq_of_build_event [simp]:
  "seq_of (fst (build_event bus c)) s =
     (if s = em_stream_id c then saturating_add (seq_of bus s) 1 else seq_of bus s)"
  by (subst build_event_bus) (simp add: seq_of_def)

lemma seq_of_cong: "bus_sequences b = bus_sequences b' \<Longrightarrow> seq_of b s = seq_of b' s"
  by (simp add: seq_of_def)

lemma purge_receive_eq:
  "purge_receive hit bus retained removed =
     (bus\<lparr>bus_queue := [], bus_queued := bus_queued bus - length (bus_queue bus)\<rparr>,
      retained @ filter (\<lambda>e. \<not> hit e) (bus_queue bus),
      foldl usize_sat_add removed (map (\<lambda>_. 1) (filter hit (bus_queue bus))))"
proof (induction "bus_queue bus" arbitrary: bus retained removed)
  case Nil
  then show ?case by (subst purge_receive.simps) (simp add: try_recv_def)
next
  case (Cons e q)
  have "bus_queue bus = e # q" using Cons.hyps(2) by simp
  then show ?case
    using Cons.hyps(1) [of "decrement_queued (bus\<lparr>bus_queue := q\<rparr>)"]
    by (subst purge_receive.simps) (simp add: try_recv_def decrement_queued_def)
qed

lemma resend_eq:
  "length (bus_queue bus) + length es \<le> bus_capacity bus \<Longrightarrow>
     resend bus es = bus\<lparr>bus_queue := bus_queue bus @ es, bus_queued := bus_queued bus + length es\<rparr>"
  by (induction es arbitrary: bus) (simp_all add: try_send_def count_sent_def)

lemma foldl_sat_count:
  "n + length xs \<le> usize_max \<Longrightarrow> foldl usize_sat_add n (map (\<lambda>_. Suc 0) xs) = n + length xs"
  by (induction xs arbitrary: n) (simp_all add: usize_sat_add_eq)

text \<open>A purge keeps exactly the queued events that do not belong to the chat, in their order.\<close>
lemma purge_temporary_chat_eq:
  assumes "length (bus_queue bus) \<le> bus_capacity bus" and p: "purge_temporary_chat bus c os = (bus', removed)"
  shows "bus_queue bus' = filter (\<lambda>e. \<not> sensitive c os e) (bus_queue bus)"
    "bus_capacity bus' = bus_capacity bus"
    "bus_queued bus' = bus_queued bus - length (bus_queue bus) + length (filter (\<lambda>e. \<not> sensitive c os e) (bus_queue bus))"
    "bus_dropped bus' = bus_dropped bus"
    "bus_suppressed_streams bus' = bus_suppressed_streams bus \<union> insert (conversation_stream c) (operation_stream ` set os)"
    "bus_suppressed_operations bus' = bus_suppressed_operations bus \<union> set os"
    "s \<notin> insert (conversation_stream c) (operation_stream ` set os) \<Longrightarrow> seq_of bus' s = seq_of bus s"
    "length (bus_queue bus) \<le> usize_max \<Longrightarrow> removed = length (filter (sensitive c os) (bus_queue bus))"
proof -
  have len: "length (filter (\<lambda>e. \<not> sensitive c os e) (bus_queue bus)) \<le> bus_capacity bus"
    using assms(1) length_filter_le order_trans by blast
  have mf: "map_of (filter (\<lambda>(k, _). P k) al) s = (if P s then map_of al s else None)" for P and al :: "(string \<times> u64) list"
    by (induction al) auto
  have b: "bus' = bus\<lparr>bus_suppressed_streams := bus_suppressed_streams bus \<union> insert (conversation_stream c) (operation_stream ` set os),
      bus_suppressed_operations := bus_suppressed_operations bus \<union> set os,
      bus_queue := filter (\<lambda>e. \<not> sensitive c os e) (bus_queue bus),
      bus_queued := bus_queued bus - length (bus_queue bus) + length (filter (\<lambda>e. \<not> sensitive c os e) (bus_queue bus)),
      bus_sequences := filter (\<lambda>(s, _). s \<notin> insert (conversation_stream c) (operation_stream ` set os)) (bus_sequences bus)\<rparr>"
    and r: "removed = foldl usize_sat_add 0 (map (\<lambda>_. Suc 0) (filter (sensitive c os) (bus_queue bus)))"
    using p len by (auto simp: purge_temporary_chat_def Let_def purge_receive_eq resend_eq)
  show "bus_queue bus' = filter (\<lambda>e. \<not> sensitive c os e) (bus_queue bus)" "bus_capacity bus' = bus_capacity bus"
    "bus_queued bus' = bus_queued bus - length (bus_queue bus) + length (filter (\<lambda>e. \<not> sensitive c os e) (bus_queue bus))"
    "bus_dropped bus' = bus_dropped bus"
    "bus_suppressed_streams bus' = bus_suppressed_streams bus \<union> insert (conversation_stream c) (operation_stream ` set os)"
    "bus_suppressed_operations bus' = bus_suppressed_operations bus \<union> set os"
    by (simp_all add: b)
  show "s \<notin> insert (conversation_stream c) (operation_stream ` set os) \<Longrightarrow> seq_of bus' s = seq_of bus s"
    by (simp add: b seq_of_def mf)
  show "length (bus_queue bus) \<le> usize_max \<Longrightarrow> removed = length (filter (sensitive c os) (bus_queue bus))"
    using r foldl_sat_count [of 0 "filter (sensitive c os) (bus_queue bus)"] length_filter_le [of "sensitive c os" "bus_queue bus"]
    by simp
qed

lemma drain_receive_eq:
  "drain_receive limit bus events =
     (let n = min (limit - length events) (length (bus_queue bus)) in
      (bus\<lparr>bus_queue := drop n (bus_queue bus), bus_queued := bus_queued bus - n\<rparr>, events @ take n (bus_queue bus)))"
proof (induction "bus_queue bus" arbitrary: bus events)
  case Nil
  then show ?case by (subst drain_receive.simps) (simp add: try_recv_def)
next
  case (Cons e q)
  have q: "bus_queue bus = e # q" using Cons.hyps(2) by simp
  have n: "min (limit - length events) (Suc (length q)) = Suc (min (limit - Suc (length events)) (length q))"
    if "length events < limit" using that by linarith
  show ?case
    using Cons.hyps(1) [of "decrement_queued (bus\<lparr>bus_queue := q\<rparr>)" "events @ [e]"] q n
    by (subst drain_receive.simps) (simp add: try_recv_def decrement_queued_def Let_def)
qed

section \<open>Interleavings\<close>

datatype drain_phase =
    DrainIdle
  | DrainReceiving nat "EventEnvelopeV2 list"
  | DrainFinishing "EventEnvelopeV2 list"

text \<open>
  The bus with its threads. \<open>sys_emitter\<close> is the emitter that holds \<open>queue_lock\<close> between its
  \<open>try_send\<close> and the counter it then increments, with the outcome of the send; \<open>sys_drain\<close> is the
  progress of the polling thread. The rest is history: what every \<open>try_send\<close> was given and whether it
  succeeded, what purges removed, what drains reported as dropped, and the batches returned.
\<close>
record BusSystem =
  sys_bus :: EventBus
  sys_emitter :: "bool option"
  sys_drain :: drain_phase
  sys_offered :: "(EventEnvelopeV2 \<times> bool) list"
  sys_purged :: "EventEnvelopeV2 list"
  sys_reported :: u64
  sys_batches :: "EventDrain list"

definition sys_init :: "nat \<Rightarrow> BusSystem" where
  "sys_init capacity =
     \<lparr>sys_bus = bus_new capacity, sys_emitter = None, sys_drain = DrainIdle, sys_offered = [],
      sys_purged = [], sys_reported = 0, sys_batches = []\<rparr>"

text \<open>The streams on which the runtime emits; gap reports have a stream of their own.\<close>
definition runtime_stream :: "string \<Rightarrow> bool" where
  "runtime_stream s \<longleftrightarrow>
     starts_with ''operation:'' s \<or> starts_with ''conversation:'' s
     \<or> s \<in> {''application:lifecycle'', ''application:documents'', ''application:models'',
             ''application:settings'', ''application:temporary-chat''}"

definition receiving :: "drain_phase \<Rightarrow> bool" where
  "receiving p = (case p of DrainReceiving _ _ \<Rightarrow> True | _ \<Rightarrow> False)"

definition push :: "EventBus \<Rightarrow> EmitCall \<Rightarrow> EventBus \<times> EventEnvelopeV2 \<times> bool" where
  "push bus c =
     (let (bus, e) = build_event bus c; (bus, sent) = try_send bus e in (bus, e, sent))"

inductive bus_step :: "BusSystem \<Rightarrow> BusSystem \<Rightarrow> bool" where
  emit_push:
  "sys_emitter y = None \<Longrightarrow> runtime_stream (em_stream_id c) \<Longrightarrow> \<not> emit_suppressed (sys_bus y) c
   \<Longrightarrow> push (sys_bus y) c = (bus, e, sent)
   \<Longrightarrow> bus_step y (y\<lparr>sys_bus := bus, sys_emitter := Some sent, sys_offered := sys_offered y @ [(e, sent)]\<rparr>)"
| emit_count:
  "sys_emitter y = Some sent
   \<Longrightarrow> bus_step y (y\<lparr>sys_bus := count_sent (sys_bus y, sent), sys_emitter := None\<rparr>)"
| purge:
  "sys_emitter y = None \<Longrightarrow> \<not> receiving (sys_drain y)
   \<Longrightarrow> purge_temporary_chat (sys_bus y) c os = (bus, removed)
   \<Longrightarrow> bus_step y (y\<lparr>sys_bus := bus,
         sys_purged := sys_purged y @ filter (sensitive c os) (bus_queue (sys_bus y))\<rparr>)"
| drain_begin:
  "sys_drain y = DrainIdle \<Longrightarrow> drain_start (sys_bus y) event_id now = (bus, events)
   \<Longrightarrow> bus_step y (y\<lparr>sys_bus := bus, sys_drain := DrainReceiving (drain_limit limit) events,
         sys_reported := sys_reported y + bus_dropped (sys_bus y)\<rparr>)"
| drain_take:
  "sys_drain y = DrainReceiving limit events \<Longrightarrow> length events < limit
   \<Longrightarrow> try_recv (sys_bus y) = Some (bus, e)
   \<Longrightarrow> bus_step y (y\<lparr>sys_bus := decrement_queued bus, sys_drain := DrainReceiving limit (events @ [e])\<rparr>)"
| drain_stop:
  "sys_drain y = DrainReceiving limit events \<Longrightarrow> length events \<ge> limit \<or> try_recv (sys_bus y) = None
   \<Longrightarrow> bus_step y (y\<lparr>sys_drain := DrainFinishing events\<rparr>)"
| drain_return:
  "sys_drain y = DrainFinishing events
   \<Longrightarrow> bus_step y (y\<lparr>sys_drain := DrainIdle,
         sys_batches := sys_batches y @ [\<lparr>dr_events = events, dr_has_more = has_more (sys_bus y)\<rparr>]\<rparr>)"

inductive_cases bus_stepE: "bus_step y y'"

definition bus_reachable :: "nat \<Rightarrow> BusSystem \<Rightarrow> bool" where
  "bus_reachable capacity y = bus_step\<^sup>*\<^sup>* (sys_init capacity) y"

text \<open>Uninterrupted operations are runs of the pieces.\<close>

lemma emit_is_run:
  assumes "sys_emitter y = None" "runtime_stream (em_stream_id c)"
  shows "\<exists>y'. bus_step\<^sup>*\<^sup>* y y' \<and> sys_bus y' = emit (sys_bus y) c \<and> sys_emitter y' = None \<and> sys_drain y' = sys_drain y"
proof (cases "emit_suppressed (sys_bus y) c")
  case True
  then show ?thesis using assms by (intro exI [of _ y]) (simp add: emit_def)
next
  case False
  obtain bus e sent where p: "push (sys_bus y) c = (bus, e, sent)" by (metis prod_cases3)
  let ?m = "y\<lparr>sys_bus := bus, sys_emitter := Some sent, sys_offered := sys_offered y @ [(e, sent)]\<rparr>"
  have "count_sent (bus, sent) = emit (sys_bus y) c"
    using p False by (auto simp: push_def emit_def Let_def split: prod.splits)
  then have "bus_step ?m (?m\<lparr>sys_bus := emit (sys_bus y) c, sys_emitter := None\<rparr>)"
    using bus_step.emit_count [of ?m sent] by simp
  with bus_step.emit_push [OF assms False p] have "bus_step\<^sup>*\<^sup>* y (?m\<lparr>sys_bus := emit (sys_bus y) c, sys_emitter := None\<rparr>)"
    by (rule rtranclp.rtrancl_into_rtrancl [OF r_into_rtranclp])
  then show ?thesis
    by (intro exI [of _ "?m\<lparr>sys_bus := emit (sys_bus y) c, sys_emitter := None\<rparr>"]) simp
qed

lemma receive_is_run:
  "sys_drain y = DrainReceiving limit events \<Longrightarrow> drain_receive limit (sys_bus y) events = (bus, out)
   \<Longrightarrow> bus_step\<^sup>*\<^sup>* y (y\<lparr>sys_bus := bus, sys_drain := DrainFinishing out\<rparr>)"
proof (induction "bus_queue (sys_bus y)" arbitrary: y events)
  case Nil
  then have n: "try_recv (sys_bus y) = None" by (simp add: try_recv_def)
  with Nil have "bus = sys_bus y" "out = events"
    by (simp_all add: drain_receive.simps [of limit "sys_bus y" events] split: if_splits)
  then show ?case using bus_step.drain_stop [OF Nil.prems(1)] n by auto
next
  case (Cons e q)
  have r: "try_recv (sys_bus y) = Some (sys_bus y\<lparr>bus_queue := q\<rparr>, e)"
    using Cons.hyps(2) [symmetric] by (simp add: try_recv_def)
  show ?case
  proof (cases "length events < limit")
    case True
    let ?b = "decrement_queued (sys_bus y\<lparr>bus_queue := q\<rparr>)"
    let ?m = "y\<lparr>sys_bus := ?b, sys_drain := DrainReceiving limit (events @ [e])\<rparr>"
    have "drain_receive limit ?b (events @ [e]) = (bus, out)"
      using Cons.prems(2) r True by (simp add: drain_receive.simps [of limit "sys_bus y" events])
    then have "bus_step\<^sup>*\<^sup>* ?m (?m\<lparr>sys_bus := bus, sys_drain := DrainFinishing out\<rparr>)"
      using Cons.hyps(1) [of ?m] by (simp add: decrement_queued_def)
    moreover have "bus_step y ?m" by (rule bus_step.drain_take [OF Cons.prems(1) True r])
    ultimately show ?thesis by (simp add: converse_rtranclp_into_rtranclp)
  next
    case False
    with Cons.prems(2) have "bus = sys_bus y" "out = events"
      by (simp_all add: drain_receive.simps [of limit "sys_bus y" events])
    then show ?thesis using bus_step.drain_stop [OF Cons.prems(1)] False by auto
  qed
qed

lemma drain_is_run:
  assumes "sys_drain y = DrainIdle" "drain (sys_bus y) limit event_id now = (bus, d)"
  shows "\<exists>y'. bus_step\<^sup>*\<^sup>* y y' \<and> sys_bus y' = bus \<and> sys_batches y' = sys_batches y @ [d] \<and> sys_drain y' = DrainIdle"
proof -
  obtain b ev where s: "drain_start (sys_bus y) event_id now = (b, ev)" by fastforce
  obtain out where r: "drain_receive (drain_limit limit) b ev = (bus, out)" and d: "d = \<lparr>dr_events = out, dr_has_more = has_more bus\<rparr>"
    using assms(2) s by (auto simp: drain_def Let_def split: prod.splits)
  let ?m = "y\<lparr>sys_bus := b, sys_drain := DrainReceiving (drain_limit limit) ev,
         sys_reported := sys_reported y + bus_dropped (sys_bus y)\<rparr>"
  have "bus_step y ?m" by (rule bus_step.drain_begin [OF assms(1) s])
  moreover have "bus_step\<^sup>*\<^sup>* ?m (?m\<lparr>sys_bus := bus, sys_drain := DrainFinishing out\<rparr>)"
    using receive_is_run [of ?m, simplified] r by simp
  moreover have "bus_step (?m\<lparr>sys_bus := bus, sys_drain := DrainFinishing out\<rparr>)
      (?m\<lparr>sys_bus := bus, sys_drain := DrainIdle, sys_batches := sys_batches y @ [d]\<rparr>)"
    using bus_step.drain_return [of "?m\<lparr>sys_bus := bus, sys_drain := DrainFinishing out\<rparr>" out] d by simp
  ultimately have "bus_step\<^sup>*\<^sup>* y (?m\<lparr>sys_bus := bus, sys_drain := DrainIdle, sys_batches := sys_batches y @ [d]\<rparr>)"
    by (meson converse_rtranclp_into_rtranclp rtranclp.rtrancl_into_rtrancl)
  then show ?thesis by (intro exI conjI) auto
qed

section \<open>Delivery\<close>

definition phase_events :: "drain_phase \<Rightarrow> EventEnvelopeV2 list" where
  "phase_events p = (case p of DrainIdle \<Rightarrow> [] | DrainReceiving _ es \<Rightarrow> es | DrainFinishing es \<Rightarrow> es)"

definition phase_ok :: "drain_phase \<Rightarrow> bool" where
  "phase_ok p =
     (case p of DrainIdle \<Rightarrow> True
      | DrainReceiving limit es \<Rightarrow> 1 \<le> limit \<and> limit \<le> MAX_DRAIN_BATCH \<and> length es \<le> limit
      | DrainFinishing es \<Rightarrow> length es \<le> MAX_DRAIN_BATCH)"

text \<open>Everything handed to the client so far, then what the running drain holds.\<close>
definition handed_over :: "BusSystem \<Rightarrow> EventEnvelopeV2 list" where
  "handed_over y = concat (map dr_events (sys_batches y)) @ phase_events (sys_drain y)"

text \<open>
  Events of one stream appear with increasing sequence numbers, until the 64-bit counter of the
  stream is exhausted and stays at its maximum.
\<close>
definition in_order :: "EventEnvelopeV2 list \<Rightarrow> bool" where
  "in_order es =
     sorted_wrt (\<lambda>a b. ev_stream_id a = ev_stream_id b \<longrightarrow> ev_sequence a < ev_sequence b \<or> ev_sequence b = - 1) es"

abbreviation gap_stream :: string where "gap_stream \<equiv> ''application:events''"

definition forbidden :: "EventBus \<Rightarrow> EventEnvelopeV2 \<Rightarrow> bool" where
  "forbidden bus e \<longleftrightarrow>
     ev_stream_id e \<in> bus_suppressed_streams bus \<or> ev_operation_id e \<in> Some ` bus_suppressed_operations bus"

definition uncounted :: "BusSystem \<Rightarrow> nat" where
  "uncounted y = (if sys_emitter y = Some True then 1 else 0)"

definition numbered :: "EventBus \<Rightarrow> EventEnvelopeV2 set \<Rightarrow> bool" where
  "numbered bus es \<longleftrightarrow>
     (\<forall>e \<in> es. 0 < ev_sequence e
        \<and> (ev_stream_id e \<notin> bus_suppressed_streams bus \<longrightarrow> ev_sequence e \<le> seq_of bus (ev_stream_id e)))"

definition order_inv :: "EventBus \<Rightarrow> EventEnvelopeV2 list \<Rightarrow> bool" where
  "order_inv bus out \<longleftrightarrow>
     in_order (out @ bus_queue bus) \<and> numbered bus (set out \<union> set (bus_queue bus))
     \<and> (\<forall>e \<in> set (bus_queue bus). \<not> forbidden bus e \<and> ev_stream_id e \<noteq> gap_stream)
     \<and> gap_stream \<notin> bus_suppressed_streams bus"

lemma saturating_succ:
  "x < saturating_add x 1 \<or> saturating_add x 1 = (- 1 :: u64)" "x \<le> saturating_add x (1 :: u64)" "0 < saturating_add x (1 :: u64)"
proof -
  have u: "unat (saturating_add x (1 :: u64)) = min (unat x + 1) (2 ^ 64 - 1)"
    by (simp add: unat_saturating_add)
  have l: "unat x < 2 ^ 64" using unsigned_less [of x] by simp
  have m: "saturating_add x 1 = (- 1 :: u64)" if "unat (saturating_add x (1 :: u64)) = 2 ^ 64 - 1"
  proof -
    have "unat (- 1 :: u64) = 2 ^ 64 - 1" by (simp add: unsigned_minus_1_eq_mask mask_eq_exp_minus_1)
    with that show ?thesis by (simp add: word_unat_eq_iff)
  qed
  show "x < saturating_add x 1 \<or> saturating_add x 1 = (- 1 :: u64)"
    using u l m unfolding word_less_nat_alt by linarith
  show "x \<le> saturating_add x (1 :: u64)" using u l unfolding word_le_nat_alt by linarith
  show "0 < saturating_add x (1 :: u64)" using u unfolding word_less_nat_alt by simp
qed

lemma in_order_snoc:
  "in_order (es @ [e]) \<longleftrightarrow>
     in_order es \<and> (\<forall>x \<in> set es. ev_stream_id x = ev_stream_id e \<longrightarrow> ev_sequence x < ev_sequence e \<or> ev_sequence e = - 1)"
  by (auto simp: in_order_def sorted_wrt_append)

text \<open>A freshly built event continues its stream.\<close>
lemma in_order_build:
  assumes "in_order es" "numbered bus (set es)" "em_stream_id c \<notin> bus_suppressed_streams bus"
  shows "in_order (es @ [snd (build_event bus c)])"
proof -
  have "ev_sequence x < saturating_add (seq_of bus (em_stream_id c)) 1 \<or> saturating_add (seq_of bus (em_stream_id c)) 1 = - 1"
    if "x \<in> set es" "ev_stream_id x = em_stream_id c" for x
  proof -
    have "ev_sequence x \<le> seq_of bus (em_stream_id c)"
      using assms(2,3) that by (metis numbered_def)
    then show ?thesis using saturating_succ(1) [of "seq_of bus (em_stream_id c)"] by auto
  qed
  then show ?thesis using assms(1) by (simp add: in_order_snoc)
qed

lemma numbered_build:
  assumes "numbered bus es"
  shows "numbered (fst (build_event bus c)) (insert (snd (build_event bus c)) es)"
proof -
  have "ev_sequence x \<le> saturating_add (seq_of bus s) 1" if "ev_sequence x \<le> seq_of bus s" for x s
    using that saturating_succ(2) order_trans by blast
  then show ?thesis using assms saturating_succ(3) by (auto simp: numbered_def dest!: bspec)
qed

lemma numbered_subset: "numbered bus es \<Longrightarrow> es' \<subseteq> es \<Longrightarrow> numbered bus es'"
  by (auto simp: numbered_def)

lemma numbered_cong:
  "bus_sequences b = bus_sequences b' \<Longrightarrow> bus_suppressed_streams b = bus_suppressed_streams b' \<Longrightarrow> numbered b es = numbered b' es"
  using seq_of_cong [of b b'] by (simp add: numbered_def)

lemma forbidden_build_event [simp]: "forbidden (fst (build_event bus c)) e = forbidden bus e"
  by (simp add: forbidden_def)

lemma order_inv_push:
  assumes inv: "order_inv bus out" and s: "\<not> emit_suppressed bus c" and g: "em_stream_id c \<noteq> gap_stream"
    and p: "push bus c = (bus', e, sent)"
  shows "order_inv bus' out"
proof -
  let ?b = "fst (build_event bus c)"
  have c: "em_stream_id c \<notin> bus_suppressed_streams bus" using s by (simp add: emit_suppressed_def)
  have e: "e = snd (build_event bus c)" and t: "try_send ?b e = (bus', sent)"
    using p by (auto simp: push_def Let_def split: prod.splits)
  have o': "in_order ((out @ bus_queue bus) @ [e])"
    unfolding e by (rule in_order_build) (use inv c in \<open>auto simp: order_inv_def\<close>)
  have n: "numbered ?b (insert e (set out \<union> set (bus_queue bus)))"
    unfolding e by (rule numbered_build) (use inv in \<open>simp add: order_inv_def\<close>)
  have f: "\<not> forbidden bus e" using s e by (auto simp: forbidden_def emit_suppressed_def split: option.splits)
  show ?thesis
  proof (cases sent)
    case True
    then have q: "bus' = ?b\<lparr>bus_queue := bus_queue bus @ [e]\<rparr>" using t by (auto simp: try_send_def split: if_splits)
    have "numbered bus' (insert e (set out \<union> set (bus_queue bus)))" using n numbered_cong [of bus' ?b] by (simp add: q)
    then show ?thesis using o' f g e inv by (auto simp: order_inv_def q forbidden_def)
  next
    case False
    then have "bus' = ?b" using t by (simp add: try_send_def split: if_splits)
    then show ?thesis using numbered_subset [OF n] inv by (auto simp: order_inv_def)
  qed
qed

lemma order_inv_cong:
  assumes "bus_sequences b = bus_sequences b'" "bus_suppressed_streams b = bus_suppressed_streams b'"
    "bus_suppressed_operations b = bus_suppressed_operations b'" "out @ bus_queue b = out' @ bus_queue b'"
    "set (bus_queue b) \<subseteq> set (bus_queue b')"
    and inv: "order_inv b' out'"
  shows "order_inv b out"
proof -
  have "set out \<union> set (bus_queue b) = set out' \<union> set (bus_queue b')" using assms(4) by (metis set_append)
  then show ?thesis
    using assms numbered_cong [OF assms(1,2)] by (auto simp: order_inv_def forbidden_def)
qed

lemma order_inv_gap:
  assumes inv: "order_inv bus out" and d: "drain_start bus i now = (bus', es)"
  shows "order_inv bus' (out @ es)"
proof (cases "bus_dropped bus > 0")
  case True
  let ?cleared = "bus\<lparr>bus_dropped := 0\<rparr>" and ?c = "gap_call (bus_dropped bus) i now"
  let ?b = "fst (build_event ?cleared ?c)" and ?e = "snd (build_event ?cleared ?c)"
  have b: "bus' = ?b" "es = [?e]" using d True by (auto simp: drain_start_def Let_def split: prod.splits)
  have inv0: "order_inv ?cleared out" by (rule order_inv_cong [OF _ _ _ _ _ inv]) simp_all
  have s: "em_stream_id ?c = gap_stream" by (simp add: gap_call_def)
  have g: "gap_stream \<notin> bus_suppressed_streams bus" using inv by (simp add: order_inv_def)
  have "in_order (out @ [?e])"
    by (rule in_order_build) (use inv0 g s in \<open>auto simp: order_inv_def in_order_def sorted_wrt_append intro: numbered_subset\<close>)
  then have "in_order ((out @ [?e]) @ bus_queue bus)"
    using inv s by (auto simp: in_order_def sorted_wrt_append order_inv_def)
  moreover have "numbered ?b (insert ?e (set out \<union> set (bus_queue bus)))"
    by (rule numbered_build) (use inv0 in \<open>simp add: order_inv_def\<close>)
  ultimately show ?thesis using inv0 by (simp add: b order_inv_def)
next
  case False
  then have "bus' = bus\<lparr>bus_dropped := 0\<rparr>" "es = []" using d by (auto simp: drain_start_def Let_def)
  then show ?thesis by (auto intro: order_inv_cong [OF _ _ _ _ _ inv])
qed


lemma order_inv_purge:
  assumes inv: "order_inv bus out" and len: "length (bus_queue bus) \<le> bus_capacity bus"
    and p: "purge_temporary_chat bus c os = (bus', removed)"
  shows "order_inv bus' out"
proof -
  note b = purge_temporary_chat_eq [OF len p]
  have "in_order (out @ bus_queue bus')"
    using inv by (simp add: b order_inv_def in_order_def sorted_wrt_append sorted_wrt_filter)
  moreover have "numbered bus' (set out \<union> set (bus_queue bus'))"
    using inv b(7) by (auto simp: order_inv_def numbered_def b(1,5))
  moreover have "\<not> forbidden bus' e" if "e \<in> set (bus_queue bus')" for e
    using that inv by (auto simp: order_inv_def forbidden_def b sensitive_def)
  moreover have "gap_stream \<notin> bus_suppressed_streams bus'"
    using inv by (auto simp: order_inv_def b conversation_stream_def operation_stream_def)
  ultimately show ?thesis using inv by (auto simp: order_inv_def b(1))
qed

definition bus_inv :: "nat \<Rightarrow> BusSystem \<Rightarrow> bool" where
  "bus_inv capacity y \<longleftrightarrow>
     bus_capacity (sys_bus y) = capacity \<and> length (bus_queue (sys_bus y)) \<le> capacity
     \<and> order_inv (sys_bus y) (handed_over y)
     \<and> length (bus_queue (sys_bus y)) \<le> bus_queued (sys_bus y) + uncounted y
     \<and> phase_ok (sys_drain y) \<and> (\<forall>b \<in> set (sys_batches y). length (dr_events b) \<le> MAX_DRAIN_BATCH)"

text \<open>Where every offered event is: delivered or on its way, purged, or counted as dropped.\<close>
definition account_inv :: "BusSystem \<Rightarrow> bool" where
  "account_inv y \<longleftrightarrow>
     mset (map fst (filter snd (sys_offered y))) =
       mset (filter (\<lambda>e. ev_stream_id e \<noteq> gap_stream) (handed_over y @ bus_queue (sys_bus y))) + mset (sys_purged y)
     \<and> of_nat (length (filter (\<lambda>p. \<not> snd p) (sys_offered y))) =
       sys_reported y + bus_dropped (sys_bus y) + (if sys_emitter y = Some False then 1 else 0)"

lemma runtime_stream_not_gap: "runtime_stream s \<Longrightarrow> s \<noteq> gap_stream"
  by (auto simp: runtime_stream_def starts_with_def)

lemma push_fields:
  assumes "push bus c = (bus', e, sent)"
  shows "bus_capacity bus' = bus_capacity bus" "bus_queued bus' = bus_queued bus" "bus_dropped bus' = bus_dropped bus"
    "bus_queue bus' = (if sent then bus_queue bus @ [e] else bus_queue bus)" "ev_stream_id e = em_stream_id c"
    "sent \<longleftrightarrow> length (bus_queue bus) < bus_capacity bus"
    "bus_suppressed_streams bus' = bus_suppressed_streams bus" "bus_suppressed_operations bus' = bus_suppressed_operations bus"
proof -
  have e: "e = snd (build_event bus c)" and t: "try_send (fst (build_event bus c)) e = (bus', sent)"
    using assms by (auto simp: push_def Let_def split: prod.splits)
  show "bus_capacity bus' = bus_capacity bus" "bus_queued bus' = bus_queued bus" "bus_dropped bus' = bus_dropped bus"
    "bus_queue bus' = (if sent then bus_queue bus @ [e] else bus_queue bus)" "ev_stream_id e = em_stream_id c"
    "sent \<longleftrightarrow> length (bus_queue bus) < bus_capacity bus"
    "bus_suppressed_streams bus' = bus_suppressed_streams bus" "bus_suppressed_operations bus' = bus_suppressed_operations bus"
    using e t by (auto simp: try_send_def split: if_splits)
qed

lemma drain_start_fields:
  assumes "drain_start bus i now = (bus', es)"
  shows "bus_capacity bus' = bus_capacity bus" "bus_queued bus' = bus_queued bus" "bus_dropped bus' = 0"
    "bus_queue bus' = bus_queue bus" "length es \<le> 1" "filter (\<lambda>e. ev_stream_id e \<noteq> gap_stream) es = []"
    "bus_suppressed_streams bus' = bus_suppressed_streams bus" "bus_suppressed_operations bus' = bus_suppressed_operations bus"
proof -
  have s: "em_stream_id (gap_call d i now) = gap_stream" for d by (simp add: gap_call_def)
  have "\<exists>d. bus' = bus\<lparr>bus_dropped := 0\<rparr> \<and> es = []
      \<or> bus' = fst (build_event (bus\<lparr>bus_dropped := 0\<rparr>) (gap_call d i now))
        \<and> es = [snd (build_event (bus\<lparr>bus_dropped := 0\<rparr>) (gap_call d i now))]"
    using assms by (auto simp: drain_start_def Let_def split: if_splits prod.splits intro!: exI [of _ "bus_dropped bus"])
  then show "bus_capacity bus' = bus_capacity bus" "bus_queued bus' = bus_queued bus" "bus_dropped bus' = 0"
    "bus_queue bus' = bus_queue bus" "length es \<le> 1" "filter (\<lambda>e. ev_stream_id e \<noteq> gap_stream) es = []"
    "bus_suppressed_streams bus' = bus_suppressed_streams bus" "bus_suppressed_operations bus' = bus_suppressed_operations bus"
    using s by auto
qed

lemma try_recv_fields:
  assumes "try_recv bus = Some (bus', e)"
  shows "bus_queue bus = e # bus_queue bus'" "bus_sequences bus' = bus_sequences bus" "bus_queued bus' = bus_queued bus"
    "bus_suppressed_streams bus' = bus_suppressed_streams bus" "bus_suppressed_operations bus' = bus_suppressed_operations bus"
    "bus_dropped bus' = bus_dropped bus" "bus_capacity bus' = bus_capacity bus"
  using assms by (auto simp: try_recv_def split: list.splits)

lemma bus_step_inv:
  assumes "bus_step y y'" and "bus_inv capacity y"
  shows "bus_inv capacity y'"
  using assms
proof (cases rule: bus_step.cases)
  case (emit_push c bus e sent)
  note f = push_fields [OF emit_push(5)]
  have "order_inv bus (handed_over y)"
    using assms(2) order_inv_push [OF _ emit_push(4) runtime_stream_not_gap [OF emit_push(3)] emit_push(5)]
    by (simp add: bus_inv_def)
  then show ?thesis using assms(2) emit_push(1,2) f by (auto simp: bus_inv_def handed_over_def uncounted_def)
next
  case (emit_count sent)
  have "order_inv (count_sent (sys_bus y, sent)) (handed_over y)"
    by (rule order_inv_cong [where b' = "sys_bus y" and out' = "handed_over y"])
       (use assms(2) in \<open>auto simp: count_sent_def bus_inv_def\<close>)
  then show ?thesis
    using assms(2) emit_count by (auto simp: bus_inv_def handed_over_def uncounted_def count_sent_def)
next
  case (purge c os bus removed)
  have len: "length (bus_queue (sys_bus y)) \<le> bus_capacity (sys_bus y)" using assms(2) by (simp add: bus_inv_def)
  note b = purge_temporary_chat_eq [OF len purge(4)]
  have "order_inv bus (handed_over y)"
    using assms(2) order_inv_purge [OF _ len purge(4)] by (simp add: bus_inv_def)
  then show ?thesis
    using assms(2) purge(1,2) len
    by (auto simp: bus_inv_def handed_over_def uncounted_def b intro: order_trans [OF length_filter_le])
next
  case (drain_begin event_id now bus events limit)
  note f = drain_start_fields [OF drain_begin(3)]
  have "order_inv bus (handed_over y @ events)"
    using assms(2) order_inv_gap [OF _ drain_begin(3)] by (simp add: bus_inv_def)
  then show ?thesis
    using assms(2) drain_begin(1,2) f
    by (auto simp: bus_inv_def handed_over_def uncounted_def phase_events_def phase_ok_def drain_limit_def MAX_DRAIN_BATCH_def)
next
  case (drain_take limit events bus e)
  note q = try_recv_fields [OF drain_take(4)]
  have "order_inv (decrement_queued bus) (handed_over y @ [e])"
    by (rule order_inv_cong [where b' = "sys_bus y" and out' = "handed_over y"])
       (use assms(2) q in \<open>auto simp: decrement_queued_def bus_inv_def\<close>)
  then show ?thesis
    using assms(2) drain_take(1,2,3) q
    by (auto simp: bus_inv_def handed_over_def uncounted_def phase_events_def phase_ok_def decrement_queued_def)
next
  case (drain_stop limit events)
  then show ?thesis
    using assms(2) by (auto simp: bus_inv_def handed_over_def uncounted_def phase_events_def phase_ok_def)
next
  case (drain_return events)
  then show ?thesis
    using assms(2) by (auto simp: bus_inv_def handed_over_def uncounted_def phase_events_def phase_ok_def)
qed

lemma bus_step_account:
  assumes "bus_step y y'" and "bus_inv capacity y" and "account_inv y"
  shows "account_inv y'"
  using assms
proof (cases rule: bus_step.cases)
  case (emit_push c bus e sent)
  then show ?thesis using assms(3) push_fields [OF emit_push(5)] runtime_stream_not_gap [OF emit_push(3)]
    by (auto simp: account_inv_def handed_over_def)
next
  case (emit_count sent)
  then show ?thesis using assms(3) by (auto simp: account_inv_def handed_over_def count_sent_def)
next
  case (purge c os bus removed)
  have len: "length (bus_queue (sys_bus y)) \<le> bus_capacity (sys_bus y)" using assms(2) by (simp add: bus_inv_def)
  note b = purge_temporary_chat_eq [OF len purge(4)]
  have nogap: "\<forall>e \<in> set (bus_queue (sys_bus y)). ev_stream_id e \<noteq> gap_stream"
    using assms(2) by (simp add: bus_inv_def order_inv_def)
  then have "filter (\<lambda>e. ev_stream_id e \<noteq> gap_stream) (bus_queue bus) = bus_queue bus"
    "filter (\<lambda>e. ev_stream_id e \<noteq> gap_stream) (bus_queue (sys_bus y)) = bus_queue (sys_bus y)"
    by (simp_all add: b(1) filter_id_conv del: filter_filter)
  moreover have "mset (bus_queue (sys_bus y)) = mset (bus_queue bus) + mset (filter (sensitive c os) (bus_queue (sys_bus y)))"
    using multiset_partition [of "mset (bus_queue (sys_bus y))" "sensitive c os"] by (simp add: b(1))
  ultimately show ?thesis using assms(3) purge(1,2) b(4)
    by (simp add: account_inv_def handed_over_def del: mset_filter)
next
  case (drain_begin event_id now bus events limit)
  then show ?thesis using assms(3) drain_start_fields [OF drain_begin(3)]
    by (auto simp: account_inv_def handed_over_def phase_events_def)
next
  case (drain_take limit events bus e)
  then show ?thesis using assms(3) try_recv_fields [OF drain_take(4)]
    by (auto simp: account_inv_def handed_over_def phase_events_def decrement_queued_def)
next
  case (drain_stop limit events)
  then show ?thesis using assms(3) by (auto simp: account_inv_def handed_over_def phase_events_def)
next
  case (drain_return events)
  then show ?thesis using assms(3) by (auto simp: account_inv_def handed_over_def phase_events_def)
qed

lemma bus_reachable_inv:
  assumes "bus_reachable capacity y"
  shows "bus_inv capacity y \<and> account_inv y"
  using assms unfolding bus_reachable_def
proof (induction rule: rtranclp_induct)
  case base
  show ?case
    by (simp add: sys_init_def bus_new_def bus_inv_def account_inv_def handed_over_def phase_events_def uncounted_def
        phase_ok_def order_inv_def in_order_def numbered_def)
next
  case (step y z)
  then show ?case using bus_step_inv bus_step_account by blast
qed

text \<open>
  C27: In every interleaving of emitters, purges and the polling client, the queue never exceeds its
  capacity and a returned batch never exceeds 256 events; the events handed over, followed by those
  still queued, are numbered from 1 on and increasing per stream; every event the channel accepted is
  delivered, on its way or purged with a temporary chat, none is duplicated or lost; every refused one
  is counted, and the counts reported by gap events and still to be reported add up to them; and when
  a drain says that nothing is left, at most the event of an emitter that has not returned is queued.
\<close>
theorem event_delivery_sound:
  assumes "bus_reachable capacity y"
  shows "length (bus_queue (sys_bus y)) \<le> capacity
    \<and> (\<forall>b \<in> set (sys_batches y). length (dr_events b) \<le> 256)
    \<and> in_order (handed_over y @ bus_queue (sys_bus y))
    \<and> (\<forall>e \<in> set (handed_over y @ bus_queue (sys_bus y)). 0 < ev_sequence e)
    \<and> mset (map fst (filter snd (sys_offered y))) =
        mset (filter (\<lambda>e. ev_stream_id e \<noteq> gap_stream) (handed_over y @ bus_queue (sys_bus y))) + mset (sys_purged y)
    \<and> (sys_emitter y = None \<longrightarrow>
        of_nat (length (filter (\<lambda>p. \<not> snd p) (sys_offered y))) = sys_reported y + bus_dropped (sys_bus y))
    \<and> (\<not> has_more (sys_bus y) \<longrightarrow> length (bus_queue (sys_bus y)) \<le> uncounted y)"
proof -
  have i: "bus_inv capacity y" and a: "account_inv y" using bus_reachable_inv [OF assms] by simp_all
  have "\<not> has_more (sys_bus y) \<longrightarrow> length (bus_queue (sys_bus y)) \<le> uncounted y"
    using i by (auto simp: bus_inv_def has_more_def)
  then show ?thesis
    using i a unfolding bus_inv_def account_inv_def order_inv_def numbered_def MAX_DRAIN_BATCH_def by simp
qed

definition sample_call :: EmitCall where
  "sample_call =
     \<lparr>em_stream_id = ''operation:o1'', em_event_type = ''chat.token.delta'', em_payload = Null,
      em_command = None, em_operation_id = Some ''o1'', em_event_id = ''e1'', em_now = 0\<rparr>"

lemma sample_stream: "runtime_stream (em_stream_id sample_call)"
  by (simp add: runtime_stream_def sample_call_def starts_with_def)

text \<open>Two emissions on a bus with room for one: the second is refused and counted.\<close>
theorem event_delivery_sound_witness:
  "\<exists>y. bus_reachable 1 y \<and> sys_bus y = emit (emit (bus_new 1) sample_call) sample_call
     \<and> sys_emitter y = None \<and> length (bus_queue (sys_bus y)) = 1 \<and> bus_dropped (sys_bus y) = 1
     \<and> of_nat (length (filter (\<lambda>p. \<not> snd p) (sys_offered y))) = sys_reported y + bus_dropped (sys_bus y)"
proof -
  obtain y1 where 1: "bus_step\<^sup>*\<^sup>* (sys_init 1) y1" "sys_bus y1 = emit (bus_new 1) sample_call" "sys_emitter y1 = None"
    using emit_is_run [of "sys_init 1", OF _ sample_stream] by (auto simp: sys_init_def)
  obtain y2 where 2: "bus_step\<^sup>*\<^sup>* y1 y2" "sys_bus y2 = emit (emit (bus_new 1) sample_call) sample_call" "sys_emitter y2 = None"
    using emit_is_run [OF 1(3) sample_stream] 1(2) by auto
  have r: "bus_reachable 1 y2" unfolding bus_reachable_def using 1(1) 2(1) by (rule rtranclp_trans)
  have v: "length (bus_queue (sys_bus y2)) = 1 \<and> bus_dropped (sys_bus y2) = 1"
    by (simp add: 2(2) emit_def emit_suppressed_def sample_call_def build_event_def next_sequence_def bus_new_def
        try_send_def count_sent_def Let_def)
  show ?thesis
    using r v 2(2,3) event_delivery_sound [OF r] by blast
qed

lemma sensitive_forbidden:
  "insert (conversation_stream c) (operation_stream ` set os) \<subseteq> bus_suppressed_streams bus
   \<Longrightarrow> set os \<subseteq> bus_suppressed_operations bus \<Longrightarrow> sensitive c os e \<Longrightarrow> forbidden bus e"
  by (auto simp: sensitive_def forbidden_def split: option.splits)

lemma suppression_grows:
  assumes "bus_step y y'" and "bus_inv capacity y"
  shows "bus_suppressed_streams (sys_bus y) \<subseteq> bus_suppressed_streams (sys_bus y')
    \<and> bus_suppressed_operations (sys_bus y) \<subseteq> bus_suppressed_operations (sys_bus y')"
  using assms(1)
proof (cases rule: bus_step.cases)
  case (purge c os bus removed)
  have len: "length (bus_queue (sys_bus y)) \<le> bus_capacity (sys_bus y)" using assms(2) by (simp add: bus_inv_def)
  show ?thesis using purge(1) purge_temporary_chat_eq(5,6) [OF len purge(4)] by auto
qed (auto simp: push_fields drain_start_fields count_sent_def decrement_queued_def dest: try_recv_fields)

text \<open>What a step hands over is not forbidden.\<close>
lemma handed_over_grows:
  assumes "bus_step y y'" and "bus_inv capacity y"
  shows "\<exists>es. handed_over y' = handed_over y @ es \<and> (\<forall>e \<in> set es. \<not> forbidden (sys_bus y) e)"
  using assms(1)
proof (cases rule: bus_step.cases)
  case (drain_begin event_id now bus events limit)
  have "\<not> forbidden (sys_bus y) e" if "e \<in> set events" for e
    using that drain_begin(3) assms(2)
    by (auto simp: drain_start_def Let_def forbidden_def bus_inv_def order_inv_def gap_call_def build_event_def
        split: if_splits prod.splits)
  then show ?thesis using drain_begin(1,2) by (auto simp: handed_over_def phase_events_def)
next
  case (drain_take limit events bus e)
  have "\<not> forbidden (sys_bus y) e"
    using assms(2) try_recv_fields(1) [OF drain_take(4)] by (simp add: bus_inv_def order_inv_def)
  then show ?thesis using drain_take(1,2) by (auto simp: handed_over_def phase_events_def)
qed (auto simp: handed_over_def phase_events_def)

text \<open>
  Ending a temporary chat is final for the event stream: the purge removes exactly the queued
  events of the conversation and of its operations and keeps the others in order, and whatever
  happens afterwards, no event of that conversation or of those operations is queued or handed to the
  client again; what the client receives is an extension of what it had.
\<close>
theorem temporary_chat_events_gone:
  assumes "bus_reachable capacity y" and "sys_emitter y = None" and "\<not> receiving (sys_drain y)"
    and "purge_temporary_chat (sys_bus y) c os = (bus, removed)"
    and "bus_step\<^sup>*\<^sup>* (y\<lparr>sys_bus := bus, sys_purged := sys_purged y @ filter (sensitive c os) (bus_queue (sys_bus y))\<rparr>) z"
  shows "bus_queue bus = filter (\<lambda>e. \<not> sensitive c os e) (bus_queue (sys_bus y))
    \<and> (\<forall>e \<in> set (bus_queue (sys_bus z)). \<not> sensitive c os e)
    \<and> (\<exists>es. handed_over z = handed_over y @ es \<and> (\<forall>e \<in> set es. \<not> sensitive c os e))"
proof -
  let ?y = "y\<lparr>sys_bus := bus, sys_purged := sys_purged y @ filter (sensitive c os) (bus_queue (sys_bus y))\<rparr>"
  let ?S = "insert (conversation_stream c) (operation_stream ` set os)"
  have inv: "bus_inv capacity y" using bus_reachable_inv [OF assms(1)] by simp
  have len: "length (bus_queue (sys_bus y)) \<le> bus_capacity (sys_bus y)" using inv by (simp add: bus_inv_def)
  note b = purge_temporary_chat_eq [OF len assms(4)]
  have step: "bus_step y ?y" by (rule bus_step.purge [OF assms(2,3,4)])
  have "bus_inv capacity z \<and> ?S \<subseteq> bus_suppressed_streams (sys_bus z) \<and> set os \<subseteq> bus_suppressed_operations (sys_bus z)
      \<and> (\<exists>es. handed_over z = handed_over y @ es \<and> (\<forall>e \<in> set es. \<not> sensitive c os e))"
    using assms(5)
  proof (induction rule: rtranclp_induct)
    case base
    then show ?case using bus_step_inv [OF step inv] b(5,6) by (auto simp: handed_over_def)
  next
    case (step u v)
    have iu: "bus_inv capacity u" using step.IH by simp
    obtain es where es: "handed_over u = handed_over y @ es" "\<forall>e \<in> set es. \<not> sensitive c os e" using step.IH by blast
    obtain fs where fs: "handed_over v = handed_over u @ fs" "\<forall>e \<in> set fs. \<not> forbidden (sys_bus u) e"
      using handed_over_grows [OF step.hyps(2) iu] by auto
    have s: "?S \<subseteq> bus_suppressed_streams (sys_bus u)" "set os \<subseteq> bus_suppressed_operations (sys_bus u)"
      using step.IH by simp_all
    have "\<forall>e \<in> set fs. \<not> sensitive c os e" using fs(2) sensitive_forbidden [OF s] by blast
    then have "\<forall>e \<in> set (es @ fs). \<not> sensitive c os e" using es(2) by (simp add: ball_Un)
    moreover have "handed_over v = handed_over y @ es @ fs" using es(1) fs(1) by simp
    ultimately have "\<exists>es. handed_over v = handed_over y @ es \<and> (\<forall>e \<in> set es. \<not> sensitive c os e)" by blast
    then show ?case using s suppression_grows [OF step.hyps(2) iu] bus_step_inv [OF step.hyps(2) iu] by auto
  qed
  then have "\<forall>e \<in> set (bus_queue (sys_bus z)). \<not> sensitive c os e"
    "\<exists>es. handed_over z = handed_over y @ es \<and> (\<forall>e \<in> set es. \<not> sensitive c os e)"
    using sensitive_forbidden [of c os "sys_bus z"] by (auto simp: bus_inv_def order_inv_def)
  then show ?thesis using b(1) by simp
qed

text \<open>A chat whose token event is still queued when it ends, and an emitter that is late.\<close>
theorem temporary_chat_events_gone_witness:
  "\<exists>y bus. bus_reachable 8 y \<and> bus_queue (sys_bus y) \<noteq> []
     \<and> purge_temporary_chat (sys_bus y) ''c1'' [''o1''] = (bus, 1)
     \<and> (\<forall>e \<in> set (bus_queue (emit bus sample_call)). \<not> sensitive ''c1'' [''o1''] e)"
proof -
  obtain y where y: "bus_step\<^sup>*\<^sup>* (sys_init 8) y" "sys_bus y = emit (bus_new 8) sample_call" "sys_emitter y = None"
      "sys_drain y = DrainIdle"
    using emit_is_run [of "sys_init 8", OF _ sample_stream] by (auto simp: sys_init_def)
  have r: "bus_reachable 8 y" using y(1) by (simp add: bus_reachable_def)
  obtain bus removed where p: "purge_temporary_chat (sys_bus y) ''c1'' [''o1''] = (bus, removed)" by fastforce
  have q: "bus_queue (sys_bus y) = [snd (build_event (bus_new 8) sample_call)]"
    by (simp add: y(2) emit_def emit_suppressed_def bus_new_def try_send_def count_sent_def Let_def build_event_def
        next_sequence_def sample_call_def)
  have s: "sensitive ''c1'' [''o1''] (snd (build_event (bus_new 8) sample_call))"
    by (simp add: sensitive_def) (simp add: sample_call_def)
  have len: "length (bus_queue (sys_bus y)) \<le> bus_capacity (sys_bus y)"
    using bus_reachable_inv [OF r] by (simp add: bus_inv_def)
  have "removed = 1" using purge_temporary_chat_eq(8) [OF len p] q s by (simp add: usize_max_def)
  let ?y = "y\<lparr>sys_bus := bus, sys_purged := sys_purged y @ filter (sensitive ''c1'' [''o1'']) (bus_queue (sys_bus y))\<rparr>"
  obtain z where z: "bus_step\<^sup>*\<^sup>* ?y z" "sys_bus z = emit bus sample_call"
    using emit_is_run [of ?y, OF _ sample_stream] y(3) by auto
  have "\<not> receiving (sys_drain y)" by (simp add: y(4) receiving_def)
  then have "\<forall>e \<in> set (bus_queue (sys_bus z)). \<not> sensitive ''c1'' [''o1''] e"
    using temporary_chat_events_gone [OF r y(3) _ p z(1)] by blast
  then show ?thesis using r q p z(2) \<open>removed = 1\<close> by (intro exI [of _ y] exI [of _ bus]) simp
qed

section \<open>The counter of queued events\<close>

text \<open>
  An emitter queues its event first and counts it afterwards, and a drain does not take
  \<open>queue_lock\<close>. When the drain takes the event in between, its decrement is lost at zero and the late
  increment remains: the counter is one too high for good.
\<close>
definition surplus :: "BusSystem \<Rightarrow> int" where
  "surplus y = int (bus_queued (sys_bus y)) + int (uncounted y) - int (length (bus_queue (sys_bus y)))"

lemma surplus_grows:
  assumes "bus_step y y'" and inv: "bus_inv capacity y"
  shows "surplus y \<le> surplus y'"
  using assms(1)
proof (cases rule: bus_step.cases)
  case (purge c os bus removed)
  have len: "length (bus_queue (sys_bus y)) \<le> bus_capacity (sys_bus y)" using inv by (simp add: bus_inv_def)
  have "length (bus_queue (sys_bus y)) \<le> bus_queued (sys_bus y)"
    using inv purge(2) by (simp add: bus_inv_def uncounted_def)
  then show ?thesis
    using purge(1,2) purge_temporary_chat_eq(1,3) [OF len purge(4)] by (simp add: surplus_def uncounted_def)
next
  case (emit_push c bus e sent)
  then show ?thesis using push_fields [OF emit_push(5)] by (simp add: surplus_def uncounted_def)
next
  case (drain_take limit events bus e)
  then show ?thesis using try_recv_fields [OF drain_take(4)] by (simp add: surplus_def uncounted_def decrement_queued_def)
next
  case (drain_begin event_id now bus events limit)
  then show ?thesis using drain_start_fields [OF drain_begin(3)] by (simp add: surplus_def uncounted_def)
qed (auto simp: surplus_def uncounted_def count_sent_def)

lemma surplus_sticks:
  assumes "bus_inv capacity y" and "bus_step\<^sup>*\<^sup>* y z"
  shows "surplus y \<le> surplus z \<and> bus_inv capacity z"
  using assms(2)
proof (induction rule: rtranclp_induct)
  case base
  show ?case using assms(1) by simp
next
  case (step u v)
  then show ?case using surplus_grows [OF step.hyps(2)] bus_step_inv [OF step.hyps(2)] by force
qed

text \<open>
  There is a run of one emission and one drain after which the queue is empty, nothing was dropped
  and no operation is in progress, but every later drain that finds the bus quiet reports that there
  is more: a client that polls without waiting while there is more never waits again.
\<close>
theorem has_more_can_stick:
  "\<exists>y. bus_reachable 8 y \<and> bus_queue (sys_bus y) = [] \<and> bus_dropped (sys_bus y) = 0 \<and> sys_emitter y = None
     \<and> sys_drain y = DrainIdle
     \<and> (\<forall>z. bus_step\<^sup>*\<^sup>* y z \<and> sys_emitter z = None \<longrightarrow> has_more (sys_bus z))"
proof -
  let ?i = "sys_init 8"
  obtain bus e sent where p: "push (sys_bus ?i) sample_call = (bus, e, sent)" by (metis prod_cases3)
  note f = push_fields [OF p]
  have i: "sys_bus ?i = bus_new 8" "sys_emitter ?i = None" "sys_drain ?i = DrainIdle" by (simp_all add: sys_init_def)
  have q: "bus_queue bus = [e]" "bus_queued bus = 0" "bus_dropped bus = 0" "sent"
    using f by (simp_all add: i bus_new_def)
  define a where "a = ?i\<lparr>sys_bus := bus, sys_emitter := Some sent, sys_offered := sys_offered ?i @ [(e, sent)]\<rparr>"
  have 1: "bus_step ?i a"
    unfolding a_def by (rule bus_step.emit_push [OF i(2) sample_stream _ p]) (simp add: i bus_new_def emit_suppressed_def sample_call_def)
  have ds: "drain_start bus [] 0 = (bus, [])" using q by (simp add: drain_start_def)
  define b where "b = a\<lparr>sys_bus := bus, sys_drain := DrainReceiving (drain_limit 1) [], sys_reported := sys_reported a + bus_dropped (sys_bus a)\<rparr>"
  have 2: "bus_step a b"
    unfolding b_def by (rule bus_step.drain_begin [where event_id = "[]" and now = 0]) (simp_all add: a_def i ds)
  define c where "c = b\<lparr>sys_bus := decrement_queued (bus\<lparr>bus_queue := []\<rparr>), sys_drain := DrainReceiving (drain_limit 1) ([] @ [e])\<rparr>"
  have 3: "bus_step b c"
    unfolding c_def by (rule bus_step.drain_take) (simp_all add: b_def drain_limit_def try_recv_def q)
  define d where "d = c\<lparr>sys_drain := DrainFinishing [e]\<rparr>"
  have 4: "bus_step c d"
    unfolding d_def by (rule bus_step.drain_stop) (simp_all add: c_def try_recv_def decrement_queued_def)
  define g where "g = d\<lparr>sys_drain := DrainIdle,
     sys_batches := sys_batches d @ [\<lparr>dr_events = [e], dr_has_more = has_more (sys_bus d)\<rparr>]\<rparr>"
  have 5: "bus_step d g" unfolding g_def by (rule bus_step.drain_return) (simp add: d_def)
  define y where "y = g\<lparr>sys_bus := count_sent (sys_bus g, True), sys_emitter := None\<rparr>"
  have 6: "bus_step g y"
    unfolding y_def by (rule bus_step.emit_count) (simp add: g_def d_def c_def b_def a_def q)
  have r: "bus_reachable 8 y"
    unfolding bus_reachable_def using 1 2 3 4 5 6
    by (meson converse_rtranclp_into_rtranclp rtranclp.rtrancl_refl)
  have st: "bus_queue (sys_bus y) = []" "bus_dropped (sys_bus y) = 0" "sys_emitter y = None" "sys_drain y = DrainIdle"
    "bus_queued (sys_bus y) = 1"
    by (simp_all add: y_def g_def d_def c_def b_def a_def q count_sent_def decrement_queued_def)
  have "has_more (sys_bus z)" if "bus_step\<^sup>*\<^sup>* y z" "sys_emitter z = None" for z
    using surplus_sticks [of 8 y z] bus_reachable_inv [OF r] that st
    by (simp add: surplus_def uncounted_def has_more_def)
  then show ?thesis using r st by blast
qed

end
