(* ===== verification/Feature_State.thy ===== *)
theory Feature_State
  imports Event_Bus Chat_Types
begin

text \<open>
  The projections of the application runtime (\<open>application_runtime/foundation_state.rs\<close> and
  \<open>persistence_flush.rs\<close>): operations with their cancellation tokens, conversations, models and
  documents, and the queue through which snapshots of them reach the encrypted store.

  A cancellation token is a number; a token is cancelled when its number is in a set. A 64-bit float is
  its bit pattern. A snapshot in the queue or in the store stands for the JSON value that encodes its
  records; a stored value that does not decode is \<open>Malformed\<close>. The iteration order of a hash map is
  unspecified; no statement depends on it.
\<close>

section \<open>Records\<close>

type_synonym f64 = u64

definition f64_zero :: f64 where "f64_zero = 0"
definition f64_one :: f64 where "f64_one = 0x3FF0000000000000"

datatype OperationStatus = OpAccepted | OpRunning | OpCompleted | OpFailed | OpCancelled

record OperationRecord =
  or_operation_id :: string
  or_command_type :: string
  or_status :: OperationStatus
  or_created_at :: time
  or_updated_at :: time
  or_scope :: "CommandScope option"
  or_progress :: "f64 option"
  or_detail :: "string option"
  or_result :: json

datatype ModelStatus = MsDownloading | MsInstalled | MsVerifying | MsActivating | MsReady | MsFailed

record ModelProjection =
  mp_model_id :: string
  mp_status :: ModelStatus
  mp_local_path :: "string option"
  mp_progress :: "f64 option"
  mp_error_code :: "string option"

datatype DocumentStatus = DsStaging | DsStaged | DsIndexed | DsIngestionUnavailable | DsRevoked | DsFailed

record DocumentProjection =
  dp_document_id :: string
  dp_label :: string
  dp_mime_type :: string
  dp_source_fingerprint :: string
  dp_staged_path :: "string option"
  dp_size_bytes :: "u64 option"
  dp_status :: DocumentStatus
  dp_error_code :: "string option"

record ConversationProjection =
  cp_conversation_id :: string
  cp_branch_id :: string
  cp_messages :: "ChatMessage list"

datatype ProjectionValue =
    OperationsValue "OperationRecord list"
  | ModelsValue "ModelProjection list"
  | DocumentsValue "DocumentProjection list"
  | ConversationsValue "ConversationProjection list"
  | Malformed

datatype PersistenceCommand = SaveProjection string ProjectionValue | Barrier

type_synonym chat_key = "string \<times> string"

record FeatureState =
  fs_operations :: "(string, OperationRecord) hashmap"
  fs_operation_tokens :: "(string, nat) hashmap"
  fs_cancelled :: "nat set"
  fs_next_token :: nat
  fs_conversations :: "(chat_key, ChatMessage list) hashmap"
  fs_models :: "(string, ModelProjection) hashmap"
  fs_documents :: "(string, DocumentProjection) hashmap"
  fs_store_attached :: bool
  fs_queue :: "PersistenceCommand list"

definition features_new :: FeatureState where
  "features_new =
     \<lparr>fs_operations = [], fs_operation_tokens = [], fs_cancelled = {}, fs_next_token = 0,
      fs_conversations = [], fs_models = [], fs_documents = [], fs_store_attached = False, fs_queue = []\<rparr>"

definition attach_projection_store :: "FeatureState \<Rightarrow> FeatureState" where
  "attach_projection_store s = s\<lparr>fs_store_attached := True\<rparr>"

section \<open>Snapshots\<close>

definition persist_value :: "FeatureState \<Rightarrow> string \<Rightarrow> ProjectionValue \<Rightarrow> FeatureState" where
  "persist_value s key value =
     (if \<not> fs_store_attached s then s else s\<lparr>fs_queue := fs_queue s @ [SaveProjection key value]\<rparr>)"

definition conversation_records :: "FeatureState \<Rightarrow> ConversationProjection list" where
  "conversation_records s =
     map (\<lambda>((c, b), ms). \<lparr>cp_conversation_id = c, cp_branch_id = b, cp_messages = ms\<rparr>) (fs_conversations s)"

definition operations_value :: "FeatureState \<Rightarrow> ProjectionValue" where
  "operations_value s = OperationsValue (map snd (fs_operations s))"

definition models_value :: "FeatureState \<Rightarrow> ProjectionValue" where
  "models_value s = ModelsValue (map snd (fs_models s))"

definition documents_value :: "FeatureState \<Rightarrow> ProjectionValue" where
  "documents_value s = DocumentsValue (map snd (fs_documents s))"

definition conversations_value :: "FeatureState \<Rightarrow> ProjectionValue" where
  "conversations_value s = ConversationsValue (conversation_records s)"

definition persist_operations :: "FeatureState \<Rightarrow> FeatureState" where
  "persist_operations s = persist_value s ''operations'' (operations_value s)"

definition persist_models :: "FeatureState \<Rightarrow> FeatureState" where
  "persist_models s = persist_value s ''models'' (models_value s)"

definition persist_documents :: "FeatureState \<Rightarrow> FeatureState" where
  "persist_documents s = persist_value s ''documents'' (documents_value s)"

definition persist_conversations :: "FeatureState \<Rightarrow> FeatureState" where
  "persist_conversations s = persist_value s ''conversations'' (conversations_value s)"

section \<open>Operations\<close>

definition new_record :: "string \<Rightarrow> CommandEnvelopeV2 \<Rightarrow> time \<Rightarrow> OperationRecord" where
  "new_record operation_id env now =
     \<lparr>or_operation_id = operation_id, or_command_type = ce_command_type env, or_status = OpAccepted,
      or_created_at = now, or_updated_at = now, or_scope = ce_scope env, or_progress = None,
      or_detail = None, or_result = Null\<rparr>"

definition create_operation :: "FeatureState \<Rightarrow> ValidatedCommand \<Rightarrow> string \<Rightarrow> time \<Rightarrow> FeatureState \<times> string \<times> nat" where
  "create_operation s command uuid now =
     (let env = vc_envelope command;
          operation_id = (case ce_operation_id env of Some i \<Rightarrow> i | None \<Rightarrow> uuid);
          token = fs_next_token s;
          s = s\<lparr>fs_operations := AList.update operation_id (new_record operation_id env now) (fs_operations s),
                fs_operation_tokens := AList.update operation_id token (fs_operation_tokens s),
                fs_next_token := fs_next_token s + 1\<rparr> in
      (persist_operations s, operation_id, token))"

fun is_terminal :: "OperationStatus \<Rightarrow> bool" where
  "is_terminal OpCompleted = True"
| "is_terminal OpFailed = True"
| "is_terminal OpCancelled = True"
| "is_terminal _ = False"

definition update_operation ::
  "FeatureState \<Rightarrow> string \<Rightarrow> OperationStatus \<Rightarrow> f64 option \<Rightarrow> string option \<Rightarrow> json \<Rightarrow> time \<Rightarrow> FeatureState" where
  "update_operation s operation_id status progress detail result now =
     (let s = (case map_of (fs_operations s) operation_id of
                 None \<Rightarrow> s
               | Some r \<Rightarrow> s\<lparr>fs_operations := AList.update operation_id
                   (r\<lparr>or_status := status, or_updated_at := now, or_progress := progress, or_detail := detail,
                      or_result := result\<rparr>) (fs_operations s)\<rparr>);
          s = (if is_terminal status
               then s\<lparr>fs_operation_tokens := AList.delete operation_id (fs_operation_tokens s)\<rparr> else s) in
      persist_operations s)"

definition cancel_operation :: "FeatureState \<Rightarrow> string \<Rightarrow> time \<Rightarrow> FeatureState \<times> bool" where
  "cancel_operation s operation_id now =
     (case map_of (fs_operation_tokens s) operation_id of
        None \<Rightarrow> (s, False)
      | Some token \<Rightarrow>
          (update_operation (s\<lparr>fs_cancelled := insert token (fs_cancelled s)\<rparr>) operation_id OpCancelled None
             (Some ''cancel_requested'') Null now, True))"

definition cancel_all :: "FeatureState \<Rightarrow> FeatureState" where
  "cancel_all s = s\<lparr>fs_cancelled := fs_cancelled s \<union> set (map snd (fs_operation_tokens s))\<rparr>"

definition active_operation_ids :: "FeatureState \<Rightarrow> string \<Rightarrow> string list" where
  "active_operation_ids s command_type =
     map or_operation_id (filter (\<lambda>r. or_command_type r = command_type \<and> (or_status r = OpAccepted \<or> or_status r = OpRunning))
       (map snd (fs_operations s)))"

section \<open>Conversations\<close>

definition fs_append_message :: "FeatureState \<Rightarrow> chat_key \<Rightarrow> ChatMessage \<Rightarrow> FeatureState" where
  "fs_append_message s key m =
     persist_conversations (s\<lparr>fs_conversations := AList.update key
       ((case map_of (fs_conversations s) key of None \<Rightarrow> [] | Some ms \<Rightarrow> ms) @ [m]) (fs_conversations s)\<rparr>)"

definition fs_history :: "FeatureState \<Rightarrow> chat_key \<Rightarrow> ChatMessage list" where
  "fs_history s key = (case map_of (fs_conversations s) key of None \<Rightarrow> [] | Some ms \<Rightarrow> ms)"

definition fs_clear_conversation :: "FeatureState \<Rightarrow> chat_key \<Rightarrow> FeatureState \<times> nat" where
  "fs_clear_conversation s key =
     (persist_conversations (s\<lparr>fs_conversations := AList.delete key (fs_conversations s)\<rparr>),
      case map_of (fs_conversations s) key of None \<Rightarrow> 0 | Some ms \<Rightarrow> length ms)"

definition fs_last_user_message :: "FeatureState \<Rightarrow> chat_key \<Rightarrow> ChatMessage option" where
  "fs_last_user_message s key =
     Option.bind (map_of (fs_conversations s) key) (last_with_role User)"

definition fs_remove_last_assistant :: "FeatureState \<Rightarrow> chat_key \<Rightarrow> FeatureState \<times> bool" where
  "fs_remove_last_assistant s key =
     (case map_of (fs_conversations s) key of
        None \<Rightarrow> (s, False)
      | Some ms \<Rightarrow>
          if last_with_role Assistant ms = None then (s, False)
          else (persist_conversations (s\<lparr>fs_conversations :=
                  AList.update key (drop_last_with_role Assistant ms) (fs_conversations s)\<rparr>), True))"

section \<open>Models and documents\<close>

definition insert_model :: "FeatureState \<Rightarrow> ModelProjection \<Rightarrow> FeatureState" where
  "insert_model s m = persist_models (s\<lparr>fs_models := AList.update (mp_model_id m) m (fs_models s)\<rparr>)"

definition update_model :: "FeatureState \<Rightarrow> string \<Rightarrow> (ModelProjection \<Rightarrow> ModelProjection) \<Rightarrow> FeatureState \<times> bool" where
  "update_model s model_id f =
     (case map_of (fs_models s) model_id of
        None \<Rightarrow> (s, False)
      | Some m \<Rightarrow> (persist_models (s\<lparr>fs_models := AList.update model_id (f m) (fs_models s)\<rparr>), True))"

definition remove_model :: "FeatureState \<Rightarrow> string \<Rightarrow> FeatureState \<times> ModelProjection option" where
  "remove_model s model_id =
     (persist_models (s\<lparr>fs_models := AList.delete model_id (fs_models s)\<rparr>), map_of (fs_models s) model_id)"

definition model_of :: "FeatureState \<Rightarrow> string \<Rightarrow> ModelProjection option" where
  "model_of s model_id = map_of (fs_models s) model_id"

definition insert_document :: "FeatureState \<Rightarrow> DocumentProjection \<Rightarrow> FeatureState" where
  "insert_document s d = persist_documents (s\<lparr>fs_documents := AList.update (dp_document_id d) d (fs_documents s)\<rparr>)"

definition update_document ::
  "FeatureState \<Rightarrow> string \<Rightarrow> (DocumentProjection \<Rightarrow> DocumentProjection) \<Rightarrow> FeatureState \<times> bool" where
  "update_document s document_id f =
     (case map_of (fs_documents s) document_id of
        None \<Rightarrow> (s, False)
      | Some d \<Rightarrow> (persist_documents (s\<lparr>fs_documents := AList.update document_id (f d) (fs_documents s)\<rparr>), True))"

definition remove_document :: "FeatureState \<Rightarrow> string \<Rightarrow> FeatureState \<times> DocumentProjection option" where
  "remove_document s document_id =
     (persist_documents (s\<lparr>fs_documents := AList.delete document_id (fs_documents s)\<rparr>), map_of (fs_documents s) document_id)"

definition document_of :: "FeatureState \<Rightarrow> string \<Rightarrow> DocumentProjection option" where
  "document_of s document_id = map_of (fs_documents s) document_id"

section \<open>The store\<close>

text \<open>
  The writer task takes commands from the queue in order; \<open>saved\<close> tells whether the store accepts a
  write, a refused one is only logged.
\<close>
type_synonym projection_store = "string \<Rightarrow> ProjectionValue option"

fun write_command :: "bool \<Rightarrow> PersistenceCommand \<Rightarrow> projection_store \<Rightarrow> projection_store" where
  "write_command saved (SaveProjection key value) st = (if saved then st(key \<mapsto> value) else st)"
| "write_command saved Barrier st = st"

text \<open>Saving one projection of the final snapshot; the first refusal ends the flush.\<close>
definition flush_projections ::
  "FeatureState \<Rightarrow> projection_store \<Rightarrow> (string \<Rightarrow> unit result) \<Rightarrow> projection_store \<times> unit result" where
  "flush_projections s st save =
     (if \<not> fs_store_attached s then (st, Inr ())
      else case save ''operations'' of Inl e \<Rightarrow> (st, Inl e) | Inr _ \<Rightarrow>
        (let st = st(''operations'' \<mapsto> operations_value s) in
         case save ''models'' of Inl e \<Rightarrow> (st, Inl e) | Inr _ \<Rightarrow>
        (let st = st(''models'' \<mapsto> models_value s) in
         case save ''documents'' of Inl e \<Rightarrow> (st, Inl e) | Inr _ \<Rightarrow>
        (let st = st(''documents'' \<mapsto> documents_value s) in
         case save ''conversations'' of Inl e \<Rightarrow> (st, Inl e) | Inr _ \<Rightarrow>
         (st(''conversations'' \<mapsto> conversations_value s), Inr ())))))"

definition interrupt :: "time \<Rightarrow> OperationRecord \<Rightarrow> OperationRecord" where
  "interrupt now r =
     (if or_status r = OpAccepted \<or> or_status r = OpRunning
      then r\<lparr>or_status := OpFailed, or_updated_at := now, or_detail := Some ''interrupted_by_process_death''\<rparr> else r)"

definition collect_map :: "('a \<Rightarrow> 'k) \<Rightarrow> ('a \<Rightarrow> 'v) \<Rightarrow> 'a list \<Rightarrow> ('k, 'v) hashmap" where
  "collect_map key value rs = fold (\<lambda>r m. AList.update (key r) (value r) m) rs []"

text \<open>One part of the hydration: nothing stored, a decoded value, or a corrupt one.\<close>
definition hydrate_part ::
  "ProjectionValue option result \<Rightarrow> (ProjectionValue \<Rightarrow> FeatureState option) \<Rightarrow> FeatureState \<Rightarrow> FeatureState \<times> unit result" where
  "hydrate_part loaded decode s =
     (case loaded of
        Inl e \<Rightarrow> (s, Inl e)
      | Inr None \<Rightarrow> (s, Inr ())
      | Inr (Some v) \<Rightarrow> (case decode v of None \<Rightarrow> (s, Inl DatabaseCorruption) | Some s' \<Rightarrow> (s', Inr ())))"

definition decode_operations :: "time \<Rightarrow> FeatureState \<Rightarrow> ProjectionValue \<Rightarrow> FeatureState option" where
  "decode_operations now s v =
     (case v of OperationsValue rs \<Rightarrow> Some (s\<lparr>fs_operations := collect_map or_operation_id id (map (interrupt now) rs)\<rparr>) | _ \<Rightarrow> None)"

definition decode_models :: "FeatureState \<Rightarrow> ProjectionValue \<Rightarrow> FeatureState option" where
  "decode_models s v =
     (case v of ModelsValue rs \<Rightarrow> Some (s\<lparr>fs_models := collect_map mp_model_id id rs\<rparr>) | _ \<Rightarrow> None)"

definition decode_documents :: "FeatureState \<Rightarrow> ProjectionValue \<Rightarrow> FeatureState option" where
  "decode_documents s v =
     (case v of DocumentsValue rs \<Rightarrow> Some (s\<lparr>fs_documents := collect_map dp_document_id id rs\<rparr>) | _ \<Rightarrow> None)"

definition decode_conversations :: "FeatureState \<Rightarrow> ProjectionValue \<Rightarrow> FeatureState option" where
  "decode_conversations s v =
     (case v of ConversationsValue rs \<Rightarrow>
        Some (s\<lparr>fs_conversations := collect_map (\<lambda>r. (cp_conversation_id r, cp_branch_id r)) cp_messages rs\<rparr>) | _ \<Rightarrow> None)"

definition hydrate_from_store ::
  "FeatureState \<Rightarrow> (string \<Rightarrow> ProjectionValue option result) \<Rightarrow> time \<Rightarrow> FeatureState \<times> unit result" where
  "hydrate_from_store s load now =
     (if \<not> fs_store_attached s then (s, Inr ())
      else case hydrate_part (load ''operations'') (decode_operations now s) s of (s, Inl e) \<Rightarrow> (s, Inl e) | (s, Inr _) \<Rightarrow>
        (case hydrate_part (load ''models'') (decode_models s) s of (s, Inl e) \<Rightarrow> (s, Inl e) | (s, Inr _) \<Rightarrow>
        (case hydrate_part (load ''documents'') (decode_documents s) s of (s, Inl e) \<Rightarrow> (s, Inl e) | (s, Inr _) \<Rightarrow>
        (case hydrate_part (load ''conversations'') (decode_conversations s) s of (s, Inl e) \<Rightarrow> (s, Inl e) | (s, Inr _) \<Rightarrow>
         (persist_operations s, Inr ())))))"

section \<open>Well-formed projections\<close>

text \<open>A hash map with one entry per key, whose records carry their key.\<close>
definition keyed :: "('v \<Rightarrow> 'k) \<Rightarrow> ('k, 'v) hashmap \<Rightarrow> bool" where
  "keyed f al \<longleftrightarrow> distinct (map fst al) \<and> (\<forall>(k, v) \<in> set al. f v = k)"

definition fs_wf :: "FeatureState \<Rightarrow> bool" where
  "fs_wf s \<longleftrightarrow>
     keyed or_operation_id (fs_operations s) \<and> keyed mp_model_id (fs_models s)
     \<and> keyed dp_document_id (fs_documents s) \<and> distinct (map fst (fs_conversations s))
     \<and> distinct (map fst (fs_operation_tokens s)) \<and> (\<forall>t \<in> snd ` set (fs_operation_tokens s). t < fs_next_token s)"

lemma set_update_subset: "set (AList.update k v al) \<subseteq> insert (k, v) (set al)"
  by (induction al) auto

lemma set_delete_subset: "set (AList.delete k al) \<subseteq> set al"
  by (auto simp: AList.delete_eq)

lemma keyed_update: "keyed f al \<Longrightarrow> f v = k \<Longrightarrow> keyed f (AList.update k v al)"
  using set_update_subset [of k v al] by (auto simp: keyed_def distinct_update)

lemma keyed_delete: "keyed f al \<Longrightarrow> keyed f (AList.delete k al)"
  using set_delete_subset [of k al] by (auto simp: keyed_def distinct_delete)

lemma keyed_map_of: "keyed f al \<Longrightarrow> map_of al k = Some v \<Longrightarrow> f v = k"
  by (auto simp: keyed_def dest: map_of_SomeD)

lemmas keyed_laws = keyed_update keyed_delete distinct_update distinct_delete

lemma persist_value_fields [simp]:
  "fs_operations (persist_value s k v) = fs_operations s" "fs_operation_tokens (persist_value s k v) = fs_operation_tokens s"
  "fs_cancelled (persist_value s k v) = fs_cancelled s" "fs_next_token (persist_value s k v) = fs_next_token s"
  "fs_conversations (persist_value s k v) = fs_conversations s" "fs_models (persist_value s k v) = fs_models s"
  "fs_documents (persist_value s k v) = fs_documents s" "fs_store_attached (persist_value s k v) = fs_store_attached s"
  by (simp_all add: persist_value_def)

lemmas persist_defs = persist_operations_def persist_models_def persist_documents_def persist_conversations_def

lemma persist_wf [simp]: "fs_wf (persist_value s k v) = fs_wf s"
  by (simp add: fs_wf_def)

lemma create_operation_wf: "fs_wf s \<Longrightarrow> fs_wf (fst (create_operation s c u now))"
  using set_update_subset [of i "fs_next_token s" "fs_operation_tokens s" for i]
  by (fastforce simp: create_operation_def Let_def persist_defs fs_wf_def new_record_def intro!: keyed_laws)

lemma update_operation_wf: "fs_wf s \<Longrightarrow> fs_wf (update_operation s i st p d r now)"
  using set_delete_subset [of i "fs_operation_tokens s"]
  by (auto simp: update_operation_def Let_def persist_defs fs_wf_def intro!: keyed_laws dest: keyed_map_of split: option.splits)

lemma cancel_operation_wf: "fs_wf s \<Longrightarrow> fs_wf (fst (cancel_operation s i now))"
  using update_operation_wf [of "s\<lparr>fs_cancelled := X\<rparr>" for X]
  by (auto simp: cancel_operation_def fs_wf_def split: option.splits)

lemma conversations_wf:
  assumes "fs_wf s"
  shows "fs_wf (fs_append_message s k m)" "fs_wf (fst (fs_clear_conversation s k))" "fs_wf (fst (fs_remove_last_assistant s k))"
  using assms
  by (auto simp: fs_append_message_def fs_clear_conversation_def fs_remove_last_assistant_def persist_defs fs_wf_def
      intro!: keyed_laws split: option.splits)

lemma models_wf:
  assumes "fs_wf s"
  shows "fs_wf (insert_model s m)" "fs_wf (fst (remove_model s i))"
    "(\<And>x. mp_model_id (f x) = mp_model_id x) \<Longrightarrow> fs_wf (fst (update_model s i f))"
  using assms
  by (auto simp: insert_model_def remove_model_def update_model_def persist_defs fs_wf_def
      intro!: keyed_laws dest: keyed_map_of split: option.splits)

lemma documents_wf:
  assumes "fs_wf s"
  shows "fs_wf (insert_document s d)" "fs_wf (fst (remove_document s i))"
    "(\<And>x. dp_document_id (g x) = dp_document_id x) \<Longrightarrow> fs_wf (fst (update_document s i g))"
  using assms
  by (auto simp: insert_document_def remove_document_def update_document_def persist_defs fs_wf_def
      intro!: keyed_laws dest: keyed_map_of split: option.splits)

section \<open>Conversation stores\<close>

text \<open>
  What the runtime relies on in a store of conversations. The durable projections and the temporary
  sessions both provide it; a store may refuse a conversation it does not hold.
\<close>
locale chat_store =
  fixes accepts :: "'s \<Rightarrow> chat_key \<Rightarrow> bool"
    and messages :: "'s \<Rightarrow> chat_key \<Rightarrow> ChatMessage list"
    and append :: "'s \<Rightarrow> chat_key \<Rightarrow> ChatMessage \<Rightarrow> 's"
    and clear :: "'s \<Rightarrow> chat_key \<Rightarrow> 's"
    and pop_answer :: "'s \<Rightarrow> chat_key \<Rightarrow> 's"
    and question :: "'s \<Rightarrow> chat_key \<Rightarrow> ChatMessage option"
  assumes append_messages: "messages (append s k m) k' = (if k' = k \<and> accepts s k then messages s k @ [m] else messages s k')"
    and append_accepts: "accepts (append s k m) k' = accepts s k'"
    and clear_messages: "messages (clear s k) k' = (if k' = k then [] else messages s k')"
    and pop_messages: "messages (pop_answer s k) k' =
      (if k' = k \<and> last_with_role Assistant (messages s k) \<noteq> None then drop_last_with_role Assistant (messages s k) else messages s k')"
    and question_messages: "question s k = last_with_role User (messages s k)"
    and closed_empty: "\<not> accepts s k \<Longrightarrow> messages s k = []"
begin

lemma question_after_append:
  "accepts s k \<Longrightarrow> msg_role m = User \<Longrightarrow> question (append s k m) k = Some m"
  by (simp add: question_messages append_messages last_with_role_def)

text \<open>Regenerating undoes the answer: the conversation is back at its question.\<close>
lemma regenerate_back:
  assumes "accepts s k" "msg_role q = User" "msg_role a = Assistant"
  shows "messages (pop_answer (append (append s k q) k a) k) k = messages s k @ [q]"
    "question (pop_answer (append (append s k q) k a) k) k = Some q"
  using assms
  by (simp_all add: pop_messages append_messages append_accepts question_messages last_with_role_def drop_last_with_role_def)

lemma others_untouched:
  "k' \<noteq> k \<Longrightarrow> messages (append s k m) k' = messages s k'"
  "k' \<noteq> k \<Longrightarrow> messages (clear s k) k' = messages s k'"
  "k' \<noteq> k \<Longrightarrow> messages (pop_answer s k) k' = messages s k'"
  by (simp_all add: append_messages clear_messages pop_messages)

lemma refused_append: "\<not> accepts s k \<Longrightarrow> messages (append s k m) = messages s"
  by (intro ext) (simp add: append_messages)

end

interpretation durable: chat_store "\<lambda>_ _. True" fs_history fs_append_message
  "\<lambda>s k. fst (fs_clear_conversation s k)" "\<lambda>s k. fst (fs_remove_last_assistant s k)" fs_last_user_message
proof
  show "fs_history (fs_append_message s k m) k' = (if k' = k \<and> True then fs_history s k @ [m] else fs_history s k')" for s k m k'
    by (simp add: fs_history_def fs_append_message_def persist_defs)
  show "fs_history (fst (fs_clear_conversation s k)) k' = (if k' = k then [] else fs_history s k')" for s k k'
    by (simp add: fs_history_def fs_clear_conversation_def persist_defs)
  show "fs_history (fst (fs_remove_last_assistant s k)) k' =
      (if k' = k \<and> last_with_role Assistant (fs_history s k) \<noteq> None then drop_last_with_role Assistant (fs_history s k)
       else fs_history s k')" for s k k'
    by (auto simp: fs_history_def fs_remove_last_assistant_def persist_defs last_with_role_def split: option.splits)
  show "fs_last_user_message s k = last_with_role User (fs_history s k)" for s k
    by (simp add: fs_last_user_message_def fs_history_def last_with_role_def split: option.splits)
qed simp_all

section \<open>The store follows the projections\<close>

definition projection :: "string \<Rightarrow> FeatureState \<Rightarrow> ProjectionValue" where
  "projection k s =
     (if k = ''operations'' then operations_value s else if k = ''models'' then models_value s
      else if k = ''documents'' then documents_value s else conversations_value s)"

definition domains :: "string set" where
  "domains = {''operations'', ''models'', ''documents'', ''conversations''}"

text \<open>A change of one projection, before its snapshot is queued.\<close>
definition changes_only :: "string \<Rightarrow> FeatureState \<Rightarrow> FeatureState \<Rightarrow> bool" where
  "changes_only k s s' \<longleftrightarrow>
     fs_queue s' = fs_queue s \<and> fs_store_attached s' = fs_store_attached s
     \<and> (\<forall>k' \<in> domains. k' \<noteq> k \<longrightarrow> projection k' s' = projection k' s)"

text \<open>
  Every operation of the projections changes one of them and then queues its snapshot, or leaves the
  state as it is.
\<close>
definition projects :: "string \<Rightarrow> FeatureState \<Rightarrow> FeatureState \<Rightarrow> bool" where
  "projects k s s' \<longleftrightarrow>
     s' = s \<or> (\<exists>m. changes_only k s m \<and> s' = persist_value m k (projection k m))"

lemmas projection_defs = projection_def operations_value_def models_value_def documents_value_def conversations_value_def
  conversation_records_def

lemma projects_refl: "projects k s s"
  by (simp add: projects_def)

lemma projects_persist:
  "changes_only ''operations'' s m \<Longrightarrow> projects ''operations'' s (persist_operations m)"
  "changes_only ''models'' s m \<Longrightarrow> projects ''models'' s (persist_models m)"
  "changes_only ''documents'' s m \<Longrightarrow> projects ''documents'' s (persist_documents m)"
  "changes_only ''conversations'' s m \<Longrightarrow> projects ''conversations'' s (persist_conversations m)"
  by (auto simp: projects_def persist_defs projection_def)

lemma changes_only_intros:
  "changes_only ''models'' s (s\<lparr>fs_models := ms\<rparr>)"
  "changes_only ''documents'' s (s\<lparr>fs_documents := ds\<rparr>)"
  "changes_only ''conversations'' s (s\<lparr>fs_conversations := cs\<rparr>)"
  "fs_queue m = fs_queue s \<Longrightarrow> fs_store_attached m = fs_store_attached s \<Longrightarrow> fs_models m = fs_models s
   \<Longrightarrow> fs_documents m = fs_documents s \<Longrightarrow> fs_conversations m = fs_conversations s \<Longrightarrow> changes_only ''operations'' s m"
  by (simp_all add: changes_only_def projection_defs domains_def)

lemmas project_intros = projects_refl projects_persist changes_only_intros

lemma operations_project:
  "projects ''operations'' s (fst (create_operation s c u now))"
  "projects ''operations'' s (update_operation s i st p d r now)"
proof -
  show "projects ''operations'' s (fst (create_operation s c u now))"
    unfolding create_operation_def Let_def fst_conv by (intro project_intros) simp_all
  show "projects ''operations'' s (update_operation s i st p d r now)"
    unfolding update_operation_def Let_def by (intro project_intros) (simp_all split: option.split)
qed

lemma cancel_operation_projects: "projects ''operations'' s (fst (cancel_operation s i now))"
proof (cases "map_of (fs_operation_tokens s) i")
  case (Some t)
  show ?thesis
    unfolding cancel_operation_def update_operation_def Let_def
    by (simp add: Some, intro conjI impI project_intros) (simp_all split: option.split)
qed (simp add: cancel_operation_def projects_refl)

lemma conversations_project:
  "projects ''conversations'' s (fs_append_message s k m)"
  "projects ''conversations'' s (fst (fs_clear_conversation s k))"
  "projects ''conversations'' s (fst (fs_remove_last_assistant s k))"
  unfolding fs_append_message_def fs_clear_conversation_def fs_remove_last_assistant_def fst_conv
  by (intro project_intros | simp split: option.split, intro allI impI conjI)+

lemma models_project:
  "projects ''models'' s (insert_model s m)" "projects ''models'' s (fst (update_model s i f))"
  "projects ''models'' s (fst (remove_model s i))"
  unfolding insert_model_def update_model_def remove_model_def fst_conv
  by (intro project_intros | simp split: option.split, intro allI impI conjI)+

lemma documents_project:
  "projects ''documents'' s (insert_document s d)" "projects ''documents'' s (fst (update_document s i g))"
  "projects ''documents'' s (fst (remove_document s i))"
  unfolding insert_document_def update_document_def remove_document_def fst_conv
  by (intro project_intros | simp split: option.split, intro allI impI conjI)+

text \<open>
  The threads of the runtime and the writer task: a thread changes a projection, later takes
  \<open>persistence_enqueue\<close> and queues the snapshot it then finds; the writer saves the queued snapshots in
  order. \<open>ps_owed\<close> counts the changes of a domain whose snapshot is still to be queued; \<open>ps_changed\<close> and
  \<open>ps_stale\<close> record which domains were ever changed and which have a refused save after their last
  accepted one.
\<close>
record PersistSystem =
  ps_features :: FeatureState
  ps_store :: projection_store
  ps_owed :: "string \<Rightarrow> nat"
  ps_changed :: "string set"
  ps_stale :: "string set"

fun stale_after :: "bool \<Rightarrow> PersistenceCommand \<Rightarrow> string set \<Rightarrow> string set" where
  "stale_after saved (SaveProjection k v) st = (if saved then st - {k} else insert k st)"
| "stale_after saved Barrier st = st"

inductive persist_step :: "PersistSystem \<Rightarrow> PersistSystem \<Rightarrow> bool" where
  change:
  "k \<in> domains \<Longrightarrow> changes_only k (ps_features y) m
   \<Longrightarrow> persist_step y (y\<lparr>ps_features := m, ps_owed := (ps_owed y)(k := ps_owed y k + 1), ps_changed := insert k (ps_changed y)\<rparr>)"
| enqueue:
  "k \<in> domains \<Longrightarrow> ps_owed y k > 0
   \<Longrightarrow> persist_step y (y\<lparr>ps_features := persist_value (ps_features y) k (projection k (ps_features y)),
         ps_owed := (ps_owed y)(k := ps_owed y k - 1)\<rparr>)"
| save_next:
  "fs_queue (ps_features y) = c # q
   \<Longrightarrow> persist_step y (y\<lparr>ps_features := (ps_features y)\<lparr>fs_queue := q\<rparr>, ps_store := write_command saved c (ps_store y),
         ps_stale := stale_after saved c (ps_stale y)\<rparr>)"

definition persist_init :: "FeatureState \<Rightarrow> projection_store \<Rightarrow> PersistSystem" where
  "persist_init s st =
     \<lparr>ps_features = s\<lparr>fs_store_attached := True, fs_queue := []\<rparr>, ps_store = st, ps_owed = (\<lambda>_. 0), ps_changed = {}, ps_stale = {}\<rparr>"

text \<open>The operations of the projections are runs of these steps.\<close>
lemma projects_is_run:
  assumes "projects k (ps_features y) s'" "k \<in> domains"
  shows "\<exists>y'. persist_step\<^sup>*\<^sup>* y y' \<and> ps_features y' = s' \<and> ps_owed y' = ps_owed y \<and> ps_store y' = ps_store y \<and> ps_stale y' = ps_stale y"
proof (cases "s' = ps_features y")
  case False
  then obtain m where m: "changes_only k (ps_features y) m" "s' = persist_value m k (projection k m)"
    using assms(1) by (auto simp: projects_def)
  let ?m = "y\<lparr>ps_features := m, ps_owed := (ps_owed y)(k := ps_owed y k + 1), ps_changed := insert k (ps_changed y)\<rparr>"
  have "persist_step y ?m" by (rule persist_step.change [OF assms(2) m(1)])
  moreover have "persist_step ?m (?m\<lparr>ps_features := s', ps_owed := (ps_owed ?m)(k := ps_owed ?m k - 1)\<rparr>)"
    using persist_step.enqueue [OF assms(2), of ?m] m(2) by simp
  ultimately have "persist_step\<^sup>*\<^sup>* y (?m\<lparr>ps_features := s', ps_owed := (ps_owed ?m)(k := ps_owed ?m k - 1)\<rparr>)"
    by (meson converse_rtranclp_into_rtranclp r_into_rtranclp)
  then show ?thesis
    by (intro exI [of _ "?m\<lparr>ps_features := s', ps_owed := (ps_owed ?m)(k := ps_owed ?m k - 1)\<rparr>"]) (simp add: fun_eq_iff)
qed auto

fun queued_last :: "string \<Rightarrow> PersistenceCommand list \<Rightarrow> ProjectionValue option" where
  "queued_last k [] = None"
| "queued_last k (SaveProjection k' v # q) =
     (case queued_last k q of Some w \<Rightarrow> Some w | None \<Rightarrow> if k' = k then Some v else None)"
| "queued_last k (Barrier # q) = queued_last k q"

lemma queued_last_snoc:
  "queued_last k (q @ [SaveProjection k' v]) = (if k' = k then Some v else queued_last k q)"
  by (induction k q rule: queued_last.induct) (auto split: option.splits)

definition persist_inv :: "PersistSystem \<Rightarrow> bool" where
  "persist_inv y \<longleftrightarrow>
     fs_store_attached (ps_features y)
     \<and> (\<forall>k \<in> domains. k \<in> ps_changed y \<and> ps_owed y k = 0 \<longrightarrow>
         (case queued_last k (fs_queue (ps_features y)) of
            Some v \<Rightarrow> v = projection k (ps_features y)
          | None \<Rightarrow> k \<notin> ps_stale y \<longrightarrow> ps_store y k = Some (projection k (ps_features y))))"

lemma projection_queue [simp]: "projection k (s\<lparr>fs_queue := q\<rparr>) = projection k s"
  by (simp add: projection_defs)

lemma projection_persist [simp]: "projection k (persist_value s k' v) = projection k s"
  by (simp add: projection_defs)

lemma persist_step_inv: "persist_step y y' \<Longrightarrow> persist_inv y \<Longrightarrow> persist_inv y'"
proof (induction rule: persist_step.induct)
  case (change k y m)
  then show ?case by (auto simp: persist_inv_def changes_only_def split: option.splits)
next
  case (enqueue k y)
  then show ?case by (auto simp: persist_inv_def persist_value_def queued_last_snoc split: if_splits option.splits)
next
  case (save_next y c q saved)
  show ?case
  proof (cases c)
    case (SaveProjection k v)
    then show ?thesis using save_next by (auto simp: persist_inv_def split: option.splits)
  next
    case Barrier
    then show ?thesis using save_next by (auto simp: persist_inv_def split: option.splits)
  qed
qed

text \<open>
  C29: In every interleaving of the threads that change the projections with the writer task, once all
  changes have queued their snapshot and the queue is empty, the store holds the current value of
  every changed domain whose last save was not refused: no older snapshot overtakes a newer one.
\<close>
theorem store_follows_projections:
  assumes "persist_step\<^sup>*\<^sup>* (persist_init s st) y"
    and "\<forall>k \<in> domains. ps_owed y k = 0" and "fs_queue (ps_features y) = []"
    and "k \<in> domains" and "k \<in> ps_changed y" and "k \<notin> ps_stale y"
  shows "ps_store y k = Some (projection k (ps_features y))"
proof -
  have "persist_inv y"
    using assms(1)
  proof (induction rule: rtranclp_induct)
    case base
    show ?case by (simp add: persist_inv_def persist_init_def)
  next
    case (step u v)
    then show ?case using persist_step_inv by blast
  qed
  then show ?thesis using assms by (auto simp: persist_inv_def)
qed

definition sample_message :: ChatMessage where
  "sample_message = user_with_id ''t0'' ''m1'' ''b1'' ''hello''"

text \<open>A message is appended while nothing else runs, and the writer saves the one snapshot.\<close>
theorem store_follows_projections_witness:
  "\<exists>y. persist_step\<^sup>*\<^sup>* (persist_init features_new (\<lambda>_. None)) y
     \<and> ps_store y ''conversations'' =
         Some (ConversationsValue [\<lparr>cp_conversation_id = ''c1'', cp_branch_id = ''b1'', cp_messages = [sample_message]\<rparr>])"
proof -
  let ?i = "persist_init features_new (\<lambda>_. None)"
  let ?m = "(ps_features ?i)\<lparr>fs_conversations := [((''c1'', ''b1''), [sample_message])]\<rparr>"
  define a where "a = ?i\<lparr>ps_features := ?m, ps_owed := (ps_owed ?i)(''conversations'' := ps_owed ?i ''conversations'' + 1),
     ps_changed := insert ''conversations'' (ps_changed ?i)\<rparr>"
  have d: "''conversations'' \<in> domains" by (simp add: domains_def)
  have 1: "persist_step ?i a" unfolding a_def by (rule persist_step.change [OF d changes_only_intros(3)])
  define b where "b = a\<lparr>ps_features := persist_value (ps_features a) ''conversations'' (projection ''conversations'' (ps_features a)),
     ps_owed := (ps_owed a)(''conversations'' := ps_owed a ''conversations'' - 1)\<rparr>"
  have 2: "persist_step a b" unfolding b_def by (rule persist_step.enqueue [OF d]) (simp add: a_def)
  have q: "fs_queue (ps_features b) = [SaveProjection ''conversations'' (projection ''conversations'' ?m)]"
    by (simp add: b_def a_def persist_value_def persist_init_def)
  define y where "y = b\<lparr>ps_features := (ps_features b)\<lparr>fs_queue := []\<rparr>,
     ps_store := write_command True (SaveProjection ''conversations'' (projection ''conversations'' ?m)) (ps_store b),
     ps_stale := stale_after True (SaveProjection ''conversations'' (projection ''conversations'' ?m)) (ps_stale b)\<rparr>"
  have 3: "persist_step b y" unfolding y_def by (rule persist_step.save_next [OF q])
  have r: "persist_step\<^sup>*\<^sup>* ?i y" using 1 2 3 by (meson converse_rtranclp_into_rtranclp rtranclp.rtrancl_refl)
  have o': "\<forall>k \<in> domains. ps_owed y k = 0" by (simp add: y_def b_def a_def persist_init_def)
  have "ps_store y ''conversations'' = Some (projection ''conversations'' (ps_features y))"
    by (rule store_follows_projections [OF r o' _ d]) (simp_all add: y_def b_def a_def persist_init_def)
  moreover have "projection ''conversations'' (ps_features y) = projection ''conversations'' ?m"
    by (simp add: y_def b_def a_def)
  ultimately show ?thesis using r by (auto simp: projection_defs)
qed

section \<open>Restart\<close>

lemma collect_snoc: "collect_map f g (rs @ [r]) = AList.update (f r) (g r) (collect_map f g rs)"
  by (simp add: collect_map_def)

lemma map_of_collect:
  "distinct (map f rs) \<Longrightarrow> map_of (collect_map f g rs) = map_of (map (\<lambda>r. (f r, g r)) rs)"
proof (induction rs rule: rev_induct)
  case (snoc r rs)
  have "map_of (map (\<lambda>r. (f r, g r)) rs) (f r) = None" using snoc.prems by (auto simp: map_of_eq_None_iff)
  then show ?case using snoc by (auto simp: collect_snoc fun_eq_iff map_add_def split: option.splits)
qed (simp add: collect_map_def)

lemma keyed_collect:
  assumes "keyed f al"
  shows "map_of (collect_map f id (map snd al)) = map_of al"
proof -
  have "map (\<lambda>r. (f r, id r)) (map snd al) = al" using assms by (auto simp: keyed_def intro!: map_idI)
  moreover have "map f (map snd al) = map fst al" using assms by (auto simp: keyed_def)
  then have "distinct (map f (map snd al))" using assms by (simp only: keyed_def)
  ultimately show ?thesis using map_of_collect [of f "map snd al" id] by simp
qed

lemma interrupt_id [simp]: "or_operation_id (interrupt now r) = or_operation_id r"
  by (simp add: interrupt_def)

lemma keyed_interrupted:
  assumes "keyed or_operation_id al"
  shows "map_of (collect_map or_operation_id id (map (interrupt now) (map snd al))) = map_option (interrupt now) \<circ> map_of al"
proof -
  let ?al = "map (\<lambda>(k, r). (k, interrupt now r)) al"
  have s: "map (interrupt now) (map snd al) = map snd ?al" by (simp add: case_prod_beta)
  have "keyed or_operation_id ?al" using assms by (auto simp: keyed_def case_prod_beta comp_def)
  then show ?thesis unfolding s by (simp only: keyed_collect map_of_map)
qed

text \<open>
  C30: A flush that succeeds and the hydration of the next process are inverse: conversations, models
  and documents come back as they were, and every operation comes back with its record, except that
  one that was not finished is marked as failed by the interruption.
\<close>
theorem projections_survive_restart:
  assumes wf: "fs_wf s" and "fs_store_attached s" and "fs_store_attached fresh"
    and f: "flush_projections s st (\<lambda>_. Inr ()) = (st', r)"
    and h: "hydrate_from_store fresh (\<lambda>k. Inr (st' k)) now = (s', r')"
  shows "r = Inr () \<and> r' = Inr ()
    \<and> map_of (fs_conversations s') = map_of (fs_conversations s)
    \<and> map_of (fs_models s') = map_of (fs_models s)
    \<and> map_of (fs_documents s') = map_of (fs_documents s)
    \<and> map_of (fs_operations s') = map_option (interrupt now) \<circ> map_of (fs_operations s)
    \<and> (\<forall>k r. map_of (fs_operations s') k = Some r \<longrightarrow> is_terminal (or_status r))"
proof -
  have st: "st' = st(''operations'' \<mapsto> operations_value s, ''models'' \<mapsto> models_value s,
      ''documents'' \<mapsto> documents_value s, ''conversations'' \<mapsto> conversations_value s)" "r = Inr ()"
    using f assms(2) by (simp_all add: flush_projections_def Let_def)
  define t where "t = fresh\<lparr>fs_operations := collect_map or_operation_id id (map (interrupt now) (map snd (fs_operations s))),
    fs_models := collect_map mp_model_id id (map snd (fs_models s)),
    fs_documents := collect_map dp_document_id id (map snd (fs_documents s)),
    fs_conversations := collect_map (\<lambda>r. (cp_conversation_id r, cp_branch_id r)) cp_messages (conversation_records s)\<rparr>"
  have s': "s' = persist_operations t" "r' = Inr ()"
    using h assms(3) unfolding hydrate_from_store_def t_def
    by (simp_all add: st hydrate_part_def decode_operations_def decode_models_def decode_documents_def decode_conversations_def
        operations_value_def models_value_def documents_value_def conversations_value_def)
  have conv: "map (\<lambda>r. ((cp_conversation_id r, cp_branch_id r), cp_messages r)) (conversation_records s) = fs_conversations s"
    by (auto simp: conversation_records_def intro!: map_idI)
  have "map (\<lambda>r. (cp_conversation_id r, cp_branch_id r)) (conversation_records s) = map fst (fs_conversations s)"
    by (auto simp: conversation_records_def)
  then have c: "map_of (fs_conversations t) = map_of (fs_conversations s)"
    using map_of_collect [of "\<lambda>r. (cp_conversation_id r, cp_branch_id r)" "conversation_records s" cp_messages] conv wf
    by (simp add: t_def fs_wf_def)
  have o': "map_of (fs_operations t) = map_option (interrupt now) \<circ> map_of (fs_operations s)"
    using wf keyed_interrupted by (simp add: t_def fs_wf_def)
  have m: "map_of (fs_models t) = map_of (fs_models s)" "map_of (fs_documents t) = map_of (fs_documents s)"
    using wf by (simp_all add: t_def fs_wf_def keyed_collect)
  have "is_terminal (or_status (interrupt now x))" for x
    by (cases "or_status x") (simp_all add: interrupt_def)
  then show ?thesis using st(2) s' c o' m by (auto simp: persist_operations_def)
qed

definition sample_record :: OperationRecord where
  "sample_record =
     \<lparr>or_operation_id = ''o1'', or_command_type = ''model.download'', or_status = OpRunning, or_created_at = 1,
      or_updated_at = 2, or_scope = None, or_progress = Some f64_zero, or_detail = None, or_result = Null\<rparr>"

definition sample_features :: FeatureState where
  "sample_features =
     features_new\<lparr>fs_store_attached := True, fs_operations := [(''o1'', sample_record)],
       fs_conversations := [((''c1'', ''b1''), [sample_message])]\<rparr>"

theorem projections_survive_restart_witness:
  "\<exists>s'. hydrate_from_store (attach_projection_store features_new)
       (\<lambda>k. Inr (fst (flush_projections sample_features (\<lambda>_. None) (\<lambda>_. Inr ())) k)) 9 = (s', Inr ())
     \<and> map_of (fs_conversations s') (''c1'', ''b1'') = Some [sample_message]
     \<and> map_of (fs_operations s') ''o1'' = Some (interrupt 9 sample_record)
     \<and> or_status (interrupt 9 sample_record) = OpFailed"
proof -
  obtain st' r where f: "flush_projections sample_features (\<lambda>_. None) (\<lambda>_. Inr ()) = (st', r)" by fastforce
  obtain s' r' where h: "hydrate_from_store (attach_projection_store features_new) (\<lambda>k. Inr (st' k)) 9 = (s', r')" by fastforce
  have wf: "fs_wf sample_features"
    by (simp add: fs_wf_def keyed_def sample_features_def features_new_def sample_record_def)
  have "fs_store_attached sample_features" "fs_store_attached (attach_projection_store features_new)"
    by (simp_all add: sample_features_def attach_projection_store_def)
  note t = projections_survive_restart [OF wf this f h]
  show ?thesis
    using t h f by (simp add: sample_features_def features_new_def) (simp add: interrupt_def sample_record_def)
qed

section \<open>Cancellation\<close>

text \<open>A cancellation ends the operation's record and uses up its token: a second one is refused.\<close>
lemma cancel_operation_once:
  assumes "cancel_operation s i now = (s', True)" and "distinct (map fst (fs_operation_tokens s))"
  shows "\<exists>t. map_of (fs_operation_tokens s) i = Some t \<and> t \<in> fs_cancelled s'"
    "cancel_operation s' i later = (s', False)"
    "map_of (fs_operations s) i = Some r \<Longrightarrow> \<exists>r'. map_of (fs_operations s') i = Some r' \<and> or_status r' = OpCancelled"
  using assms
  by (auto simp: cancel_operation_def update_operation_def Let_def persist_defs split: option.splits)

text \<open>
  The record of an operation takes whatever status is written last: a task that does not look at its
  token replaces an acknowledged cancellation by its own outcome.
\<close>
lemma cancelled_record_overwritten:
  assumes "map_of (fs_operations s) i = Some r" and "cancel_operation s i now = (s', True)"
  shows "\<exists>r'. map_of (fs_operations (update_operation s' i OpCompleted p d v later)) i = Some r' \<and> or_status r' = OpCompleted"
  using assms
  by (auto simp: cancel_operation_def update_operation_def Let_def persist_defs split: option.splits)

end
