(* ===== verification/Temporary_Chat.thy ===== *)
theory Temporary_Chat
  imports Feature_State
begin

text \<open>
  Temporary chats (\<open>application_runtime/ephemeral_chat.rs\<close>, \<open>temporary_chat_runtime.rs\<close>): sessions that
  live in the process only, next to the durable conversations, and the routing of chat operations
  between the two. Every operation of the session state runs under its lock or touches one map only,
  so it is one step; the routing reads the session's state first and acts on it later.
\<close>

section \<open>Sessions\<close>

datatype EphemeralSessionState = SessionActive | SessionRetired | SessionAbsent

record EphemeralOperation =
  eo_conversation_id :: string
  eo_branch_id :: string
  eo_token :: nat

record EphemeralChatState =
  ec_conversations :: "(chat_key, ChatMessage list) hashmap"
  ec_operations :: "(string, EphemeralOperation) hashmap"
  ec_operation_ids :: "(chat_key, string set) hashmap"
  ec_retired :: "chat_key set"
  ec_cancelled :: "nat set"
  ec_next_token :: nat

definition ephemeral_new :: EphemeralChatState where
  "ephemeral_new =
     \<lparr>ec_conversations = [], ec_operations = [], ec_operation_ids = [], ec_retired = {}, ec_cancelled = {}, ec_next_token = 0\<rparr>"

definition eph_begin :: "EphemeralChatState \<Rightarrow> chat_key \<Rightarrow> EphemeralChatState \<times> bool" where
  "eph_begin s key =
     (if key \<in> ec_retired s then (s, False)
      else if map_of (ec_conversations s) key \<noteq> None then (s, False)
      else (s\<lparr>ec_conversations := AList.update key [] (ec_conversations s),
              ec_operation_ids := AList.update key {} (ec_operation_ids s)\<rparr>, True))"

definition session_state :: "EphemeralChatState \<Rightarrow> chat_key \<Rightarrow> EphemeralSessionState" where
  "session_state s key =
     (if map_of (ec_conversations s) key \<noteq> None then SessionActive
      else if key \<in> ec_retired s then SessionRetired else SessionAbsent)"

definition is_registered :: "EphemeralChatState \<Rightarrow> chat_key \<Rightarrow> bool" where
  "is_registered s key \<longleftrightarrow> session_state s key = SessionActive"

definition was_retired :: "EphemeralChatState \<Rightarrow> chat_key \<Rightarrow> bool" where
  "was_retired s key \<longleftrightarrow> session_state s key = SessionRetired"

definition eph_append_message :: "EphemeralChatState \<Rightarrow> chat_key \<Rightarrow> ChatMessage \<Rightarrow> EphemeralChatState \<times> bool" where
  "eph_append_message s key m =
     (case map_of (ec_conversations s) key of
        None \<Rightarrow> (s, False)
      | Some ms \<Rightarrow> (s\<lparr>ec_conversations := AList.update key (ms @ [m]) (ec_conversations s)\<rparr>, True))"

definition history_if_registered :: "EphemeralChatState \<Rightarrow> chat_key \<Rightarrow> ChatMessage list option" where
  "history_if_registered s key = map_of (ec_conversations s) key"

definition eph_clear_conversation :: "EphemeralChatState \<Rightarrow> chat_key \<Rightarrow> EphemeralChatState \<times> nat option" where
  "eph_clear_conversation s key =
     (case map_of (ec_conversations s) key of
        None \<Rightarrow> (s, None)
      | Some ms \<Rightarrow> (s\<lparr>ec_conversations := AList.update key [] (ec_conversations s)\<rparr>, Some (length ms)))"

definition eph_last_user_message :: "EphemeralChatState \<Rightarrow> chat_key \<Rightarrow> ChatMessage option" where
  "eph_last_user_message s key = Option.bind (map_of (ec_conversations s) key) (last_with_role User)"

definition eph_remove_last_assistant :: "EphemeralChatState \<Rightarrow> chat_key \<Rightarrow> EphemeralChatState \<times> bool" where
  "eph_remove_last_assistant s key =
     (case map_of (ec_conversations s) key of
        None \<Rightarrow> (s, False)
      | Some ms \<Rightarrow>
          if last_with_role Assistant ms = None then (s, False)
          else (s\<lparr>ec_conversations := AList.update key (drop_last_with_role Assistant ms) (ec_conversations s)\<rparr>, True))"

definition eph_create_operation ::
  "EphemeralChatState \<Rightarrow> chat_key \<Rightarrow> string option \<Rightarrow> string \<Rightarrow> EphemeralChatState \<times> (string \<times> nat) option" where
  "eph_create_operation s key proposed uuid =
     (if map_of (ec_conversations s) key = None then (s, None)
      else
        let operation_id = (case proposed of Some i \<Rightarrow> i | None \<Rightarrow> uuid); token = ec_next_token s in
        case map_of (ec_operation_ids s) key of
          None \<Rightarrow> (s, None)
        | Some ids \<Rightarrow>
            (s\<lparr>ec_operation_ids := AList.update key (insert operation_id ids) (ec_operation_ids s),
               ec_operations := AList.update operation_id
                 \<lparr>eo_conversation_id = fst key, eo_branch_id = snd key, eo_token = token\<rparr> (ec_operations s),
               ec_next_token := ec_next_token s + 1\<rparr>, Some (operation_id, token)))"

definition eph_finish_operation :: "EphemeralChatState \<Rightarrow> string \<Rightarrow> EphemeralChatState" where
  "eph_finish_operation s operation_id = s\<lparr>ec_operations := AList.delete operation_id (ec_operations s)\<rparr>"

definition eph_cancel_operation :: "EphemeralChatState \<Rightarrow> string \<Rightarrow> EphemeralChatState \<times> bool" where
  "eph_cancel_operation s operation_id =
     (case map_of (ec_operations s) operation_id of
        None \<Rightarrow> (s, False)
      | Some op \<Rightarrow>
          (s\<lparr>ec_operations := AList.delete operation_id (ec_operations s),
             ec_cancelled := insert (eo_token op) (ec_cancelled s)\<rparr>, True))"

definition belongs_to :: "chat_key \<Rightarrow> EphemeralOperation \<Rightarrow> bool" where
  "belongs_to key op \<longleftrightarrow> eo_conversation_id op = fst key \<and> eo_branch_id op = snd key"

definition eph_end :: "EphemeralChatState \<Rightarrow> chat_key \<Rightarrow> EphemeralChatState \<times> string list option" where
  "eph_end s key =
     (if map_of (ec_conversations s) key = None then (s, None)
      else
        let ids = (case map_of (ec_operation_ids s) key of None \<Rightarrow> {} | Some i \<Rightarrow> i);
            active = filter (\<lambda>(_, op). belongs_to key op) (ec_operations s) in
        (s\<lparr>ec_conversations := AList.delete key (ec_conversations s),
           ec_retired := insert key (ec_retired s),
           ec_operation_ids := AList.delete key (ec_operation_ids s),
           ec_operations := filter (\<lambda>(_, op). \<not> belongs_to key op) (ec_operations s),
           ec_cancelled := ec_cancelled s \<union> (\<lambda>(_, op). eo_token op) ` set active\<rparr>,
         Some (sorted_list_of_set (ids \<union> fst ` set active))))"

definition cancel_all_and_clear :: "EphemeralChatState \<Rightarrow> EphemeralChatState" where
  "cancel_all_and_clear s =
     s\<lparr>ec_cancelled := ec_cancelled s \<union> (\<lambda>(_, op). eo_token op) ` set (ec_operations s),
       ec_operations := [], ec_conversations := [], ec_operation_ids := [], ec_retired := {}\<rparr>"

section \<open>Routing\<close>

record ChatStores =
  cs_ephemeral :: EphemeralChatState
  cs_features :: FeatureState

text \<open>
  Each operation reads the session's state and then acts on it; the second part alone, with a state
  that was read earlier, is what a thread does after others have run.
\<close>
definition append_as :: "EphemeralSessionState \<Rightarrow> ChatStores \<Rightarrow> chat_key \<Rightarrow> ChatMessage \<Rightarrow> ChatStores \<times> bool" where
  "append_as d cs key m =
     (case d of
        SessionActive \<Rightarrow> (let (e, ok) = eph_append_message (cs_ephemeral cs) key m in (cs\<lparr>cs_ephemeral := e\<rparr>, ok))
      | SessionRetired \<Rightarrow> (cs, False)
      | SessionAbsent \<Rightarrow> (cs\<lparr>cs_features := fs_append_message (cs_features cs) key m\<rparr>, True))"

definition append_chat_message :: "ChatStores \<Rightarrow> chat_key \<Rightarrow> ChatMessage \<Rightarrow> ChatStores \<times> bool" where
  "append_chat_message cs key m = append_as (session_state (cs_ephemeral cs) key) cs key m"

definition chat_history :: "ChatStores \<Rightarrow> chat_key \<Rightarrow> ChatMessage list" where
  "chat_history cs key =
     (case session_state (cs_ephemeral cs) key of
        SessionActive \<Rightarrow> (case history_if_registered (cs_ephemeral cs) key of None \<Rightarrow> [] | Some ms \<Rightarrow> ms)
      | SessionRetired \<Rightarrow> []
      | SessionAbsent \<Rightarrow> fs_history (cs_features cs) key)"

definition clear_as :: "EphemeralSessionState \<Rightarrow> ChatStores \<Rightarrow> chat_key \<Rightarrow> ChatStores \<times> nat" where
  "clear_as d cs key =
     (case d of
        SessionActive \<Rightarrow>
          (let (e, n) = eph_clear_conversation (cs_ephemeral cs) key in
           (cs\<lparr>cs_ephemeral := e\<rparr>, case n of None \<Rightarrow> 0 | Some n \<Rightarrow> n))
      | SessionRetired \<Rightarrow> (cs, 0)
      | SessionAbsent \<Rightarrow> (let (f, n) = fs_clear_conversation (cs_features cs) key in (cs\<lparr>cs_features := f\<rparr>, n)))"

definition clear_chat_conversation :: "ChatStores \<Rightarrow> chat_key \<Rightarrow> ChatStores \<times> nat" where
  "clear_chat_conversation cs key = clear_as (session_state (cs_ephemeral cs) key) cs key"

definition last_user_chat_message :: "ChatStores \<Rightarrow> chat_key \<Rightarrow> ChatMessage option" where
  "last_user_chat_message cs key =
     (case session_state (cs_ephemeral cs) key of
        SessionActive \<Rightarrow> eph_last_user_message (cs_ephemeral cs) key
      | SessionRetired \<Rightarrow> None
      | SessionAbsent \<Rightarrow> fs_last_user_message (cs_features cs) key)"

definition remove_answer_as :: "EphemeralSessionState \<Rightarrow> ChatStores \<Rightarrow> chat_key \<Rightarrow> ChatStores \<times> bool" where
  "remove_answer_as d cs key =
     (case d of
        SessionActive \<Rightarrow> (let (e, ok) = eph_remove_last_assistant (cs_ephemeral cs) key in (cs\<lparr>cs_ephemeral := e\<rparr>, ok))
      | SessionRetired \<Rightarrow> (cs, False)
      | SessionAbsent \<Rightarrow> (let (f, ok) = fs_remove_last_assistant (cs_features cs) key in (cs\<lparr>cs_features := f\<rparr>, ok)))"

definition remove_last_assistant_chat_message :: "ChatStores \<Rightarrow> chat_key \<Rightarrow> ChatStores \<times> bool" where
  "remove_last_assistant_chat_message cs key = remove_answer_as (session_state (cs_ephemeral cs) key) cs key"

section \<open>Sessions are conversation stores\<close>

definition eph_messages :: "EphemeralChatState \<Rightarrow> chat_key \<Rightarrow> ChatMessage list" where
  "eph_messages s key = (case map_of (ec_conversations s) key of None \<Rightarrow> [] | Some ms \<Rightarrow> ms)"

interpretation temporary: chat_store is_registered eph_messages "\<lambda>s k m. fst (eph_append_message s k m)"
  "\<lambda>s k. fst (eph_clear_conversation s k)" "\<lambda>s k. fst (eph_remove_last_assistant s k)" eph_last_user_message
proof
  show "eph_messages (fst (eph_append_message s k m)) k' =
      (if k' = k \<and> is_registered s k then eph_messages s k @ [m] else eph_messages s k')" for s k m k'
    by (auto simp: eph_messages_def eph_append_message_def is_registered_def session_state_def split: option.splits)
  show "is_registered (fst (eph_append_message s k m)) k' = is_registered s k'" for s k m k'
    by (auto simp: eph_append_message_def is_registered_def session_state_def split: option.splits)
  show "eph_messages (fst (eph_clear_conversation s k)) k' = (if k' = k then [] else eph_messages s k')" for s k k'
    by (auto simp: eph_messages_def eph_clear_conversation_def split: option.splits)
  show "eph_messages (fst (eph_remove_last_assistant s k)) k' =
      (if k' = k \<and> last_with_role Assistant (eph_messages s k) \<noteq> None then drop_last_with_role Assistant (eph_messages s k)
       else eph_messages s k')" for s k k'
    by (auto simp: eph_messages_def eph_remove_last_assistant_def last_with_role_def split: option.splits)
  show "eph_last_user_message s k = last_with_role User (eph_messages s k)" for s k
    by (simp add: eph_last_user_message_def eph_messages_def last_with_role_def split: option.splits)
  show "\<not> is_registered s k \<Longrightarrow> eph_messages s k = []" for s k
    by (auto simp: eph_messages_def is_registered_def session_state_def split: option.splits if_splits)
qed

text \<open>
  The routed operations form one conversation store too: a retired key accepts nothing, every other
  key behaves like the store that holds it.
\<close>
interpretation routed: chat_store "\<lambda>cs k. \<not> was_retired (cs_ephemeral cs) k" chat_history
  "\<lambda>cs k m. fst (append_chat_message cs k m)" "\<lambda>cs k. fst (clear_chat_conversation cs k)"
  "\<lambda>cs k. fst (remove_last_assistant_chat_message cs k)" last_user_chat_message
proof -
  have h: "chat_history cs k = (case session_state (cs_ephemeral cs) k of SessionActive \<Rightarrow> eph_messages (cs_ephemeral cs) k
      | SessionRetired \<Rightarrow> [] | SessionAbsent \<Rightarrow> fs_history (cs_features cs) k)" for cs k
    by (simp add: chat_history_def eph_messages_def history_if_registered_def split: EphemeralSessionState.split)
  have st: "session_state (fst (eph_append_message s k m)) = session_state s"
    "session_state (fst (eph_clear_conversation s k)) = session_state s"
    "session_state (fst (eph_remove_last_assistant s k)) = session_state s" for s k m
    by (auto simp: fun_eq_iff session_state_def eph_append_message_def eph_clear_conversation_def
        eph_remove_last_assistant_def split: option.splits)
  show "chat_store (\<lambda>cs k. \<not> was_retired (cs_ephemeral cs) k) chat_history (\<lambda>cs k m. fst (append_chat_message cs k m))
    (\<lambda>cs k. fst (clear_chat_conversation cs k)) (\<lambda>cs k. fst (remove_last_assistant_chat_message cs k)) last_user_chat_message"
  proof
    show "chat_history (fst (append_chat_message cs k m)) k' =
        (if k' = k \<and> \<not> was_retired (cs_ephemeral cs) k then chat_history cs k @ [m] else chat_history cs k')" for cs k m k'
      by (simp add: h append_chat_message_def append_as_def case_prod_beta st was_retired_def temporary.append_messages
          durable.append_messages is_registered_def split: EphemeralSessionState.splits)
    show "(\<not> was_retired (cs_ephemeral (fst (append_chat_message cs k m))) k') = (\<not> was_retired (cs_ephemeral cs) k')" for cs k m k'
      by (simp add: append_chat_message_def append_as_def case_prod_beta st was_retired_def split: EphemeralSessionState.splits)
    show "chat_history (fst (clear_chat_conversation cs k)) k' = (if k' = k then [] else chat_history cs k')" for cs k k'
      by (simp add: h clear_chat_conversation_def clear_as_def case_prod_beta st temporary.clear_messages
          durable.clear_messages split: EphemeralSessionState.splits)
    show "chat_history (fst (remove_last_assistant_chat_message cs k)) k' =
        (if k' = k \<and> last_with_role Assistant (chat_history cs k) \<noteq> None then drop_last_with_role Assistant (chat_history cs k)
         else chat_history cs k')" for cs k k'
      by (auto simp: h remove_last_assistant_chat_message_def remove_answer_as_def case_prod_beta st temporary.pop_messages
          durable.pop_messages split: EphemeralSessionState.splits)
    show "last_user_chat_message cs k = last_with_role User (chat_history cs k)" for cs k
      by (simp add: h last_user_chat_message_def temporary.question_messages durable.question_messages last_with_role_def
          split: EphemeralSessionState.splits)
    show "\<not> \<not> was_retired (cs_ephemeral cs) k \<Longrightarrow> chat_history cs k = []" for cs k
      by (simp add: h was_retired_def)
  qed
qed

text \<open>
  Regenerating an answer takes a conversation back to its question, wherever the conversation
  lives: after a question and its answer were appended to a chat that is not retired, removing the
  newest answer leaves the earlier messages and the question, which is the one asked again; all other
  conversations keep their messages throughout.
\<close>
theorem regenerate_restores_question:
  assumes "\<not> was_retired (cs_ephemeral cs) k" and "msg_role q = User" and "msg_role a = Assistant"
  shows "let asked = fst (append_chat_message cs k q); answered = fst (append_chat_message asked k a);
             (undone, removed) = remove_last_assistant_chat_message answered k in
     removed \<and> chat_history undone k = chat_history cs k @ [q] \<and> last_user_chat_message undone k = Some q
     \<and> (\<forall>k'. k' \<noteq> k \<longrightarrow> chat_history undone k' = chat_history cs k')"
proof -
  let ?asked = "fst (append_chat_message cs k q)" let ?answered = "fst (append_chat_message ?asked k a)"
  have h: "chat_history ?answered k = chat_history cs k @ [q, a]"
    using assms(1) by (simp add: routed.append_messages routed.append_accepts)
  have "snd (remove_last_assistant_chat_message ?answered k)"
  proof -
    have "last_with_role Assistant (chat_history ?answered k) = Some a" using h assms(3) by (simp add: last_with_role_def)
    moreover have "session_state (cs_ephemeral ?answered) k \<noteq> SessionRetired"
      using assms(1) routed.append_accepts by (simp add: was_retired_def)
    ultimately show ?thesis
      by (auto simp: remove_last_assistant_chat_message_def remove_answer_as_def case_prod_beta chat_history_def
          history_if_registered_def eph_remove_last_assistant_def fs_remove_last_assistant_def fs_history_def last_with_role_def
          session_state_def split: EphemeralSessionState.splits option.splits if_splits)
  qed
  then show ?thesis
    using routed.regenerate_back [OF assms] by (simp add: case_prod_beta Let_def routed.others_untouched)
qed

section \<open>Privacy\<close>

text \<open>
  The stores with the threads that are in the middle of a routed append: they have read a session's
  state and not yet acted. \<open>pv_begun\<close> are the keys of all sessions ever begun.
\<close>
record PrivacySystem =
  pv_stores :: ChatStores
  pv_pending :: "(chat_key \<times> ChatMessage \<times> EphemeralSessionState) list"
  pv_begun :: "chat_key set"

definition queue_mentions :: "FeatureState \<Rightarrow> chat_key \<Rightarrow> bool" where
  "queue_mentions s k \<longleftrightarrow>
     (\<exists>rs. SaveProjection ''conversations'' (ConversationsValue rs) \<in> set (fs_queue s)
        \<and> k \<in> (\<lambda>r. (cp_conversation_id r, cp_branch_id r)) ` set rs)"

definition durably_known :: "FeatureState \<Rightarrow> chat_key \<Rightarrow> bool" where
  "durably_known s k \<longleftrightarrow> map_of (fs_conversations s) k \<noteq> None \<or> queue_mentions s k"

text \<open>What a thread may do to the session state of a running process.\<close>
inductive eph_op :: "EphemeralChatState \<Rightarrow> EphemeralChatState \<Rightarrow> bool" where
  "eph_op s (fst (eph_end s k))"
| "eph_op s (fst (eph_append_message s k m))"
| "eph_op s (fst (eph_clear_conversation s k))"
| "eph_op s (fst (eph_remove_last_assistant s k))"
| "eph_op s (fst (eph_create_operation s k p u))"
| "eph_op s (eph_finish_operation s i)"
| "eph_op s (fst (eph_cancel_operation s i))"

text \<open>
  \<open>session_begun\<close> is the beginning of a temporary chat under a freshly minted key, which occurs nowhere yet.
\<close>
inductive privacy_step :: "PrivacySystem \<Rightarrow> PrivacySystem \<Rightarrow> bool" where
  session_begun:
  "\<not> durably_known (cs_features (pv_stores y)) k \<Longrightarrow> k \<notin> fst ` set (pv_pending y)
   \<Longrightarrow> eph_begin (cs_ephemeral (pv_stores y)) k = (e, True)
   \<Longrightarrow> privacy_step y (y\<lparr>pv_stores := (pv_stores y)\<lparr>cs_ephemeral := e\<rparr>, pv_begun := insert k (pv_begun y)\<rparr>)"
| session_changed:
  "eph_op (cs_ephemeral (pv_stores y)) e \<Longrightarrow> privacy_step y (y\<lparr>pv_stores := (pv_stores y)\<lparr>cs_ephemeral := e\<rparr>\<rparr>)"
| append_decided:
  "privacy_step y (y\<lparr>pv_pending := pv_pending y @ [(k, m, session_state (cs_ephemeral (pv_stores y)) k)]\<rparr>)"
| append_done:
  "pv_pending y = xs @ (k, m, d) # ys
   \<Longrightarrow> privacy_step y (y\<lparr>pv_stores := fst (append_as d (pv_stores y) k m), pv_pending := xs @ ys\<rparr>)"
| durable_changed:
  "privacy_step y (y\<lparr>pv_stores := (pv_stores y)\<lparr>cs_features := fst (fs_clear_conversation (cs_features (pv_stores y)) k)\<rparr>\<rparr>)"
| durable_answer_removed:
  "privacy_step y (y\<lparr>pv_stores := (pv_stores y)\<lparr>cs_features := fst (fs_remove_last_assistant (cs_features (pv_stores y)) k)\<rparr>\<rparr>)"
| snapshot_saved:
  "fs_queue (cs_features (pv_stores y)) = c # q
   \<Longrightarrow> privacy_step y (y\<lparr>pv_stores := (pv_stores y)\<lparr>cs_features := (cs_features (pv_stores y))\<lparr>fs_queue := q\<rparr>\<rparr>\<rparr>)"

definition privacy_init :: "FeatureState \<Rightarrow> PrivacySystem" where
  "privacy_init s = \<lparr>pv_stores = \<lparr>cs_ephemeral = ephemeral_new, cs_features = s\<rparr>, pv_pending = [], pv_begun = {}\<rparr>"

definition privacy_inv :: "PrivacySystem \<Rightarrow> bool" where
  "privacy_inv y \<longleftrightarrow>
     (\<forall>k \<in> pv_begun y. session_state (cs_ephemeral (pv_stores y)) k \<noteq> SessionAbsent
        \<and> \<not> durably_known (cs_features (pv_stores y)) k)
     \<and> (\<forall>(k, m, d) \<in> set (pv_pending y). k \<in> pv_begun y \<longrightarrow> d \<noteq> SessionAbsent)"

lemma eph_op_keeps_known:
  "eph_op s s' \<Longrightarrow> session_state s k \<noteq> SessionAbsent \<Longrightarrow> session_state s' k \<noteq> SessionAbsent"
  by (induction rule: eph_op.induct)
     (auto simp: session_state_def eph_end_def eph_append_message_def eph_clear_conversation_def eph_remove_last_assistant_def
        eph_create_operation_def eph_finish_operation_def eph_cancel_operation_def Let_def split: option.splits if_splits)

lemma conversation_keys:
  "(\<lambda>r. (cp_conversation_id r, cp_branch_id r)) ` set (conversation_records s) = fst ` set (fs_conversations s)"
  by (force simp: conversation_records_def)

lemma durably_known_persist: "durably_known (persist_conversations s) k \<longleftrightarrow> durably_known s k"
  using conversation_keys [of s]
  by (auto simp: durably_known_def queue_mentions_def persist_conversations_def persist_value_def conversations_value_def
      map_of_eq_None_iff simp del: image_iff split: if_splits)

lemma durably_known_update:
  "durably_known (s\<lparr>fs_conversations := AList.update k' v (fs_conversations s)\<rparr>) k \<Longrightarrow> k = k' \<or> durably_known s k"
  "durably_known (s\<lparr>fs_conversations := AList.delete k' (fs_conversations s)\<rparr>) k \<Longrightarrow> durably_known s k"
  by (auto simp: durably_known_def queue_mentions_def split: if_splits)

lemma durably_known_ops:
  "durably_known (fs_append_message s k' m) k \<Longrightarrow> k = k' \<or> durably_known s k"
  "durably_known (fst (fs_clear_conversation s k')) k \<Longrightarrow> durably_known s k"
  "durably_known (fst (fs_remove_last_assistant s k')) k \<Longrightarrow> durably_known s k"
proof -
  show "durably_known (fs_append_message s k' m) k \<Longrightarrow> k = k' \<or> durably_known s k"
    unfolding fs_append_message_def durably_known_persist by (rule durably_known_update(1))
  show "durably_known (fst (fs_clear_conversation s k')) k \<Longrightarrow> durably_known s k"
    unfolding fs_clear_conversation_def fst_conv durably_known_persist by (rule durably_known_update(2))
  show "durably_known (fst (fs_remove_last_assistant s k')) k \<Longrightarrow> durably_known s k"
    using durably_known_update(1) [where s = s and k' = k' and k = k]
    by (auto simp: fs_remove_last_assistant_def durably_known_persist split: option.splits if_splits)
       (auto simp: durably_known_def)
qed

lemma privacy_step_inv: "privacy_step y y' \<Longrightarrow> privacy_inv y \<Longrightarrow> privacy_inv y'"
proof (induction rule: privacy_step.induct)
  case (session_begun y k e)
  have "(k, m, d) \<notin> set (pv_pending y)" for m d using session_begun(2) by force
  then show ?case
    using session_begun by (auto simp: privacy_inv_def eph_begin_def session_state_def split: if_splits)
next
  case (session_changed y e)
  then show ?case using eph_op_keeps_known by (auto simp: privacy_inv_def)
next
  case (append_decided y k m)
  then show ?case by (auto simp: privacy_inv_def)
next
  case (append_done y xs k m d ys)
  have "session_state (fst (eph_append_message (cs_ephemeral (pv_stores y)) k m)) k' \<noteq> SessionAbsent"
    if "session_state (cs_ephemeral (pv_stores y)) k' \<noteq> SessionAbsent" for k'
    using that eph_op_keeps_known eph_op.intros(2) by blast
  then show ?case
    using append_done
    by (cases d) (auto simp: privacy_inv_def append_as_def case_prod_beta dest: durably_known_ops(1))
next
  case (durable_changed y k)
  then show ?case by (auto simp: privacy_inv_def dest: durably_known_ops(2))
next
  case (durable_answer_removed y k)
  then show ?case by (auto simp: privacy_inv_def dest: durably_known_ops(3))
next
  case (snapshot_saved y c q)
  then show ?case by (auto simp: privacy_inv_def durably_known_def queue_mentions_def)
qed

text \<open>
  While the process runs, a temporary chat never reaches the durable side: in every interleaving
  of sessions beginning and ending, of chat operations and of the writer task, with threads that act
  on a session's state they read earlier, no key of a session ever begun appears in the durable
  conversations or in a snapshot queued for the store, and such a key stays active or retired.
\<close>
theorem temporary_chat_never_durable:
  assumes "privacy_step\<^sup>*\<^sup>* (privacy_init s) y" and "k \<in> pv_begun y"
  shows "map_of (fs_conversations (cs_features (pv_stores y))) k = None
    \<and> \<not> queue_mentions (cs_features (pv_stores y)) k
    \<and> session_state (cs_ephemeral (pv_stores y)) k \<noteq> SessionAbsent"
proof -
  have "privacy_inv y"
    using assms(1)
  proof (induction rule: rtranclp_induct)
    case base
    show ?case by (simp add: privacy_inv_def privacy_init_def)
  next
    case (step u v)
    then show ?case using privacy_step_inv by blast
  qed
  then show ?thesis using assms(2) by (auto simp: privacy_inv_def durably_known_def)
qed

text \<open>A message sent to a chat that ends before the thread gets to store it.\<close>
theorem temporary_chat_never_durable_witness:
  "\<exists>y. privacy_step\<^sup>*\<^sup>* (privacy_init features_new) y \<and> (''c1'', ''b1'') \<in> pv_begun y
     \<and> was_retired (cs_ephemeral (pv_stores y)) (''c1'', ''b1'')
     \<and> map_of (fs_conversations (cs_features (pv_stores y))) (''c1'', ''b1'') = None"
proof -
  let ?k = "(''c1'', ''b1'')" and ?i = "privacy_init features_new"
  define e where "e = fst (eph_begin ephemeral_new ?k)"
  have b: "eph_begin ephemeral_new ?k = (e, True)" by (simp add: e_def eph_begin_def ephemeral_new_def)
  define y1 where "y1 = ?i\<lparr>pv_stores := (pv_stores ?i)\<lparr>cs_ephemeral := e\<rparr>, pv_begun := insert ?k (pv_begun ?i)\<rparr>"
  have 1: "privacy_step ?i y1"
    unfolding y1_def by (rule privacy_step.session_begun)
      (use b in \<open>simp_all add: privacy_init_def durably_known_def queue_mentions_def features_new_def\<close>)
  define y2 where "y2 = y1\<lparr>pv_pending := pv_pending y1 @ [(?k, sample_message, session_state (cs_ephemeral (pv_stores y1)) ?k)]\<rparr>"
  have 2: "privacy_step y1 y2" unfolding y2_def by (rule privacy_step.append_decided)
  have d: "session_state (cs_ephemeral (pv_stores y1)) ?k = SessionActive"
    by (simp add: y1_def e_def eph_begin_def ephemeral_new_def session_state_def)
  define y3 where "y3 = y2\<lparr>pv_stores := (pv_stores y2)\<lparr>cs_ephemeral := fst (eph_end (cs_ephemeral (pv_stores y2)) ?k)\<rparr>\<rparr>"
  have 3: "privacy_step y2 y3" unfolding y3_def by (rule privacy_step.session_changed [OF eph_op.intros(1)])
  define y4 where "y4 = y3\<lparr>pv_stores := fst (append_as SessionActive (pv_stores y3) ?k sample_message), pv_pending := [] @ []\<rparr>"
  have 4: "privacy_step y3 y4"
    unfolding y4_def by (rule privacy_step.append_done) (simp add: y3_def y2_def d, simp add: y1_def privacy_init_def)
  have r: "privacy_step\<^sup>*\<^sup>* ?i y4" using 1 2 3 4 by (meson converse_rtranclp_into_rtranclp rtranclp.rtrancl_refl)
  have k: "?k \<in> pv_begun y4" by (simp add: y4_def y3_def y2_def y1_def)
  have "was_retired (cs_ephemeral (pv_stores y4)) ?k"
    by (simp add: y4_def y3_def y2_def y1_def e_def eph_begin_def ephemeral_new_def eph_end_def Let_def append_as_def
        eph_append_message_def was_retired_def session_state_def)
  then show ?thesis using r k temporary_chat_never_durable [OF r k] by blast
qed

end
