(* ===== verification/Platform_Broker.thy ===== *)
theory Platform_Broker
  imports Sql_Model Json_Model
begin

text \<open>
  The broker of requests to the Android side (\<open>platform.rs\<close>): the runtime queues requests, the client
  drains them and submits responses, and tasks wait for theirs. All operations but the wait hold the
  broker's lock; the wait loop is split at the points where it does not. Request identifiers, time
  and the waiting inside a drain are arguments or other steps.
\<close>

section \<open>The broker\<close>

definition MAX_PLATFORM_REQUESTS :: nat where "MAX_PLATFORM_REQUESTS = 128"
definition MAX_PLATFORM_DRAIN_ITEMS :: nat where "MAX_PLATFORM_DRAIN_ITEMS = 32"

datatype PlatformRequestKind =
    DocumentStage string string string
  | DocumentDelete string
  | SecureKeyWrap string string
  | SecureKeyUnwrap string string
  | ThermalStatus
  | NetworkStatus
  | DiagnosticsSnapshot

record PlatformRequest =
  pr_request_id :: string
  pr_operation_id :: "string option"
  pr_created_at :: time
  pr_request :: PlatformRequestKind

datatype PlatformResponseStatus = PrSucceeded | PrFailed

record PlatformResponse =
  rs_request_id :: string
  rs_status :: PlatformResponseStatus
  rs_payload :: json
  rs_error_code :: "string option"
  rs_error_message :: "string option"

record PlatformRequestBatch =
  pb_requests :: "PlatformRequest list"
  pb_has_more :: bool

record PlatformBrokerSnapshot =
  pbs_queued :: nat
  pbs_in_flight :: nat
  pbs_completed :: nat

datatype PlatformPortError = QueueFull | UnknownRequest | PortFailed string | PortCancelled | PortTimeout

record Broker =
  bk_capacity :: nat
  bk_pending :: "PlatformRequest list"
  bk_in_flight :: "string set"
  bk_responses :: "(string, PlatformResponse) hashmap"

definition broker_new :: "nat \<Rightarrow> Broker" where
  "broker_new capacity =
     \<lparr>bk_capacity = max 1 (min capacity MAX_PLATFORM_REQUESTS), bk_pending = [], bk_in_flight = {}, bk_responses = []\<rparr>"

definition outstanding :: "Broker \<Rightarrow> nat" where
  "outstanding b = length (bk_pending b) + card (bk_in_flight b) + length (bk_responses b)"

definition broker_enqueue ::
  "Broker \<Rightarrow> string option \<Rightarrow> PlatformRequestKind \<Rightarrow> string \<Rightarrow> time \<Rightarrow> Broker \<times> (PlatformPortError + string)" where
  "broker_enqueue b operation_id request uuid now =
     (if outstanding b \<ge> bk_capacity b then (b, Inl QueueFull)
      else (b\<lparr>bk_pending := bk_pending b @ [\<lparr>pr_request_id = uuid, pr_operation_id = operation_id,
              pr_created_at = now, pr_request = request\<rparr>]\<rparr>, Inr uuid))"

text \<open>The pops of a drain, once it has stopped waiting.\<close>
fun pop_requests :: "nat \<Rightarrow> PlatformRequest list \<Rightarrow> string set \<Rightarrow> PlatformRequest list \<Rightarrow> PlatformRequest list \<times> string set \<times> PlatformRequest list" where
  "pop_requests limit pending in_flight requests =
     (if length requests < limit then
        (case pending of
           [] \<Rightarrow> (pending, in_flight, requests)
         | r # rest \<Rightarrow> pop_requests limit rest (insert (pr_request_id r) in_flight) (requests @ [r]))
      else (pending, in_flight, requests))"

declare pop_requests.simps [simp del]

definition broker_drain :: "Broker \<Rightarrow> nat \<Rightarrow> Broker \<times> PlatformRequestBatch" where
  "broker_drain b limit =
     (let (pending, in_flight, requests) =
            pop_requests (max 1 (min limit MAX_PLATFORM_DRAIN_ITEMS)) (bk_pending b) (bk_in_flight b) [] in
      (b\<lparr>bk_pending := pending, bk_in_flight := in_flight\<rparr>, \<lparr>pb_requests = requests, pb_has_more = pending \<noteq> []\<rparr>))"

definition submit_response :: "Broker \<Rightarrow> PlatformResponse \<Rightarrow> Broker \<times> (PlatformPortError + unit)" where
  "submit_response b r =
     (if rs_request_id r \<notin> bk_in_flight b then (b, Inl UnknownRequest)
      else (b\<lparr>bk_in_flight := bk_in_flight b - {rs_request_id r},
              bk_responses := AList.update (rs_request_id r) r (bk_responses b)\<rparr>, Inr ()))"

definition take_response :: "Broker \<Rightarrow> string \<Rightarrow> Broker \<times> PlatformResponse option" where
  "take_response b request_id =
     (b\<lparr>bk_responses := AList.delete request_id (bk_responses b)\<rparr>, map_of (bk_responses b) request_id)"

definition abandon :: "Broker \<Rightarrow> string \<Rightarrow> Broker \<times> bool" where
  "abandon b request_id =
     (let pending = filter (\<lambda>r. pr_request_id r \<noteq> request_id) (bk_pending b) in
      (b\<lparr>bk_pending := pending, bk_in_flight := bk_in_flight b - {request_id},
         bk_responses := AList.delete request_id (bk_responses b)\<rparr>,
       length pending \<noteq> length (bk_pending b) \<or> request_id \<in> bk_in_flight b \<or> map_of (bk_responses b) request_id \<noteq> None))"

definition broker_snapshot :: "Broker \<Rightarrow> PlatformBrokerSnapshot" where
  "broker_snapshot b =
     \<lparr>pbs_queued = length (bk_pending b), pbs_in_flight = card (bk_in_flight b), pbs_completed = length (bk_responses b)\<rparr>"

definition response_outcome :: "PlatformResponse \<Rightarrow> PlatformPortError + json" where
  "response_outcome r =
     (case rs_status r of
        PrSucceeded \<Rightarrow> Inr (rs_payload r)
      | PrFailed \<Rightarrow> Inl (PortFailed (case rs_error_code r of Some c \<Rightarrow> c
          | None \<Rightarrow> (case rs_error_message r of Some m \<Rightarrow> m | None \<Rightarrow> ''platform_failure''))))"

section \<open>Waiting\<close>

text \<open>
  A wait looks for its response, and when there is none creates a \<open>Notified\<close> future and sleeps on it;
  \<open>notify_waiters\<close> wakes the futures that exist, and is not remembered for later ones. Between the look
  and the future the lock is free. \<open>wait_settled\<close> is the end of the wait, which abandons the request
  unless it succeeded.
\<close>
datatype wait_phase = WaitLook | WaitArm | WaitAsleep | WaitDone "PlatformPortError + json"

record BrokerSystem =
  by_broker :: Broker
  by_waits :: "(string, wait_phase) hashmap"
  by_issued :: "string set"
  by_drained :: "PlatformRequest list"
  by_answers :: "PlatformResponse list"

definition wait_settled :: "Broker \<Rightarrow> string \<Rightarrow> PlatformPortError + json \<Rightarrow> Broker" where
  "wait_settled b request_id outcome = (case outcome of Inl _ \<Rightarrow> fst (abandon b request_id) | Inr _ \<Rightarrow> b)"

definition notify_waiters :: "(string, wait_phase) hashmap \<Rightarrow> (string, wait_phase) hashmap" where
  "notify_waiters ws = map (\<lambda>(i, p). (i, if p = WaitAsleep then WaitLook else p)) ws"

inductive broker_step :: "BrokerSystem \<Rightarrow> BrokerSystem \<Rightarrow> bool" where
  enqueued:
  "uuid \<notin> by_issued y \<Longrightarrow> broker_enqueue (by_broker y) oid kind uuid now = (b, Inr uuid)
   \<Longrightarrow> broker_step y (y\<lparr>by_broker := b, by_issued := insert uuid (by_issued y)\<rparr>)"
| drained:
  "broker_drain (by_broker y) limit = (b, batch)
   \<Longrightarrow> broker_step y (y\<lparr>by_broker := b, by_drained := by_drained y @ pb_requests batch\<rparr>)"
| answered:
  "submit_response (by_broker y) r = (b, Inr ())
   \<Longrightarrow> broker_step y (y\<lparr>by_broker := b, by_waits := notify_waiters (by_waits y), by_answers := by_answers y @ [r]\<rparr>)"
| wait_started:
  "i \<in> by_issued y \<Longrightarrow> map_of (by_waits y) i = None
   \<Longrightarrow> broker_step y (y\<lparr>by_waits := AList.update i WaitLook (by_waits y)\<rparr>)"
| wait_found:
  "map_of (by_waits y) i = Some WaitLook \<Longrightarrow> take_response (by_broker y) i = (b, Some r)
   \<Longrightarrow> broker_step y (y\<lparr>by_broker := wait_settled b i (response_outcome r),
         by_waits := AList.update i (WaitDone (response_outcome r)) (by_waits y)\<rparr>)"
| wait_missed:
  "map_of (by_waits y) i = Some WaitLook \<Longrightarrow> take_response (by_broker y) i = (b, None)
   \<Longrightarrow> broker_step y (y\<lparr>by_broker := b, by_waits := AList.update i WaitArm (by_waits y)\<rparr>)"
| wait_armed:
  "map_of (by_waits y) i = Some WaitArm
   \<Longrightarrow> broker_step y (y\<lparr>by_waits := AList.update i WaitAsleep (by_waits y)\<rparr>)"
| wait_given_up:
  "map_of (by_waits y) i = Some WaitAsleep \<Longrightarrow> e \<in> {PortCancelled, PortTimeout}
   \<Longrightarrow> broker_step y (y\<lparr>by_broker := wait_settled (by_broker y) i (Inl e),
         by_waits := AList.update i (WaitDone (Inl e)) (by_waits y)\<rparr>)"

definition broker_init :: "nat \<Rightarrow> BrokerSystem" where
  "broker_init capacity =
     \<lparr>by_broker = broker_new capacity, by_waits = [], by_issued = {}, by_drained = [], by_answers = []\<rparr>"

section \<open>Closed forms\<close>

lemma pop_requests_eq:
  "pop_requests limit pending fl requests =
     (let n = min (limit - length requests) (length pending) in
      (drop n pending, fl \<union> pr_request_id ` set (take n pending), requests @ take n pending))"
proof (induction pending arbitrary: fl requests)
  case Nil
  then show ?case by (simp add: pop_requests.simps)
next
  case (Cons r rest)
  have n: "min (limit - length requests) (Suc (length rest)) = Suc (min (limit - Suc (length requests)) (length rest))"
    if "length requests < limit" using that by linarith
  show ?case using Cons.IH [of "insert (pr_request_id r) fl" "requests @ [r]"] n
    by (subst pop_requests.simps) (auto simp: Let_def)
qed

definition pending_ids :: "Broker \<Rightarrow> string list" where
  "pending_ids b = map pr_request_id (bk_pending b)"

definition apart :: "string set \<Rightarrow> string set \<Rightarrow> string set \<Rightarrow> bool" where
  "apart p f r \<longleftrightarrow> p \<inter> f = {} \<and> p \<inter> r = {} \<and> f \<inter> r = {}"

lemma apart_laws:
  "apart p f r \<Longrightarrow> i \<notin> f \<Longrightarrow> i \<notin> r \<Longrightarrow> apart (insert i p) f r"
  "apart (d \<union> p) f r \<Longrightarrow> d \<inter> p = {} \<Longrightarrow> apart p (f \<union> d) r"
  "apart p f r \<Longrightarrow> i \<in> f \<Longrightarrow> apart p (f - {i}) (insert i r)"
  "apart p f r \<Longrightarrow> p' \<subseteq> p \<Longrightarrow> f' \<subseteq> f \<Longrightarrow> r' \<subseteq> r \<Longrightarrow> apart p' f' r'"
  "apart p f r \<Longrightarrow> i \<in> f \<Longrightarrow> i \<notin> r \<and> i \<notin> p"
  "apart p f r \<Longrightarrow> i \<in> p \<Longrightarrow> i \<notin> f"
  by (auto simp: apart_def)

text \<open>Every identifier is in one place at most.\<close>
definition broker_wf :: "Broker \<Rightarrow> bool" where
  "broker_wf b \<longleftrightarrow>
     distinct (pending_ids b) \<and> finite (bk_in_flight b) \<and> distinct (map fst (bk_responses b))
     \<and> apart (set (pending_ids b)) (bk_in_flight b) (fst ` set (bk_responses b))
     \<and> outstanding b \<le> bk_capacity b \<and> bk_capacity b \<le> MAX_PLATFORM_REQUESTS"

definition known_ids :: "Broker \<Rightarrow> string set" where
  "known_ids b = set (pending_ids b) \<union> bk_in_flight b \<union> fst ` set (bk_responses b)"

lemma fst_delete: "fst ` set (AList.delete k al) = fst ` set al - {k}"
  using arg_cong [OF AList.delete_keys [of k al], of set] by simp

lemma length_update_new: "k \<notin> fst ` set al \<Longrightarrow> length (AList.update k v al) = length al + 1"
  by (induction al) auto

lemma enqueue_wf:
  assumes "broker_wf b" "broker_enqueue b oid kind uuid now = (b', Inr uuid')" "uuid \<notin> known_ids b"
  shows "broker_wf b'" "known_ids b' = insert uuid (known_ids b)" "bk_in_flight b' = bk_in_flight b"
    "bk_responses b' = bk_responses b" "pending_ids b' = pending_ids b @ [uuid]" "bk_capacity b' = bk_capacity b"
proof -
  have b: "b' = b\<lparr>bk_pending := bk_pending b @ [\<lparr>pr_request_id = uuid, pr_operation_id = oid, pr_created_at = now, pr_request = kind\<rparr>]\<rparr>"
    and o': "outstanding b < bk_capacity b"
    using assms(2) by (auto simp: broker_enqueue_def split: if_splits)
  have p: "pending_ids b' = pending_ids b @ [uuid]" by (simp add: b pending_ids_def)
  have f: "bk_in_flight b' = bk_in_flight b" "bk_responses b' = bk_responses b" "bk_capacity b' = bk_capacity b"
    by (simp_all add: b)
  have n: "uuid \<notin> set (pending_ids b)" "uuid \<notin> bk_in_flight b" "uuid \<notin> fst ` set (bk_responses b)"
    using assms(3) unfolding known_ids_def by blast+
  have "outstanding b' = Suc (outstanding b)" by (simp add: outstanding_def b)
  then show "broker_wf b'"
    using assms(1) o' n unfolding broker_wf_def p f by (simp add: apart_laws(1))
  show "known_ids b' = insert uuid (known_ids b)" unfolding known_ids_def p f by simp
  show "bk_in_flight b' = bk_in_flight b" "bk_responses b' = bk_responses b" "pending_ids b' = pending_ids b @ [uuid]"
    "bk_capacity b' = bk_capacity b" by (fact f p)+
qed

lemma drain_wf:
  assumes wf: "broker_wf b" and d: "broker_drain b limit = (b', batch)"
  shows "broker_wf b'" "known_ids b' = known_ids b" "bk_responses b' = bk_responses b" "bk_capacity b' = bk_capacity b"
    "pending_ids b = map pr_request_id (pb_requests batch) @ pending_ids b'"
    "bk_in_flight b' = bk_in_flight b \<union> set (map pr_request_id (pb_requests batch))"
    "length (pb_requests batch) \<le> MAX_PLATFORM_DRAIN_ITEMS"
proof -
  let ?n = "min (max 1 (min limit MAX_PLATFORM_DRAIN_ITEMS)) (length (bk_pending b))"
  have r: "pb_requests batch = take ?n (bk_pending b)" "bk_pending b' = drop ?n (bk_pending b)"
    "bk_in_flight b' = bk_in_flight b \<union> pr_request_id ` set (take ?n (bk_pending b))"
    "bk_responses b' = bk_responses b" "bk_capacity b' = bk_capacity b"
    using d by (auto simp: broker_drain_def pop_requests_eq Let_def)
  have split: "pending_ids b = map pr_request_id (pb_requests batch) @ pending_ids b'"
    unfolding pending_ids_def r(1,2) by (metis append_take_drop_id map_append)
  have dist: "distinct (map pr_request_id (pb_requests batch) @ pending_ids b')" using wf split by (simp add: broker_wf_def)
  have card: "card (bk_in_flight b') = card (bk_in_flight b) + length (pb_requests batch)"
  proof -
    let ?D = "set (map pr_request_id (pb_requests batch))"
    have a: "apart (set (pending_ids b)) (bk_in_flight b) (fst ` set (bk_responses b))" using wf by (simp add: broker_wf_def)
    have "?D \<subseteq> set (pending_ids b)" unfolding split by simp
    then have "bk_in_flight b \<inter> ?D = {}" using a unfolding apart_def by blast
    moreover have "card ?D = length (pb_requests batch)"
      using dist distinct_card [of "map pr_request_id (pb_requests batch)"] by simp
    moreover have "bk_in_flight b' = bk_in_flight b \<union> ?D" using r(1,3) by simp
    moreover have "finite (bk_in_flight b)" using wf by (simp add: broker_wf_def)
    ultimately show ?thesis using card_Un_disjoint [of "bk_in_flight b" ?D] by simp
  qed
  have len: "length (bk_pending b) = length (pb_requests batch) + length (bk_pending b')"
    using arg_cong [OF split, of length] by (simp add: pending_ids_def)
  show "pending_ids b = map pr_request_id (pb_requests batch) @ pending_ids b'" by (rule split)
  show "bk_responses b' = bk_responses b" "bk_capacity b' = bk_capacity b" by (rule r)+
  show f: "bk_in_flight b' = bk_in_flight b \<union> set (map pr_request_id (pb_requests batch))" using r(1,3) by simp
  show "known_ids b' = known_ids b" using split f r(4) by (auto simp: known_ids_def)
  show "length (pb_requests batch) \<le> MAX_PLATFORM_DRAIN_ITEMS" using r(1) by (simp add: MAX_PLATFORM_DRAIN_ITEMS_def)
  have "outstanding b' = outstanding b" using card len r(4) by (simp add: outstanding_def)
  moreover have "apart (set (pending_ids b')) (bk_in_flight b') (fst ` set (bk_responses b'))"
    unfolding f r(4) by (rule apart_laws(2)) (use wf dist split in \<open>simp_all add: broker_wf_def\<close>)
  ultimately show "broker_wf b'" using wf dist f r(4,5) by (simp add: broker_wf_def)
qed

lemma submit_wf:
  assumes wf: "broker_wf b" and s: "submit_response b r = (b', Inr u)"
  shows "broker_wf b'" "known_ids b' = known_ids b" "rs_request_id r \<in> bk_in_flight b" "bk_capacity b' = bk_capacity b"
    "bk_in_flight b' = bk_in_flight b - {rs_request_id r}" "pending_ids b' = pending_ids b"
    "bk_responses b' = AList.update (rs_request_id r) r (bk_responses b)"
proof -
  let ?i = "rs_request_id r"
  have i: "?i \<in> bk_in_flight b" and b: "b' = b\<lparr>bk_in_flight := bk_in_flight b - {?i}, bk_responses := AList.update ?i r (bk_responses b)\<rparr>"
    using s by (auto simp: submit_response_def split: if_splits)
  have new: "?i \<notin> fst ` set (bk_responses b)" "?i \<notin> set (pending_ids b)"
    using wf apart_laws(5) [OF _ i] unfolding broker_wf_def by blast+
  have fin: "finite (bk_in_flight b)" using wf by (simp add: broker_wf_def)
  have "card (bk_in_flight b) = Suc (card (bk_in_flight b - {?i}))" by (rule card.remove [OF fin i])
  then have "outstanding b' = outstanding b" using new(1) by (simp add: outstanding_def b length_update_new)
  then show "broker_wf b'" using wf apart_laws(3) [OF _ i]
    by (simp add: broker_wf_def b pending_ids_def AList.dom_update distinct_update)
  show "known_ids b' = known_ids b" using i by (auto simp: known_ids_def b pending_ids_def AList.dom_update)
  show "rs_request_id r \<in> bk_in_flight b" by (rule i)
  show "bk_capacity b' = bk_capacity b" "bk_in_flight b' = bk_in_flight b - {?i}" "pending_ids b' = pending_ids b"
    "bk_responses b' = AList.update ?i r (bk_responses b)" by (simp_all add: b pending_ids_def)
qed

lemma take_wf:
  assumes "broker_wf b"
  shows "broker_wf (fst (take_response b i))"
  using assms AList.length_delete_le [of i "bk_responses b"] apart_laws(4) [OF _ subset_refl subset_refl Diff_subset]
  by (simp add: take_response_def broker_wf_def pending_ids_def outstanding_def fst_delete distinct_delete)

lemma abandon_wf:
  assumes "broker_wf b"
  shows "broker_wf (fst (abandon b i))"
proof -
  have "card (bk_in_flight b - {i}) \<le> card (bk_in_flight b)" using assms by (simp add: broker_wf_def card_Diff1_le)
  then have "outstanding (fst (abandon b i)) \<le> outstanding b"
    unfolding outstanding_def abandon_def Let_def by (auto intro!: add_mono AList.length_delete_le)
  moreover have "apart (set (pending_ids (fst (abandon b i)))) (bk_in_flight b - {i}) (fst ` set (bk_responses b) - {i})"
    by (rule apart_laws(4) [of "set (pending_ids b)" "bk_in_flight b" "fst ` set (bk_responses b)"])
       (use assms in \<open>auto simp: broker_wf_def pending_ids_def abandon_def Let_def\<close>)
  ultimately show ?thesis
    using assms by (simp add: abandon_def Let_def broker_wf_def pending_ids_def fst_delete distinct_delete distinct_map_filter)
qed

section \<open>Requests and responses\<close>

definition drained_ids :: "BrokerSystem \<Rightarrow> string list" where
  "drained_ids y = map pr_request_id (by_drained y)"

definition answered_ids :: "BrokerSystem \<Rightarrow> string list" where
  "answered_ids y = map rs_request_id (by_answers y)"

text \<open>
  How the identifiers known to the broker, issued, pending, in flight, drained and answered lie to
  one another.
\<close>
definition placed :: "string set \<Rightarrow> string set \<Rightarrow> string set \<Rightarrow> string set \<Rightarrow> string set \<Rightarrow> string set \<Rightarrow> bool" where
  "placed k i p f d a \<longleftrightarrow> k \<subseteq> i \<and> d \<subseteq> i \<and> d \<inter> p = {} \<and> f \<subseteq> d \<and> a \<subseteq> d \<and> a \<inter> f = {}"

lemma placed_laws:
  "placed k i p f d a \<Longrightarrow> u \<notin> i \<Longrightarrow> placed (insert u k) (insert u i) (insert u p) f d a"
  "placed k i (e \<union> p) f d a \<Longrightarrow> e \<inter> p = {} \<Longrightarrow> e \<subseteq> k \<Longrightarrow> placed k i p (f \<union> e) (d \<union> e) a"
  "placed k i p f d a \<Longrightarrow> u \<in> f \<Longrightarrow> placed k i p (f - {u}) d (insert u a)"
  "placed k i p f d a \<Longrightarrow> k' \<subseteq> k \<Longrightarrow> p' \<subseteq> p \<Longrightarrow> f' \<subseteq> f \<Longrightarrow> placed k' i p' f' d a"
  "placed k i (e \<union> p) f d a \<Longrightarrow> d \<inter> e = {}"
  "placed k i p f d a \<Longrightarrow> u \<in> f \<Longrightarrow> u \<notin> a"
  "placed k i p f d a \<Longrightarrow> u \<notin> i \<Longrightarrow> u \<notin> k"
  by (auto simp: placed_def)

definition broker_inv :: "nat \<Rightarrow> BrokerSystem \<Rightarrow> bool" where
  "broker_inv capacity y \<longleftrightarrow>
     broker_wf (by_broker y) \<and> bk_capacity (by_broker y) = max 1 (min capacity MAX_PLATFORM_REQUESTS)
     \<and> placed (known_ids (by_broker y)) (by_issued y) (set (pending_ids (by_broker y))) (bk_in_flight (by_broker y))
         (set (drained_ids y)) (set (answered_ids y))
     \<and> distinct (drained_ids y) \<and> distinct (answered_ids y)"

definition responses_inv :: "BrokerSystem \<Rightarrow> bool" where
  "responses_inv y \<longleftrightarrow>
     (\<forall>i r. map_of (bk_responses (by_broker y)) i = Some r \<longrightarrow> r \<in> set (by_answers y) \<and> rs_request_id r = i)
     \<and> (\<forall>i p. map_of (by_waits y) i = Some (WaitDone (Inr p)) \<longrightarrow>
          map_of (bk_responses (by_broker y)) i = None
          \<and> (\<exists>r \<in> set (by_answers y). rs_request_id r = i \<and> response_outcome r = Inr p))"

lemma settled_fields:
  assumes "broker_wf b"
  shows "broker_wf (wait_settled b i out)" "known_ids (wait_settled b i out) \<subseteq> known_ids b"
    "set (pending_ids (wait_settled b i out)) \<subseteq> set (pending_ids b)" "bk_in_flight (wait_settled b i out) \<subseteq> bk_in_flight b"
    "bk_capacity (wait_settled b i out) = bk_capacity b"
    "map_of (bk_responses (wait_settled b i out)) j = (if j = i \<and> isl out then None else map_of (bk_responses b) j)"
proof -
  show "broker_wf (wait_settled b i out)" using assms abandon_wf by (simp add: wait_settled_def split: sum.splits)
  show p: "set (pending_ids (wait_settled b i out)) \<subseteq> set (pending_ids b)" "bk_in_flight (wait_settled b i out) \<subseteq> bk_in_flight b"
    "bk_capacity (wait_settled b i out) = bk_capacity b"
    by (auto simp: wait_settled_def abandon_def Let_def pending_ids_def split: sum.splits)
  have "fst ` set (bk_responses (wait_settled b i out)) \<subseteq> fst ` set (bk_responses b)"
    by (cases out) (simp_all add: wait_settled_def abandon_def Let_def fst_delete)
  then show "known_ids (wait_settled b i out) \<subseteq> known_ids b" using p(1,2) unfolding known_ids_def by blast
  show "map_of (bk_responses (wait_settled b i out)) j = (if j = i \<and> isl out then None else map_of (bk_responses b) j)"
    by (cases out) (simp_all add: wait_settled_def abandon_def Let_def)
qed

lemma take_fields:
  assumes "broker_wf b" "take_response b i = (b', r)"
  shows "broker_wf b'" "known_ids b' \<subseteq> known_ids b" "pending_ids b' = pending_ids b" "bk_in_flight b' = bk_in_flight b"
    "bk_capacity b' = bk_capacity b" "map_of (bk_responses b') = (map_of (bk_responses b))(i := None)" "r = map_of (bk_responses b) i"
proof -
  have b: "b' = b\<lparr>bk_responses := AList.delete i (bk_responses b)\<rparr>" and r: "r = map_of (bk_responses b) i"
    using assms(2) by (simp_all add: take_response_def)
  show "broker_wf b'" using take_wf [OF assms(1), of i] assms(2) by simp
  show "known_ids b' \<subseteq> known_ids b" using AList.dom_delete_subset [of i "bk_responses b"] by (auto simp: b known_ids_def pending_ids_def)
  show "pending_ids b' = pending_ids b" "bk_in_flight b' = bk_in_flight b" "bk_capacity b' = bk_capacity b"
    "map_of (bk_responses b') = (map_of (bk_responses b))(i := None)" "r = map_of (bk_responses b) i"
    by (simp_all add: b r pending_ids_def)
qed

text \<open>A step that only removes from the broker keeps the invariant.\<close>
lemma broker_inv_shrink:
  assumes "broker_inv capacity y" "broker_wf b" "known_ids b \<subseteq> known_ids (by_broker y)"
    "set (pending_ids b) \<subseteq> set (pending_ids (by_broker y))" "bk_in_flight b \<subseteq> bk_in_flight (by_broker y)"
    "bk_capacity b = bk_capacity (by_broker y)"
  shows "broker_inv capacity (y\<lparr>by_broker := b, by_waits := w\<rparr>)"
  using assms placed_laws(4) [OF _ assms(3,4,5)] by (simp add: broker_inv_def drained_ids_def answered_ids_def)

lemma broker_step_inv: "broker_step y y' \<Longrightarrow> broker_inv capacity y \<Longrightarrow> broker_inv capacity y'"
proof (induction rule: broker_step.induct)
  case (enqueued uuid y oid kind now b)
  have wf: "broker_wf (by_broker y)" and
    p: "placed (known_ids (by_broker y)) (by_issued y) (set (pending_ids (by_broker y))) (bk_in_flight (by_broker y))
         (set (drained_ids y)) (set (answered_ids y))"
    using enqueued(3) by (simp_all add: broker_inv_def)
  note e = enqueue_wf [OF wf enqueued(2) placed_laws(7) [OF p enqueued(1)]]
  show ?case using enqueued(3) e placed_laws(1) [OF p enqueued(1)]
    by (simp add: broker_inv_def drained_ids_def answered_ids_def)
next
  case (drained y limit b batch)
  have wf: "broker_wf (by_broker y)" using drained(2) by (simp add: broker_inv_def)
  note d = drain_wf [OF wf drained(1)]
  let ?D = "map pr_request_id (pb_requests batch)"
  have dist: "distinct (?D @ pending_ids b)" using wf d(5) by (simp add: broker_wf_def)
  have p: "placed (known_ids (by_broker y)) (by_issued y) (set ?D \<union> set (pending_ids b)) (bk_in_flight (by_broker y))
         (set (drained_ids y)) (set (answered_ids y))"
    using drained(2) d(5) by (simp add: broker_inv_def)
  have k: "set ?D \<subseteq> known_ids (by_broker y)" unfolding known_ids_def d(5) by auto
  have f: "drained_ids (y\<lparr>by_broker := b, by_drained := by_drained y @ pb_requests batch\<rparr>) = drained_ids y @ ?D"
    "answered_ids (y\<lparr>by_broker := b, by_drained := by_drained y @ pb_requests batch\<rparr>) = answered_ids y"
    by (simp_all add: drained_ids_def answered_ids_def)
  have "set ?D \<inter> set (pending_ids b) = {}" using dist by simp
  note q = placed_laws(2) [OF p this k]
  show ?case
    using drained(2) d(1,2,4,6) dist q placed_laws(5) [OF p] unfolding broker_inv_def f by simp
next
  case (answered y r b)
  have wf: "broker_wf (by_broker y)" and
    p: "placed (known_ids (by_broker y)) (by_issued y) (set (pending_ids (by_broker y))) (bk_in_flight (by_broker y))
         (set (drained_ids y)) (set (answered_ids y))"
    using answered(2) by (simp_all add: broker_inv_def)
  note s = submit_wf [OF wf answered(1)]
  have f: "answered_ids (y\<lparr>by_broker := b, by_waits := w, by_answers := by_answers y @ [r]\<rparr>) = answered_ids y @ [rs_request_id r]"
    "drained_ids (y\<lparr>by_broker := b, by_waits := w, by_answers := by_answers y @ [r]\<rparr>) = drained_ids y" for w
    by (simp_all add: drained_ids_def answered_ids_def)
  show ?case
    using answered(2) s placed_laws(3) [OF p s(3)] placed_laws(6) [OF p s(3)] unfolding broker_inv_def f by simp
next
  case (wait_started i y)
  then show ?case by (simp add: broker_inv_def drained_ids_def answered_ids_def)
next
  case (wait_found y i b r)
  have wf: "broker_wf (by_broker y)" using wait_found(3) by (simp add: broker_inv_def)
  note t = take_fields [OF wf wait_found(2)]
  note u = settled_fields [OF t(1), of i "response_outcome r"]
  show ?case by (rule broker_inv_shrink [OF wait_found(3) u(1)]) (use t u in auto)
next
  case (wait_missed y i b)
  have wf: "broker_wf (by_broker y)" using wait_missed(3) by (simp add: broker_inv_def)
  note t = take_fields [OF wf wait_missed(2)]
  show ?case by (rule broker_inv_shrink [OF wait_missed(3) t(1)]) (use t in auto)
next
  case (wait_armed y i)
  then show ?case by (simp add: broker_inv_def drained_ids_def answered_ids_def)
next
  case (wait_given_up y i e)
  have wf: "broker_wf (by_broker y)" using wait_given_up(3) by (simp add: broker_inv_def)
  note u = settled_fields [OF wf, of i "Inl e"]
  show ?case by (rule broker_inv_shrink [OF wait_given_up(3) u(1)]) (use u in auto)
qed

lemma map_of_notify: "map_of (notify_waiters ws) i = map_option (\<lambda>p. if p = WaitAsleep then WaitLook else p) (map_of ws i)"
  by (simp only: notify_waiters_def map_of_map comp_apply)

lemma responses_step_inv:
  "broker_step y y' \<Longrightarrow> broker_inv capacity y \<Longrightarrow> responses_inv y \<Longrightarrow> responses_inv y'"
proof (induction rule: broker_step.induct)
  case (enqueued uuid y oid kind now b)
  have "bk_responses b = bk_responses (by_broker y)" using enqueued(2) by (auto simp: broker_enqueue_def split: if_splits)
  then show ?case using enqueued(4) by (simp add: responses_inv_def)
next
  case (drained y limit b batch)
  have "bk_responses b = bk_responses (by_broker y)" using drained(1) by (auto simp: broker_drain_def Let_def split: prod.splits)
  then show ?case using drained(3) by (simp add: responses_inv_def)
next
  case (answered y r b)
  have wf: "broker_wf (by_broker y)" and
    p: "placed (known_ids (by_broker y)) (by_issued y) (set (pending_ids (by_broker y))) (bk_in_flight (by_broker y))
         (set (drained_ids y)) (set (answered_ids y))"
    using answered(2) by (simp_all add: broker_inv_def)
  note s = submit_wf [OF wf answered(1)]
  have n: "rs_request_id x \<noteq> rs_request_id r" if "x \<in> set (by_answers y)" for x
    using placed_laws(6) [OF p s(3)] imageI [OF that, of rs_request_id] by (auto simp: answered_ids_def)
  have d: "map_of (by_waits y) (rs_request_id r) \<noteq> Some (WaitDone (Inr p))" for p
    using answered(3) n unfolding responses_inv_def by blast
  show ?case using answered(3) d unfolding responses_inv_def s(7)
    by (auto simp: s(7) map_of_notify split: if_splits)
next
  case (wait_found y i b r)
  have wf: "broker_wf (by_broker y)" using wait_found(3) by (simp add: broker_inv_def)
  note t = take_fields [OF wf wait_found(2)]
  note u = settled_fields(6) [OF t(1), of i "response_outcome r"]
  have r: "map_of (bk_responses (by_broker y)) i = Some r" using t(7) by simp
  then show ?case using wait_found(4) unfolding responses_inv_def
    by (auto simp: u t(6) split: if_splits)
next
  case (wait_missed y i b)
  have wf: "broker_wf (by_broker y)" using wait_missed(3) by (simp add: broker_inv_def)
  note t = take_fields [OF wf wait_missed(2)]
  show ?case using wait_missed(4) unfolding responses_inv_def by (auto simp: t(6) split: if_splits)
next
  case (wait_given_up y i e)
  have wf: "broker_wf (by_broker y)" using wait_given_up(3) by (simp add: broker_inv_def)
  show ?case using wait_given_up(4) unfolding responses_inv_def
    by (auto simp: settled_fields(6) [OF wf] split: if_splits)
qed (auto simp: responses_inv_def split: if_splits)

lemma broker_reachable_inv:
  "broker_step\<^sup>*\<^sup>* (broker_init capacity) y \<Longrightarrow> broker_inv capacity y \<and> responses_inv y"
proof (induction rule: rtranclp_induct)
  case base
  show ?case
    by (auto simp: broker_init_def broker_new_def broker_inv_def responses_inv_def broker_wf_def placed_def apart_def
        known_ids_def pending_ids_def drained_ids_def answered_ids_def outstanding_def MAX_PLATFORM_REQUESTS_def)
next
  case (step y z)
  then show ?case using broker_step_inv responses_step_inv by blast
qed

text \<open>
  C28: In every interleaving of requests, drains, responses and waiting tasks the broker never holds
  more requests than its capacity, and never more than 128; every request is handed to the platform
  at most once, is answered at most once and only after it was handed over; a request is pending, in
  flight or answered but never two of these at a time; and a task whose wait succeeds received the
  payload of the response to its own request, which the broker no longer holds.
\<close>
theorem platform_requests_safe:
  assumes "broker_step\<^sup>*\<^sup>* (broker_init capacity) y"
  shows "outstanding (by_broker y) \<le> bk_capacity (by_broker y) \<and> bk_capacity (by_broker y) \<le> 128
    \<and> distinct (map pr_request_id (by_drained y)) \<and> distinct (map rs_request_id (by_answers y))
    \<and> set (map rs_request_id (by_answers y)) \<subseteq> set (map pr_request_id (by_drained y))
    \<and> set (pending_ids (by_broker y)) \<inter> bk_in_flight (by_broker y) = {}
    \<and> (set (pending_ids (by_broker y)) \<union> bk_in_flight (by_broker y)) \<inter> fst ` set (bk_responses (by_broker y)) = {}
    \<and> (\<forall>i p. map_of (by_waits y) i = Some (WaitDone (Inr p)) \<longrightarrow>
         map_of (bk_responses (by_broker y)) i = None
         \<and> (\<exists>r \<in> set (by_answers y). rs_request_id r = i \<and> rs_status r = PrSucceeded \<and> rs_payload r = p))"
proof -
  have i: "broker_inv capacity y" and r: "responses_inv y" using broker_reachable_inv [OF assms] by simp_all
  have w: "outstanding (by_broker y) \<le> bk_capacity (by_broker y)" "bk_capacity (by_broker y) \<le> 128"
    "apart (set (pending_ids (by_broker y))) (bk_in_flight (by_broker y)) (fst ` set (bk_responses (by_broker y)))"
    using i by (simp_all add: broker_inv_def broker_wf_def MAX_PLATFORM_REQUESTS_def)
  have a: "set (answered_ids y) \<subseteq> set (drained_ids y)" "distinct (drained_ids y)" "distinct (answered_ids y)"
    using i by (simp_all add: broker_inv_def placed_def)
  have p: "map_of (bk_responses (by_broker y)) j = None
         \<and> (\<exists>r \<in> set (by_answers y). rs_request_id r = j \<and> rs_status r = PrSucceeded \<and> rs_payload r = q)"
    if wd: "map_of (by_waits y) j = Some (WaitDone (Inr q))" for j q
  proof -
    obtain x where "x \<in> set (by_answers y)" "rs_request_id x = j" "response_outcome x = Inr q"
      and n: "map_of (bk_responses (by_broker y)) j = None"
      using r wd unfolding responses_inv_def by blast
    moreover have "rs_status x = PrSucceeded \<and> rs_payload x = q"
      using \<open>response_outcome x = Inr q\<close> by (cases "rs_status x") (simp_all add: response_outcome_def)
    ultimately show ?thesis by blast
  qed
  have d: "set (pending_ids (by_broker y)) \<inter> bk_in_flight (by_broker y) = {}"
    "(set (pending_ids (by_broker y)) \<union> bk_in_flight (by_broker y)) \<inter> fst ` set (bk_responses (by_broker y)) = {}"
    using w(3) unfolding apart_def by blast+
  show ?thesis
    using w(1,2) a d p unfolding drained_ids_def answered_ids_def by simp
qed

section \<open>A response that is not noticed\<close>

definition sample_response :: PlatformResponse where
  "sample_response =
     \<lparr>rs_request_id = ''r1'', rs_status = PrSucceeded, rs_payload = Null, rs_error_code = None, rs_error_message = None\<rparr>"

definition sample_broker :: "bool \<Rightarrow> BrokerSystem" where
  "sample_broker answered =
     \<lparr>by_broker = (broker_new 4)\<lparr>bk_in_flight := (if answered then {} else {''r1''}),
          bk_responses := (if answered then [(''r1'', sample_response)] else [])\<rparr>,
      by_waits = [(''r1'', WaitArm)], by_issued = {''r1''},
      by_drained = [\<lparr>pr_request_id = ''r1'', pr_operation_id = None, pr_created_at = 0, pr_request = ThermalStatus\<rparr>],
      by_answers = (if answered then [sample_response] else [])\<rparr>"

text \<open>A request is queued, drained and its task has looked once when the response arrives.\<close>
lemma sample_broker_reachable: "broker_step\<^sup>*\<^sup>* (broker_init 4) (sample_broker a)"
proof -
  let ?r = "\<lparr>pr_request_id = ''r1'', pr_operation_id = None, pr_created_at = 0, pr_request = ThermalStatus\<rparr>"
  let ?i = "broker_init 4"
  define y1 where "y1 = ?i\<lparr>by_broker := (broker_new 4)\<lparr>bk_pending := [?r]\<rparr>, by_issued := {''r1''}\<rparr>"
  have 1: "broker_step ?i y1"
    using broker_step.enqueued [of "''r1''" ?i None ThermalStatus 0 "(broker_new 4)\<lparr>bk_pending := [?r]\<rparr>"]
    by (simp add: y1_def broker_init_def broker_enqueue_def broker_new_def outstanding_def)
  define y2 where "y2 = y1\<lparr>by_broker := (broker_new 4)\<lparr>bk_in_flight := {''r1''}\<rparr>, by_drained := [?r]\<rparr>"
  have 2: "broker_step y1 y2"
    using broker_step.drained [of y1 1 "(broker_new 4)\<lparr>bk_in_flight := {''r1''}\<rparr>" "\<lparr>pb_requests = [?r], pb_has_more = False\<rparr>"]
    by (simp add: y1_def y2_def broker_init_def broker_drain_def pop_requests_eq Let_def MAX_PLATFORM_DRAIN_ITEMS_def broker_new_def)
  define y3 where "y3 = y2\<lparr>by_waits := [(''r1'', WaitLook)]\<rparr>"
  have 3: "broker_step y2 y3"
    using broker_step.wait_started [of "''r1''" y2] by (simp add: y3_def y2_def y1_def broker_init_def)
  have 4: "broker_step y3 (sample_broker False)"
    using broker_step.wait_missed [of y3 "''r1''" "by_broker y3"]
    by (simp add: y3_def y2_def y1_def broker_init_def take_response_def broker_new_def sample_broker_def)
  have 5: "broker_step (sample_broker False) (sample_broker True)"
    using broker_step.answered [of "sample_broker False" sample_response "by_broker (sample_broker True)"]
    by (simp add: sample_broker_def submit_response_def sample_response_def broker_new_def notify_waiters_def)
  have "broker_step\<^sup>*\<^sup>* ?i (sample_broker False)" using 1 2 3 4
    by (meson converse_rtranclp_into_rtranclp rtranclp.rtrancl_refl)
  then show ?thesis using 5 by (cases a) (auto intro: rtranclp.rtrancl_into_rtrancl)
qed

theorem platform_requests_safe_witness:
  "outstanding (by_broker (sample_broker True)) \<le> 4 \<and> distinct (map rs_request_id (by_answers (sample_broker True)))
   \<and> set (map rs_request_id (by_answers (sample_broker True))) \<subseteq> set (map pr_request_id (by_drained (sample_broker True)))"
  using platform_requests_safe [OF sample_broker_reachable [of True]]
  by (simp add: sample_broker_def broker_new_def MAX_PLATFORM_REQUESTS_def)

text \<open>
  The future a waiting task sleeps on is created after the look for the response: when the response
  arrives in between, the task falls asleep although its answer is there, and only another response,
  a cancellation or the timeout ends the sleep.
\<close>
theorem response_can_go_unnoticed:
  "\<exists>y. broker_step\<^sup>*\<^sup>* (broker_init 4) y \<and> map_of (by_waits y) ''r1'' = Some WaitAsleep
     \<and> map_of (bk_responses (by_broker y)) ''r1'' = Some sample_response
     \<and> (\<forall>y'. broker_step y y' \<and> by_answers y' = by_answers y \<longrightarrow>
          map_of (by_waits y') ''r1'' \<in> {Some WaitAsleep, Some (WaitDone (Inl PortCancelled)), Some (WaitDone (Inl PortTimeout))})"
proof -
  define y where "y = (sample_broker True)\<lparr>by_waits := [(''r1'', WaitAsleep)]\<rparr>"
  have "broker_step (sample_broker True) y"
    using broker_step.wait_armed [of "sample_broker True" "''r1''"] by (simp add: y_def sample_broker_def)
  then have r: "broker_step\<^sup>*\<^sup>* (broker_init 4) y"
    using sample_broker_reachable [of True] by (rule rtranclp.rtrancl_into_rtrancl [rotated])
  have w: "by_waits y = [(''r1'', WaitAsleep)]" by (simp add: y_def)
  have "map_of (by_waits y') ''r1'' \<in> {Some WaitAsleep, Some (WaitDone (Inl PortCancelled)), Some (WaitDone (Inl PortTimeout))}"
    if "broker_step y y'" "by_answers y' = by_answers y" for y'
    using that w by (cases rule: broker_step.cases) (auto split: if_splits)
  then show ?thesis using r w by (intro exI [of _ y]) (simp add: y_def sample_broker_def)
qed

end
