(* ===== verification/Model_Registry.thy ===== *)
theory Model_Registry
  imports Mukei_Prelude
begin

text \<open>
  The catalogue of downloadable models (\<open>engine/model_registry.rs\<close>): identifiers with their
  deprecated aliases, the descriptors and the choice for a device.
\<close>

datatype ModelId = Gemma4E2bIt | Gemma4E4bIt

fun model_id_as_str :: "ModelId \<Rightarrow> string" where
  "model_id_as_str Gemma4E2bIt = ''gemma-4-e2b-it''"
| "model_id_as_str Gemma4E4bIt = ''gemma-4-e4b-it''"

definition model_from_id :: "string \<Rightarrow> ModelId option" where
  "model_from_id s =
     (if s = ''gemma-4-e2b-it'' \<or> s = ''gemma-3n-e2b-it'' then Some Gemma4E2bIt
      else if s = ''gemma-4-e4b-it'' \<or> s = ''gemma-3n-e4b-it'' then Some Gemma4E4bIt
      else None)"

record ModelDescriptor =
  md_id :: ModelId
  md_display_name :: string
  md_description :: string
  md_download_url :: string
  md_expected_sha256 :: string
  md_approximate_bytes :: nat
  md_min_device_ram_mib :: nat
  md_recommended_n_ctx :: nat
  md_filename :: string

definition MODELS :: "ModelDescriptor list" where
  "MODELS =
     [\<lparr>md_id = Gemma4E2bIt, md_display_name = ''Gemma 4 E2B Instruct (Q4_K_M)'',
       md_description = ''2B effective-parameter Gemma 4, instruction-tuned. Recommended for phones with 4-6 GB RAM (Snapdragon 7xx-class, mid-tier MediaTek).'',
       md_download_url = ''https://huggingface.co/bartowski/google_gemma-4-E2B-it-GGUF/resolve/b5e99bd964eaacc27ba484bb2eb3e9f6160b9143/google_gemma-4-E2B-it-Q4_K_M.gguf?download=true'',
       md_expected_sha256 = ''b5310340b3a23d31655d7119d100d5df1b2d8ee17b3ca8b0a23ad7e9eb5fa705'',
       md_approximate_bytes = 3462678272, md_min_device_ram_mib = 4096, md_recommended_n_ctx = 4096,
       md_filename = ''google_gemma-4-E2B-it-Q4_K_M.gguf''\<rparr>,
      \<lparr>md_id = Gemma4E4bIt, md_display_name = ''Gemma 4 E4B Instruct (Q4_K_M)'',
       md_description = ''4B effective-parameter Gemma 4, instruction-tuned. Recommended for phones with 8+ GB RAM (Snapdragon 8 Gen 2+, flagship Tensor / Dimensity).'',
       md_download_url = ''https://huggingface.co/bartowski/google_gemma-4-E4B-it-GGUF/resolve/c04cb322fd63e347db759a08b6249b867488ccf8/google_gemma-4-E4B-it-Q4_K_M.gguf?download=true'',
       md_expected_sha256 = ''51865750adafd22de56994a343d5a887cc1a589b9bae41d62b748c8bd0ca9c76'',
       md_approximate_bytes = 5405168384, md_min_device_ram_mib = 7168, md_recommended_n_ctx = 8192,
       md_filename = ''google_gemma-4-E4B-it-Q4_K_M.gguf''\<rparr>]"

definition lookup_model :: "ModelId \<Rightarrow> ModelDescriptor option" where
  "lookup_model i = find (\<lambda>m. md_id m = i) MODELS"

definition lookup_model_str :: "string \<Rightarrow> ModelDescriptor option" where
  "lookup_model_str s = Option.bind (model_from_id s) lookup_model"

definition recommended_for_device :: "nat \<Rightarrow> ModelDescriptor option" where
  "recommended_for_device total_ram_mib =
     (case lookup_model Gemma4E4bIt of
        None \<Rightarrow> None
      | Some e4b \<Rightarrow> if total_ram_mib \<ge> md_min_device_ram_mib e4b then Some e4b else lookup_model Gemma4E2bIt)"

text \<open>The catalogue is exhaustive: the lookup never fails, so the assertion in the code never fires.\<close>
lemma lookup_model_total: "\<exists>d. lookup_model i = Some d \<and> md_id d = i"
  by (cases i) (simp_all add: lookup_model_def MODELS_def)

lemma lookup_model_known [simp]: "lookup_model i \<noteq> None"
  using lookup_model_total [of i] by auto

lemma model_id_roundtrip [simp]: "model_from_id (model_id_as_str i) = Some i"
  by (cases i) (simp_all add: model_from_id_def)

lemma recommended_fits:
  "4096 \<le> ram \<Longrightarrow> \<exists>d. recommended_for_device ram = Some d \<and> md_min_device_ram_mib d \<le> ram"
  by (simp add: recommended_for_device_def lookup_model_def MODELS_def)

text \<open>A deprecated alias denotes the same file as the current identifier.\<close>
lemma alias_same_descriptor: "lookup_model_str ''gemma-3n-e2b-it'' = lookup_model_str ''gemma-4-e2b-it''"
  by (simp add: lookup_model_str_def model_from_id_def)

end
