(* ===== verification/Model_Download.thy ===== *)
theory Model_Download
  imports Complex_Main Network_Policy Storage_Quota Json_Model
begin

text \<open>
  The on-device model downloader (\<open>storage/model_download.rs\<close>): the request and its validation, the
  verification of a file against its SHA-256 digest, and the resumable download that installs a
  file only after its digest matched.

  SHA-256 is the function \<open>sha\<close> from bytes to the digest's bytes; a hasher is the bytes it was fed so far, since
  the digest of a sequence of updates is that of their concatenation. The file system maps a path to
  the contents of the regular file there; what the operating system, the server and the user do
  (failures, short reads, responses, chunks, cancellation) is an environment. A write takes effect
  when it is made, a failed one may leave a part of its bytes.
\<close>

section \<open>Paths\<close>

text \<open>A \<open>PathBuf\<close> as its components.\<close>
datatype component = CurDir | ParentDir | Normal string

record path =
  absolute :: bool
  components :: "component list"

type_synonym fs = "path \<Rightarrow> string option"

definition file_name :: "path \<Rightarrow> string option" where
  "file_name p =
     (if components p = [] then None
      else case last (components p) of Normal n \<Rightarrow> Some n | _ \<Rightarrow> None)"

definition parent :: "path \<Rightarrow> path option" where
  "parent p = (if components p = [] then None else Some (p\<lparr>components := butlast (components p)\<rparr>))"

definition set_file_name :: "path \<Rightarrow> string \<Rightarrow> path" where
  "set_file_name p n =
     p\<lparr>components := (if file_name p = None then components p else butlast (components p)) @ [Normal n]\<rparr>"

definition path_is_empty :: "path \<Rightarrow> bool" where
  "path_is_empty p \<longleftrightarrow> \<not> absolute p \<and> components p = []"

section \<open>Requests\<close>

datatype DownloadEvent =
    Started "u64 option"
  | Progress real u64
  | CompleteEvent path
  | ErrorEvent string string

record DownloadRequest =
  rq_url :: string
  rq_expected_sha256 :: string
  rq_dest :: path

definition partial_path :: "DownloadRequest \<Rightarrow> path" where
  "partial_path req =
     (let p = rq_dest req;
          name = (case file_name p of Some n \<Rightarrow> n | None \<Rightarrow> ''model.gguf'')
      in set_file_name p (name @ ''.partial''))"

definition is_ascii_hexdigit :: "char \<Rightarrow> bool" where
  "is_ascii_hexdigit c \<longleftrightarrow>
     (48 \<le> code c \<and> code c \<le> 57) \<or> (65 \<le> code c \<and> code c \<le> 70) \<or> (97 \<le> code c \<and> code c \<le> 102)"

definition request_validate :: "DownloadRequest \<Rightarrow> unit result" where
  "request_validate req =
     (if trim (rq_url req) = [] then Inl (ToolArgumentInvalid ''url'' ''empty download url'')
      else if \<not> starts_with ''https://'' (rq_url req)
      then Inl (ToolArgumentInvalid ''url'' ''model URL must use https:// (no plaintext over the air)'')
      else if length (rq_expected_sha256 req) \<noteq> 64 \<or> \<not> list_all is_ascii_hexdigit (rq_expected_sha256 req)
      then Inl (ToolArgumentInvalid ''sha256'' ''expected 64-char hex SHA-256'')
      else if path_is_empty (rq_dest req) then Inl (ToolArgumentInvalid ''dest'' ''destination path is empty'')
      else Inr ())"

section \<open>Digests\<close>

text \<open>A byte as a machine integer.\<close>
definition byte :: "char \<Rightarrow> u8" where
  "byte c = of_nat (code c)"

definition hex_encode :: "string \<Rightarrow> string" where
  "hex_encode bytes =
     concat (map (\<lambda>b. [''0123456789abcdef'' ! unat (drop_bit 4 (byte b)),
                       ''0123456789abcdef'' ! unat (byte b AND 0xf)]) bytes)"

definition ct_eq_ascii_lower :: "string \<Rightarrow> string \<Rightarrow> bool" where
  "ct_eq_ascii_lower a b =
     (if length a \<noteq> length b then False
      else fold (\<lambda>(x, y) acc. acc OR (byte x XOR byte y)) (zip a b) (0 :: u8) = 0)"

text \<open>
  Successive reads of a file: read \<open>k\<close> fails with a message, or returns at least one and at most
  \<open>want\<close> of the bytes left, possibly fewer than asked for.
\<close>
record reader =
  rd_fault :: "nat \<Rightarrow> string option"
  rd_short :: "nat \<Rightarrow> nat"

definition file_read :: "reader \<Rightarrow> nat \<Rightarrow> string \<Rightarrow> nat \<Rightarrow> nat \<Rightarrow> string + string" where
  "file_read rd k content pos want =
     (case rd_fault rd k of
        Some e \<Rightarrow> Inl e
      | None \<Rightarrow> Inr (take (min want (Suc (rd_short rd k))) (drop pos content)))"

definition READ_BUFFER :: nat where
  "READ_BUFFER = 1024 * 1024"

lemma file_read_advances:
  "file_read rd k content pos want = Inr (c # cs) \<Longrightarrow> pos < length content \<and> pos + length (c # cs) \<le> length content"
proof -
  assume "file_read rd k content pos want = Inr (c # cs)"
  then have eq: "c # cs = take (min want (Suc (rd_short rd k))) (drop pos content)"
    by (auto simp: file_read_def split: option.splits)
  have "length (c # cs) \<le> length content - pos" unfolding eq by simp
  then have "Suc (length cs) \<le> length content - pos" by simp
  then show ?thesis unfolding list.size by linarith
qed

function hash_loop :: "reader \<Rightarrow> string \<Rightarrow> nat \<Rightarrow> nat \<Rightarrow> string \<Rightarrow> string result" where
  "hash_loop rd content k pos hasher =
     (case file_read rd k content pos READ_BUFFER of
        Inl e \<Rightarrow> Inl (Io (''read for hash: '' @ e))
      | Inr [] \<Rightarrow> Inr hasher
      | Inr (c # cs) \<Rightarrow> hash_loop rd content (Suc k) (pos + length (c # cs)) (hasher @ (c # cs)))"
  by pat_completeness auto
termination
  by (relation "measure (\<lambda>(rd, content, k, pos, hasher). length content - pos)")
     (auto dest!: file_read_advances)

declare hash_loop.simps [simp del]

text \<open>\<open>opened\<close> is what opening the file gives: its contents or an error.\<close>
definition verify_file_sha256 :: "(string \<Rightarrow> string) \<Rightarrow> reader \<Rightarrow> string + string \<Rightarrow> string \<Rightarrow> unit result" where
  "verify_file_sha256 sha rd opened expected_hex =
     (case opened of
        Inl e \<Rightarrow> Inl (Io (''open for hash: '' @ e))
      | Inr content \<Rightarrow>
          (case hash_loop rd content 0 0 [] of
             Inl e \<Rightarrow> Inl e
           | Inr hasher \<Rightarrow>
               if \<not> ct_eq_ascii_lower (hex_encode (sha hasher)) (to_ascii_lowercase expected_hex)
               then Inl DownloadHashMismatch else Inr ()))"

section \<open>The download\<close>

text \<open>
  One poll of the response body: whether the user has cancelled by then, the chunk or the error of the
  stream, and how the write of the chunk ends (\<open>Some (n, e)\<close>: it fails with \<open>e\<close> after \<open>n\<close> bytes).
\<close>
record stream_item =
  si_cancelled :: bool
  si_chunk :: "reqwest_error + string"
  si_write :: "(nat \<times> string) option"

record http_response =
  hr_status :: u16
  hr_content_length :: "u64 option"
  hr_stream :: "stream_item list"

record download_env =
  de_mkdir_fault :: "string option"
  de_metadata_fault :: bool
  de_client_fault :: "MukeiError option"
  de_first :: "nat \<Rightarrow> (reqwest_error + http_response) io"
  de_first_sleep :: "nat \<Rightarrow> unit io"
  de_remove_fault :: "string option"
  de_second :: "nat \<Rightarrow> (reqwest_error + http_response) io"
  de_second_sleep :: "nat \<Rightarrow> unit io"
  de_subsec :: "nat \<Rightarrow> u64"
  de_usage :: "fs \<Rightarrow> StorageUsage result"
  de_cleanup_fails :: bool
  de_open_fault :: "string option"
  de_seek_fault :: "string option"
  de_reopen_fault :: "string option"
  de_reader :: reader
  de_flush_fault :: "string option"
  de_rename_fault :: "string option"

definition is_success :: "u16 \<Rightarrow> bool" where
  "is_success status \<longleftrightarrow> 200 \<le> status \<and> status \<le> 299"

text \<open>A request under the retry policy of downloads.\<close>
definition send_download ::
  "(u16 \<Rightarrow> string) \<Rightarrow> (nat \<Rightarrow> u64) \<Rightarrow> string \<Rightarrow> (u16 \<Rightarrow> bool) \<Rightarrow> (nat \<Rightarrow> (reqwest_error + http_response) io)
     \<Rightarrow> (nat \<Rightarrow> unit io) \<Rightarrow> http_response result option" where
  "send_download show_status subsec operation accept_status answers sleeps =
     snd (send_request_with_retry_cancellable
       \<lparr>rv_send = (\<lambda>i. case answers i of
           IoCancelled \<Rightarrow> IoCancelled
         | IoDone (Inl e) \<Rightarrow> IoDone (Inl e)
         | IoDone (Inr r) \<Rightarrow> IoDone (Inr (hr_status r, r))),
        rv_sleep = sleeps, rv_subsec = subsec\<rparr> show_status operation model_download_retry accept_status)"

type_synonym download_run = "fs \<times> DownloadEvent list \<times> unit result"

definition error_event :: "MukeiError \<Rightarrow> DownloadEvent" where
  "error_event e = ErrorEvent (error_code e) (to_string e)"

text \<open>\<open>let _ = remove_file(&partial)\<close>: a failure is ignored.\<close>
definition cleanup :: "download_env \<Rightarrow> path \<Rightarrow> fs \<Rightarrow> fs" where
  "cleanup env p fs = (if de_cleanup_fails env then fs else fs(p := None))"

text \<open>
  Division of two \<open>u64\<close> values as \<open>f64\<close>: the nearest value with 53 significant bits, ties to even. All values
  that occur are in the normal range.
\<close>
definition f64_round :: "real \<Rightarrow> real" where
  "f64_round x =
     (if x = 0 then 0
      else let ulp = 2 powi (\<lfloor>log 2 \<bar>x\<bar>\<rfloor> - 52); q = \<lfloor>x / ulp\<rfloor>; r = x / ulp - of_int q in
           of_int (if r < 1 / 2 \<or> r = 1 / 2 \<and> even q then q else q + 1) * ulp)"

definition f64_ratio :: "u64 \<Rightarrow> u64 \<Rightarrow> real" where
  "f64_ratio a b = f64_round (f64_round (real (unat a)) / f64_round (real (unat b)))"

definition progress_tick :: "u64 \<Rightarrow> u64 \<Rightarrow> real \<Rightarrow> real \<times> DownloadEvent list" where
  "progress_tick total_bytes downloaded last_emit_pct =
     (if total_bytes > 0 then
        let pct = f64_ratio downloaded total_bytes in
        if f64_round (pct - last_emit_pct) \<ge> f64_round (5 / 1000) \<or> pct \<ge> 1
        then (pct, [Progress (max 0 (min 1 pct)) downloaded])
        else (last_emit_pct, [])
      else (last_emit_pct, []))"

text \<open>Writing at an offset of a file, which may end before or behind the written bytes.\<close>
definition write_at :: "nat \<Rightarrow> string \<Rightarrow> string \<Rightarrow> string" where
  "write_at pos bytes content = take pos content @ bytes @ drop (pos + length bytes) content"

definition write_partial :: "path \<Rightarrow> nat \<Rightarrow> string \<Rightarrow> fs \<Rightarrow> fs" where
  "write_partial p pos bytes fs = fs(p := map_option (write_at pos bytes) (fs p))"

text \<open>The loop over the response body; a success carries the hasher.\<close>
fun stream_loop ::
  "(u16 \<Rightarrow> string) \<Rightarrow> download_env \<Rightarrow> path \<Rightarrow> u64 \<Rightarrow> stream_item list \<Rightarrow> fs \<Rightarrow> nat \<Rightarrow> string \<Rightarrow> u64 \<Rightarrow> real
     \<Rightarrow> fs \<times> DownloadEvent list \<times> string result" where
  "stream_loop show_status env p total_bytes [] fs pos hasher downloaded last_emit_pct = (fs, [], Inr hasher)"
| "stream_loop show_status env p total_bytes (item # items) fs pos hasher downloaded last_emit_pct =
     (if si_cancelled item
      then (fs, [ErrorEvent ''ERR_CANCELLED'' ''user cancelled download''], Inl Cancelled)
      else case si_chunk item of
        Inl e \<Rightarrow> (fs, [], Inl (map_reqwest_error show_status ''model download stream'' e))
      | Inr bytes \<Rightarrow>
          (case si_write item of
             Some (n, e) \<Rightarrow> (write_partial p pos (take n bytes) fs, [], Inl (Io (''write partial: '' @ e)))
           | None \<Rightarrow>
               let fs = write_partial p pos bytes fs;
                   downloaded = saturating_add downloaded (of_nat (length bytes)) in
               if downloaded > MAX_MODEL_DOWNLOAD_BYTES then
                 let err = DownloadTooLarge MAX_MODEL_DOWNLOAD_BYTES downloaded in
                 (cleanup env p fs, [error_event err], Inl err)
               else
                 (case progress_tick total_bytes downloaded last_emit_pct of (last_emit_pct, ticks) \<Rightarrow>
                  case stream_loop show_status env p total_bytes items fs (pos + length bytes)
                         (hasher @ bytes) downloaded last_emit_pct of
                    (fs, evs, r) \<Rightarrow> (fs, ticks @ evs, r))))"

text \<open>Replaying the bytes already on disk into the hasher.\<close>
function prefix_loop :: "reader \<Rightarrow> string \<Rightarrow> nat \<Rightarrow> nat \<Rightarrow> nat \<Rightarrow> string \<Rightarrow> string result" where
  "prefix_loop rd content k pos remaining hasher =
     (if remaining = 0 then Inr hasher
      else case file_read rd k content pos (min READ_BUFFER remaining) of
        Inl e \<Rightarrow> Inl (Io (''hash prefix read: '' @ e))
      | Inr [] \<Rightarrow> Inr hasher
      | Inr (c # cs) \<Rightarrow>
          prefix_loop rd content (Suc k) (pos + length (c # cs)) (remaining - length (c # cs)) (hasher @ (c # cs)))"
  by pat_completeness auto
termination
  by (relation "measure (\<lambda>(rd, content, k, pos, remaining, hasher). length content - pos)")
     (auto dest!: file_read_advances)

declare prefix_loop.simps [simp del]

text \<open>From the end of the body on: flush, compare the digest, rename.\<close>
definition finish_download ::
  "(string \<Rightarrow> string) \<Rightarrow> download_env \<Rightarrow> DownloadRequest \<Rightarrow> string \<Rightarrow> fs \<Rightarrow> download_run" where
  "finish_download sha env req hasher fs =
     (let partial = partial_path req in
      case de_flush_fault env of
        Some e \<Rightarrow> (fs, [], Inl (Io (''flush partial: '' @ e)))
      | None \<Rightarrow>
          let got_hex = hex_encode (sha hasher) in
          if \<not> ct_eq_ascii_lower got_hex (to_ascii_lowercase (rq_expected_sha256 req))
          then (cleanup env partial fs,
                [ErrorEvent ''ERR_DOWNLOAD_HASH''
                   (''expected '' @ rq_expected_sha256 req @ '' but computed '' @ got_hex)],
                Inl DownloadHashMismatch)
          else case de_rename_fault env of
            Some e \<Rightarrow> (fs, [], Inl (Io (''rename partial: '' @ e)))
          | None \<Rightarrow> (fs(rq_dest req := fs partial, partial := None), [CompleteEvent (rq_dest req)], Inr ()))"

text \<open>The hasher before the body: when resuming, the bytes on disk are replayed into it.\<close>
definition replay :: "download_env \<Rightarrow> u64 \<Rightarrow> string \<Rightarrow> string result" where
  "replay env n c =
     (if n > 0 then
        (case de_reopen_fault env of
           Some e \<Rightarrow> Inl (Io (''reopen partial for hash: '' @ e))
         | None \<Rightarrow> prefix_loop (de_reader env) c 0 0 (unat n) [])
      else Inr [])"

text \<open>From the opening of the partial file on, for a body that continues at \<open>resume_from\<close>.\<close>
definition receive_body ::
  "(string \<Rightarrow> string) \<Rightarrow> (u16 \<Rightarrow> string) \<Rightarrow> download_env \<Rightarrow> DownloadRequest \<Rightarrow> u64 \<Rightarrow> u64 \<Rightarrow> stream_item list \<Rightarrow> fs
     \<Rightarrow> download_run" where
  "receive_body sha show_status env req resume_from total_bytes items fs =
     (let partial = partial_path req in
      case de_open_fault env of
        Some e \<Rightarrow> (fs, [], Inl (Io (''open partial: '' @ e)))
      | None \<Rightarrow>
          let fs = fs(partial := Some (if resume_from = 0 then [] else case fs partial of Some c \<Rightarrow> c | None \<Rightarrow> [])) in
          (case de_seek_fault env of
             Some e \<Rightarrow> (fs, [], Inl (Io (''seek partial: '' @ e)))
           | None \<Rightarrow>
               (case replay env resume_from (the (fs partial)) of
                  Inl err \<Rightarrow> (fs, [], Inl err)
                | Inr hasher \<Rightarrow>
                    (case stream_loop show_status env partial total_bytes items fs (unat resume_from)
                            hasher resume_from 0 of
                       (fs, evs, Inl err) \<Rightarrow> (fs, evs, Inl err)
                     | (fs, evs, Inr hasher) \<Rightarrow>
                         (case finish_download sha env req hasher fs of
                            (fs, evs', r) \<Rightarrow> (fs, evs @ evs', r))))))"

definition refuse_download :: "download_env \<Rightarrow> DownloadRequest \<Rightarrow> MukeiError \<Rightarrow> fs \<Rightarrow> download_run" where
  "refuse_download env req err fs = (cleanup env (partial_path req) fs, [error_event err], Inl err)"

text \<open>From an accepted response on: its size, the quota, the body.\<close>
definition accept_response ::
  "(string \<Rightarrow> string) \<Rightarrow> (u16 \<Rightarrow> string) \<Rightarrow> download_env \<Rightarrow> DownloadRequest \<Rightarrow> u64 \<Rightarrow> http_response \<Rightarrow> fs
     \<Rightarrow> download_run" where
  "accept_response sha show_status env req resume_from resp fs =
     (case hr_content_length resp of
        None \<Rightarrow> refuse_download env req DownloadSizeMissing fs
      | Some remaining_bytes \<Rightarrow>
          let total_bytes = saturating_add remaining_bytes resume_from in
          if total_bytes > MAX_MODEL_DOWNLOAD_BYTES
          then refuse_download env req (DownloadTooLarge MAX_MODEL_DOWNLOAD_BYTES total_bytes) fs
          else
            (case (if parent (rq_dest req) = None then Inr ()
                   else case ensure_model_download_allowed_with_additional default_quota_policy
                               (de_usage env fs) total_bytes remaining_bytes of
                          Inl err \<Rightarrow> Inl err | Inr _ \<Rightarrow> Inr ()) of
               Inl err \<Rightarrow> refuse_download env req err fs
             | Inr _ \<Rightarrow>
                 (case receive_body sha show_status env req resume_from total_bytes (hr_stream resp) fs of
                    (fs, evs, r) \<Rightarrow> (fs, Started (Some total_bytes) # evs, r))))"

text \<open>The byte count of the partial file, where it can be read.\<close>
definition resume_point :: "download_env \<Rightarrow> fs \<Rightarrow> path \<Rightarrow> u64" where
  "resume_point env fs p =
     (if de_metadata_fault env then 0 else case fs p of Some c \<Rightarrow> of_nat (length c) | None \<Rightarrow> 0)"

text \<open>
  The restart from byte 0. \<open>None\<close> would be a panic in the backoff of the retry loop. The request is only
  accepted with a successful status, so the check after it never fires; it is kept.
\<close>
definition restart_download ::
  "(string \<Rightarrow> string) \<Rightarrow> (u16 \<Rightarrow> string) \<Rightarrow> download_env \<Rightarrow> DownloadRequest \<Rightarrow> fs \<Rightarrow> download_run option" where
  "restart_download sha show_status env req fs =
     (case de_remove_fault env of
        Some e \<Rightarrow> Some (fs, [], Inl (Io (''rm partial for restart: '' @ e)))
      | None \<Rightarrow>
          let fs = fs(partial_path req := None) in
          (case send_download show_status (de_subsec env) ''model download restart''
                  is_success (de_second env) (de_second_sleep env) of
             None \<Rightarrow> None
           | Some (Inl err) \<Rightarrow> Some (fs, [], Inl err)
           | Some (Inr resp) \<Rightarrow>
               if \<not> is_success (hr_status resp) then
                 let err = http_status_error show_status ''model download restart'' (hr_status resp)
                 in Some (fs, [error_event err], Inl err)
               else Some (accept_response sha show_status env req 0 resp fs)))"

definition on_first_response ::
  "(string \<Rightarrow> string) \<Rightarrow> (u16 \<Rightarrow> string) \<Rightarrow> download_env \<Rightarrow> DownloadRequest \<Rightarrow> u64 \<Rightarrow> http_response \<Rightarrow> fs
     \<Rightarrow> download_run option" where
  "on_first_response sha show_status env req resume_from resp fs =
     (if resume_from > 0 \<and> (hr_status resp = 200 \<or> hr_status resp = 416)
      then restart_download sha show_status env req fs
      else if \<not> is_success (hr_status resp) then
        let err = http_status_error show_status ''model download'' (hr_status resp)
        in Some (fs, [error_event err], Inl err)
      else Some (accept_response sha show_status env req resume_from resp fs))"

definition run_download_unchecked ::
  "(string \<Rightarrow> string) \<Rightarrow> (u16 \<Rightarrow> string) \<Rightarrow> download_env \<Rightarrow> DownloadRequest \<Rightarrow> fs \<Rightarrow> download_run option" where
  "run_download_unchecked sha show_status env req fs =
     (case (case parent (rq_dest req) of
              Some p \<Rightarrow> if \<not> path_is_empty p then de_mkdir_fault env else None
            | None \<Rightarrow> None) of
        Some e \<Rightarrow> Some (fs, [], Inl (Io (''mkdir parent: '' @ e)))
      | None \<Rightarrow>
          (case de_client_fault env of
             Some err \<Rightarrow> Some (fs, [], Inl err)
           | None \<Rightarrow>
               (case send_download show_status (de_subsec env) ''model download''
                       (\<lambda>status. is_success status \<or> status = 416) (de_first env) (de_first_sleep env) of
                  None \<Rightarrow> None
                | Some (Inl err) \<Rightarrow> Some (fs, [], Inl err)
                | Some (Inr resp) \<Rightarrow>
                    on_first_response sha show_status env req (resume_point env fs (partial_path req)) resp fs)))"

definition run_download ::
  "(string \<Rightarrow> string) \<Rightarrow> (u16 \<Rightarrow> string) \<Rightarrow> download_env \<Rightarrow> DownloadRequest \<Rightarrow> fs \<Rightarrow> download_run option" where
  "run_download sha show_status env req fs =
     (case request_validate req of
        Inl e \<Rightarrow> Some (fs, [], Inl e)
      | Inr _ \<Rightarrow> run_download_unchecked sha show_status env req fs)"

section \<open>Comparing digests\<close>

lemma byte_eq_iff: "byte c = byte d \<longleftrightarrow> c = d"
proof
  assume "byte c = byte d"
  then have "unat (byte c) = unat (byte d)" by simp
  then have "code c = code d" using code_lt [of c] code_lt [of d] by (simp add: byte_def unat_of_nat)
  then show "c = d" by (rule code_inject)
qed simp

lemma xor_zero_iff: "a XOR b = 0 \<longleftrightarrow> a = (b :: u8)"
proof
  assume "a XOR b = 0"
  then have "(a XOR b) XOR b = b" by simp
  then show "a = b" by (simp add: xor.assoc)
qed simp

lemma ct_fold_zero:
  "fold (\<lambda>(x, y) acc. acc OR (byte x XOR byte y)) zs acc = 0 \<longleftrightarrow> acc = 0 \<and> list_all (\<lambda>(x, y). x = y) zs"
proof (induction zs arbitrary: acc)
  case (Cons z zs)
  then show ?case by (cases z) (simp add: or_eq_0_iff xor_zero_iff byte_eq_iff)
qed simp

lemma zip_all_eq: "length a = length b \<Longrightarrow> list_all (\<lambda>(x, y). x = y) (zip a b) \<longleftrightarrow> a = b"
  by (induction a b rule: list_induct2) auto

lemma ct_eq_iff [simp]: "ct_eq_ascii_lower a b \<longleftrightarrow> a = b"
  by (auto simp: ct_eq_ascii_lower_def ct_fold_zero zip_all_eq)

lemma hex_encode_hex_lower [simp]: "hex_encode s = hex_lower s"
proof (induction s)
  case (Cons b s)
  have "unat (drop_bit 4 (byte b)) = code b div 16"
    using code_lt [of b] by (simp add: byte_def unsigned_drop_bit_eq unat_of_nat drop_bit_eq_div unat_div)
  moreover have "code b AND 15 = code b mod 16"
    using take_bit_eq_mask [of 4 "code b"] by (simp add: mask_eq_exp_minus_1 take_bit_eq_mod)
  then have "unat (byte b AND 0xf) = code b mod 16"
    using code_lt [of b] by (simp add: byte_def unsigned_and_eq unat_of_nat)
  ultimately show ?case using Cons by (simp add: hex_encode_def hex_digit_def)
qed (simp add: hex_encode_def)

section \<open>Reading\<close>

lemma file_read_data:
  assumes "file_read rd k content pos want = Inr bs"
  shows "bs @ drop (pos + length bs) content = drop pos content"
proof -
  have "bs = take (min want (Suc (rd_short rd k))) (drop pos content)"
    using assms by (auto simp: file_read_def split: option.splits)
  then show ?thesis by (metis append_take_drop_id drop_drop length_take add.commute take_all_iff
        append_eq_conv_conj min_def nle_le)
qed

lemma hash_loop_result:
  "hash_loop rd content k pos hasher = Inr (hasher @ drop pos content)
   \<or> (\<exists>i e. rd_fault rd i = Some e \<and> hash_loop rd content k pos hasher = Inl (Io (''read for hash: '' @ e)))"
proof (induction rd content k pos hasher rule: hash_loop.induct)
  case (1 rd content k pos hasher)
  show ?case
  proof (cases "file_read rd k content pos READ_BUFFER")
    case (Inl e)
    then have "rd_fault rd k = Some e" by (auto simp: file_read_def split: option.splits)
    with Inl show ?thesis by (subst (1 2) hash_loop.simps) auto
  next
    case (Inr bs)
    show ?thesis
    proof (cases bs)
      case Nil
      then have "drop pos content = []"
        using Inr by (auto simp: file_read_def READ_BUFFER_def split: option.splits)
      with Inr Nil show ?thesis by (subst hash_loop.simps) simp
    next
      case (Cons c cs)
      with 1 [OF Inr Cons] file_read_data [OF Inr] Inr show ?thesis
        by (subst (1 2) hash_loop.simps) auto
    qed
  qed
qed

lemma prefix_loop_result:
  "prefix_loop rd content k pos remaining hasher = Inr (hasher @ take remaining (drop pos content))
   \<or> (\<exists>i e. rd_fault rd i = Some e
        \<and> prefix_loop rd content k pos remaining hasher = Inl (Io (''hash prefix read: '' @ e)))"
proof (induction rd content k pos remaining hasher rule: prefix_loop.induct)
  case (1 rd content k pos remaining hasher)
  show ?case
  proof (cases "remaining = 0")
    case True
    then show ?thesis by (subst prefix_loop.simps) simp
  next
    case more: False
    show ?thesis
    proof (cases "file_read rd k content pos (min READ_BUFFER remaining)")
      case (Inl e)
      then have "rd_fault rd k = Some e" by (auto simp: file_read_def split: option.splits)
      with more Inl show ?thesis by (subst (1 2) prefix_loop.simps) auto
    next
      case (Inr bs)
      have len: "length bs \<le> remaining" using Inr by (auto simp: file_read_def split: option.splits)
      show ?thesis
      proof (cases bs)
        case Nil
        then have "drop pos content = []"
          using Inr more by (auto simp: file_read_def READ_BUFFER_def split: option.splits)
        with more Inr Nil show ?thesis by (subst prefix_loop.simps) simp
      next
        case (Cons c cs)
        have "bs @ take (remaining - length bs) (drop (pos + length bs) content) = take remaining (drop pos content)"
          unfolding file_read_data [OF Inr, symmetric] using len by simp
        with 1 [OF more Inr Cons] more Inr Cons show ?thesis
          by (subst (1 2) prefix_loop.simps) auto
      qed
    qed
  qed
qed

text \<open>
  C24: Verifying a file compares the digest of its whole contents with the expected one, ignoring the
  case of the expected digest: the chunked reads of any size, the table-driven encoder and the
  constant-time comparison together decide exactly that equality. The only other outcome is the
  error of a read that failed.
\<close>
theorem verify_file_exact:
  "verify_file_sha256 sha rd (Inr content) expected_hex =
     (if hex_lower (sha content) = to_ascii_lowercase expected_hex then Inr () else Inl DownloadHashMismatch)
   \<or> (\<exists>k e. rd_fault rd k = Some e
        \<and> verify_file_sha256 sha rd (Inr content) expected_hex = Inl (Io (''read for hash: '' @ e)))"
  using hash_loop_result [of rd content 0 0 "[]"] by (auto simp: verify_file_sha256_def)

section \<open>What a download leaves behind\<close>

text \<open>Two file systems that differ at most in one file.\<close>
definition only_at :: "path \<Rightarrow> fs \<Rightarrow> fs \<Rightarrow> bool" where
  "only_at p fs fs' \<longleftrightarrow> (\<forall>q. q = p \<or> fs' q = fs q)"

lemma only_at_simps [simp]:
  "only_at p fs fs" "only_at p fs (fs(p := v))" "only_at p fs (write_partial p pos bytes fs)"
  "only_at p fs (cleanup env p fs)"
  by (simp_all add: only_at_def write_partial_def cleanup_def)

lemma only_at_trans: "only_at p fs fs' \<Longrightarrow> only_at p fs' fs'' \<Longrightarrow> only_at p fs fs''"
  unfolding only_at_def by metis

lemma only_atD: "only_at p fs fs' \<Longrightarrow> q \<noteq> p \<Longrightarrow> fs' q = fs q"
  by (auto simp: only_at_def)

lemma partial_ne_dest: "partial_path req \<noteq> rq_dest req"
proof
  assume eq: "partial_path req = rq_dest req"
  have "components (partial_path req) \<noteq> components (rq_dest req)"
  proof (cases "file_name (rq_dest req)")
    case None
    then show ?thesis by (simp add: partial_path_def set_file_name_def Let_def)
  next
    case (Some n)
    then have "last (components (rq_dest req)) = Normal n" "components (rq_dest req) \<noteq> []"
      by (auto simp: file_name_def split: if_splits component.splits)
    moreover have "last (components (partial_path req)) = Normal (n @ ''.partial'')"
      by (simp add: partial_path_def set_file_name_def Some Let_def)
    ultimately show ?thesis by auto
  qed
  with eq show False by simp
qed

fun terminal :: "DownloadEvent \<Rightarrow> bool" where
  "terminal (CompleteEvent p) = True"
| "terminal (ErrorEvent c m) = True"
| "terminal _ = False"

text \<open>The terminal events of a run that failed with the given error.\<close>
definition reports_at_most :: "MukeiError \<Rightarrow> DownloadEvent list \<Rightarrow> bool" where
  "reports_at_most e evs \<longleftrightarrow>
     filter terminal evs = [] \<or> (\<exists>m. filter terminal evs = [ErrorEvent (error_code e) m])"

text \<open>A run installs a verified file, or leaves the destination as it was; no third file changes.\<close>
definition run_safe :: "(string \<Rightarrow> string) \<Rightarrow> DownloadRequest \<Rightarrow> fs \<Rightarrow> download_run \<Rightarrow> bool" where
  "run_safe sha req fs run =
     (case run of (fs', evs, r) \<Rightarrow>
        (\<forall>q. q = rq_dest req \<or> q = partial_path req \<or> fs' q = fs q)
        \<and> (case r of
             Inl e \<Rightarrow> fs' (rq_dest req) = fs (rq_dest req) \<and> reports_at_most e evs
           | Inr _ \<Rightarrow> (\<exists>c. fs' (rq_dest req) = Some c
                 \<and> hex_lower (sha c) = to_ascii_lowercase (rq_expected_sha256 req))
               \<and> fs' (partial_path req) = None \<and> filter terminal evs = [CompleteEvent (rq_dest req)]))"

lemma reports_at_most_simps [simp]:
  "reports_at_most e []" "reports_at_most e [error_event e]"
  "reports_at_most e (Started n # evs) = reports_at_most e evs"
  by (simp_all add: reports_at_most_def error_event_def)

lemma progress_tick_quiet: "progress_tick t d l = (l', ticks) \<Longrightarrow> filter terminal ticks = []"
  by (auto simp: progress_tick_def Let_def split: if_splits)

lemma write_at_end: "write_at (length c) bytes c = c @ bytes"
  by (simp add: write_at_def)

text \<open>While the body arrives the partial file is what the hasher was fed.\<close>
lemma stream_loop_safe:
  assumes "stream_loop st env p t items fs pos hasher d l = (fs', evs, r)"
    and "fs p = Some hasher" and "pos = length hasher"
  shows "only_at p fs fs'
    \<and> (case r of Inl e \<Rightarrow> reports_at_most e evs | Inr h \<Rightarrow> fs' p = Some h \<and> filter terminal evs = [])"
  using assms
proof (induction st env p t items fs pos hasher d l arbitrary: fs' evs r rule: stream_loop.induct)
  case (2 st env p t item items fs pos hasher d l)
  show ?case
  proof (cases "si_cancelled item \<or> (\<exists>e. si_chunk item = Inl e) \<or> (\<exists>n. si_write item = Some n)")
    case True
    with "2.prems"(1) show ?thesis
      by (auto simp: reports_at_most_def split: sum.splits prod.splits if_splits)
  next
    case False
    then obtain bytes where ok: "\<not> si_cancelled item" "si_chunk item = Inr bytes" "si_write item = None"
      by (metis option.exhaust sum.exhaust)
    let ?fs = "write_partial p pos bytes fs"
    let ?d = "saturating_add d (of_nat (length bytes))"
    have data: "?fs p = Some (hasher @ bytes)"
      using "2.prems"(2,3) by (simp add: write_partial_def write_at_end)
    have frame: "only_at p fs ?fs" by simp
    show ?thesis
    proof (cases "?d > MAX_MODEL_DOWNLOAD_BYTES")
      case True
      with "2.prems"(1) ok frame show ?thesis
        by (auto simp: Let_def intro: only_at_trans [OF frame] split: if_splits)
    next
      case False
      obtain l' ticks where tick: "progress_tick t ?d l = (l', ticks)" by fastforce
      obtain fs2 evs2 r2 where rest:
        "stream_loop st env p t items ?fs (pos + length bytes) (hasher @ bytes) ?d l' = (fs2, evs2, r2)"
        by (metis prod_cases3)
      have "(fs', evs, r) = (fs2, ticks @ evs2, r2)"
        using "2.prems"(1) ok False tick rest by (simp add: Let_def)
      moreover have "only_at p ?fs fs2
          \<and> (case r2 of Inl e \<Rightarrow> reports_at_most e evs2 | Inr h \<Rightarrow> fs2 p = Some h \<and> filter terminal evs2 = [])"
        using "2.IH" [OF ok(1,2,3) refl refl False tick [symmetric] rest] data "2.prems"(3) by simp
      ultimately show ?thesis
        using only_at_trans [OF frame] progress_tick_quiet [OF tick]
        by (auto simp: reports_at_most_def split: sum.splits)
    qed
  qed
qed simp

lemma run_safe_failed:
  assumes "only_at (partial_path req) fs fs'" and "reports_at_most e evs"
  shows "run_safe sha req fs (fs', evs, Inl e)"
  using assms only_atD [OF assms(1), of "rq_dest req"] partial_ne_dest [of req]
  by (auto simp: run_safe_def only_at_def)

lemma refuse_safe: "run_safe sha req fs (refuse_download env req e fs)"
  by (simp add: refuse_download_def run_safe_failed)

lemma finish_download_safe:
  assumes "fs (partial_path req) = Some hasher" and frame: "only_at (partial_path req) fs0 fs"
  shows "run_safe sha req fs0 (finish_download sha env req hasher fs)"
proof -
  have ne: "partial_path req \<noteq> rq_dest req" by (rule partial_ne_dest)
  show ?thesis
  proof (cases "de_flush_fault env = None \<and> hex_lower (sha hasher) = to_ascii_lowercase (rq_expected_sha256 req)
      \<and> de_rename_fault env = None")
    case True
    then show ?thesis using assms ne by (auto simp: finish_download_def run_safe_def Let_def only_at_def)
  next
    case False
    then show ?thesis
      using frame only_at_trans [OF frame]
      by (auto simp: finish_download_def Let_def reports_at_most_def intro!: run_safe_failed split: option.splits)
  qed
qed

text \<open>The bytes on disk are as long as the resumed offset says.\<close>
definition resumes_at :: "fs \<Rightarrow> path \<Rightarrow> u64 \<Rightarrow> bool" where
  "resumes_at fs p n \<longleftrightarrow> n = 0 \<or> (\<exists>c. fs p = Some c \<and> unat n = length c)"

lemma prepend_quiet:
  "filter terminal evs = [] \<Longrightarrow> run_safe sha req fs0 (fs', evs', r) \<Longrightarrow> run_safe sha req fs0 (fs', evs @ evs', r)"
  by (auto simp: run_safe_def reports_at_most_def split: sum.splits)

lemma replay_content: "replay env n c = Inr h \<Longrightarrow> unat n = length c \<Longrightarrow> h = c"
  using prefix_loop_result [of "de_reader env" c 0 0 "unat n" "[]"]
  by (auto simp: replay_def word_neq_0_conv [symmetric] split: if_splits option.splits)

lemma receive_body_eq:
  assumes "(if n = 0 then [] else case fs (partial_path req) of Some c \<Rightarrow> c | None \<Rightarrow> []) = c"
  shows "receive_body sha st env req n t items fs =
    (case de_open_fault env of
       Some e \<Rightarrow> (fs, [], Inl (Io (''open partial: '' @ e)))
     | None \<Rightarrow>
         (case de_seek_fault env of
            Some e \<Rightarrow> (fs(partial_path req := Some c), [], Inl (Io (''seek partial: '' @ e)))
          | None \<Rightarrow>
              (case replay env n c of
                 Inl err \<Rightarrow> (fs(partial_path req := Some c), [], Inl err)
               | Inr h \<Rightarrow>
                   (case stream_loop st env (partial_path req) t items (fs(partial_path req := Some c)) (unat n) h n 0 of
                      (fs, evs, Inl err) \<Rightarrow> (fs, evs, Inl err)
                    | (fs, evs, Inr h) \<Rightarrow>
                        (case finish_download sha env req h fs of (fs, evs', r) \<Rightarrow> (fs, evs @ evs', r))))))"
  unfolding receive_body_def Let_def assms fun_upd_same option.sel by (rule refl)

lemma receive_body_safe:
  assumes "resumes_at fs (partial_path req) n"
  shows "run_safe sha req fs (receive_body sha st env req n t items fs)"
proof -
  let ?p = "partial_path req"
  obtain c where c: "(if n = 0 then [] else case fs ?p of Some c \<Rightarrow> c | None \<Rightarrow> []) = c" "unat n = length c"
    using assms by (cases "n = 0") (auto simp: resumes_at_def)
  let ?fs = "fs(?p := Some c)"
  note eq = receive_body_eq [where fs = fs and req = req, OF c(1)]
  show ?thesis
  proof (cases "de_open_fault env = None \<and> de_seek_fault env = None \<and> (\<exists>h. replay env n c = Inr h)")
    case False
    then show ?thesis unfolding eq by (auto intro!: run_safe_failed split: option.splits sum.splits)
  next
    case True
    then obtain h where h: "replay env n c = Inr h" by blast
    obtain fs2 evs2 r2 where body: "stream_loop st env ?p t items ?fs (unat n) h n 0 = (fs2, evs2, r2)"
      by (metis prod_cases3)
    have safe: "only_at ?p ?fs fs2
        \<and> (case r2 of Inl e \<Rightarrow> reports_at_most e evs2 | Inr h \<Rightarrow> fs2 ?p = Some h \<and> filter terminal evs2 = [])"
      using stream_loop_safe [OF body] replay_content [OF h c(2)] c(2) by simp
    then have frame: "only_at ?p fs fs2" using only_at_trans [of ?p fs ?fs fs2] by simp
    show ?thesis
    proof (cases r2)
      case (Inl e)
      then show ?thesis using safe frame True h body by (simp add: eq run_safe_failed)
    next
      case (Inr h2)
      obtain fs3 evs3 r3 where fin: "finish_download sha env req h2 fs2 = (fs3, evs3, r3)" by (metis prod_cases3)
      then have "run_safe sha req fs (fs3, evs3, r3)"
        using finish_download_safe [of fs2 req h2 fs sha env] safe frame Inr by simp
      then show ?thesis using True h body fin safe Inr prepend_quiet [of evs2] by (simp add: eq)
    qed
  qed
qed

lemma accept_response_safe:
  assumes "resumes_at fs (partial_path req) n"
  shows "run_safe sha req fs (accept_response sha st env req n resp fs)"
proof -
  have "run_safe sha req fs (fs', evs, r)
      \<Longrightarrow> run_safe sha req fs (fs', Started k # evs, r)" for fs' evs r k
    using prepend_quiet [of "[Started k]"] by simp
  then show ?thesis
    using receive_body_safe [OF assms] refuse_safe
    unfolding accept_response_def Let_def
    by (auto split: option.splits sum.splits prod.splits if_splits) (metis (full_types))+
qed

lemma download_retry_returns: "\<exists>r. send_download st sub op acc answers sleeps = Some r"
proof -
  have "rp_max_delay model_download_retry < 2 ^ 64 - 1" by (simp add: model_download_retry_def secs_def)
  then show ?thesis
    using retry_loop_ok [of 0 model_download_retry "\<lparr>rv_send = (\<lambda>i. case answers i of
           IoCancelled \<Rightarrow> IoCancelled | IoDone (Inl e) \<Rightarrow> IoDone (Inl e)
         | IoDone (Inr r) \<Rightarrow> IoDone (Inr (hr_status r, r))), rv_sleep = sleeps, rv_subsec = sub\<rparr>" acc st op]
    by (auto simp: send_download_def send_request_with_retry_cancellable_def retry_run_ok_def)
qed

text \<open>The length of a file is a \<open>u64\<close>.\<close>
definition length_fits :: "fs \<Rightarrow> path \<Rightarrow> bool" where
  "length_fits fs p = (case fs p of None \<Rightarrow> True | Some c \<Rightarrow> length c < 2 ^ 64)"

lemma resumes_at_point:
  assumes "length_fits fs p"
  shows "resumes_at fs p (resume_point env fs p)"
  using assms by (auto simp: length_fits_def resumes_at_def resume_point_def unat_of_nat split: option.splits)

lemma run_safe_dropped_partial:
  assumes "run_safe sha req (fs(partial_path req := None)) run"
  shows "run_safe sha req fs run"
proof -
  have "(fs(partial_path req := None)) (rq_dest req) = fs (rq_dest req)" using partial_ne_dest [of req] by simp
  moreover have "q = rq_dest req \<or> q = partial_path req \<or> (fs(partial_path req := None)) q = fs q" for q by simp
  ultimately show ?thesis
    using assms unfolding run_safe_def by (simp split: prod.splits sum.splits) (metis (no_types, lifting))+
qed

definition safe_outcome :: "(string \<Rightarrow> string) \<Rightarrow> DownloadRequest \<Rightarrow> fs \<Rightarrow> download_run option \<Rightarrow> bool" where
  "safe_outcome sha req fs out = (case out of None \<Rightarrow> False | Some run \<Rightarrow> run_safe sha req fs run)"

lemma safe_outcome_simps [simp]:
  "safe_outcome sha req fs None = False" "safe_outcome sha req fs (Some run) = run_safe sha req fs run"
  by (simp_all add: safe_outcome_def)

lemma restart_download_safe: "safe_outcome sha req fs (restart_download sha st env req fs)"
proof -
  have "resumes_at (fs(partial_path req := None)) (partial_path req) 0" by (simp add: resumes_at_def)
  note accepted = run_safe_dropped_partial [OF accept_response_safe [OF this]]
  obtain r where r: "send_download st (de_subsec env) ''model download restart'' is_success
      (de_second env) (de_second_sleep env) = Some r"
    using download_retry_returns by blast
  show ?thesis
    unfolding restart_download_def Let_def r
    by (simp add: accepted run_safe_failed split: option.splits sum.splits)
qed

lemma on_first_response_safe:
  "resumes_at fs (partial_path req) n \<Longrightarrow> safe_outcome sha req fs (on_first_response sha st env req n resp fs)"
  using restart_download_safe [of sha req fs] accept_response_safe [of fs req n sha]
  by (simp add: on_first_response_def Let_def run_safe_failed)

lemma run_download_unchecked_safe:
  assumes "length_fits fs (partial_path req)"
  shows "safe_outcome sha req fs (run_download_unchecked sha st env req fs)"
proof -
  obtain r where r: "send_download st (de_subsec env) ''model download''
      (\<lambda>status. is_success status \<or> status = 416) (de_first env) (de_first_sleep env) = Some r"
    using download_retry_returns by blast
  note first = on_first_response_safe [OF resumes_at_point [OF assms]]
  have quiet: "safe_outcome sha req fs (Some (fs, [], Inl e))" for e
    by (simp add: run_safe_failed)
  show ?thesis
    unfolding run_download_unchecked_def r
    using first quiet by (simp split: option.splits sum.splits)
qed

text \<open>
  C22: A download never poisons the model path. Whatever the server, the disk and the user do, the
  download returns; no file but the destination and its partial file changes; after a failure the
  destination is what it was before and at most one terminal event is reported, an error with the
  code of the failure; after a success the request was valid, the destination holds contents whose
  SHA-256 digest is the expected one, the partial file is gone and the completion is the one
  terminal event. (Files are shorter than \<open>2 ^ 64\<close> bytes.)
\<close>
theorem installed_model_verified:
  assumes "length_fits fs (partial_path req)"
  shows "case run_download sha show_status env req fs of
      None \<Rightarrow> False
    | Some (fs', evs, r) \<Rightarrow>
        (\<forall>q. q = rq_dest req \<or> q = partial_path req \<or> fs' q = fs q)
        \<and> (case r of
             Inl e \<Rightarrow> fs' (rq_dest req) = fs (rq_dest req)
               \<and> (filter terminal evs = [] \<or> (\<exists>m. filter terminal evs = [ErrorEvent (error_code e) m]))
           | Inr _ \<Rightarrow> request_validate req = Inr ()
               \<and> (\<exists>c. fs' (rq_dest req) = Some c
                    \<and> hex_lower (sha c) = to_ascii_lowercase (rq_expected_sha256 req))
               \<and> fs' (partial_path req) = None \<and> filter terminal evs = [CompleteEvent (rq_dest req)])"
proof (cases "request_validate req")
  case (Inl e)
  then show ?thesis by (simp add: run_download_def)
next
  case (Inr u)
  obtain fs' evs r where run: "run_download_unchecked sha show_status env req fs = Some (fs', evs, r)"
    and "run_safe sha req fs (fs', evs, r)"
    using run_download_unchecked_safe [OF assms, of sha show_status env]
    by (cases "run_download_unchecked sha show_status env req fs") auto
  then show ?thesis
    by (simp add: run_download_def Inr run_safe_def reports_at_most_def split: sum.splits)
qed

section \<open>Downloads that complete\<close>

definition clean_item :: "stream_item \<Rightarrow> bool" where
  "clean_item item \<longleftrightarrow> \<not> si_cancelled item \<and> \<not> isl (si_chunk item) \<and> si_write item = None"

definition body_bytes :: "stream_item list \<Rightarrow> string" where
  "body_bytes items = concat (map (\<lambda>item. projr (si_chunk item)) items)"

lemma body_bytes_simps [simp]:
  "body_bytes [] = []" "body_bytes (item # items) = projr (si_chunk item) @ body_bytes items"
  by (simp_all add: body_bytes_def)

text \<open>A successful response that announces and delivers the given bytes.\<close>
definition delivers :: "http_response \<Rightarrow> string \<Rightarrow> bool" where
  "delivers resp bytes \<longleftrightarrow>
     is_success (hr_status resp) \<and> hr_content_length resp = Some (of_nat (length bytes))
     \<and> list_all clean_item (hr_stream resp) \<and> body_bytes (hr_stream resp) = bytes"

text \<open>
  A server that has the artifact: it answers a fresh request with all of it; it continues a partial
  file that is a prefix of it, or refuses the range (\<open>200\<close> or \<open>416\<close>) and answers the second request.
\<close>
definition serves :: "download_env \<Rightarrow> path \<Rightarrow> fs \<Rightarrow> string \<Rightarrow> bool" where
  "serves env p fs artifact \<longleftrightarrow>
     (\<exists>resp. de_first env 0 = IoDone (Inr resp)
        \<and> (if resume_point env fs p = 0 then delivers resp artifact
           else if hr_status resp = 200 \<or> hr_status resp = 416
           then (\<exists>retry. de_second env 0 = IoDone (Inr retry) \<and> delivers retry artifact)
           else (\<exists>c rest. fs p = Some c \<and> artifact = c @ rest \<and> delivers resp rest)))"

definition no_faults :: "download_env \<Rightarrow> bool" where
  "no_faults env \<longleftrightarrow>
     de_mkdir_fault env = None \<and> de_client_fault env = None \<and> de_remove_fault env = None
     \<and> de_open_fault env = None \<and> de_seek_fault env = None \<and> de_reopen_fault env = None
     \<and> (\<forall>k. rd_fault (de_reader env) k = None) \<and> de_flush_fault env = None \<and> de_rename_fault env = None"

lemma send_download_first:
  assumes "answers 0 = IoDone (Inr resp)" and "acc (hr_status resp)"
  shows "send_download st sub op acc answers sleeps = Some (Inr resp)"
  using assms
  by (simp add: send_download_def send_request_with_retry_cancellable_def retry_loop.simps [of _ _ _ _ _ 0]
        settle_response_def)

lemma stream_loop_complete:
  assumes "list_all clean_item items" and "fs p = Some hasher" and "unat d = length hasher"
    and "length hasher + length (body_bytes items) \<le> unat MAX_MODEL_DOWNLOAD_BYTES"
  shows "\<exists>evs. stream_loop st env p t items fs (length hasher) hasher d l =
     (fs(p := Some (hasher @ body_bytes items)), evs,
      Inr (hasher @ body_bytes items))"
  using assms
proof (induction items arbitrary: fs hasher d l)
  case Nil
  then show ?case by (simp add: fun_upd_idem)
next
  case (Cons item items)
  obtain bytes where item: "\<not> si_cancelled item" "si_chunk item = Inr bytes" "si_write item = None"
    using Cons.prems(1) by (cases "si_chunk item") (auto simp: clean_item_def)
  let ?d = "saturating_add d (of_nat (length bytes))"
  let ?fs = "write_partial p (length hasher) bytes fs"
  have small: "length hasher + length bytes \<le> unat MAX_MODEL_DOWNLOAD_BYTES" using Cons.prems(4) item by simp
  then have "length bytes < 2 ^ 64" "length hasher + length bytes \<le> u64_max"
    by (simp_all add: MAX_MODEL_DOWNLOAD_BYTES_def u64_max_def)
  then have d: "unat ?d = length (hasher @ bytes)"
    using Cons.prems(3) by (simp add: unat_sat_add64 unat_of_nat)
  then have le: "\<not> MAX_MODEL_DOWNLOAD_BYTES < ?d" using small by (simp add: word_less_nat_alt)
  have fs: "?fs p = Some (hasher @ bytes)" "?fs(p := v) = fs(p := v)" for v
    using Cons.prems(2) by (simp_all add: write_partial_def write_at_end)
  obtain l' ticks where tick: "progress_tick t ?d l = (l', ticks)" by fastforce
  have rest: "list_all clean_item items"
    "length (hasher @ bytes) + length (body_bytes items) \<le> unat MAX_MODEL_DOWNLOAD_BYTES"
    using Cons.prems(1,4) item by simp_all
  obtain evs where "stream_loop st env p t items ?fs (length (hasher @ bytes)) (hasher @ bytes) ?d l' =
     (?fs(p := Some ((hasher @ bytes) @ body_bytes items)), evs,
      Inr ((hasher @ bytes) @ body_bytes items))"
    using Cons.IH [of ?fs "hasher @ bytes" ?d l', OF rest(1) fs(1) d rest(2)] by blast
  then show ?case using item le tick fs(2) by (simp add: Let_def) (simp add: fun_upd_def)
qed

lemma replay_complete: "no_faults env \<Longrightarrow> unat n = length c \<Longrightarrow> replay env n c = Inr c"
  using prefix_loop_result [of "de_reader env" c 0 0 "length c" "[]"]
  by (auto simp: replay_def no_faults_def word_gt_0 unat_eq_zero)

text \<open>The quota leaves room for the artifact.\<close>
definition roomy :: "download_env \<Rightarrow> nat \<Rightarrow> bool" where
  "roomy env needed \<longleftrightarrow>
     (\<exists>u. (\<forall>fs. de_usage env fs = Inr u) \<and> su_partial_bytes u \<le> DEFAULT_MAX_PARTIAL_STORAGE_BYTES
        \<and> unat (accounted_model_bytes u) + needed \<le> unat DEFAULT_MAX_MODEL_STORAGE_BYTES)"

lemma receive_body_complete:
  assumes env: "no_faults env" and size: "length (c @ rest) \<le> unat MAX_MODEL_DOWNLOAD_BYTES"
    and body: "list_all clean_item items" "body_bytes items = rest"
    and start: "unat n = length c" "(if n = 0 then [] else case fs (partial_path req) of Some c \<Rightarrow> c | None \<Rightarrow> []) = c"
    and digest: "hex_lower (sha (c @ rest)) = to_ascii_lowercase (rq_expected_sha256 req)"
  shows "\<exists>evs. receive_body sha st env req n t items fs =
     (fs(rq_dest req := Some (c @ rest), partial_path req := None), evs, Inr ())"
proof -
  let ?p = "partial_path req"
  obtain evs where "stream_loop st env ?p t items (fs(?p := Some c)) (length c) c n 0 =
      ((fs(?p := Some c))(?p := Some (c @ rest)), evs, Inr (c @ rest))"
    using stream_loop_complete [OF body(1), where fs = "fs(?p := Some c)" and p = ?p and hasher = c and d = n]
      start(1) size body(2) by fastforce
  moreover have "finish_download sha env req (c @ rest) (fs(?p := Some (c @ rest))) =
      (fs(rq_dest req := Some (c @ rest), ?p := None), [CompleteEvent (rq_dest req)], Inr ())"
    using env digest partial_ne_dest [of req] by (auto simp: finish_download_def no_faults_def Let_def fun_upd_twist)
  ultimately show ?thesis
    using env replay_complete [OF env start(1)] start(1)
    by (simp add: receive_body_eq [where fs = fs and req = req, OF start(2)] no_faults_def)
qed

text \<open>An accepted response that delivers the rest of an artifact installs it.\<close>
lemma accept_response_complete:
  assumes env: "no_faults env" and size: "length (c @ rest) \<le> unat MAX_MODEL_DOWNLOAD_BYTES"
    and resp: "delivers resp rest"
    and start: "unat n = length c" "(if n = 0 then [] else case fs (partial_path req) of Some c \<Rightarrow> c | None \<Rightarrow> []) = c"
    and digest: "hex_lower (sha (c @ rest)) = to_ascii_lowercase (rq_expected_sha256 req)"
    and room: "roomy env (length (c @ rest))"
  shows "\<exists>evs. accept_response sha st env req n resp fs =
     (fs(rq_dest req := Some (c @ rest), partial_path req := None), evs, Inr ())"
proof -
  let ?rest = "of_nat (length rest) :: u64"
  obtain u where u: "de_usage env fs = Inr u" "su_partial_bytes u \<le> DEFAULT_MAX_PARTIAL_STORAGE_BYTES"
    "unat (accounted_model_bytes u) + length (c @ rest) \<le> unat DEFAULT_MAX_MODEL_STORAGE_BYTES"
    using room by (auto simp: roomy_def)
  have r: "unat ?rest = length rest" using size by (simp add: unat_of_nat MAX_MODEL_DOWNLOAD_BYTES_def)
  then have "unat (saturating_add ?rest n) = length (c @ rest)"
    using size start(1) by (simp add: unat_sat_add64 u64_max_def MAX_MODEL_DOWNLOAD_BYTES_def)
  then have t: "\<not> saturating_add ?rest n > MAX_MODEL_DOWNLOAD_BYTES" using size by (simp add: word_less_nat_alt)
  have "unat (saturating_add (accounted_model_bytes u) ?rest) \<le> unat DEFAULT_MAX_MODEL_STORAGE_BYTES"
    using u(3) r by (simp add: unat_sat_add64)
  then have q: "ensure_model_download_allowed_with_additional default_quota_policy (Inr u)
      (saturating_add ?rest n) ?rest = Inr u"
    using t u(2) by (simp add: ensure_model_download_allowed_with_additional_def default_quota_policy_def
        Let_def not_less word_le_nat_alt word_less_nat_alt)
  obtain evs where "receive_body sha st env req n (saturating_add ?rest n) (hr_stream resp) fs =
      (fs(rq_dest req := Some (c @ rest), partial_path req := None), evs, Inr ())"
    using receive_body_complete [where items = "hr_stream resp", OF env size] start digest resp
    unfolding delivers_def by blast
  then show ?thesis using resp t q u(1) by (simp add: accept_response_def delivers_def Let_def)
qed

lemma restart_complete:
  assumes env: "no_faults env" and retry: "de_second env 0 = IoDone (Inr retry)" "delivers retry artifact"
    and digest: "hex_lower (sha artifact) = to_ascii_lowercase (rq_expected_sha256 req)"
    and fits: "length artifact \<le> unat MAX_MODEL_DOWNLOAD_BYTES" "roomy env (length artifact)"
    and resumed: "n \<noteq> 0" "hr_status resp = 200 \<or> hr_status resp = 416"
  shows "\<exists>evs. on_first_response sha show_status env req n resp fs =
     Some (fs(rq_dest req := Some artifact, partial_path req := None), evs, Inr ())"
proof -
  let ?p = "partial_path req"
  obtain evs where "accept_response sha show_status env req 0 retry (fs(?p := None)) =
      ((fs(?p := None))(rq_dest req := Some artifact, ?p := None), evs, Inr ())"
    using accept_response_complete [OF env, of "[]" artifact retry 0 "fs(?p := None)" req sha] retry(2) fits digest
    by fastforce
  moreover have "(fs(?p := None))(rq_dest req := Some artifact, ?p := None) = fs(rq_dest req := Some artifact, ?p := None)"
    by auto
  ultimately show ?thesis
    using resumed retry env
    by (simp add: on_first_response_def restart_download_def no_faults_def send_download_first delivers_def word_gt_0)
qed

text \<open>
  C23: Against a server that has the artifact, a download without failures or cancellation completes
  and installs exactly the artifact: from scratch, by continuing the bytes of an earlier attempt, or,
  when the server ignores or refuses the range, by dropping a stale partial file of any contents and
  starting over. Required are a valid request with the artifact's digest, at most 16 GiB, and room
  under the storage quota.
\<close>
theorem download_completes:
  assumes env: "no_faults env" and valid: "request_validate req = Inr ()"
    and server: "serves env (partial_path req) fs artifact"
    and digest: "hex_lower (sha artifact) = to_ascii_lowercase (rq_expected_sha256 req)"
    and fits: "length artifact \<le> unat MAX_MODEL_DOWNLOAD_BYTES" "roomy env (length artifact)"
    and files: "length_fits fs (partial_path req)"
  shows "\<exists>evs. run_download sha show_status env req fs =
     Some (fs(rq_dest req := Some artifact, partial_path req := None), evs, Inr ())"
proof -
  let ?p = "partial_path req"
  let ?n = "resume_point env fs ?p"
  obtain resp where first: "de_first env 0 = IoDone (Inr resp)"
    and answer: "if ?n = 0 then delivers resp artifact
       else if hr_status resp = 200 \<or> hr_status resp = 416
       then (\<exists>retry. de_second env 0 = IoDone (Inr retry) \<and> delivers retry artifact)
       else (\<exists>c rest. fs ?p = Some c \<and> artifact = c @ rest \<and> delivers resp rest)"
    using server by (auto simp: serves_def)
  have acc: "is_success (hr_status resp) \<or> hr_status resp = 416"
    using answer by (auto simp: delivers_def is_success_def split: if_splits)
  have run: "run_download sha show_status env req fs = on_first_response sha show_status env req ?n resp fs"
    using env valid first acc
    by (simp add: run_download_def run_download_unchecked_def no_faults_def send_download_first split: option.splits)
  show ?thesis
  proof (cases "?n = 0")
    case True
    then have "delivers resp artifact" using answer by simp
    then show ?thesis
      using accept_response_complete [OF env, of "[]" artifact resp 0 fs req sha] True fits digest
      by (fastforce simp: run on_first_response_def delivers_def)
  next
    case resumed: False
    show ?thesis
    proof (cases "hr_status resp = 200 \<or> hr_status resp = 416")
      case True
      then obtain retry where retry: "de_second env 0 = IoDone (Inr retry)" "delivers retry artifact"
        using answer resumed by auto
      show ?thesis
        unfolding run using env retry digest fits resumed True by (rule restart_complete)
    next
      case False
      then obtain c rest where c: "fs ?p = Some c" "artifact = c @ rest" "delivers resp rest"
        using answer resumed by auto
      have "unat ?n = length c" using resumes_at_point [OF files, of env] resumed c(1) by (auto simp: resumes_at_def)
      then show ?thesis
        using accept_response_complete [OF env, of c rest resp ?n fs req sha] resumed False c fits digest
        by (fastforce simp: run on_first_response_def delivers_def)
    qed
  qed
qed

section \<open>Examples\<close>

definition demo_request :: DownloadRequest where
  "demo_request =
     \<lparr>rq_url = ''https://h/m.gguf'', rq_expected_sha256 = replicate 64 (CHR ''0''),
      rq_dest = \<lparr>absolute = True, components = [Normal ''models'', Normal ''m.gguf'']\<rparr>\<rparr>"

definition demo_response :: "u16 \<Rightarrow> string \<Rightarrow> http_response" where
  "demo_response status bytes =
     \<lparr>hr_status = status, hr_content_length = Some (of_nat (length bytes)),
      hr_stream = [\<lparr>si_cancelled = False, si_chunk = Inr bytes, si_write = None\<rparr>]\<rparr>"

text \<open>The first request is answered with \<open>416\<close>, the second one with all of \<open>GGUF\<close>.\<close>
definition demo_env :: download_env where
  "demo_env =
     \<lparr>de_mkdir_fault = None, de_metadata_fault = False, de_client_fault = None,
      de_first = (\<lambda>_. IoDone (Inr (demo_response 416 []))), de_first_sleep = (\<lambda>_. IoDone ()),
      de_remove_fault = None,
      de_second = (\<lambda>_. IoDone (Inr (demo_response 200 ''GGUF''))), de_second_sleep = (\<lambda>_. IoDone ()),
      de_subsec = (\<lambda>_. 0), de_usage = (\<lambda>_. Inr no_usage), de_cleanup_fails = False,
      de_open_fault = None, de_seek_fault = None, de_reopen_fault = None,
      de_reader = \<lparr>rd_fault = (\<lambda>_. None), rd_short = (\<lambda>_. 0)\<rparr>,
      de_flush_fault = None, de_rename_fault = None\<rparr>"

definition stale_partial :: fs where
  "stale_partial = (\<lambda>_. None)(partial_path demo_request := Some ''stale bytes'')"

text \<open>A digest function for the examples.\<close>
definition demo_sha :: "string \<Rightarrow> string" where
  "demo_sha bytes = replicate 32 (CHR 0x00)"

lemma demo_digest: "hex_lower (demo_sha s) = to_ascii_lowercase (rq_expected_sha256 demo_request)"
proof -
  have "hex_lower (replicate n (CHR 0x00)) = replicate (2 * n) (CHR ''0'')" for n
    by (induction n) (simp_all add: hex_digit_def code_def)
  moreover have "to_ascii_lowercase (replicate n (CHR ''0'')) = replicate n (CHR ''0'')" for n
    by (simp add: to_ascii_lowercase_def code_def)
  ultimately show ?thesis by (simp add: demo_sha_def demo_request_def)
qed

lemma demo_valid: "request_validate demo_request = Inr ()"
proof -
  have "trim (rq_url demo_request) \<noteq> []"
    by (rule trim_not_Nil [of "CHR ''h''"]) (simp_all add: demo_request_def graphic_def code_def)
  moreover have "list_all is_ascii_hexdigit (replicate n (CHR ''0''))" for n
    by (induction n) (simp_all add: is_ascii_hexdigit_def code_def)
  ultimately show ?thesis
    by (simp add: request_validate_def) (simp add: demo_request_def starts_with_def path_is_empty_def)
qed

lemma demo_partial:
  "partial_path demo_request = \<lparr>absolute = True, components = [Normal ''models'', Normal ''m.gguf.partial'']\<rparr>"
  by (simp add: partial_path_def demo_request_def set_file_name_def file_name_def)

lemma demo_serves: "serves demo_env (partial_path demo_request) stale_partial ''GGUF''"
  by (simp add: serves_def demo_env_def demo_response_def stale_partial_def resume_point_def delivers_def
        is_success_def clean_item_def)

lemma demo_environment: "no_faults demo_env" "roomy demo_env 4"
  by (simp_all add: no_faults_def demo_env_def roomy_def no_usage_def accounted_model_bytes_def
        saturating_add_def default_limits DEFAULT_MAX_PARTIAL_STORAGE_BYTES_def)

lemma stale_partial_small: "length_fits stale_partial (partial_path demo_request)"
  by (simp add: length_fits_def stale_partial_def)

theorem download_completes_witness:
  "\<exists>evs. run_download demo_sha (\<lambda>_. []) demo_env demo_request stale_partial =
     Some (stale_partial(rq_dest demo_request := Some ''GGUF'', partial_path demo_request := None), evs, Inr ())"
proof (rule download_completes [OF demo_environment(1) demo_valid demo_serves demo_digest _ _ stale_partial_small])
  show "length ''GGUF'' \<le> unat MAX_MODEL_DOWNLOAD_BYTES" by (simp add: default_limits)
  have "length ''GGUF'' = 4" by simp
  then show "roomy demo_env (length ''GGUF'')" using demo_environment(2) by (simp only:)
qed

theorem installed_model_verified_witness:
  "case run_download demo_sha (\<lambda>_. []) demo_env demo_request stale_partial of
      None \<Rightarrow> False
    | Some (fs', evs, r) \<Rightarrow> (case r of Inl e \<Rightarrow> fs' (rq_dest demo_request) = stale_partial (rq_dest demo_request)
        | Inr _ \<Rightarrow> fs' (partial_path demo_request) = None)"
  using installed_model_verified [OF stale_partial_small, where sha = demo_sha and show_status = "\<lambda>_. []"
      and env = demo_env]
  by (simp split: option.splits sum.splits prod.splits)

text \<open>
  A failure before the response arrives is returned without any event, although the terminal
  \<open>error\<close> event is promised for every failure.
\<close>
lemma failure_without_event:
  "run_download demo_sha (\<lambda>_. []) (demo_env\<lparr>de_mkdir_fault := Some ''read-only''\<rparr>) demo_request stale_partial =
     Some (stale_partial, [], Inl (Io ''mkdir parent: read-only''))"
  unfolding run_download_def demo_valid
  by (simp add: run_download_unchecked_def demo_env_def demo_request_def parent_def path_is_empty_def)

end
