(* ===== verification/Application_Runtime.thy ===== *)
theory Application_Runtime
  imports Temporary_Chat Platform_Broker Model_Registry Model_Download Model_Activation Tool_Executor
begin

text \<open>
  The application runtime (\<open>application_runtime/*.rs\<close>): the state the command handlers share, the
  admission of commands with their replay records, the router and the handlers, temporary chats and
  shutdown. A handler runs from its admission to its acknowledgement; the tasks it spawns are recorded,
  and what they do is in \<open>Runtime_Tasks\<close>.

  What a handler reads from outside is in \<open>RuntimeReadings\<close>: the clock, minted identifiers, the parser
  of the \<open>uuid\<close> crate (which yields the canonical spelling), BLAKE3, the file system, the
  configuration loader, the settings store, and the identities of backends. The fingerprint of a
  command stands for the bytes that encode it. The members of an event's payload are listed in the
  order of the source; the map they form is what counts.
\<close>

section \<open>Paths\<close>

fun split_slash :: "string \<Rightarrow> string list" where
  "split_slash [] = [[]]"
| "split_slash (c # s) =
     (if c = CHR ''/'' then [] # split_slash s
      else case split_slash s of [] \<Rightarrow> [[c]] | w # ws \<Rightarrow> (c # w) # ws)"

text \<open>\<open>Path::new\<close>, up to the equality of paths: empty components and \<open>.\<close> are dropped, a leading \<open>.\<close> is kept.\<close>
definition path_of :: "string \<Rightarrow> path" where
  "path_of s =
     (let parts = split_slash s in
      \<lparr>absolute = (case s of [] \<Rightarrow> False | c # _ \<Rightarrow> c = CHR ''/''),
       components = (if hd parts = ''.'' then [CurDir] else [])
         @ map (\<lambda>w. if w = ''..'' then ParentDir else Normal w) (filter (\<lambda>w. w \<noteq> [] \<and> w \<noteq> ''.'') parts)\<rparr>)"

text \<open>\<open>Path::join\<close> with a relative name.\<close>
definition path_join :: "string \<Rightarrow> string \<Rightarrow> string" where
  "path_join base name = (if base = [] \<or> last base = CHR ''/'' then base @ name else base @ ''/'' @ name)"

section \<open>State\<close>

record RuntimeConfig =
  rc_app_data_dir :: string
  rc_worker_threads :: nat
  rc_max_blocking_threads :: nat
  rc_event_capacity :: nat

datatype RuntimeError = InvalidConfig string | AsyncRuntime | RuntimeStopped | UnsupportedSnapshot

definition runtime_config_validate :: "RuntimeConfig \<Rightarrow> RuntimeError + unit" where
  "runtime_config_validate c =
     (if trim (rc_app_data_dir c) = [] \<or> length (rc_app_data_dir c) > 4096 then Inl (InvalidConfig ''invalid app_data_dir'')
      else if \<not> (1 \<le> rc_worker_threads c \<and> rc_worker_threads c \<le> 8) then Inl (InvalidConfig ''worker_threads must be 1..=8'')
      else if \<not> (1 \<le> rc_max_blocking_threads c \<and> rc_max_blocking_threads c \<le> 32)
      then Inl (InvalidConfig ''max_blocking_threads must be 1..=32'')
      else if \<not> (32 \<le> rc_event_capacity c \<and> rc_event_capacity c \<le> MAX_EVENT_CAPACITY)
      then Inl (InvalidConfig ''event_capacity must be 32..=4096'')
      else Inr ())"

datatype RuntimeState = RtCreated | RtInitializing | RtReady | RtStopping | RtStopped | RtFailed

record ReplayRecord =
  rr_fingerprint :: json
  rr_acknowledgement :: CommandAcknowledgementV2

record ProductConfig =
  pc_models_dir :: string
  pc_n_ctx :: nat
  pc_agent :: AgentCfg
  pc_watchdog_max_iterations :: nat
  pc_watchdog_max_token_budget :: u64
  pc_watchdog_max_wall_seconds :: nat

text \<open>The tools of the registries, and what an agent loop is built from.\<close>
datatype BuiltTool = FileTool | HardwareTool | MathTool | WebSearchTool string string RemoteFeaturePolicy

record AgentLoopParts =
  al_n_ctx :: nat
  al_rag :: bool
  al_executor :: "BuiltTool ToolExecutor"
  al_watchdog :: Watchdog

record 'be RuntimeReadings =
  rd_now :: time
  rd_instant :: duration
  rd_stamp :: string
  rd_uuid :: "nat \<Rightarrow> string"
  rd_parse_uuid :: "string \<Rightarrow> string option"
  rd_ident :: "'be \<Rightarrow> BackendIdentity"
  rd_is_file :: "path \<Rightarrow> bool"
  rd_write_default :: bool
  rd_load_config :: "ProductConfig option"
  rd_storage_ok :: bool
  rd_save_settings :: bool
  rd_blake3_hex :: "string \<Rightarrow> string"

text \<open>A spawned task, with what its closure has captured.\<close>
datatype RuntimeTask =
    ChatTask chat_key chat_key string nat CommandEnvelopeV2 string bool bool string
  | DownloadTask string DownloadRequest string string nat CommandEnvelopeV2
  | SelectTask string string string string nat CommandEnvelopeV2
  | DeleteTask string path string nat CommandEnvelopeV2
  | GrantTask string string string nat CommandEnvelopeV2
  | RevokeTask string string bool string nat CommandEnvelopeV2
  | RetryTask string string string string nat CommandEnvelopeV2

record 'be MukeiRuntime =
  rt_session_id :: string
  rt_config :: RuntimeConfig
  rt_state :: RuntimeState
  rt_cancelled :: bool
  rt_events :: EventBus
  rt_platform :: Broker
  rt_stores :: ChatStores
  rt_settings :: "(string, json) hashmap"
  rt_replay :: "(string, ReplayRecord) hashmap"
  rt_product_config :: "ProductConfig option"
  rt_activation :: "'be ModelActivationService"
  rt_backend_factory :: bool
  rt_agent_loop :: "AgentLoopParts option"
  rt_rag_service :: bool
  rt_remote_tool_secrets :: "(string \<times> string) option"
  rt_remote_policy :: RemoteFeaturePolicy
  rt_closed :: bool
  rt_tasks :: "RuntimeTask list"

abbreviation rt_features :: "'be MukeiRuntime \<Rightarrow> FeatureState" where
  "rt_features rt \<equiv> cs_features (rt_stores rt)"

abbreviation rt_ephemeral :: "'be MukeiRuntime \<Rightarrow> EphemeralChatState" where
  "rt_ephemeral rt \<equiv> cs_ephemeral (rt_stores rt)"

definition with_features :: "'be MukeiRuntime \<Rightarrow> FeatureState \<Rightarrow> 'be MukeiRuntime" where
  "with_features rt f = rt\<lparr>rt_stores := (rt_stores rt)\<lparr>cs_features := f\<rparr>\<rparr>"

definition with_ephemeral :: "'be MukeiRuntime \<Rightarrow> EphemeralChatState \<Rightarrow> 'be MukeiRuntime" where
  "with_ephemeral rt e = rt\<lparr>rt_stores := (rt_stores rt)\<lparr>cs_ephemeral := e\<rparr>\<rparr>"

definition spawn :: "'be MukeiRuntime \<Rightarrow> RuntimeTask \<Rightarrow> 'be MukeiRuntime" where
  "spawn rt t = rt\<lparr>rt_tasks := rt_tasks rt @ [t]\<rparr>"

definition publish :: "'be RuntimeReadings \<Rightarrow> nat \<Rightarrow> 'be MukeiRuntime \<Rightarrow> string \<Rightarrow> string \<Rightarrow> json \<Rightarrow> CommandEnvelopeV2 option
     \<Rightarrow> string option \<Rightarrow> 'be MukeiRuntime" where
  "publish rd n rt stream event_type payload command operation_id =
     rt\<lparr>rt_events := emit (rt_events rt)
       \<lparr>em_stream_id = stream, em_event_type = event_type, em_payload = payload, em_command = command,
        em_operation_id = operation_id, em_event_id = rd_uuid rd n, em_now = rd_now rd\<rparr>\<rparr>"

definition update_op :: "'be RuntimeReadings \<Rightarrow> 'be MukeiRuntime \<Rightarrow> string \<Rightarrow> OperationStatus \<Rightarrow> f64 option \<Rightarrow> string option \<Rightarrow> json \<Rightarrow> 'be MukeiRuntime" where
  "update_op rd rt i status progress detail result =
     with_features rt (update_operation (rt_features rt) i status progress detail result (rd_now rd))"

type_synonym 'be reply = "'be MukeiRuntime \<times> CommandAcknowledgementV2"

definition reject :: "'be RuntimeReadings \<Rightarrow> 'be MukeiRuntime \<Rightarrow> ValidatedCommand \<Rightarrow> RejectionReason \<Rightarrow> 'be reply" where
  "reject rd rt command reason = (rt, ack_rejected (rd_now rd) (Some (vc_envelope command)) reason)"

definition create_with_services :: "'be RuntimeReadings \<Rightarrow> RuntimeConfig \<Rightarrow> bool \<Rightarrow> bool \<Rightarrow> RuntimeError + 'be MukeiRuntime" where
  "create_with_services rd config async_ok factory =
     (case runtime_config_validate config of
        Inl e \<Rightarrow> Inl e
      | Inr _ \<Rightarrow>
          if \<not> async_ok then Inl AsyncRuntime
          else
            let session = rd_uuid rd 0;
                rt = \<lparr>rt_session_id = session, rt_config = config, rt_state = RtCreated, rt_cancelled = False,
                      rt_events = bus_new (rc_event_capacity config), rt_platform = broker_new MAX_PLATFORM_REQUESTS,
                      rt_stores = \<lparr>cs_ephemeral = ephemeral_new, cs_features = features_new\<rparr>, rt_settings = [],
                      rt_replay = [], rt_product_config = None, rt_activation = new_service factory, rt_backend_factory = factory, rt_agent_loop = None,
                      rt_rag_service = False, rt_remote_tool_secrets = None, rt_remote_policy = LocalOnly, rt_closed = False, rt_tasks = []\<rparr> in
            Inr (publish rd 1 rt ''application:lifecycle'' ''runtime.created''
              (Object [(''runtime_session_id'', String session)]) None None))"

definition runtime_capabilities :: "'be MukeiRuntime \<Rightarrow> ProtocolCapabilitySnapshot" where
  "runtime_capabilities rt =
     (let commands = [AppInitialize, ChatClearConversation, DownloadCancel, ModelDelete, CmdDocumentGrant, DocumentRevoke, SettingsUpdate]
            @ (if rt_backend_factory rt then [ChatSendMessage, ChatStopGeneration, ModelSelect, RecoveryResume, RecoveryRegenerate] else [])
            @ (if rt_rag_service rt then [DocumentRetryIngestion] else []) @ [CmdModelDownload] in
      with_transport (with_transport (with_transport (with_transport (for_commands commands) ''event_gap_reporting'')
        ''platform_request_broker'') ''android_document_port'') ''android_keystore_port'')"

section \<open>Services\<close>

definition build_agent_loop :: "'be RuntimeReadings \<Rightarrow> 'be MukeiRuntime \<Rightarrow> ProductConfig \<Rightarrow> bool \<Rightarrow> bool \<Rightarrow> AgentLoopParts" where
  "build_agent_loop rd rt config rag temporary =
     (let tools = (if temporary then temporary_chat HardwareTool MathTool
                   else case rt_remote_tool_secrets rt of
                     Some (brave, tavily) \<Rightarrow>
                       if rt_remote_policy rt = RemoteAllowed
                       then with_web_search (WebSearchTool brave tavily (rt_remote_policy rt)) FileTool HardwareTool MathTool
                       else local_only FileTool HardwareTool MathTool
                   | None \<Rightarrow> local_only FileTool HardwareTool MathTool) in
      \<lparr>al_n_ctx = pc_n_ctx config, al_rag = rag,
       al_executor = with_policy tools (with_threshold (cfg_max_failures_per_tool (pc_agent config))) (policy_of_cfg (pc_agent config)),
       al_watchdog = watchdog_new (rd_instant rd) (pc_watchdog_max_iterations config) (pc_watchdog_max_token_budget config)
         (pc_watchdog_max_wall_seconds config * 10 ^ 9)\<rparr>)"

definition temporary_agent_loop :: "'be RuntimeReadings \<Rightarrow> 'be MukeiRuntime \<Rightarrow> AgentLoopParts option" where
  "temporary_agent_loop rd rt = map_option (\<lambda>config. build_agent_loop rd rt config False True) (rt_product_config rt)"

definition install_agent_loop :: "'be RuntimeReadings \<Rightarrow> 'be MukeiRuntime \<Rightarrow> ProductConfig \<Rightarrow> 'be MukeiRuntime" where
  "install_agent_loop rd rt config = rt\<lparr>rt_agent_loop := Some (build_agent_loop rd rt config (rt_rag_service rt) False)\<rparr>"

definition reinstall :: "'be RuntimeReadings \<Rightarrow> 'be MukeiRuntime \<Rightarrow> 'be MukeiRuntime" where
  "reinstall rd rt = (case rt_product_config rt of None \<Rightarrow> rt | Some config \<Rightarrow> install_agent_loop rd rt config)"

definition set_remote_policy :: "'be RuntimeReadings \<Rightarrow> 'be MukeiRuntime \<Rightarrow> RemoteFeaturePolicy \<Rightarrow> 'be MukeiRuntime" where
  "set_remote_policy rd rt policy = reinstall rd (rt\<lparr>rt_remote_policy := policy\<rparr>)"

definition attach_rag_service :: "'be RuntimeReadings \<Rightarrow> 'be MukeiRuntime \<Rightarrow> 'be MukeiRuntime" where
  "attach_rag_service rd rt = reinstall rd (rt\<lparr>rt_rag_service := True\<rparr>)"

definition configure_remote_tools :: "'be RuntimeReadings \<Rightarrow> 'be MukeiRuntime \<Rightarrow> string \<Rightarrow> string \<Rightarrow> 'be MukeiRuntime \<times> unit result" where
  "configure_remote_tools rd rt brave tavily =
     (if trim brave = [] \<or> trim tavily = []
      then (rt, Inl (ConfigInvalid ''remote_tool_secrets'' ''provider credentials must be non-empty''))
      else (reinstall rd (rt\<lparr>rt_remote_tool_secrets := Some (brave, tavily)\<rparr>), Inr ()))"

text \<open>Hydration runs while the runtime is created; an error leaves what was loaded before it.\<close>
definition attach_runtime_store ::
  "'be RuntimeReadings \<Rightarrow> 'be MukeiRuntime \<Rightarrow> (string \<Rightarrow> ProjectionValue option result) \<Rightarrow> json option result
     \<Rightarrow> 'be MukeiRuntime \<times> unit result" where
  "attach_runtime_store rd rt load settings =
     (case hydrate_from_store (attach_projection_store (rt_features rt)) load (rd_now rd) of
        (f, Inl e) \<Rightarrow> (with_features rt f, Inl e)
      | (f, Inr _) \<Rightarrow>
          (let rt = with_features rt f in
           case settings of
             Inl e \<Rightarrow> (rt, Inl e)
           | Inr None \<Rightarrow> (rt, Inr ())
           | Inr (Some (Object values)) \<Rightarrow>
               (let rt = (case map_of values ''remote_feature_policy'' of
                            Some (String v) \<Rightarrow> (case policy_from_str v of Inr p \<Rightarrow> rt\<lparr>rt_remote_policy := p\<rparr> | Inl _ \<Rightarrow> rt)
                          | _ \<Rightarrow> rt) in
                (rt\<lparr>rt_settings := values\<rparr>, Inr ()))
           | Inr (Some _) \<Rightarrow> (rt, Inl DatabaseCorruption)))"

definition persist_settings_now :: "'be RuntimeReadings \<Rightarrow> 'be MukeiRuntime \<Rightarrow> bool" where
  "persist_settings_now rd rt \<longleftrightarrow> \<not> fs_store_attached (rt_features rt) \<or> rd_save_settings rd"

section \<open>Admission of operations\<close>

definition ensure_ready :: "'be RuntimeReadings \<Rightarrow> 'be MukeiRuntime \<Rightarrow> ValidatedCommand \<Rightarrow> 'be reply \<Rightarrow> 'be reply" where
  "ensure_ready rd rt command continue =
     (if rt_state rt \<noteq> RtReady then reject rd rt command RejBackendUnavailable else continue)"

definition accept_operation :: "'be RuntimeReadings \<Rightarrow> 'be MukeiRuntime \<Rightarrow> ValidatedCommand
     \<Rightarrow> 'be MukeiRuntime \<times> CommandAcknowledgementV2 \<times> string \<times> nat" where
  "accept_operation rd rt command =
     (let (f, operation_id, token) = create_operation (rt_features rt) command (rd_uuid rd 0) (rd_now rd);
          rt = publish rd 1 (with_features rt f) (operation_stream operation_id) ''operation.accepted''
                 (Object [(''state'', String ''accepted'')]) (Some (vc_envelope command)) (Some operation_id) in
      (rt, ack_accepted (rd_now rd) (vc_envelope command) (Some operation_id), operation_id, token))"

definition accept_chat_operation :: "'be RuntimeReadings \<Rightarrow> 'be MukeiRuntime \<Rightarrow> ValidatedCommand \<Rightarrow> chat_key
     \<Rightarrow> 'be reply + ('be MukeiRuntime \<times> CommandAcknowledgementV2 \<times> string \<times> nat \<times> bool)" where
  "accept_chat_operation rd rt command key =
     (case session_state (rt_ephemeral rt) key of
        SessionRetired \<Rightarrow> Inl (reject rd rt command StaleScope)
      | SessionAbsent \<Rightarrow>
          (let (rt, ack, operation_id, token) = accept_operation rd rt command in Inr (rt, ack, operation_id, token, False))
      | SessionActive \<Rightarrow>
          (case eph_create_operation (rt_ephemeral rt) key (ce_operation_id (vc_envelope command)) (rd_uuid rd 0) of
             (_, None) \<Rightarrow> Inl (reject rd rt command StaleScope)
           | (e, Some (operation_id, token)) \<Rightarrow>
               Inr (publish rd 1 (with_ephemeral rt e) (operation_stream operation_id) ''operation.accepted''
                      (Object [(''state'', String ''accepted''), (''temporary'', Bool True)])
                      (Some (vc_envelope command)) (Some operation_id),
                    ack_accepted (rd_now rd) (vc_envelope command) (Some operation_id), operation_id, token, True)))"

section \<open>Chat\<close>

text \<open>The scope's own spellings and the canonical ones.\<close>
definition parse_chat_scope :: "'be RuntimeReadings \<Rightarrow> ValidatedCommand \<Rightarrow> (chat_key \<times> chat_key) option" where
  "parse_chat_scope rd command =
     Option.bind (ce_scope (vc_envelope command)) (\<lambda>s.
     Option.bind (sc_conversation_id s) (\<lambda>c.
     Option.bind (sc_branch_id s) (\<lambda>b.
     Option.bind (rd_parse_uuid rd c) (\<lambda>ci.
     Option.bind (rd_parse_uuid rd b) (\<lambda>bi. Some ((c, b), (ci, bi)))))))"

definition launch_chat :: "'be RuntimeReadings \<Rightarrow> 'be MukeiRuntime \<Rightarrow> ValidatedCommand \<Rightarrow> chat_key \<Rightarrow> chat_key \<Rightarrow> string \<Rightarrow> bool
     \<Rightarrow> string \<Rightarrow> 'be reply" where
  "launch_chat rd rt command key ids txt regenerate user_message =
     (case accept_chat_operation rd rt command key of
        Inl r \<Rightarrow> r
      | Inr (rt, ack, operation_id, token, temporary) \<Rightarrow>
          (spawn rt (ChatTask key ids operation_id token (vc_envelope command) txt regenerate temporary user_message), ack))"

definition start_chat_operation :: "'be RuntimeReadings \<Rightarrow> 'be MukeiRuntime \<Rightarrow> ValidatedCommand \<Rightarrow> string \<Rightarrow> bool
     \<Rightarrow> ChatMessage option \<Rightarrow> 'be reply" where
  "start_chat_operation rd rt command txt regenerate existing =
     (case parse_chat_scope rd command of
        None \<Rightarrow> reject rd rt command StaleScope
      | Some (key, ids) \<Rightarrow>
          if was_retired (rt_ephemeral rt) key then reject rd rt command StaleScope
          else if \<not> active_backend_ready (readiness_snapshot (rd_ident rd) (rt_activation rt)) then reject rd rt command RejBackendUnavailable
          else if \<not> (if is_registered (rt_ephemeral rt) key then temporary_agent_loop rd rt \<noteq> None else rt_agent_loop rt \<noteq> None)
          then reject rd rt command RejBackendUnavailable
          else
            let message = (case existing of Some m \<Rightarrow> m | None \<Rightarrow> user_with_id (rd_stamp rd) (rd_uuid rd 2) (snd ids) txt);
                rt = (if list_all (\<lambda>m. msg_id m \<noteq> msg_id message) (chat_history (rt_stores rt) ids)
                      then rt\<lparr>rt_stores := fst (append_chat_message (rt_stores rt) key message)\<rparr> else rt) in
            launch_chat rd rt command key ids txt regenerate (msg_id message))"

definition send_message :: "'be RuntimeReadings \<Rightarrow> 'be MukeiRuntime \<Rightarrow> ValidatedCommand \<Rightarrow> 'be reply" where
  "send_message rd rt command =
     ensure_ready rd rt command
       (case vc_payload command of
          SendMessagePayload t \<Rightarrow> start_chat_operation rd rt command t False None
        | _ \<Rightarrow> reject rd rt command InvalidPayload)"

definition stop_generation :: "'be RuntimeReadings \<Rightarrow> 'be MukeiRuntime \<Rightarrow> ValidatedCommand \<Rightarrow> 'be reply" where
  "stop_generation rd rt command =
     (case ce_operation_id (vc_envelope command) of
        None \<Rightarrow> reject rd rt command StaleScope
      | Some operation_id \<Rightarrow>
          (let (e, stopped) = eph_cancel_operation (rt_ephemeral rt) operation_id;
               (f, cancelled) = (if stopped then (rt_features rt, True)
                                 else cancel_operation (rt_features rt) operation_id (rd_now rd)) in
           if \<not> stopped \<and> \<not> cancelled then reject rd rt command StaleScope
           else (publish rd 0 (with_features (with_ephemeral rt e) f) (operation_stream operation_id) ''operation.cancel_requested''
                   (Object [(''state'', String ''cancel_requested'')]) (Some (vc_envelope command)) (Some operation_id),
                 ack_accepted (rd_now rd) (vc_envelope command) (Some operation_id))))"

definition json_nat :: "nat \<Rightarrow> json" where
  "json_nat n = Number (show_nat n)"

definition finish_clear :: "'be RuntimeReadings \<Rightarrow> 'be MukeiRuntime \<Rightarrow> ValidatedCommand \<Rightarrow> chat_key \<Rightarrow> string \<Rightarrow> bool \<Rightarrow> 'be MukeiRuntime" where
  "finish_clear rd rt command key operation_id temporary =
     (let removed = snd (clear_chat_conversation (rt_stores rt) key);
          rt = rt\<lparr>rt_stores := fst (clear_chat_conversation (rt_stores rt) key)\<rparr>;
          rt = (if temporary then with_ephemeral rt (eph_finish_operation (rt_ephemeral rt) operation_id)
                else update_op rd rt operation_id OpCompleted (Some f64_one) None
                       (Object [(''removed_messages'', json_nat removed)])) in
      publish rd 2 rt (conversation_stream (fst key)) ''chat.conversation.cleared''
        (Object [(''branch_id'', String (snd key)), (''removed_messages'', json_nat removed), (''temporary'', Bool temporary)])
        (Some (vc_envelope command)) (Some operation_id))"

definition clear_conversation :: "'be RuntimeReadings \<Rightarrow> 'be MukeiRuntime \<Rightarrow> ValidatedCommand \<Rightarrow> 'be reply" where
  "clear_conversation rd rt command =
     ensure_ready rd rt command
       (case parse_chat_scope rd command of
          None \<Rightarrow> reject rd rt command StaleScope
        | Some (key, _) \<Rightarrow>
            if was_retired (rt_ephemeral rt) key then reject rd rt command StaleScope
            else case accept_chat_operation rd rt command key of
              Inl r \<Rightarrow> r
            | Inr (rt, ack, operation_id, _, temporary) \<Rightarrow> (finish_clear rd rt command key operation_id temporary, ack))"

definition recover_chat :: "'be RuntimeReadings \<Rightarrow> 'be MukeiRuntime \<Rightarrow> ValidatedCommand \<Rightarrow> bool \<Rightarrow> 'be reply" where
  "recover_chat rd rt command regenerate =
     ensure_ready rd rt command
       (case parse_chat_scope rd command of
          None \<Rightarrow> reject rd rt command StaleScope
        | Some (key, _) \<Rightarrow>
            if was_retired (rt_ephemeral rt) key then reject rd rt command StaleScope
            else case last_user_chat_message (rt_stores rt) key of
              None \<Rightarrow> reject rd rt command StaleScope
            | Some m \<Rightarrow>
                (let rt = (if regenerate then rt\<lparr>rt_stores := fst (remove_last_assistant_chat_message (rt_stores rt) key)\<rparr> else rt) in
                 start_chat_operation rd rt command (msg_content m) regenerate (Some m)))"

section \<open>Initialization\<close>

definition fail_initialize :: "'be RuntimeReadings \<Rightarrow> 'be MukeiRuntime \<Rightarrow> ValidatedCommand \<Rightarrow> RejectionReason \<Rightarrow> 'be reply" where
  "fail_initialize rd rt command reason = reject rd (rt\<lparr>rt_state := RtFailed\<rparr>) command reason"

definition finish_initialize :: "'be RuntimeReadings \<Rightarrow> 'be MukeiRuntime \<Rightarrow> ValidatedCommand \<Rightarrow> ProductConfig \<Rightarrow> 'be reply" where
  "finish_initialize rd rt command config =
     (let rt = (install_agent_loop rd rt config)\<lparr>rt_product_config := Some config\<rparr>;
          (rt, ack, operation_id, _) = accept_operation rd rt command;
          rt = update_op rd (rt\<lparr>rt_state := RtReady\<rparr>) operation_id OpCompleted (Some f64_one) None
                 (Object [(''runtime_session_id'', String (rt_session_id rt))]);
          rt = publish rd 2 rt ''application:lifecycle'' ''application.ready''
                 (Object [(''runtime_session_id'', String (rt_session_id rt)), (''app_data_dir'', String (rc_app_data_dir (rt_config rt)))])
                 (Some (vc_envelope command)) (Some operation_id) in
      (publish rd 3 rt (operation_stream operation_id) ''operation.completed'' (Object [(''state'', String ''completed'')])
         (Some (vc_envelope command)) (Some operation_id), ack))"

definition initialize :: "'be RuntimeReadings \<Rightarrow> 'be MukeiRuntime \<Rightarrow> ValidatedCommand \<Rightarrow> 'be reply" where
  "initialize rd rt command =
     (case vc_payload command of
        InitializePayload config_path \<Rightarrow>
          if rt_state rt = RtReady then reject rd rt command BusyConflict
          else if rt_state rt = RtStopping \<or> rt_state rt = RtStopped then reject rd rt command RejBackendUnavailable
          else
            let rt = rt\<lparr>rt_state := RtInitializing\<rparr>;
                expected = path_of (path_join (rc_app_data_dir (rt_config rt)) ''mukei.toml'') in
            if path_of config_path \<noteq> expected then fail_initialize rd rt command PolicyDenied
            else if \<not> rd_is_file rd expected \<and> \<not> rd_write_default rd then fail_initialize rd rt command RejBackendUnavailable
            else (case rd_load_config rd of
                    None \<Rightarrow> fail_initialize rd rt command InvalidPayload
                  | Some config \<Rightarrow>
                      if \<not> rd_storage_ok rd then fail_initialize rd rt command RejBackendUnavailable
                      else finish_initialize rd rt command config)
      | _ \<Rightarrow> reject rd rt command InvalidPayload)"

section \<open>Models\<close>

text \<open>The build with the \<open>network\<close> feature, which the Android library enables.\<close>
definition download_model :: "'be RuntimeReadings \<Rightarrow> 'be MukeiRuntime \<Rightarrow> ValidatedCommand \<Rightarrow> 'be reply" where
  "download_model rd rt command =
     ensure_ready rd rt command
       (case vc_payload command of
          ModelDownloadPayload model sha256 \<Rightarrow>
            (case lookup_model_str model of
               None \<Rightarrow> reject rd rt command InvalidPayload
             | Some descriptor \<Rightarrow>
                 if sha256 \<noteq> [] \<and> sha256 \<noteq> md_expected_sha256 descriptor then reject rd rt command PolicyDenied
                 else case rt_product_config rt of
                   None \<Rightarrow> reject rd rt command RejBackendUnavailable
                 | Some config \<Rightarrow>
                     (let destination = path_join (pc_models_dir config) (md_filename descriptor);
                          (rt, ack, operation_id, token) = accept_operation rd rt command;
                          rt = with_features rt (insert_model (rt_features rt)
                                 \<lparr>mp_model_id = model, mp_status = MsDownloading, mp_local_path = None,
                                  mp_progress = Some f64_zero, mp_error_code = None\<rparr>) in
                      (spawn rt (DownloadTask model
                         \<lparr>rq_url = md_download_url descriptor, rq_expected_sha256 = md_expected_sha256 descriptor,
                          rq_dest = path_of destination\<rparr> destination operation_id token (vc_envelope command)), ack)))
        | _ \<Rightarrow> reject rd rt command InvalidPayload)"

definition request_download_cancel :: "'be RuntimeReadings \<Rightarrow> ValidatedCommand \<Rightarrow> nat \<Rightarrow> string \<Rightarrow> 'be MukeiRuntime \<Rightarrow> 'be MukeiRuntime" where
  "request_download_cancel rd command n operation_id rt =
     publish rd n (with_features rt (fst (cancel_operation (rt_features rt) operation_id (rd_now rd))))
       (operation_stream operation_id) ''operation.cancel_requested''
       (Object [(''state'', String ''cancel_requested''), (''kind'', String ''model_download'')])
       (Some (vc_envelope command)) (Some operation_id)"

fun cancel_targets :: "'be RuntimeReadings \<Rightarrow> ValidatedCommand \<Rightarrow> nat \<Rightarrow> string list \<Rightarrow> 'be MukeiRuntime \<Rightarrow> 'be MukeiRuntime" where
  "cancel_targets rd command n [] rt = rt"
| "cancel_targets rd command n (i # is) rt = cancel_targets rd command (Suc n) is (request_download_cancel rd command n i rt)"

definition cancel_download :: "'be RuntimeReadings \<Rightarrow> 'be MukeiRuntime \<Rightarrow> ValidatedCommand \<Rightarrow> 'be reply" where
  "cancel_download rd rt command =
     (case ce_operation_id (vc_envelope command) of
        Some operation_id \<Rightarrow>
          if \<not> snd (cancel_operation (rt_features rt) operation_id (rd_now rd)) then reject rd rt command StaleScope
          else (request_download_cancel rd command 0 operation_id rt, ack_accepted (rd_now rd) (vc_envelope command) (Some operation_id))
      | None \<Rightarrow>
          (case active_operation_ids (rt_features rt) (command_as_str CmdModelDownload) of
             [] \<Rightarrow> reject rd rt command StaleScope
           | target # targets \<Rightarrow>
               (cancel_targets rd command 0 (target # targets) rt, ack_accepted (rd_now rd) (vc_envelope command) (Some target))))"

definition select_model :: "'be RuntimeReadings \<Rightarrow> 'be MukeiRuntime \<Rightarrow> ValidatedCommand \<Rightarrow> 'be reply" where
  "select_model rd rt command =
     ensure_ready rd rt command
       (case vc_payload command of
          ModelPayload model \<Rightarrow>
            (case lookup_model_str model of
               None \<Rightarrow> reject rd rt command InvalidPayload
             | Some descriptor \<Rightarrow>
                 if \<not> rt_backend_factory rt then reject rd rt command CapabilityUnavailable
                 else case rt_product_config rt of
                   None \<Rightarrow> reject rd rt command RejBackendUnavailable
                 | Some config \<Rightarrow>
                     (let path = path_join (pc_models_dir config) (md_filename descriptor) in
                      if \<not> rd_is_file rd (path_of path) then reject rd rt command RejBackendUnavailable
                      else
                        let (rt, ack, operation_id, token) = accept_operation rd rt command in
                        (spawn rt (SelectTask model path (md_expected_sha256 descriptor) operation_id token (vc_envelope command)), ack)))
        | _ \<Rightarrow> reject rd rt command InvalidPayload)"

definition delete_model :: "'be RuntimeReadings \<Rightarrow> 'be MukeiRuntime \<Rightarrow> ValidatedCommand \<Rightarrow> 'be reply" where
  "delete_model rd rt command =
     ensure_ready rd rt command
       (case vc_payload command of
          ModelPayload model \<Rightarrow>
            if map_option am_model_id (active_model_snapshot (rd_ident rd) (rt_activation rt)) = Some model
            then reject rd rt command BusyConflict
            else (case lookup_model_str model of
                    None \<Rightarrow> reject rd rt command InvalidPayload
                  | Some descriptor \<Rightarrow>
                      (case rt_product_config rt of
                         None \<Rightarrow> reject rd rt command RejBackendUnavailable
                       | Some config \<Rightarrow>
                           (let path = path_of (path_join (pc_models_dir config) (md_filename descriptor));
                                (rt, ack, operation_id, token) = accept_operation rd rt command in
                            (spawn rt (DeleteTask model path operation_id token (vc_envelope command)), ack))))
        | _ \<Rightarrow> reject rd rt command InvalidPayload)"

section \<open>Documents and settings\<close>

fun port_error_text :: "PlatformPortError \<Rightarrow> string" where
  "port_error_text QueueFull = ''platform request queue is full''"
| "port_error_text UnknownRequest = ''unknown platform request''"
| "port_error_text (PortFailed e) = ''platform request failed: '' @ e"
| "port_error_text PortCancelled = ''platform request cancelled''"
| "port_error_text PortTimeout = ''platform request timed out''"

definition fail_document :: "'be MukeiRuntime \<Rightarrow> string \<Rightarrow> string \<Rightarrow> 'be MukeiRuntime" where
  "fail_document rt document_id err =
     with_features rt (fst (update_document (rt_features rt) document_id
       (\<lambda>d. d\<lparr>dp_status := DsFailed, dp_error_code := Some err\<rparr>)))"

definition grant_document :: "'be RuntimeReadings \<Rightarrow> 'be MukeiRuntime \<Rightarrow> ValidatedCommand \<Rightarrow> 'be reply" where
  "grant_document rd rt command =
     ensure_ready rd rt command
       (case vc_payload command of
          DocumentGrantPayload target label mime_type \<Rightarrow>
            (let (rt, ack, operation_id, token) = accept_operation rd rt command;
                 document_id = rd_uuid rd 2;
                 rt = with_features rt (insert_document (rt_features rt)
                   \<lparr>dp_document_id = document_id, dp_label = label, dp_mime_type = mime_type,
                    dp_source_fingerprint = rd_blake3_hex rd target, dp_staged_path = None, dp_size_bytes = None,
                    dp_status = DsStaging, dp_error_code = None\<rparr>) in
             case broker_enqueue (rt_platform rt) (Some operation_id) (DocumentStage target label mime_type) (rd_uuid rd 3) (rd_now rd) of
               (_, Inl _) \<Rightarrow>
                 (update_op rd (fail_document rt document_id ''platform_queue_full'') operation_id OpFailed None
                    (Some ''platform_queue_full'') Null, ack)
             | (platform, Inr request_id) \<Rightarrow>
                 (spawn (rt\<lparr>rt_platform := platform\<rparr>) (GrantTask document_id request_id operation_id token (vc_envelope command)), ack))
        | _ \<Rightarrow> reject rd rt command InvalidPayload)"

definition revoke_document :: "'be RuntimeReadings \<Rightarrow> 'be MukeiRuntime \<Rightarrow> ValidatedCommand \<Rightarrow> 'be reply" where
  "revoke_document rd rt command =
     ensure_ready rd rt command
       (case vc_payload command of
          DocumentPayload document_id \<Rightarrow>
            (case document_of (rt_features rt) document_id of
               None \<Rightarrow> reject rd rt command StaleScope
             | Some document \<Rightarrow>
                 (let (rt, ack, operation_id, token) = accept_operation rd rt command in
                  case dp_staged_path document of
                    None \<Rightarrow>
                      (update_op rd (with_features rt (fst (remove_document (rt_features rt) document_id))) operation_id OpCompleted
                         (Some f64_one) None (Object [(''document_id'', String document_id)]), ack)
                  | Some staged_path \<Rightarrow>
                      (case broker_enqueue (rt_platform rt) (Some operation_id) (DocumentDelete staged_path) (rd_uuid rd 2) (rd_now rd) of
                         (_, Inl e) \<Rightarrow> (update_op rd rt operation_id OpFailed None (Some (port_error_text e)) Null, ack)
                       | (platform, Inr request_id) \<Rightarrow>
                           (spawn (rt\<lparr>rt_platform := platform\<rparr>)
                              (RevokeTask document_id request_id (rt_rag_service rt) operation_id token (vc_envelope command)), ack))))
        | _ \<Rightarrow> reject rd rt command InvalidPayload)"

definition retry_document_ingestion :: "'be RuntimeReadings \<Rightarrow> 'be MukeiRuntime \<Rightarrow> ValidatedCommand \<Rightarrow> 'be reply" where
  "retry_document_ingestion rd rt command =
     ensure_ready rd rt command
       (case vc_payload command of
          DocumentPayload document_id \<Rightarrow>
            (case document_of (rt_features rt) document_id of
               None \<Rightarrow> reject rd rt command StaleScope
             | Some document \<Rightarrow>
                 (case dp_staged_path document of
                    None \<Rightarrow> reject rd rt command StaleScope
                  | Some staged_path \<Rightarrow>
                      if \<not> rt_rag_service rt then reject rd rt command CapabilityUnavailable
                      else
                        let (rt, ack, operation_id, token) = accept_operation rd rt command in
                        (spawn rt (RetryTask document_id staged_path (dp_mime_type document) operation_id token (vc_envelope command)), ack)))
        | _ \<Rightarrow> reject rd rt command InvalidPayload)"

text \<open>The policy a setting asks for; \<open>None\<close> rejects the command.\<close>
definition setting_policy :: "string \<Rightarrow> json \<Rightarrow> RemoteFeaturePolicy option option" where
  "setting_policy key v =
     (if key = ''remote_feature_policy''
      then (case as_str v of
              None \<Rightarrow> None
            | Some s \<Rightarrow> (case policy_from_str s of Inr p \<Rightarrow> Some (Some p) | Inl _ \<Rightarrow> None))
      else Some None)"

definition update_setting :: "'be RuntimeReadings \<Rightarrow> 'be MukeiRuntime \<Rightarrow> ValidatedCommand \<Rightarrow> 'be reply" where
  "update_setting rd rt command =
     ensure_ready rd rt command
       (case vc_payload command of
          SettingUpdatePayload key v \<Rightarrow>
            (case setting_policy key v of
               None \<Rightarrow> reject rd rt command InvalidPayload
             | Some remote_policy \<Rightarrow>
                 (let previous = map_of (rt_settings rt) key;
                      rt = rt\<lparr>rt_settings := AList.update key v (rt_settings rt)\<rparr> in
                  if \<not> persist_settings_now rd rt
                  then reject rd (rt\<lparr>rt_settings := (case previous of
                         Some old \<Rightarrow> AList.update key old (rt_settings rt)
                       | None \<Rightarrow> AList.delete key (rt_settings rt))\<rparr>) command RejBackendUnavailable
                  else
                    let rt = (case remote_policy of Some p \<Rightarrow> set_remote_policy rd rt p | None \<Rightarrow> rt);
                        (rt, ack, operation_id, _) = accept_operation rd rt command;
                        result = Object [(''key'', String key), (''value'', v)];
                        rt = update_op rd rt operation_id OpCompleted (Some f64_one) None result in
                    (publish rd 2 rt ''application:settings'' ''settings.updated'' result
                       (Some (vc_envelope command)) (Some operation_id), ack)))
        | _ \<Rightarrow> reject rd rt command InvalidPayload)"

section \<open>The router\<close>

definition command_targets_temporary_chat :: "'be MukeiRuntime \<Rightarrow> ValidatedCommand \<Rightarrow> bool" where
  "command_targets_temporary_chat rt command =
     (case ce_scope (vc_envelope command) of
        None \<Rightarrow> False
      | Some s \<Rightarrow>
          (case (sc_conversation_id s, sc_branch_id s) of
             (Some c, Some b) \<Rightarrow> session_state (rt_ephemeral rt) (c, b) \<noteq> SessionAbsent
           | _ \<Rightarrow> False))"

definition document_command :: "CommandType \<Rightarrow> bool" where
  "document_command c \<longleftrightarrow> c = CmdDocumentGrant \<or> c = DocumentRevoke \<or> c = DocumentRetryIngestion"

fun handle :: "'be RuntimeReadings \<Rightarrow> 'be MukeiRuntime \<Rightarrow> ValidatedCommand \<Rightarrow> CommandType \<Rightarrow> 'be reply" where
  "handle rd rt command AppInitialize = initialize rd rt command"
| "handle rd rt command ChatSendMessage = send_message rd rt command"
| "handle rd rt command ChatStopGeneration = stop_generation rd rt command"
| "handle rd rt command ChatClearConversation = clear_conversation rd rt command"
| "handle rd rt command CmdModelDownload = download_model rd rt command"
| "handle rd rt command DownloadCancel = cancel_download rd rt command"
| "handle rd rt command ModelSelect = select_model rd rt command"
| "handle rd rt command ModelDelete = delete_model rd rt command"
| "handle rd rt command CmdDocumentGrant = grant_document rd rt command"
| "handle rd rt command DocumentRevoke = revoke_document rd rt command"
| "handle rd rt command DocumentRetryIngestion = retry_document_ingestion rd rt command"
| "handle rd rt command SettingsUpdate = update_setting rd rt command"
| "handle rd rt command RecoveryResume = recover_chat rd rt command False"
| "handle rd rt command RecoveryRegenerate = recover_chat rd rt command True"

definition dispatch :: "'be RuntimeReadings \<Rightarrow> 'be MukeiRuntime \<Rightarrow> ValidatedCommand \<Rightarrow> 'be reply" where
  "dispatch rd rt command =
     (if document_command (vc_command_type command) \<and> command_targets_temporary_chat rt command
      then reject rd rt command CapabilityUnavailable
      else handle rd rt command (vc_command_type command))"

section \<open>Replay\<close>

definition opt_field :: "string \<Rightarrow> string option \<Rightarrow> (string \<times> json) list" where
  "opt_field name v = (case v of None \<Rightarrow> [] | Some s \<Rightarrow> [(name, String s)])"

definition scope_json :: "CommandScope \<Rightarrow> json" where
  "scope_json s =
     Object (opt_field ''branch_id'' (sc_branch_id s) @ opt_field ''conversation_id'' (sc_conversation_id s)
       @ opt_field ''document_id'' (sc_document_id s) @ opt_field ''model_id'' (sc_model_id s) @ opt_field ''turn_id'' (sc_turn_id s))"

definition command_fingerprint :: "CommandEnvelopeV2 \<Rightarrow> json" where
  "command_fingerprint env =
     Object [(''command_type'', String (ce_command_type env)),
       (''operation_id'', (case ce_operation_id env of None \<Rightarrow> Null | Some i \<Rightarrow> String i)),
       (''payload'', ce_payload env),
       (''scope'', (case ce_scope env of None \<Rightarrow> Null | Some s \<Rightarrow> scope_json s))]"

definition readdress :: "time \<Rightarrow> CommandEnvelopeV2 \<Rightarrow> CommandAcknowledgementV2 \<Rightarrow> CommandAcknowledgementV2" where
  "readdress now env ack =
     ack\<lparr>ak_command_id := ce_command_id env, ak_request_id := ce_request_id env,
         ak_correlation_id := ce_correlation_id env, ak_timestamp := now\<rparr>"

definition replay_lookup :: "'be RuntimeReadings \<Rightarrow> 'be MukeiRuntime \<Rightarrow> ValidatedCommand \<Rightarrow> CommandAcknowledgementV2 option" where
  "replay_lookup rd rt command =
     (case ce_idempotency_key (vc_envelope command) of
        None \<Rightarrow> None
      | Some key \<Rightarrow>
          map_option (\<lambda>r. if rr_fingerprint r \<noteq> command_fingerprint (vc_envelope command)
                          then ack_rejected (rd_now rd) (Some (vc_envelope command)) DuplicateReplayConflict
                          else readdress (rd_now rd) (vc_envelope command) (rr_acknowledgement r))
            (map_of (rt_replay rt) key))"

definition remember_replay :: "'be MukeiRuntime \<Rightarrow> ValidatedCommand \<Rightarrow> CommandAcknowledgementV2 \<Rightarrow> 'be MukeiRuntime" where
  "remember_replay rt command ack =
     (case ce_idempotency_key (vc_envelope command) of
        None \<Rightarrow> rt
      | Some key \<Rightarrow>
          if map_of (rt_replay rt) key \<noteq> None then rt
          else rt\<lparr>rt_replay := AList.update key
                    \<lparr>rr_fingerprint = command_fingerprint (vc_envelope command), rr_acknowledgement = ack\<rparr> (rt_replay rt)\<rparr>)"

definition submit :: "'be RuntimeReadings \<Rightarrow> 'be MukeiRuntime \<Rightarrow> CommandEnvelopeV2 \<Rightarrow> 'be reply" where
  "submit rd rt env =
     (if rt_closed rt then (rt, ack_rejected (rd_now rd) (Some env) RejBackendUnavailable)
      else case validate_command env of
        Inl reason \<Rightarrow> (rt, ack_rejected (rd_now rd) (Some env) reason)
      | Inr command \<Rightarrow>
          (case replay_lookup rd rt command of
             Some ack \<Rightarrow> (rt, ack)
           | None \<Rightarrow> (let (rt, ack) = dispatch rd rt command in (remember_replay rt command ack, ack))))"

section \<open>Temporary chats\<close>

text \<open>Attempt \<open>i\<close> mints the identifiers \<open>2i\<close> and \<open>2i + 1\<close>; the event's identifier is the 17th.\<close>
fun begin_attempts :: "'be RuntimeReadings \<Rightarrow> 'be MukeiRuntime \<Rightarrow> nat \<Rightarrow> nat \<Rightarrow> 'be MukeiRuntime \<times> chat_key option" where
  "begin_attempts rd rt i 0 = (rt, None)"
| "begin_attempts rd rt i (Suc n) =
     (let key = (rd_uuid rd (2 * i), rd_uuid rd (2 * i + 1)) in
      if fs_history (rt_features rt) key \<noteq> [] then begin_attempts rd rt (Suc i) n
      else case eph_begin (rt_ephemeral rt) key of
        (_, False) \<Rightarrow> begin_attempts rd rt (Suc i) n
      | (e, True) \<Rightarrow>
          (publish rd 16 (with_ephemeral rt e) (conversation_stream (fst key)) ''chat.temporary.started''
             (Object [(''branch_id'', String (snd key)), (''rag_enabled'', Bool False)]) None None, Some key))"

definition begin_temporary_chat :: "'be RuntimeReadings \<Rightarrow> 'be MukeiRuntime \<Rightarrow> 'be MukeiRuntime \<times> chat_key option" where
  "begin_temporary_chat rd rt =
     (if rt_closed rt \<or> rt_state rt \<noteq> RtReady then (rt, None) else begin_attempts rd rt 0 8)"

definition of_conversation :: "string \<Rightarrow> ReplayRecord \<Rightarrow> bool" where
  "of_conversation conversation r \<longleftrightarrow>
     Option.bind (Option.bind (json_get (rr_fingerprint r) ''scope'') (\<lambda>s. json_get s ''conversation_id'')) as_str = Some conversation"

definition purge_replay_for_conversation :: "'be MukeiRuntime \<Rightarrow> string \<Rightarrow> 'be MukeiRuntime" where
  "purge_replay_for_conversation rt conversation =
     rt\<lparr>rt_replay := filter (\<lambda>(_, r). \<not> of_conversation conversation r) (rt_replay rt)\<rparr>"

definition end_temporary_chat :: "'be RuntimeReadings \<Rightarrow> 'be MukeiRuntime \<Rightarrow> string \<Rightarrow> string \<Rightarrow> 'be MukeiRuntime \<times> bool" where
  "end_temporary_chat rd rt conversation branch =
     (if rd_parse_uuid rd conversation = None \<or> rd_parse_uuid rd branch = None then (rt, False)
      else case eph_end (rt_ephemeral rt) (conversation, branch) of
        (_, None) \<Rightarrow> (rt, False)
      | (e, Some operation_ids) \<Rightarrow>
          (let rt = purge_replay_for_conversation (with_ephemeral rt e) conversation;
               (bus, purged) = purge_temporary_chat (rt_events rt) conversation operation_ids in
           (publish rd 0 (rt\<lparr>rt_events := bus\<rparr>) ''application:temporary-chat'' ''chat.temporary.ended''
              (Object [(''conversation_id'', String conversation), (''branch_id'', String branch), (''purged_events'', json_nat purged)])
              None None, True)))"

section \<open>Shutdown\<close>

text \<open>
  The flush of the projections and of the settings may fail, which is only logged. The settings in
  the store are not part of this state; they are read when the store is attached.
\<close>
definition shutdown :: "'be RuntimeReadings \<Rightarrow> 'be MukeiRuntime \<Rightarrow> projection_store \<Rightarrow> (string \<Rightarrow> unit result)
     \<Rightarrow> 'be MukeiRuntime \<times> projection_store" where
  "shutdown rd rt st save =
     (if rt_closed rt then (rt, st)
      else
        let session = Object [(''runtime_session_id'', String (rt_session_id rt))];
            rt = publish rd 0 (rt\<lparr>rt_closed := True, rt_state := RtStopping\<rparr>) ''application:lifecycle'' ''runtime.stopping'' session None None;
            rt = (with_ephemeral (with_features rt (cancel_all (rt_features rt))) (cancel_all_and_clear (rt_ephemeral rt)))
                   \<lparr>rt_cancelled := True, rt_replay := [], rt_activation := fst (deactivate (rt_activation rt))\<rparr>;
            (st, _) = flush_projections (rt_features rt) st save in
        (publish rd 1 (rt\<lparr>rt_state := RtStopped\<rparr>) ''application:lifecycle'' ''runtime.stopped'' session None None, st))"

section \<open>What an answered command does\<close>

text \<open>Operations on record, durably or in a temporary chat.\<close>
definition has_op :: "'be MukeiRuntime \<Rightarrow> string \<Rightarrow> bool" where
  "has_op rt i \<longleftrightarrow> map_of (fs_operations (rt_features rt)) i \<noteq> None"

definition in_session :: "'be MukeiRuntime \<Rightarrow> string \<Rightarrow> bool" where
  "in_session rt i \<longleftrightarrow> (\<exists>k ids. map_of (ec_operation_ids (rt_ephemeral rt)) k = Some ids \<and> i \<in> ids)"

text \<open>Every temporary chat has its set of operation identifiers, which holds its live operations.\<close>
definition paired :: "EphemeralChatState \<Rightarrow> bool" where
  "paired e \<longleftrightarrow>
     (\<forall>k. map_of (ec_conversations e) k = None \<longleftrightarrow> map_of (ec_operation_ids e) k = None)
     \<and> (\<forall>i op. (i, op) \<in> set (ec_operations e) \<longrightarrow>
          (\<exists>ids. map_of (ec_operation_ids e) (eo_conversation_id op, eo_branch_id op) = Some ids \<and> i \<in> ids))
     \<and> (\<forall>k ids. map_of (ec_operation_ids e) k = Some ids \<longrightarrow> finite ids)"

text \<open>Only operations on record can be cancelled.\<close>
definition tokens_named :: "FeatureState \<Rightarrow> bool" where
  "tokens_named s \<longleftrightarrow> (\<forall>i. map_of (fs_operation_tokens s) i \<noteq> None \<longrightarrow> map_of (fs_operations s) i \<noteq> None)"

definition features_ok :: "FeatureState \<Rightarrow> bool" where
  "features_ok s \<longleftrightarrow> fs_wf s \<and> tokens_named s"

text \<open>Keys of temporary chats, begun or ended, and the tasks that may store an answer durably.\<close>
definition held :: "'be MukeiRuntime \<Rightarrow> chat_key \<Rightarrow> bool" where
  "held rt k \<longleftrightarrow> session_state (rt_ephemeral rt) k \<noteq> SessionAbsent"

fun stores_durably :: "RuntimeTask \<Rightarrow> chat_key \<Rightarrow> bool" where
  "stores_durably (ChatTask key _ _ _ _ _ _ temporary _) k \<longleftrightarrow> k = key \<and> \<not> temporary"
| "stores_durably _ k \<longleftrightarrow> False"

text \<open>
  A change that forgets no operation, adds none outside \<open>X\<close>, leaves replay records and retired chats
  alone, and brings nothing of a temporary chat to the durable side.
\<close>
definition advances :: "string set \<Rightarrow> 'be MukeiRuntime \<Rightarrow> 'be MukeiRuntime \<Rightarrow> bool" where
  "advances X rt rt' \<longleftrightarrow>
     rt_replay rt' = rt_replay rt \<and> rt_closed rt' = rt_closed rt
     \<and> ec_retired (rt_ephemeral rt') = ec_retired (rt_ephemeral rt)
     \<and> (paired (rt_ephemeral rt) \<longrightarrow> paired (rt_ephemeral rt'))
     \<and> (features_ok (rt_features rt) \<longrightarrow> features_ok (rt_features rt'))
     \<and> (\<forall>i. has_op rt i \<longrightarrow> has_op rt' i) \<and> (\<forall>i. has_op rt' i \<longrightarrow> has_op rt i \<or> i \<in> X)
     \<and> (\<forall>i. in_session rt i \<longrightarrow> in_session rt' i)
     \<and> (\<forall>k. held rt' k \<longleftrightarrow> held rt k)
     \<and> (\<forall>k. durably_known (rt_features rt') k \<longrightarrow> durably_known (rt_features rt) k \<or> \<not> held rt k)
     \<and> (\<forall>t \<in> set (rt_tasks rt'). t \<in> set (rt_tasks rt) \<or> (\<forall>k. stores_durably t k \<longrightarrow> \<not> held rt k))"

lemma advances_refl [simp, intro]: "advances X rt rt"
  by (simp add: advances_def)

lemma advances_trans: "advances X rt rt' \<Longrightarrow> advances X rt' rt'' \<Longrightarrow> advances X rt rt''"
  unfolding advances_def by (elim conjE, intro conjI) (simp_all del: split_paired_All, blast+)

lemma advances_frame:
  assumes "rt_replay rt' = rt_replay rt" "rt_closed rt' = rt_closed rt" "rt_stores rt' = rt_stores rt"
    "\<And>t. t \<in> set (rt_tasks rt') \<Longrightarrow> t \<in> set (rt_tasks rt) \<or> (\<forall>k. \<not> stores_durably t k \<or> \<not> held rt k)"
  shows "advances X rt rt'"
  using assms by (auto simp: advances_def has_op_def in_session_def held_def)

lemma advances_updates [simp]:
  "advances X rt (publish rd n rt s et p c i)"
  "(\<And>k. stores_durably t k \<Longrightarrow> \<not> held rt k) \<Longrightarrow> advances X rt (spawn rt t)"
  "advances X rt (rt\<lparr>rt_state := st\<rparr>)"
  "advances X rt (rt\<lparr>rt_settings := ss\<rparr>)"
  "advances X rt (rt\<lparr>rt_platform := pf\<rparr>)"
  "advances X rt (rt\<lparr>rt_product_config := pc\<rparr>)"
  "advances X rt (install_agent_loop rd rt config)"
  "advances X rt (set_remote_policy rd rt policy)"
  by (auto intro!: advances_frame simp: publish_def spawn_def install_agent_loop_def set_remote_policy_def reinstall_def split: option.splits)

lemma advances_features:
  assumes "features_ok (rt_features rt) \<Longrightarrow> features_ok f"
    and "\<And>i. map_of (fs_operations f) i \<noteq> None \<longleftrightarrow> map_of (fs_operations (rt_features rt)) i \<noteq> None \<or> i \<in> Y" "Y \<subseteq> X"
    and "\<And>k. durably_known f k \<Longrightarrow> durably_known (rt_features rt) k \<or> \<not> held rt k"
  shows "advances X rt (with_features rt f)"
  using assms by (auto simp: advances_def has_op_def in_session_def with_features_def held_def)

lemma durably_known_other: "key \<noteq> ''conversations'' \<Longrightarrow> durably_known (persist_value s key v) k \<longleftrightarrow> durably_known s k"
  by (auto simp: durably_known_def queue_mentions_def persist_value_def)

lemma durably_known_fields [simp]:
  "durably_known (s\<lparr>fs_operations := a\<rparr>) k = durably_known s k" "durably_known (s\<lparr>fs_operation_tokens := b\<rparr>) k = durably_known s k"
  "durably_known (s\<lparr>fs_cancelled := c\<rparr>) k = durably_known s k" "durably_known (s\<lparr>fs_next_token := d\<rparr>) k = durably_known s k"
  "durably_known (s\<lparr>fs_models := e\<rparr>) k = durably_known s k" "durably_known (s\<lparr>fs_documents := f\<rparr>) k = durably_known s k"
  by (simp_all add: durably_known_def queue_mentions_def)

lemma durably_known_unchanged:
  "durably_known (fst (create_operation s c u now)) k \<longleftrightarrow> durably_known s k"
  "durably_known (update_operation s i st p d r now) k \<longleftrightarrow> durably_known s k"
  "durably_known (insert_model s m) k \<longleftrightarrow> durably_known s k"
  "durably_known (fst (remove_model s j)) k \<longleftrightarrow> durably_known s k"
  "durably_known (fst (update_model s j f)) k \<longleftrightarrow> durably_known s k"
  "durably_known (insert_document s dc) k \<longleftrightarrow> durably_known s k"
  "durably_known (fst (remove_document s j)) k \<longleftrightarrow> durably_known s k"
  "durably_known (fst (update_document s j g)) k \<longleftrightarrow> durably_known s k"
  by (auto simp: create_operation_def update_operation_def insert_model_def remove_model_def update_model_def
      insert_document_def remove_document_def update_document_def Let_def persist_operations_def persist_models_def
      persist_documents_def durably_known_other split: option.splits)

lemma durably_known_cancel: "durably_known (fst (cancel_operation s i now)) k \<longleftrightarrow> durably_known s k"
  by (auto simp: cancel_operation_def durably_known_unchanged split: option.splits)

lemma create_operation_ops:
  "map_of (fs_operations (fst (create_operation s c u now))) i \<noteq> None
     \<longleftrightarrow> map_of (fs_operations s) i \<noteq> None \<or> i \<in> {case ce_operation_id (vc_envelope c) of Some j \<Rightarrow> j | None \<Rightarrow> u}"
  by (simp add: create_operation_def Let_def persist_defs update_conv')

lemma create_operation_named: "tokens_named s \<Longrightarrow> tokens_named (fst (create_operation s c u now))"
  by (simp add: tokens_named_def create_operation_def Let_def persist_defs update_conv')

lemma update_operation_named: "tokens_named s \<Longrightarrow> tokens_named (update_operation s i st p d r now)"
  by (auto simp: tokens_named_def update_operation_def Let_def persist_defs update_conv' delete_conv' split: option.splits)

lemma cancel_operation_named: "tokens_named s \<Longrightarrow> tokens_named (fst (cancel_operation s i now))"
  using update_operation_named [of "s\<lparr>fs_cancelled := X\<rparr>" for X]
  by (auto simp: cancel_operation_def tokens_named_def split: option.splits)

lemma operations_ok:
  assumes "features_ok s"
  shows "features_ok (fst (create_operation s c u now))" "features_ok (update_operation s i st p d r now)"
    "features_ok (fst (cancel_operation s i now))"
  using assms create_operation_wf create_operation_named update_operation_wf update_operation_named
    cancel_operation_wf cancel_operation_named
  by (auto simp: features_ok_def)

lemma projections_ops:
  "fs_operations (insert_model s m) = fs_operations s" "fs_operations (fst (remove_model s i)) = fs_operations s"
  "fs_operations (fst (update_model s i f)) = fs_operations s"
  "fs_operations (insert_document s d) = fs_operations s" "fs_operations (fst (remove_document s i)) = fs_operations s"
  "fs_operations (fst (update_document s i g)) = fs_operations s"
  "fs_operations (fs_append_message s k msg) = fs_operations s"
  "fs_operations (fst (fs_clear_conversation s k)) = fs_operations s"
  "fs_operations (fst (fs_remove_last_assistant s k)) = fs_operations s"
  by (simp_all add: insert_model_def remove_model_def update_model_def insert_document_def remove_document_def
      update_document_def fs_append_message_def fs_clear_conversation_def fs_remove_last_assistant_def persist_defs split: option.splits)

lemma projections_tokens:
  "fs_operation_tokens (insert_model s m) = fs_operation_tokens s" "fs_operation_tokens (fst (remove_model s i)) = fs_operation_tokens s"
  "fs_operation_tokens (fst (update_model s i f)) = fs_operation_tokens s"
  "fs_operation_tokens (insert_document s d) = fs_operation_tokens s" "fs_operation_tokens (fst (remove_document s i)) = fs_operation_tokens s"
  "fs_operation_tokens (fst (update_document s i g)) = fs_operation_tokens s"
  "fs_operation_tokens (fs_append_message s k msg) = fs_operation_tokens s"
  "fs_operation_tokens (fst (fs_clear_conversation s k)) = fs_operation_tokens s"
  "fs_operation_tokens (fst (fs_remove_last_assistant s k)) = fs_operation_tokens s"
  by (simp_all add: insert_model_def remove_model_def update_model_def insert_document_def remove_document_def
      update_document_def fs_append_message_def fs_clear_conversation_def fs_remove_last_assistant_def persist_defs split: option.splits)

lemma projections_ok:
  assumes "features_ok s"
  shows "features_ok (insert_model s m)" "features_ok (fst (remove_model s j))"
    "(\<And>x. mp_model_id (f x) = mp_model_id x) \<Longrightarrow> features_ok (fst (update_model s j f))"
    "features_ok (insert_document s dc)" "features_ok (fst (remove_document s j))"
    "(\<And>x. dp_document_id (g x) = dp_document_id x) \<Longrightarrow> features_ok (fst (update_document s j g))"
    "features_ok (fs_append_message s k msg)" "features_ok (fst (fs_clear_conversation s k))"
    "features_ok (fst (fs_remove_last_assistant s k))"
  using assms models_wf [of s] documents_wf [of s] conversations_wf [of s]
  by (simp_all add: features_ok_def tokens_named_def projections_ops projections_tokens)

lemma update_operation_ops:
  "map_of (fs_operations (update_operation s i st p d r now)) j \<noteq> None \<longleftrightarrow> map_of (fs_operations s) j \<noteq> None \<or> j \<in> {}"
  by (auto simp: update_operation_def Let_def persist_defs update_conv' split: option.splits)

lemma cancel_operation_ops:
  "map_of (fs_operations (fst (cancel_operation s i now))) j \<noteq> None \<longleftrightarrow> map_of (fs_operations s) j \<noteq> None \<or> j \<in> {}"
  using update_operation_ops [of "s\<lparr>fs_cancelled := X\<rparr>" for X]
  by (simp add: cancel_operation_def split: option.splits)

lemma advances_same_ops:
  "(features_ok (rt_features rt) \<Longrightarrow> features_ok f) \<Longrightarrow> fs_operations f = fs_operations (rt_features rt)
   \<Longrightarrow> (\<And>k. durably_known f k \<Longrightarrow> durably_known (rt_features rt) k \<or> \<not> held rt k) \<Longrightarrow> advances X rt (with_features rt f)"
  by (rule advances_features [of _ _ "{}"]) simp_all

lemma advances_projections [simp]:
  "advances X rt (update_op rd rt i st p d r)"
  "advances X rt (with_features rt (fst (cancel_operation (rt_features rt) i now)))"
  "advances X rt (with_features rt (insert_model (rt_features rt) m))"
  "advances X rt (with_features rt (insert_document (rt_features rt) dc))"
  "advances X rt (with_features rt (fst (remove_document (rt_features rt) j)))"
  "advances X rt (fail_document rt j e)"
  unfolding update_op_def fail_document_def
  by (rule advances_features [of _ _ "{}"] advances_same_ops; simp add: update_operation_ops [simplified] cancel_operation_ops [simplified]
      operations_ok projections_ok projections_ops durably_known_unchanged durably_known_cancel)+

lemma advances_stores:
  assumes "features_ok (rt_features rt) \<Longrightarrow> features_ok (cs_features cs)" "fs_operations (cs_features cs) = fs_operations (rt_features rt)"
    "ec_retired (cs_ephemeral cs) = ec_retired (rt_ephemeral rt)" "paired (rt_ephemeral rt) \<Longrightarrow> paired (cs_ephemeral cs)"
    "ec_operation_ids (cs_ephemeral cs) = ec_operation_ids (rt_ephemeral rt)"
    "\<And>k. session_state (cs_ephemeral cs) k = session_state (rt_ephemeral rt) k"
    "\<And>k. durably_known (cs_features cs) k \<Longrightarrow> durably_known (rt_features rt) k \<or> \<not> held rt k"
  shows "advances X rt (rt\<lparr>rt_stores := cs\<rparr>)"
  using assms by (simp add: advances_def has_op_def in_session_def held_def)

lemma paired_update:
  assumes "paired e" "map_of (ec_conversations e) k \<noteq> None"
  shows "paired (e\<lparr>ec_conversations := AList.update k v (ec_conversations e)\<rparr>)"
  using assms by (simp add: paired_def update_conv' del: split_paired_All)

lemma session_state_routed [simp]:
  "session_state (cs_ephemeral (fst (append_chat_message cs k m))) k' = session_state (cs_ephemeral cs) k'"
  "session_state (cs_ephemeral (fst (clear_chat_conversation cs k))) k' = session_state (cs_ephemeral cs) k'"
  "session_state (cs_ephemeral (fst (remove_last_assistant_chat_message cs k))) k' = session_state (cs_ephemeral cs) k'"
  by (auto simp: append_chat_message_def append_as_def clear_chat_conversation_def clear_as_def
      remove_last_assistant_chat_message_def remove_answer_as_def eph_append_message_def eph_clear_conversation_def
      eph_remove_last_assistant_def session_state_def update_conv' case_prod_unfold Let_def
      split: EphemeralSessionState.splits option.splits if_splits)

lemma durably_known_routed:
  "durably_known (cs_features (fst (append_chat_message cs k m))) k' \<Longrightarrow>
     durably_known (cs_features cs) k' \<or> session_state (cs_ephemeral cs) k' = SessionAbsent"
  "durably_known (cs_features (fst (clear_chat_conversation cs k))) k' \<Longrightarrow> durably_known (cs_features cs) k'"
  "durably_known (cs_features (fst (remove_last_assistant_chat_message cs k))) k' \<Longrightarrow> durably_known (cs_features cs) k'"
  by (auto simp: append_chat_message_def append_as_def clear_chat_conversation_def clear_as_def
      remove_last_assistant_chat_message_def remove_answer_as_def case_prod_unfold Let_def
      split: EphemeralSessionState.splits dest: durably_known_ops)

lemma advances_chat [simp]:
  "advances X rt (rt\<lparr>rt_stores := fst (append_chat_message (rt_stores rt) k m)\<rparr>)"
  "advances X rt (rt\<lparr>rt_stores := fst (clear_chat_conversation (rt_stores rt) k)\<rparr>)"
  "advances X rt (rt\<lparr>rt_stores := fst (remove_last_assistant_chat_message (rt_stores rt) k)\<rparr>)"
  by (rule advances_stores; (auto simp: held_def dest: durably_known_routed; fail)?; auto simp: append_chat_message_def append_as_def clear_chat_conversation_def clear_as_def
        remove_last_assistant_chat_message_def remove_answer_as_def eph_append_message_def eph_clear_conversation_def
        eph_remove_last_assistant_def projections_ok projections_ops paired_update case_prod_unfold Let_def
        split: EphemeralSessionState.splits option.splits if_splits)+

lemma advances_ephemeral:
  assumes "ec_retired e = ec_retired (rt_ephemeral rt)" "paired (rt_ephemeral rt) \<Longrightarrow> paired e"
    "\<And>k ids. map_of (ec_operation_ids (rt_ephemeral rt)) k = Some ids \<Longrightarrow> \<exists>ids'. map_of (ec_operation_ids e) k = Some ids' \<and> ids \<subseteq> ids'"
    "\<And>k. session_state e k = session_state (rt_ephemeral rt) k"
  shows "advances X rt (with_ephemeral rt e)"
proof -
  have "in_session (with_ephemeral rt e) i" if "in_session rt i" for i
    using that assms(3) by (fastforce simp: in_session_def with_ephemeral_def)
  then show ?thesis using assms(1,2,4) by (simp add: advances_def has_op_def with_ephemeral_def held_def)
qed

lemma paired_ops:
  assumes "paired e"
  shows "paired (fst (eph_create_operation e k proposed u))" "paired (eph_finish_operation e i)" "paired (fst (eph_cancel_operation e i))"
proof -
  have d: "(j, op) \<in> set (AList.delete i (ec_operations e)) \<Longrightarrow> (j, op) \<in> set (ec_operations e)" for j op
    using set_delete_subset [of i "ec_operations e"] by blast
  show "paired (eph_finish_operation e i)" "paired (fst (eph_cancel_operation e i))"
    using assms d unfolding paired_def eph_finish_operation_def eph_cancel_operation_def
    by (auto simp del: split_paired_All split_paired_Ex split: option.splits)
  have "paired (e\<lparr>ec_operation_ids := AList.update k (insert j ids) (ec_operation_ids e),
      ec_operations := AList.update j \<lparr>eo_conversation_id = fst k, eo_branch_id = snd k, eo_token = t\<rparr> (ec_operations e),
      ec_next_token := n\<rparr>)" (is "paired ?e")
    if ids: "map_of (ec_operation_ids e) k = Some ids" for j ids t n
  proof -
    have "\<exists>ids'. map_of (ec_operation_ids ?e) (eo_conversation_id op, eo_branch_id op) = Some ids' \<and> i' \<in> ids'"
      if "(i', op) \<in> set (ec_operations ?e)" for i' op
    proof (cases "(i', op) \<in> set (ec_operations e)")
      case True
      then show ?thesis using assms ids unfolding paired_def by (fastforce simp: update_conv')
    next
      case False
      then have "i' = j \<and> (eo_conversation_id op, eo_branch_id op) = k"
        using that set_update_subset [of j _ "ec_operations e"] by fastforce
      then show ?thesis by (simp add: update_conv')
    qed
    then show ?thesis using assms ids unfolding paired_def by (simp add: update_conv' del: split_paired_All)
  qed
  then show "paired (fst (eph_create_operation e k proposed u))"
    using assms by (auto simp: eph_create_operation_def Let_def split: option.splits)
qed

lemma advances_sessions [simp]:
  "advances X rt (with_ephemeral rt (fst (eph_create_operation (rt_ephemeral rt) k proposed u)))"
  "advances X rt (with_ephemeral rt (eph_finish_operation (rt_ephemeral rt) i))"
  "advances X rt (with_ephemeral rt (fst (eph_cancel_operation (rt_ephemeral rt) i)))"
  by (rule advances_ephemeral; auto simp: paired_ops; auto simp: session_state_def eph_create_operation_def eph_finish_operation_def
        eph_cancel_operation_def update_conv' Let_def split: option.splits if_splits)+

lemma session_op_known:
  assumes "paired (rt_ephemeral rt)" "map_of (ec_operations (rt_ephemeral rt)) i = Some op"
  shows "in_session rt i"
  using assms(1) map_of_SomeD [OF assms(2)] unfolding paired_def in_session_def by metis

section \<open>Acknowledgements\<close>

definition op_name :: "'be RuntimeReadings \<Rightarrow> ValidatedCommand \<Rightarrow> string" where
  "op_name rd c = (case ce_operation_id (vc_envelope c) of Some i \<Rightarrow> i | None \<Rightarrow> rd_uuid rd 0)"

definition addressed :: "CommandAcknowledgementV2 \<Rightarrow> CommandEnvelopeV2 \<Rightarrow> bool" where
  "addressed ack env \<longleftrightarrow>
     ak_protocol_version ack = version_current \<and> ak_command_id ack = ce_command_id env
     \<and> ak_request_id ack = ce_request_id env \<and> ak_correlation_id ack = ce_correlation_id env"

text \<open>
  The contract of a handler: its acknowledgement is addressed to the command; a rejection leaves one
  of the states \<open>R\<close>; an acceptance names an operation that is on record, the command's own or an
  earlier one.
\<close>
definition answers :: "'be MukeiRuntime set \<Rightarrow> 'be RuntimeReadings \<Rightarrow> 'be MukeiRuntime \<Rightarrow> ValidatedCommand \<Rightarrow> 'be reply \<Rightarrow> bool" where
  "answers R rd rt c r \<longleftrightarrow>
     advances {op_name rd c} rt (fst r) \<and> addressed (snd r) (vc_envelope c)
     \<and> (case ak_status (snd r) of
          AckRejected \<Rightarrow> ak_rejection_reason (snd r) \<noteq> None \<and> ak_operation_id (snd r) = None \<and> fst r \<in> R
        | AckAccepted \<Rightarrow> (\<exists>i. ak_operation_id (snd r) = Some i \<and> (has_op (fst r) i \<or> in_session (fst r) i)
            \<and> (ce_operation_id (vc_envelope c) = Some i \<or> i = op_name rd c \<or> has_op rt i)))"

lemma answers_mono: "answers R rd rt c r \<Longrightarrow> R \<subseteq> R' \<Longrightarrow> answers R' rd rt c r"
  by (auto simp: answers_def split: AcknowledgementStatus.splits)

lemma advances_mono: "advances X rt rt' \<Longrightarrow> X \<subseteq> Y \<Longrightarrow> advances Y rt rt'"
  unfolding advances_def by (elim conjE, intro conjI) (simp_all del: split_paired_All, blast+)

lemma answers_from:
  assumes "answers R rd rt' c r" "advances {} rt rt'"
  shows "answers R rd rt c r"
proof -
  have "advances {op_name rd c} rt (fst r)"
    using assms advances_mono [of "{}"] by (auto simp: answers_def intro: advances_trans)
  moreover have "has_op rt i" if "has_op rt' i" for i
    using that assms(2) by (simp add: advances_def)
  ultimately show ?thesis
    using assms(1) by (auto simp: answers_def split: AcknowledgementStatus.splits)
qed

lemma answers_reject [simp]: "answers R rd rt c (reject rd rt' c reason) \<longleftrightarrow> rt' \<in> R \<and> advances {op_name rd c} rt rt'"
  by (auto simp: answers_def reject_def ack_rejected_def addressed_def)

section \<open>Every handler keeps the contract\<close>

lemma accept_operation_cases:
  obtains rt' token where
    "accept_operation rd rt c = (rt', ack_accepted (rd_now rd) (vc_envelope c) (Some (op_name rd c)), op_name rd c, token)"
    "advances {op_name rd c} rt rt'" "has_op rt' (op_name rd c)" "rt_rag_service rt' = rt_rag_service rt"
    "rt_platform rt' = rt_platform rt" "rt_session_id rt' = rt_session_id rt" "rt_config rt' = rt_config rt"
    "rt_ephemeral rt' = rt_ephemeral rt"
proof -
  obtain f token where f: "create_operation (rt_features rt) c (rd_uuid rd 0) (rd_now rd) = (f, op_name rd c, token)"
    by (cases "create_operation (rt_features rt) c (rd_uuid rd 0) (rd_now rd)")
       (auto simp: create_operation_def op_name_def Let_def)
  have ok: "features_ok (rt_features rt) \<Longrightarrow> features_ok f"
    using operations_ok(1) [of "rt_features rt" c "rd_uuid rd 0" "rd_now rd"] f by simp
  have ops: "map_of (fs_operations f) i \<noteq> None \<longleftrightarrow> map_of (fs_operations (rt_features rt)) i \<noteq> None \<or> i \<in> {op_name rd c}" for i
    using create_operation_ops [of "rt_features rt" c "rd_uuid rd 0" "rd_now rd" i] f by (simp add: op_name_def)
  let ?rt = "publish rd 1 (with_features rt f) (operation_stream (op_name rd c)) ''operation.accepted''
      (Object [(''state'', String ''accepted'')]) (Some (vc_envelope c)) (Some (op_name rd c))"
  have "advances {op_name rd c} rt (with_features rt f)"
    using durably_known_unchanged(1) [of "rt_features rt" c "rd_uuid rd 0" "rd_now rd"] f
    by (intro advances_features [where Y = "{op_name rd c}"]) (use ok ops in simp_all)
  then have "advances {op_name rd c} rt ?rt"
    using advances_trans advances_updates(1) by blast
  moreover have "has_op ?rt (op_name rd c)"
    using ops [of "op_name rd c"] by (simp add: has_op_def publish_def with_features_def)
  ultimately show thesis
    using that [of ?rt token] f by (simp add: accept_operation_def publish_def with_features_def)
qed

text \<open>After the admission, a handler only makes changes that keep the operation.\<close>
lemma answers_accepted:
  assumes "advances {op_name rd c} rt rt1" "has_op rt1 (op_name rd c) \<or> in_session rt1 (op_name rd c)" "advances {op_name rd c} rt1 rt'"
  shows "answers R rd rt c (rt', ack_accepted now (vc_envelope c) (Some (op_name rd c)))"
  using assms advances_trans [OF assms(1,3)]
  by (auto simp: answers_def ack_accepted_def addressed_def advances_def)

lemma advances_then [intro!]:
  assumes "advances X rt rt'"
  shows "advances X rt (publish rd n rt' s et p c i)"
    "(\<And>k. stores_durably t k \<Longrightarrow> \<not> held rt' k) \<Longrightarrow> advances X rt (spawn rt' t)"
    "advances X rt (rt'\<lparr>rt_state := st\<rparr>)"
    "advances X rt (rt'\<lparr>rt_platform := pf\<rparr>)"
    "advances X rt (set_remote_policy rd rt' policy)"
    "advances X rt (update_op rd rt' j st' pr d r)"
    "advances X rt (with_features rt' (fst (cancel_operation (rt_features rt') j now)))"
    "advances X rt (with_features rt' (insert_model (rt_features rt') m))"
    "advances X rt (with_features rt' (insert_document (rt_features rt') dc))"
    "advances X rt (with_features rt' (fst (remove_document (rt_features rt') j)))"
    "advances X rt (fail_document rt' j e)"
    "advances X rt (rt'\<lparr>rt_stores := fst (clear_chat_conversation (rt_stores rt') key)\<rparr>)"
    "advances X rt (with_ephemeral rt' (eph_finish_operation (rt_ephemeral rt') j))"
  by (rule advances_trans [OF assms], simp)+

lemma answers_ready [simp]:
  "answers R rd rt c (ensure_ready rd rt c k) \<longleftrightarrow>
     (if rt_state rt \<noteq> RtReady then rt \<in> R else answers R rd rt c k)"
  by (simp add: ensure_ready_def)

lemmas handler_splits = ValidatedCommandPayload.splits option.splits if_splits

lemma model_handlers_answer:
  "answers {rt} rd rt c (download_model rd rt c)"
  "answers {rt} rd rt c (select_model rd rt c)"
  "answers {rt} rd rt c (delete_model rd rt c)"
  "answers {rt} rd rt c (retry_document_ingestion rd rt c)"
  by (rule accept_operation_cases [of rd rt c];
      auto simp: download_model_def select_model_def delete_model_def retry_document_ingestion_def Let_def
        intro!: answers_accepted split: handler_splits)+

lemma grant_document_answers: "answers {rt} rd rt c (grant_document rd rt c)"
  by (rule accept_operation_cases [of rd rt c])
     (auto simp: grant_document_def Let_def intro!: answers_accepted split: handler_splits prod.splits sum.splits)

lemma revoke_document_answers: "answers {rt} rd rt c (revoke_document rd rt c)"
  by (rule accept_operation_cases [of rd rt c])
     (auto simp: revoke_document_def Let_def intro!: answers_accepted split: handler_splits prod.splits sum.splits)

lemma finish_initialize_answers:
  assumes "advances {} rt rt1"
  shows "answers R rd rt c (finish_initialize rd rt1 c config)"
proof -
  let ?rt = "(install_agent_loop rd rt1 config)\<lparr>rt_product_config := Some config\<rparr>"
  have "advances {} rt ?rt"
    using assms advances_trans advances_updates(6,7) by metis
  moreover have "answers R rd ?rt c (finish_initialize rd rt1 c config)"
    by (rule accept_operation_cases [of rd ?rt c])
       (auto simp: finish_initialize_def Let_def intro!: answers_accepted)
  ultimately show ?thesis by (rule answers_from [rotated])
qed

lemma initialize_answers: "answers {rt, rt\<lparr>rt_state := RtFailed\<rparr>} rd rt c (initialize rd rt c)"
  by (auto simp: initialize_def fail_initialize_def Let_def intro!: finish_initialize_answers split: handler_splits)

lemma settings_rollback:
  "(case map_of al k of Some old \<Rightarrow> AList.update k old (AList.update k v al) | None \<Rightarrow> AList.delete k (AList.update k v al)) = al"
  by (induction al) (auto split: option.splits)

lemma update_setting_answers: "answers {rt} rd rt c (update_setting rd rt c)"
proof (cases "vc_payload c")
  case (SettingUpdatePayload key v)
  let ?rt = "rt\<lparr>rt_settings := AList.update key v (rt_settings rt)\<rparr>"
  have policy: "answers R rd rt c (case accept_operation rd rt1 c of (rt2, ack, i, _) \<Rightarrow>
      (publish rd 2 (update_op rd rt2 i OpCompleted (Some f64_one) None res) s t res (Some (vc_envelope c)) (Some i), ack))"
    if "advances {} rt rt1" for R rt1 res s t
    by (rule answers_from [OF _ that], rule accept_operation_cases [of rd rt1 c]) (auto intro!: answers_accepted)
  show ?thesis
    using settings_rollback [where al = "rt_settings rt" and k = key and v = v] SettingUpdatePayload
    by (auto simp: update_setting_def Let_def intro!: policy split: option.splits)
qed (auto simp: update_setting_def)

lemma answers_existing:
  assumes "advances {op_name rd c} rt rt'" "has_op rt i \<or> ce_operation_id (vc_envelope c) = Some i" "has_op rt i \<or> in_session rt i"
  shows "answers R rd rt c (rt', ack_accepted now (vc_envelope c) (Some i))"
  using assms by (auto simp: answers_def ack_accepted_def addressed_def advances_def)

lemma cancel_targets_grows: "advances X rt (cancel_targets rd c n is rt)"
proof (induction "is" arbitrary: n rt)
  case (Cons i "is")
  have "advances X rt (request_download_cancel rd c n i rt)"
    by (auto simp: request_download_cancel_def)
  then show ?case using Cons.IH advances_trans by fastforce
qed simp

lemma cancel_download_answers:
  assumes "features_ok (rt_features rt)"
  shows "answers {rt} rd rt c (cancel_download rd rt c)"
proof (cases "ce_operation_id (vc_envelope c)")
  case None
  have "has_op rt target" if a: "active_operation_ids (rt_features rt) ty = target # targets" for ty target targets
  proof -
    have "target \<in> set (active_operation_ids (rt_features rt) ty)" using a by simp
    then obtain k r where r: "(k, r) \<in> set (fs_operations (rt_features rt))" "or_operation_id r = target"
      by (auto simp: active_operation_ids_def)
    then have "k = target"
      using assms unfolding features_ok_def fs_wf_def keyed_def by fast
    then show ?thesis
      using weak_map_of_SomeI [OF r(1)] by (auto simp: has_op_def)
  qed
  then show ?thesis
    using None cancel_targets_grows
    by (auto simp: cancel_download_def simp del: cancel_targets.simps intro!: answers_existing split: list.splits)
next
  case (Some i)
  have "has_op rt i" if "snd (cancel_operation (rt_features rt) i (rd_now rd))"
    using that assms
    by (auto simp: cancel_operation_def has_op_def features_ok_def tokens_named_def split: option.splits)
  then show ?thesis
    using Some by (auto simp: cancel_download_def request_download_cancel_def intro!: answers_existing)
qed

lemma advances_both:
  assumes "advances X rt (with_ephemeral rt e)" "advances X rt (with_features rt f)"
  shows "advances X rt (with_features (with_ephemeral rt e) f)"
  using assms by (simp add: advances_def has_op_def in_session_def held_def with_features_def with_ephemeral_def)

lemma stop_generation_answers:
  assumes "features_ok (rt_features rt)" "paired (rt_ephemeral rt)"
  shows "answers {rt} rd rt c (stop_generation rd rt c)"
proof (cases "ce_operation_id (vc_envelope c)")
  case (Some i)
  have s: "in_session rt i" if "snd (eph_cancel_operation (rt_ephemeral rt) i)"
    using that session_op_known [OF assms(2), of i] by (auto simp: eph_cancel_operation_def split: option.splits)
  have o': "has_op rt i" if "snd (cancel_operation (rt_features rt) i (rd_now rd))"
    using that assms(1)
    by (auto simp: cancel_operation_def has_op_def features_ok_def tokens_named_def split: option.splits)
  have "advances X rt (with_features rt (rt_features rt))" for X
    by (rule advances_same_ops) simp_all
  then have "advances X rt (with_features (with_ephemeral rt (fst (eph_cancel_operation (rt_ephemeral rt) i))) (rt_features rt))"
    "advances X rt (with_features (with_ephemeral rt (fst (eph_cancel_operation (rt_ephemeral rt) i)))
       (fst (cancel_operation (rt_features rt) i now)))" for X now
    by (intro advances_both advances_sessions advances_projections; simp)+
  then show ?thesis
    using Some s o' by (auto simp: stop_generation_def Let_def case_prod_unfold intro!: answers_existing)
qed (simp add: stop_generation_def)

lemma accept_chat_operation_cases:
  assumes "paired (rt_ephemeral rt)" "\<not> was_retired (rt_ephemeral rt) key"
  obtains rt' token temporary where
    "accept_chat_operation rd rt c key =
       Inr (rt', ack_accepted (rd_now rd) (vc_envelope c) (Some (op_name rd c)), op_name rd c, token, temporary)"
    "advances {op_name rd c} rt rt'" "has_op rt' (op_name rd c) \<or> in_session rt' (op_name rd c)" "temporary \<or> \<not> held rt' key"
proof (cases "session_state (rt_ephemeral rt) key")
  case SessionActive
  then obtain ids where ids: "map_of (ec_operation_ids (rt_ephemeral rt)) key = Some ids" "map_of (ec_conversations (rt_ephemeral rt)) key \<noteq> None"
    using assms(1) unfolding paired_def session_state_def by (metis EphemeralSessionState.distinct(1,3) option.exhaust)
  obtain e token where e: "eph_create_operation (rt_ephemeral rt) key (ce_operation_id (vc_envelope c)) (rd_uuid rd 0) = (e, Some (op_name rd c, token))"
      "map_of (ec_operation_ids e) key = Some (insert (op_name rd c) ids)"
    using ids by (auto simp: eph_create_operation_def op_name_def Let_def update_conv' split: option.splits)
  let ?rt = "publish rd 1 (with_ephemeral rt e) (operation_stream (op_name rd c)) ''operation.accepted''
      (Object [(''state'', String ''accepted''), (''temporary'', Bool True)]) (Some (vc_envelope c)) (Some (op_name rd c))"
  have "advances {op_name rd c} rt (with_ephemeral rt e)"
    using advances_sessions(1) [of "{op_name rd c}" rt key "ce_operation_id (vc_envelope c)" "rd_uuid rd 0"] e(1) by simp
  then have "advances {op_name rd c} rt ?rt" by blast
  moreover have "in_session ?rt (op_name rd c)"
    using e(2) by (simp add: in_session_def publish_def with_ephemeral_def del: split_paired_Ex) blast
  ultimately show thesis
    using that [of ?rt token True] e(1) SessionActive by (simp add: accept_chat_operation_def)
next
  case SessionAbsent
  then show thesis
    using that by (rule_tac accept_operation_cases [of rd rt c]) (auto simp: accept_chat_operation_def held_def)
qed (use assms(2) in \<open>simp add: was_retired_def\<close>)

lemma launch_chat_answers:
  assumes "paired (rt_ephemeral rt)" "\<not> was_retired (rt_ephemeral rt) key" "advances {} rt0 rt"
  shows "answers R rd rt0 c (launch_chat rd rt c key ids txt regenerate i)"
proof -
  have "answers R rd rt c (launch_chat rd rt c key ids txt regenerate i)"
    by (rule accept_chat_operation_cases [OF assms(1,2), of rd c]) (auto simp: launch_chat_def intro!: answers_accepted)
  then show ?thesis using assms(3) by (rule answers_from)
qed

lemma start_chat_operation_answers:
  assumes "paired (rt_ephemeral rt)"
  shows "answers {rt} rd rt c (start_chat_operation rd rt c txt regenerate existing)"
proof -
  have "answers {rt} rd rt c (launch_chat rd (rt\<lparr>rt_stores := fst (append_chat_message (rt_stores rt) key m)\<rparr>) c key ids txt regenerate i)"
    if "\<not> was_retired (rt_ephemeral rt) key" for key m ids i
    using that assms advances_chat(1) [of "{}" rt key m]
    by (intro launch_chat_answers) (auto simp: was_retired_def advances_def)
  moreover have "answers {rt} rd rt c (launch_chat rd rt c key ids txt regenerate i)" if "\<not> was_retired (rt_ephemeral rt) key" for key ids i
    using assms that by (intro launch_chat_answers) simp_all
  ultimately show ?thesis
    by (simp add: start_chat_operation_def Let_def split: option.splits)
qed

lemma send_message_answers:
  "paired (rt_ephemeral rt) \<Longrightarrow> answers {rt} rd rt c (send_message rd rt c)"
  by (auto simp: send_message_def intro!: start_chat_operation_answers split: ValidatedCommandPayload.splits)

lemma finish_clear_grows: "advances X rt (finish_clear rd rt c key i temporary)"
proof -
  let ?rt = "rt\<lparr>rt_stores := fst (clear_chat_conversation (rt_stores rt) key)\<rparr>"
  have "advances X rt (with_ephemeral ?rt (eph_finish_operation (rt_ephemeral ?rt) i))"
    by (rule advances_then(13)) simp
  then show ?thesis by (auto simp: finish_clear_def Let_def)
qed

lemma clear_conversation_answers:
  assumes "paired (rt_ephemeral rt)"
  shows "answers {rt} rd rt c (clear_conversation rd rt c)"
proof -
  have "answers {rt} rd rt c
      (case accept_chat_operation rd rt c key of
         Inl r \<Rightarrow> r
       | Inr (rt, ack, operation_id, _, temporary) \<Rightarrow> (finish_clear rd rt c key operation_id temporary, ack))"
    if "\<not> was_retired (rt_ephemeral rt) key" for key
    by (rule accept_chat_operation_cases [OF assms that, of rd c]) (auto intro!: answers_accepted finish_clear_grows)
  then show ?thesis
    by (auto simp: clear_conversation_def split: option.splits)
qed

lemma recover_chat_answers:
  assumes "paired (rt_ephemeral rt)"
  shows "answers (if regenerate then {rt} \<union> {rt\<lparr>rt_stores := fst (remove_last_assistant_chat_message (rt_stores rt) key)\<rparr> | key. True}
      else {rt}) rd rt c (recover_chat rd rt c regenerate)"
proof -
  have "answers {rt1} rd rt c (start_chat_operation rd rt1 c q b msg)"
    if "rt1 = rt\<lparr>rt_stores := fst (remove_last_assistant_chat_message (rt_stores rt) key)\<rparr>" for rt1 key q b msg
  proof -
    have g: "advances {} rt rt1" using that by simp
    then have "paired (rt_ephemeral rt1)" using assms by (simp add: advances_def)
    then show ?thesis using start_chat_operation_answers g by (rule_tac answers_from)
  qed
  note removed = this [OF refl, THEN answers_mono]
  show ?thesis
    using start_chat_operation_answers [OF assms]
    by (auto simp: recover_chat_def Let_def intro!: removed split: option.splits)
qed

definition residue :: "CommandType \<Rightarrow> 'be MukeiRuntime \<Rightarrow> 'be MukeiRuntime set" where
  "residue t rt =
     (if t = AppInitialize then {rt, rt\<lparr>rt_state := RtFailed\<rparr>}
      else if t = RecoveryRegenerate
      then {rt} \<union> {rt\<lparr>rt_stores := fst (remove_last_assistant_chat_message (rt_stores rt) key)\<rparr> | key. True}
      else {rt})"

lemma dispatch_answers:
  assumes "features_ok (rt_features rt)" "paired (rt_ephemeral rt)"
  shows "answers (residue (vc_command_type c) rt) rd rt c (dispatch rd rt c)"
proof -
  note laws = model_handlers_answer grant_document_answers revoke_document_answers initialize_answers
    update_setting_answers cancel_download_answers [OF assms(1)] stop_generation_answers [OF assms]
    send_message_answers [OF assms(2)] clear_conversation_answers [OF assms(2)] recover_chat_answers [OF assms(2)]
  have "answers (residue t rt) rd rt c (handle rd rt c t)" for t
    by (cases t) (use laws recover_chat_answers [OF assms(2), of True] recover_chat_answers [OF assms(2), of False]
        in \<open>simp_all add: residue_def\<close>)
  then show ?thesis
    by (auto simp: dispatch_def residue_def)
qed

end
