(* ===== verification/Runtime_Tasks.thy ===== *)
theory Runtime_Tasks
  imports Application_Runtime
begin

text \<open>
  The tasks the command handlers spawn (\<open>application_runtime/chat.rs\<close>, \<open>models_*.rs\<close>, \<open>documents_*.rs\<close>),
  each cut at its await points into the effects it has on the runtime, and the system they form with
  the commands and calls of the client. What a task waits for (the agent loop, the downloader, the
  file system, the platform, the index) is an argument of the effect that follows.
\<close>

section \<open>Chat\<close>

datatype ChatOutcome =
    ChatCancelled
  | ChatDone "string option" string "u32 option"
  | ChatError MukeiError

definition op_event :: "'be RuntimeReadings \<Rightarrow> nat \<Rightarrow> 'be MukeiRuntime \<Rightarrow> CommandEnvelopeV2 \<Rightarrow> string \<Rightarrow> string \<Rightarrow> json \<Rightarrow> 'be MukeiRuntime" where
  "op_event rd n rt env i event_type payload = publish rd n rt (operation_stream i) event_type payload (Some env) (Some i)"

definition temporary_field :: "bool \<Rightarrow> string \<times> json" where
  "temporary_field temporary = (''temporary'', Bool temporary)"

definition chat_started :: "'be RuntimeReadings \<Rightarrow> 'be MukeiRuntime \<Rightarrow> chat_key \<Rightarrow> string \<Rightarrow> CommandEnvelopeV2 \<Rightarrow> bool \<Rightarrow> bool \<Rightarrow> string \<Rightarrow> 'be MukeiRuntime" where
  "chat_started rd rt key i env regenerate temporary user_message =
     (let rt = (if temporary then rt else update_op rd rt i OpRunning None None Null) in
      publish rd 0 rt (conversation_stream (fst key)) (if regenerate then ''chat.regeneration.started'' else ''chat.generation.started'')
        (Object [(''user_message_id'', String user_message), temporary_field temporary]) (Some env) (Some i))"

definition chat_token :: "'be RuntimeReadings \<Rightarrow> 'be MukeiRuntime \<Rightarrow> chat_key \<Rightarrow> string \<Rightarrow> CommandEnvelopeV2 \<Rightarrow> bool \<Rightarrow> string \<Rightarrow> 'be MukeiRuntime" where
  "chat_token rd rt key i env temporary token =
     (if \<not> temporary \<or> is_registered (rt_ephemeral rt) key
      then op_event rd 0 rt env i ''chat.token.delta'' (Object [(''text'', String token)]) else rt)"

definition answer_json :: "string option \<Rightarrow> u32 option \<Rightarrow> (string \<times> json) list" where
  "answer_json content tokens =
     [(''content'', (case content of None \<Rightarrow> Null | Some c \<Rightarrow> String c)),
      (''token_count'', (case tokens of None \<Rightarrow> Null | Some n \<Rightarrow> Number (show_word n)))]"

definition settle_chat :: "'be RuntimeReadings \<Rightarrow> 'be MukeiRuntime \<Rightarrow> string \<Rightarrow> bool \<Rightarrow> OperationStatus \<Rightarrow> f64 option \<Rightarrow> string option \<Rightarrow> json \<Rightarrow> 'be MukeiRuntime" where
  "settle_chat rd rt i temporary status progress detail result =
     (if temporary then with_ephemeral rt (eph_finish_operation (rt_ephemeral rt) i)
      else update_op rd rt i status progress detail result)"

definition store_answer :: "'be RuntimeReadings \<Rightarrow> 'be MukeiRuntime \<Rightarrow> chat_key \<Rightarrow> chat_key \<Rightarrow> bool \<Rightarrow> string \<Rightarrow> string \<Rightarrow> u32 option \<Rightarrow> 'be MukeiRuntime" where
  "store_answer rd rt key ids temporary content reply_to tokens =
     (let assistant = \<lparr>msg_id = rd_uuid rd 0, msg_role = Assistant, msg_branch = snd ids, msg_is_active = True,
            msg_created_at = rd_stamp rd, msg_content = content, msg_parent = Some reply_to, msg_token_count = tokens\<rparr> in
      if temporary then with_ephemeral rt (fst (eph_append_message (rt_ephemeral rt) key assistant))
      else with_features rt (fs_append_message (rt_features rt) key assistant))"

definition chat_finished :: "'be RuntimeReadings \<Rightarrow> 'be MukeiRuntime \<Rightarrow> chat_key \<Rightarrow> chat_key \<Rightarrow> string \<Rightarrow> CommandEnvelopeV2 \<Rightarrow> bool \<Rightarrow> ChatOutcome \<Rightarrow> 'be MukeiRuntime" where
  "chat_finished rd rt key ids i env temporary outcome =
     (case outcome of
        ChatCancelled \<Rightarrow>
          op_event rd 1 (settle_chat rd rt i temporary OpCancelled None (Some ''cancelled'') Null) env i ''operation.cancelled''
            (Object [(''state'', String ''cancelled''), temporary_field temporary])
      | ChatDone content reply_to tokens \<Rightarrow>
          (let rt = (case content of None \<Rightarrow> rt | Some c \<Rightarrow> store_answer rd rt key ids temporary c reply_to tokens);
               rt = settle_chat rd rt i temporary OpCompleted (Some f64_one) None (Object (answer_json content tokens));
               rt = (if \<not> temporary \<or> is_registered (rt_ephemeral rt) key
                     then publish rd 1 rt (conversation_stream (fst key)) ''chat.generation.completed''
                       (Object (answer_json content tokens @ [temporary_field temporary])) (Some env) (Some i) else rt) in
           op_event rd 2 rt env i ''operation.completed'' (Object [(''state'', String ''completed''), temporary_field temporary]))
      | ChatError e \<Rightarrow>
          op_event rd 1 (settle_chat rd rt i temporary OpFailed None (Some (error_code e)) Null) env i ''operation.failed''
            (Object [(''code'', String (error_code e)), temporary_field temporary]))"

section \<open>Model downloads\<close>

definition change_model :: "'be MukeiRuntime \<Rightarrow> string \<Rightarrow> (ModelProjection \<Rightarrow> ModelProjection) \<Rightarrow> 'be MukeiRuntime" where
  "change_model rt model f = with_features rt (fst (update_model (rt_features rt) model f))"

definition opt_u64_json :: "u64 option \<Rightarrow> json" where
  "opt_u64_json v = (case v of None \<Rightarrow> Null | Some n \<Rightarrow> Number (show_word n))"

text \<open>\<open>bits\<close> and \<open>shown\<close> are the bits and the JSON rendering of an \<open>f64\<close>.\<close>
fun download_event :: "(real \<Rightarrow> f64) \<Rightarrow> (real \<Rightarrow> string) \<Rightarrow> 'be RuntimeReadings \<Rightarrow> 'be MukeiRuntime \<Rightarrow> string \<Rightarrow> string \<Rightarrow> string
     \<Rightarrow> CommandEnvelopeV2 \<Rightarrow> DownloadEvent \<Rightarrow> 'be MukeiRuntime" where
  "download_event bits shown rd rt model destination i env (Started total_bytes) =
     op_event rd 0 rt env i ''model.download.started''
       (Object [(''model_id'', String model), (''total_bytes'', opt_u64_json total_bytes)])"
| "download_event bits shown rd rt model destination i env (Progress progress bytes) =
     (let rt = update_op rd rt i OpRunning (Some (bits progress)) None (Object [(''bytes_downloaded'', Number (show_word bytes))]);
          rt = change_model rt model (\<lambda>m. m\<lparr>mp_progress := Some (bits progress)\<rparr>) in
      op_event rd 0 rt env i ''model.download.progress''
        (Object [(''bytes_downloaded'', Number (show_word bytes)), (''model_id'', String model), (''progress'', Number (shown progress))]))"
| "download_event bits shown rd rt model destination i env (CompleteEvent _) =
     change_model rt model (\<lambda>m. m\<lparr>mp_status := MsInstalled, mp_local_path := Some destination,
       mp_progress := Some f64_one, mp_error_code := None\<rparr>)"
| "download_event bits shown rd rt model destination i env (ErrorEvent err _) =
     change_model rt model (\<lambda>m. m\<lparr>mp_status := MsFailed, mp_error_code := Some err\<rparr>)"

definition failure_status :: "MukeiError \<Rightarrow> OperationStatus" where
  "failure_status e = (if e = MukeiError.Cancelled then OpCancelled else OpFailed)"

definition failure_event :: "MukeiError \<Rightarrow> string" where
  "failure_event e = (if e = MukeiError.Cancelled then ''operation.cancelled'' else ''operation.failed'')"

definition download_finished :: "'be RuntimeReadings \<Rightarrow> 'be MukeiRuntime \<Rightarrow> string \<Rightarrow> string \<Rightarrow> CommandEnvelopeV2 \<Rightarrow> unit result \<Rightarrow> 'be MukeiRuntime" where
  "download_finished rd rt model i env result =
     (case result of
        Inr _ \<Rightarrow>
          op_event rd 0 (update_op rd rt i OpCompleted (Some f64_one) None (Object [(''model_id'', String model)])) env i
            ''operation.completed'' (Object [(''model_id'', String model)])
      | Inl e \<Rightarrow>
          op_event rd 0 (update_op rd (change_model rt model (\<lambda>m. m\<lparr>mp_status := MsFailed, mp_error_code := Some (error_code e)\<rparr>))
              i (failure_status e) None (Some (error_code e)) Null) env i (failure_event e)
            (Object [(''code'', String (error_code e)), (''model_id'', String model)]))"

text \<open>
  The \<open>select!\<close> loop: some of the download's events are received while it runs, and when its result is
  there the loop ends, whatever the channel still holds.
\<close>
fun download_events :: "(real \<Rightarrow> f64) \<Rightarrow> (real \<Rightarrow> string) \<Rightarrow> 'be RuntimeReadings \<Rightarrow> string \<Rightarrow> string \<Rightarrow> string
     \<Rightarrow> CommandEnvelopeV2 \<Rightarrow> DownloadEvent list \<Rightarrow> 'be MukeiRuntime \<Rightarrow> 'be MukeiRuntime" where
  "download_events bits shown rd model destination i env [] rt = rt"
| "download_events bits shown rd model destination i env (e # es) rt =
     download_events bits shown rd model destination i env es (download_event bits shown rd rt model destination i env e)"

definition download_task :: "(real \<Rightarrow> f64) \<Rightarrow> (real \<Rightarrow> string) \<Rightarrow> 'be RuntimeReadings \<Rightarrow> 'be MukeiRuntime \<Rightarrow> string \<Rightarrow> string \<Rightarrow> string
     \<Rightarrow> CommandEnvelopeV2 \<Rightarrow> DownloadEvent list \<Rightarrow> unit result \<Rightarrow> 'be MukeiRuntime" where
  "download_task bits shown rd rt model destination i env received result =
     download_finished rd (download_events bits shown rd model destination i env received rt) model i env result"

section \<open>Model selection and deletion\<close>

definition select_started :: "'be RuntimeReadings \<Rightarrow> 'be MukeiRuntime \<Rightarrow> string \<Rightarrow> string \<Rightarrow> string \<Rightarrow> 'be MukeiRuntime \<times> u64" where
  "select_started rd rt model path sha =
     (let rt = with_features rt (insert_model (rt_features rt)
                 \<lparr>mp_model_id = model, mp_status = MsVerifying, mp_local_path = Some path, mp_progress = None, mp_error_code = None\<rparr>);
          (sv, generation) = begin_verification model sha (rt_activation rt) in
      (rt\<lparr>rt_activation := sv\<rparr>, generation))"

datatype Verification = VerifyDone "unit result" | VerifyJoinFailed string

definition fail_op :: "'be RuntimeReadings \<Rightarrow> 'be MukeiRuntime \<Rightarrow> string \<Rightarrow> string \<Rightarrow> json \<Rightarrow> 'be MukeiRuntime" where
  "fail_op rd rt i detail result = update_op rd rt i OpFailed None (Some detail) result"

definition model_failed :: "'be MukeiRuntime \<Rightarrow> string \<Rightarrow> string \<Rightarrow> 'be MukeiRuntime" where
  "model_failed rt model err = change_model rt model (\<lambda>m. m\<lparr>mp_status := MsFailed, mp_error_code := Some err\<rparr>)"

text \<open>The descriptor of the verified file and its registration; \<open>True\<close> goes on to activate it.\<close>
definition register_verified :: "'be RuntimeReadings \<Rightarrow> 'be MukeiRuntime \<Rightarrow> string \<Rightarrow> string \<Rightarrow> string \<Rightarrow> string \<Rightarrow> u64 \<Rightarrow> 'be MukeiRuntime \<times> bool" where
  "register_verified rd rt model path sha i generation =
     (case new_artifact sha path of
        Inl e \<Rightarrow> (fail_op rd rt i (error_code e) Null, False)
      | Inr art \<Rightarrow>
          (case new_descriptor model sha art of
             Inl e \<Rightarrow> (fail_op rd rt i (error_code e) Null, False)
           | Inr d \<Rightarrow>
               (case mark_verified generation d (rt_activation rt) of
                  (sv, False) \<Rightarrow> (fail_op rd (rt\<lparr>rt_activation := sv\<rparr>) i ''stale_activation'' Null, False)
                | (sv, True) \<Rightarrow> (change_model (rt\<lparr>rt_activation := sv\<rparr>) model (\<lambda>m. m\<lparr>mp_status := MsActivating\<rparr>), True))))"

definition select_verified :: "'be RuntimeReadings \<Rightarrow> 'be MukeiRuntime \<Rightarrow> string \<Rightarrow> string \<Rightarrow> string \<Rightarrow> string \<Rightarrow> CommandEnvelopeV2 \<Rightarrow> u64 \<Rightarrow> nat
     \<Rightarrow> Verification \<Rightarrow> 'be MukeiRuntime \<times> bool" where
  "select_verified rd rt model path sha i env generation token verification =
     (if token \<in> fs_cancelled (rt_features rt) then (update_op rd rt i OpCancelled None (Some ''cancelled'') Null, False)
      else case verification of
        VerifyDone (Inr _) \<Rightarrow> register_verified rd rt model path sha i generation
      | VerifyDone (Inl e) \<Rightarrow>
          (let rt = rt\<lparr>rt_activation := fst (mark_verification_failed generation model sha sha AfcVerificationMismatch (rt_activation rt))\<rparr> in
           (op_event rd 0 (fail_op rd (model_failed rt model (error_code e)) i (error_code e) Null) env i ''operation.failed''
              (Object [(''code'', String (error_code e))]), False))
      | VerifyJoinFailed detail \<Rightarrow>
          (fail_op rd (model_failed rt model ''verification_join_failed'') i ''verification_join_failed''
             (Object [(''detail'', String detail)]), False))"

fun category_debug :: "ActivationFailureCategory \<Rightarrow> string" where
  "category_debug AfcBackendUnavailable = ''BackendUnavailable''"
| "category_debug AfcVerificationMismatch = ''VerificationMismatch''"
| "category_debug AfcModelLoad = ''ModelLoad''"
| "category_debug AfcBackendRejected = ''BackendRejected''"
| "category_debug AfcInternal = ''Internal''"

fun commit_debug :: "ActivationCommit \<Rightarrow> string" where
  "commit_debug CommitReady = ''Ready''"
| "commit_debug (CommitFailed c) = ''Failed('' @ category_debug c @ '')''"
| "commit_debug StaleIgnored = ''StaleIgnored''"

definition select_finished :: "'be RuntimeReadings \<Rightarrow> 'be MukeiRuntime \<Rightarrow> string \<Rightarrow> string \<Rightarrow> CommandEnvelopeV2 \<Rightarrow> ActivationCommit \<Rightarrow> 'be MukeiRuntime" where
  "select_finished rd rt model i env commit =
     (if commit = CommitReady then
        (let rt = change_model rt model (\<lambda>m. m\<lparr>mp_status := MsReady, mp_error_code := None\<rparr>);
             rt = update_op rd rt i OpCompleted (Some f64_one) None (Object [(''model_id'', String model)]);
             rt = publish rd 0 rt ''application:models'' ''model.selected'' (Object [(''model_id'', String model)]) (Some env) (Some i) in
         op_event rd 1 rt env i ''operation.completed'' (Object [(''state'', String ''completed'')]))
      else
        op_event rd 0 (fail_op rd (model_failed rt model (''activation_'' @ commit_debug commit)) i ''activation_failed'' Null)
          env i ''operation.failed'' (Object [(''code'', String ''activation_failed'')]))"

datatype Deletion = DeleteDone | DeleteFailed string | DeleteJoinFailed string

text \<open>A deletion removes the file, or finds none.\<close>
definition delete_run :: "'be RuntimeReadings \<Rightarrow> 'be MukeiRuntime \<Rightarrow> fs \<Rightarrow> string \<Rightarrow> path \<Rightarrow> string \<Rightarrow> CommandEnvelopeV2 \<Rightarrow> nat \<Rightarrow> Deletion
     \<Rightarrow> 'be MukeiRuntime \<times> fs" where
  "delete_run rd rt files model path i env token result =
     (if token \<in> fs_cancelled (rt_features rt) then (update_op rd rt i OpCancelled None (Some ''cancelled'') Null, files)
      else case result of
        DeleteDone \<Rightarrow>
          (let rt = with_features rt (fst (remove_model (rt_features rt) model));
               rt = update_op rd rt i OpCompleted (Some f64_one) None (Object [(''model_id'', String model)]);
               rt = publish rd 0 rt ''application:models'' ''model.deleted'' (Object [(''model_id'', String model)]) (Some env) (Some i) in
           (op_event rd 1 rt env i ''operation.completed'' (Object [(''state'', String ''completed'')]), files(path := None)))
      | DeleteFailed detail \<Rightarrow>
          (op_event rd 0 (fail_op rd rt i ''model_delete_failed'' (Object [(''detail'', String detail)])) env i ''operation.failed''
             (Object [(''code'', String ''model_delete_failed'')]), files)
      | DeleteJoinFailed detail \<Rightarrow>
          (fail_op rd rt i ''model_delete_join_failed'' (Object [(''detail'', String detail)]), files))"

section \<open>Documents\<close>

definition change_document :: "'be MukeiRuntime \<Rightarrow> string \<Rightarrow> (DocumentProjection \<Rightarrow> DocumentProjection) \<Rightarrow> 'be MukeiRuntime" where
  "change_document rt document f = with_features rt (fst (update_document (rt_features rt) document f))"

text \<open>\<open>as_u64\<close> reads a JSON number, as \<open>serde_json\<close> does.\<close>
definition grant_finished :: "(json \<Rightarrow> u64 option) \<Rightarrow> 'be RuntimeReadings \<Rightarrow> 'be MukeiRuntime \<Rightarrow> string \<Rightarrow> string \<Rightarrow> CommandEnvelopeV2
     \<Rightarrow> PlatformPortError + json \<Rightarrow> 'be MukeiRuntime" where
  "grant_finished as_u64 rd rt document i env response =
     (case response of
        Inr payload \<Rightarrow>
          (let size_bytes = Option.bind (json_get payload ''size_bytes'') as_u64 in
           case Option.bind (json_get payload ''staged_path'') as_str of
             None \<Rightarrow> fail_op rd (fail_document rt document ''invalid_platform_response'') i ''invalid_platform_response'' Null
           | Some staged_path \<Rightarrow>
               (let rt = change_document rt document (\<lambda>d. d\<lparr>dp_staged_path := Some staged_path, dp_size_bytes := size_bytes,
                           dp_status := DsStaged, dp_error_code := None\<rparr>);
                    rt = update_op rd rt i OpCompleted (Some f64_one) None
                           (Object [(''document_id'', String document), (''size_bytes'', opt_u64_json size_bytes),
                              (''staged_path'', String staged_path)]);
                    rt = publish rd 0 rt ''application:documents'' ''document.granted''
                           (Object [(''document_id'', String document), (''size_bytes'', opt_u64_json size_bytes)]) (Some env) (Some i) in
                op_event rd 1 rt env i ''operation.completed'' (Object [(''state'', String ''completed'')])))
      | Inl e \<Rightarrow>
          op_event rd 0 (fail_op rd (fail_document rt document (port_error_text e)) i (port_error_text e) Null) env i
            ''operation.failed'' (Object [(''code'', String ''platform_document_stage_failed'')]))"

text \<open>The index is cleaned first, then the platform's answer is awaited.\<close>
definition revoke_finished :: "'be RuntimeReadings \<Rightarrow> 'be MukeiRuntime \<Rightarrow> string \<Rightarrow> string \<Rightarrow> CommandEnvelopeV2 \<Rightarrow> bool
     \<Rightarrow> nat result \<Rightarrow> PlatformPortError + json \<Rightarrow> 'be MukeiRuntime" where
  "revoke_finished rd rt document i env rag cleaned response =
     (case (if rag then cleaned else Inr 0) of
        Inl e \<Rightarrow>
          op_event rd 0 (fail_op rd rt i (error_code e) Null) env i ''operation.failed'' (Object [(''code'', String (error_code e))])
      | Inr _ \<Rightarrow>
          (case response of
             Inr _ \<Rightarrow>
               (let rt = with_features rt (fst (remove_document (rt_features rt) document));
                    rt = update_op rd rt i OpCompleted (Some f64_one) None (Object [(''document_id'', String document)]);
                    rt = publish rd 0 rt ''application:documents'' ''document.revoked'' (Object [(''document_id'', String document)])
                           (Some env) (Some i) in
                op_event rd 1 rt env i ''operation.completed'' (Object [(''state'', String ''completed'')]))
           | Inl e \<Rightarrow>
               op_event rd 0 (fail_op rd rt i (port_error_text e) Null) env i ''operation.failed''
                 (Object [(''code'', String ''platform_document_delete_failed'')])))"

definition retry_started :: "'be RuntimeReadings \<Rightarrow> 'be MukeiRuntime \<Rightarrow> string \<Rightarrow> 'be MukeiRuntime" where
  "retry_started rd rt i = update_op rd rt i OpRunning (Some f64_zero) None Null"

definition retry_finished :: "'be RuntimeReadings \<Rightarrow> 'be MukeiRuntime \<Rightarrow> string \<Rightarrow> string \<Rightarrow> CommandEnvelopeV2 \<Rightarrow> nat result \<Rightarrow> 'be MukeiRuntime" where
  "retry_finished rd rt document i env outcome =
     (case outcome of
        Inr chunks \<Rightarrow>
          (let result = Object [(''chunk_count'', json_nat chunks), (''document_id'', String document)];
               rt = change_document rt document (\<lambda>d. d\<lparr>dp_status := DsIndexed, dp_error_code := None\<rparr>);
               rt = update_op rd rt i OpCompleted (Some f64_one) None result;
               rt = publish rd 0 rt ''application:documents'' ''document.indexed'' result (Some env) (Some i) in
           op_event rd 1 rt env i ''operation.completed'' (Object [(''state'', String ''completed'')]))
      | Inl e \<Rightarrow>
          op_event rd 0 (update_op rd (fail_document rt document (error_code e)) i (failure_status e) None (Some (error_code e)) Null)
            env i (failure_event e) (Object [(''code'', String (error_code e)), (''document_id'', String document)]))"

end
