(* ===== verification/Runtime_Laws.thy ===== *)
theory Runtime_Laws
  imports Runtime_Tasks
begin

text \<open>
  The runtime as a system: commands, calls of the client and effects of tasks in any order, and what
  holds in all of its runs. Commands are answered once, acknowledgements are well formed, rejections
  have no effect, temporary chats stay off the durable side, and ending one leaves nothing behind.
\<close>

section \<open>Effects of tasks\<close>

lemma task_updates_grow [simp]:
  "advances X rt (op_event rd n rt env i ty p)"
  "advances X rt (change_model rt m (\<lambda>x. x\<lparr>mp_progress := pr\<rparr>))"
  "advances X rt (change_model rt m (\<lambda>x. x\<lparr>mp_status := st\<rparr>))"
  "advances X rt (change_model rt m (\<lambda>x. x\<lparr>mp_status := st, mp_error_code := er\<rparr>))"
  "advances X rt (change_model rt m (\<lambda>x. x\<lparr>mp_status := st, mp_local_path := lp, mp_progress := pr, mp_error_code := er\<rparr>))"
  "advances X rt (change_document rt j (\<lambda>x. x\<lparr>dp_status := ds, dp_error_code := er\<rparr>))"
  "advances X rt (change_document rt j (\<lambda>x. x\<lparr>dp_staged_path := sp, dp_size_bytes := sz, dp_status := ds, dp_error_code := er\<rparr>))"
  "advances X rt (with_features rt (fst (remove_model (rt_features rt) m)))"
  "advances X rt (rt\<lparr>rt_activation := sv\<rparr>)"
  "advances X rt (rt\<lparr>rt_events := bus\<rparr>)"
  "advances X rt (reinstall rd rt)"
  unfolding op_event_def change_model_def change_document_def
  by (rule advances_same_ops advances_frame advances_updates;
      simp add: projections_ok projections_ops durably_known_unchanged reinstall_def install_agent_loop_def split: option.splits)+

lemma task_updates_then [intro!]:
  assumes "advances X rt rt'"
  shows "advances X rt (op_event rd n rt' env i ty p)"
    "advances X rt (change_model rt' m (\<lambda>x. x\<lparr>mp_progress := pr\<rparr>))"
    "advances X rt (change_model rt' m (\<lambda>x. x\<lparr>mp_status := st\<rparr>))"
    "advances X rt (change_model rt' m (\<lambda>x. x\<lparr>mp_status := st, mp_error_code := er\<rparr>))"
    "advances X rt (change_document rt' j (\<lambda>x. x\<lparr>dp_status := ds, dp_error_code := er\<rparr>))"
    "advances X rt (change_document rt' j (\<lambda>x. x\<lparr>dp_staged_path := sp, dp_size_bytes := sz, dp_status := ds, dp_error_code := er\<rparr>))"
    "advances X rt (with_features rt' (fst (remove_model (rt_features rt') m)))"
    "advances X rt (rt'\<lparr>rt_activation := sv\<rparr>)"
    "advances X rt (fail_op rd rt' i dt res)"
    "advances X rt (model_failed rt' m err)"
  unfolding fail_op_def model_failed_def by (rule advances_trans [OF assms], simp)+

lemma settle_chat_grows [intro!]: "advances X rt rt' \<Longrightarrow> advances X rt (settle_chat rd rt' i temporary st p d r)"
  by (auto simp: settle_chat_def)

lemma store_answer_grows:
  assumes "temporary \<or> \<not> held rt key"
  shows "advances X rt (store_answer rd rt key ids temporary c q n)"
proof (cases temporary)
  case True
  have "advances X rt (with_ephemeral rt (fst (eph_append_message (rt_ephemeral rt) key m)))" for m
    by (rule advances_ephemeral) (auto simp: eph_append_message_def paired_update session_state_def update_conv' split: option.splits)
  then show ?thesis using True by (simp add: store_answer_def Let_def)
next
  case False
  have "advances X rt (with_features rt (fs_append_message (rt_features rt) key m))" for m
    using False assms
    by (intro advances_same_ops) (auto simp: projections_ok projections_ops dest: durably_known_ops)
  then show ?thesis using False by (simp add: store_answer_def Let_def)
qed

lemma chat_effects_grow:
  "advances X rt (chat_started rd rt key i env regenerate temporary u)"
  "advances X rt (chat_token rd rt key i env temporary t)"
  "temporary \<or> \<not> held rt key \<Longrightarrow> advances X rt (chat_finished rd rt key ids i env temporary outcome)"
proof -
  show "advances X rt (chat_finished rd rt key ids i env temporary outcome)" if "temporary \<or> \<not> held rt key"
    using store_answer_grows [OF that, where ids = ids]
    by (cases outcome) (auto simp: chat_finished_def Let_def split: option.splits)
qed (auto simp: chat_started_def chat_token_def Let_def)

lemma model_effects_grow:
  "advances X rt (download_event bits shown rd rt model dest i env ev)"
  "advances X rt (download_finished rd rt model i env res)"
  "advances X rt (fst (select_started rd rt model path sha))"
  "advances X rt (fst (select_verified rd rt model path sha i env g tok v))"
  "advances X rt (select_finished rd rt model i env commit)"
  "advances X rt (fst (delete_run rd rt files model p i env tok d))"
proof -
  show "advances X rt (download_event bits shown rd rt model dest i env ev)"
    by (cases ev) (auto simp: Let_def)
  show "advances X rt (download_finished rd rt model i env res)"
    by (auto simp: download_finished_def split: sum.splits)
  show "advances X rt (fst (select_started rd rt model path sha))"
    by (auto simp: select_started_def Let_def case_prod_unfold)
  show "advances X rt (fst (select_verified rd rt model path sha i env g tok v))"
    by (auto simp: select_verified_def register_verified_def Let_def split: Verification.splits sum.splits prod.splits bool.splits)
  show "advances X rt (select_finished rd rt model i env commit)"
    by (auto simp: select_finished_def Let_def)
  show "advances X rt (fst (delete_run rd rt files model p i env tok d))"
    by (auto simp: delete_run_def Let_def split: Deletion.splits)
qed

lemma document_effects_grow:
  "advances X rt (grant_finished as_u64 rd rt document i env response)"
  "advances X rt (revoke_finished rd rt document i env rag cleaned response)"
  "advances X rt (retry_started rd rt i)"
  "advances X rt (retry_finished rd rt document i env outcome)"
  by (auto simp: grant_finished_def revoke_finished_def retry_started_def retry_finished_def Let_def split: sum.splits option.splits)

section \<open>The system\<close>

text \<open>
  One command, call or task effect at a time. A task of the list may have its effects at any time and
  repeatedly, which includes every order the scheduler can choose. Identifiers minted for an operation
  are valid protocol identifiers, and those minted for a temporary chat are fresh, as random UUIDs are.
\<close>
definition fresh_key :: "'be MukeiRuntime \<Rightarrow> chat_key \<Rightarrow> bool" where
  "fresh_key rt k \<longleftrightarrow> \<not> durably_known (rt_features rt) k \<and> (\<forall>t \<in> set (rt_tasks rt). \<not> stores_durably t k)"

inductive task_step :: "'be MukeiRuntime \<Rightarrow> RuntimeTask \<Rightarrow> 'be MukeiRuntime \<Rightarrow> bool" where
  "task_step rt (ChatTask key ids i tok env q regenerate temporary u) (chat_started rd rt key i env regenerate temporary u)"
| "task_step rt (ChatTask key ids i tok env q regenerate temporary u) (chat_token rd rt key i env temporary t)"
| "task_step rt (ChatTask key ids i tok env q regenerate temporary u) (chat_finished rd rt key ids i env temporary outcome)"
| "task_step rt (DownloadTask model req dest i tok env) (download_event bits shown rd rt model dest i env ev)"
| "task_step rt (DownloadTask model req dest i tok env) (download_finished rd rt model i env res)"
| "task_step rt (SelectTask model path sha i tok env) (fst (select_started rd rt model path sha))"
| "task_step rt (SelectTask model path sha i tok env) (fst (select_verified rd rt model path sha i env g tok v))"
| "task_step rt (SelectTask model path sha i tok env) (rt\<lparr>rt_activation := fst (begin_activation (rt_activation rt))\<rparr>)"
| "task_step rt (SelectTask model path sha i tok env) (rt\<lparr>rt_activation := fst (finish_activation ident g2 d ev2 (rt_activation rt))\<rparr>)"
| "task_step rt (SelectTask model path sha i tok env) (select_finished rd rt model i env commit)"
| "task_step rt (DeleteTask model p i tok env) (fst (delete_run rd rt files model p i env tok d2))"
| "task_step rt (GrantTask document req2 i tok env) (grant_finished as_u64 rd rt document i env response)"
| "task_step rt (RevokeTask document req2 rag i tok env) (revoke_finished rd rt document i env rag cleaned response)"
| "task_step rt (RetryTask document staged mime i tok env) (retry_started rd rt i)"
| "task_step rt (RetryTask document staged mime i tok env) (retry_finished rd rt document i env outcome2)"

inductive runtime_step :: "'be MukeiRuntime \<Rightarrow> 'be MukeiRuntime \<Rightarrow> bool" where
  submitted: "valid_protocol_id (rd_uuid rd 0) 128 \<Longrightarrow> runtime_step rt (fst (submit rd rt env))"
| task_ran: "t \<in> set (rt_tasks rt) \<Longrightarrow> task_step rt t rt' \<Longrightarrow> runtime_step rt rt'"
| chat_begun: "(\<And>i. i < 8 \<Longrightarrow> fresh_key rt (rd_uuid rd (2 * i), rd_uuid rd (2 * i + 1))) \<Longrightarrow> runtime_step rt (fst (begin_temporary_chat rd rt))"
| chat_ended: "runtime_step rt (fst (end_temporary_chat rd rt c b))"
| events_drained: "runtime_step rt (rt\<lparr>rt_events := fst (drain (rt_events rt) limit eid now)\<rparr>)"
| requests_drained: "runtime_step rt (rt\<lparr>rt_platform := fst (broker_drain (rt_platform rt) limit)\<rparr>)"
| response_submitted: "runtime_step rt (rt\<lparr>rt_platform := fst (submit_response (rt_platform rt) response)\<rparr>)"
| response_taken: "runtime_step rt (rt\<lparr>rt_platform := fst (take_response (rt_platform rt) i)\<rparr>)"
| request_abandoned: "runtime_step rt (rt\<lparr>rt_platform := fst (abandon (rt_platform rt) i)\<rparr>)"
| rag_attached: "runtime_step rt (attach_rag_service rd rt)"
| secrets_configured: "runtime_step rt (fst (configure_remote_tools rd rt brave tavily))"
| snapshot_written: "fs_queue (rt_features rt) = c # q \<Longrightarrow> runtime_step rt (with_features rt ((rt_features rt)\<lparr>fs_queue := q\<rparr>))"
| shut_down: "runtime_step rt (fst (shutdown rd rt st save))"

lemma task_step_grows:
  assumes "task_step rt t rt'" "\<And>k. stores_durably t k \<Longrightarrow> \<not> held rt k"
  shows "advances X rt rt'"
  using assms
  by (induction rule: task_step.induct)
     (auto intro: chat_effects_grow model_effects_grow document_effects_grow)

lemma attach_rag_service_grows: "advances X rt (attach_rag_service rd rt)"
  by (rule advances_frame) (simp_all add: attach_rag_service_def reinstall_def install_agent_loop_def split: option.splits)

lemma configure_remote_tools_grows: "advances X rt (fst (configure_remote_tools rd rt brave tavily))"
  by (rule advances_frame) (simp_all add: configure_remote_tools_def reinstall_def install_agent_loop_def split: option.splits if_splits)

lemma snapshot_written_grows:
  assumes "fs_queue (rt_features rt) = c # q"
  shows "advances X rt (with_features rt ((rt_features rt)\<lparr>fs_queue := q\<rparr>))"
  by (rule advances_same_ops)
     (use assms in \<open>auto simp: features_ok_def fs_wf_def tokens_named_def durably_known_def queue_mentions_def\<close>)

section \<open>The invariant\<close>

definition ack_sound :: "CommandAcknowledgementV2 \<Rightarrow> bool" where
  "ack_sound ack \<longleftrightarrow>
     ak_protocol_version ack = version_current
     \<and> (case ak_status ack of
          AckAccepted \<Rightarrow> (\<exists>i. ak_operation_id ack = Some i \<and> valid_protocol_id i 128)
        | AckRejected \<Rightarrow> ak_rejection_reason ack \<noteq> None)"

definition confined :: "'be MukeiRuntime \<Rightarrow> bool" where
  "confined rt \<longleftrightarrow> (\<forall>k. held rt k \<longrightarrow> fresh_key rt k)"

definition runtime_ok :: "'be MukeiRuntime \<Rightarrow> bool" where
  "runtime_ok rt \<longleftrightarrow>
     features_ok (rt_features rt) \<and> paired (rt_ephemeral rt)
     \<and> (\<forall>i. has_op rt i \<longrightarrow> valid_protocol_id i 128)
     \<and> (\<forall>k r. (k, r) \<in> set (rt_replay rt) \<longrightarrow> ack_sound (rr_acknowledgement r))
     \<and> confined rt"

lemma confined_grows:
  assumes "advances X rt rt'" "confined rt"
  shows "confined rt'"
  using assms unfolding confined_def fresh_key_def advances_def by metis

lemma runtime_ok_grows:
  assumes "advances X rt rt'" "runtime_ok rt" "\<And>i. i \<in> X \<Longrightarrow> valid_protocol_id i 128"
  shows "runtime_ok rt'"
  using assms confined_grows [OF assms(1)] unfolding runtime_ok_def advances_def by metis

section \<open>Commands\<close>

lemma op_name_valid:
  assumes "validate_command env = Inr c" "valid_protocol_id (rd_uuid rd 0) 128"
  shows "valid_protocol_id (op_name rd c) 128"
  using validate_command_Inr(1,7) [OF assms(1)] assms(2)
  by (auto simp: op_name_def optional_protocol_id_valid_def MAX_PROTOCOL_ID_LEN_def split: option.splits)

lemma dispatch_contract:
  assumes "runtime_ok rt"
  shows "answers (residue (vc_command_type c) rt) rd rt c (dispatch rd rt c)"
  using assms by (intro dispatch_answers) (simp_all add: runtime_ok_def)

lemma dispatch_ok:
  assumes "runtime_ok rt" "validate_command env = Inr c" "valid_protocol_id (rd_uuid rd 0) 128"
  shows "runtime_ok (fst (dispatch rd rt c))" "ack_sound (snd (dispatch rd rt c))"
proof -
  note a = dispatch_contract [OF assms(1), of c rd] and n = op_name_valid [OF assms(2,3)]
  show "runtime_ok (fst (dispatch rd rt c))"
    using a [unfolded answers_def, THEN conjunct1] assms(1) by (rule runtime_ok_grows) (use n in simp)
  have o': "valid_protocol_id i 128" if "ce_operation_id (vc_envelope c) = Some i" for i
    using that n by (simp add: op_name_def)
  have "valid_protocol_id i 128" if "has_op rt i" for i
    using that assms(1) by (simp add: runtime_ok_def)
  then show "ack_sound (snd (dispatch rd rt c))"
    using answers_mono [OF a subset_UNIV] n o'
    by (auto simp: answers_def ack_sound_def addressed_def split: AcknowledgementStatus.splits)
qed

lemma runtime_ok_replay:
  assumes "runtime_ok rt" "\<And>k r. (k, r) \<in> set al \<Longrightarrow> ack_sound (rr_acknowledgement r)"
  shows "runtime_ok (rt\<lparr>rt_replay := al\<rparr>)"
proof -
  have "has_op (rt\<lparr>rt_replay := al\<rparr>) = has_op rt" "confined (rt\<lparr>rt_replay := al\<rparr>) = confined rt"
    by (simp_all add: fun_eq_iff has_op_def confined_def held_def fresh_key_def)
  then show ?thesis
    using assms(1) unfolding runtime_ok_def by (simp add: assms(2))
qed

lemma remember_replay_ok:
  assumes "runtime_ok rt" "ack_sound ack"
  shows "runtime_ok (remember_replay rt c ack)"
proof -
  have "ack_sound (rr_acknowledgement r)"
    if "(k, r) \<in> set (AList.update i \<lparr>rr_fingerprint = f, rr_acknowledgement = ack\<rparr> (rt_replay rt))" for k r i f
    using that assms set_update_subset [of i _ "rt_replay rt"] by (fastforce simp: runtime_ok_def)
  then show ?thesis
    using assms(1) by (auto simp: remember_replay_def intro: runtime_ok_replay split: option.splits)
qed

lemma submit_ok:
  assumes "runtime_ok rt" "valid_protocol_id (rd_uuid rd 0) 128"
  shows "runtime_ok (fst (submit rd rt env))"
proof -
  have "runtime_ok (remember_replay (fst (dispatch rd rt c)) c (snd (dispatch rd rt c)))" if "validate_command env = Inr c" for c
    using dispatch_ok [OF assms(1) that assms(2)] by (rule remember_replay_ok)
  then show ?thesis
    using assms(1) by (auto simp: submit_def case_prod_unfold Let_def split: sum.splits option.splits)
qed

lemma ack_sound_simps [simp]:
  "ack_sound (readdress now env ack) = ack_sound ack" "ack_sound (ack_rejected now e reason)"
  by (simp_all add: ack_sound_def readdress_def ack_rejected_def split: AcknowledgementStatus.splits)

lemma replay_lookup_sound:
  assumes "runtime_ok rt" "replay_lookup rd rt c = Some ack"
  shows "ack_sound ack \<and> addressed ack (vc_envelope c)"
proof -
  have s: "ack_sound (rr_acknowledgement r) \<and> ak_protocol_version (rr_acknowledgement r) = version_current"
    if "map_of (rt_replay rt) k = Some r" for k r
    using map_of_SomeD [OF that] assms(1) unfolding runtime_ok_def ack_sound_def by blast
  then show ?thesis
    using assms(2) s
    by (auto simp: replay_lookup_def split: option.splits if_splits)
       (simp_all add: addressed_def readdress_def ack_rejected_def)
qed

lemma submit_ack:
  assumes "runtime_ok rt" "valid_protocol_id (rd_uuid rd 0) 128"
  shows "ack_sound (snd (submit rd rt env)) \<and> addressed (snd (submit rd rt env)) env"
proof (cases "rt_closed rt")
  case False
  show ?thesis
  proof (cases "validate_command env")
    case (Inr c)
    have e: "vc_envelope c = env" using validate_command_Inr(1) [OF Inr] .
    show ?thesis
    proof (cases "replay_lookup rd rt c")
      case None
      then have "snd (submit rd rt env) = snd (dispatch rd rt c)"
        using False Inr by (simp add: submit_def case_prod_unfold Let_def)
      then show ?thesis
        using dispatch_ok(2) [OF assms(1) Inr assms(2)] dispatch_contract [OF assms(1), of c rd] e by (simp add: answers_def)
    next
      case (Some ack)
      then show ?thesis
        using replay_lookup_sound [OF assms(1) Some] False Inr e by (simp add: submit_def)
    qed
  qed (simp add: submit_def False ack_sound_def addressed_def ack_rejected_def)
qed (simp add: submit_def ack_sound_def addressed_def ack_rejected_def)

lemma ack_sound_validates: "ack_sound ack \<Longrightarrow> addressed ack env \<Longrightarrow> ack_validate_for ack env"
  by (auto simp: ack_sound_def addressed_def ack_validate_for_def MAX_PROTOCOL_ID_LEN_def is_compatible_def version_current_def
      PROTOCOL_MAJOR_def MIN_SUPPORTED_PEER_MAJOR_def split: AcknowledgementStatus.splits)

section \<open>Every step keeps the invariant\<close>

lemma publish_ok [intro]: "runtime_ok rt \<Longrightarrow> runtime_ok (publish rd n rt s et p c i)"
  by (rule runtime_ok_grows [OF advances_updates(1), of _ "{}"]) simp_all

lemma ephemeral_ok:
  assumes "runtime_ok rt" "paired e" "\<And>k. session_state e k \<noteq> SessionAbsent \<Longrightarrow> held rt k \<or> fresh_key rt k"
  shows "runtime_ok (with_ephemeral rt e)"
proof -
  have h: "has_op (with_ephemeral rt e) = has_op rt" "fresh_key (with_ephemeral rt e) = fresh_key rt"
    by (simp_all add: fun_eq_iff has_op_def fresh_key_def with_ephemeral_def)
  have "fresh_key rt k" if "held (with_ephemeral rt e) k" for k
  proof -
    have "held rt k \<or> fresh_key rt k" using that by (intro assms(3)) (simp add: held_def with_ephemeral_def)
    then show ?thesis using assms(1) unfolding runtime_ok_def confined_def by blast
  qed
  then have "confined (with_ephemeral rt e)"
    unfolding confined_def h by blast
  moreover have "rt_features (with_ephemeral rt e) = rt_features rt" "rt_replay (with_ephemeral rt e) = rt_replay rt"
    "rt_ephemeral (with_ephemeral rt e) = e"
    by (simp_all add: with_ephemeral_def)
  ultimately show ?thesis
    using assms(1,2) unfolding runtime_ok_def h by simp
qed

lemma paired_begin:
  assumes "paired s" "eph_begin s k = (e, True)"
  shows "paired e"
proof -
  have e: "e = s\<lparr>ec_conversations := AList.update k [] (ec_conversations s), ec_operation_ids := AList.update k {} (ec_operation_ids s)\<rparr>"
    and n: "map_of (ec_operation_ids s) k = None"
    using assms unfolding paired_def by (auto simp: eph_begin_def simp del: split_paired_All split: if_splits)
  have "(eo_conversation_id op, eo_branch_id op) \<noteq> k" if "(i, op) \<in> set (ec_operations s)" for i op
    using that assms(1) n unfolding paired_def by fastforce
  then show ?thesis
    using assms(1) unfolding paired_def e by (simp add: update_conv' del: split_paired_All)
qed

lemma paired_end:
  assumes "paired s"
  shows "paired (fst (eph_end s k))"
  using assms unfolding paired_def
  by (auto simp: eph_end_def Let_def delete_conv' belongs_to_def simp del: split_paired_All)

lemma begin_attempts_ok:
  assumes "runtime_ok rt" "\<And>j. j < i + n \<Longrightarrow> fresh_key rt (rd_uuid rd (2 * j), rd_uuid rd (2 * j + 1))"
  shows "runtime_ok (fst (begin_attempts rd rt i n))"
  using assms
proof (induction n arbitrary: i)
  case (Suc n)
  let ?k = "(rd_uuid rd (2 * i), rd_uuid rd (2 * i + 1))"
  have f: "fresh_key rt ?k" using Suc.prems(2) [of i] by simp
  have "runtime_ok (with_ephemeral rt e)" if "eph_begin (rt_ephemeral rt) ?k = (e, True)" for e
  proof (rule ephemeral_ok [OF Suc.prems(1)])
    show "paired e"
      using Suc.prems(1) by (intro paired_begin [OF _ that]) (simp add: runtime_ok_def)
    show "held rt k \<or> fresh_key rt k" if "session_state e k \<noteq> SessionAbsent" for k
    proof (cases "k = ?k")
      case False
      then have "session_state e k = session_state (rt_ephemeral rt) k"
        using \<open>eph_begin (rt_ephemeral rt) ?k = (e, True)\<close>
        by (auto simp: eph_begin_def session_state_def update_conv' split: if_splits)
      then show ?thesis using that by (simp add: held_def)
    qed (use f in simp)
  qed
  then show ?case
    using Suc.IH [of "Suc i"] Suc.prems by (auto simp: Let_def split: prod.splits bool.splits)
qed simp

lemma session_state_end: "session_state (fst (eph_end s k)) k' \<noteq> SessionAbsent \<longleftrightarrow> session_state s k' \<noteq> SessionAbsent"
  by (auto simp: eph_end_def Let_def session_state_def delete_conv')

lemma end_temporary_chat_ok:
  assumes "runtime_ok rt"
  shows "runtime_ok (fst (end_temporary_chat rd rt c b))"
proof -
  let ?e = "fst (eph_end (rt_ephemeral rt) (c, b))"
  have e: "runtime_ok (with_ephemeral rt ?e)"
    using assms by (intro ephemeral_ok) (simp_all add: runtime_ok_def paired_end session_state_end held_def)
  have sound: "ack_sound (rr_acknowledgement r)"
    if "(k, r) \<in> set (filter (\<lambda>(_, r). \<not> of_conversation c r) (rt_replay (with_ephemeral rt ?e)))" for k r
    using that e unfolding runtime_ok_def by auto
  have "runtime_ok (purge_replay_for_conversation (with_ephemeral rt ?e) c)"
    unfolding purge_replay_for_conversation_def using e sound by (rule runtime_ok_replay)
  then have "runtime_ok ((purge_replay_for_conversation (with_ephemeral rt ?e) c)\<lparr>rt_events := bus\<rparr>)" for bus
    by (rule runtime_ok_grows [of "{}", rotated]) simp_all
  then show ?thesis
    using assms by (auto simp: end_temporary_chat_def case_prod_unfold Let_def split: option.splits)
qed

lemma cancel_all_ok: "features_ok s \<Longrightarrow> features_ok (cancel_all s)"
  by (simp add: features_ok_def fs_wf_def tokens_named_def cancel_all_def)

lemma cleared_sessions:
  "paired (cancel_all_and_clear e)" "session_state (cancel_all_and_clear e) k = SessionAbsent"
  by (simp_all add: paired_def cancel_all_and_clear_def session_state_def)

lemma shutdown_ok:
  assumes "runtime_ok rt"
  shows "runtime_ok (fst (shutdown rd rt st save))"
proof -
  have stop: "runtime_ok ((with_ephemeral (with_features rt1 (cancel_all (rt_features rt1))) (cancel_all_and_clear (rt_ephemeral rt1)))
      \<lparr>rt_cancelled := True, rt_replay := [], rt_activation := sv, rt_state := RtStopped\<rparr>)"
    if "runtime_ok rt1" for rt1 sv
    using that unfolding runtime_ok_def
    by (simp add: with_features_def with_ephemeral_def cancel_all_ok cleared_sessions confined_def held_def has_op_def)
       (simp add: cancel_all_def)
  have "runtime_ok (rt\<lparr>rt_closed := True, rt_state := RtStopping\<rparr>)"
    using assms by (simp add: runtime_ok_def has_op_def confined_def held_def fresh_key_def)
  then show ?thesis
    using assms by (auto simp: shutdown_def Let_def case_prod_unfold intro!: publish_ok stop)
qed

lemma runtime_step_ok:
  assumes "runtime_step rt rt'" "runtime_ok rt"
  shows "runtime_ok rt'"
  using assms
proof (induction rule: runtime_step.induct)
  case (submitted rd rt env)
  then show ?case by (intro submit_ok)
next
  case (task_ran t rt rt')
  have "\<not> held rt k" if "stores_durably t k" for k
    using that task_ran unfolding runtime_ok_def confined_def fresh_key_def by blast
  then show ?case
    using task_ran task_step_grows [of rt t rt' "{}"] runtime_ok_grows [of "{}"] by blast
next
  case (chat_begun rt rd)
  then show ?case by (simp add: begin_temporary_chat_def begin_attempts_ok)
next
  case (chat_ended rt rd c b)
  then show ?case by (rule end_temporary_chat_ok)
next
  case (shut_down rt rd st save)
  then show ?case by (rule shutdown_ok)
next
  case (snapshot_written rt c q)
  then show ?case using runtime_ok_grows [OF snapshot_written_grows [of rt c q "{}"]] by simp
next
  case (rag_attached rt rd)
  then show ?case using runtime_ok_grows [OF attach_rag_service_grows [of "{}"]] by simp
next
  case (secrets_configured rt rd brave tavily)
  then show ?case using runtime_ok_grows [OF configure_remote_tools_grows [of "{}"]] by simp
qed (rule runtime_ok_grows [of "{}", rotated], assumption, simp_all)+

lemma created_ok:
  assumes "create_with_services rd config async_ok factory = Inr rt"
  shows "runtime_ok rt"
proof -
  have "runtime_ok \<lparr>rt_session_id = session, rt_config = config, rt_state = RtCreated, rt_cancelled = False,
      rt_events = bus, rt_platform = broker, rt_stores = \<lparr>cs_ephemeral = ephemeral_new, cs_features = features_new\<rparr>, rt_settings = [],
      rt_replay = [], rt_product_config = None, rt_activation = sv, rt_backend_factory = factory, rt_agent_loop = None,
      rt_rag_service = False, rt_remote_tool_secrets = None, rt_remote_policy = LocalOnly, rt_closed = False, rt_tasks = []\<rparr>"
    for session bus broker sv
    by (simp add: runtime_ok_def features_ok_def fs_wf_def tokens_named_def features_new_def paired_def ephemeral_new_def has_op_def
        keyed_def confined_def held_def session_state_def)
  then show ?thesis
    using assms by (auto simp: create_with_services_def Let_def intro!: publish_ok split: sum.splits if_splits)
qed

text \<open>A hydrated runtime: its projections are those of the store.\<close>

lemma keyed_collected: "keyed f (collect_map f id rs)" "distinct (map fst (collect_map g h qs))" "fst ` set (collect_map g h qs) = g ` set qs"
proof -
  show "keyed f (collect_map f id rs)"
    by (induction rs rule: rev_induct) (simp_all add: collect_snoc keyed_update, simp add: collect_map_def keyed_def)
  show "distinct (map fst (collect_map g h qs))"
    by (induction qs rule: rev_induct) (simp_all add: collect_snoc distinct_update, simp add: collect_map_def)
  show "fst ` set (collect_map g h qs) = g ` set qs"
    by (induction qs rule: rev_induct) (simp_all add: collect_snoc dom_update, simp add: collect_map_def)
qed

definition hydrated :: "FeatureState \<Rightarrow> bool" where
  "hydrated s \<longleftrightarrow>
     fs_wf s \<and> fs_operation_tokens s = [] \<and> (\<forall>i \<in> fst ` set (fs_operations s). valid_protocol_id i 128)"

lemma hydrate_part_keeps:
  assumes "hydrated s" "\<And>v s'. loaded = Inr (Some v) \<Longrightarrow> decode v = Some s' \<Longrightarrow> hydrated s'"
  shows "hydrated (fst (hydrate_part loaded decode s))"
  using assms by (auto simp: hydrate_part_def split: sum.splits option.splits)

definition operations_valid :: "(string \<Rightarrow> ProjectionValue option result) \<Rightarrow> bool" where
  "operations_valid load \<longleftrightarrow>
     (case load ''operations'' of
        Inr (Some (OperationsValue rs)) \<Rightarrow> list_all (\<lambda>r. valid_protocol_id (or_operation_id r) 128) rs
      | _ \<Rightarrow> True)"

lemma decoded_hydrated:
  assumes "hydrated s"
  shows "decode_operations now s v = Some s' \<Longrightarrow> load ''operations'' = Inr (Some v) \<Longrightarrow> operations_valid load \<Longrightarrow> hydrated s'"
    and "decode_models s v = Some s' \<Longrightarrow> hydrated s'" "decode_documents s v = Some s' \<Longrightarrow> hydrated s'"
    "decode_conversations s v = Some s' \<Longrightarrow> hydrated s'"
proof -
  show "hydrated s'" if d: "decode_operations now s v = Some s'" "load ''operations'' = Inr (Some v)" "operations_valid load"
  proof -
    obtain rs where rs: "v = OperationsValue rs" "s' = s\<lparr>fs_operations := collect_map or_operation_id id (map (interrupt now) rs)\<rparr>"
      using d(1) by (cases v) (simp_all add: decode_operations_def)
    have "\<forall>i \<in> or_operation_id ` set (map (interrupt now) rs). valid_protocol_id i 128"
      using d(2,3) rs(1) by (simp add: operations_valid_def list_all_iff)
    then show ?thesis using assms unfolding rs(2) hydrated_def fs_wf_def by (simp add: keyed_collected del: set_map)
  qed
qed (use assms in \<open>cases v; simp add: hydrated_def fs_wf_def decode_models_def decode_documents_def decode_conversations_def keyed_collected\<close>;
    use assms in \<open>auto simp: hydrated_def fs_wf_def keyed_collected\<close>)+

lemma hydrate_from_store_hydrated:
  assumes "hydrated s" "operations_valid load"
  shows "hydrated (fst (hydrate_from_store s load now))"
proof -
  have 1: "hydrated (fst (hydrate_part (load ''operations'') (decode_operations now s) s))" if "hydrated s" for s
    using that by (rule hydrate_part_keeps) (rule decoded_hydrated(1) [OF that _ _ assms(2)])
  have 2: "hydrated (fst (hydrate_part l (decode_models s) s))" "hydrated (fst (hydrate_part l (decode_documents s) s))"
    "hydrated (fst (hydrate_part l (decode_conversations s) s))" if "hydrated s" for s l
    by (rule hydrate_part_keeps [OF that], erule decoded_hydrated(2-4) [OF that])+
  have 3: "hydrated (persist_operations s)" if "hydrated s" for s
    using that by (simp add: hydrated_def persist_operations_def)
  show ?thesis
    using assms(1) 1 2 3 unfolding hydrate_from_store_def
    by (auto split: prod.splits sum.splits) (metis fst_conv)+
qed

lemma attached_ok:
  assumes "create_with_services rd config async_ok factory = Inr rt" "operations_valid load"
  shows "runtime_ok (fst (attach_runtime_store rd' rt load settings))"
proof -
  have "hydrated (attach_projection_store features_new)"
    by (simp add: hydrated_def attach_projection_store_def features_new_def fs_wf_def keyed_def)
  then have h: "hydrated (fst (hydrate_from_store (attach_projection_store (rt_features rt)) load (rd_now rd')))"
    using assms by (intro hydrate_from_store_hydrated)
      (auto simp: create_with_services_def publish_def Let_def split: sum.splits if_splits)
  have c: "runtime_ok (with_features rt f)" if "hydrated f" for f
    using that assms(1)
    by (auto simp: create_with_services_def publish_def Let_def with_features_def runtime_ok_def hydrated_def features_ok_def tokens_named_def
        paired_def ephemeral_new_def has_op_def confined_def held_def session_state_def map_of_eq_None_iff split: sum.splits if_splits)
  have "runtime_ok (rt'\<lparr>rt_settings := v\<rparr>)" "runtime_ok (rt'\<lparr>rt_remote_policy := p\<rparr>)" if "runtime_ok rt'" for rt' :: "'a MukeiRuntime" and v p
    using that by (simp_all add: runtime_ok_def has_op_def confined_def held_def fresh_key_def)
  then show ?thesis
    using c h by (auto simp: attach_runtime_store_def Let_def split: prod.splits sum.splits option.splits json.splits)
qed

text \<open>
  What a client can reach from a created runtime, with or without the store that holds the projections
  of earlier sessions; operations in a store have valid identifiers.
\<close>
inductive reachable :: "'be MukeiRuntime \<Rightarrow> bool" where
  created: "create_with_services rd config async_ok factory = Inr rt \<Longrightarrow> reachable rt"
| attached: "create_with_services rd config async_ok factory = Inr rt \<Longrightarrow> operations_valid load
    \<Longrightarrow> reachable (fst (attach_runtime_store rd' rt load settings))"
| stepped: "reachable rt \<Longrightarrow> runtime_step rt rt' \<Longrightarrow> reachable rt'"

lemma reachable_ok: "reachable rt \<Longrightarrow> runtime_ok rt"
  by (induction rule: reachable.induct) (blast intro: created_ok attached_ok runtime_step_ok)+

section \<open>Acknowledgements and rejections\<close>

lemma remember_frame [simp]:
  "has_op (remember_replay rt c a) i = has_op rt i" "in_session (remember_replay rt c a) i = in_session rt i"
  "(remember_replay rt c a)\<lparr>rt_replay := x\<rparr> = rt\<lparr>rt_replay := x\<rparr>"
  by (simp_all add: remember_replay_def has_op_def in_session_def split: option.splits)

lemma answers_rejected: "answers R rd rt c r \<Longrightarrow> ak_status (snd r) = AckRejected \<Longrightarrow> fst r \<in> R"
  by (simp add: answers_def)

lemma answers_accepted_op:
  "answers R rd rt c r \<Longrightarrow> ak_status (snd r) = AckAccepted \<Longrightarrow>
     \<exists>i. ak_operation_id (snd r) = Some i \<and> (has_op (fst r) i \<or> in_session (fst r) i)"
  by (auto simp: answers_def)

lemma answers_replay: "answers R rd rt c r \<Longrightarrow> rt_replay (fst r) = rt_replay rt"
  by (simp add: answers_def advances_def)

text \<open>
  C20: In every state a client can reach, whatever command is submitted, the acknowledgement the
  runtime returns passes the protocol's own check against that command: it is addressed to it, an
  acceptance names a valid operation, a rejection a reason. A command that is accepted afresh names
  an operation that is then on record, durably or with the temporary chat it belongs to.
\<close>
theorem acknowledgements_valid:
  assumes "reachable rt" "valid_protocol_id (rd_uuid rd 0) 128"
  shows "ack_validate_for (snd (submit rd rt env)) env
    \<and> (\<not> rt_closed rt \<and> (\<forall>k. ce_idempotency_key env = Some k \<longrightarrow> map_of (rt_replay rt) k = None)
         \<and> ak_status (snd (submit rd rt env)) = AckAccepted \<longrightarrow>
       (\<exists>i. ak_operation_id (snd (submit rd rt env)) = Some i
          \<and> (has_op (fst (submit rd rt env)) i \<or> in_session (fst (submit rd rt env)) i)))"
proof -
  have ok: "runtime_ok rt" using assms(1) by (rule reachable_ok)
  have "\<exists>i. ak_operation_id (snd (submit rd rt env)) = Some i
      \<and> (has_op (fst (submit rd rt env)) i \<or> in_session (fst (submit rd rt env)) i)"
    if h: "\<not> rt_closed rt" "\<forall>k. ce_idempotency_key env = Some k \<longrightarrow> map_of (rt_replay rt) k = None"
      "ak_status (snd (submit rd rt env)) = AckAccepted"
  proof (cases "validate_command env")
    case (Inl reason)
    then show ?thesis using h by (simp add: submit_def ack_rejected_def)
  next
    case (Inr c)
    have "replay_lookup rd rt c = None"
      using h(2) validate_command_Inr(1) [OF Inr] by (auto simp: replay_lookup_def split: option.splits)
    then have s: "submit rd rt env = (remember_replay (fst (dispatch rd rt c)) c (snd (dispatch rd rt c)), snd (dispatch rd rt c))"
      using h(1) Inr by (simp add: submit_def case_prod_unfold Let_def)
    then show ?thesis
      using answers_accepted_op [OF dispatch_contract [OF ok, of c rd]] h(3) by simp
  qed
  then show ?thesis
    using submit_ack [OF ok assms(2)] ack_sound_validates by blast
qed

lemma submit_dispatches:
  assumes "fst (submit rd rt env) \<noteq> rt"
  obtains c where "validate_command env = Inr c" "replay_lookup rd rt c = None"
    "submit rd rt env = (remember_replay (fst (dispatch rd rt c)) c (snd (dispatch rd rt c)), snd (dispatch rd rt c))"
proof (cases "validate_command env")
  case (Inr c)
  show thesis
  proof (cases "replay_lookup rd rt c")
    case None
    then show thesis using that [OF Inr] assms Inr by (simp add: submit_def case_prod_unfold Let_def split: if_splits)
  qed (use assms Inr in \<open>simp add: submit_def split: if_splits\<close>)
qed (use assms in \<open>simp add: submit_def split: if_splits\<close>)

text \<open>
  C21: A rejected command has no effect. The state after a rejection differs from the one before at
  most in the replay record of the command, except for two commands: a failed initialization leaves
  the runtime in its failed state, and a rejected regeneration may have removed the last answer.
\<close>
theorem rejected_commands_without_effect:
  assumes "reachable rt" "submit rd rt env = (rt', ack)" "ak_status ack = AckRejected"
  shows "rt'\<lparr>rt_replay := rt_replay rt\<rparr> = rt
    \<or> (ce_command_type env = ''app.initialize'' \<and> rt'\<lparr>rt_replay := rt_replay rt\<rparr> = rt\<lparr>rt_state := RtFailed\<rparr>)
    \<or> (ce_command_type env = ''recovery.regenerate''
        \<and> (\<exists>key. rt'\<lparr>rt_replay := rt_replay rt\<rparr> =
              rt\<lparr>rt_stores := fst (remove_last_assistant_chat_message (rt_stores rt) key)\<rparr>))"
proof (cases "rt' = rt")
  case False
  then have "fst (submit rd rt env) \<noteq> rt" using assms(2) by simp
  then obtain c where c: "validate_command env = Inr c"
    and "submit rd rt env = (remember_replay (fst (dispatch rd rt c)) c (snd (dispatch rd rt c)), snd (dispatch rd rt c))"
    by (rule submit_dispatches)
  then have d: "rt' = remember_replay (fst (dispatch rd rt c)) c (snd (dispatch rd rt c))" "ack = snd (dispatch rd rt c)"
    using assms(2) by simp_all
  note a = dispatch_contract [OF reachable_ok [OF assms(1)], of c rd]
  have "fst (dispatch rd rt c) \<in> residue (vc_command_type c) rt"
    using answers_rejected [OF a] d(2) assms(3) by simp
  then show ?thesis
    using validate_command_Inr(2) [OF c] d(1) answers_replay [OF a]
    by (auto simp: residue_def simp del: split_paired_Ex split_paired_All split: if_splits)
qed simp

section \<open>Replay\<close>

lemma fingerprint_eq_iff:
  "command_fingerprint e = command_fingerprint e' \<longleftrightarrow>
     ce_command_type e = ce_command_type e' \<and> ce_operation_id e = ce_operation_id e'
     \<and> ce_scope e = ce_scope e' \<and> ce_payload e = ce_payload e'"
proof -
  have scope: "scope_json s = scope_json s' \<longleftrightarrow> s = s'" for s s'
    by (cases s; cases s') (auto simp: scope_json_def opt_field_def split: option.splits)
  have null: "scope_json s \<noteq> Null" for s by (simp add: scope_json_def)
  show ?thesis
    by (auto simp: command_fingerprint_def scope null null [symmetric] split: option.splits)
qed

lemma of_conversation_record:
  "of_conversation c \<lparr>rr_fingerprint = command_fingerprint e, rr_acknowledgement = ack\<rparr> \<longleftrightarrow>
     (\<exists>s. ce_scope e = Some s \<and> sc_conversation_id s = Some c)"
  by (auto simp: of_conversation_def command_fingerprint_def json_get_def as_str_def scope_json_def opt_field_def split: option.splits)

lemma map_of_filter_keep: "map_of al k = Some r \<Longrightarrow> P r \<Longrightarrow> map_of (filter (\<lambda>p. P (snd p)) al) k = Some r"
  by (induction al) (auto split: if_splits)

lemma submit_grows:
  assumes "runtime_ok rt"
  shows "rt_closed (fst (submit rd rt env)) = rt_closed rt" "ec_retired (rt_ephemeral (fst (submit rd rt env))) = ec_retired (rt_ephemeral rt)"
    "map_of (rt_replay rt) k = Some r \<Longrightarrow> map_of (rt_replay (fst (submit rd rt env))) k = Some r"
proof -
  have "rt_closed (fst (submit rd rt env)) = rt_closed rt \<and> ec_retired (rt_ephemeral (fst (submit rd rt env))) = ec_retired (rt_ephemeral rt)
      \<and> (map_of (rt_replay rt) k = Some r \<longrightarrow> map_of (rt_replay (fst (submit rd rt env))) k = Some r)"
  proof (cases "fst (submit rd rt env) = rt")
    case False
    then obtain c where c: "fst (submit rd rt env) = remember_replay (fst (dispatch rd rt c)) c (snd (dispatch rd rt c))"
      by (rule submit_dispatches) simp
    have "advances {op_name rd c} rt (fst (dispatch rd rt c))"
      using dispatch_contract [OF assms, of c rd] unfolding answers_def by (rule conjunct1)
    then show ?thesis
      unfolding c by (auto simp: advances_def remember_replay_def update_conv' split: option.splits)
  qed simp
  then show "rt_closed (fst (submit rd rt env)) = rt_closed rt" "ec_retired (rt_ephemeral (fst (submit rd rt env))) = ec_retired (rt_ephemeral rt)"
    "map_of (rt_replay rt) k = Some r \<Longrightarrow> map_of (rt_replay (fst (submit rd rt env))) k = Some r"
    by blast+
qed

text \<open>What a step does to the replay records: they go when their conversation ends or the runtime shuts down.\<close>
definition keeps_records :: "'be MukeiRuntime \<Rightarrow> 'be MukeiRuntime \<Rightarrow> bool" where
  "keeps_records rt rt' \<longleftrightarrow>
     rt_closed rt' \<or> (\<not> rt_closed rt \<and> ec_retired (rt_ephemeral rt) \<subseteq> ec_retired (rt_ephemeral rt')
       \<and> (\<forall>k r. map_of (rt_replay rt) k = Some r \<longrightarrow>
            (\<forall>c b. of_conversation c r \<longrightarrow> (c, b) \<notin> ec_retired (rt_ephemeral rt')) \<longrightarrow> map_of (rt_replay rt') k = Some r))"

lemma keeps_records_grows: "advances X rt rt' \<Longrightarrow> keeps_records rt rt'"
  by (auto simp: advances_def keeps_records_def)

lemma keeps_records_begin: "keeps_records rt (fst (begin_attempts rd rt i n))"
proof (induction n arbitrary: i)
  case (Suc n)
  have "keeps_records rt (publish rd m (with_ephemeral rt e) s et p a b)" if "eph_begin (rt_ephemeral rt) k = (e, True)" for m e s et p a b k
    using that by (auto simp: keeps_records_def publish_def with_ephemeral_def eph_begin_def split: if_splits)
  then show ?case using Suc.IH by (auto simp: Let_def split: prod.splits bool.splits)
qed (auto simp: keeps_records_def)

lemma keeps_records_end: "keeps_records rt (fst (end_temporary_chat rd rt c b))"
  by (auto simp: keeps_records_def end_temporary_chat_def Let_def case_prod_unfold publish_def with_ephemeral_def
      purge_replay_for_conversation_def eph_end_def intro!: map_of_filter_keep split: option.splits if_splits)

lemma keeps_records_step:
  assumes "runtime_step rt rt'" "runtime_ok rt"
  shows "keeps_records rt rt'"
  using assms
proof (induction rule: runtime_step.induct)
  case (submitted rd rt env)
  then show ?case using submit_grows [where rt = rt and rd = rd and env = env] by (auto simp: keeps_records_def)
next
  case (task_ran t rt rt')
  have "\<not> held rt k" if "stores_durably t k" for k
    using that task_ran unfolding runtime_ok_def confined_def fresh_key_def by blast
  then show ?case
    using task_ran task_step_grows [of rt t rt' "{}"] keeps_records_grows by blast
next
  case (chat_begun rt rd)
  then show ?case using keeps_records_begin [of rt rd 0 8] by (auto simp: begin_temporary_chat_def keeps_records_def)
next
  case (chat_ended rt rd c b)
  then show ?case by (intro keeps_records_end)
next
  case (shut_down rt rd st save)
  then show ?case by (auto simp: keeps_records_def shutdown_def Let_def case_prod_unfold publish_def with_ephemeral_def with_features_def)
next
  case (snapshot_written rt c q)
  then show ?case using keeps_records_grows [OF snapshot_written_grows] by blast
next
  case (rag_attached rt rd)
  then show ?case using keeps_records_grows [OF attach_rag_service_grows] by blast
next
  case (secrets_configured rt rd brave tavily)
  then show ?case using keeps_records_grows [OF configure_remote_tools_grows] by blast
qed (rule keeps_records_grows [of "{}"], simp)+

lemma record_survives:
  assumes "runtime_step\<^sup>*\<^sup>* rt rt'" "runtime_ok rt" "\<not> rt_closed rt'" "map_of (rt_replay rt) k = Some r"
    and "\<And>c b. of_conversation c r \<Longrightarrow> (c, b) \<notin> ec_retired (rt_ephemeral rt')"
  shows "map_of (rt_replay rt') k = Some r"
  using assms
proof (induction rule: converse_rtranclp_induct)
  case (step rt rt1)
  have ok: "runtime_ok rt1" using step by (blast intro: runtime_step_ok)
  have later: "\<not> rt_closed rt1 \<and> ec_retired (rt_ephemeral rt1) \<subseteq> ec_retired (rt_ephemeral rt')"
    using step.hyps(2) ok step.prems(2)
  proof (induction rule: converse_rtranclp_induct)
    case (step u v)
    have "runtime_ok v" using step by (blast intro: runtime_step_ok)
    then show ?case using step keeps_records_step [of u v] unfolding keeps_records_def by blast
  qed simp
  then have "map_of (rt_replay rt1) k = Some r"
    using keeps_records_step [OF step.hyps(1) step.prems(1)] step.prems(3,4) unfolding keeps_records_def by blast
  then show ?case using step.IH ok step.prems(2,4) by blast
qed simp

lemma submit_remembers:
  assumes "runtime_ok rt" "submit rd rt env = (rt1, ack)" "\<not> rt_closed rt" "validate_command env = Inr c"
    "ce_idempotency_key env = Some k" "map_of (rt_replay rt) k = None"
  shows "map_of (rt_replay rt1) k = Some \<lparr>rr_fingerprint = command_fingerprint env, rr_acknowledgement = ack\<rparr>"
proof -
  have e: "vc_envelope c = env" using validate_command_Inr(1) [OF assms(4)] .
  have "replay_lookup rd rt c = None" using assms(5,6) e by (simp add: replay_lookup_def)
  then have s: "rt1 = remember_replay (fst (dispatch rd rt c)) c ack"
    using assms(2,3,4) by (auto simp: submit_def case_prod_unfold Let_def)
  show ?thesis
    using answers_replay [OF dispatch_contract [OF assms(1), of c rd]] assms(5,6) e unfolding s
    by (simp add: remember_replay_def)
qed

text \<open>
  C2: A command with an idempotency key is carried out once. After its first submission, through any
  further commands, calls and task effects, submitting a command under the same key changes nothing:
  the same command (equal type, operation, scope and payload) is answered with the first
  acknowledgement, addressed to the new envelope, and a different one is rejected as a conflict. This
  ends when the runtime shuts down or the command's temporary chat has ended.
\<close>
theorem commands_carried_out_once:
  assumes "reachable rt" "\<not> rt_closed rt" "submit rd rt env = (rt1, ack)" "validate_command env = Inr c"
    "ce_idempotency_key env = Some k" "map_of (rt_replay rt) k = None"
    and "runtime_step\<^sup>*\<^sup>* rt1 rt2" "\<not> rt_closed rt2"
    and "\<forall>s cv b. ce_scope env = Some s \<and> sc_conversation_id s = Some cv \<longrightarrow> (cv, b) \<notin> ec_retired (rt_ephemeral rt2)"
    and "validate_command env' = Inr c'" "ce_idempotency_key env' = Some k" "valid_protocol_id (rd_uuid rd 0) 128"
  shows "submit rd' rt2 env' =
    (rt2, if ce_command_type env' = ce_command_type env \<and> ce_operation_id env' = ce_operation_id env
            \<and> ce_scope env' = ce_scope env \<and> ce_payload env' = ce_payload env
          then ack\<lparr>ak_command_id := ce_command_id env', ak_request_id := ce_request_id env',
            ak_correlation_id := ce_correlation_id env', ak_timestamp := rd_now rd'\<rparr>
          else ack_rejected (rd_now rd') (Some env') DuplicateReplayConflict)"
proof -
  have ok: "runtime_ok rt" "runtime_ok rt1"
    using reachable_ok [OF assms(1)] submit_ok [of rt rd env] assms(3,12) by simp_all
  let ?r = "\<lparr>rr_fingerprint = command_fingerprint env, rr_acknowledgement = ack\<rparr>"
  have "map_of (rt_replay rt1) k = Some ?r"
    using submit_remembers [OF ok(1) assms(3,2,4,5,6)] .
  then have r: "map_of (rt_replay rt2) k = Some ?r"
    by (rule record_survives [OF assms(7) ok(2) assms(8)]) (use assms(9) in \<open>auto simp: of_conversation_record\<close>)
  have e: "vc_envelope c' = env'" using validate_command_Inr(1) [OF assms(10)] .
  show ?thesis
    using assms(8,10,11) r e by (auto simp: submit_def replay_lookup_def readdress_def fingerprint_eq_iff)
qed

section \<open>Temporary chats\<close>

text \<open>
  C4: In every reachable state, a temporary chat, begun or ended, is unknown to the durable side: its
  key is in no durable conversation and in no snapshot queued for the store, and no task is running
  that would store an answer for it durably.
\<close>
theorem runtime_keeps_temporary_chats_off_disk:
  assumes "reachable rt" "session_state (rt_ephemeral rt) k \<noteq> SessionAbsent"
  shows "map_of (fs_conversations (rt_features rt)) k = None \<and> \<not> queue_mentions (rt_features rt) k
    \<and> (\<forall>ids i tok env q g u. ChatTask k ids i tok env q g False u \<notin> set (rt_tasks rt))"
proof -
  have "fresh_key rt k"
    using reachable_ok [OF assms(1)] assms(2) unfolding runtime_ok_def confined_def held_def by blast
  then show ?thesis by (auto simp: fresh_key_def durably_known_def)
qed

lemma resend_subset: "set (bus_queue (resend bus es)) \<subseteq> set (bus_queue bus) \<union> set es"
proof (induction es arbitrary: bus)
  case (Cons e es)
  have "set (bus_queue (count_sent (try_send bus e))) \<subseteq> set (bus_queue bus) \<union> {e}"
    by (auto simp: try_send_def count_sent_def)
  then show ?case using Cons.IH [of "count_sent (try_send bus e)"] by auto
qed simp

lemma resend_suppressed [simp]:
  "bus_suppressed_streams (resend bus es) = bus_suppressed_streams bus"
  "bus_suppressed_operations (resend bus es) = bus_suppressed_operations bus"
  by (induction es arbitrary: bus) (simp_all add: try_send_def count_sent_def)

lemma purge_effect:
  assumes "purge_temporary_chat bus c os = (bus', n)"
  shows "\<And>e. e \<in> set (bus_queue bus') \<Longrightarrow> \<not> sensitive c os e"
    "conversation_stream c \<in> bus_suppressed_streams bus'" "set os \<subseteq> bus_suppressed_operations bus'"
  using assms resend_subset
  by (fastforce simp: purge_temporary_chat_def Let_def purge_receive_eq)+

lemma emit_queue: "set (bus_queue (emit bus call)) \<subseteq> set (bus_queue bus) \<union> {snd (build_event bus call)}"
  by (auto simp: emit_def case_prod_unfold try_send_def count_sent_def Let_def)

lemma emit_suppresses [simp]:
  "bus_suppressed_streams (emit bus call) = bus_suppressed_streams bus"
  "bus_suppressed_operations (emit bus call) = bus_suppressed_operations bus"
  by (simp_all add: emit_def case_prod_unfold try_send_def count_sent_def Let_def)

lemma end_true:
  assumes "end_temporary_chat rd rt c b = (rt', True)"
  obtains e os bus n call where "eph_end (rt_ephemeral rt) (c, b) = (e, Some os)"
    "purge_temporary_chat (rt_events rt) c os = (bus, n)" "rt_ephemeral rt' = e" "rt_features rt' = rt_features rt"
    "rt_replay rt' = filter (\<lambda>(_, r). \<not> of_conversation c r) (rt_replay rt)"
    "rt_events rt' = emit bus call" "em_stream_id call = ''application:temporary-chat''" "em_operation_id call = None"
proof -
  obtain e r where er: "eph_end (rt_ephemeral rt) (c, b) = (e, r)" by fastforce
  then obtain os where os: "r = Some os" using assms by (cases r) (auto simp: end_temporary_chat_def split: if_splits)
  obtain bus n where p: "purge_temporary_chat (rt_events rt) c os = (bus, n)" by fastforce
  define call where "call =
      \<lparr>em_stream_id = ''application:temporary-chat'', em_event_type = ''chat.temporary.ended'',
       em_payload = Object [(''conversation_id'', String c), (''branch_id'', String b), (''purged_events'', json_nat n)],
       em_command = None, em_operation_id = None, em_event_id = rd_uuid rd 0, em_now = rd_now rd\<rparr>"
  have "rt' = (purge_replay_for_conversation (with_ephemeral rt e) c)\<lparr>rt_events := emit bus call\<rparr>"
    using assms er os p
    by (auto simp: call_def end_temporary_chat_def publish_def purge_replay_for_conversation_def with_ephemeral_def split: if_splits)
  then show thesis
    using that [of e os bus n call] er os p by (simp add: purge_replay_for_conversation_def with_ephemeral_def call_def)
qed

text \<open>
  C3: Ending a temporary chat leaves nothing of it. Its session is retired and its messages gone, its
  live operations are cancelled and no longer listed, no replay record of its conversation remains,
  no queued event is on its conversation's stream or belongs to one of its operations, further events
  of those are suppressed, and the durable state is untouched.
\<close>
theorem ended_chat_leaves_nothing:
  assumes "reachable rt" "end_temporary_chat rd rt c b = (rt', True)"
    and "map_of (ec_operation_ids (rt_ephemeral rt)) (c, b) = Some ids"
  shows "session_state (rt_ephemeral rt') (c, b) = SessionRetired \<and> history_if_registered (rt_ephemeral rt') (c, b) = None
    \<and> rt_features rt' = rt_features rt
    \<and> (\<forall>(i, op) \<in> set (ec_operations (rt_ephemeral rt)). belongs_to (c, b) op \<longrightarrow>
         i \<in> ids \<and> eo_token op \<in> ec_cancelled (rt_ephemeral rt') \<and> (i, op) \<notin> set (ec_operations (rt_ephemeral rt')))
    \<and> (\<forall>(k, r) \<in> set (rt_replay rt'). \<not> of_conversation c r)
    \<and> (\<forall>e \<in> set (bus_queue (rt_events rt')). ev_stream_id e \<noteq> conversation_stream c
         \<and> (\<forall>i \<in> ids. ev_stream_id e \<noteq> operation_stream i \<and> ev_operation_id e \<noteq> Some i))
    \<and> (\<forall>call. em_stream_id call = conversation_stream c \<or> em_operation_id call \<in> Some ` ids \<longrightarrow> emit (rt_events rt') call = rt_events rt')"
proof -
  obtain e os bus n call where x: "eph_end (rt_ephemeral rt) (c, b) = (e, Some os)"
    "purge_temporary_chat (rt_events rt) c os = (bus, n)" "rt_ephemeral rt' = e" "rt_features rt' = rt_features rt"
    "rt_replay rt' = filter (\<lambda>(_, r). \<not> of_conversation c r) (rt_replay rt)"
    "rt_events rt' = emit bus call" "em_stream_id call = ''application:temporary-chat''" "em_operation_id call = None"
    using assms(2) by (rule end_true)
  have gone: "map_of (ec_conversations e) (c, b) = None" "(c, b) \<in> ec_retired e"
    "\<And>i op. (i, op) \<in> set (ec_operations (rt_ephemeral rt)) \<Longrightarrow> belongs_to (c, b) op \<Longrightarrow>
       eo_token op \<in> ec_cancelled e \<and> (i, op) \<notin> set (ec_operations e)"
    using x(1) by (auto simp: eph_end_def Let_def split: if_splits)
  have p: "paired (rt_ephemeral rt)" using reachable_ok [OF assms(1)] by (simp add: runtime_ok_def)
  have live: "i \<in> ids" if "(i, op) \<in> set (ec_operations (rt_ephemeral rt))" "belongs_to (c, b) op" for i op
    using p that assms(3) unfolding paired_def belongs_to_def by fastforce
  have fin: "finite ids" using p assms(3) unfolding paired_def by blast
  have os: "set os = ids"
    using x(1) assms(3) fin live by (auto simp: eph_end_def Let_def split: if_splits)
  note purged = purge_effect [OF x(2)]
  have queue: "ev_stream_id ev \<noteq> conversation_stream c \<and> (\<forall>i \<in> ids. ev_stream_id ev \<noteq> operation_stream i \<and> ev_operation_id ev \<noteq> Some i)"
    if "ev \<in> set (bus_queue (rt_events rt'))" for ev
  proof (cases "ev \<in> set (bus_queue bus)")
    case True
    then show ?thesis using purged(1) [OF True] os by (auto simp: sensitive_def)
  next
    case False
    then have "ev = snd (build_event bus call)" using that emit_queue [of bus call] x(6) by auto
    then show ?thesis using x(7,8) by (simp add: conversation_stream_def operation_stream_def)
  qed
  have "emit (rt_events rt') call' = rt_events rt'"
    if "em_stream_id call' = conversation_stream c \<or> em_operation_id call' \<in> Some ` ids" for call'
    using that purged(2,3) os unfolding x(6) by (auto simp: emit_def [of "emit bus call"] emit_suppressed_def)
  then show ?thesis
    using queue x(4,5) live gone unfolding x(3) by (auto simp: session_state_def history_if_registered_def)
qed

section \<open>A sample run\<close>

definition sample_product :: ProductConfig where
  "sample_product =
     \<lparr>pc_models_dir = ''/m'', pc_n_ctx = 4096,
      pc_agent = \<lparr>cfg_max_failures_per_tool = 3, cfg_recovered_history_window = 8, cfg_repeat_output_window = 2,
        cfg_repeat_output_backoff_secs = 10, cfg_max_concurrent_tools = 4\<rparr>,
      pc_watchdog_max_iterations = 8, pc_watchdog_max_token_budget = 4096, pc_watchdog_max_wall_seconds = 120\<rparr>"

definition sample_readings :: "BackendIdentity RuntimeReadings" where
  "sample_readings =
     \<lparr>rd_now = 0, rd_instant = 0, rd_stamp = [], rd_uuid = (\<lambda>n. if even n then ''u1'' else ''u2''),
      rd_parse_uuid = Some, rd_ident = id, rd_is_file = (\<lambda>_. True), rd_write_default = True,
      rd_load_config = Some sample_product, rd_storage_ok = True, rd_save_settings = True, rd_blake3_hex = id\<rparr>"

definition small_config :: RuntimeConfig where
  "small_config = \<lparr>rc_app_data_dir = ''/d'', rc_worker_threads = 2, rc_max_blocking_threads = 4, rc_event_capacity = 64\<rparr>"

definition sample_runtime :: "BackendIdentity MukeiRuntime" where
  "sample_runtime = projr (create_with_services sample_readings small_config True True)"

lemma sample_uuid: "valid_protocol_id (rd_uuid sample_readings 0) 128"
  unfolding sample_readings_def by simp (rule valid_two_char_id; simp add: is_ascii_alphanumeric_def code_def)

lemma sample_created: "create_with_services sample_readings small_config True True = Inr sample_runtime"
proof -
  have "trim ''/d'' = ''/d''" using trim_graphic_ends [of "CHR ''/''" "CHR ''d''" "[]"] by (simp add: graphic_def code_def)
  then have "runtime_config_validate small_config = Inr ()"
    by (simp add: runtime_config_validate_def small_config_def MAX_EVENT_CAPACITY_def)
  then show ?thesis by (simp add: sample_runtime_def create_with_services_def Let_def)
qed

lemma sample_reachable: "reachable sample_runtime"
  by (rule reachable.created [OF sample_created])

lemma created_fields:
  assumes "create_with_services rd config async_ok factory = Inr rt"
  shows "rt_closed rt = False" "rt_state rt = RtCreated" "rt_replay rt = []"
    "rt_stores rt = \<lparr>cs_ephemeral = ephemeral_new, cs_features = features_new\<rparr>" "rt_config rt = config" "rt_tasks rt = []"
    "rt_product_config rt = None" "rt_agent_loop rt = None" "rt_remote_policy rt = LocalOnly"
  using assms by (auto simp: create_with_services_def Let_def publish_def split: sum.splits if_splits)

lemmas sample_fields [simp] = created_fields [OF sample_created]

lemma sample_rejected:
  "submit rd sample_runtime sample_command =
     (sample_runtime\<lparr>rt_replay := [(''k1'', \<lparr>rr_fingerprint = command_fingerprint sample_command,
        rr_acknowledgement = ack_rejected (rd_now rd) (Some sample_command) RejBackendUnavailable\<rparr>)]\<rparr>,
      ack_rejected (rd_now rd) (Some sample_command) RejBackendUnavailable)"
proof -
  have k: "ce_idempotency_key sample_command = Some ''k1''" by (simp add: sample_command_def)
  have t: "\<not> command_targets_temporary_chat sample_runtime
      \<lparr>vc_envelope = sample_command, vc_command_type = DocumentRevoke, vc_payload = DocumentPayload ''d1''\<rparr>"
    by (simp add: command_targets_temporary_chat_def sample_command_def)
  show ?thesis
    using k t by (simp add: submit_def sample_command_valid replay_lookup_def dispatch_def document_command_def revoke_document_def
        ensure_ready_def reject_def remember_replay_def)
qed

text \<open>A document command sent before initialization: rejected, and addressed to the command.\<close>
theorem acknowledgements_valid_witness:
  "reachable sample_runtime \<and> ak_status (snd (submit sample_readings sample_runtime sample_command)) = AckRejected
     \<and> ack_validate_for (snd (submit sample_readings sample_runtime sample_command)) sample_command"
  using acknowledgements_valid [OF sample_reachable sample_uuid, of sample_command] sample_reachable
  by (simp add: sample_rejected ack_rejected_def)

theorem rejected_commands_without_effect_witness:
  "rt_replay (fst (submit sample_readings sample_runtime sample_command)) \<noteq> []
     \<and> (fst (submit sample_readings sample_runtime sample_command))\<lparr>rt_replay := []\<rparr> = sample_runtime"
proof -
  have "ce_command_type sample_command = ''document.revoke''" by (simp add: sample_command_def)
  then show ?thesis
    using rejected_commands_without_effect [OF sample_reachable sample_rejected [of sample_readings]]
    unfolding sample_rejected by (simp add: ack_rejected_def)
qed

lemma validate_renamed:
  assumes "validate_command env = Inr c" "valid_protocol_id i 128"
  shows "validate_command (env\<lparr>ce_command_id := i\<rparr>) = Inr (c\<lparr>vc_envelope := env\<lparr>ce_command_id := i\<rparr>\<rparr>)"
  using assms
  by (auto simp: validate_command_def and_then_Inr_iff MAX_PROTOCOL_ID_LEN_def split: if_splits option.splits)

text \<open>The same command again, in a new envelope: the first answer, and no change.\<close>
theorem commands_carried_out_once_witness:
  "\<exists>rt1 ack. submit sample_readings sample_runtime sample_command = (rt1, ack)
     \<and> submit sample_readings rt1 (sample_command\<lparr>ce_command_id := ''r1''\<rparr>) = (rt1, ack\<lparr>ak_command_id := ''r1''\<rparr>)"
proof -
  let ?env = "sample_command\<lparr>ce_command_id := ''r1''\<rparr>"
  obtain rt1 ack where s: "submit sample_readings sample_runtime sample_command = (rt1, ack)" by fastforce
  have open1: "\<not> rt_closed rt1" "ec_retired (rt_ephemeral rt1) = {}"
    using s by (simp_all add: sample_rejected ephemeral_new_def) (auto simp: ephemeral_new_def)
  have k: "ce_idempotency_key sample_command = Some ''k1''" by (simp add: sample_command_def)
  have ids: "ack = ack_rejected (rd_now sample_readings) (Some sample_command) RejBackendUnavailable"
    using s by (simp add: sample_rejected)
  show ?thesis
    using s ids open1 k
      commands_carried_out_once [OF sample_reachable _ s sample_command_valid k _ rtranclp.rtrancl_refl open1(1) _
        validate_renamed [OF sample_command_valid sample_ids(2)] _ sample_uuid, of sample_readings]
    by (simp add: ack_rejected_def)
qed

definition sample_init :: CommandEnvelopeV2 where
  "sample_init =
     \<lparr>ce_protocol_version = version_current, ce_command_id = ''c1'', ce_request_id = ''r1'',
      ce_command_type = ''app.initialize'', ce_submitted_at = 0, ce_operation_id = None, ce_correlation_id = ''x1'',
      ce_idempotency_key = None, ce_scope = None, ce_payload = Object [(''config_path'', String ''/d/mukei.toml'')]\<rparr>"

lemma sample_init_valid:
  "validate_command sample_init =
     Inr \<lparr>vc_envelope = sample_init, vc_command_type = AppInitialize, vc_payload = InitializePayload ''/d/mukei.toml''\<rparr>"
proof -
  have v: "is_compatible version_current"
    by (simp add: is_compatible_def version_current_def PROTOCOL_MAJOR_def MIN_SUPPORTED_PEER_MAJOR_def)
  have p: "command_parse ''app.initialize'' = Some AppInitialize" by (simp add: command_parse_def)
  have t: "trim ''/d/mukei.toml'' \<noteq> []"
    using trim_graphic_ends [of "CHR ''/''" "CHR ''l''" "''d/mukei.tom''"] by (simp add: graphic_def code_def)
  have d: "decode_initialize (ce_payload sample_init) = Some ''/d/mukei.toml''"
    by (simp add: decode_initialize_def struct_fields_def sample_init_def)
  show ?thesis
    using v p t d sample_ids
    by (simp add: validate_command_def sample_init_def validate_scope_def validate_key_def validate_scope_for_command_def
        accept_payload_def non_empty_bounded_def MAX_PROTOCOL_ID_LEN_def optional_protocol_id_valid_def MAX_COMMAND_TYPE_LEN_def)
qed

lemma finish_initialize_fields:
  "rt_state (fst (finish_initialize rd rt c config)) = RtReady" "rt_closed (fst (finish_initialize rd rt c config)) = rt_closed rt"
  "rt_ephemeral (fst (finish_initialize rd rt c config)) = rt_ephemeral rt" "rt_tasks (fst (finish_initialize rd rt c config)) = rt_tasks rt"
  "fs_conversations (rt_features (fst (finish_initialize rd rt c config))) = fs_conversations (rt_features rt)"
  "\<not> fs_store_attached (rt_features rt) \<Longrightarrow> fs_queue (rt_features (fst (finish_initialize rd rt c config))) = fs_queue (rt_features rt)"
  "rt_agent_loop (fst (finish_initialize rd rt c config)) \<noteq> None" "rt_product_config (fst (finish_initialize rd rt c config)) = Some config"
  "rt_remote_policy (fst (finish_initialize rd rt c config)) = rt_remote_policy rt"
  by (simp_all add: finish_initialize_def accept_operation_def create_operation_def install_agent_loop_def update_op_def
      update_operation_def publish_def with_features_def persist_defs Let_def case_prod_unfold persist_value_def split: option.splits)

definition ready_runtime :: "BackendIdentity MukeiRuntime" where
  "ready_runtime = fst (submit sample_readings sample_runtime sample_init)"

lemma ready_reachable: "reachable ready_runtime"
  unfolding ready_runtime_def by (rule reachable.stepped [OF sample_reachable]) (rule runtime_step.submitted [OF sample_uuid])

lemma ready_fields:
  "rt_state ready_runtime = RtReady" "rt_closed ready_runtime = False" "rt_ephemeral ready_runtime = ephemeral_new"
  "rt_tasks ready_runtime = []" "fs_conversations (rt_features ready_runtime) = []" "fs_queue (rt_features ready_runtime) = []"
  "rt_agent_loop ready_runtime \<noteq> None" "rt_product_config ready_runtime = Some sample_product"
    "rt_remote_policy ready_runtime = LocalOnly"
proof -
  let ?c = "\<lparr>vc_envelope = sample_init, vc_command_type = AppInitialize, vc_payload = InitializePayload ''/d/mukei.toml''\<rparr>"
  have "path_join ''/d'' ''mukei.toml'' = ''/d/mukei.toml''" by (simp add: path_join_def)
  then have "initialize sample_readings sample_runtime ?c =
      finish_initialize sample_readings (sample_runtime\<lparr>rt_state := RtInitializing\<rparr>) ?c sample_product"
    by (simp add: initialize_def small_config_def sample_readings_def)
  moreover have "ready_runtime = fst (initialize sample_readings sample_runtime ?c)"
    using sample_init_valid
    by (simp add: ready_runtime_def submit_def dispatch_def document_command_def replay_lookup_def remember_replay_def
        case_prod_unfold Let_def sample_init_def)
  ultimately have r: "ready_runtime = fst (finish_initialize sample_readings (sample_runtime\<lparr>rt_state := RtInitializing\<rparr>) ?c sample_product)"
    by simp
  show "rt_state ready_runtime = RtReady" "rt_closed ready_runtime = False" "rt_ephemeral ready_runtime = ephemeral_new"
    "rt_tasks ready_runtime = []" "fs_conversations (rt_features ready_runtime) = []" "fs_queue (rt_features ready_runtime) = []"
    "rt_agent_loop ready_runtime \<noteq> None" "rt_product_config ready_runtime = Some sample_product"
    "rt_remote_policy ready_runtime = LocalOnly"
    unfolding r by (simp_all add: finish_initialize_fields features_new_def)
qed

definition chatting_runtime :: "BackendIdentity MukeiRuntime" where
  "chatting_runtime = fst (begin_temporary_chat sample_readings ready_runtime)"

lemma chatting_reachable: "reachable chatting_runtime"
proof -
  have "runtime_step ready_runtime chatting_runtime"
    unfolding chatting_runtime_def
    by (rule runtime_step.chat_begun) (simp add: fresh_key_def ready_fields durably_known_def queue_mentions_def)
  then show ?thesis by (rule reachable.stepped [OF ready_reachable])
qed

lemma chatting_session:
  "map_of (ec_conversations (rt_ephemeral chatting_runtime)) (''u1'', ''u2'') = Some []"
  "map_of (ec_operation_ids (rt_ephemeral chatting_runtime)) (''u1'', ''u2'') = Some {}"
proof -
  have first: "begin_attempts sample_readings ready_runtime 0 (Suc n) =
      (publish sample_readings 16 (with_ephemeral ready_runtime (fst (eph_begin ephemeral_new (''u1'', ''u2''))))
         (conversation_stream ''u1'') ''chat.temporary.started''
         (Object [(''branch_id'', String ''u2''), (''rag_enabled'', Bool False)]) None None, Some (''u1'', ''u2''))" for n
    by (simp add: sample_readings_def fs_history_def ready_fields Let_def)
       (simp add: eph_begin_def ephemeral_new_def)
  have "(8 :: nat) = Suc 7" by simp
  then have "rt_ephemeral chatting_runtime = fst (eph_begin ephemeral_new (''u1'', ''u2''))"
    using first [of 7] by (simp only: chatting_runtime_def begin_temporary_chat_def ready_fields)
       (simp add: publish_def with_ephemeral_def)
  then show "map_of (ec_conversations (rt_ephemeral chatting_runtime)) (''u1'', ''u2'') = Some []"
    "map_of (ec_operation_ids (rt_ephemeral chatting_runtime)) (''u1'', ''u2'') = Some {}"
    by (simp_all add: eph_begin_def ephemeral_new_def)
qed

theorem runtime_keeps_temporary_chats_off_disk_witness:
  "reachable chatting_runtime \<and> session_state (rt_ephemeral chatting_runtime) (''u1'', ''u2'') = SessionActive
     \<and> map_of (fs_conversations (rt_features chatting_runtime)) (''u1'', ''u2'') = None"
  using runtime_keeps_temporary_chats_off_disk [OF chatting_reachable, of "(''u1'', ''u2'')"] chatting_session chatting_reachable
  by (simp add: session_state_def)

theorem ended_chat_leaves_nothing_witness:
  "\<exists>rt'. end_temporary_chat sample_readings chatting_runtime ''u1'' ''u2'' = (rt', True)
     \<and> session_state (rt_ephemeral rt') (''u1'', ''u2'') = SessionRetired
     \<and> (\<forall>e \<in> set (bus_queue (rt_events rt')). ev_stream_id e \<noteq> conversation_stream ''u1'')"
proof -
  obtain rt' where e: "end_temporary_chat sample_readings chatting_runtime ''u1'' ''u2'' = (rt', True)"
    using chatting_session
    by (auto simp: end_temporary_chat_def sample_readings_def eph_end_def Let_def case_prod_unfold)
  show ?thesis
    using e ended_chat_leaves_nothing [OF chatting_reachable e chatting_session(2)] by blast
qed

section \<open>Where the runtime falls short\<close>

text \<open>A regeneration that is rejected because no backend is ready has already removed the last answer.\<close>
lemma rejected_regeneration_drops_answer:
  assumes "rt_state rt = RtReady" "parse_chat_scope rd c = Some (key, ids)" "\<not> was_retired (rt_ephemeral rt) key"
    "last_user_chat_message (rt_stores rt) key = Some m"
    "\<not> active_backend_ready (readiness_snapshot (rd_ident rd) (rt_activation rt))"
  shows "recover_chat rd rt c True =
    (rt\<lparr>rt_stores := fst (remove_last_assistant_chat_message (rt_stores rt) key)\<rparr>,
     ack_rejected (rd_now rd) (Some (vc_envelope c)) RejBackendUnavailable)"
  using assms by (simp add: recover_chat_def ensure_ready_def start_chat_operation_def reject_def was_retired_def)

text \<open>
  The model that serves inference cannot be deleted under its own name, but under its deprecated
  alias the command is accepted, and its task removes the same file.
\<close>
lemma active_model_deleted_by_alias:
  assumes "rt_state rt = RtReady" "rt_product_config rt = Some config"
    "map_option am_model_id (active_model_snapshot (rd_ident rd) (rt_activation rt)) = Some ''gemma-4-e2b-it''"
    "lookup_model_str ''gemma-4-e2b-it'' = Some d"
  shows "vc_payload c = ModelPayload ''gemma-4-e2b-it'' \<Longrightarrow>
      delete_model rd rt c = (rt, ack_rejected (rd_now rd) (Some (vc_envelope c)) BusyConflict)"
    and "vc_payload c = ModelPayload ''gemma-3n-e2b-it'' \<Longrightarrow>
      ak_status (snd (delete_model rd rt c)) = AckAccepted
      \<and> (\<exists>i tok. last (rt_tasks (fst (delete_model rd rt c))) =
           DeleteTask ''gemma-3n-e2b-it'' (path_of (path_join (pc_models_dir config) (md_filename d))) i tok (vc_envelope c))"
proof -
  have "lookup_model_str ''gemma-3n-e2b-it'' = Some d"
    using assms(4) by (simp add: lookup_model_str_def model_from_id_def)
  then show "ak_status (snd (delete_model rd rt c)) = AckAccepted
      \<and> (\<exists>i tok. last (rt_tasks (fst (delete_model rd rt c))) =
           DeleteTask ''gemma-3n-e2b-it'' (path_of (path_join (pc_models_dir config) (md_filename d))) i tok (vc_envelope c))"
    if "vc_payload c = ModelPayload ''gemma-3n-e2b-it''"
    using assms that
    by (auto simp: delete_model_def ensure_ready_def accept_operation_def Let_def case_prod_unfold spawn_def ack_accepted_def)
qed (use assms in \<open>simp add: delete_model_def ensure_ready_def reject_def\<close>)

text \<open>
  A scope that spells the identifiers of a temporary chat in another way (upper case, say) is not
  recognised as one when the message is stored: it goes to the durable conversations, although the
  history that the turn reads is the temporary chat's.
\<close>
lemma respelled_scope_stored_durably:
  assumes "parse_chat_scope rd c = Some (key, ids)" "session_state (rt_ephemeral rt) ids = SessionActive"
    "session_state (rt_ephemeral rt) key = SessionAbsent" "active_backend_ready (readiness_snapshot (rd_ident rd) (rt_activation rt))"
    "rt_agent_loop rt \<noteq> None" "list_all (\<lambda>m. msg_id m \<noteq> rd_uuid rd 2) (chat_history (rt_stores rt) ids)"
  shows "map msg_content (fs_history (rt_features (fst (start_chat_operation rd rt c q False None))) key)
    = map msg_content (fs_history (rt_features rt) key) @ [q]"
proof -
  let ?m = "user_with_id (rd_stamp rd) (rd_uuid rd 2) (snd ids) q"
  let ?rt = "rt\<lparr>rt_stores := (rt_stores rt)\<lparr>cs_features := fs_append_message (rt_features rt) key ?m\<rparr>\<rparr>"
  have "start_chat_operation rd rt c q False None = launch_chat rd ?rt c key ids q False (msg_id ?m)"
    using assms by (simp add: start_chat_operation_def was_retired_def is_registered_def Let_def append_chat_message_def
        append_as_def user_with_id_def)
  moreover have "fs_conversations (rt_features (fst (launch_chat rd ?rt c key ids q False i))) = fs_conversations (rt_features ?rt)" for i
    using assms(3) by (simp add: launch_chat_def accept_chat_operation_def accept_operation_def create_operation_def Let_def
        case_prod_unfold spawn_def publish_def with_features_def persist_defs)
  ultimately show ?thesis
    by (simp add: fs_history_def fs_append_message_def persist_defs user_with_id_def split: option.splits)
qed

text \<open>
  The events the downloader sends in the step in which it returns are not received: the loop ends with
  the result. Without its \<open>Complete\<close> event a successful download leaves its model as downloading.
\<close>
lemma completed_download_still_downloading:
  assumes "list_all (\<lambda>e. \<not> terminal e) received"
    "model_of (rt_features rt) model = Some m" "mp_status m = MsDownloading"
  shows "\<exists>m'. model_of (rt_features (download_task bits shown rd rt model dest i env received (Inr ()))) model = Some m'
    \<and> mp_status m' = MsDownloading"
proof -
  have "\<exists>m'. model_of (rt_features (download_events bits shown rd model dest i env received rt)) model = Some m' \<and> mp_status m' = MsDownloading"
    using assms
  proof (induction received arbitrary: rt m)
    case (Cons e es)
    have "\<exists>m'. model_of (rt_features (download_event bits shown rd rt model dest i env e)) model = Some m' \<and> mp_status m' = MsDownloading"
      using Cons.prems
      by (cases e) (auto simp: op_event_def publish_def change_model_def update_op_def update_operation_def update_model_def
          model_of_def with_features_def persist_defs Let_def update_conv' split: option.splits)
    then show ?case using Cons.IH Cons.prems(1) by auto
  qed simp
  then show ?thesis
    by (auto simp: download_task_def download_finished_def op_event_def publish_def update_op_def update_operation_def
        model_of_def with_features_def persist_defs Let_def split: option.splits)
qed

text \<open>
  After shutdown the table of temporary chats is empty, retired keys included, and a message that a
  command already admitted has still to store goes to the durable conversations.
\<close>
lemma shutdown_forgets_sessions:
  assumes "session_state (rt_ephemeral rt) k = SessionActive" "\<not> rt_closed rt"
  shows "session_state (rt_ephemeral (fst (shutdown rd rt st save))) k = SessionAbsent
    \<and> fs_history (cs_features (fst (append_chat_message (rt_stores (fst (shutdown rd rt st save))) k m))) k \<noteq> []"
proof -
  have a: "session_state (rt_ephemeral (fst (shutdown rd rt st save))) k = SessionAbsent"
    using assms(2) by (simp add: shutdown_def Let_def case_prod_unfold publish_def with_ephemeral_def cleared_sessions)
  then show ?thesis
    by (simp add: append_chat_message_def append_as_def fs_append_message_def fs_history_def persist_defs split: option.splits)
qed

end
