(* ===== verification/Runtime_Policy.thy ===== *)
theory Runtime_Policy
  imports Runtime_Laws
begin

text \<open>
  The tools and the context of the agent loops the runtime installs (\<open>application_runtime/services.rs\<close>,
  \<open>foundation_context.rs\<close>), in all of its runs: the remote search tool is there exactly when the
  remote policy and the credentials allow it, and temporary chats have neither it nor file access
  nor retrieval.
\<close>

section \<open>The context backend\<close>

definition load_history :: "ChatStores \<Rightarrow> chat_key \<Rightarrow> ChatMessage list \<Rightarrow> ChatMessage list result" where
  "load_history cs k active_history =
     (let history = (case history_if_registered (cs_ephemeral cs) k of Some h \<Rightarrow> h | None \<Rightarrow> fs_history (cs_features cs) k) in
      Inr (filter (\<lambda>m. msg_id m \<notin> msg_id ` set active_history) history))"

text \<open>\<open>retrieve\<close> is the attached RAG service.\<close>
definition rag_lookup :: "(string \<Rightarrow> nat \<Rightarrow> string list result) option \<Rightarrow> string \<Rightarrow> nat \<Rightarrow> string list result" where
  "rag_lookup service query top_k =
     (case service of
        None \<Rightarrow> Inr []
      | Some retrieve \<Rightarrow> map_sum id (map (wrap_external_data Rag)) (retrieve query top_k))"

definition token_count :: "string \<Rightarrow> nat" where
  "token_count value = (length value + 3) div 4"

lemma rag_lookup_wrapped:
  assumes "rag_lookup service query top_k = Inr ps"
  shows "ps = [] \<or> (\<exists>retrieve vs. service = Some retrieve \<and> retrieve query top_k = Inr vs \<and> ps = map (wrap_external_data Rag) vs)"
  using assms by (cases "the service query top_k") (auto simp: rag_lookup_def split: option.splits)

lemma token_count_bounds: "length v \<le> 4 * token_count v \<and> 4 * token_count v < length v + 4"
  unfolding token_count_def by linarith

section \<open>What the loops are built from\<close>

text \<open>The fields of the runtime an installed loop depends on.\<close>
definition loop_view :: "'be MukeiRuntime \<Rightarrow> AgentLoopParts option \<times> ProductConfig option \<times> bool \<times> (string \<times> string) option \<times> RemoteFeaturePolicy" where
  "loop_view rt = (rt_agent_loop rt, rt_product_config rt, rt_rag_service rt, rt_remote_tool_secrets rt, rt_remote_policy rt)"

definition searches :: "AgentLoopParts \<Rightarrow> BuiltTool option" where
  "searches p = registry_get (ex_registry (al_executor p)) ''web_search''"

definition allowed_search :: "'be MukeiRuntime \<Rightarrow> BuiltTool option" where
  "allowed_search rt =
     (case rt_remote_tool_secrets rt of
        Some (brave, tavily) \<Rightarrow> if rt_remote_policy rt = RemoteAllowed then Some (WebSearchTool brave tavily RemoteAllowed) else None
      | None \<Rightarrow> None)"

definition loop_in_step :: "'be MukeiRuntime \<Rightarrow> bool" where
  "loop_in_step rt \<longleftrightarrow>
     (case rt_agent_loop rt of
        None \<Rightarrow> True
      | Some p \<Rightarrow> rt_product_config rt \<noteq> None \<and> searches p = allowed_search rt \<and> al_rag p = rt_rag_service rt)"

lemma loop_ok_view: "loop_view rt = loop_view rt' \<Longrightarrow> loop_in_step rt = loop_in_step rt'"
  by (simp add: loop_view_def loop_in_step_def allowed_search_def cong: option.case_cong)

lemma registries [simp]:
  "registry_get (temporary_chat h m) ''web_search'' = None" "registry_get (temporary_chat h m) ''read_file'' = None"
  "registry_get (local_only f h m) ''web_search'' = None" "registry_get (with_web_search w f h m) ''web_search'' = Some w"
  by (simp_all add: registry_get_def temporary_chat_def local_only_def with_web_search_def register_def)

lemma built_searches:
  "searches (build_agent_loop rd rt config rag temporary) = (if temporary then None else allowed_search rt)"
  "al_rag (build_agent_loop rd rt config rag temporary) = rag"
  by (auto simp: searches_def build_agent_loop_def allowed_search_def with_policy_def Let_def split: option.splits)

lemma allowed_search_updates [simp]:
  "allowed_search (rt\<lparr>rt_agent_loop := x\<rparr>) = allowed_search rt" "allowed_search (rt\<lparr>rt_product_config := y\<rparr>) = allowed_search rt"
  by (simp_all add: allowed_search_def split: option.splits)

lemma installed_loop_ok: "loop_in_step ((install_agent_loop rd rt config)\<lparr>rt_product_config := Some config\<rparr>)"
  by (simp add: loop_in_step_def install_agent_loop_def built_searches)

lemma reinstall_loop_ok:
  assumes "rt_agent_loop rt \<noteq> None \<longrightarrow> rt_product_config rt \<noteq> None"
  shows "loop_in_step (reinstall rd rt)"
  using assms by (auto simp: loop_in_step_def reinstall_def install_agent_loop_def built_searches split: option.splits)

section \<open>Everything else leaves them alone\<close>

lemma loop_view_updates [simp]:
  "loop_view (publish rd n rt s et p c oi) = loop_view rt" "loop_view (with_features rt f) = loop_view rt"
  "loop_view (with_ephemeral rt e) = loop_view rt" "loop_view (update_op rd rt i st pr d r) = loop_view rt"
  "loop_view (spawn rt t) = loop_view rt" "loop_view (rt\<lparr>rt_stores := cs\<rparr>) = loop_view rt"
  "loop_view (rt\<lparr>rt_platform := b\<rparr>) = loop_view rt" "loop_view (rt\<lparr>rt_state := s'\<rparr>) = loop_view rt"
  "loop_view (rt\<lparr>rt_settings := v\<rparr>) = loop_view rt" "loop_view (rt\<lparr>rt_activation := sv\<rparr>) = loop_view rt"
  "loop_view (rt\<lparr>rt_events := bus\<rparr>) = loop_view rt" "loop_view (rt\<lparr>rt_replay := al\<rparr>) = loop_view rt"
  "loop_view (rt\<lparr>rt_closed := x\<rparr>) = loop_view rt" "loop_view (rt\<lparr>rt_cancelled := x\<rparr>) = loop_view rt"
  "loop_view (fail_document rt j err) = loop_view rt" "loop_view (op_event rd n rt env i et p) = loop_view rt"
  "loop_view (change_model rt m g) = loop_view rt" "loop_view (change_document rt j h) = loop_view rt"
  "loop_view (fail_op rd rt i dt r) = loop_view rt" "loop_view (model_failed rt m err) = loop_view rt"
  "loop_view (purge_replay_for_conversation rt c') = loop_view rt" "loop_view (remember_replay rt cmd ack) = loop_view rt"
  "fst (reject rd rt cmd reason) = rt"
  by (simp_all add: loop_view_def publish_def with_features_def with_ephemeral_def update_op_def spawn_def fail_document_def op_event_def
      change_model_def change_document_def fail_op_def model_failed_def purge_replay_for_conversation_def remember_replay_def reject_def
      split: option.splits)

lemma accept_view [simp]: "loop_view (fst (accept_operation rd rt cmd)) = loop_view rt"
  by (simp add: accept_operation_def Let_def case_prod_unfold)

lemma accept_view_eq: "accept_operation rd rt cmd = (rt', x) \<Longrightarrow> loop_view rt' = loop_view rt"
  using accept_view [of rd rt cmd] by simp

lemma accept_chat_view:
  "accept_chat_operation rd rt cmd key = Inl r \<Longrightarrow> loop_view (fst r) = loop_view rt"
  "accept_chat_operation rd rt cmd key = Inr (rt', x) \<Longrightarrow> loop_view rt' = loop_view rt"
  by (auto simp: accept_chat_operation_def case_prod_unfold Let_def split: EphemeralSessionState.splits option.splits prod.splits)

lemma ensure_ready_view: "loop_view (fst r) = loop_view rt \<Longrightarrow> loop_view (fst (ensure_ready rd rt cmd r)) = loop_view rt"
  by (simp add: ensure_ready_def)

lemma start_chat_view [simp]: "loop_view (fst (start_chat_operation rd rt cmd q regenerate m)) = loop_view rt"
  by (auto simp: start_chat_operation_def launch_chat_def Let_def split: option.splits sum.splits prod.splits dest!: accept_chat_view)

lemma chat_handlers_view:
  "loop_view (fst (send_message rd rt cmd)) = loop_view rt" "loop_view (fst (stop_generation rd rt cmd)) = loop_view rt"
  "loop_view (fst (clear_conversation rd rt cmd)) = loop_view rt" "loop_view (fst (recover_chat rd rt cmd g)) = loop_view rt"
  unfolding send_message_def clear_conversation_def recover_chat_def stop_generation_def
  by (auto simp: Let_def finish_clear_def intro!: ensure_ready_view split: option.splits sum.splits prod.splits ValidatedCommandPayload.splits
      dest!: accept_chat_view)

lemma cancel_targets_view [simp]:
  "loop_view (request_download_cancel rd cmd n i rt) = loop_view rt" "loop_view (cancel_targets rd cmd n is rt) = loop_view rt"
proof -
  show r: "loop_view (request_download_cancel rd cmd n i rt) = loop_view rt" for n i rt
    by (simp add: request_download_cancel_def)
  show "loop_view (cancel_targets rd cmd n is rt) = loop_view rt"
    by (induction "is" arbitrary: n rt) (simp_all add: r)
qed

lemma model_handlers_view:
  "loop_view (fst (download_model rd rt cmd)) = loop_view rt" "loop_view (fst (cancel_download rd rt cmd)) = loop_view rt"
  "loop_view (fst (select_model rd rt cmd)) = loop_view rt" "loop_view (fst (delete_model rd rt cmd)) = loop_view rt"
  unfolding download_model_def select_model_def delete_model_def cancel_download_def
  by (auto simp: Let_def intro!: ensure_ready_view split: option.splits prod.splits list.splits ValidatedCommandPayload.splits dest!: accept_view_eq)

lemma document_handlers_view:
  "loop_view (fst (grant_document rd rt cmd)) = loop_view rt" "loop_view (fst (revoke_document rd rt cmd)) = loop_view rt"
  "loop_view (fst (retry_document_ingestion rd rt cmd)) = loop_view rt"
  unfolding grant_document_def revoke_document_def retry_document_ingestion_def
  by (auto simp: Let_def intro!: ensure_ready_view split: option.splits prod.splits sum.splits ValidatedCommandPayload.splits dest!: accept_view_eq)

lemma task_view: "task_step rt t rt' \<Longrightarrow> loop_view rt' = loop_view rt"
proof (induction rule: task_step.induct)
  case (4 rt model req dest i tok env bits shown rd ev)
  show ?case by (cases ev) (simp_all add: Let_def)
qed (auto simp: chat_started_def chat_token_def chat_finished_def store_answer_def settle_chat_def download_finished_def select_started_def
    select_verified_def register_verified_def select_finished_def delete_run_def grant_finished_def revoke_finished_def retry_started_def
    retry_finished_def Let_def case_prod_unfold
    split: ChatOutcome.splits option.splits sum.splits Verification.splits Deletion.splits prod.splits bool.splits)

section \<open>Every step keeps the loop in agreement\<close>

lemma initialize_loop_ok:
  assumes "loop_in_step rt"
  shows "loop_in_step (fst (initialize rd rt cmd))"
proof -
  have keep: "loop_in_step rt'" if "loop_view rt' = loop_view rt" for rt' :: "'a MukeiRuntime"
    using loop_ok_view [OF that] assms by simp
  have finished: "loop_in_step (fst (finish_initialize rd rt' cmd config))" for rt' :: "'a MukeiRuntime" and config
  proof -
    have "loop_view (fst (finish_initialize rd rt' cmd config))
        = loop_view ((install_agent_loop rd rt' config)\<lparr>rt_product_config := Some config\<rparr>)"
      by (simp add: finish_initialize_def Let_def case_prod_unfold)
    then show ?thesis using loop_ok_view installed_loop_ok by blast
  qed
  show ?thesis
    using finished by (auto simp: initialize_def fail_initialize_def Let_def intro!: keep split: ValidatedCommandPayload.splits option.splits)
qed

lemma loop_configured: "loop_in_step rt \<Longrightarrow> rt_agent_loop rt \<noteq> None \<longrightarrow> rt_product_config rt \<noteq> None"
  by (auto simp: loop_in_step_def split: option.splits)

lemma policy_loop_ok: "loop_in_step rt \<Longrightarrow> loop_in_step (set_remote_policy rd rt p)"
  unfolding set_remote_policy_def by (rule reinstall_loop_ok) (use loop_configured in auto)

lemma update_setting_loop_ok:
  assumes "loop_in_step rt"
  shows "loop_in_step (fst (update_setting rd rt cmd))"
proof -
  have keep: "loop_in_step rt'" if "loop_view rt' = loop_view rt" for rt' :: "'a MukeiRuntime"
    using loop_ok_view [OF that] assms by simp
  have settled: "loop_in_step (publish rd n (update_op rd' (fst (accept_operation rd rt' cmd)) i st pr d r) s et q c oi)" if "loop_in_step rt'"
    for rt' :: "'a MukeiRuntime" and n rd' i st pr d r s et q c oi
    using that loop_ok_view [of rt' "publish rd n (update_op rd' (fst (accept_operation rd rt' cmd)) i st pr d r) s et q c oi"] by simp
  have set: "loop_in_step (rt\<lparr>rt_settings := v\<rparr>)" for v by (rule keep) simp
  show ?thesis
    using assms by (auto simp: update_setting_def ensure_ready_def Let_def case_prod_unfold intro!: settled policy_loop_ok set
      split: ValidatedCommandPayload.splits option.splits)
qed

lemma submit_loop_ok:
  assumes "loop_in_step rt"
  shows "loop_in_step (fst (submit rd rt env))"
proof -
  have keep: "loop_in_step rt'" if "loop_view rt' = loop_view rt" for rt' :: "'a MukeiRuntime"
    using loop_ok_view [OF that] assms by simp
  have "loop_in_step (fst (handle rd rt c ct))" for c ct
    using initialize_loop_ok [OF assms] update_setting_loop_ok [OF assms]
    by (cases ct) (simp_all add: keep chat_handlers_view model_handlers_view document_handlers_view)
  then have d: "loop_in_step (fst (dispatch rd rt c))" for c
    using assms by (simp add: dispatch_def)
  have "loop_in_step (remember_replay (fst (dispatch rd rt c)) c ack)" for c ack
    using d [of c] loop_ok_view [of "remember_replay (fst (dispatch rd rt c)) c ack" "fst (dispatch rd rt c)"] by simp
  then show ?thesis
    using assms by (auto simp: submit_def case_prod_unfold Let_def split: sum.splits option.splits)
qed

lemma begin_view [simp]: "loop_view (fst (begin_attempts rd rt i n)) = loop_view rt"
  by (induction n arbitrary: i) (auto simp: Let_def split: prod.splits bool.splits)

lemma lifecycle_view:
  "loop_view (fst (begin_temporary_chat rd rt)) = loop_view rt" "loop_view (fst (end_temporary_chat rd rt c b)) = loop_view rt"
  "loop_view (fst (shutdown rd rt st save)) = loop_view rt"
  by (simp_all add: begin_temporary_chat_def end_temporary_chat_def shutdown_def Let_def case_prod_unfold split: option.splits)

lemma step_loop_ok:
  assumes "runtime_step rt rt'" "loop_in_step rt"
  shows "loop_in_step rt'"
  using assms
proof (induction rule: runtime_step.induct)
  case (submitted rd rt env)
  then show ?case by (intro submit_loop_ok)
next
  case (rag_attached rt rd)
  then show ?case unfolding attach_rag_service_def by (intro reinstall_loop_ok) (use loop_configured in auto)
next
  case (secrets_configured rt rd brave tavily)
  then show ?case using loop_configured [OF secrets_configured.prems]
    by (auto simp: configure_remote_tools_def intro!: reinstall_loop_ok)
next
  case (task_ran t rt rt')
  then show ?case using task_view loop_ok_view by blast
qed (erule loop_ok_view [THEN iffD1, rotated], simp add: lifecycle_view)+

lemma created_loop: "create_with_services rd config async_ok factory = Inr rt \<Longrightarrow> rt_agent_loop rt = None"
  by (auto simp: create_with_services_def publish_def Let_def split: sum.splits if_splits)

lemma attached_loop: "rt_agent_loop rt = None \<Longrightarrow> rt_agent_loop (fst (attach_runtime_store rd rt load settings)) = None"
  by (auto simp: attach_runtime_store_def with_features_def Let_def split: prod.splits sum.splits option.splits json.splits)

lemma reachable_loop_ok: "reachable rt \<Longrightarrow> loop_in_step rt"
proof (induction rule: reachable.induct)
  case (created rd config async_ok factory rt)
  then show ?case using created_loop [OF created] by (simp add: loop_in_step_def)
next
  case (attached rd config async_ok factory rt load rd' settings)
  then show ?case using attached_loop [OF created_loop [OF attached(1)]] by (simp add: loop_in_step_def)
next
  case (stepped rt rt')
  then show ?case using step_loop_ok by blast
qed

section \<open>Tools and context\<close>

text \<open>
  C5: In every reachable state the installed agent loop offers the remote search tool exactly when the
  remote policy is \<open>RemoteAllowed\<close> and credentials were configured, and then with those credentials;
  it retrieves passages exactly when a RAG service is attached. Changing the policy, the credentials
  or the service takes effect at once.
\<close>
theorem remote_search_follows_policy:
  assumes "reachable rt" "rt_agent_loop rt = Some p"
  shows "registry_get (ex_registry (al_executor p)) ''web_search'' =
      (if rt_remote_policy rt = RemoteAllowed
       then map_option (\<lambda>(brave, tavily). WebSearchTool brave tavily RemoteAllowed) (rt_remote_tool_secrets rt) else None)
    \<and> al_rag p = rt_rag_service rt"
  using reachable_loop_ok [OF assms(1)] assms(2)
  by (auto simp: loop_in_step_def searches_def allowed_search_def split: option.splits)

text \<open>
  C19: Temporary chats are isolated. Their agent loop has the hardware and the calculator tool and no
  other, so neither search nor file access, and retrieves nothing; and the history its prompts are
  built from is that of the chat itself, or empty once the chat has ended, never a durable one.
\<close>
theorem temporary_chats_isolated:
  assumes "reachable rt" "session_state (rt_ephemeral rt) k \<noteq> SessionAbsent" "temporary_agent_loop rd rt = Some p"
  shows "fst ` set (registry (ex_registry (al_executor p))) = {''get_hardware_info'', ''math_eval''} \<and> \<not> al_rag p
    \<and> load_history (rt_stores rt) k active =
        Inr (filter (\<lambda>m. msg_id m \<notin> msg_id ` set active)
               (case map_of (ec_conversations (rt_ephemeral rt)) k of Some h \<Rightarrow> h | None \<Rightarrow> []))"
proof -
  have "fresh_key rt k"
    using reachable_ok [OF assms(1)] assms(2) unfolding runtime_ok_def confined_def held_def by blast
  then have "fs_history (rt_features rt) k = []"
    by (simp add: fresh_key_def durably_known_def fs_history_def)
  then have "load_history (rt_stores rt) k active =
      Inr (filter (\<lambda>m. msg_id m \<notin> msg_id ` set active)
             (case map_of (ec_conversations (rt_ephemeral rt)) k of Some h \<Rightarrow> h | None \<Rightarrow> []))"
    by (simp add: load_history_def history_if_registered_def Let_def split: option.splits)
  moreover have "fst ` set (registry (ex_registry (al_executor p))) = {''get_hardware_info'', ''math_eval''} \<and> \<not> al_rag p"
    using assms(3)
    by (auto simp: temporary_agent_loop_def build_agent_loop_def with_policy_def temporary_chat_def register_def Let_def)
  ultimately show ?thesis by blast
qed

theorem remote_search_follows_policy_witness:
  "\<exists>p. rt_agent_loop ready_runtime = Some p \<and> rt_remote_policy ready_runtime = LocalOnly
     \<and> registry_get (ex_registry (al_executor p)) ''web_search'' = None"
proof -
  obtain p where p: "rt_agent_loop ready_runtime = Some p" using ready_fields(7) by blast
  then show ?thesis using remote_search_follows_policy [OF ready_reachable p] ready_fields(9) by simp
qed

lemma chatting_product: "rt_product_config chatting_runtime = Some sample_product"
proof -
  have "loop_view chatting_runtime = loop_view ready_runtime" by (simp add: chatting_runtime_def lifecycle_view)
  then show ?thesis using ready_fields(8) by (simp add: loop_view_def)
qed

theorem temporary_chats_isolated_witness:
  "\<exists>p. temporary_agent_loop sample_readings chatting_runtime = Some p \<and> \<not> al_rag p
     \<and> load_history (rt_stores chatting_runtime) (''u1'', ''u2'') [] = Inr []"
proof -
  obtain p where p: "temporary_agent_loop sample_readings chatting_runtime = Some p"
    by (simp add: temporary_agent_loop_def chatting_product)
  have s: "session_state (rt_ephemeral chatting_runtime) (''u1'', ''u2'') \<noteq> SessionAbsent"
    using chatting_session by (simp add: session_state_def)
  show ?thesis
    using temporary_chats_isolated [OF chatting_reachable s p, of "[]"] p chatting_session by simp
qed

end
