(* ===== verification/Spec2Isabelle.thy ===== *)
theory Spec2Isabelle
  imports Tool_Feedback Failure_Tracker Repeat_Tracker Audit_Log Tool_Validator Tool_Executor Agent_Loop
    Model_Activation Context_Budget Saas_Snapshot_Laws Saas_Ledger Saas_Transport_Laws Download_Jobs
    Runtime_Policy
begin

text \<open>
  Mukei is an on-device chat assistant: a Rust core (\<^verbatim>\<open>src/rust/crates/mukei-core\<close>) behind an Android
  client. A user message starts a turn of the agent loop. Each pass of the loop assembles a prompt
  from the conversation and retrieved passages, runs one supervised inference attempt on the active
  model, and either returns the answer or validates and executes the tool calls the model asked
  for, feeding their results back into the conversation. The client reaches all of this through the
  application runtime, which takes commands, runs them as cancellable operations, and reports their
  progress as events. This development models that path, and the services it rests on, function by
  function, and proves the properties the code is written for. File names below are relative to
  \<^verbatim>\<open>src/rust/crates/mukei-core/src\<close>.

  \<^bold>\<open>Theories.\<close>

  \<^item> \<^verbatim>\<open>Mukei_Prelude\<close>: Rust integers, saturating arithmetic, strings as UTF-8 bytes with \<open>trim\<close>,
    character boundaries and number formatting, hash maps as association lists, and the lemma
    collections of the development.
  \<^item> \<^verbatim>\<open>Mukei_Errors\<close> (\<^verbatim>\<open>error.rs\<close>): the error type with all its variants, their rendered messages,
    stable codes and recovery classes.
  \<^item> \<^verbatim>\<open>Prompt_Sentinel\<close> (\<^verbatim>\<open>tools/sentinel.rs\<close>): escaping of untrusted text and the \<open>external_data\<close>
    envelope. Escaping is invertible, and no payload can open or close a tag. The interface
    \<open>sealed_renderer\<close> states this contract once; it is interpreted for this envelope, for the three
    envelopes of \<^verbatim>\<open>Tool_Feedback\<close> and for the RAG section of \<^verbatim>\<open>Context_Budget\<close>.
  \<^item> \<^verbatim>\<open>Tool_Policy\<close> and \<^verbatim>\<open>Tool_Feedback\<close> (\<^verbatim>\<open>agent/tools/policy.rs\<close>, \<^verbatim>\<open>agent/tools/feedback.rs\<close>): the
    classification of failures, the execution policy, and the feedback shown to the model.
  \<^item> \<^verbatim>\<open>Json_Model\<close>: JSON values and the canonical key order of \<open>serde_json\<close> maps.
  \<^item> \<^verbatim>\<open>Failure_Tracker\<close> and \<^verbatim>\<open>Repeat_Tracker\<close> (\<^verbatim>\<open>agent/tools/executor.rs\<close>, \<^verbatim>\<open>agent/tools/watchdog.rs\<close>):
    failure counts per tool and argument fingerprint, and the no-progress detector. The tracker
    refines a plain table of counters through the interface \<open>failure_counter\<close>; its threshold and
    the detector's window are exact.
  \<^item> \<^verbatim>\<open>Audit_Log\<close> (\<^verbatim>\<open>storage/audit_log.rs\<close>): the hash-chained log of tool calls. What the writer
    writes verifies, the verifier is exact, the tip of the chain commits to every hashed field,
    and what the chain does not protect is stated as well.
  \<^item> \<^verbatim>\<open>Tool_Validator\<close> (\<^verbatim>\<open>tools/validator.rs\<close>, \<^verbatim>\<open>tools/mod.rs\<close>, \<^verbatim>\<open>tools/remote_policy.rs\<close>): the tool
    registries and the validation of the calls the model emits.
  \<^item> \<^verbatim>\<open>Tool_Executor\<close> (\<^verbatim>\<open>agent/tools/executor.rs\<close>): dispatch and join of a batch of calls, with both
    trackers and the audit log as its state.
  \<^item> \<^verbatim>\<open>Inference_Backend\<close> (\<^verbatim>\<open>engine/llama_wrapper.rs\<close>, \<^verbatim>\<open>agent/watchdog.rs\<close>): backend identities and
    outcomes, tool-call detection, and the three budgets of a turn.
  \<^item> \<^verbatim>\<open>Agent_Loop\<close> (\<^verbatim>\<open>agent/loop_.rs\<close>): one supervised inference attempt, the loop body with its tool
    path, the per-turn reset and the generation guard between overlapping runs. A turn stays
    within its budgets and ends, its history is one parent-linked chain that matches what was
    persisted, and only the latest run reports. The interface \<open>prompt_source\<close> is what the loop
    asks of a context builder.
  \<^item> \<^verbatim>\<open>Model_Activation\<close> (\<^verbatim>\<open>engine/activation.rs\<close>): the activation service. Its critical sections
    are the steps of an inductive relation, so that verifications, activations and deactivations
    interleave freely; the published state is backed by the facts in every reachable state.
  \<^item> \<^verbatim>\<open>Rag_Retriever\<close> (\<^verbatim>\<open>rag/retriever.rs\<close>): normalisation and budgeting of retrieved passages. The
    passes that drop results share the interface \<open>drop_pass\<close>, closed under composition.
  \<^item> \<^verbatim>\<open>Context_Budget\<close> (\<^verbatim>\<open>agent/context.rs\<close>): prompt assembly; it provides the \<open>prompt_source\<close>
    interface to the loop.
  \<^item> \<^verbatim>\<open>Redaction\<close> (\<^verbatim>\<open>diagnostics/redaction.rs\<close>): the sanitizer of diagnostic text, redacted fields,
    telemetry identifiers and paths. Sanitized text is printable, bounded and made of words none of which
    looks sensitive; where the check is weaker than its documentation is stated too.
  \<^item> \<^verbatim>\<open>Network_Policy\<close> (\<^verbatim>\<open>network.rs\<close>): client policies, the mapping of HTTP failures, backoff and the
    retry loop, whose attempts and pauses are bounded.
  \<^item> \<^verbatim>\<open>Saas_Domain\<close> (\<^verbatim>\<open>saas/mod.rs\<close>): identifiers, tenancy records, subscriptions, entitlements, usage
    events, windows and quota decisions. Quota decisions fail closed, usage metadata carries no
    user content, usage windows contain the time they are computed for.
  \<^item> \<^verbatim>\<open>Saas_Codec\<close>, \<^verbatim>\<open>Saas_Records\<close>, \<^verbatim>\<open>Saas_Tenancy\<close> (\<^verbatim>\<open>storage/saas.rs\<close>): the columns of the SaaS tables
    with their round trips, and the tenancy repositories. The interface \<open>remote_store\<close> is the contract
    of a table that accepts server records by revision, interpreted for tenants, workspaces, actors
    and memberships; histories of operations keep the tables intact and never let a local write
    or an older revision replace a server record.
  \<^item> \<^verbatim>\<open>Saas_Snapshots\<close> and \<^verbatim>\<open>Saas_Snapshot_Laws\<close> (\<^verbatim>\<open>storage/saas.rs\<close>): versioned subscription, entitlement
    and quota snapshots. The interfaces \<open>snapshot_table\<close> and \<open>snapshot_history\<close> carry the proofs once
    and are interpreted for the three tables: one current version per scope, which only advances.
  \<^item> \<^verbatim>\<open>Saas_Ledger\<close> (\<^verbatim>\<open>storage/saas.rs\<close>): the append-only usage ledger, which implements a contract on
    lists of events: one record per logical mutation, and credits that never exceed what they correct.
  \<^item> \<^verbatim>\<open>Saas_Transport\<close> and \<^verbatim>\<open>Saas_Transport_Laws\<close> (\<^verbatim>\<open>network/saas.rs\<close>): endpoints, headers, envelopes, the
    circuit breaker and the loop of one SaaS request. Attempts are bounded and identical, requests
    stay on the configured origin, and the breaker, as a state machine over interleaved requests,
    recovers.
  \<^item> \<^verbatim>\<open>Sql_Model\<close>: rows of database tables with their constraints and the errors of statements.
  \<^item> \<^verbatim>\<open>Storage_Quota\<close>, \<^verbatim>\<open>Download_Jobs\<close> (\<^verbatim>\<open>storage/quota.rs\<close>, \<^verbatim>\<open>storage/download_jobs.rs\<close>): admission of model
    downloads. The job and reservation tables implement an abstract ledger of leases, and in every
    history the leases fit the budget and recovery closes exactly the open jobs.
  \<^item> \<^verbatim>\<open>Model_Download\<close> (\<^verbatim>\<open>storage/model_download.rs\<close>): the resumable download over a file system and an HTTP
    client that may fail at every step. Only verified contents are installed, a failure leaves the
    destination alone, and against a sound server the download completes.
  \<^item> \<^verbatim>\<open>Ui_Protocol\<close> (\<^verbatim>\<open>ui_protocol.rs\<close>): envelopes, the command registry and the validation of commands,
    acknowledgements, events and snapshots.
  \<^item> \<^verbatim>\<open>Event_Bus\<close> (\<^verbatim>\<open>application_runtime/foundation_types.rs\<close>): the bounded event queue. Emitters, the purge
    of temporary chats and the polling client interleave as a step relation; events arrive in order
    and once, refused ones are accounted for.
  \<^item> \<^verbatim>\<open>Chat_Types\<close>, \<^verbatim>\<open>Feature_State\<close> (\<^verbatim>\<open>types/mod.rs\<close>, \<^verbatim>\<open>application_runtime/foundation_state.rs\<close>): the durable
    projections of operations, conversations, models and documents, and the queue through which they
    reach the encrypted store. The store follows the projections under every interleaving, and a
    restart brings them back. The interface \<open>chat_store\<close> is the contract of a message store.
  \<^item> \<^verbatim>\<open>Temporary_Chat\<close> (\<^verbatim>\<open>application_runtime/ephemeral_chat.rs\<close>): chats that live in memory only; they provide
    \<open>chat_store\<close> as well, and the routing between the two never crosses over.
  \<^item> \<^verbatim>\<open>Platform_Broker\<close> (\<^verbatim>\<open>platform.rs\<close>): requests to the Android side and the tasks that wait for answers.
  \<^item> \<^verbatim>\<open>Model_Registry\<close> (\<^verbatim>\<open>engine/model_registry.rs\<close>): the catalogue of models with its deprecated aliases.
  \<^item> \<^verbatim>\<open>Application_Runtime\<close>, \<^verbatim>\<open>Runtime_Tasks\<close> (\<^verbatim>\<open>application_runtime/*.rs\<close>): the state of the runtime, the
    admission of commands with their replay records, the router, all command handlers, and the tasks
    they spawn, cut at their await points.
  \<^item> \<^verbatim>\<open>Runtime_Laws\<close>, \<^verbatim>\<open>Runtime_Policy\<close>: the runtime as a system of commands, calls and task effects in any
    order. Commands are carried out once, acknowledgements are well formed, rejections have no effect,
    temporary chats stay off the disk and leave nothing behind, and the tools of the agent loops follow
    the remote policy. Where the runtime falls short of this is stated at the end.
  \<^item> this theory: the agent loop running over the context manager.

  \<^bold>\<open>State and effects.\<close> Structs are records, enums datatypes, \<open>Result\<close> a sum with the error on the
  left. Methods that mutate \<open>self\<close> return the updated record; the interior mutability of the
  trackers and of the activation service is explicit state. Everything a component observes of its
  surroundings is an argument: SHA-256 and BLAKE3, the JSON codec, the clock, database answers, the
  way a spawned task or an inference attempt ends, minted identifiers, the tokenizer and the
  retrieval backend. Observations of the agent loop are indexed by iteration, so they may change
  over a turn.

  A database table is the list of its rows; an operation that fails leaves it unchanged, as a failed
  statement or a dropped transaction does. The schema's checks, unique keys, foreign keys and
  triggers are conditions of the inserts. Time columns stand for the time they denote.

  \<^bold>\<open>Concurrency.\<close> Where threads interleave inside an operation and it matters (the activation service,
  the circuit breaker, the event bus, the broker, the persistence queue), an operation is cut at its
  lock boundaries or await points into the steps of an inductive relation. In the system of the
  runtime a command handler is one step and its tasks are cut at their await points.

  \<^bold>\<open>Bounds.\<close> The agent loop terminates by the measure \<open>max_iterations - iteration\<close>, the retry loops by
  the attempts left, the loops over files and response bodies by the bytes and polls left; no fuel
  is used anywhere. Counters keep their machine width where they can wrap or saturate. Some
  hypotheses exclude events that take more than \<open>2 ^ 64\<close> operations or bytes: the run counter of the
  agent loop, the generation counter of the activation service, token totals beyond \<open>usize\<close>, and
  files beyond \<open>u64\<close>.

  \<^bold>\<open>Not modelled.\<close> Tracing output and the encoding of observability attributes; the legacy retrieval
  adapter of \<^verbatim>\<open>agent/context.rs\<close>, web search ranking and the vector search, which are floating-point
  code behind interfaces that are parameters here; model loading, token streaming and the tools
  themselves; the connection pool and the tables of conversations, settings, sessions and document
  grants, whose statements run in SQLite with encrypted columns (the runtime keeps its authoritative
  state in the projections); migrations; the view models of \<^verbatim>\<open>ui_contract.rs\<close> and the JSON queries
  of the runtime, which change no state; the event recorder; and the JNI bridge.
\<close>

section \<open>The agent loop over the context manager\<close>

text \<open>
  C35: no inference attempt of a turn overruns the model's window. When the agent loop builds its
  prompts with the context manager, every prompt handed to the inference backend during a turn is
  the text of a context whose token count is at most the manager's \<open>max_tokens\<close>, whatever the
  history has grown to and whatever the retrieval backend answered. (Section 2.4.1 of the design
  document \<open>TRD.md\<close> leaves an oversized RAG section to a \<open>ContextOverflow\<close> error at the inference
  boundary; in the code no such prompt is built, and nothing raises that error.)
\<close>
theorem agent_prompts_fit_window:
  "case run_seeded_inner (env\<lparr> le_build_for := \<lambda>i. build_for (cenv i) mgr \<rparr>) conv br al seed of
     (al', st, r) \<Rightarrow>
       list_all (\<lambda>call. \<exists>i c hist cb.
           build_for_detailed (cenv i) mgr c br hist = Inr cb \<and> fst call = cx_text cb \<and>
           cx_token_count cb \<le> cm_max_tokens mgr) (ls_calls st)"
proof -
  obtain al' st r where run: "run_seeded_inner (env\<lparr> le_build_for := \<lambda>i. build_for (cenv i) mgr \<rparr>)
      conv br al seed = (al', st, r)" by (metis prod_cases3)
  from context_manager.submitted_prompts_good [OF run] show ?thesis
    by (auto simp: run list_all_iff fits_window_def)
qed

end
